(* ===== verification/Go_Base.thy ===== *)
theory Go_Base
  imports Main "HOL-Library.Word" "HOL-Library.Sublist" "HOL-Library.AList"
begin

text \<open>
  The prelude of the development: the machine types of the Go sources, the string functions of
  Go's standard library that the sources call (on ASCII strings, a \<open>string\<close> being the
  list of its bytes), 64-bit wrap-around for \<open>int64\<close> and \<open>time.Duration\<close>, and the
  generic facts on lists and association lists that the component theories share.

  Go maps are association lists with distinct keys (\<open>map_of\<close> reads, \<open>AList.update\<close>
  writes, \<open>AList.delete\<close> deletes, \<open>length\<close> is \<open>len\<close>), so that every
  definition over them computes. A Go slice is a list. A \<open>nil\<close> pointer is \<open>None\<close>.
\<close>

named_theorems go_defs \<open>definitions of the string library, unfolded when evaluating\<close>
named_theorems cache_defs \<open>definitions of the cache operations\<close>
named_theorems mw_defs \<open>definitions of the middlewares\<close>

type_synonym u8 = "8 word"
type_synonym u16 = "16 word"
type_synonym u32 = "32 word"
type_synonym u64 = "64 word"

text \<open>The client group of whoever belongs to no group (\<open>core/client_groups.go\<close>).\<close>

definition DefaultClientGroupID :: string where "DefaultClientGroupID = ''default''"

section \<open>Signed 64-bit arithmetic\<close>

text \<open>The value an \<open>int64\<close> keeps of a mathematical result (two's complement).\<close>

definition wrap64 :: "int \<Rightarrow> int" where
  "wrap64 x = (x + 2 ^ 63) mod 2 ^ 64 - 2 ^ 63"

lemma wrap64_id: "\<bar>x\<bar> < 2 ^ 63 \<Longrightarrow> wrap64 x = x"
  unfolding wrap64_def by (subst mod_pos_pos_trivial) (auto simp: abs_less_iff)

lemma wrap64_range: "- (2 ^ 63) \<le> wrap64 x \<and> wrap64 x < 2 ^ 63"
proof -
  have "0 \<le> (x + 2 ^ 63) mod 2 ^ 64" "(x + 2 ^ 63) mod 2 ^ 64 < (2 ^ 64 :: int)"
    by simp_all
  then show ?thesis by (simp add: wrap64_def)
qed

text \<open>\<open>time.Duration\<close> is an \<open>int64\<close> number of nanoseconds.\<close>

type_synonym duration = int
type_synonym time = int  \<comment> \<open>nanoseconds since the Unix epoch\<close>

definition second :: duration where "second = 1000000000"
definition millisecond :: duration where "millisecond = 1000000"

lemmas time_unit_defs = second_def millisecond_def

text \<open>Truncating division, as Go's \<open>/\<close> on integers.\<close>

definition go_div :: "int \<Rightarrow> int \<Rightarrow> int" where
  "go_div a b = sgn a * sgn b * (\<bar>a\<bar> div \<bar>b\<bar>)"

lemma go_div_pos: "0 \<le> a \<Longrightarrow> 0 < b \<Longrightarrow> go_div a b = a div b"
  by (cases "a = 0") (auto simp: go_div_def)

section \<open>Strings\<close>

definition is_space :: "char \<Rightarrow> bool" where
  "is_space c = (c \<in> set [CHR 0x09, CHR 0x0A, CHR 0x0B, CHR 0x0C, CHR 0x0D, CHR '' ''])"

text \<open>\<open>strings.Trim\<close> family: cut a class of characters from both ends.\<close>

definition trim_with :: "(char \<Rightarrow> bool) \<Rightarrow> string \<Rightarrow> string" where
  "trim_with p s = rev (dropWhile p (rev (dropWhile p s)))"

definition trim_space :: "string \<Rightarrow> string" where
  [go_defs]: "trim_space s = trim_with is_space s"

definition trim_dots :: "string \<Rightarrow> string" where
  [go_defs]: "trim_dots s = trim_with (\<lambda>c. c = CHR ''.'') s"

definition upper_letters :: string where
  "upper_letters = ''ABCDEFGHIJKLMNOPQRSTUVWXYZ''"

definition lower_letters :: string where
  "lower_letters = ''abcdefghijklmnopqrstuvwxyz''"

definition to_lower_char :: "char \<Rightarrow> char" where
  "to_lower_char c = (case map_of (zip upper_letters lower_letters) c of None \<Rightarrow> c | Some d \<Rightarrow> d)"

definition to_lower :: "string \<Rightarrow> string" where
  [go_defs]: "to_lower s = map to_lower_char s"

definition equal_fold :: "string \<Rightarrow> string \<Rightarrow> bool" where
  [go_defs]: "equal_fold s t = (to_lower s = to_lower t)"

definition has_suffix :: "string \<Rightarrow> string \<Rightarrow> bool" where
  [go_defs]: "has_suffix s suf = (length suf \<le> length s \<and> drop (length s - length suf) s = suf)"

definition has_prefix :: "string \<Rightarrow> string \<Rightarrow> bool" where
  [go_defs]: "has_prefix s pre = (take (length pre) s = pre)"

definition trim_suffix :: "string \<Rightarrow> string \<Rightarrow> string" where
  [go_defs]: "trim_suffix s suf = (if has_suffix s suf then take (length s - length suf) s else s)"

definition trim_prefix :: "string \<Rightarrow> string \<Rightarrow> string" where
  [go_defs]: "trim_prefix s pre = (if has_prefix s pre then drop (length pre) s else s)"

fun str_contains :: "string \<Rightarrow> string \<Rightarrow> bool" where
  "str_contains [] t = (t = [])"
| "str_contains (c # s) t = (has_prefix (c # s) t \<or> str_contains s t)"

text \<open>\<open>strings.Split\<close> at a single character; always at least one part.\<close>

fun split_on :: "char \<Rightarrow> string \<Rightarrow> string list" where
  "split_on d [] = [[]]"
| "split_on d (c # s) =
     (if c = d then [] # split_on d s
      else (case split_on d s of [] \<Rightarrow> [[c]] | p # ps \<Rightarrow> (c # p) # ps))"

text \<open>\<open>fmt.Sprintf("%d", n)\<close> of an unsigned number.\<close>

definition digit_char :: "nat \<Rightarrow> char" where
  "digit_char d = ''0123456789'' ! (d mod 10)"

fun itoa :: "nat \<Rightarrow> string" where
  "itoa n = (if n < 10 then [digit_char n] else itoa (n div 10) @ [digit_char n])"

declare itoa.simps [simp del]

text \<open>\<open>strconv.Atoi\<close>: an optional sign and at least one decimal digit.\<close>

definition digit_of :: "char \<Rightarrow> nat option" where
  "digit_of c = map_of (zip ''0123456789'' [0..<10]) c"

fun read_digits :: "nat \<Rightarrow> string \<Rightarrow> nat option" where
  "read_digits acc [] = Some acc"
| "read_digits acc (c # s) = (case digit_of c of None \<Rightarrow> None | Some d \<Rightarrow> read_digits (10 * acc + d) s)"

definition Atoi :: "string \<Rightarrow> int option" where
  "Atoi s =
     (let (neg, ds) = (if has_prefix s ''-'' then (True, tl s) else if has_prefix s ''+'' then (False, tl s) else (False, s))
      in if ds = [] then None
         else case read_digits 0 ds of None \<Rightarrow> None
           | Some n \<Rightarrow> (let v = (if neg then - int n else int n) in if - (2 ^ 63) \<le> v \<and> v < 2 ^ 63 then Some v else None))"

section \<open>Facts on strings\<close>

lemma lower_of_upper: "map_of (zip upper_letters lower_letters) c = Some d \<Longrightarrow> d \<in> set lower_letters"
  by (meson map_of_SomeD set_zip_rightD)

lemma lower_not_upper: "d \<in> set lower_letters \<Longrightarrow> map_of (zip upper_letters lower_letters) d = None"
proof -
  have "list_all (\<lambda>d. map_of (zip upper_letters lower_letters) d = None) lower_letters"
    by code_simp
  then show "d \<in> set lower_letters \<Longrightarrow> ?thesis" by (simp add: list_all_iff)
qed

lemma to_lower_char_idem [simp]: "to_lower_char (to_lower_char c) = to_lower_char c"
  by (auto simp: to_lower_char_def lower_not_upper [OF lower_of_upper] split: option.split)

lemma to_lower_idem [simp]: "to_lower (to_lower s) = to_lower s"
  by (simp add: to_lower_def)

lemma to_lower_Nil [simp]: "to_lower s = [] \<longleftrightarrow> s = []"
  by (simp add: to_lower_def)

lemma length_to_lower [simp]: "length (to_lower s) = length s"
  by (simp add: to_lower_def)

lemma to_lower_append [simp]: "to_lower (s @ t) = to_lower s @ to_lower t"
  by (simp add: to_lower_def)

lemma has_suffix_iff: "has_suffix s suf \<longleftrightarrow> (\<exists>pre. s = pre @ suf)"
proof
  assume h: "has_suffix s suf"
  then have "s = take (length s - length suf) s @ suf"
    using append_take_drop_id [of "length s - length suf" s] by (simp add: has_suffix_def)
  then show "\<exists>pre. s = pre @ suf" by blast
qed (auto simp: has_suffix_def)

lemma has_prefix_iff: "has_prefix s pre \<longleftrightarrow> (\<exists>t. s = pre @ t)"
  unfolding has_prefix_def by (metis append_eq_conv_conj append_take_drop_id)

lemma trim_suffix_append [simp]: "trim_suffix (s @ suf) suf = s"
  by (simp add: trim_suffix_def has_suffix_iff)

lemma set_dropWhile_subset: "set (dropWhile p xs) \<subseteq> set xs"
  by (meson set_dropWhileD subsetI)

lemma set_trim_with: "set (trim_with p s) \<subseteq> set s"
  unfolding trim_with_def by (auto dest!: set_dropWhileD)

lemma dropWhile_id: "s = [] \<or> \<not> p (hd s) \<Longrightarrow> dropWhile p s = s"
  by (cases s) auto

lemma trim_with_id:
  assumes "s = [] \<or> (\<not> p (hd s) \<and> \<not> p (last s))"
  shows "trim_with p s = s"
  using assms by (auto simp: trim_with_def dropWhile_id hd_rev)

lemma trim_with_ends:
  "trim_with p s = [] \<or> (\<not> p (hd (trim_with p s)) \<and> \<not> p (last (trim_with p s)))"
proof (cases "trim_with p s = []")
  case False
  define t where "t = dropWhile p s"
  have eq: "trim_with p s = rev (dropWhile p (rev t))" by (simp add: trim_with_def t_def)
  with False have ne: "dropWhile p (rev t) \<noteq> []" by auto
  then have last: "\<not> p (last (trim_with p s))"
    unfolding eq by (simp add: last_rev hd_dropWhile)
  obtain u where u: "rev t = u @ dropWhile p (rev t)" by (metis takeWhile_dropWhile_id)
  then have t: "t = trim_with p s @ rev u" unfolding eq by (metis rev_append rev_rev_ident)
  with False have "hd t = hd (trim_with p s)" "t \<noteq> []" by auto
  moreover have "t \<noteq> [] \<Longrightarrow> \<not> p (hd t)" unfolding t_def by (rule hd_dropWhile)
  ultimately show ?thesis using last by simp
qed simp

lemma trim_with_idem [simp]: "trim_with p (trim_with p s) = trim_with p s"
  by (rule trim_with_id) (rule trim_with_ends)

lemma trim_space_idem [simp]: "trim_space (trim_space s) = trim_space s"
  by (simp add: trim_space_def)

lemma trim_dots_idem [simp]: "trim_dots (trim_dots s) = trim_dots s"
  by (simp add: trim_dots_def)

lemma trim_space_Nil [simp]: "trim_space [] = []"
  by (simp add: trim_space_def trim_with_def)

lemma split_on_not_Nil [simp]: "split_on d s \<noteq> []"
  by (induction s) (auto split: list.splits)

lemma split_on_no_sep: "d \<notin> set s \<Longrightarrow> split_on d s = [s]"
  by (induction s) auto

lemma split_on_append: "d \<notin> set s \<Longrightarrow> split_on d (s @ d # t) = s # split_on d t"
  by (induction s) auto

section \<open>Decimal printing\<close>

lemma digit_char_inj: "digit_char m = digit_char n \<Longrightarrow> m mod 10 = n mod 10"
proof -
  have d: "distinct ''0123456789''" by simp
  assume "digit_char m = digit_char n"
  then show ?thesis
    using nth_eq_iff_index_eq [OF d, of "m mod 10" "n mod 10"]
    by (simp add: digit_char_def del: nth_Cons_numeral)
qed

lemma digit_char_digit: "digit_char n \<in> set ''0123456789''"
  unfolding digit_char_def by (rule nth_mem) simp

lemma itoa_not_Nil [simp]: "itoa n \<noteq> []" "[] \<noteq> itoa n"
  by (subst itoa.simps, simp)+

lemma itoa_digits: "set (itoa n) \<subseteq> set ''0123456789''"
proof (induction n rule: itoa.induct)
  case (1 n)
  then show ?case
    using digit_char_digit [of n] by (subst itoa.simps) (auto split: if_splits)
qed

lemma itoa_no_colon: "CHR '':'' \<notin> set (itoa n)"
  using itoa_digits [of n] by auto

lemma itoa_inj: "itoa m = itoa n \<Longrightarrow> m = n"
proof (induction m arbitrary: n rule: itoa.induct)
  case (1 m)
  have eq: "(if m < 10 then [digit_char m] else itoa (m div 10) @ [digit_char m]) =
    (if n < 10 then [digit_char n] else itoa (n div 10) @ [digit_char n])"
    using "1.prems" unfolding itoa.simps [of m] itoa.simps [of n] .
  have low: "m mod 10 = n mod 10"
  proof -
    from eq have "last (if m < 10 then [digit_char m] else itoa (m div 10) @ [digit_char m]) =
      last (if n < 10 then [digit_char n] else itoa (n div 10) @ [digit_char n])"
      by (rule arg_cong)
    then have "digit_char m = digit_char n" by (cases "m < 10"; cases "n < 10") simp_all
    then show ?thesis by (rule digit_char_inj)
  qed
  show ?case
  proof (cases "m < 10")
    case True
    with eq have "n < 10" by (auto split: if_splits)
    with True low show ?thesis by simp
  next
    case False
    with eq have n: "\<not> n < 10" by (auto split: if_splits)
    with False eq have "itoa (m div 10) = itoa (n div 10)" by simp
    with "1.IH" False have "m div 10 = n div 10" by blast
    with low show ?thesis by (metis div_mult_mod_eq)
  qed
qed

section \<open>Association lists and lists\<close>

lemma map_of_delete [simp]: "map_of (AList.delete k m) x = (if x = k then None else map_of m x)"
  by (simp add: delete_conv)

lemma keys_delete_subset: "fst ` set (AList.delete k m) \<subseteq> fst ` set m"
  by (auto simp: AList.delete_eq)

lemma length_delete_le: "length (AList.delete k m) \<le> length m"
  by (simp add: AList.delete_eq)

lemma delete_absent: "map_of m k = None \<Longrightarrow> AList.delete k m = m"
  by (induction m) (auto split: if_splits)

lemma length_delete_present:
  assumes "distinct (map fst m)" "map_of m k \<noteq> None"
  shows "Suc (length (AList.delete k m)) = length m"
  using assms
proof (induction m)
  case (Cons p m)
  then show ?case
    by (cases p; cases "fst p = k") (force simp: delete_absent map_of_eq_None_iff)+
qed simp

lemma length_update_absent: "map_of m k = None \<Longrightarrow> length (AList.update k v m) = Suc (length m)"
  by (induction m) (auto split: if_splits)

lemma set_update_absent: "map_of m k = None \<Longrightarrow> set (AList.update k v m) = insert (k, v) (set m)"
  by (induction m) (auto split: if_splits)

lemma set_update_subset: "set (AList.update k v m) \<subseteq> insert (k, v) (set m)"
  by (induction m) auto

lemma mem_snd_image: "v \<in> snd ` set m \<longleftrightarrow> (\<exists>k. (k, v) \<in> set m)"
  by force

lemma filter_neq_id: "x \<notin> set xs \<Longrightarrow> filter (\<lambda>y. y \<noteq> x) xs = xs"
  by (induction xs) auto

lemma filter_neq_length:
  assumes "distinct xs" "x \<in> set xs"
  shows "Suc (length (filter (\<lambda>y. y \<noteq> x) xs)) = length xs"
  using assms by (induction xs) (auto simp: filter_neq_id)

end
