(* ===== verification/Go_Net.thy ===== *)
theory Go_Net
  imports Go_Base
begin

unbundle bit_operations_syntax

text \<open>
  The part of Go's \<open>net\<close> package that the sources use: an address is its bytes
  (\<open>net.IP\<close>, four or sixteen of them; \<open>[]\<close> is the nil address), a network is an
  address and a mask. Parsing (\<open>ParseIP\<close>, \<open>ParseCIDR\<close>), printing
  (\<open>IP.String\<close>, RFC 5952), membership (\<open>IPNet.Contains\<close>) and the address-class
  predicates follow the standard library.
\<close>

type_synonym ip = "u8 list"

record ip_net =
  net_IP :: ip
  net_Mask :: "u8 list"

section \<open>Forms of an address\<close>

definition v4_in_v6_prefix :: "u8 list" where
  "v4_in_v6_prefix = [0, 0, 0, 0, 0, 0, 0, 0, 0, 0, 255, 255]"

text \<open>\<open>IP.To4\<close>: the four-byte form, nil when the address is not an IPv4 address.\<close>

definition To4 :: "ip \<Rightarrow> ip" where
  "To4 a = (if length a = 4 then a
     else if length a = 16 \<and> take 12 a = v4_in_v6_prefix then drop 12 a else [])"

text \<open>\<open>IP.To16\<close>: the sixteen-byte form, nil for a slice of another length.\<close>

definition To16 :: "ip \<Rightarrow> ip" where
  "To16 a = (if length a = 4 then v4_in_v6_prefix @ a else if length a = 16 then a else [])"

text \<open>The idiom \<open>if v4 := ip.To4(); v4 != nil { ip = v4 }\<close> of the sources.\<close>

definition norm_ip :: "ip \<Rightarrow> ip" where
  "norm_ip a = (if To4 a \<noteq> [] then To4 a else a)"

definition IPv4 :: "u8 \<Rightarrow> u8 \<Rightarrow> u8 \<Rightarrow> u8 \<Rightarrow> ip" where
  "IPv4 a b c d = v4_in_v6_prefix @ [a, b, c, d]"

definition ip_Equal :: "ip \<Rightarrow> ip \<Rightarrow> bool" where
  "ip_Equal a b = (if length a = length b then a = b
     else if length a = 4 \<and> length b = 16 then take 12 b = v4_in_v6_prefix \<and> drop 12 b = a
     else if length a = 16 \<and> length b = 4 then take 12 a = v4_in_v6_prefix \<and> drop 12 a = b
     else False)"

section \<open>Networks\<close>

text \<open>\<open>net.CIDRMask(ones, bits)\<close> for \<open>bits\<close> a multiple of eight.\<close>

definition mask_byte :: "nat \<Rightarrow> u8" where
  "mask_byte n = (if 8 \<le> n then 255 else of_nat (256 - 2 ^ (8 - n)))"

definition CIDRMask :: "nat \<Rightarrow> nat \<Rightarrow> u8 list" where
  "CIDRMask ones bits = map (\<lambda>i. mask_byte (ones - 8 * i)) [0..<bits div 8]"

definition and_bytes :: "u8 list \<Rightarrow> u8 list \<Rightarrow> u8 list" where
  "and_bytes xs ys = map2 (\<lambda>x y. x AND y) xs ys"

text \<open>\<open>networkNumberAndMask\<close> of the standard library; \<open>None\<close> for an ill-formed network.\<close>

definition network_number_and_mask :: "ip_net \<Rightarrow> (ip \<times> u8 list) option" where
  "network_number_and_mask n =
     (let a = (if To4 (net_IP n) \<noteq> [] then To4 (net_IP n) else net_IP n); m = net_Mask n
      in if length a \<noteq> 4 \<and> length a \<noteq> 16 then None
         else if length m = 4 then (if length a = 4 then Some (a, m) else None)
         else if length m = 16 then Some (a, if length a = 4 then drop 12 m else m)
         else None)"

definition net_Contains :: "ip_net \<Rightarrow> ip \<Rightarrow> bool" where
  "net_Contains n a =
     (case network_number_and_mask n of None \<Rightarrow> False
      | Some (nn, m) \<Rightarrow>
          length (norm_ip a) = length nn \<and> and_bytes nn m = and_bytes (norm_ip a) m)"

section \<open>Address classes\<close>

definition IsPrivate :: "ip \<Rightarrow> bool" where
  "IsPrivate a = (let b = To4 a in
     if b \<noteq> [] then b ! 0 = 10 \<or> (b ! 0 = 172 \<and> b ! 1 AND 0xF0 = 16) \<or> (b ! 0 = 192 \<and> b ! 1 = 168)
     else length a = 16 \<and> a ! 0 AND 0xFE = 0xFC)"

definition ipv6_loopback :: ip where
  "ipv6_loopback = [0, 0, 0, 0, 0, 0, 0, 0, 0, 0, 0, 0, 0, 0, 0, 1]"

definition ipv6_zero :: ip where
  "ipv6_zero = replicate 16 0"

definition IsLoopback :: "ip \<Rightarrow> bool" where
  "IsLoopback a = (if To4 a \<noteq> [] then To4 a ! 0 = 127 else ip_Equal a ipv6_loopback)"

definition IsLinkLocalUnicast :: "ip \<Rightarrow> bool" where
  "IsLinkLocalUnicast a = (if To4 a \<noteq> [] then To4 a ! 0 = 169 \<and> To4 a ! 1 = 254
     else length a = 16 \<and> a ! 0 = 0xFE \<and> a ! 1 AND 0xC0 = 0x80)"

definition IsUnspecified :: "ip \<Rightarrow> bool" where
  "IsUnspecified a = (ip_Equal a (IPv4 0 0 0 0) \<or> ip_Equal a ipv6_zero)"

section \<open>Parsing\<close>

definition digit_value :: "char \<Rightarrow> nat option" where
  "digit_value c = map_of (zip ''0123456789'' [0..<10]) c"

definition hex_value :: "char \<Rightarrow> nat option" where
  "hex_value c = map_of (zip ''0123456789abcdefABCDEF'' ([0..<16] @ [10..<16])) c"

text \<open>Digits read from left to right in a base; \<open>None\<close> at the first character that is no digit.\<close>

fun read_number :: "nat \<Rightarrow> (char \<Rightarrow> nat option) \<Rightarrow> nat \<Rightarrow> string \<Rightarrow> nat option" where
  "read_number base dv acc [] = Some acc"
| "read_number base dv acc (c # s) =
     (case dv c of None \<Rightarrow> None | Some d \<Rightarrow> read_number base dv (base * acc + d) s)"

text \<open>One field of a dotted address: digits, at most 255, no leading zero.\<close>

definition parse_octet :: "string \<Rightarrow> u8 option" where
  "parse_octet s =
     (if s = [] \<or> 3 < length s \<or> (1 < length s \<and> hd s = CHR ''0'') then None
      else case read_number 10 digit_value 0 s of None \<Rightarrow> None
           | Some n \<Rightarrow> if n \<le> 255 then Some (of_nat n) else None)"

fun all_some :: "'a option list \<Rightarrow> 'a list option" where
  "all_some [] = Some []"
| "all_some (None # xs) = None"
| "all_some (Some x # xs) = map_option (Cons x) (all_some xs)"

definition parse_ipv4 :: "string \<Rightarrow> ip option" where
  "parse_ipv4 s = (let parts = split_on CHR ''.'' s
     in if length parts = 4 then all_some (map parse_octet parts) else None)"

text \<open>One group of an IPv6 literal: one to four hexadecimal digits, two bytes.\<close>

definition parse_group :: "string \<Rightarrow> ip option" where
  "parse_group s =
     (if s = [] \<or> 4 < length s then None
      else case read_number 16 hex_value 0 s of None \<Rightarrow> None
           | Some n \<Rightarrow> Some [of_nat (n div 256), of_nat (n mod 256)])"

text \<open>The groups of one side of a literal; an embedded dotted address may only come last.\<close>

fun parse_groups :: "bool \<Rightarrow> string list \<Rightarrow> ip option" where
  "parse_groups v4ok [] = Some []"
| "parse_groups v4ok [g] =
     (if v4ok \<and> CHR ''.'' \<in> set g then parse_ipv4 g else parse_group g)"
| "parse_groups v4ok (g # gs) =
     (case parse_group g of None \<Rightarrow> None
      | Some b \<Rightarrow> map_option (\<lambda>bs. b @ bs) (parse_groups v4ok gs))"

text \<open>The text before and after the first double colon.\<close>

fun cut_ellipsis :: "string \<Rightarrow> (string \<times> string) option" where
  "cut_ellipsis [] = None"
| "cut_ellipsis [c] = None"
| "cut_ellipsis (c # d # s) =
     (if c = CHR '':'' \<and> d = CHR '':'' then Some ([], s)
      else map_option (\<lambda>(l, r). (c # l, r)) (cut_ellipsis (d # s)))"

definition colon_parts :: "string \<Rightarrow> string list" where
  "colon_parts s = (if s = [] then [] else split_on CHR '':'' s)"

definition parse_ipv6 :: "string \<Rightarrow> ip option" where
  "parse_ipv6 s = (case cut_ellipsis s of
      None \<Rightarrow> (case parse_groups True (split_on CHR '':'' s) of
                 None \<Rightarrow> None | Some b \<Rightarrow> if length b = 16 then Some b else None)
    | Some (l, r) \<Rightarrow>
        (case (parse_groups False (colon_parts l), parse_groups True (colon_parts r)) of
           (Some a, Some b) \<Rightarrow>
             if length a + length b < 16
             then Some (a @ replicate (16 - length a - length b) 0 @ b) else None
         | _ \<Rightarrow> None))"

text \<open>Which of \<open>'.'\<close> and \<open>':'\<close> comes first decides the family.\<close>

definition first_sep :: "string \<Rightarrow> char option" where
  "first_sep s = find (\<lambda>c. c \<in> set ''.:%'') s"

definition parse_addr :: "string \<Rightarrow> ip option" where
  "parse_addr s = (if first_sep s = Some CHR ''.'' then parse_ipv4 s
     else if first_sep s = Some CHR '':'' then parse_ipv6 s else None)"

text \<open>\<open>net.ParseIP\<close> answers the sixteen-byte form; nil when the text is no address.\<close>

definition ParseIP :: "string \<Rightarrow> ip" where
  "ParseIP s = (case parse_addr s of None \<Rightarrow> []
     | Some b \<Rightarrow> if length b = 4 then v4_in_v6_prefix @ b else b)"

definition mask_ip :: "ip \<Rightarrow> u8 list \<Rightarrow> ip" where
  "mask_ip a m = (let b = (if length m = 4 \<and> To4 a \<noteq> [] then To4 a else a) in and_bytes b m)"

definition ParseCIDR :: "string \<Rightarrow> ip_net option" where
  "ParseCIDR s =
     (let a = takeWhile (\<lambda>c. c \<noteq> CHR ''/'') s; r = dropWhile (\<lambda>c. c \<noteq> CHR ''/'') s
      in if r = [] \<or> tl r = [] then None
         else case (parse_addr a, read_number 10 digit_value 0 (tl r)) of
           (Some b, Some n) \<Rightarrow>
             if n \<le> 8 * length b
             then Some \<lparr>net_IP = mask_ip b (CIDRMask n (8 * length b)),
                        net_Mask = CIDRMask n (8 * length b)\<rparr>
             else None
         | _ \<Rightarrow> None)"

section \<open>Printing\<close>

definition hex_char :: "nat \<Rightarrow> char" where
  "hex_char d = ''0123456789abcdef'' ! (d mod 16)"

fun hex_of :: "nat \<Rightarrow> string" where
  "hex_of n = (if n < 16 then [hex_char n] else hex_of (n div 16) @ [hex_char n])"

declare hex_of.simps [simp del]

definition groups_of :: "ip \<Rightarrow> nat list" where
  "groups_of a = map (\<lambda>i. unat (a ! (2 * i)) * 256 + unat (a ! (2 * i + 1))) [0..<8]"

definition zero_run :: "nat list \<Rightarrow> nat" where
  "zero_run gs = length (takeWhile (\<lambda>g. g = 0) gs)"

text \<open>The first longest run of at least two zero groups: its start and its length.\<close>

definition best_run :: "nat list \<Rightarrow> nat \<times> nat" where
  "best_run gs = foldl (\<lambda>(st, ln) i. let r = zero_run (drop i gs)
      in if 2 \<le> r \<and> ln < r then (i, r) else (st, ln)) (8, 0) [0..<8]"

fun join_colon :: "string list \<Rightarrow> string" where
  "join_colon [] = []"
| "join_colon [x] = x"
| "join_colon (x # xs) = x @ '':'' @ join_colon xs"

definition ipv6_string :: "ip \<Rightarrow> string" where
  "ipv6_string a = (let gs = groups_of a; (st, ln) = best_run gs
     in if ln = 0 then join_colon (map hex_of gs)
        else join_colon (map hex_of (take st gs)) @ ''::'' @ join_colon (map hex_of (drop (st + ln) gs)))"

definition dotted :: "ip \<Rightarrow> string" where
  "dotted a = itoa (unat (a ! 0)) @ ''.'' @ itoa (unat (a ! 1)) @ ''.'' @
     itoa (unat (a ! 2)) @ ''.'' @ itoa (unat (a ! 3))"

definition ip_String :: "ip \<Rightarrow> string" where
  "ip_String a = (if a = [] then ''<nil>'' else if To4 a \<noteq> [] then dotted (To4 a)
     else if length a = 16 then ipv6_string a else ''?'')"

section \<open>Facts\<close>

lemma To4_length: "To4 a \<noteq> [] \<Longrightarrow> length (To4 a) = 4"
  by (auto simp: To4_def split: if_splits)

lemma To4_norm_ip [simp]: "To4 (norm_ip a) = To4 a"
  using To4_length [of a] by (auto simp: norm_ip_def) (simp add: To4_def)

lemma norm_ip_idem [simp]: "norm_ip (norm_ip a) = norm_ip a"
  using To4_norm_ip [of a] by (simp add: norm_ip_def split: if_splits)

lemma norm_ip_Nil [simp]: "norm_ip a = [] \<longleftrightarrow> a = []"
  by (auto simp: norm_ip_def To4_def)

lemma To4_Nil [simp]: "To4 [] = []"
  by (simp add: To4_def)

lemma ip_String_norm_ip [simp]: "ip_String (norm_ip a) = ip_String a"
proof (cases "To4 a = []")
  case True
  then show ?thesis by (simp add: norm_ip_def)
next
  case False
  then have "a \<noteq> []" by auto
  with False show ?thesis by (simp add: ip_String_def)
qed

lemma net_Contains_norm_ip [simp]: "net_Contains n (norm_ip a) = net_Contains n a"
  by (simp add: net_Contains_def cong: option.case_cong)

lemma length_CIDRMask [simp]: "length (CIDRMask n b) = b div 8"
  by (simp add: CIDRMask_def)

lemma length_and_bytes [simp]: "length (and_bytes a m) = min (length a) (length m)"
  by (simp add: and_bytes_def)

end
