(* ===== verification/Dns_Msg.thy ===== *)
theory Dns_Msg
  imports Go_Net
begin

text \<open>
  DNS messages as the sources see them through the \<open>miekg/dns\<close> package: the fields they
  read or write of \<open>dns.Msg\<close>, \<open>dns.Question\<close>, \<open>dns.RR_Header\<close> and of the
  record types they build or match on. Every other record type is \<open>RD_other\<close>, its
  payload kept as text. A message is an immutable value, so \<open>Msg.Copy\<close> and
  \<open>dns.Copy\<close> are the identity.

  What the package computes (replies, name syntax, packing) is a parameter: the record
  \<open>dns_lib\<close> bundles these functions, and \<open>dns_lib_ok\<close> states the documented
  behaviour the properties rely on.
\<close>

section \<open>Codes\<close>

abbreviation TypeA :: u16 where "TypeA \<equiv> 1"
abbreviation TypeCNAME :: u16 where "TypeCNAME \<equiv> 5"
abbreviation TypeSOA :: u16 where "TypeSOA \<equiv> 6"
abbreviation TypePTR :: u16 where "TypePTR \<equiv> 12"
abbreviation TypeHINFO :: u16 where "TypeHINFO \<equiv> 13"
abbreviation TypeTXT :: u16 where "TypeTXT \<equiv> 16"
abbreviation TypeAAAA :: u16 where "TypeAAAA \<equiv> 28"
abbreviation TypeDNAME :: u16 where "TypeDNAME \<equiv> 39"
abbreviation TypeOPT :: u16 where "TypeOPT \<equiv> 41"
abbreviation TypeSVCB :: u16 where "TypeSVCB \<equiv> 64"
abbreviation TypeHTTPS :: u16 where "TypeHTTPS \<equiv> 65"
abbreviation TypeANY :: u16 where "TypeANY \<equiv> 255"
abbreviation ClassINET :: u16 where "ClassINET \<equiv> 1"

abbreviation RcodeSuccess :: nat where "RcodeSuccess \<equiv> 0"
abbreviation RcodeServerFailure :: nat where "RcodeServerFailure \<equiv> 2"
abbreviation RcodeNameError :: nat where "RcodeNameError \<equiv> 3"
abbreviation RcodeNotImplemented :: nat where "RcodeNotImplemented \<equiv> 4"
abbreviation RcodeRefused :: nat where "RcodeRefused \<equiv> 5"

section \<open>Records and messages\<close>

record rr_header =
  h_Name :: string
  h_Rrtype :: u16
  h_Class :: u16
  h_Ttl :: u32

datatype svcb_kv =
    SVCBIPv4Hint "ip list"
  | SVCBIPv6Hint "ip list"
  | SVCBECHConfig "u8 list"
  | SVCBAlpn "string list"
  | SVCBPort u16
  | SVCBDoHPath string
  | SVCBOther u16 string

text \<open>\<open>Key()\<close>: the code of a service parameter.\<close>

fun svcb_Key :: "svcb_kv \<Rightarrow> u16" where
  "svcb_Key (SVCBAlpn _) = 1"
| "svcb_Key (SVCBPort _) = 3"
| "svcb_Key (SVCBIPv4Hint _) = 4"
| "svcb_Key (SVCBECHConfig _) = 5"
| "svcb_Key (SVCBIPv6Hint _) = 6"
| "svcb_Key (SVCBDoHPath _) = 7"
| "svcb_Key (SVCBOther k _) = k"

datatype edns0 =
    EDNS0_EDE u16 string
  | EDNS0_SUBNET u16 u8 u8 ip
  | EDNS0_PADDING "u8 list"
  | EDNS0_OTHER u16 string

text \<open>\<open>Option()\<close>: the code of an EDNS0 option.\<close>

fun edns0_Option :: "edns0 \<Rightarrow> u16" where
  "edns0_Option (EDNS0_EDE _ _) = 15"
| "edns0_Option (EDNS0_SUBNET _ _ _ _) = 8"
| "edns0_Option (EDNS0_PADDING _) = 12"
| "edns0_Option (EDNS0_OTHER c _) = c"

datatype rdata =
    RD_A ip
  | RD_AAAA ip
  | RD_CNAME string
  | RD_DNAME string
  | RD_PTR string
  | RD_HINFO string string
  | RD_SOA string string u32 u32 u32 u32 u32
  | RD_OPT "edns0 list"
  | RD_HTTPS u16 string "svcb_kv list"
  | RD_SVCB u16 string "svcb_kv list"
  | RD_TXT "string list"
  | RD_other string

record rr =
  rr_Hdr :: rr_header
  rr_Data :: rdata

record question =
  q_Name :: string
  q_Qtype :: u16
  q_Qclass :: u16

record msg =
  m_Id :: u16
  m_Response :: bool
  m_Opcode :: nat
  m_Authoritative :: bool
  m_Truncated :: bool
  m_RecursionDesired :: bool
  m_RecursionAvailable :: bool
  m_Rcode :: nat
  m_Question :: "question list"
  m_Answer :: "rr list"
  m_Ns :: "rr list"
  m_Extra :: "rr list"

definition empty_msg :: msg where
  "empty_msg = \<lparr>m_Id = 0, m_Response = False, m_Opcode = 0, m_Authoritative = False, m_Truncated = False,
     m_RecursionDesired = False, m_RecursionAvailable = False, m_Rcode = 0,
     m_Question = [], m_Answer = [], m_Ns = [], m_Extra = []\<rparr>"

definition mk_rr :: "string \<Rightarrow> u16 \<Rightarrow> u32 \<Rightarrow> rdata \<Rightarrow> rr" where
  "mk_rr name t ttl d =
     \<lparr>rr_Hdr = \<lparr>h_Name = name, h_Rrtype = t, h_Class = ClassINET, h_Ttl = ttl\<rparr>, rr_Data = d\<rparr>"

text \<open>\<open>rr.Header().Rrtype\<close> and \<open>rr.Header().Ttl\<close>.\<close>

abbreviation rr_type :: "rr \<Rightarrow> u16" where "rr_type r \<equiv> h_Rrtype (rr_Hdr r)"
abbreviation rr_ttl :: "rr \<Rightarrow> u32" where "rr_ttl r \<equiv> h_Ttl (rr_Hdr r)"

text \<open>The lifetime of a rewritten answer (\<open>core/rewrite.go\<close>).\<close>

definition DefaultRewriteTTL :: u32 where "DefaultRewriteTTL = 60"

definition set_ttl :: "u32 \<Rightarrow> rr \<Rightarrow> rr" where
  "set_ttl t r = r\<lparr>rr_Hdr := (rr_Hdr r)\<lparr>h_Ttl := t\<rparr>\<rparr>"

lemma set_ttl_simps [simp]:
  "rr_ttl (set_ttl t r) = t" "rr_type (set_ttl t r) = rr_type r"
  "rr_Data (set_ttl t r) = rr_Data r" "h_Name (rr_Hdr (set_ttl t r)) = h_Name (rr_Hdr r)"
  by (simp_all add: set_ttl_def)

section \<open>The DNS package as a parameter\<close>

record dns_lib =
  SetReply :: "msg \<Rightarrow> msg"                 \<comment> \<open>\<open>new(dns.Msg).SetReply(req)\<close>\<close>
  SetRcode :: "msg \<Rightarrow> nat \<Rightarrow> msg"         \<comment> \<open>\<open>new(dns.Msg).SetRcode(req, rcode)\<close>\<close>
  Fqdn :: "string \<Rightarrow> string"
  IsDomainName :: "string \<Rightarrow> bool"
  CountLabel :: "string \<Rightarrow> nat"
  Pack :: "msg \<Rightarrow> u8 list option"
  Unpack :: "u8 list \<Rightarrow> msg option"

text \<open>
  The documented behaviour: a reply carries the identifier and the first question of the
  request, is a response with an empty body, and \<open>SetRcode\<close> is \<open>SetReply\<close> with the
  given code; \<open>Fqdn\<close> appends the root dot where it is missing or escaped.
\<close>

definition is_fqdn :: "string \<Rightarrow> bool" where
  "is_fqdn s \<longleftrightarrow> has_suffix s ''.'' \<and> even (length (takeWhile (\<lambda>c. c = CHR 0x5C) (rev (butlast s))))"

definition dns_lib_ok :: "dns_lib \<Rightarrow> bool" where
  "dns_lib_ok L \<longleftrightarrow>
     (\<forall>req. m_Id (SetReply L req) = m_Id req \<and> m_Response (SetReply L req) \<and>
        m_Rcode (SetReply L req) = RcodeSuccess \<and> m_Question (SetReply L req) = take 1 (m_Question req) \<and>
        m_Answer (SetReply L req) = [] \<and> m_Ns (SetReply L req) = [] \<and> m_Extra (SetReply L req) = []) \<and>
     (\<forall>req c. SetRcode L req c = (SetReply L req)\<lparr>m_Rcode := c\<rparr>) \<and>
     (\<forall>s. Fqdn L s = (if is_fqdn s then s else s @ ''.''))"

text \<open>A concrete instance, at which the witnesses evaluate.\<close>

definition sample_reply :: "msg \<Rightarrow> msg" where
  "sample_reply req = empty_msg\<lparr>m_Id := m_Id req, m_Response := True, m_Opcode := m_Opcode req,
     m_RecursionDesired := m_RecursionDesired req, m_Question := take 1 (m_Question req)\<rparr>"

definition sample_lib :: dns_lib where
  "sample_lib = \<lparr>SetReply = sample_reply, SetRcode = (\<lambda>req c. (sample_reply req)\<lparr>m_Rcode := c\<rparr>),
     Fqdn = (\<lambda>s. if is_fqdn s then s else s @ ''.''), IsDomainName = (\<lambda>s. s \<noteq> []),
     CountLabel = (\<lambda>s. length (filter (\<lambda>c. c = CHR ''.'') s)),
     Pack = (\<lambda>m. None), Unpack = (\<lambda>b. None)\<rparr>"

lemma dns_lib_okD:
  assumes "dns_lib_ok L"
  shows "m_Id (SetReply L req) = m_Id req" "m_Response (SetReply L req)"
    "m_Rcode (SetReply L req) = RcodeSuccess" "m_Question (SetReply L req) = take 1 (m_Question req)"
    "m_Answer (SetReply L req) = []" "m_Ns (SetReply L req) = []" "m_Extra (SetReply L req) = []"
    "SetRcode L req c = (SetReply L req)\<lparr>m_Rcode := c\<rparr>"
    "Fqdn L s = (if is_fqdn s then s else s @ ''.'')"
  using assms by (simp_all add: dns_lib_ok_def)

lemma sample_lib_ok: "dns_lib_ok sample_lib"
  by (simp add: dns_lib_ok_def sample_lib_def sample_reply_def empty_msg_def)

end
