(* ===== verification/Cache_Policy.thy ===== *)
theory Cache_Policy
  imports Dns_Msg
begin

text \<open>
  The cache policy (\<open>core/cache_policy.go\<close>, \<open>core/cache_types.go\<close>,
  \<open>core/cache_exclude.go\<close>): the configuration and its normalization, the cache key and
  its shard, the TTL rules, TTL rewriting and the domain exclusion rules. The regular-expression
  compiler is a parameter (\<open>compile\<close>): it turns a pattern into its match function or fails.
\<close>

section \<open>Configuration\<close>

record cache_config =
  cc_Enabled :: bool
  cc_MaxEntries :: int
  cc_Mode :: string
  cc_MaxTTLSeconds :: int
  cc_FixedTTLSeconds :: int
  cc_MinTTLEnabled :: bool
  cc_MinTTLSeconds :: int
  cc_StaleFallbackEnabled :: bool
  cc_StaleFallbackSeconds :: int
  cc_NegativeTTLEnabled :: bool
  cc_NegativeTTLSeconds :: int
  cc_Optimistic :: bool
  cc_PrefetchEnabled :: bool
  cc_PrefetchThreshold :: int
  cc_PrefetchBeforeExpiryMs :: int
  cc_ExcludePatterns :: "string list"
  cc_PersistEnabled :: bool
  cc_PersistPath :: string
  cc_PersistIntervalSeconds :: int

definition NumDNSCacheShards :: nat where "NumDNSCacheShards = 64"
definition DefaultMaxCacheEntries :: int where "DefaultMaxCacheEntries = 4096"
definition defaultPrefetchThreshold :: int where "defaultPrefetchThreshold = 5"
definition defaultPrefetchBeforeMs :: int where "defaultPrefetchBeforeMs = 30000"
definition maxPrefetchBeforeMs :: int where "maxPrefetchBeforeMs = 3600000"
definition defaultPersistIntervalSeconds :: int where "defaultPersistIntervalSeconds = 300"
definition minPersistIntervalSeconds :: int where "minPersistIntervalSeconds = 30"
definition maxPersistIntervalSeconds :: int where "maxPersistIntervalSeconds = 86400"

lemmas cache_const_defs = NumDNSCacheShards_def DefaultMaxCacheEntries_def
  defaultPrefetchThreshold_def defaultPrefetchBeforeMs_def maxPrefetchBeforeMs_def
  defaultPersistIntervalSeconds_def minPersistIntervalSeconds_def maxPersistIntervalSeconds_def

definition DefaultCacheConfig :: cache_config where
  "DefaultCacheConfig = \<lparr>cc_Enabled = True, cc_MaxEntries = DefaultMaxCacheEntries,
     cc_Mode = ''limit_max_ttl'', cc_MaxTTLSeconds = 3600, cc_FixedTTLSeconds = 3600,
     cc_MinTTLEnabled = True, cc_MinTTLSeconds = 60, cc_StaleFallbackEnabled = True,
     cc_StaleFallbackSeconds = 300, cc_NegativeTTLEnabled = True, cc_NegativeTTLSeconds = 30,
     cc_Optimistic = True, cc_PrefetchEnabled = False,
     cc_PrefetchThreshold = defaultPrefetchThreshold,
     cc_PrefetchBeforeExpiryMs = defaultPrefetchBeforeMs, cc_ExcludePatterns = [],
     cc_PersistEnabled = False, cc_PersistPath = [], cc_PersistIntervalSeconds = 0\<rparr>"

definition default_if_nonpos :: "int \<Rightarrow> int \<Rightarrow> int" where
  "default_if_nonpos d x = (if x \<le> 0 then d else x)"

definition normalize_prefetch_threshold :: "int \<Rightarrow> int" where
  "normalize_prefetch_threshold t =
     (let t1 = default_if_nonpos defaultPrefetchThreshold t in if t1 > 100000 then 100000 else t1)"

definition normalize_prefetch_before :: "int \<Rightarrow> int" where
  "normalize_prefetch_before t =
     (let t1 = default_if_nonpos defaultPrefetchBeforeMs t;
          t2 = (if t1 < 1000 then 1000 else t1)
      in if t2 > maxPrefetchBeforeMs then maxPrefetchBeforeMs else t2)"

definition normalize_persist_interval :: "bool \<Rightarrow> int \<Rightarrow> int" where
  "normalize_persist_interval on t =
     (if on then
        (let t1 = default_if_nonpos defaultPersistIntervalSeconds t;
             t2 = (if t1 < minPersistIntervalSeconds then minPersistIntervalSeconds else t1)
         in if t2 > maxPersistIntervalSeconds then maxPersistIntervalSeconds else t2)
      else if t < 0 then 0 else t)"

definition NormalizeCacheConfig :: "cache_config \<Rightarrow> cache_config" where
  "NormalizeCacheConfig c = c\<lparr>
     cc_MaxEntries := default_if_nonpos DefaultMaxCacheEntries (cc_MaxEntries c),
     cc_MaxTTLSeconds := default_if_nonpos 3600 (cc_MaxTTLSeconds c),
     cc_FixedTTLSeconds := default_if_nonpos 3600 (cc_FixedTTLSeconds c),
     cc_MinTTLSeconds := default_if_nonpos 60 (cc_MinTTLSeconds c),
     cc_StaleFallbackSeconds := default_if_nonpos 300 (cc_StaleFallbackSeconds c),
     cc_NegativeTTLSeconds := default_if_nonpos 30 (cc_NegativeTTLSeconds c),
     cc_Mode := (if cc_Mode c = [] then ''limit_max_ttl'' else cc_Mode c),
     cc_PrefetchThreshold := normalize_prefetch_threshold (cc_PrefetchThreshold c),
     cc_PrefetchBeforeExpiryMs := normalize_prefetch_before (cc_PrefetchBeforeExpiryMs c),
     cc_PersistIntervalSeconds :=
       normalize_persist_interval (cc_PersistEnabled c) (cc_PersistIntervalSeconds c)\<rparr>"

lemmas normalize_defs = default_if_nonpos_def normalize_prefetch_threshold_def
  normalize_prefetch_before_def normalize_persist_interval_def

section \<open>Keys and shards\<close>

definition NormalizeCacheDomain :: "string \<Rightarrow> string" where
  "NormalizeCacheDomain d = to_lower (trim_suffix (trim_space d) ''.'')"

definition normalizeCacheGroup :: "string \<Rightarrow> string" where
  "normalizeCacheGroup g = (let t = trim_space g in if t = [] then DefaultClientGroupID else t)"

definition CacheKeyForGroup :: "string \<Rightarrow> u16 \<Rightarrow> u16 \<Rightarrow> string \<Rightarrow> string" where
  "CacheKeyForGroup domain qtype qclass grp =
     (let base = NormalizeCacheDomain domain @ '':'' @ itoa (unat qtype) @ '':'' @ itoa (unat qclass);
          g = trim_space grp
      in if g = [] \<or> g = DefaultClientGroupID then base else base @ '':'' @ g)"

definition CacheKey :: "string \<Rightarrow> u16 \<Rightarrow> u16 \<Rightarrow> string" where
  "CacheKey domain qtype qclass = CacheKeyForGroup domain qtype qclass DefaultClientGroupID"

text \<open>FNV-1a over the bytes of the key, at 32 bits.\<close>

definition fnv32 :: "string \<Rightarrow> u32" where
  "fnv32 s = foldl (\<lambda>h c. (xor h (of_char c)) * 16777619) 2166136261 s"

definition shard_index :: "string \<Rightarrow> nat" where
  "shard_index key = unat (fnv32 key mod 64)"

section \<open>TTL rules\<close>

fun min_answer_ttl :: "rr list \<Rightarrow> u32 \<times> bool \<Rightarrow> u32 \<times> bool" where
  "min_answer_ttl [] acc = acc"
| "min_answer_ttl (r # rs) (m, found) =
     (if rr_type r = TypeOPT then min_answer_ttl rs (m, found)
      else if \<not> found \<or> rr_ttl r < m then min_answer_ttl rs (rr_ttl r, True)
      else min_answer_ttl rs (m, found))"

fun first_soa_ttl :: "rr list \<Rightarrow> u32 \<times> bool" where
  "first_soa_ttl [] = (0, False)"
| "first_soa_ttl (r # rs) =
     (case rr_Data r of
        RD_SOA _ _ _ _ _ _ minttl \<Rightarrow>
          (if minttl = 0 \<or> (rr_ttl r > 0 \<and> rr_ttl r < minttl) then rr_ttl r else minttl, True)
      | _ \<Rightarrow> first_soa_ttl rs)"

definition ExtractMinTTL :: "msg \<Rightarrow> u32 \<times> bool" where
  "ExtractMinTTL m =
     (let (t, found) = min_answer_ttl (m_Answer m) (0, False)
      in if m_Answer m \<noteq> [] \<and> found then (t, True) else first_soa_ttl (m_Ns m))"

definition CalculateEffectiveTTL :: "u32 \<Rightarrow> cache_config \<Rightarrow> duration" where
  "CalculateEffectiveTTL upstreamTTL cfg =
     (let mode = to_lower (cc_Mode cfg);
          t0 = uint upstreamTTL;
          t1 = (if mode = ''follow_dns_ttl'' then t0
                else if mode = ''fixed_ttl'' then
                  (if cc_FixedTTLSeconds cfg > 0 then cc_FixedTTLSeconds cfg else t0)
                else if cc_MaxTTLSeconds cfg > 0 \<and> t0 > cc_MaxTTLSeconds cfg
                  then cc_MaxTTLSeconds cfg else t0);
          t2 = (if mode \<noteq> ''fixed_ttl'' \<and> cc_MinTTLEnabled cfg \<and> cc_MinTTLSeconds cfg > 0 \<and>
                   t1 < cc_MinTTLSeconds cfg then cc_MinTTLSeconds cfg else t1)
      in if t2 \<le> 0 then 0 else wrap64 (t2 * second))"

definition CalculateNegativeTTL :: "u32 \<Rightarrow> bool \<Rightarrow> cache_config \<Rightarrow> duration" where
  "CalculateNegativeTTL soaTTL found cfg =
     (let n0 = uint soaTTL;
          n1 = (if \<not> found \<or> n0 \<le> 0 \<or> (cc_NegativeTTLSeconds cfg > 0 \<and> n0 > cc_NegativeTTLSeconds cfg)
                then cc_NegativeTTLSeconds cfg else n0);
          n2 = (if n1 \<le> 0 then 30 else n1);
          n3 = (if n2 < 5 then 5 else n2);
          n4 = (if n3 > 300 then 300 else n3)
      in wrap64 (n4 * second))"

definition rewrite_rr :: "u32 \<Rightarrow> rr \<Rightarrow> rr" where
  "rewrite_rr t r = (if rr_type r \<noteq> TypeOPT then set_ttl t r else r)"

definition RewriteTTL :: "msg \<Rightarrow> u32 \<Rightarrow> msg" where
  "RewriteTTL m t = m\<lparr>m_Answer := map (rewrite_rr t) (m_Answer m),
     m_Ns := map (rewrite_rr t) (m_Ns m), m_Extra := map (rewrite_rr t) (m_Extra m)\<rparr>"

definition rr_ip_string :: "rr \<Rightarrow> string" where
  "rr_ip_string r = (case rr_Data r of
      RD_A a \<Rightarrow> (if a \<noteq> [] then ip_String a else [])
    | RD_AAAA a \<Rightarrow> (if a \<noteq> [] then ip_String a else [])
    | _ \<Rightarrow> [])"

fun extract_ips :: "rr list \<Rightarrow> string list \<Rightarrow> string list" where
  "extract_ips [] ips = ips"
| "extract_ips (r # rs) ips =
     (if rr_ip_string r \<noteq> [] \<and> rr_ip_string r \<notin> set ips
      then extract_ips rs (ips @ [rr_ip_string r]) else extract_ips rs ips)"

definition ExtractIPs :: "msg \<Rightarrow> string list" where
  "ExtractIPs m = extract_ips (m_Answer m) []"

section \<open>Exclusion rules\<close>

record cache_excluder =
  ex_patterns :: "string list"
  ex_res :: "(string \<Rightarrow> bool) list"
  ex_hits :: u64

definition empty_excluder :: cache_excluder where
  "empty_excluder = \<lparr>ex_patterns = [], ex_res = [], ex_hits = 0\<rparr>"

datatype exclude_problem = TooManyPatterns | PatternTooLong string | PatternInvalid string

definition maxCacheExcludePatterns :: nat where "maxCacheExcludePatterns = 256"
definition maxCacheExcludePatternLen :: nat where "maxCacheExcludePatternLen = 512"

fun exclude_loop :: "(string \<Rightarrow> (string \<Rightarrow> bool) option) \<Rightarrow> string list \<Rightarrow>
    cache_excluder \<times> exclude_problem list \<Rightarrow> cache_excluder \<times> exclude_problem list" where
  "exclude_loop compile [] acc = acc"
| "exclude_loop compile (raw # rest) (e, problems) =
     (let p = trim_space raw in
      if p = [] then exclude_loop compile rest (e, problems)
      else if length (ex_patterns e) \<ge> maxCacheExcludePatterns then (e, problems @ [TooManyPatterns])
      else if length p > maxCacheExcludePatternLen
        then exclude_loop compile rest (e, problems @ [PatternTooLong p])
      else case compile p of
          None \<Rightarrow> exclude_loop compile rest (e, problems @ [PatternInvalid p])
        | Some re \<Rightarrow> exclude_loop compile rest
            (e\<lparr>ex_patterns := ex_patterns e @ [p], ex_res := ex_res e @ [re]\<rparr>, problems))"

definition NewCacheExcluder ::
  "(string \<Rightarrow> (string \<Rightarrow> bool) option) \<Rightarrow> string list \<Rightarrow> cache_excluder \<times> exclude_problem list" where
  "NewCacheExcluder compile patterns = exclude_loop compile patterns (empty_excluder, [])"

text \<open>A match counts as a hit.\<close>

definition IsExcluded :: "cache_excluder \<Rightarrow> string \<Rightarrow> bool \<times> cache_excluder" where
  "IsExcluded e domain =
     (let d = NormalizeCacheDomain domain in
      if ex_res e = [] \<or> d = [] then (False, e)
      else if list_ex (\<lambda>re. re d) (ex_res e) then (True, e\<lparr>ex_hits := ex_hits e + 1\<rparr>)
      else (False, e))"

section \<open>Facts: normalization\<close>

lemma NormalizeCacheConfig_simps [simp]:
  "cc_Enabled (NormalizeCacheConfig c) = cc_Enabled c"
  "cc_ExcludePatterns (NormalizeCacheConfig c) = cc_ExcludePatterns c"
  "cc_PersistEnabled (NormalizeCacheConfig c) = cc_PersistEnabled c"
  "cc_PersistPath (NormalizeCacheConfig c) = cc_PersistPath c"
  "cc_StaleFallbackEnabled (NormalizeCacheConfig c) = cc_StaleFallbackEnabled c"
  "cc_NegativeTTLEnabled (NormalizeCacheConfig c) = cc_NegativeTTLEnabled c"
  by (simp_all add: NormalizeCacheConfig_def)

text \<open>The ranges every normalized configuration lies in.\<close>

definition config_in_range :: "cache_config \<Rightarrow> bool" where
  "config_in_range c \<longleftrightarrow>
     0 < cc_MaxEntries c \<and> 0 < cc_MaxTTLSeconds c \<and> 0 < cc_FixedTTLSeconds c \<and>
     0 < cc_MinTTLSeconds c \<and> 0 < cc_StaleFallbackSeconds c \<and> 0 < cc_NegativeTTLSeconds c \<and>
     cc_Mode c \<noteq> [] \<and> 1 \<le> cc_PrefetchThreshold c \<and> cc_PrefetchThreshold c \<le> 100000 \<and>
     1000 \<le> cc_PrefetchBeforeExpiryMs c \<and> cc_PrefetchBeforeExpiryMs c \<le> 3600000 \<and>
     (cc_PersistEnabled c \<longrightarrow>
        30 \<le> cc_PersistIntervalSeconds c \<and> cc_PersistIntervalSeconds c \<le> 86400) \<and>
     0 \<le> cc_PersistIntervalSeconds c"

lemma default_if_nonpos_pos: "0 < d \<Longrightarrow> 0 < default_if_nonpos d x"
  by (simp add: default_if_nonpos_def)

lemma default_if_nonpos_id: "0 < x \<Longrightarrow> default_if_nonpos d x = x"
  by (simp add: default_if_nonpos_def)

lemma normalize_prefetch_threshold_range:
  "1 \<le> normalize_prefetch_threshold t" "normalize_prefetch_threshold t \<le> 100000"
  by (simp_all add: normalize_defs cache_const_defs Let_def)

lemma normalize_prefetch_before_range:
  "1000 \<le> normalize_prefetch_before t" "normalize_prefetch_before t \<le> 3600000"
  by (simp_all add: normalize_defs cache_const_defs Let_def)

lemma normalize_persist_interval_range:
  "on \<Longrightarrow> 30 \<le> normalize_persist_interval on t" "on \<Longrightarrow> normalize_persist_interval on t \<le> 86400"
  "0 \<le> normalize_persist_interval on t"
  by (simp_all add: normalize_defs cache_const_defs Let_def)

lemma normalize_ids:
  "1 \<le> t \<Longrightarrow> t \<le> 100000 \<Longrightarrow> normalize_prefetch_threshold t = t"
  "1000 \<le> t \<Longrightarrow> t \<le> 3600000 \<Longrightarrow> normalize_prefetch_before t = t"
  "0 \<le> t \<Longrightarrow> (on \<Longrightarrow> 30 \<le> t \<and> t \<le> 86400) \<Longrightarrow> normalize_persist_interval on t = t"
  by (auto simp: normalize_defs cache_const_defs Let_def)

lemma normalize_in_range: "config_in_range (NormalizeCacheConfig c)"
  by (simp add: config_in_range_def NormalizeCacheConfig_def default_if_nonpos_pos
      normalize_prefetch_threshold_range normalize_prefetch_before_range
      normalize_persist_interval_range DefaultMaxCacheEntries_def)

lemma normalize_fixpoint: "config_in_range c \<Longrightarrow> NormalizeCacheConfig c = c"
  by (simp add: config_in_range_def NormalizeCacheConfig_def default_if_nonpos_id normalize_ids)

text \<open>
  Normalizing a cache configuration puts every numeric field into its documented range
  (positive capacity and TTLs, prefetch threshold in 1..100000, prefetch lead in 1 s..1 h, persist
  interval in 30 s..24 h when persistence is on), leaves a configuration already in range
  unchanged, and is therefore idempotent.
\<close>

theorem NormalizeCacheConfig_correct:
  "config_in_range (NormalizeCacheConfig c) \<and>
   NormalizeCacheConfig (NormalizeCacheConfig c) = NormalizeCacheConfig c \<and>
   (NormalizeCacheConfig c = c) = config_in_range c"
  using normalize_in_range [of c] normalize_fixpoint by metis

section \<open>Facts: keys\<close>

lemma append_sep_inj:
  "x \<notin> set a \<Longrightarrow> x \<notin> set b \<Longrightarrow> (a @ x # s = b @ x # t) = (a = b \<and> s = t)"
proof (induction a arbitrary: b)
  case Nil
  then show ?case by (cases b) auto
next
  case (Cons y a)
  then show ?case by (cases b) auto
qed

lemma u16_itoa_eq: "itoa (unat (a :: u16)) = itoa (unat b) \<longleftrightarrow> a = b"
  using itoa_inj word_unat_eq_iff by blast

lemma to_lower_char_colon: "to_lower_char c = CHR '':'' \<Longrightarrow> c = CHR '':''"
proof -
  have "list_all (\<lambda>d. d \<noteq> CHR '':'') lower_letters" by code_simp
  then have "\<And>d. d \<in> set lower_letters \<Longrightarrow> d \<noteq> CHR '':''" by (simp add: list_all_iff)
  then show "to_lower_char c = CHR '':'' \<Longrightarrow> c = CHR '':''"
    by (auto simp: to_lower_char_def split: option.splits dest: lower_of_upper)
qed

lemma NormalizeCacheDomain_no_colon:
  assumes "CHR '':'' \<notin> set d"
  shows "CHR '':'' \<notin> set (NormalizeCacheDomain d)"
proof
  assume "CHR '':'' \<in> set (NormalizeCacheDomain d)"
  then have "CHR '':'' \<in> set (trim_suffix (trim_space d) ''.'')"
    by (auto simp: NormalizeCacheDomain_def to_lower_def dest!: sym [THEN to_lower_char_colon])
  then have "CHR '':'' \<in> set (trim_space d)"
    by (auto simp: trim_suffix_def split: if_splits dest: in_set_takeD)
  with assms show False using set_trim_with by (auto simp: trim_space_def)
qed

lemma itoa_neq_colon: "itoa n \<noteq> itoa m @ CHR '':'' # g" "itoa m @ CHR '':'' # g \<noteq> itoa n"
  using itoa_no_colon [of n] by (metis in_set_conv_decomp)+

lemma normalizeCacheGroup_eq:
  "normalizeCacheGroup g = (if trim_space g = [] \<or> trim_space g = DefaultClientGroupID
     then DefaultClientGroupID else trim_space g)"
  by (simp add: normalizeCacheGroup_def Let_def)

lemma key_same_group:
  assumes "CHR '':'' \<notin> set d1" "CHR '':'' \<notin> set d2"
    and "CacheKeyForGroup d1 t1 c1 g1 = CacheKeyForGroup d2 t2 c2 g2"
  shows "normalizeCacheGroup g1 = normalizeCacheGroup g2"
  using assms
  by (auto simp: CacheKeyForGroup_def Let_def normalizeCacheGroup_eq append_sep_inj
      NormalizeCacheDomain_no_colon itoa_no_colon itoa_neq_colon split: if_splits)

text \<open>
  The cache key separates exactly what it should: for query names without a colon, two keys
  are equal iff the normalized names, the types, the classes and the client groups (blank meaning
  the default group) are all equal. Answers of different client groups therefore never share a key.
\<close>

theorem CacheKeyForGroup_injective:
  assumes "CHR '':'' \<notin> set d1" and "CHR '':'' \<notin> set d2"
  shows "CacheKeyForGroup d1 t1 c1 g1 = CacheKeyForGroup d2 t2 c2 g2 \<longleftrightarrow>
    NormalizeCacheDomain d1 = NormalizeCacheDomain d2 \<and> t1 = t2 \<and> c1 = c2 \<and>
    normalizeCacheGroup g1 = normalizeCacheGroup g2"
  using assms
  by (auto simp: CacheKeyForGroup_def Let_def normalizeCacheGroup_eq append_sep_inj
      NormalizeCacheDomain_no_colon itoa_no_colon u16_itoa_eq itoa_neq_colon)

theorem CacheKeyForGroup_injective_witness:
  "(CacheKeyForGroup ''a.b'' 1 1 ''kids'' = CacheKeyForGroup ''a.b'' 1 1 ''iot'') =
     (NormalizeCacheDomain ''a.b'' = NormalizeCacheDomain ''a.b'' \<and> (1 :: u16) = 1 \<and> (1 :: u16) = 1 \<and>
      normalizeCacheGroup ''kids'' = normalizeCacheGroup ''iot'')"
  by (rule CacheKeyForGroup_injective) simp_all

lemma shard_index_less: "shard_index key < NumDNSCacheShards"
proof -
  have "fnv32 key mod 64 < (64 :: u32)" by (rule word_mod_less_divisor) simp
  then show ?thesis by (simp add: shard_index_def NumDNSCacheShards_def word_less_nat_alt)
qed

section \<open>Facts: TTLs\<close>

lemma min_answer_ttl_found:
  "min_answer_ttl rs (m, True) = (fold min (map rr_ttl (filter (\<lambda>r. rr_type r \<noteq> TypeOPT) rs)) m, True)"
  by (induction rs arbitrary: m) (auto simp: min_def intro!: arg_cong2 [where f = "fold min"])

lemma fold_min_le: "fold min xs m \<le> (m :: 'a :: linorder) \<and> (\<forall>x \<in> set xs. fold min xs m \<le> x)"
proof (induction xs arbitrary: m)
  case (Cons x xs)
  have "fold min xs (min x m) \<le> min x m" "\<forall>y \<in> set xs. fold min xs (min x m) \<le> y"
    using Cons.IH [of "min x m"] by blast+
  then show ?case by simp
qed simp

lemma fold_min_mem: "fold min xs m = (m :: 'a :: linorder) \<or> fold min xs m \<in> set xs"
proof (induction xs arbitrary: m)
  case (Cons x xs)
  from Cons.IH [of "min x m"] show ?case by (auto simp: min_def split: if_splits)
qed simp

lemma min_answer_ttl_start:
  "min_answer_ttl rs (m, False) =
     (case filter (\<lambda>r. rr_type r \<noteq> TypeOPT) rs of [] \<Rightarrow> (m, False)
      | r # rest \<Rightarrow> (fold min (map rr_ttl rest) (rr_ttl r), True))"
  by (induction rs) (auto simp: min_answer_ttl_found)

text \<open>
  For a positive answer the extracted TTL is the least TTL among the non-OPT records of the
  answer section: it is a lower bound of all of them and is reached by one of them.
\<close>

theorem ExtractMinTTL_answer:
  assumes "\<exists>r \<in> set (m_Answer m). rr_type r \<noteq> TypeOPT"
  shows "snd (ExtractMinTTL m) \<and>
    (\<forall>r \<in> set (m_Answer m). rr_type r \<noteq> TypeOPT \<longrightarrow> fst (ExtractMinTTL m) \<le> rr_ttl r) \<and>
    (\<exists>r \<in> set (m_Answer m). rr_type r \<noteq> TypeOPT \<and> fst (ExtractMinTTL m) = rr_ttl r)"
proof -
  let ?f = "filter (\<lambda>r. rr_type r \<noteq> TypeOPT) (m_Answer m)"
  from assms have "?f \<noteq> []" by (auto simp: filter_empty_conv)
  then obtain r rest where f: "?f = r # rest" by (cases ?f) auto
  have ne: "m_Answer m \<noteq> []" using assms by auto
  have e: "ExtractMinTTL m = (fold min (map rr_ttl rest) (rr_ttl r), True)"
    using ne by (simp add: ExtractMinTTL_def min_answer_ttl_start f)
  have s: "set ?f = {x \<in> set (m_Answer m). rr_type x \<noteq> TypeOPT}" by auto
  have bounds: "\<forall>x \<in> set ?f. fst (ExtractMinTTL m) \<le> rr_ttl x"
    unfolding f e using fold_min_le [of "map rr_ttl rest" "rr_ttl r"] by auto
  have reach: "\<exists>x \<in> set ?f. fst (ExtractMinTTL m) = rr_ttl x"
    unfolding f e using fold_min_mem [of "map rr_ttl rest" "rr_ttl r"] by auto
  show ?thesis using bounds reach e unfolding s by auto
qed

theorem ExtractMinTTL_answer_witness:
  "snd (ExtractMinTTL (empty_msg\<lparr>m_Answer := [mk_rr ''a.'' TypeA 60 (RD_A []), mk_rr ''a.'' TypeA 30 (RD_A [])]\<rparr>))"
  using ExtractMinTTL_answer [of "empty_msg\<lparr>m_Answer := [mk_rr ''a.'' TypeA 60 (RD_A []), mk_rr ''a.'' TypeA 30 (RD_A [])]\<rparr>"]
  by (simp add: mk_rr_def)

text \<open>The mode of the configuration decides the rule.\<close>

definition clamp_ttl :: "cache_config \<Rightarrow> int \<Rightarrow> int" where
  "clamp_ttl cfg t =
     (if to_lower (cc_Mode cfg) = ''fixed_ttl'' then cc_FixedTTLSeconds cfg
      else (let u = (if to_lower (cc_Mode cfg) = ''follow_dns_ttl'' then t else min t (cc_MaxTTLSeconds cfg))
            in if cc_MinTTLEnabled cfg then max u (cc_MinTTLSeconds cfg) else u))"

lemma effective_ttl_eq:
  assumes "config_in_range cfg"
  shows "CalculateEffectiveTTL t cfg =
    (if clamp_ttl cfg (uint t) \<le> 0 then 0 else wrap64 (clamp_ttl cfg (uint t) * second))"
  using assms
  by (auto simp: CalculateEffectiveTTL_def clamp_ttl_def config_in_range_def Let_def min_def max_def)

text \<open>
  The positive cache lifetime follows the policy: under a normalized configuration whose
  TTL settings are below 2^33 seconds, the effective TTL is exactly the fixed TTL in fixed mode, and
  otherwise the upstream TTL capped at the maximum (unless the mode follows the upstream) and
  then raised to the minimum when a minimum is enabled, in nanoseconds and without overflow.
\<close>

theorem CalculateEffectiveTTL_policy:
  assumes "config_in_range cfg" and "cc_FixedTTLSeconds cfg < 2 ^ 33"
    and "cc_MaxTTLSeconds cfg < 2 ^ 33" and "cc_MinTTLSeconds cfg < 2 ^ 33"
  shows "CalculateEffectiveTTL t cfg = clamp_ttl cfg (uint t) * second"
proof -
  have t: "0 \<le> uint t" "uint t < 2 ^ 32" using uint_lt2p [of t] by auto
  have b: "0 \<le> clamp_ttl cfg (uint t)" "clamp_ttl cfg (uint t) < 2 ^ 33"
    using assms t by (auto simp: clamp_ttl_def config_in_range_def Let_def)
  have "wrap64 (clamp_ttl cfg (uint t) * second) = clamp_ttl cfg (uint t) * second"
    by (rule wrap64_id) (use b in \<open>simp add: second_def\<close>)
  with b show ?thesis by (auto simp: effective_ttl_eq [OF assms(1)])
qed

theorem CalculateEffectiveTTL_policy_witness:
  "CalculateEffectiveTTL 86400 DefaultCacheConfig = clamp_ttl DefaultCacheConfig (uint (86400 :: u32)) * second"
  by (rule CalculateEffectiveTTL_policy)
    (simp_all add: config_in_range_def DefaultCacheConfig_def cache_const_defs)

text \<open>
  A negative answer is never cached for less than 5 seconds or more than 300 seconds,
  whatever the SOA record and the configuration say.
\<close>

theorem CalculateNegativeTTL_bounds:
  "5 * second \<le> CalculateNegativeTTL soa found cfg \<and> CalculateNegativeTTL soa found cfg \<le> 300 * second"
proof -
  define n where "n = (let n1 = (if \<not> found \<or> uint soa \<le> 0 \<or>
      (cc_NegativeTTLSeconds cfg > 0 \<and> uint soa > cc_NegativeTTLSeconds cfg)
    then cc_NegativeTTLSeconds cfg else uint soa); n2 = (if n1 \<le> 0 then 30 else n1);
    n3 = (if n2 < 5 then 5 else n2) in if n3 > 300 then 300 else n3)"
  have n: "5 \<le> n" "n \<le> 300" by (auto simp: n_def Let_def)
  have "CalculateNegativeTTL soa found cfg = wrap64 (n * second)"
    by (simp add: CalculateNegativeTTL_def n_def Let_def)
  also have "\<dots> = n * second" by (rule wrap64_id) (use n in \<open>simp add: second_def\<close>)
  finally show ?thesis using n by (simp add: second_def)
qed

section \<open>Facts: rewriting and address extraction\<close>

lemma rewrite_rr_simps [simp]:
  "rr_type (rewrite_rr t r) = rr_type r" "rr_Data (rewrite_rr t r) = rr_Data r"
  "rewrite_rr t (rewrite_rr u r) = rewrite_rr t r"
  by (simp_all add: rewrite_rr_def set_ttl_def)

lemma RewriteTTL_simps [simp]:
  "m_Id (RewriteTTL m t) = m_Id m" "m_Rcode (RewriteTTL m t) = m_Rcode m"
  "m_Question (RewriteTTL m t) = m_Question m"
  "m_Answer (RewriteTTL m t) = map (rewrite_rr t) (m_Answer m)"
  "m_Ns (RewriteTTL m t) = map (rewrite_rr t) (m_Ns m)"
  "m_Extra (RewriteTTL m t) = map (rewrite_rr t) (m_Extra m)"
  by (simp_all add: RewriteTTL_def)

lemma extract_ips_props:
  "distinct ips \<Longrightarrow> distinct (extract_ips rs ips) \<and>
     set (extract_ips rs ips) = set ips \<union> (rr_ip_string ` set rs - {[]})"
  by (induction rs arbitrary: ips) auto

section \<open>Facts: exclusion\<close>

definition excluder_inv :: "cache_excluder \<Rightarrow> bool" where
  "excluder_inv e \<longleftrightarrow> length (ex_res e) = length (ex_patterns e) \<and>
     length (ex_patterns e) \<le> maxCacheExcludePatterns \<and>
     (\<forall>p \<in> set (ex_patterns e). p \<noteq> [] \<and> length p \<le> maxCacheExcludePatternLen)"

lemma exclude_loop_inv:
  "excluder_inv e \<Longrightarrow> excluder_inv (fst (exclude_loop compile ps (e, problems)))"
proof (induction compile ps "(e, problems)" arbitrary: e problems rule: exclude_loop.induct)
  case (2 compile raw rest e problems)
  let ?p = "trim_space raw"
  consider (blank) "?p = []" | (many) "?p \<noteq> []" "length (ex_patterns e) \<ge> maxCacheExcludePatterns"
    | (long) "?p \<noteq> []" "length (ex_patterns e) < maxCacheExcludePatterns" "length ?p > maxCacheExcludePatternLen"
    | (ok) "?p \<noteq> []" "length (ex_patterns e) < maxCacheExcludePatterns" "length ?p \<le> maxCacheExcludePatternLen"
    by linarith
  then show ?case
  proof cases
    case ok
    then show ?thesis
    proof (cases "compile ?p")
      case (Some re)
      have "excluder_inv (e\<lparr>ex_patterns := ex_patterns e @ [?p], ex_res := ex_res e @ [re]\<rparr>)"
        using "2.prems" ok by (simp add: excluder_inv_def)
      with ok Some "2.hyps"(4) show ?thesis by simp
    qed (use 2 ok in simp)
  qed (use 2 in simp_all)
qed simp

lemma exclude_loop_compiled:
  "map Some (ex_res e) = map compile (ex_patterns e) \<Longrightarrow>
   map Some (ex_res (fst (exclude_loop compile ps (e, problems)))) =
   map compile (ex_patterns (fst (exclude_loop compile ps (e, problems))))"
proof (induction compile ps "(e, problems)" arbitrary: e problems rule: exclude_loop.induct)
  case (2 compile raw rest e problems)
  then show ?case by (simp add: Let_def split: option.split)
qed simp

end
