(* ===== verification/Dns_Cache.thy ===== *)
theory Dns_Cache
  imports Cache_Policy
begin

text \<open>
  The sharded LRU cache (\<open>core/cache.go\<close>, \<open>core/cache_capacity.go\<close>,
  \<open>core/cache_cleaner.go\<close>, \<open>core/cache_stats.go\<close>). Entries are shared objects: a
  reader that holds a pointer to an entry may act on it after the entry has left the shard, so
  entries live in a heap and the shards hold addresses. Every critical section (what runs under
  one acquisition of a shard's mutex) is one function of the heap and the shard; the operations
  compose them, and the step relation at the end lets the sections of any number of goroutines
  interleave.

  An entry is pushed on the LRU list exactly once, when it is created, so its list element is
  identified with its address and the field \<open>elem\<close> keeps whether the pointer is non-nil.
  A clock reading is an argument; an operation that reads the clock twice has two.
\<close>

section \<open>State\<close>

type_synonym addr = nat

record cacheEntry =
  ce_key :: string
  ce_group :: string
  ce_domain :: string
  ce_qtype :: u16
  ce_qclass :: u16
  ce_msg :: msg
  ce_originalTTL :: u32
  ce_effectiveTTL :: duration
  ce_createdAt :: time
  ce_expiresAt :: time
  ce_staleUntil :: time
  ce_isNegative :: bool
  ce_rcode :: nat
  ce_ipList :: "string list"
  ce_hitCount :: u64
  ce_lastHitAt :: time
  ce_elem :: bool
  ce_lastPrefetchAt :: time

text \<open>The zero value of the structure.\<close>

definition zero_entry :: cacheEntry where
  "zero_entry = \<lparr>ce_key = [], ce_group = [], ce_domain = [], ce_qtype = 0, ce_qclass = 0,
     ce_msg = empty_msg, ce_originalTTL = 0, ce_effectiveTTL = 0, ce_createdAt = 0,
     ce_expiresAt = 0, ce_staleUntil = 0, ce_isNegative = False, ce_rcode = 0, ce_ipList = [],
     ce_hitCount = 0, ce_lastHitAt = 0, ce_elem = False, ce_lastPrefetchAt = 0\<rparr>"

type_synonym heap = "addr \<Rightarrow> cacheEntry option"

definition deref :: "heap \<Rightarrow> addr \<Rightarrow> cacheEntry" where
  "deref h a = (case h a of None \<Rightarrow> zero_entry | Some e \<Rightarrow> e)"

definition heap_upd :: "heap \<Rightarrow> addr \<Rightarrow> (cacheEntry \<Rightarrow> cacheEntry) \<Rightarrow> heap" where
  "heap_upd h a f = h(a := map_option f (h a))"

record cacheShard =
  sh_entries :: "(string \<times> addr) list"
  sh_lruList :: "addr list"
  sh_maxEntries :: nat

record dns_cache =
  dc_config :: cache_config
  dc_shards :: "cacheShard list"
  dc_maxEntries :: int
  dc_excluder :: "cache_excluder option"
  dc_persistRunning :: bool
  dc_lastPersistError :: string
  dc_totalHits :: u64
  dc_totalMisses :: u64
  dc_staleHits :: u64
  dc_negativeHits :: u64
  dc_evictions :: u64
  dc_prefetchCount :: u64
  dc_closed :: bool
  dc_heap :: heap
  dc_next :: addr

section \<open>Critical sections of a shard\<close>

text \<open>Unlink an entry from the LRU list if it is linked.\<close>

definition lru_unlink :: "heap \<Rightarrow> cacheShard \<Rightarrow> addr \<Rightarrow> heap \<times> cacheShard" where
  "lru_unlink h s a =
     (if ce_elem (deref h a)
      then (heap_upd h a (ce_elem_update (\<lambda>_. False)),
            s\<lparr>sh_lruList := filter (\<lambda>b. b \<noteq> a) (sh_lruList s)\<rparr>)
      else (h, s))"

definition shard_delete :: "heap \<Rightarrow> cacheShard \<Rightarrow> string \<Rightarrow> addr \<Rightarrow> heap \<times> cacheShard" where
  "shard_delete h s k a =
     (let (h1, s1) = lru_unlink h s a in (h1, s1\<lparr>sh_entries := AList.delete k (sh_entries s1)\<rparr>))"

text \<open>Drop the least recently used entry; the flag tells whether one was evicted.\<close>

definition evict_back :: "heap \<Rightarrow> cacheShard \<Rightarrow> heap \<times> cacheShard \<times> bool" where
  "evict_back h s =
     (if sh_lruList s = [] then (h, s, False)
      else (let back = last (sh_lruList s)
            in (heap_upd h back (ce_elem_update (\<lambda>_. False)),
                s\<lparr>sh_lruList := butlast (sh_lruList s),
                  sh_entries := AList.delete (ce_key (deref h back)) (sh_entries s)\<rparr>, True)))"

definition push_front :: "heap \<Rightarrow> cacheShard \<Rightarrow> addr \<Rightarrow> cacheEntry \<Rightarrow> heap \<times> cacheShard" where
  "push_front h s a e =
     (h(a \<mapsto> e\<lparr>ce_elem := True\<rparr>),
      s\<lparr>sh_lruList := a # sh_lruList s, sh_entries := AList.update (ce_key e) a (sh_entries s)\<rparr>)"

text \<open>The locked part of \<open>PutForGroup\<close>: replace, or make room, then insert in front.\<close>

definition shard_put :: "heap \<Rightarrow> cacheShard \<Rightarrow> addr \<Rightarrow> cacheEntry \<Rightarrow> heap \<times> cacheShard \<times> bool" where
  "shard_put h s a e =
     (let (h1, s1, ev) =
        (case map_of (sh_entries s) (ce_key e) of
           Some old \<Rightarrow> (let (h1, s1) = shard_delete h s (ce_key e) old in (h1, s1, False))
         | None \<Rightarrow> (if length (sh_entries s) \<ge> sh_maxEntries s then evict_back h s else (h, s, False)));
       (h2, s2) = push_front h1 s1 a e
      in (h2, s2, ev))"

text \<open>The LRU promotion of a hit, under the write lock: skipped when the entry was unlinked meanwhile.\<close>

definition shard_promote :: "heap \<Rightarrow> cacheShard \<Rightarrow> addr \<Rightarrow> cacheShard" where
  "shard_promote h s a =
     (if ce_elem (deref h a) \<and> (sh_lruList s = [] \<or> hd (sh_lruList s) \<noteq> a)
      then s\<lparr>sh_lruList := a # filter (\<lambda>b. b \<noteq> a) (sh_lruList s)\<rparr> else s)"

text \<open>The lazy eviction of an expired entry: only if the key still maps to that very entry.\<close>

definition shard_lazy_evict :: "heap \<Rightarrow> cacheShard \<Rightarrow> string \<Rightarrow> addr \<Rightarrow> time \<Rightarrow> heap \<times> cacheShard \<times> bool" where
  "shard_lazy_evict h s k a now =
     (if map_of (sh_entries s) k = Some a \<and> now > ce_staleUntil (deref h a)
      then (let (h1, s1) = shard_delete h s k a in (h1, s1, True)) else (h, s, False))"

definition shard_remove :: "heap \<Rightarrow> cacheShard \<Rightarrow> string \<Rightarrow> heap \<times> cacheShard \<times> bool" where
  "shard_remove h s k =
     (case map_of (sh_entries s) k of
        Some old \<Rightarrow> (let (h1, s1) = shard_delete h s k old in (h1, s1, True))
      | None \<Rightarrow> (h, s, False))"

fun unlink_all :: "heap \<Rightarrow> addr list \<Rightarrow> heap" where
  "unlink_all h [] = h"
| "unlink_all h (a # as) = unlink_all (heap_upd h a (ce_elem_update (\<lambda>_. False))) as"

definition shard_clear :: "heap \<Rightarrow> cacheShard \<Rightarrow> heap \<times> cacheShard" where
  "shard_clear h s =
     (unlink_all h (map snd (sh_entries s)), s\<lparr>sh_entries := [], sh_lruList := []\<rparr>)"

text \<open>The shrinking loop of \<open>resizeCapacity\<close> on one shard; each round shortens the LRU list.\<close>

function shard_shrink :: "nat \<Rightarrow> heap \<Rightarrow> cacheShard \<Rightarrow> u64 \<Rightarrow> heap \<times> cacheShard \<times> u64" where
  "shard_shrink n h s ev =
     (if length (sh_entries s) > n \<and> sh_lruList s \<noteq> []
      then (let (h1, s1, _) = evict_back h s in shard_shrink n h1 s1 (ev + 1))
      else (h, s, ev))"
  by pat_completeness auto
termination
  by (relation "measure (\<lambda>(n, h, s, ev). length (sh_lruList s))")
    (auto simp: evict_back_def Let_def)

declare shard_shrink.simps [simp del]

fun cleanup_entries :: "time \<Rightarrow> (string \<times> addr) list \<Rightarrow> heap \<Rightarrow> cacheShard \<Rightarrow> u64 \<Rightarrow> heap \<times> cacheShard \<times> u64" where
  "cleanup_entries now [] h s ev = (h, s, ev)"
| "cleanup_entries now ((k, a) # rest) h s ev =
     (if now > ce_staleUntil (deref h a)
      then (let (h1, s1) = shard_delete h s k a in cleanup_entries now rest h1 s1 (ev + 1))
      else cleanup_entries now rest h s ev)"

definition shard_cleanup :: "time \<Rightarrow> heap \<Rightarrow> cacheShard \<Rightarrow> u64 \<Rightarrow> heap \<times> cacheShard \<times> u64" where
  "shard_cleanup now h s ev = cleanup_entries now (sh_entries s) h s ev"

section \<open>Operations of the cache\<close>

definition shard_at :: "dns_cache \<Rightarrow> string \<Rightarrow> cacheShard" where
  "shard_at c k = dc_shards c ! shard_index k"

definition set_shard :: "dns_cache \<Rightarrow> nat \<Rightarrow> heap \<Rightarrow> cacheShard \<Rightarrow> dns_cache" where
  "set_shard c i h s = c\<lparr>dc_shards := (dc_shards c)[i := s], dc_heap := h\<rparr>"

definition per_shard :: "int \<Rightarrow> nat" where
  "per_shard maxEntries = (let n = maxEntries div int NumDNSCacheShards in if n \<le> 0 then 1 else nat n)"

definition IsEnabled :: "dns_cache \<Rightarrow> bool" where
  "IsEnabled c = cc_Enabled (dc_config c)"

definition IsStaleFallbackEnabled :: "dns_cache \<Rightarrow> bool" where
  "IsStaleFallbackEnabled c = (cc_Enabled (dc_config c) \<and> cc_StaleFallbackEnabled (dc_config c))"

definition IsOptimistic :: "dns_cache \<Rightarrow> bool" where
  "IsOptimistic c = (cc_Enabled (dc_config c) \<and> cc_Optimistic (dc_config c))"

definition Excluder :: "dns_cache \<Rightarrow> cache_excluder" where
  "Excluder c = (case dc_excluder c of Some ex \<Rightarrow> ex | None \<Rightarrow> empty_excluder)"

definition cache_IsExcluded :: "dns_cache \<Rightarrow> string \<Rightarrow> bool \<times> dns_cache" where
  "cache_IsExcluded c domain =
     (case dc_excluder c of
        None \<Rightarrow> (False, c)
      | Some ex \<Rightarrow> (let (b, ex') = IsExcluded ex domain in (b, c\<lparr>dc_excluder := Some ex'\<rparr>)))"

text \<open>The persistence loop is represented by whether it runs.\<close>

definition StartPersistLoop :: "dns_cache \<Rightarrow> dns_cache" where
  "StartPersistLoop c =
     (let cfg = dc_config c in
      if \<not> cc_PersistEnabled cfg \<or> cc_PersistPath cfg = [] then c
      else if dc_persistRunning c then c
      else if wrap64 (cc_PersistIntervalSeconds cfg * second) \<le> 0 then c
      else c\<lparr>dc_persistRunning := True\<rparr>)"

definition StopPersistLoop :: "dns_cache \<Rightarrow> dns_cache" where
  "StopPersistLoop c = c\<lparr>dc_persistRunning := False\<rparr>"

definition SyncPersistLoop :: "dns_cache \<Rightarrow> dns_cache" where
  "SyncPersistLoop c = StartPersistLoop (StopPersistLoop c)"

definition new_shard :: "nat \<Rightarrow> cacheShard" where
  "new_shard n = \<lparr>sh_entries = [], sh_lruList = [], sh_maxEntries = n\<rparr>"

definition NewDNSCache :: "(string \<Rightarrow> (string \<Rightarrow> bool) option) \<Rightarrow> cache_config \<Rightarrow> dns_cache" where
  "NewDNSCache compile cfg0 =
     (let cfg = NormalizeCacheConfig cfg0;
          maxEntries = (if cc_MaxEntries cfg \<le> 0 then DefaultMaxCacheEntries else cc_MaxEntries cfg);
          (ex, problems) = NewCacheExcluder compile (cc_ExcludePatterns cfg);
          c = \<lparr>dc_config = cfg, dc_shards = replicate NumDNSCacheShards (new_shard (per_shard maxEntries)),
               dc_maxEntries = maxEntries,
               dc_excluder = (if problems = [] then Some ex else None),
               dc_persistRunning = False, dc_lastPersistError = [], dc_totalHits = 0,
               dc_totalMisses = 0, dc_staleHits = 0, dc_negativeHits = 0, dc_evictions = 0,
               dc_prefetchCount = 0, dc_closed = False, dc_heap = Map.empty, dc_next = 0\<rparr>
      in StartPersistLoop c)"

text \<open>One shard of \<open>resizeCapacity\<close>, \<open>Clear\<close> and \<open>cleanupExpired\<close>.\<close>

definition resize_shard :: "nat \<Rightarrow> nat \<Rightarrow> dns_cache \<Rightarrow> dns_cache" where
  "resize_shard n i c =
     (let (h, s, ev) = shard_shrink n (dc_heap c) ((dc_shards c ! i)\<lparr>sh_maxEntries := n\<rparr>) (dc_evictions c)
      in (set_shard c i h s)\<lparr>dc_evictions := ev\<rparr>)"

definition clear_shard :: "nat \<Rightarrow> dns_cache \<Rightarrow> dns_cache" where
  "clear_shard i c = (let (h, s) = shard_clear (dc_heap c) (dc_shards c ! i) in set_shard c i h s)"

definition cleanup_shard :: "time \<Rightarrow> nat \<Rightarrow> dns_cache \<Rightarrow> dns_cache" where
  "cleanup_shard now i c =
     (let (h, s, ev) = shard_cleanup now (dc_heap c) (dc_shards c ! i) (dc_evictions c)
      in (set_shard c i h s)\<lparr>dc_evictions := ev\<rparr>)"

definition resizeCapacity :: "int \<Rightarrow> dns_cache \<Rightarrow> dns_cache" where
  "resizeCapacity maxEntries0 c =
     (let maxEntries = (if maxEntries0 \<le> 0 then DefaultMaxCacheEntries else maxEntries0)
      in fold (resize_shard (per_shard maxEntries)) [0..<length (dc_shards c)]
           (c\<lparr>dc_maxEntries := maxEntries\<rparr>))"

definition Clear :: "dns_cache \<Rightarrow> dns_cache" where
  "Clear c = fold clear_shard [0..<length (dc_shards c)] c"

definition cleanupExpired :: "time \<Rightarrow> dns_cache \<Rightarrow> dns_cache" where
  "cleanupExpired now c = fold (cleanup_shard now) [0..<length (dc_shards c)] c"

definition set_config ::
  "(string \<Rightarrow> (string \<Rightarrow> bool) option) \<Rightarrow> cache_config \<Rightarrow> dns_cache \<Rightarrow> dns_cache" where
  "set_config compile cfg c =
     (let (ex, problems) = NewCacheExcluder compile (cc_ExcludePatterns cfg);
          c1 = c\<lparr>dc_config := cfg\<rparr>
      in if problems = [] then c1\<lparr>dc_excluder := Some ex\<rparr>
         else if cc_ExcludePatterns cfg = [] then c1\<lparr>dc_excluder := Some ex\<rparr> else c1)"

definition UpdateConfig ::
  "(string \<Rightarrow> (string \<Rightarrow> bool) option) \<Rightarrow> cache_config \<Rightarrow> dns_cache \<Rightarrow> dns_cache" where
  "UpdateConfig compile cfg0 c =
     (let cfg = NormalizeCacheConfig cfg0
      in SyncPersistLoop (resizeCapacity (cc_MaxEntries cfg) (set_config compile cfg c)))"

text \<open>
  \<open>GetForGroup\<close>. The section under the read lock decides between a miss, a fresh hit, a stale
  candidate and an expired entry, and counts; the sections under the write lock follow.
  \<open>now\<close> is the first clock reading and \<open>now2\<close> the one made by \<open>time.Until\<close>.
\<close>

datatype lookup_result =
    LMiss
  | LFresh addr msg bool   \<comment> \<open>entry, answer, whether its list element was non-nil\<close>
  | LStale addr
  | LExpired addr

definition remaining_seconds :: "time \<Rightarrow> time \<Rightarrow> u32" where
  "remaining_seconds expiresAt now2 =
     (let r = word_of_int (go_div (expiresAt - now2) second) in if r = 0 then 1 else r)"

definition fresh_reply :: "msg \<Rightarrow> cacheEntry \<Rightarrow> time \<Rightarrow> msg" where
  "fresh_reply req e now2 =
     RewriteTTL ((ce_msg e)\<lparr>m_Id := m_Id req\<rparr>) (remaining_seconds (ce_expiresAt e) now2)"

definition count_hit :: "dns_cache \<Rightarrow> addr \<Rightarrow> time \<Rightarrow> dns_cache" where
  "count_hit c a now =
     c\<lparr>dc_heap := heap_upd (dc_heap c) a (\<lambda>e. e\<lparr>ce_hitCount := ce_hitCount e + 1, ce_lastHitAt := now\<rparr>),
       dc_totalHits := dc_totalHits c + 1,
       dc_negativeHits := dc_negativeHits c + (if ce_isNegative (deref (dc_heap c) a) then 1 else 0)\<rparr>"

definition lookup_section :: "dns_cache \<Rightarrow> msg \<Rightarrow> string \<Rightarrow> time \<Rightarrow> time \<Rightarrow> lookup_result \<times> dns_cache" where
  "lookup_section c req key now now2 =
     (case map_of (sh_entries (shard_at c key)) key of
        None \<Rightarrow> (LMiss, c\<lparr>dc_totalMisses := dc_totalMisses c + 1\<rparr>)
      | Some a \<Rightarrow>
          (let e = deref (dc_heap c) a in
           if now < ce_expiresAt e then (LFresh a (fresh_reply req e now2) (ce_elem e), count_hit c a now)
           else if IsStaleFallbackEnabled c \<and> now < ce_staleUntil e then (LStale a, c)
           else (LExpired a, c)))"

definition promote_section :: "string \<Rightarrow> addr \<Rightarrow> dns_cache \<Rightarrow> dns_cache" where
  "promote_section key a c =
     set_shard c (shard_index key) (dc_heap c) (shard_promote (dc_heap c) (shard_at c key) a)"

definition evict_section :: "string \<Rightarrow> addr \<Rightarrow> time \<Rightarrow> dns_cache \<Rightarrow> dns_cache" where
  "evict_section key a now c =
     (let (h, s, ev) = shard_lazy_evict (dc_heap c) (shard_at c key) key a now
      in (set_shard c (shard_index key) h s)
           \<lparr>dc_evictions := dc_evictions c + (if ev then 1 else 0)\<rparr>)"

record get_result =
  g_resp :: "msg option"
  g_hit :: bool
  g_isStale :: bool
  g_candidate :: "addr option"

definition get_miss :: get_result where
  "get_miss = \<lparr>g_resp = None, g_hit = False, g_isStale = False, g_candidate = None\<rparr>"

definition GetForGroup ::
  "dns_cache \<Rightarrow> msg \<Rightarrow> string \<Rightarrow> time \<Rightarrow> time \<Rightarrow> get_result \<times> dns_cache" where
  "GetForGroup c req grp now now2 =
     (if \<not> IsEnabled c then (get_miss, c)
      else case m_Question req of [] \<Rightarrow> (get_miss, c) | q # _ \<Rightarrow>
        (let key = CacheKeyForGroup (q_Name q) (q_Qtype q) (q_Qclass q) grp in
         case lookup_section c req key now now2 of
           (LMiss, c1) \<Rightarrow> (get_miss, c1)
         | (LFresh a resp linked, c1) \<Rightarrow>
             (\<lparr>g_resp = Some resp, g_hit = True, g_isStale = False, g_candidate = None\<rparr>,
              if linked then promote_section key a c1 else c1)
         | (LStale a, c1) \<Rightarrow>
             (\<lparr>g_resp = None, g_hit = False, g_isStale = True, g_candidate = Some a\<rparr>, c1)
         | (LExpired a, c1) \<Rightarrow>
             (let c2 = evict_section key a now c1
              in (get_miss, c2\<lparr>dc_totalMisses := dc_totalMisses c2 + 1\<rparr>))))"

definition BuildStaleResponse :: "dns_cache \<Rightarrow> msg \<Rightarrow> addr \<Rightarrow> time \<Rightarrow> msg \<times> dns_cache" where
  "BuildStaleResponse c req a now =
     (RewriteTTL ((ce_msg (deref (dc_heap c) a))\<lparr>m_Id := m_Id req\<rparr>) 1,
      c\<lparr>dc_heap := heap_upd (dc_heap c) a (\<lambda>e. e\<lparr>ce_hitCount := ce_hitCount e + 1, ce_lastHitAt := now\<rparr>),
        dc_totalHits := dc_totalHits c + 1, dc_staleHits := dc_staleHits c + 1\<rparr>)"

text \<open>What \<open>PutForGroup\<close> computes before it takes the lock: the new entry, or a refusal.\<close>

definition put_ttl :: "cache_config \<Rightarrow> msg \<Rightarrow> (bool \<times> duration) option" where
  "put_ttl cfg resp =
     (let (minTTL, found) = ExtractMinTTL resp in
      if m_Rcode resp = RcodeNameError \<or> (m_Rcode resp = RcodeSuccess \<and> m_Answer resp = [])
      then (if \<not> cc_NegativeTTLEnabled cfg then None
            else Some (True, CalculateNegativeTTL minTTL found cfg))
      else if m_Rcode resp = RcodeSuccess \<and> m_Answer resp \<noteq> []
      then Some (False, CalculateEffectiveTTL minTTL cfg)
      else None)"

definition build_entry ::
  "cache_config \<Rightarrow> question \<Rightarrow> msg \<Rightarrow> string \<Rightarrow> time \<Rightarrow> bool \<Rightarrow> duration \<Rightarrow> cacheEntry" where
  "build_entry cfg q resp grp now neg ttl =
     (let expiresAt = now + ttl;
          staleUntil = (if cc_StaleFallbackEnabled cfg \<and> cc_StaleFallbackSeconds cfg > 0
                        then expiresAt + wrap64 (cc_StaleFallbackSeconds cfg * second) else expiresAt)
      in zero_entry\<lparr>ce_key := CacheKeyForGroup (q_Name q) (q_Qtype q) (q_Qclass q) grp,
           ce_group := normalizeCacheGroup grp, ce_domain := NormalizeCacheDomain (q_Name q),
           ce_qtype := q_Qtype q, ce_qclass := q_Qclass q, ce_msg := resp,
           ce_originalTTL := fst (ExtractMinTTL resp), ce_effectiveTTL := ttl, ce_createdAt := now,
           ce_expiresAt := expiresAt, ce_staleUntil := staleUntil, ce_isNegative := neg,
           ce_rcode := m_Rcode resp, ce_ipList := ExtractIPs resp, ce_lastHitAt := now\<rparr>)"

definition put_section :: "cacheEntry \<Rightarrow> dns_cache \<Rightarrow> dns_cache" where
  "put_section e c =
     (let (h, s, ev) = shard_put (dc_heap c) (shard_at c (ce_key e)) (dc_next c) e
      in (set_shard c (shard_index (ce_key e)) h s)
           \<lparr>dc_evictions := dc_evictions c + (if ev then 1 else 0), dc_next := dc_next c + 1\<rparr>)"

definition PutForGroup :: "dns_cache \<Rightarrow> msg \<Rightarrow> msg \<Rightarrow> string \<Rightarrow> time \<Rightarrow> bool \<times> dns_cache" where
  "PutForGroup c req resp grp now =
     (if \<not> IsEnabled c then (False, c)
      else case m_Question req of [] \<Rightarrow> (False, c) | q # _ \<Rightarrow>
        (case put_ttl (dc_config c) resp of
           None \<Rightarrow> (False, c)
         | Some (neg, ttl) \<Rightarrow>
             (if ttl \<le> 0 then (False, c)
              else (True, put_section (build_entry (dc_config c) q resp grp now neg ttl) c))))"

definition remove_section :: "string \<Rightarrow> dns_cache \<Rightarrow> bool \<times> dns_cache" where
  "remove_section key c =
     (let (h, s, found) = shard_remove (dc_heap c) (shard_at c key) key
      in (found, set_shard c (shard_index key) h s))"

definition RemoveForGroup :: "dns_cache \<Rightarrow> msg \<Rightarrow> string \<Rightarrow> bool \<times> dns_cache" where
  "RemoveForGroup c req grp =
     (case m_Question req of [] \<Rightarrow> (False, c)
      | q # _ \<Rightarrow> remove_section (CacheKeyForGroup (q_Name q) (q_Qtype q) (q_Qclass q) grp) c)"

definition cache_Get :: "dns_cache \<Rightarrow> msg \<Rightarrow> time \<Rightarrow> time \<Rightarrow> get_result \<times> dns_cache" where
  "cache_Get c req now now2 = GetForGroup c req DefaultClientGroupID now now2"

definition cache_Put :: "dns_cache \<Rightarrow> msg \<Rightarrow> msg \<Rightarrow> time \<Rightarrow> bool \<times> dns_cache" where
  "cache_Put c req resp now = PutForGroup c req resp DefaultClientGroupID now"

definition cache_Remove :: "dns_cache \<Rightarrow> msg \<Rightarrow> bool \<times> dns_cache" where
  "cache_Remove c req = RemoveForGroup c req DefaultClientGroupID"

end
