(* ===== verification/Cache_Invariant.thy ===== *)
theory Cache_Invariant
  imports Dns_Cache
begin

text \<open>
  The structural invariant of the cache and its refinement to an abstract LRU list. An entry is
  \<^emph>\<open>live\<close> for a shard when its list element is set and its key hashes to the shard; the
  invariant says that the map and the LRU list of every shard hold exactly the live entries, each
  once, and never more than the capacity. The abstraction of a shard is the list of its entries,
  most recently used first.
\<close>

section \<open>The invariant\<close>

definition tag :: "heap \<Rightarrow> addr \<Rightarrow> (string \<times> bool) option" where
  "tag h a = map_option (\<lambda>e. (ce_key e, ce_elem e)) (h a)"

definition live :: "heap \<Rightarrow> nat \<Rightarrow> string \<Rightarrow> addr \<Rightarrow> bool" where
  "live h i k a \<longleftrightarrow> tag h a = Some (k, True) \<and> shard_index k = i"

definition shard_core :: "heap \<Rightarrow> nat \<Rightarrow> cacheShard \<Rightarrow> bool" where
  "shard_core h i s \<longleftrightarrow> distinct (map fst (sh_entries s)) \<and> distinct (sh_lruList s) \<and>
     (\<forall>k a. (k, a) \<in> set (sh_entries s) \<longleftrightarrow> live h i k a) \<and>
     (\<forall>a. a \<in> set (sh_lruList s) \<longleftrightarrow> (\<exists>k. live h i k a))"

definition shard_inv :: "heap \<Rightarrow> nat \<Rightarrow> cacheShard \<Rightarrow> bool" where
  "shard_inv h i s \<longleftrightarrow> shard_core h i s \<and> length (sh_entries s) \<le> sh_maxEntries s \<and> 0 < sh_maxEntries s"

definition cache_inv :: "dns_cache \<Rightarrow> bool" where
  "cache_inv c \<longleftrightarrow> length (dc_shards c) = NumDNSCacheShards \<and>
     (\<forall>i < NumDNSCacheShards. shard_inv (dc_heap c) i (dc_shards c ! i)) \<and>
     (\<forall>a \<ge> dc_next c. dc_heap c a = None)"

section \<open>The abstract LRU list\<close>

text \<open>The content of an entry: everything but the list element and the usage statistics.\<close>

definition view :: "cacheEntry \<Rightarrow> cacheEntry" where
  "view e = e\<lparr>ce_elem := False, ce_hitCount := 0, ce_lastHitAt := 0, ce_lastPrefetchAt := 0\<rparr>"

definition abs_shard :: "heap \<Rightarrow> cacheShard \<Rightarrow> cacheEntry list" where
  "abs_shard h s = map (\<lambda>a. view (deref h a)) (sh_lruList s)"

definition cache_abs :: "dns_cache \<Rightarrow> nat \<Rightarrow> cacheEntry list" where
  "cache_abs c i = abs_shard (dc_heap c) (dc_shards c ! i)"

definition shard_cap :: "dns_cache \<Rightarrow> nat \<Rightarrow> nat" where
  "shard_cap c i = sh_maxEntries (dc_shards c ! i)"

definition lru_find :: "('e \<Rightarrow> 'k) \<Rightarrow> 'k \<Rightarrow> 'e list \<Rightarrow> 'e option" where
  "lru_find key k l = find (\<lambda>e. key e = k) l"

definition lru_remove :: "('e \<Rightarrow> 'k) \<Rightarrow> 'k \<Rightarrow> 'e list \<Rightarrow> 'e list" where
  "lru_remove key k l = filter (\<lambda>e. key e \<noteq> k) l"

definition lru_put :: "('e \<Rightarrow> 'k) \<Rightarrow> nat \<Rightarrow> 'e \<Rightarrow> 'e list \<Rightarrow> 'e list" where
  "lru_put key n e l = take n (e # lru_remove key (key e) l)"

definition lru_touch :: "('e \<Rightarrow> 'k) \<Rightarrow> 'k \<Rightarrow> 'e list \<Rightarrow> 'e list" where
  "lru_touch key k l = (case lru_find key k l of None \<Rightarrow> l | Some e \<Rightarrow> e # lru_remove key k l)"

section \<open>Basic facts\<close>

lemma deref_Some [simp]: "h a = Some e \<Longrightarrow> deref h a = e"
  by (simp add: deref_def)

lemma view_simps [simp]:
  "ce_key (view e) = ce_key e" "ce_staleUntil (view e) = ce_staleUntil e"
  "ce_expiresAt (view e) = ce_expiresAt e" "ce_msg (view e) = ce_msg e" "view (view e) = view e"
  "view (e\<lparr>ce_elem := b\<rparr>) = view e" "view (e\<lparr>ce_lastPrefetchAt := t\<rparr>) = view e"
  "view (e\<lparr>ce_hitCount := n, ce_lastHitAt := t\<rparr>) = view e"
  by (simp_all add: view_def)

lemma tag_heap_upd: "tag (heap_upd h a f) b =
    (if b = a then map_option (\<lambda>e. (ce_key (f e), ce_elem (f e))) (h a) else tag h b)"
  by (simp add: tag_def heap_upd_def option.map_comp comp_def)

lemma deref_heap_upd: "deref (heap_upd h a f) b = (if b = a \<and> h a \<noteq> None then f (deref h a) else deref h b)"
  by (auto simp: deref_def heap_upd_def split: option.split)

lemma tag_unlink: "tag (heap_upd h a (ce_elem_update (\<lambda>_. False))) b =
    (if b = a then map_option (\<lambda>(k, _). (k, False)) (tag h a) else tag h b)"
  by (cases "h a") (simp_all add: tag_def heap_upd_def)

lemma liveD: "live h i k a \<Longrightarrow> \<exists>e. h a = Some e \<and> ce_key e = k \<and> ce_elem e \<and> shard_index k = i"
  by (auto simp: live_def tag_def)

lemma live_deref: "live h i k a \<Longrightarrow> ce_key (deref h a) = k \<and> ce_elem (deref h a)"
  by (auto dest: liveD)

lemma live_fun: "live h i k a \<Longrightarrow> live h i k' a \<Longrightarrow> k' = k"
  by (simp add: live_def)

lemma live_unlink: "live (heap_upd h a (ce_elem_update (\<lambda>_. False))) i k b \<longleftrightarrow> live h i k b \<and> b \<noteq> a"
  by (auto simp: live_def tag_unlink)

lemma live_cong: "tag h = tag h' \<Longrightarrow> live h = live h'"
  by (simp add: live_def fun_eq_iff)

lemma shard_core_cong: "tag h = tag h' \<Longrightarrow> shard_core h i s = shard_core h' i s"
  using live_cong [of h h'] by (simp add: shard_core_def)

lemma shard_inv_cong: "tag h = tag h' \<Longrightarrow> shard_inv h i s = shard_inv h' i s"
  using shard_core_cong [of h h'] by (simp add: shard_inv_def)

lemma core_map_of: "shard_core h i s \<Longrightarrow> map_of (sh_entries s) k = Some a \<longleftrightarrow> live h i k a"
  by (simp add: shard_core_def map_of_eq_Some_iff)

lemma core_key_unique: "shard_core h i s \<Longrightarrow> live h i k a \<Longrightarrow> live h i k b \<Longrightarrow> b = a"
  using core_map_of [of h i s k a] core_map_of [of h i s k b] by simp

lemma core_lru: "shard_core h i s \<Longrightarrow> a \<in> set (sh_lruList s) \<longleftrightarrow> live h i (ce_key (deref h a)) a"
  unfolding shard_core_def using live_deref by metis

lemma core_length: "shard_core h i s \<Longrightarrow> length (sh_lruList s) = length (sh_entries s)"
proof -
  assume c: "shard_core h i s"
  then have d: "distinct (sh_entries s)" "distinct (sh_lruList s)"
    by (auto simp: shard_core_def distinct_map)
  have "set (sh_lruList s) = snd ` set (sh_entries s)" using c by (simp add: set_eq_iff mem_snd_image shard_core_def)
  moreover have "inj_on snd (set (sh_entries s))"
  proof (rule inj_onI)
    fix x y assume "x \<in> set (sh_entries s)" "y \<in> set (sh_entries s)" "snd x = snd y"
    then have "live h i (fst x) (snd x)" "live h i (fst y) (snd x)"
      using c unfolding shard_core_def by (metis prod.collapse)+
    with \<open>snd x = snd y\<close> show "x = y" using live_fun by (metis prod_eqI)
  qed
  ultimately have "card (set (sh_lruList s)) = card (set (sh_entries s))" by (simp add: card_image)
  with d show ?thesis by (simp add: distinct_card)
qed

section \<open>Framing\<close>

text \<open>An operation on shard \<open>i\<close> leaves the entries of the other shards as they are.\<close>

definition heap_frame :: "nat \<Rightarrow> heap \<Rightarrow> heap \<Rightarrow> bool" where
  "heap_frame i h h' \<longleftrightarrow> (\<forall>a e. shard_index (ce_key e) \<noteq> i \<longrightarrow> (h a = Some e) = (h' a = Some e))"

lemma heap_frame_refl [simp]: "heap_frame i h h"
  by (simp add: heap_frame_def)

lemma heap_frame_trans: "heap_frame i h h1 \<Longrightarrow> heap_frame i h1 h2 \<Longrightarrow> heap_frame i h h2"
  by (simp add: heap_frame_def)

lemma heap_frame_upd:
  assumes "\<And>e. h a = Some e \<Longrightarrow> shard_index (ce_key e) = i \<and> shard_index (ce_key (f e)) = i"
  shows "heap_frame i h (heap_upd h a f)"
  using assms by (auto simp: heap_frame_def heap_upd_def)

lemma heap_frame_unlink: "live h i k a \<Longrightarrow> heap_frame i h (heap_upd h a (ce_elem_update (\<lambda>_. False)))"
  by (rule heap_frame_upd) (auto dest: liveD)

lemma heap_frame_alloc:
  "h a = None \<Longrightarrow> shard_index (ce_key e) = i \<Longrightarrow> heap_frame i h (h(a \<mapsto> e))"
  by (auto simp: heap_frame_def)

lemma heap_frame_live: "heap_frame i h h' \<Longrightarrow> j \<noteq> i \<Longrightarrow> live h' j k a = live h j k a"
  by (auto simp: heap_frame_def live_def tag_def)

lemma heap_frame_core: "heap_frame i h h' \<Longrightarrow> j \<noteq> i \<Longrightarrow> shard_core h' j s = shard_core h j s"
  by (simp add: shard_core_def heap_frame_live)

lemma heap_frame_inv: "heap_frame i h h' \<Longrightarrow> j \<noteq> i \<Longrightarrow> shard_inv h' j s = shard_inv h j s"
  by (simp add: shard_inv_def heap_frame_core)

lemma heap_frame_abs:
  assumes "heap_frame i h h'" "j \<noteq> i" "shard_core h j s"
  shows "abs_shard h' s = abs_shard h s"
proof -
  have "deref h' a = deref h a" if "a \<in> set (sh_lruList s)" for a
  proof -
    from that assms(3) obtain k where "live h j k a" by (auto simp: shard_core_def)
    then obtain e where e: "h a = Some e" "shard_index (ce_key e) = j" by (auto dest: liveD)
    with assms(1,2) have "h' a = Some e" by (auto simp: heap_frame_def)
    with e show ?thesis by simp
  qed
  then show ?thesis by (simp add: abs_shard_def)
qed

section \<open>Dropping and inserting one entry\<close>

lemma core_drop:
  assumes "shard_core h i s" "live h i k a" "distinct l" "set l = set (sh_lruList s) - {a}"
  shows "shard_core (heap_upd h a (ce_elem_update (\<lambda>_. False))) i
    (s\<lparr>sh_lruList := l, sh_entries := AList.delete k (sh_entries s)\<rparr>)"
proof -
  have "distinct (map fst (AList.delete k (sh_entries s)))"
    using assms(1) by (simp add: shard_core_def distinct_delete)
  moreover have "(k', b) \<in> set (AList.delete k (sh_entries s)) \<longleftrightarrow>
      live (heap_upd h a (ce_elem_update (\<lambda>_. False))) i k' b" for k' b
    using assms(1,2) live_fun [of h i] core_key_unique [OF assms(1)]
    by (auto simp: AList.delete_eq live_unlink shard_core_def)
  moreover have "b \<in> set l \<longleftrightarrow> (\<exists>k'. live (heap_upd h a (ce_elem_update (\<lambda>_. False))) i k' b)" for b
    using assms(1,4) by (auto simp: live_unlink shard_core_def)
  ultimately show ?thesis using assms(3) by (simp add: shard_core_def)
qed

lemma abs_filter:
  assumes "shard_core h i s" "live h i k a"
  shows "map (\<lambda>b. view (deref (heap_upd h a f) b)) (filter (\<lambda>b. b \<noteq> a) (sh_lruList s)) =
    lru_remove ce_key k (abs_shard h s)"
proof -
  have "ce_key (deref h b) = k \<longleftrightarrow> b = a" if "b \<in> set (sh_lruList s)" for b
  proof
    assume "ce_key (deref h b) = k"
    with that have "live h i k b" using core_lru [OF assms(1), of b] by simp
    then show "b = a" by (rule core_key_unique [OF assms])
  qed (use live_deref [OF assms(2)] in simp)
  then have "filter (\<lambda>b. b \<noteq> a) (sh_lruList s) = filter (\<lambda>b. ce_key (deref h b) \<noteq> k) (sh_lruList s)"
    by (intro filter_cong) auto
  moreover have "map (\<lambda>b. view (deref (heap_upd h a f) b)) (filter (\<lambda>b. b \<noteq> a) (sh_lruList s)) =
      map (\<lambda>b. view (deref h b)) (filter (\<lambda>b. b \<noteq> a) (sh_lruList s))"
    by (simp add: deref_heap_upd)
  ultimately show ?thesis by (simp add: lru_remove_def abs_shard_def filter_map comp_def)
qed

lemma shard_delete_live:
  assumes "shard_core h i s" "live h i k a" "shard_delete h s k a = (h', s')"
  shows "shard_core h' i s'" "abs_shard h' s' = lru_remove ce_key k (abs_shard h s)"
    "heap_frame i h h'" "sh_maxEntries s' = sh_maxEntries s"
    "sh_entries s' = AList.delete k (sh_entries s)" "\<forall>b. h b = None \<longrightarrow> h' b = None"
proof -
  have e: "h' = heap_upd h a (ce_elem_update (\<lambda>_. False))"
    "s' = s\<lparr>sh_lruList := filter (\<lambda>b. b \<noteq> a) (sh_lruList s), sh_entries := AList.delete k (sh_entries s)\<rparr>"
    using assms(3) live_deref [OF assms(2)] by (auto simp: shard_delete_def lru_unlink_def)
  show "shard_core h' i s'" unfolding e
    by (rule core_drop [OF assms(1,2)]) (use assms(1) in \<open>auto simp: shard_core_def\<close>)
  show "abs_shard h' s' = lru_remove ce_key k (abs_shard h s)"
    using abs_filter [OF assms(1,2)] by (simp add: abs_shard_def e)
  show "heap_frame i h h'" unfolding e by (rule heap_frame_unlink [OF assms(2)])
  show "sh_maxEntries s' = sh_maxEntries s" "sh_entries s' = AList.delete k (sh_entries s)"
    by (simp_all add: e)
  show "\<forall>b. h b = None \<longrightarrow> h' b = None" by (simp add: e heap_upd_def)
qed

lemma evict_back_live:
  assumes "shard_core h i s" "sh_lruList s \<noteq> []" "evict_back h s = (h', s', ev)"
  shows "shard_core h' i s'" "abs_shard h' s' = butlast (abs_shard h s)" "heap_frame i h h'"
    "sh_maxEntries s' = sh_maxEntries s" "Suc (length (sh_entries s')) = length (sh_entries s)"
    "map_of (sh_entries s) k = None \<Longrightarrow> map_of (sh_entries s') k = None"
    "\<forall>b. h b = None \<longrightarrow> h' b = None" "ev"
proof -
  define a where "a = last (sh_lruList s)"
  define k where "k = ce_key (deref h a)"
  have "a \<in> set (sh_lruList s)" using assms(2) by (simp add: a_def)
  then have l: "live h i k a" using core_lru [OF assms(1)] by (simp add: k_def)
  have e: "h' = heap_upd h a (ce_elem_update (\<lambda>_. False))" "ev"
    "s' = s\<lparr>sh_lruList := butlast (sh_lruList s), sh_entries := AList.delete k (sh_entries s)\<rparr>"
    using assms(2,3) by (auto simp: evict_back_def a_def k_def Let_def)
  have d: "distinct (sh_lruList s)" using assms(1) by (simp add: shard_core_def)
  have split: "sh_lruList s = butlast (sh_lruList s) @ [a]" using assms(2) by (simp add: a_def)
  have b: "distinct (butlast (sh_lruList s))" "a \<notin> set (butlast (sh_lruList s))"
    using d split by (metis distinct_append, metis disjoint_insert(2) distinct_append list.set(2))
  have bs: "set (butlast (sh_lruList s)) = set (sh_lruList s) - {a}"
    using b(2) split by (metis Diff_insert_absorb Un_empty_right Un_insert_right empty_set list.simps(15) set_append)
  show "shard_core h' i s'" unfolding e by (rule core_drop [OF assms(1) l b(1) bs])
  have "map (\<lambda>x. view (deref h' x)) (butlast (sh_lruList s)) = map (\<lambda>x. view (deref h x)) (butlast (sh_lruList s))"
    using b(2) by (auto simp: e deref_heap_upd)
  then show "abs_shard h' s' = butlast (abs_shard h s)" by (simp add: abs_shard_def e map_butlast)
  show "heap_frame i h h'" unfolding e by (rule heap_frame_unlink [OF l])
  show "sh_maxEntries s' = sh_maxEntries s" "ev" by (simp_all add: e)
  show "Suc (length (sh_entries s')) = length (sh_entries s)" unfolding e
    using length_delete_present [of "sh_entries s" k] core_map_of [OF assms(1), of k a] l
      assms(1) [unfolded shard_core_def] by simp
  show "map_of (sh_entries s) k = None \<Longrightarrow> map_of (sh_entries s') k = None" for k by (simp add: e)
  show "\<forall>b. h b = None \<longrightarrow> h' b = None" by (simp add: e heap_upd_def)
qed

lemma push_front_live:
  assumes "shard_core h i s" "h a = None" "shard_index (ce_key e) = i"
    "map_of (sh_entries s) (ce_key e) = None" "push_front h s a e = (h', s')"
  shows "shard_core h' i s'" "abs_shard h' s' = view e # abs_shard h s" "heap_frame i h h'"
    "sh_maxEntries s' = sh_maxEntries s" "length (sh_entries s') = Suc (length (sh_entries s))"
    "\<forall>b. b \<noteq> a \<longrightarrow> h b = None \<longrightarrow> h' b = None"
proof -
  have eq: "h' = h(a \<mapsto> e\<lparr>ce_elem := True\<rparr>)"
    "s' = s\<lparr>sh_lruList := a # sh_lruList s, sh_entries := AList.update (ce_key e) a (sh_entries s)\<rparr>"
    using assms(5) by (auto simp: push_front_def)
  have nl: "\<not> live h i k a" for k using assms(2) by (simp add: live_def tag_def)
  have lv: "live h' i k b \<longleftrightarrow> live h i k b \<or> (b = a \<and> k = ce_key e)" for k b
    using assms(2,3) by (auto simp: eq live_def tag_def)
  have na: "a \<notin> set (sh_lruList s)" using assms(1) nl by (simp add: shard_core_def)
  have "set (AList.update (ce_key e) a (sh_entries s)) = insert (ce_key e, a) (set (sh_entries s))"
    by (rule set_update_absent [OF assms(4)])
  then show "shard_core h' i s'" using assms(1) na unfolding shard_core_def lv
    by (auto simp: eq(2) distinct_update)
  show "abs_shard h' s' = view e # abs_shard h s"
    using na by (auto simp: abs_shard_def eq deref_def)
  show "heap_frame i h h'" unfolding eq by (rule heap_frame_alloc) (use assms in auto)
  show "sh_maxEntries s' = sh_maxEntries s" by (simp add: eq)
  show "length (sh_entries s') = Suc (length (sh_entries s))"
    using assms(4) by (simp add: eq length_update_absent)
  show "\<forall>b. b \<noteq> a \<longrightarrow> h b = None \<longrightarrow> h' b = None" by (simp add: eq)
qed

section \<open>The sections of a shard\<close>

text \<open>
  What every section does: it keeps the invariant of its shard, acts on the abstract list as
  stated, leaves the entries of other shards alone and allocates at most the given address.
\<close>

definition section_ok ::
  "nat \<Rightarrow> heap \<Rightarrow> heap \<Rightarrow> cacheShard \<Rightarrow> addr \<Rightarrow> cacheEntry list \<Rightarrow> bool" where
  "section_ok i h h' s' a l \<longleftrightarrow> shard_inv h' i s' \<and> abs_shard h' s' = l \<and> heap_frame i h h' \<and>
     (\<forall>b. b \<noteq> a \<longrightarrow> h b = None \<longrightarrow> h' b = None)"

lemma length_abs: "shard_core h i s \<Longrightarrow> length (abs_shard h s) = length (sh_entries s)"
  by (simp add: abs_shard_def core_length)

lemma abs_keys: "shard_core h i s \<Longrightarrow> map_of (sh_entries s) k = None \<longleftrightarrow> k \<notin> ce_key ` set (abs_shard h s)"
proof -
  assume c: "shard_core h i s"
  have "k \<in> ce_key ` set (abs_shard h s) \<longleftrightarrow> (\<exists>a \<in> set (sh_lruList s). k = ce_key (deref h a))"
    by (simp add: abs_shard_def image_iff)
  also have "\<dots> \<longleftrightarrow> (\<exists>a. live h i k a)"
    using core_lru [OF c] live_deref [of h i k] by metis
  also have "\<dots> \<longleftrightarrow> map_of (sh_entries s) k \<noteq> None" using core_map_of [OF c, of k] by auto
  finally show ?thesis by simp
qed

lemma lru_remove_absent: "k \<notin> key ` set l \<Longrightarrow> lru_remove key k l = l"
  by (induction l) (auto simp: lru_remove_def)

lemma set_lru_remove [simp]: "set (lru_remove key k l) = {x \<in> set l. key x \<noteq> k}"
  by (auto simp: lru_remove_def)

lemma length_lru_remove: "length (lru_remove key k l) \<le> length l"
  by (simp add: lru_remove_def)

lemma length_lru_remove_less: "k \<in> key ` set l \<Longrightarrow> length (lru_remove key k l) < length l"
  by (auto simp: lru_remove_def intro: length_filter_less)

lemma shard_put_ok:
  assumes "shard_inv h i s" "h a = None" "shard_index (ce_key e) = i" "shard_put h s a e = (h', s', ev)"
  shows "section_ok i h h' s' a (lru_put ce_key (sh_maxEntries s) (view e) (abs_shard h s))"
    "sh_maxEntries s' = sh_maxEntries s"
proof -
  have c: "shard_core h i s" and cap: "length (sh_entries s) \<le> sh_maxEntries s" "0 < sh_maxEntries s"
    using assms(1) by (auto simp: shard_inv_def)
  let ?l = "abs_shard h s" and ?n = "sh_maxEntries s" and ?k = "ce_key e"
  have room: "\<exists>h1 s1. push_front h1 s1 a e = (h', s') \<and> shard_core h1 i s1 \<and> h1 a = None \<and>
     heap_frame i h h1 \<and> map_of (sh_entries s1) ?k = None \<and> length (sh_entries s1) < ?n \<and>
     sh_maxEntries s1 = ?n \<and> abs_shard h1 s1 = take (?n - 1) (lru_remove ce_key ?k ?l) \<and>
     (\<forall>b. h b = None \<longrightarrow> h1 b = None)"
  proof (cases "map_of (sh_entries s) ?k")
    case (Some old)
    then have l: "live h i ?k old" using core_map_of [OF c] by simp
    obtain h1 s1 where d: "shard_delete h s ?k old = (h1, s1)" by fastforce
    note D = shard_delete_live [OF c l d]
    have "?k \<in> ce_key ` set ?l" using Some abs_keys [OF c, of ?k] by auto
    then have lt: "length (lru_remove ce_key ?k ?l) < length ?l" by (rule length_lru_remove_less)
    have "push_front h1 s1 a e = (h', s')"
      using assms(4) Some d by (auto simp: shard_put_def Let_def split: prod.splits)
    with D lt cap length_abs [OF c] length_abs [OF D(1)] assms(2) show ?thesis
      by (intro exI [of _ h1] exI [of _ s1]) auto
  next
    case None
    then have "?k \<notin> ce_key ` set ?l" by (simp only: abs_keys [OF c] not_False_eq_True)
    then have r: "lru_remove ce_key ?k ?l = ?l" by (rule lru_remove_absent)
    show ?thesis
    proof (cases "length (sh_entries s) \<ge> ?n")
      case True
      with cap have n: "length ?l = ?n" "sh_lruList s \<noteq> []"
        using length_abs [OF c] core_length [OF c] by auto
      obtain h1 s1 b where d: "evict_back h s = (h1, s1, b)" by (metis prod_cases3)
      note D = evict_back_live [OF c n(2) d]
      have "push_front h1 s1 a e = (h', s')"
        using assms(4) None True d by (auto simp: shard_put_def Let_def split: prod.splits)
      moreover have "abs_shard h1 s1 = take (?n - 1) ?l" using D(2) n(1) by (simp add: butlast_conv_take)
      moreover have "length (sh_entries s1) < ?n" using D(5) cap True by simp
      ultimately show ?thesis
        using D(1,3,4,7) D(6) [OF None] r assms(2) by (intro exI [of _ h1] exI [of _ s1]) simp
    next
      case False
      have "push_front h s a e = (h', s')"
        using assms(4) None False by (auto simp: shard_put_def Let_def split: prod.splits)
      with False None r c assms(2) length_abs [OF c] show ?thesis
        by (intro exI [of _ h] exI [of _ s]) auto
    qed
  qed
  then obtain h1 s1 where R: "push_front h1 s1 a e = (h', s')" "shard_core h1 i s1" "h1 a = None"
    "heap_frame i h h1" "map_of (sh_entries s1) ?k = None" "length (sh_entries s1) < ?n"
    "sh_maxEntries s1 = ?n" "abs_shard h1 s1 = take (?n - 1) (lru_remove ce_key ?k ?l)"
    "\<forall>b. h b = None \<longrightarrow> h1 b = None" by blast
  note P = push_front_live [OF R(2,3) assms(3) R(5) R(1)]
  have "abs_shard h' s' = lru_put ce_key ?n (view e) ?l"
    using P(2) R(8) cap(2) by (cases ?n) (simp_all add: lru_put_def)
  with P R cap(2) heap_frame_trans [OF R(4) P(3)]
  show "section_ok i h h' s' a (lru_put ce_key ?n (view e) ?l)" "sh_maxEntries s' = ?n"
    by (auto simp: section_ok_def shard_inv_def)
qed

lemma find_keyed:
  assumes "distinct (map key l)" "x \<in> set l" "key x = k"
  shows "lru_find key k l = Some x"
  using assms unfolding lru_find_def by (induction l) auto

lemma lru_find_None: "lru_find key k l = None \<longleftrightarrow> k \<notin> key ` set l"
  by (auto simp: lru_find_def find_None_iff)

lemma abs_distinct: "shard_core h i s \<Longrightarrow> distinct (map ce_key (abs_shard h s))"
proof -
  assume c: "shard_core h i s"
  have "inj_on (\<lambda>a. ce_key (deref h a)) (set (sh_lruList s))"
    using core_lru [OF c] core_key_unique [OF c] by (intro inj_onI) metis
  with c show ?thesis by (simp add: abs_shard_def distinct_map shard_core_def comp_def)
qed

lemma core_find:
  assumes "shard_core h i s"
  shows "lru_find ce_key k (abs_shard h s) = map_option (\<lambda>a. view (deref h a)) (map_of (sh_entries s) k)"
proof (cases "map_of (sh_entries s) k")
  case None
  then show ?thesis using abs_keys [OF assms, of k] by (simp add: lru_find_None)
next
  case (Some a)
  then have l: "live h i k a" using core_map_of [OF assms] by simp
  then have "a \<in> set (sh_lruList s)" using assms by (auto simp: shard_core_def)
  then have "view (deref h a) \<in> set (abs_shard h s)" by (auto simp: abs_shard_def)
  with Some live_deref [OF l] show ?thesis
    by (simp add: find_keyed [OF abs_distinct [OF assms]])
qed

lemma shard_promote_ok:
  assumes "shard_inv h i s" "tag h a = Some (k, b)" "shard_index k = i"
  shows "section_ok i h h (shard_promote h s a) a
      (if b then lru_touch ce_key k (abs_shard h s) else abs_shard h s)"
    "sh_maxEntries (shard_promote h s a) = sh_maxEntries s"
proof -
  have c: "shard_core h i s" using assms(1) by (simp add: shard_inv_def)
  obtain e where e: "h a = Some e" "ce_key e = k" "ce_elem e = b"
    using assms(2) by (auto simp: tag_def)
  show "sh_maxEntries (shard_promote h s a) = sh_maxEntries s" by (simp add: shard_promote_def)
  show "section_ok i h h (shard_promote h s a) a
      (if b then lru_touch ce_key k (abs_shard h s) else abs_shard h s)"
  proof (cases b)
    case False
    with e assms(1) show ?thesis by (simp add: shard_promote_def section_ok_def)
  next
    case True
    then have l: "live h i k a" using assms by (simp add: live_def)
    then have a: "a \<in> set (sh_lruList s)" using c by (auto simp: shard_core_def)
    have f: "lru_find ce_key k (abs_shard h s) = Some (view e)"
      using core_find [OF c, of k] core_map_of [OF c, of k a] l e by simp
    have idupd: "heap_upd h a (\<lambda>x. x) = h" by (simp add: heap_upd_def option.map_ident)
    have t: "lru_touch ce_key k (abs_shard h s) =
        map (\<lambda>b. view (deref h b)) (a # filter (\<lambda>b. b \<noteq> a) (sh_lruList s))"
      using abs_filter [OF c l, of "\<lambda>x. x"] f e by (simp add: lru_touch_def idupd)
    have front: "sh_lruList s = a # filter (\<lambda>b. b \<noteq> a) (sh_lruList s)" if "hd (sh_lruList s) = a"
      using that a c by (cases "sh_lruList s") (auto simp: shard_core_def filter_neq_id)
    have eq: "abs_shard h (shard_promote h s a) = lru_touch ce_key k (abs_shard h s)"
    proof (cases "hd (sh_lruList s) = a")
      case True
      then have "shard_promote h s a = s" using a by (auto simp: shard_promote_def)
      with t front [OF True] show ?thesis by (simp add: abs_shard_def)
    next
      case False
      then show ?thesis using t e \<open>b\<close> by (simp add: shard_promote_def abs_shard_def)
    qed
    have "shard_inv h i (shard_promote h s a)"
      using assms(1) a by (auto simp: shard_promote_def shard_inv_def shard_core_def)
    with eq True show ?thesis by (simp add: section_ok_def)
  qed
qed

lemma shard_remove_ok:
  assumes "shard_inv h i s" "shard_remove h s k = (h', s', ev)"
  shows "section_ok i h h' s' a (lru_remove ce_key k (abs_shard h s))"
    "sh_maxEntries s' = sh_maxEntries s" "ev \<longleftrightarrow> k \<in> ce_key ` set (abs_shard h s)"
proof -
  have c: "shard_core h i s" using assms(1) by (simp add: shard_inv_def)
  have "section_ok i h h' s' a (lru_remove ce_key k (abs_shard h s)) \<and>
    sh_maxEntries s' = sh_maxEntries s \<and> (ev \<longleftrightarrow> k \<in> ce_key ` set (abs_shard h s))"
  proof (cases "map_of (sh_entries s) k")
    case None
    then have n: "k \<notin> ce_key ` set (abs_shard h s)" by (simp only: abs_keys [OF c] not_False_eq_True)
    with None assms show ?thesis
      by (auto simp: shard_remove_def section_ok_def lru_remove_absent)
  next
    case (Some old)
    then have l: "live h i k old" using core_map_of [OF c] by simp
    obtain h1 s1 where d: "shard_delete h s k old = (h1, s1)" by fastforce
    note D = shard_delete_live [OF c l d]
    have "k \<in> ce_key ` set (abs_shard h s)" using Some abs_keys [OF c, of k] by auto
    moreover have "(h1, s1, True) = (h', s', ev)" using assms(2) Some d by (simp add: shard_remove_def)
    ultimately show ?thesis using D assms(1) length_delete_le [of k "sh_entries s"]
      by (auto simp: section_ok_def shard_inv_def)
  qed
  then show "section_ok i h h' s' a (lru_remove ce_key k (abs_shard h s))"
    "sh_maxEntries s' = sh_maxEntries s" "ev \<longleftrightarrow> k \<in> ce_key ` set (abs_shard h s)" by auto
qed

lemma shard_lazy_evict_ok:
  assumes "shard_inv h i s" "shard_lazy_evict h s k a now = (h', s', ev)"
  shows "section_ok i h h' s' b (if ev then lru_remove ce_key k (abs_shard h s) else abs_shard h s)"
    "sh_maxEntries s' = sh_maxEntries s"
    "ev \<longleftrightarrow> map_of (sh_entries s) k = Some a \<and> ce_staleUntil (deref h a) < now"
proof -
  show ev: "ev \<longleftrightarrow> map_of (sh_entries s) k = Some a \<and> ce_staleUntil (deref h a) < now"
    using assms(2) by (auto simp: shard_lazy_evict_def split: if_splits prod.splits)
  have "ev \<Longrightarrow> shard_remove h s k = (h', s', True)" and "\<not> ev \<Longrightarrow> h' = h \<and> s' = s"
    using assms(2) ev by (auto simp: shard_lazy_evict_def shard_remove_def split: prod.splits)
  then show "section_ok i h h' s' b (if ev then lru_remove ce_key k (abs_shard h s) else abs_shard h s)"
    "sh_maxEntries s' = sh_maxEntries s"
    using shard_remove_ok [OF assms(1)] assms(1) by (cases ev; simp add: section_ok_def)+
qed

lemma shard_shrink_ok:
  assumes "shard_core h i s" "shard_shrink n h s ev = (h', s', ev')"
  shows "shard_core h' i s' \<and> abs_shard h' s' = take n (abs_shard h s) \<and> heap_frame i h h' \<and>
    (\<forall>b. h b = None \<longrightarrow> h' b = None) \<and> sh_maxEntries s' = sh_maxEntries s \<and>
    ev' = ev + of_nat (length (abs_shard h s) - n)"
  using assms
proof (induction n h s ev rule: shard_shrink.induct)
  case (1 n h s ev)
  show ?case
  proof (cases "length (sh_entries s) > n \<and> sh_lruList s \<noteq> []")
    case True
    obtain h1 s1 b where e: "evict_back h s = (h1, s1, b)" by (metis prod_cases3)
    have len: "n < length (abs_shard h s)" using True length_abs [OF "1.prems"(1)] by simp
    have "shard_shrink n h1 s1 (ev + 1) = (h', s', ev')"
      using "1.prems"(2) True e by (simp add: shard_shrink.simps [of n h])
    moreover note E = evict_back_live [OF "1.prems"(1) _ e]
    ultimately have IH: "shard_core h' i s' \<and> abs_shard h' s' = take n (abs_shard h1 s1) \<and> heap_frame i h1 h' \<and>
      (\<forall>b. h1 b = None \<longrightarrow> h' b = None) \<and> sh_maxEntries s' = sh_maxEntries s1 \<and>
      ev' = ev + 1 + of_nat (length (abs_shard h1 s1) - n)"
      using "1.IH" True e by auto
    have "take n (butlast (abs_shard h s)) = take n (abs_shard h s)"
      using len by (simp add: take_butlast)
    moreover have "(of_nat (length (abs_shard h s) - n) :: u64) = 1 + of_nat (length (abs_shard h s) - 1 - n)"
    proof -
      have "length (abs_shard h s) - n = Suc (length (abs_shard h s) - 1 - n)" using len by simp
      then show ?thesis by (simp only: of_nat_Suc)
    qed
    ultimately show ?thesis using IH E True heap_frame_trans by auto
  next
    case False
    then have "length (abs_shard h s) \<le> n"
      using length_abs [OF "1.prems"(1)] core_length [OF "1.prems"(1)] by auto
    moreover have "(h, s, ev) = (h', s', ev')"
      using "1.prems"(2) False by (simp add: shard_shrink.simps [of n h])
    ultimately show ?thesis using "1.prems"(1) by auto
  qed
qed

definition expired :: "time \<Rightarrow> cacheEntry \<Rightarrow> bool" where
  "expired now e \<longleftrightarrow> ce_staleUntil e < now"

lemma cleanup_entries_ok:
  assumes "shard_core h i s" "set rest \<subseteq> set (sh_entries s)" "distinct (map fst rest)"
    "cleanup_entries now rest h s ev = (h', s', ev')"
  shows "shard_core h' i s' \<and> heap_frame i h h' \<and> (\<forall>b. h b = None \<longrightarrow> h' b = None) \<and>
    sh_maxEntries s' = sh_maxEntries s \<and> length (sh_entries s') \<le> length (sh_entries s) \<and>
    abs_shard h' s' = filter (\<lambda>e. \<not> (ce_key e \<in> fst ` set rest \<and> expired now e)) (abs_shard h s)"
  using assms
proof (induction rest arbitrary: h s ev)
  case Nil
  then show ?case by simp
next
  case (Cons p rest)
  obtain k a where p: "p = (k, a)" by fastforce
  have l: "live h i k a" using Cons.prems(1,2) p by (auto simp: shard_core_def)
  have mem: "x \<in> set (abs_shard h s) \<Longrightarrow> ce_key x = k \<Longrightarrow> x = view (deref h a)" for x
    using core_find [OF Cons.prems(1), of k] core_map_of [OF Cons.prems(1), of k a] l
      find_keyed [OF abs_distinct [OF Cons.prems(1)], of x k] by simp
  show ?case
  proof (cases "now > ce_staleUntil (deref h a)")
    case True
    obtain h1 s1 where d: "shard_delete h s k a = (h1, s1)" by fastforce
    note D = shard_delete_live [OF Cons.prems(1) l d]
    have sub: "set rest \<subseteq> set (sh_entries s1)"
      using Cons.prems(2,3) p by (force simp: D(5) AList.delete_eq)
    have "cleanup_entries now rest h1 s1 (ev + 1) = (h', s', ev')"
      using Cons.prems(4) p True d by simp
    from Cons.IH [OF D(1) sub _ this] Cons.prems(3)
    have IH: "shard_core h' i s' \<and> heap_frame i h1 h' \<and> (\<forall>b. h1 b = None \<longrightarrow> h' b = None) \<and>
      sh_maxEntries s' = sh_maxEntries s1 \<and> length (sh_entries s') \<le> length (sh_entries s1) \<and>
      abs_shard h' s' = filter (\<lambda>e. \<not> (ce_key e \<in> fst ` set rest \<and> expired now e)) (abs_shard h1 s1)"
      by simp
    have "filter (\<lambda>e. \<not> (ce_key e \<in> fst ` set rest \<and> expired now e)) (lru_remove ce_key k (abs_shard h s)) =
      filter (\<lambda>e. \<not> (ce_key e \<in> fst ` set (p # rest) \<and> expired now e)) (abs_shard h s)"
      unfolding lru_remove_def filter_filter using True p
      by (intro filter_cong) (auto simp: expired_def dest: mem)
    then show ?thesis
      using IH D heap_frame_trans [of i h h1 h'] length_delete_le [of k "sh_entries s"] by simp
  next
    case False
    have "cleanup_entries now rest h s ev = (h', s', ev')" using Cons.prems(4) p False by simp
    from Cons.IH [OF Cons.prems(1) _ _ this] Cons.prems(2,3)
    have "shard_core h' i s' \<and> heap_frame i h h' \<and> (\<forall>b. h b = None \<longrightarrow> h' b = None) \<and>
      sh_maxEntries s' = sh_maxEntries s \<and> length (sh_entries s') \<le> length (sh_entries s) \<and>
      abs_shard h' s' = filter (\<lambda>e. \<not> (ce_key e \<in> fst ` set rest \<and> expired now e)) (abs_shard h s)"
      by simp
    moreover have "filter (\<lambda>e. \<not> (ce_key e \<in> fst ` set rest \<and> expired now e)) (abs_shard h s) =
      filter (\<lambda>e. \<not> (ce_key e \<in> fst ` set (p # rest) \<and> expired now e)) (abs_shard h s)"
      using False p by (intro filter_cong) (auto simp: expired_def dest: mem)
    ultimately show ?thesis by simp
  qed
qed

lemma shard_cleanup_ok:
  assumes "shard_inv h i s" "shard_cleanup now h s ev = (h', s', ev')"
  shows "section_ok i h h' s' b (filter (\<lambda>e. \<not> expired now e) (abs_shard h s))"
    "sh_maxEntries s' = sh_maxEntries s"
proof -
  have c: "shard_core h i s" using assms(1) by (simp add: shard_inv_def)
  have "ce_key x \<in> fst ` set (sh_entries s)" if "x \<in> set (abs_shard h s)" for x
    using abs_keys [OF c, of "ce_key x"] that by (auto simp: map_of_eq_None_iff)
  then have "filter (\<lambda>e. \<not> (ce_key e \<in> fst ` set (sh_entries s) \<and> expired now e)) (abs_shard h s) =
    filter (\<lambda>e. \<not> expired now e) (abs_shard h s)" by (intro filter_cong) auto
  moreover have "distinct (map fst (sh_entries s))" using c by (simp add: shard_core_def)
  note C = cleanup_entries_ok [OF c subset_refl this assms(2) [unfolded shard_cleanup_def]]
  ultimately show "section_ok i h h' s' b (filter (\<lambda>e. \<not> expired now e) (abs_shard h s))"
    "sh_maxEntries s' = sh_maxEntries s"
    using C assms(1) by (simp_all add: section_ok_def shard_inv_def)
qed

lemma unlink_all_at: "unlink_all h as a =
    (if a \<in> set as then map_option (ce_elem_update (\<lambda>_. False)) (h a) else h a)"
  by (induction as arbitrary: h) (auto simp: heap_upd_def option.map_comp comp_def)

lemma shard_clear_ok:
  assumes "shard_inv h i s" "shard_clear h s = (h', s')"
  shows "section_ok i h h' s' b []" "sh_maxEntries s' = sh_maxEntries s"
proof -
  have c: "shard_core h i s" using assms(1) by (simp add: shard_inv_def)
  have e: "h' = unlink_all h (map snd (sh_entries s))" "s' = s\<lparr>sh_entries := [], sh_lruList := []\<rparr>"
    using assms(2) by (auto simp: shard_clear_def)
  have mem: "a \<in> snd ` set (sh_entries s) \<longleftrightarrow> (\<exists>k. live h i k a)" for a
    using c by (simp add: mem_snd_image shard_core_def)
  have at: "h' a = (if \<exists>k. live h i k a then map_option (ce_elem_update (\<lambda>_. False)) (h a) else h a)" for a
    by (simp add: e unlink_all_at mem)
  have nl: "\<not> live h' i k a" for k a
  proof (cases "\<exists>k. live h i k a")
    case True
    then show ?thesis using at [of a] by (auto simp: live_def tag_def)
  next
    case False
    then have "h' a = h a" using at [of a] by simp
    with False show ?thesis by (simp add: live_def tag_def)
  qed
  have "heap_frame i h h'"
    unfolding heap_frame_def
  proof (intro allI impI)
    fix a and e :: cacheEntry assume "shard_index (ce_key e) \<noteq> i"
    then show "(h a = Some e) = (h' a = Some e)"
      using at [of a] by (auto dest: liveD)
  qed
  with nl at assms(1) show "section_ok i h h' s' b []" "sh_maxEntries s' = sh_maxEntries s"
    by (auto simp: section_ok_def shard_inv_def shard_core_def e(2) abs_shard_def)
qed

end
