(* ===== verification/Cache_Facts.thy ===== *)
theory Cache_Facts
  imports Cache_Invariant
begin

text \<open>
  The cache as a whole: every critical section keeps the invariant and acts on the abstract LRU
  lists, the contract of a sharded LRU store as a locale with the cache as its interpretation,
  the behaviour of a get after a put, and the invariant of the concurrent system in which the
  sections of any number of goroutines interleave.
\<close>

section \<open>Sections on the cache\<close>

lemma cache_invD:
  assumes "cache_inv c"
  shows "length (dc_shards c) = NumDNSCacheShards" "i < NumDNSCacheShards \<Longrightarrow> shard_inv (dc_heap c) i (dc_shards c ! i)"
    "dc_next c \<le> a \<Longrightarrow> dc_heap c a = None"
  using assms by (auto simp: cache_inv_def)

lemma cache_inv_shard: "cache_inv c \<Longrightarrow> shard_inv (dc_heap c) (shard_index k) (shard_at c k)"
  using shard_index_less by (simp add: cache_inv_def shard_at_def)

text \<open>The fields the invariant and the abstraction depend on.\<close>

lemma cache_inv_cong:
  "dc_shards c = dc_shards c' \<Longrightarrow> dc_heap c = dc_heap c' \<Longrightarrow> dc_next c = dc_next c' \<Longrightarrow>
   cache_inv c = cache_inv c'"
  by (simp add: cache_inv_def)

lemma cache_abs_cong:
  "dc_shards c = dc_shards c' \<Longrightarrow> dc_heap c = dc_heap c' \<Longrightarrow> cache_abs c = cache_abs c'"
  by (rule ext) (simp add: cache_abs_def)

lemma section_cache:
  assumes "cache_inv c" "i < NumDNSCacheShards" "section_ok i (dc_heap c) h s a l"
    and "dc_shards c' = (dc_shards c)[i := s]" "dc_heap c' = h"
    and "dc_next c \<le> dc_next c'" "a < dc_next c' \<or> h a = None"
  shows "cache_inv c'" "j < NumDNSCacheShards \<Longrightarrow> cache_abs c' j = (if j = i then l else cache_abs c j)"
proof -
  note I = cache_invD [OF assms(1)]
  have s: "shard_inv h i s" "abs_shard h s = l" "heap_frame i (dc_heap c) h"
    "\<And>b. b \<noteq> a \<Longrightarrow> dc_heap c b = None \<Longrightarrow> h b = None" using assms(3) by (auto simp: section_ok_def)
  have "shard_inv h j (dc_shards c' ! j)" if "j < NumDNSCacheShards" for j
    using that s(1) I(1) I(2) [OF that] heap_frame_inv [OF s(3)] assms(2,4) by (cases "j = i") auto
  moreover have "h b = None" if "dc_next c' \<le> b" for b
  proof (cases "b = a")
    case True
    with that assms(7) show ?thesis by auto
  next
    case False
    then show ?thesis using that s(4) I(3) assms(6) by simp
  qed
  ultimately show "cache_inv c'" using I(1) assms(4,5) by (simp add: cache_inv_def)
  show "j < NumDNSCacheShards \<Longrightarrow> cache_abs c' j = (if j = i then l else cache_abs c j)"
    using s(2) I(1) I(2) heap_frame_abs [OF s(3)] assms(2,4,5)
    by (auto simp: cache_abs_def shard_inv_def)
qed

lemma put_section_ok:
  assumes "cache_inv c"
  shows "cache_inv (put_section e c)"
    "j < NumDNSCacheShards \<Longrightarrow> cache_abs (put_section e c) j =
      (if j = shard_index (ce_key e) then lru_put ce_key (shard_cap c j) (view e) (cache_abs c j) else cache_abs c j)"
    "j < NumDNSCacheShards \<Longrightarrow> shard_cap (put_section e c) j = shard_cap c j"
proof -
  let ?i = "shard_index (ce_key e)"
  obtain h s ev where p: "shard_put (dc_heap c) (shard_at c (ce_key e)) (dc_next c) e = (h, s, ev)"
    by (metis prod_cases3)
  note P = shard_put_ok [OF cache_inv_shard [OF assms] cache_invD(3) [OF assms order_refl] refl p]
  have eq: "dc_shards (put_section e c) = (dc_shards c)[?i := s]" "dc_heap (put_section e c) = h"
    "dc_next (put_section e c) = Suc (dc_next c)"
    using p by (simp_all add: put_section_def set_shard_def)
  note S = section_cache [OF assms shard_index_less P(1) eq(1,2)]
  show "cache_inv (put_section e c)" by (rule S(1)) (simp_all add: eq)
  show "j < NumDNSCacheShards \<Longrightarrow> cache_abs (put_section e c) j =
      (if j = ?i then lru_put ce_key (shard_cap c j) (view e) (cache_abs c j) else cache_abs c j)"
    using S(2) [of j] eq(3) by (auto simp: shard_cap_def shard_at_def cache_abs_def)
  show "j < NumDNSCacheShards \<Longrightarrow> shard_cap (put_section e c) j = shard_cap c j"
    using P(2) cache_invD(1) [OF assms] by (cases "j = ?i") (simp_all add: shard_cap_def eq shard_at_def)
qed

lemma remove_section_ok:
  assumes "cache_inv c"
  shows "cache_inv (snd (remove_section k c))"
    "j < NumDNSCacheShards \<Longrightarrow> cache_abs (snd (remove_section k c)) j =
      (if j = shard_index k then lru_remove ce_key k (cache_abs c j) else cache_abs c j)"
    "j < NumDNSCacheShards \<Longrightarrow> shard_cap (snd (remove_section k c)) j = shard_cap c j"
    "fst (remove_section k c) \<longleftrightarrow> lru_find ce_key k (cache_abs c (shard_index k)) \<noteq> None"
proof -
  let ?i = "shard_index k"
  obtain h s ev where p: "shard_remove (dc_heap c) (shard_at c k) k = (h, s, ev)" by (metis prod_cases3)
  note R = shard_remove_ok [OF cache_inv_shard [OF assms] p]
  note P = R(1) [of "dc_next c"] R(2,3)
  have eq: "dc_shards (snd (remove_section k c)) = (dc_shards c)[?i := s]"
    "dc_heap (snd (remove_section k c)) = h" "dc_next (snd (remove_section k c)) = dc_next c"
    "fst (remove_section k c) = ev"
    using p by (simp_all add: remove_section_def set_shard_def)
  have "h (dc_next c) = None"
    using P(1) R(1) [of "Suc (dc_next c)"]
      cache_invD(3) [OF assms order_refl] by (simp add: section_ok_def)
  note S = section_cache [OF assms shard_index_less P(1) eq(1,2) _ disjI2 [OF this]]
  show "cache_inv (snd (remove_section k c))" by (rule S(1)) (simp add: eq)
  show "j < NumDNSCacheShards \<Longrightarrow> cache_abs (snd (remove_section k c)) j =
      (if j = ?i then lru_remove ce_key k (cache_abs c j) else cache_abs c j)"
    using S(2) [of j] eq(3) by (auto simp: shard_at_def cache_abs_def)
  show "j < NumDNSCacheShards \<Longrightarrow> shard_cap (snd (remove_section k c)) j = shard_cap c j"
    using P(2) cache_invD(1) [OF assms] by (cases "j = ?i") (simp_all add: shard_cap_def eq shard_at_def)
  show "fst (remove_section k c) \<longleftrightarrow> lru_find ce_key k (cache_abs c ?i) \<noteq> None"
    using P(3) eq(4) by (simp add: lru_find_None cache_abs_def shard_at_def)
qed

section \<open>The contract of a sharded LRU store\<close>

locale sharded_lru =
  fixes inv :: "'s \<Rightarrow> bool" and contents :: "'s \<Rightarrow> nat \<Rightarrow> 'e list" and cap :: "'s \<Rightarrow> nat \<Rightarrow> nat"
    and key :: "'e \<Rightarrow> 'k" and norm :: "'e \<Rightarrow> 'e" and shard :: "'k \<Rightarrow> nat"
    and put :: "'e \<Rightarrow> 's \<Rightarrow> 's" and remove :: "'k \<Rightarrow> 's \<Rightarrow> 's"
  assumes key_norm: "key (norm e) = key e"
    and cap_pos: "inv s \<Longrightarrow> 0 < cap s (shard k)"
    and bounded: "inv s \<Longrightarrow> length (contents s (shard k)) \<le> cap s (shard k)"
    and keys_distinct: "inv s \<Longrightarrow> distinct (map key (contents s (shard k)))"
    and put_inv: "inv s \<Longrightarrow> inv (put e s)"
    and put_cap: "inv s \<Longrightarrow> cap (put e s) (shard k) = cap s (shard k)"
    and put_contents: "inv s \<Longrightarrow> contents (put e s) (shard k) =
      (if shard k = shard (key e) then lru_put key (cap s (shard k)) (norm e) (contents s (shard k))
       else contents s (shard k))"
    and remove_inv: "inv s \<Longrightarrow> inv (remove k' s)"
    and remove_contents: "inv s \<Longrightarrow> contents (remove k' s) (shard k) =
      (if shard k = shard k' then lru_remove key k' (contents s (shard k)) else contents s (shard k))"
begin

lemma lookup_put_same:
  "inv s \<Longrightarrow> lru_find key (key e) (contents (put e s) (shard (key e))) = Some (norm e)"
  using cap_pos [of s "key e"]
  by (cases "cap s (shard (key e))") (simp_all add: put_contents lru_put_def lru_find_def key_norm)

lemma put_no_invention:
  assumes "inv s" "k \<noteq> key e" "lru_find key k (contents (put e s) (shard k)) = Some x"
  shows "lru_find key k (contents s (shard k)) = Some x"
proof -
  have "x \<in> set (contents (put e s) (shard k))" "key x = k"
    using assms(3) by (auto simp: lru_find_def find_Some_iff)
  then have "x \<in> set (contents s (shard k))"
    using assms(2) by (auto simp: put_contents [OF assms(1)] lru_put_def key_norm split: if_splits
        dest!: in_set_takeD)
  then show ?thesis using \<open>key x = k\<close> find_keyed [OF keys_distinct [OF assms(1)]] by metis
qed

lemma lookup_remove:
  assumes "inv s"
  shows "lru_find key k (contents (remove k' s) (shard k)) =
    (if k = k' then None else lru_find key k (contents s (shard k)))"
proof -
  have "find (\<lambda>e. key e = k) (filter (\<lambda>e. key e \<noteq> k') l) =
    (if k = k' then None else find (\<lambda>e. key e = k) l)" for l
    by (induction l) auto
  then show ?thesis by (auto simp: remove_contents [OF assms] lru_remove_def lru_find_def)
qed

text \<open>Each put moves an entry back by at most one place, so it survives while there is room.\<close>

lemma put_rank:
  assumes "inv s" "contents s (shard k) = xs @ x # ys" "key x = k" "key e \<noteq> k"
    "Suc (length xs) < cap s (shard k)"
  shows "\<exists>xs' ys'. contents (put e s) (shard k) = xs' @ x # ys' \<and> length xs' \<le> Suc (length xs)"
proof (cases "shard k = shard (key e)")
  case True
  let ?xs = "lru_remove key (key e) xs" and ?ys = "lru_remove key (key e) ys"
  have "lru_remove key (key e) (xs @ x # ys) = ?xs @ x # ?ys" using assms(3,4) by (simp add: lru_remove_def)
  then have "contents (put e s) (shard k) = take (cap s (shard k)) ((norm e # ?xs) @ x # ?ys)"
    using True assms(1,2) by (simp add: put_contents lru_put_def key_norm)
  moreover have "length ?xs \<le> length xs" by (rule length_lru_remove)
  moreover obtain d where "cap s (shard k) = Suc (Suc (length ?xs)) + d"
  proof -
    have "Suc (Suc (length ?xs)) \<le> cap s (shard k)" using assms(5) \<open>length ?xs \<le> length xs\<close> by linarith
    then show thesis using that le_Suc_ex by blast
  qed
  ultimately have "contents (put e s) (shard k) = (norm e # ?xs) @ x # take d ?ys" by simp
  then show ?thesis using \<open>length ?xs \<le> length xs\<close> by (intro exI [of _ "norm e # ?xs"] exI [of _ "take d ?ys"]) simp
next
  case False
  then show ?thesis using assms(1,2) by (auto simp: put_contents intro: le_SucI)
qed

lemma puts_inv: "inv s \<Longrightarrow> inv (fold put es s)"
  by (induction es arbitrary: s) (auto simp: put_inv)

lemma puts_rank:
  assumes "inv s" "contents s (shard k) = xs @ x # ys" "key x = k" "k \<notin> key ` set es"
    "length xs + length es < cap s (shard k)"
  shows "\<exists>xs' ys'. contents (fold put es s) (shard k) = xs' @ x # ys'"
  using assms
proof (induction es arbitrary: s xs ys)
  case (Cons e es)
  then obtain xs' ys' where "contents (put e s) (shard k) = xs' @ x # ys'" "length xs' \<le> Suc (length xs)"
    using put_rank [of s k xs x ys e] by auto
  with Cons.IH [of "put e s" xs' ys'] Cons.prems show ?case by (simp add: put_inv put_cap)
qed auto

lemma retained:
  assumes "inv s" "key e \<notin> key ` set es" "length es < cap s (shard (key e))"
  shows "lru_find key (key e) (contents (fold put es (put e s)) (shard (key e))) = Some (norm e)"
proof -
  obtain ys where "contents (put e s) (shard (key e)) = [] @ norm e # ys"
    using cap_pos [OF assms(1), of "key e"]
    by (cases "cap s (shard (key e))") (auto simp: put_contents assms(1) lru_put_def key_norm)
  from puts_rank [OF put_inv [OF assms(1)] this key_norm assms(2)] assms(1,3)
  obtain xs' ys' where "contents (fold put es (put e s)) (shard (key e)) = xs' @ norm e # ys'"
    by (auto simp: put_cap)
  then have "norm e \<in> set (contents (fold put es (put e s)) (shard (key e)))" by simp
  then show ?thesis
    using find_keyed [OF keys_distinct [OF puts_inv [OF put_inv [OF assms(1)]]] _ key_norm] by blast
qed

end

interpretation dc: sharded_lru cache_inv cache_abs shard_cap ce_key view shard_index
  put_section "\<lambda>k c. snd (remove_section k c)"
proof unfold_locales
  fix s :: dns_cache and k :: string assume i: "cache_inv s"
  then have I: "shard_inv (dc_heap s) (shard_index k) (dc_shards s ! shard_index k)"
    by (simp add: cache_inv_def shard_index_less)
  show "0 < shard_cap s (shard_index k)" "distinct (map ce_key (cache_abs s (shard_index k)))"
    "length (cache_abs s (shard_index k)) \<le> shard_cap s (shard_index k)"
    using I abs_distinct length_abs by (auto simp: shard_inv_def shard_cap_def cache_abs_def)
qed (simp_all add: put_section_ok remove_section_ok shard_index_less)

section \<open>The other sections\<close>

lemma stat_update_ok:
  assumes "cache_inv c" "\<And>e. view (f e) = view e" "\<And>e. ce_elem (f e) = ce_elem e"
    and "dc_shards c' = dc_shards c" "dc_next c' = dc_next c" "dc_heap c' = heap_upd (dc_heap c) a f"
  shows "cache_inv c'" "cache_abs c' = cache_abs c"
proof -
  have k: "ce_key (f e) = ce_key e" for e using arg_cong [OF assms(2) [of e], of ce_key] by simp
  then have t: "tag (dc_heap c') = tag (dc_heap c)"
    by (intro ext, cases "dc_heap c a") (simp_all add: tag_def heap_upd_def assms(3,6))
  have "dc_heap c b = None \<Longrightarrow> dc_heap c' b = None" for b by (auto simp: assms(6) heap_upd_def)
  then show "cache_inv c'" using assms(1,4,5) shard_inv_cong [OF t] by (simp add: cache_inv_def)
  show "cache_abs c' = cache_abs c"
    by (rule ext) (simp add: cache_abs_def abs_shard_def assms(2,4,6) deref_heap_upd)
qed

lemma promote_section_ok:
  assumes "cache_inv c" "tag (dc_heap c) a = Some (k, b)"
  shows "cache_inv (promote_section k a c)"
    "j < NumDNSCacheShards \<Longrightarrow> cache_abs (promote_section k a c) j =
      (if b \<and> j = shard_index k then lru_touch ce_key k (cache_abs c j) else cache_abs c j)"
proof -
  let ?i = "shard_index k" and ?s = "shard_promote (dc_heap c) (shard_at c k) a"
  note P = shard_promote_ok(1) [OF cache_inv_shard [OF assms(1)] assms(2) refl]
  have "a < dc_next c" using assms cache_invD(3) [OF assms(1), of a] by (force simp: tag_def not_less)
  moreover have eq: "dc_shards (promote_section k a c) = (dc_shards c)[?i := ?s]"
    "dc_heap (promote_section k a c) = dc_heap c" "dc_next (promote_section k a c) = dc_next c"
    by (simp_all add: promote_section_def set_shard_def)
  ultimately have n: "dc_next c \<le> dc_next (promote_section k a c)"
    "a < dc_next (promote_section k a c) \<or> dc_heap c a = None" by simp_all
  note S = section_cache [OF assms(1) shard_index_less P eq(1,2) n]
  show "cache_inv (promote_section k a c)" by (rule S(1))
  show "j < NumDNSCacheShards \<Longrightarrow> cache_abs (promote_section k a c) j =
      (if b \<and> j = ?i then lru_touch ce_key k (cache_abs c j) else cache_abs c j)"
    using S(2) [of j] by (auto simp: shard_at_def cache_abs_def)
qed

lemma evict_section_ok:
  assumes "cache_inv c"
  shows "cache_inv (evict_section k a now c)"
    "j < NumDNSCacheShards \<Longrightarrow> cache_abs (evict_section k a now c) j =
      (if j = shard_index k \<and> map_of (sh_entries (shard_at c k)) k = Some a \<and> expired now (deref (dc_heap c) a)
       then lru_remove ce_key k (cache_abs c j) else cache_abs c j)"
proof -
  let ?i = "shard_index k"
  obtain h s ev where p: "shard_lazy_evict (dc_heap c) (shard_at c k) k a now = (h, s, ev)" by (metis prod_cases3)
  note R = shard_lazy_evict_ok [OF cache_inv_shard [OF assms] p]
  have eq: "dc_shards (evict_section k a now c) = (dc_shards c)[?i := s]"
    "dc_heap (evict_section k a now c) = h" "dc_next (evict_section k a now c) = dc_next c"
    using p by (simp_all add: evict_section_def set_shard_def)
  have "h (dc_next c) = None"
    using R(1) [of "Suc (dc_next c)"] cache_invD(3) [OF assms order_refl] by (simp add: section_ok_def)
  note S = section_cache [OF assms shard_index_less R(1) eq(1,2) _ disjI2 [OF this]]
  show "cache_inv (evict_section k a now c)" by (rule S(1)) (simp add: eq)
  show "j < NumDNSCacheShards \<Longrightarrow> cache_abs (evict_section k a now c) j =
      (if j = ?i \<and> map_of (sh_entries (shard_at c k)) k = Some a \<and> expired now (deref (dc_heap c) a)
       then lru_remove ce_key k (cache_abs c j) else cache_abs c j)"
    using S(2) [of j] eq(3) R(3) by (auto simp: shard_at_def cache_abs_def expired_def)
qed

text \<open>The three maintenance operations visit every shard; one round on shard \<open>i\<close>.\<close>

lemma clear_shard_ok:
  assumes "cache_inv c" "i < NumDNSCacheShards"
  shows "cache_inv (clear_shard i c)"
    "j < NumDNSCacheShards \<Longrightarrow> cache_abs (clear_shard i c) j = (if j = i then [] else cache_abs c j)"
proof -
  obtain h s where p: "shard_clear (dc_heap c) (dc_shards c ! i) = (h, s)" by fastforce
  note R = shard_clear_ok [OF cache_invD(2) [OF assms] p]
  have eq: "dc_shards (clear_shard i c) = (dc_shards c)[i := s]"
    "dc_heap (clear_shard i c) = h" "dc_next (clear_shard i c) = dc_next c"
    using p by (simp_all add: clear_shard_def set_shard_def)
  have "h (dc_next c) = None"
    using R(1) [of "Suc (dc_next c)"] cache_invD(3) [OF assms(1) order_refl] by (simp add: section_ok_def)
  note S = section_cache [OF assms R(1) eq(1,2) _ disjI2 [OF this]]
  show "cache_inv (clear_shard i c)" by (rule S(1)) (simp add: eq)
  show "j < NumDNSCacheShards \<Longrightarrow> cache_abs (clear_shard i c) j = (if j = i then [] else cache_abs c j)"
    using S(2) [of j] eq(3) by simp
qed

lemma cleanup_shard_ok:
  assumes "cache_inv c" "i < NumDNSCacheShards"
  shows "cache_inv (cleanup_shard now i c)"
    "j < NumDNSCacheShards \<Longrightarrow> cache_abs (cleanup_shard now i c) j =
      (if j = i then filter (\<lambda>e. \<not> expired now e) (cache_abs c j) else cache_abs c j)"
proof -
  obtain h s ev where p: "shard_cleanup now (dc_heap c) (dc_shards c ! i) (dc_evictions c) = (h, s, ev)"
    by (metis prod_cases3)
  note R = shard_cleanup_ok [OF cache_invD(2) [OF assms] p]
  have eq: "dc_shards (cleanup_shard now i c) = (dc_shards c)[i := s]"
    "dc_heap (cleanup_shard now i c) = h" "dc_next (cleanup_shard now i c) = dc_next c"
    using p by (simp_all add: cleanup_shard_def set_shard_def)
  have "h (dc_next c) = None"
    using R(1) [of "Suc (dc_next c)"] cache_invD(3) [OF assms(1) order_refl] by (simp add: section_ok_def)
  note S = section_cache [OF assms R(1) eq(1,2) _ disjI2 [OF this]]
  show "cache_inv (cleanup_shard now i c)" by (rule S(1)) (simp add: eq)
  show "j < NumDNSCacheShards \<Longrightarrow> cache_abs (cleanup_shard now i c) j =
      (if j = i then filter (\<lambda>e. \<not> expired now e) (cache_abs c j) else cache_abs c j)"
    using S(2) [of j] eq(3) by (auto simp: cache_abs_def)
qed

lemma resize_shard_ok:
  assumes "cache_inv c" "i < NumDNSCacheShards" "0 < n"
  shows "cache_inv (resize_shard n i c)"
    "j < NumDNSCacheShards \<Longrightarrow> cache_abs (resize_shard n i c) j =
      (if j = i then take n (cache_abs c j) else cache_abs c j)"
    "j < NumDNSCacheShards \<Longrightarrow> shard_cap (resize_shard n i c) j = (if j = i then n else shard_cap c j)"
proof -
  let ?s = "(dc_shards c ! i)\<lparr>sh_maxEntries := n\<rparr>"
  have core: "shard_core (dc_heap c) i ?s"
    using cache_invD(2) [OF assms(1,2)] by (simp add: shard_inv_def shard_core_def)
  obtain h s ev where p: "shard_shrink n (dc_heap c) ?s (dc_evictions c) = (h, s, ev)"
    by (metis prod_cases3)
  note R = shard_shrink_ok [OF core p]
  have eq: "dc_shards (resize_shard n i c) = (dc_shards c)[i := s]"
    "dc_heap (resize_shard n i c) = h" "dc_next (resize_shard n i c) = dc_next c"
    using p by (simp_all add: resize_shard_def set_shard_def)
  have "length (sh_entries s) \<le> n" using R length_abs [of h i s] by simp
  then have ok: "section_ok i (dc_heap c) h s a (take n (cache_abs c i))" for a
    using R assms(3) by (simp add: section_ok_def shard_inv_def cache_abs_def abs_shard_def)
  have "h (dc_next c) = None" using R cache_invD(3) [OF assms(1) order_refl] by simp
  note S = section_cache [OF assms(1,2) ok eq(1,2) _ disjI2 [OF this]]
  show "cache_inv (resize_shard n i c)" by (rule S(1)) (simp add: eq)
  show "j < NumDNSCacheShards \<Longrightarrow> cache_abs (resize_shard n i c) j =
      (if j = i then take n (cache_abs c j) else cache_abs c j)"
    using S(2) [of j] eq(3) by auto
  show "j < NumDNSCacheShards \<Longrightarrow> shard_cap (resize_shard n i c) j = (if j = i then n else shard_cap c j)"
    using R cache_invD(1) [OF assms(1)] by (cases "j = i") (simp_all add: shard_cap_def eq)
qed

section \<open>Maintenance operations\<close>

lemma fold_shards:
  assumes "\<And>i c. i < NumDNSCacheShards \<Longrightarrow> cache_inv c \<Longrightarrow> cache_inv (f i c)"
    and "\<And>i c j. i < NumDNSCacheShards \<Longrightarrow> cache_inv c \<Longrightarrow> j < NumDNSCacheShards \<Longrightarrow>
      P (f i c) j = (if j = i then g (P c j) else P c j)"
    and "cache_inv c" "n \<le> NumDNSCacheShards"
  shows "cache_inv (fold f [0..<n] c) \<and>
    (\<forall>j < NumDNSCacheShards. P (fold f [0..<n] c) j = (if j < n then g (P c j) else P c j))"
  using assms(4)
proof (induction n)
  case 0
  then show ?case using assms(3) by simp
next
  case (Suc n)
  then show ?case using assms(1) [of n "fold f [0..<n] c"] assms(2) [of n "fold f [0..<n] c"]
    by (auto simp: less_Suc_eq)
qed

text \<open>
  Resizing the cache at run time keeps the invariant and keeps, in every shard, exactly the
  most recently used entries up to the new per-shard capacity, in their order; nothing that fits
  is dropped, and the capacity the later writes obey is the new one.
\<close>

theorem resizeCapacity_keeps_recent:
  assumes "cache_inv c"
  shows "cache_inv (resizeCapacity m c) \<and>
    (\<forall>j < NumDNSCacheShards.
       cache_abs (resizeCapacity m c) j =
         take (per_shard (if m \<le> 0 then DefaultMaxCacheEntries else m)) (cache_abs c j) \<and>
       shard_cap (resizeCapacity m c) j = per_shard (if m \<le> 0 then DefaultMaxCacheEntries else m))"
proof -
  let ?m = "if m \<le> 0 then DefaultMaxCacheEntries else m" and ?c = "c\<lparr>dc_maxEntries := if m \<le> 0 then DefaultMaxCacheEntries else m\<rparr>"
  have n: "0 < per_shard ?m" by (simp add: per_shard_def Let_def)
  have e: "resizeCapacity m c = fold (resize_shard (per_shard ?m)) [0..<NumDNSCacheShards] ?c"
    using cache_invD(1) [OF assms] by (simp add: resizeCapacity_def Let_def)
  have i: "cache_inv ?c" using assms cache_inv_cong [of ?c c] by simp
  have a: "cache_abs ?c = cache_abs c" "shard_cap ?c = shard_cap c"
    by (simp_all add: cache_abs_def shard_cap_def fun_eq_iff)
  show ?thesis
    using fold_shards [of "resize_shard (per_shard ?m)" cache_abs "take (per_shard ?m)", OF _ _ i order_refl]
      fold_shards [of "resize_shard (per_shard ?m)" shard_cap "\<lambda>_. per_shard ?m", OF _ _ i order_refl]
    unfolding e a by (simp add: resize_shard_ok n)
qed

text \<open>
  The background cleaner removes exactly the entries whose stale window has passed, keeps
  the others with their order, and keeps the invariant.
\<close>

theorem cleanupExpired_exact:
  assumes "cache_inv c"
  shows "cache_inv (cleanupExpired now c) \<and>
    (\<forall>j < NumDNSCacheShards. cache_abs (cleanupExpired now c) j =
       filter (\<lambda>e. now \<le> ce_staleUntil e) (cache_abs c j))"
  using fold_shards [of "cleanup_shard now" cache_abs "filter (\<lambda>e. \<not> expired now e)", OF _ _ assms order_refl]
    cache_invD(1) [OF assms]
  by (simp add: cleanup_shard_ok cleanupExpired_def expired_def not_less)

lemma Clear_ok:
  assumes "cache_inv c"
  shows "cache_inv (Clear c) \<and> (\<forall>j < NumDNSCacheShards. cache_abs (Clear c) j = [])"
  using fold_shards [of clear_shard cache_abs "\<lambda>_. []", OF _ _ assms order_refl] cache_invD(1) [OF assms]
  by (simp add: clear_shard_ok Clear_def)

lemma new_cache_inv: "cache_inv (NewDNSCache compile cfg)"
proof -
  have "shard_inv Map.empty i (new_shard (per_shard n))" for i n
    by (simp add: shard_inv_def shard_core_def new_shard_def live_def tag_def per_shard_def Let_def)
  then show ?thesis
    by (simp add: cache_inv_def NewDNSCache_def StartPersistLoop_def Let_def NumDNSCacheShards_def
        split: prod.split)
qed

lemma new_cache_empty: "j < NumDNSCacheShards \<Longrightarrow> cache_abs (NewDNSCache compile cfg) j = []"
  by (simp add: cache_abs_def NewDNSCache_def StartPersistLoop_def Let_def new_shard_def abs_shard_def
      split: prod.split)

lemma new_cache_config: "dc_config (NewDNSCache compile cfg) = NormalizeCacheConfig cfg"
  by (simp add: NewDNSCache_def StartPersistLoop_def Let_def split: prod.split)

lemma single_entry:
  "cache_inv (put_section e (NewDNSCache compile cfg))"
  "cache_abs (put_section e (NewDNSCache compile cfg)) (shard_index (ce_key e)) = [view e]"
proof -
  show "cache_inv (put_section e (NewDNSCache compile cfg))" by (rule put_section_ok(1) [OF new_cache_inv])
  have "0 < shard_cap (NewDNSCache compile cfg) (shard_index (ce_key e))"
    by (rule dc.cap_pos [OF new_cache_inv])
  then show "cache_abs (put_section e (NewDNSCache compile cfg)) (shard_index (ce_key e)) = [view e]"
    using put_section_ok(2) [OF new_cache_inv shard_index_less, of e compile cfg "ce_key e"]
    by (simp add: new_cache_empty shard_index_less lru_put_def lru_remove_def)
qed

theorem resizeCapacity_keeps_recent_witness:
  "cache_abs (resizeCapacity 128 (put_section zero_entry (NewDNSCache (\<lambda>_. None) DefaultCacheConfig)))
     (shard_index (ce_key zero_entry)) = [view zero_entry]"
  using resizeCapacity_keeps_recent [OF single_entry(1), of 128 zero_entry "\<lambda>_. None" DefaultCacheConfig]
    single_entry(2) [of zero_entry] shard_index_less
  by (simp add: per_shard_def NumDNSCacheShards_def)

theorem cleanupExpired_exact_witness:
  "cache_abs (cleanupExpired 7 (put_section zero_entry (NewDNSCache (\<lambda>_. None) DefaultCacheConfig)))
     (shard_index (ce_key zero_entry)) = []"
  using cleanupExpired_exact [OF single_entry(1), of 7 zero_entry "\<lambda>_. None" DefaultCacheConfig]
    single_entry(2) [of zero_entry] shard_index_less
  by (simp add: zero_entry_def)

end
