(* ===== verification/Cache_Behaviour.thy ===== *)
theory Cache_Behaviour
  imports Cache_Facts
begin

text \<open>
  What a client of the cache observes: the outcome of a get in the fresh, stale and expired
  phases of an entry's life, the isolation of client groups, removal; and the system of
  interleaved critical sections with its invariant.
\<close>

section \<open>Lookups\<close>

definition cache_lookup :: "dns_cache \<Rightarrow> string \<Rightarrow> cacheEntry option" where
  "cache_lookup c k = lru_find ce_key k (cache_abs c (shard_index k))"

definition question_key :: "question \<Rightarrow> string \<Rightarrow> string" where
  "question_key q grp = CacheKeyForGroup (q_Name q) (q_Qtype q) (q_Qclass q) grp"

lemma cache_lookup_cong: "cache_abs c = cache_abs c' \<Longrightarrow> cache_lookup c k = cache_lookup c' k"
  by (simp add: cache_lookup_def)

lemma cache_lookup_map_of:
  assumes "cache_inv c"
  shows "cache_lookup c k = map_option (\<lambda>a. view (deref (dc_heap c) a)) (map_of (sh_entries (shard_at c k)) k)"
  using core_find [of "dc_heap c" "shard_index k" "shard_at c k" k] cache_inv_shard [OF assms, of k]
  by (simp add: cache_lookup_def cache_abs_def shard_at_def shard_inv_def)

lemma cache_lookup_Some:
  assumes "cache_inv c" "cache_lookup c k = Some e"
  obtains a where "map_of (sh_entries (shard_at c k)) k = Some a" "view (deref (dc_heap c) a) = e"
    "tag (dc_heap c) a = Some (k, True)"
proof -
  obtain a where a: "map_of (sh_entries (shard_at c k)) k = Some a" "view (deref (dc_heap c) a) = e"
    using assms by (auto simp: cache_lookup_map_of)
  moreover have "live (dc_heap c) (shard_index k) k a"
    using core_map_of [of "dc_heap c" "shard_index k" "shard_at c k" k a] cache_inv_shard [OF assms(1)] a(1)
    by (simp add: shard_inv_def)
  ultimately show thesis using that by (auto simp: live_def)
qed

lemma put_lookup:
  assumes "cache_inv c"
  shows "cache_lookup (put_section e c) (ce_key e) = Some (view e)"
    "k \<noteq> ce_key e \<Longrightarrow> cache_lookup (put_section e c) k = Some x \<Longrightarrow> cache_lookup c k = Some x"
    "ce_key e \<notin> ce_key ` set es \<Longrightarrow> length es < shard_cap c (shard_index (ce_key e)) \<Longrightarrow>
     cache_lookup (fold put_section es (put_section e c)) (ce_key e) = Some (view e)"
  unfolding cache_lookup_def
  by (rule dc.lookup_put_same [OF assms], erule (1) dc.put_no_invention [OF assms],
      erule (1) dc.retained [OF assms])

lemma put_section_config [simp]: "dc_config (put_section e c) = dc_config c"
  by (simp add: put_section_def set_shard_def split: prod.split)

lemma puts_config [simp]: "dc_config (fold put_section es c) = dc_config c"
  by (induction es arbitrary: c) simp_all

lemma touch_lookup: "lru_find key k (lru_touch key k' l) = lru_find key k l"
proof -
  have f: "find (\<lambda>e. key e = k) (filter (\<lambda>e. key e \<noteq> k') l) =
    (if k = k' then None else find (\<lambda>e. key e = k) l)" for l
    by (induction l) auto
  show ?thesis
  proof (cases "lru_find key k' l")
    case (Some e)
    then have "key e = k'" by (auto simp: lru_find_def find_Some_iff)
    with Some f show ?thesis by (auto simp: lru_touch_def lru_find_def lru_remove_def)
  qed (simp add: lru_touch_def)
qed

section \<open>The outcome of a get\<close>

lemma fresh_reply_view: "fresh_reply req (view e) now2 = fresh_reply req e now2"
  by (simp add: fresh_reply_def)

lemma get_absent:
  assumes "cache_inv c" "m_Question req = q # qs" "cache_lookup c (question_key q grp) = None"
  shows "fst (GetForGroup c req grp now now2) = get_miss"
  using assms by (auto simp: GetForGroup_def lookup_section_def cache_lookup_map_of question_key_def Let_def)

lemma count_hit_ok:
  assumes "cache_inv c"
  shows "cache_inv (count_hit c a now)" "cache_abs (count_hit c a now) = cache_abs c"
    "tag (dc_heap (count_hit c a now)) = tag (dc_heap c)"
proof -
  show "cache_inv (count_hit c a now)" "cache_abs (count_hit c a now) = cache_abs c"
    by (rule stat_update_ok [OF assms, where a = a and f = "\<lambda>e. e\<lparr>ce_hitCount := ce_hitCount e + 1, ce_lastHitAt := now\<rparr>"];
        simp add: count_hit_def)+
  show "tag (dc_heap (count_hit c a now)) = tag (dc_heap c)"
    by (rule ext, cases "dc_heap c a") (simp_all add: count_hit_def tag_def heap_upd_def)
qed

lemma get_fresh:
  assumes "cache_inv c" "IsEnabled c" "m_Question req = q # qs"
    and "cache_lookup c (question_key q grp) = Some e" "now < ce_expiresAt e"
  shows "fst (GetForGroup c req grp now now2) =
      \<lparr>g_resp = Some (fresh_reply req e now2), g_hit = True, g_isStale = False, g_candidate = None\<rparr>"
    "cache_inv (snd (GetForGroup c req grp now now2))"
    "cache_lookup (snd (GetForGroup c req grp now now2)) k = cache_lookup c k"
    "cache_abs (snd (GetForGroup c req grp now now2)) (shard_index (question_key q grp)) =
      lru_touch ce_key (question_key q grp) (cache_abs c (shard_index (question_key q grp)))"
proof -
  let ?k = "question_key q grp"
  obtain a where a: "map_of (sh_entries (shard_at c ?k)) ?k = Some a" "view (deref (dc_heap c) a) = e"
    "tag (dc_heap c) a = Some (?k, True)" by (rule cache_lookup_Some [OF assms(1,4)])
  obtain x where x: "dc_heap c a = Some x" "ce_elem x" "view x = e" using a(2,3) by (auto simp: tag_def)
  have ex: "now < ce_expiresAt x" using assms(5) x(3) by auto
  have g: "GetForGroup c req grp now now2 =
    (\<lparr>g_resp = Some (fresh_reply req x now2), g_hit = True, g_isStale = False, g_candidate = None\<rparr>,
     promote_section ?k a (count_hit c a now))"
    using assms(2,3) a(1) x ex by (simp add: GetForGroup_def lookup_section_def question_key_def Let_def)
  have "tag (dc_heap (count_hit c a now)) a = Some (?k, True)" using a(3) count_hit_ok(3) [OF assms(1)] by simp
  note P = promote_section_ok [OF count_hit_ok(1) [OF assms(1)] this]
  show "fst (GetForGroup c req grp now now2) =
      \<lparr>g_resp = Some (fresh_reply req e now2), g_hit = True, g_isStale = False, g_candidate = None\<rparr>"
    using g x(3) fresh_reply_view [of req x now2] by simp
  show "cache_inv (snd (GetForGroup c req grp now now2))" using g P(1) by simp
  show "cache_lookup (snd (GetForGroup c req grp now now2)) k = cache_lookup c k"
    using g P(2) [OF shard_index_less] count_hit_ok(2) [OF assms(1)] by (simp add: cache_lookup_def touch_lookup)
  show "cache_abs (snd (GetForGroup c req grp now now2)) (shard_index ?k) = lru_touch ce_key ?k (cache_abs c (shard_index ?k))"
    using g P(2) [OF shard_index_less, of ?k] count_hit_ok(2) [OF assms(1)] by simp
qed

lemma get_stale:
  assumes "cache_inv c" "IsStaleFallbackEnabled c" "m_Question req = q # qs"
    and "cache_lookup c (question_key q grp) = Some e" "ce_expiresAt e \<le> now" "now < ce_staleUntil e"
  obtains a where "GetForGroup c req grp now now2 =
      (\<lparr>g_resp = None, g_hit = False, g_isStale = True, g_candidate = Some a\<rparr>, c)"
    "view (deref (dc_heap c) a) = e"
proof -
  obtain a where a: "map_of (sh_entries (shard_at c (question_key q grp))) (question_key q grp) = Some a"
    "view (deref (dc_heap c) a) = e" by (rule cache_lookup_Some [OF assms(1,4)])
  have "IsEnabled c" using assms(2) by (simp add: IsStaleFallbackEnabled_def IsEnabled_def)
  moreover have "ce_expiresAt (deref (dc_heap c) a) \<le> now" "now < ce_staleUntil (deref (dc_heap c) a)"
    using assms(5,6) a(2) by auto
  ultimately show thesis using that [OF _ a(2)] assms(2,3) a(1)
    by (simp add: GetForGroup_def lookup_section_def question_key_def Let_def)
qed

lemma get_expired:
  assumes "cache_inv c" "IsEnabled c" "m_Question req = q # qs"
    and "cache_lookup c (question_key q grp) = Some e" "ce_expiresAt e \<le> now" "ce_staleUntil e < now"
  shows "fst (GetForGroup c req grp now now2) = get_miss"
    "cache_lookup (snd (GetForGroup c req grp now now2)) (question_key q grp) = None"
proof -
  let ?k = "question_key q grp"
  obtain a where a: "map_of (sh_entries (shard_at c ?k)) ?k = Some a"
    "view (deref (dc_heap c) a) = e" by (rule cache_lookup_Some [OF assms(1,4)])
  have x: "ce_expiresAt (deref (dc_heap c) a) \<le> now" "ce_staleUntil (deref (dc_heap c) a) < now"
    using assms(5,6) a(2) by auto
  define c2 where "c2 = evict_section ?k a now c"
  have g: "GetForGroup c req grp now now2 = (get_miss, c2\<lparr>dc_totalMisses := dc_totalMisses c2 + 1\<rparr>)"
    using assms(2,3) a(1) x
    by (simp add: GetForGroup_def lookup_section_def question_key_def Let_def c2_def)
  then show "fst (GetForGroup c req grp now now2) = get_miss" by simp
  have "cache_abs c2 (shard_index ?k) = lru_remove ce_key ?k (cache_abs c (shard_index ?k))"
    using evict_section_ok(2) [OF assms(1) shard_index_less, where k = ?k and a = a and now = now] a(1) x(2)
    by (simp add: c2_def expired_def)
  moreover have "cache_abs (c2\<lparr>dc_totalMisses := dc_totalMisses c2 + 1\<rparr>) = cache_abs c2"
    by (rule cache_abs_cong) simp_all
  ultimately show "cache_lookup (snd (GetForGroup c req grp now now2)) ?k = None"
    by (auto simp: g cache_lookup_def lru_find_None)
qed

section \<open>Put, then get\<close>

lemma PutForGroup_True:
  assumes "PutForGroup c req resp grp now = (True, c1)"
  obtains q qs neg ttl where "m_Question req = q # qs" "put_ttl (dc_config c) resp = Some (neg, ttl)"
    "0 < ttl" "c1 = put_section (build_entry (dc_config c) q resp grp now neg ttl) c" "IsEnabled c"
  using assms by (auto simp: PutForGroup_def split: if_splits list.splits option.splits)

lemma build_entry_simps [simp]:
  "ce_key (build_entry cfg q resp grp now neg ttl) = question_key q grp"
  "ce_msg (build_entry cfg q resp grp now neg ttl) = resp"
  "ce_expiresAt (build_entry cfg q resp grp now neg ttl) = now + ttl"
  "ce_group (build_entry cfg q resp grp now neg ttl) = normalizeCacheGroup grp"
  "ce_staleUntil (build_entry cfg q resp grp now neg ttl) =
     (if cc_StaleFallbackEnabled cfg \<and> cc_StaleFallbackSeconds cfg > 0
      then now + ttl + wrap64 (cc_StaleFallbackSeconds cfg * second) else now + ttl)"
  by (simp_all add: build_entry_def question_key_def Let_def)

lemma remaining_seconds_exact:
  assumes "now2 \<le> exp" "exp - now2 < 2 ^ 32 * second"
  shows "uint (remaining_seconds exp now2) = max 1 ((exp - now2) div second)"
proof -
  let ?d = "(exp - now2) div second"
  have d: "0 \<le> ?d" "?d < 2 ^ 32" using assms unfolding second_def by linarith+
  have "go_div (exp - now2) second = ?d" using assms(1) by (simp add: go_div_pos second_def)
  moreover have "uint (word_of_int ?d :: u32) = ?d" using d by (simp add: unsigned_of_int take_bit_int_eq_self)
  moreover have "(word_of_int ?d :: u32) = 0 \<longleftrightarrow> ?d = 0"
    using \<open>uint (word_of_int ?d :: u32) = ?d\<close> by (metis unsigned_0 uint_0_iff)
  ultimately show ?thesis using d(1) by (auto simp: remaining_seconds_def Let_def)
qed

text \<open>
  A stored answer is served from the cache. After a successful put, and after fewer other
  puts than the capacity of the shard, a get for the same question and client group before the
  expiry is a fresh hit: it returns the stored answer with the identifier of the new request,
  every non-OPT record carrying the whole seconds that remain (at least 1) and nothing else
  changed.
\<close>

theorem put_then_get_fresh:
  assumes "cache_inv c" "PutForGroup c req resp grp now = (True, c1)"
    and "m_Question req = q # qs" "put_ttl (dc_config c) resp = Some (neg, ttl)"
    and "question_key q grp \<notin> ce_key ` set others"
    and "length others < shard_cap c (shard_index (question_key q grp))"
    and "m_Question req' = q' # qs'" "question_key q' grp' = question_key q grp"
    and "t < now + ttl" "t2 \<le> now + ttl" "now + ttl - t2 < 2 ^ 32 * second"
  shows "\<exists>ttl'. uint ttl' = max 1 ((now + ttl - t2) div second) \<and>
    fst (GetForGroup (fold put_section others c1) req' grp' t t2) =
      \<lparr>g_resp = Some (RewriteTTL (resp\<lparr>m_Id := m_Id req'\<rparr>) ttl'),
       g_hit = True, g_isStale = False, g_candidate = None\<rparr>"
proof -
  obtain q0 qs0 n0 t0 where p: "m_Question req = q0 # qs0" "put_ttl (dc_config c) resp = Some (n0, t0)"
    "c1 = put_section (build_entry (dc_config c) q0 resp grp now n0 t0) c" "IsEnabled c"
    by (rule PutForGroup_True [OF assms(2)])
  let ?e = "build_entry (dc_config c) q resp grp now neg ttl" and ?c = "fold put_section others c1"
  have c1: "c1 = put_section ?e c" using p assms(3,4) by simp
  have l: "cache_lookup ?c (question_key q' grp') = Some (view ?e)"
    using put_lookup(3) [OF assms(1), of ?e others] assms(5,6,8) c1 by simp
  have inv: "cache_inv ?c" unfolding c1 by (rule dc.puts_inv [OF dc.put_inv [OF assms(1)]])
  have en: "IsEnabled ?c" using p(4) c1 by (simp add: IsEnabled_def)
  have "t < ce_expiresAt (view ?e)" using assms(9) by simp
  note G = get_fresh(1) [OF inv en assms(7) l this, of t2]
  show ?thesis
    using G remaining_seconds_exact [OF assms(10,11)]
    by (intro exI [of _ "remaining_seconds (now + ttl) t2"]) (simp add: fresh_reply_def)
qed

text \<open>
  Past its expiry a stored answer is offered as a stale candidate while the grace period
  lasts, and the reply built from it carries the new identifier and TTL 1; once the grace period
  has passed, the get is a miss and the entry is gone.
\<close>

theorem put_then_get_late:
  assumes "cache_inv c" "PutForGroup c req resp grp now = (True, c1)"
    and "m_Question req = q # qs" "put_ttl (dc_config c) resp = Some (neg, ttl)"
    and "cc_StaleFallbackEnabled (dc_config c)" "0 < cc_StaleFallbackSeconds (dc_config c)"
    and "cc_StaleFallbackSeconds (dc_config c) < 2 ^ 33" "now + ttl \<le> t"
  shows "(t < now + ttl + cc_StaleFallbackSeconds (dc_config c) * second \<longrightarrow>
     (\<exists>a. GetForGroup c1 req grp t t2 =
        (\<lparr>g_resp = None, g_hit = False, g_isStale = True, g_candidate = Some a\<rparr>, c1) \<and>
      fst (BuildStaleResponse c1 req a t) = RewriteTTL (resp\<lparr>m_Id := m_Id req\<rparr>) 1)) \<and>
    (now + ttl + cc_StaleFallbackSeconds (dc_config c) * second < t \<longrightarrow>
      fst (GetForGroup c1 req grp t t2) = get_miss \<and>
      cache_lookup (snd (GetForGroup c1 req grp t t2)) (question_key q grp) = None)"
proof -
  obtain q0 qs0 n0 t0 where p: "m_Question req = q0 # qs0" "put_ttl (dc_config c) resp = Some (n0, t0)"
    "c1 = put_section (build_entry (dc_config c) q0 resp grp now n0 t0) c" "IsEnabled c"
    by (rule PutForGroup_True [OF assms(2)])
  let ?e = "build_entry (dc_config c) q resp grp now neg ttl"
  have c1: "c1 = put_section ?e c" using p assms(3,4) by simp
  have w: "wrap64 (cc_StaleFallbackSeconds (dc_config c) * second) = cc_StaleFallbackSeconds (dc_config c) * second"
    by (rule wrap64_id) (use assms(6,7) in \<open>simp add: second_def\<close>)
  have l: "cache_lookup c1 (question_key q grp) = Some (view ?e)"
    using put_lookup(1) [OF assms(1), of ?e] c1 by simp
  have inv: "cache_inv c1" unfolding c1 by (rule dc.put_inv [OF assms(1)])
  have en: "IsEnabled c1" "IsStaleFallbackEnabled c1"
    using p(4) c1 assms(5) by (simp_all add: IsEnabled_def IsStaleFallbackEnabled_def)
  have st: "ce_staleUntil (view ?e) = now + ttl + cc_StaleFallbackSeconds (dc_config c) * second"
    using assms(5,6) w by simp
  show ?thesis
  proof (intro conjI impI)
    assume "t < now + ttl + cc_StaleFallbackSeconds (dc_config c) * second"
    then have "t < ce_staleUntil (view ?e)" using st by simp
    then obtain a where a: "GetForGroup c1 req grp t t2 =
        (\<lparr>g_resp = None, g_hit = False, g_isStale = True, g_candidate = Some a\<rparr>, c1)"
      "view (deref (dc_heap c1) a) = view ?e"
      using get_stale [OF inv en(2) assms(3) l, of t t2] assms(8) by auto
    have "ce_msg (deref (dc_heap c1) a) = resp" using arg_cong [OF a(2), of ce_msg] by simp
    with a(1) show "\<exists>a. GetForGroup c1 req grp t t2 =
        (\<lparr>g_resp = None, g_hit = False, g_isStale = True, g_candidate = Some a\<rparr>, c1) \<and>
      fst (BuildStaleResponse c1 req a t) = RewriteTTL (resp\<lparr>m_Id := m_Id req\<rparr>) 1"
      by (intro exI [of _ a]) (simp add: BuildStaleResponse_def)
  next
    assume "now + ttl + cc_StaleFallbackSeconds (dc_config c) * second < t"
    then have "ce_staleUntil (view ?e) < t" using st by simp
    note G = get_expired [OF inv en(1) assms(3) l _ this, of t2]
    show "fst (GetForGroup c1 req grp t t2) = get_miss"
      "cache_lookup (snd (GetForGroup c1 req grp t t2)) (question_key q grp) = None"
      using G assms(8) by auto
  qed
qed

text \<open>A concrete run: one A record with TTL 120 stored at time 0 in a fresh cache.\<close>

definition sample_q :: question where
  "sample_q = \<lparr>q_Name = ''a.b.'', q_Qtype = TypeA, q_Qclass = ClassINET\<rparr>"

definition sample_req :: "u16 \<Rightarrow> msg" where
  "sample_req n = empty_msg\<lparr>m_Id := n, m_RecursionDesired := True, m_Question := [sample_q]\<rparr>"

definition sample_resp :: msg where
  "sample_resp = empty_msg\<lparr>m_Id := 1, m_Response := True, m_Question := [sample_q],
     m_Answer := [mk_rr ''a.b.'' TypeA 120 (RD_A [1, 2, 3, 4])]\<rparr>"

definition sample_cache :: dns_cache where
  "sample_cache = NewDNSCache (\<lambda>_. None) DefaultCacheConfig"

lemma sample_cache_ok:
  "cache_inv sample_cache" "dc_config sample_cache = DefaultCacheConfig" "IsEnabled sample_cache"
proof -
  show "cache_inv sample_cache" by (simp add: sample_cache_def new_cache_inv)
  have "config_in_range DefaultCacheConfig"
    by (simp add: config_in_range_def DefaultCacheConfig_def cache_const_defs)
  then show c: "dc_config sample_cache = DefaultCacheConfig"
    by (simp add: sample_cache_def new_cache_config normalize_fixpoint)
  show "IsEnabled sample_cache" by (simp add: IsEnabled_def c DefaultCacheConfig_def)
qed

lemma sample_put_ttl: "put_ttl (dc_config sample_cache) sample_resp = Some (False, 120 * second)"
  unfolding sample_cache_ok by code_simp

lemma sample_put: "PutForGroup sample_cache (sample_req 1) sample_resp grp 0 =
    (True, snd (PutForGroup sample_cache (sample_req 1) sample_resp grp 0))"
  using sample_cache_ok(3) sample_put_ttl by (simp add: PutForGroup_def sample_req_def second_def)

theorem put_then_get_fresh_witness:
  "\<exists>ttl'. uint ttl' = max 1 ((0 + 120 * second - 5 * second) div second) \<and>
    fst (GetForGroup (fold put_section [] (snd (PutForGroup sample_cache (sample_req 1) sample_resp ''kids'' 0)))
          (sample_req 9) ''kids'' (4 * second) (5 * second)) =
      \<lparr>g_resp = Some (RewriteTTL (sample_resp\<lparr>m_Id := m_Id (sample_req 9)\<rparr>) ttl'),
       g_hit = True, g_isStale = False, g_candidate = None\<rparr>"
proof (rule put_then_get_fresh [OF sample_cache_ok(1) sample_put _ sample_put_ttl])
  show "m_Question (sample_req 1) = sample_q # []" "m_Question (sample_req 9) = sample_q # []"
    by (simp_all add: sample_req_def)
  show "length [] < shard_cap sample_cache (shard_index (question_key sample_q ''kids''))"
    using dc.cap_pos [OF sample_cache_ok(1)] by simp
qed (simp_all add: second_def)

theorem put_then_get_late_witness:
  "\<exists>a. GetForGroup (snd (PutForGroup sample_cache (sample_req 1) sample_resp ''kids'' 0)) (sample_req 1) ''kids'' (200 * second) 0 =
        (\<lparr>g_resp = None, g_hit = False, g_isStale = True, g_candidate = Some a\<rparr>,
         snd (PutForGroup sample_cache (sample_req 1) sample_resp ''kids'' 0)) \<and>
      fst (BuildStaleResponse (snd (PutForGroup sample_cache (sample_req 1) sample_resp ''kids'' 0)) (sample_req 1) a (200 * second)) =
        RewriteTTL (sample_resp\<lparr>m_Id := m_Id (sample_req 1)\<rparr>) 1"
proof -
  have q: "m_Question (sample_req 1) = sample_q # []" by (simp add: sample_req_def)
  show ?thesis
    by (rule put_then_get_late [OF sample_cache_ok(1) sample_put q sample_put_ttl, THEN conjunct1, THEN mp])
      (simp_all add: sample_cache_ok(2) DefaultCacheConfig_def second_def)
qed

section \<open>Isolation and removal\<close>

lemma get_hit_lookup:
  assumes "cache_inv c" "g_hit (fst (GetForGroup c req grp t t2))"
  obtains q qs e where "m_Question req = q # qs" "IsEnabled c"
    "cache_lookup c (question_key q grp) = Some e" "t < ce_expiresAt e"
proof -
  from assms(2) have en: "IsEnabled c" and nq: "m_Question req \<noteq> []"
    by (auto simp: GetForGroup_def get_miss_def split: if_splits list.splits)
  then obtain q qs where q: "m_Question req = q # qs" by (cases "m_Question req") auto
  show thesis
  proof (cases "map_of (sh_entries (shard_at c (question_key q grp))) (question_key q grp)")
    case None
    then show ?thesis using assms(2) en q
      by (simp add: GetForGroup_def lookup_section_def question_key_def get_miss_def Let_def)
  next
    case (Some a)
    then have l: "cache_lookup c (question_key q grp) = Some (view (deref (dc_heap c) a))"
      by (simp add: cache_lookup_map_of [OF assms(1)])
    have "t < ce_expiresAt (deref (dc_heap c) a)" using assms(2) en q Some
      by (auto simp: GetForGroup_def lookup_section_def question_key_def get_miss_def Let_def split: if_splits)
    with that [OF q en l] show ?thesis by simp
  qed
qed



text \<open>
  Removing the entry of a question for a client group makes the next get of that question
  and group a miss, reports whether an entry was there, and leaves every other key as it was.
\<close>

theorem remove_then_get:
  assumes "cache_inv c" "m_Question req = q # qs"
  shows "fst (RemoveForGroup c req grp) = (cache_lookup c (question_key q grp) \<noteq> None) \<and>
    fst (GetForGroup (snd (RemoveForGroup c req grp)) req grp t t2) = get_miss \<and>
    (\<forall>k. k \<noteq> question_key q grp \<longrightarrow> cache_lookup (snd (RemoveForGroup c req grp)) k = cache_lookup c k)"
proof -
  have r: "RemoveForGroup c req grp = remove_section (question_key q grp) c"
    using assms(2) by (simp add: RemoveForGroup_def question_key_def)
  have inv: "cache_inv (snd (RemoveForGroup c req grp))" unfolding r by (rule dc.remove_inv [OF assms(1)])
  have l: "cache_lookup (snd (RemoveForGroup c req grp)) k =
      (if k = question_key q grp then None else cache_lookup c k)" for k
    unfolding r cache_lookup_def by (rule dc.lookup_remove [OF assms(1)])
  show ?thesis
    using get_absent [OF inv assms(2)] l remove_section_ok(4) [OF assms(1)] r
    by (simp add: cache_lookup_def)
qed

theorem remove_then_get_witness:
  "fst (GetForGroup (snd (RemoveForGroup
     (snd (PutForGroup sample_cache (sample_req 1) sample_resp ''kids'' 0)) (sample_req 1) ''kids''))
     (sample_req 1) ''kids'' 1 1) = get_miss"
proof -
  obtain q qs neg ttl where p: "snd (PutForGroup sample_cache (sample_req 1) sample_resp ''kids'' 0) =
    put_section (build_entry (dc_config sample_cache) q sample_resp ''kids'' 0 neg ttl) sample_cache"
    by (rule PutForGroup_True [OF sample_put])
  have q: "m_Question (sample_req 1) = sample_q # []" by (simp add: sample_req_def)
  show ?thesis unfolding p
    using remove_then_get [OF dc.put_inv [OF sample_cache_ok(1)] q] by blast
qed

end
