(* ===== verification/Cache_System.thy ===== *)
theory Cache_System
  imports Cache_Behaviour
begin

text \<open>
  The cache under concurrency. A system state is the cache and the work that goroutines have
  still to do: a get that found a fresh entry has an LRU promotion pending, one that found an
  expired entry has a lazy eviction pending, one that was given a stale candidate may build
  responses from it at any later time. A step is one critical section (or one atomic update) of
  some goroutine, so the relation covers every interleaving of any number of them, together with
  the cleaner, the prefetcher, restoring from disk and run-time configuration.
\<close>

section \<open>Steps\<close>

datatype task = TPromote string addr | TEvict string addr time | TStale addr

fun pending :: "string \<Rightarrow> time \<Rightarrow> lookup_result \<Rightarrow> task list" where
  "pending k now LMiss = []"
| "pending k now (LFresh a _ linked) = (if linked then [TPromote k a] else [])"
| "pending k now (LStale a) = [TStale a]"
| "pending k now (LExpired a) = [TEvict k a now]"

type_synonym sys = "dns_cache \<times> task list"

inductive sys_step :: "sys \<Rightarrow> sys \<Rightarrow> bool" where
  lookup: "IsEnabled c \<Longrightarrow> lookup_section c req k now now2 = (r, c') \<Longrightarrow>
    sys_step (c, ts) (c', pending k now r @ ts)"
| promote: "sys_step (c, ts1 @ TPromote k a # ts2) (promote_section k a c, ts1 @ ts2)"
| evict: "c' = evict_section k a now c \<Longrightarrow>
    sys_step (c, ts1 @ TEvict k a now # ts2) (c'\<lparr>dc_totalMisses := dc_totalMisses c' + 1\<rparr>, ts1 @ ts2)"
| stale: "TStale a \<in> set ts \<Longrightarrow> sys_step (c, ts) (snd (BuildStaleResponse c req a now), ts)"
| put: "sys_step (c, ts) (put_section e c, ts)"
| remove: "sys_step (c, ts) (snd (remove_section k c), ts)"
| clear: "i < NumDNSCacheShards \<Longrightarrow> sys_step (c, ts) (clear_shard i c, ts)"
| cleanup: "i < NumDNSCacheShards \<Longrightarrow> sys_step (c, ts) (cleanup_shard now i c, ts)"
| capacity: "sys_step (c, ts) (c\<lparr>dc_maxEntries := m\<rparr>, ts)"
| resize: "i < NumDNSCacheShards \<Longrightarrow> sys_step (c, ts) (resize_shard (per_shard m) i c, ts)"
| config: "sys_step (c, ts) (set_config compile cfg c, ts)"
| persist: "sys_step (c, ts) (SyncPersistLoop c, ts)"
| mark: "sys_step (c, ts) (c\<lparr>dc_heap := heap_upd (dc_heap c) a (\<lambda>e. e\<lparr>ce_lastPrefetchAt := now\<rparr>)\<rparr>, ts)"

inductive_cases sys_stepE: "sys_step s s'"

abbreviation sys_steps :: "sys \<Rightarrow> sys \<Rightarrow> bool" where
  "sys_steps \<equiv> sys_step\<^sup>*\<^sup>*"

definition task_ok :: "dns_cache \<Rightarrow> task \<Rightarrow> bool" where
  "task_ok c t = (case t of
      TPromote k a \<Rightarrow> \<exists>b. tag (dc_heap c) a = Some (k, b)
    | TEvict k a _ \<Rightarrow> \<exists>b. tag (dc_heap c) a = Some (k, b)
    | TStale a \<Rightarrow> dc_heap c a \<noteq> None)"

definition sys_inv :: "sys \<Rightarrow> bool" where
  "sys_inv s \<longleftrightarrow> cache_inv (fst s) \<and> (\<forall>t \<in> set (snd s). task_ok (fst s) t)"

section \<open>Published entries do not change\<close>

definition content_kept :: "heap \<Rightarrow> heap \<Rightarrow> bool" where
  "content_kept h h' \<longleftrightarrow> (\<forall>a e. h a = Some e \<longrightarrow> (\<exists>e'. h' a = Some e' \<and> view e' = view e))"

lemma content_kept_refl [simp]: "content_kept h h"
  by (simp add: content_kept_def)

lemma content_kept_trans: "content_kept h h1 \<Longrightarrow> content_kept h1 h2 \<Longrightarrow> content_kept h h2"
  unfolding content_kept_def by metis

lemma content_kept_upd: "(\<And>e. view (f e) = view e) \<Longrightarrow> content_kept h (heap_upd h a f)"
  by (auto simp: content_kept_def heap_upd_def)

lemma content_kept_alloc: "h a = None \<Longrightarrow> content_kept h (h(a \<mapsto> e))"
  by (auto simp: content_kept_def)

lemma lru_unlink_kept: "lru_unlink h s a = (h', s') \<Longrightarrow> content_kept h h'"
  by (auto simp: lru_unlink_def intro!: content_kept_upd split: if_splits)

lemma shard_delete_kept: "shard_delete h s k a = (h', s') \<Longrightarrow> content_kept h h'"
  by (auto simp: shard_delete_def dest: lru_unlink_kept split: prod.splits)

lemma evict_back_kept: "evict_back h s = (h', s', ev) \<Longrightarrow> content_kept h h'"
  by (auto simp: evict_back_def Let_def intro!: content_kept_upd split: if_splits)

lemma shard_remove_kept: "shard_remove h s k = (h', s', ev) \<Longrightarrow> content_kept h h'"
  by (auto simp: shard_remove_def dest: shard_delete_kept split: option.splits prod.splits)

lemma shard_lazy_evict_kept: "shard_lazy_evict h s k a now = (h', s', ev) \<Longrightarrow> content_kept h h'"
  by (auto simp: shard_lazy_evict_def dest: shard_delete_kept split: if_splits prod.splits)

lemma evict_back_None: "evict_back h s = (h', s', ev) \<Longrightarrow> h a = None \<Longrightarrow> h' a = None"
  by (auto simp: evict_back_def Let_def heap_upd_def split: if_splits)

lemma shard_delete_None: "shard_delete h s k b = (h', s') \<Longrightarrow> h a = None \<Longrightarrow> h' a = None"
  by (auto simp: shard_delete_def lru_unlink_def heap_upd_def split: if_splits)

lemma shard_put_kept:
  assumes "shard_put h s a e = (h', s', ev)" "h a = None"
  shows "content_kept h h'"
proof -
  have "\<exists>h1 s1. push_front h1 s1 a e = (h', s') \<and> content_kept h h1 \<and> h1 a = None"
  proof (cases "map_of (sh_entries s) (ce_key e)")
    case None
    then show ?thesis using assms evict_back_kept evict_back_None
      by (fastforce simp: shard_put_def Let_def split: prod.splits if_splits)
  next
    case (Some old)
    then show ?thesis using assms shard_delete_kept shard_delete_None
      by (fastforce simp: shard_put_def Let_def split: prod.splits)
  qed
  then obtain h1 s1 where 1: "push_front h1 s1 a e = (h', s')" "content_kept h h1" "h1 a = None" by blast
  then have "content_kept h1 h'" using content_kept_alloc by (auto simp: push_front_def)
  with 1(2) show ?thesis by (rule content_kept_trans)
qed

lemma unlink_all_kept: "content_kept h (unlink_all h as)"
proof (induction as arbitrary: h)
  case (Cons a as)
  have "content_kept h (heap_upd h a (ce_elem_update (\<lambda>_. False)))" by (rule content_kept_upd) simp
  with Cons show ?case using content_kept_trans by (metis unlink_all.simps(2))
qed simp

lemma shard_shrink_kept: "shard_shrink n h s ev = (h', s', ev') \<Longrightarrow> content_kept h h'"
proof (induction n h s ev rule: shard_shrink.induct)
  case (1 n h s ev)
  show ?case
  proof (cases "length (sh_entries s) > n \<and> sh_lruList s \<noteq> []")
    case True
    obtain h1 s1 b where e: "evict_back h s = (h1, s1, b)" by (metis prod_cases3)
    then have "shard_shrink n h1 s1 (ev + 1) = (h', s', ev')"
      using 1(2) True by (simp add: shard_shrink.simps [of n h])
    with 1(1) True e show ?thesis using evict_back_kept content_kept_trans by metis
  next
    case False
    have "shard_shrink n h s ev = (h, s, ev)" by (subst shard_shrink.simps) (rule if_not_P [OF False])
    with 1(2) have "h' = h" by simp
    then show ?thesis by simp
  qed
qed

lemma cleanup_entries_kept: "cleanup_entries now rest h s ev = (h', s', ev') \<Longrightarrow> content_kept h h'"
proof (induction now rest h s ev rule: cleanup_entries.induct)
  case (2 now k a rest h s ev)
  show ?case
  proof (cases "now > ce_staleUntil (deref h a)")
    case True
    obtain h1 s1 where d: "shard_delete h s k a = (h1, s1)" by fastforce
    with 2 True show ?thesis using shard_delete_kept content_kept_trans by (simp add: Let_def) metis
  qed (use 2 in simp)
qed simp

lemma set_config_simps [simp]:
  "dc_shards (set_config compile cfg c) = dc_shards c" "dc_heap (set_config compile cfg c) = dc_heap c"
  "dc_next (set_config compile cfg c) = dc_next c"
  by (simp_all add: set_config_def Let_def split: prod.split)

lemma SyncPersistLoop_simps [simp]:
  "dc_shards (SyncPersistLoop c) = dc_shards c" "dc_heap (SyncPersistLoop c) = dc_heap c"
  "dc_next (SyncPersistLoop c) = dc_next c"
  by (simp_all add: SyncPersistLoop_def StartPersistLoop_def StopPersistLoop_def Let_def)

lemma lookup_section_heap:
  assumes "lookup_section c req k now now2 = (r, c')"
  shows "content_kept (dc_heap c) (dc_heap c')"
proof -
  have "dc_heap c' = dc_heap c \<or> (\<exists>a. c' = count_hit c a now)"
    using assms by (auto simp: lookup_section_def Let_def split: option.splits if_splits)
  then show ?thesis by (auto simp: count_hit_def intro!: content_kept_upd)
qed

lemma step_content_kept:
  assumes "sys_step s s'" "cache_inv (fst s)"
  shows "content_kept (dc_heap (fst s)) (dc_heap (fst s'))"
  using assms
proof (induction rule: sys_step.induct)
  case (evict c' k a now c ts1 ts2)
  then show ?case by (auto simp: evict_section_def set_shard_def dest: shard_lazy_evict_kept split: prod.split)
next
  case (put c ts e)
  then have "dc_heap c (dc_next c) = None" by (simp add: cache_inv_def)
  then show ?case by (auto simp: put_section_def set_shard_def dest: shard_put_kept split: prod.split)
qed (auto simp: lookup_section_heap promote_section_def set_shard_def BuildStaleResponse_def remove_section_def
    clear_shard_def shard_clear_def cleanup_shard_def shard_cleanup_def resize_shard_def unlink_all_kept
    intro!: content_kept_upd dest: shard_remove_kept cleanup_entries_kept shard_shrink_kept split: prod.split)

lemma task_ok_kept:
  assumes "content_kept (dc_heap c) (dc_heap c')" "task_ok c t"
  shows "task_ok c' t"
proof -
  have k: "\<exists>b'. tag (dc_heap c') a = Some (k, b')" if "tag (dc_heap c) a = Some (k, b)" for a k b
  proof -
    from that obtain e where e: "dc_heap c a = Some e" "ce_key e = k" by (auto simp: tag_def)
    with assms(1) obtain e' where "dc_heap c' a = Some e'" "view e' = view e" by (auto simp: content_kept_def)
    with e show ?thesis using view_simps(1) by (metis (no_types, lifting) option.simps(9) tag_def)
  qed
  moreover have "dc_heap c a \<noteq> None \<Longrightarrow> dc_heap c' a \<noteq> None" for a
    using assms(1) by (auto simp: content_kept_def)
  ultimately show ?thesis using assms(2) by (cases t) (auto simp: task_ok_def dest: k)
qed

lemma pending_ok:
  assumes "cache_inv c" "lookup_section c req k now now2 = (r, c')" "t \<in> set (pending k now r)"
  shows "task_ok c t"
proof (cases "map_of (sh_entries (shard_at c k)) k")
  case None
  then show ?thesis using assms(2,3) by (auto simp: lookup_section_def)
next
  case (Some a)
  then have "tag (dc_heap c) a = Some (k, True)"
    using core_map_of [of "dc_heap c" "shard_index k" "shard_at c k" k a] cache_inv_shard [OF assms(1), of k]
    by (simp add: shard_inv_def live_def)
  moreover from this have "dc_heap c a \<noteq> None" by (auto simp: tag_def)
  ultimately show ?thesis using assms(2,3) Some
    by (auto simp: lookup_section_def Let_def task_ok_def split: if_splits)
qed

lemma lookup_section_inv:
  assumes "cache_inv c" "lookup_section c req k now now2 = (r, c')"
  shows "cache_inv c'"
proof -
  have "(dc_shards c' = dc_shards c \<and> dc_heap c' = dc_heap c \<and> dc_next c' = dc_next c) \<or> (\<exists>a. c' = count_hit c a now)"
    using assms(2) by (auto simp: lookup_section_def Let_def split: option.splits if_splits)
  then show ?thesis
  proof
    assume "dc_shards c' = dc_shards c \<and> dc_heap c' = dc_heap c \<and> dc_next c' = dc_next c"
    then show ?thesis using assms(1) cache_inv_cong [of c' c] by simp
  next
    assume "\<exists>a. c' = count_hit c a now"
    then show ?thesis using count_hit_ok(1) [OF assms(1)] by auto
  qed
qed

lemma stale_inv: "cache_inv c \<Longrightarrow> cache_inv (snd (BuildStaleResponse c req a now))"
  by (rule stat_update_ok(1) [where a = a and
        f = "\<lambda>e. e\<lparr>ce_hitCount := ce_hitCount e + 1, ce_lastHitAt := now\<rparr>"])
    (simp_all add: BuildStaleResponse_def)

lemma step_cache_inv:
  assumes "sys_step s s'" "sys_inv s"
  shows "cache_inv (fst s')"
  using assms
proof (induction rule: sys_step.induct)
  case (promote c ts1 k a ts2)
  then show ?case using promote_section_ok(1) by (auto simp: sys_inv_def task_ok_def)
next
  case (evict c' k a now c ts1 ts2)
  then have "cache_inv c'" using evict_section_ok(1) by (simp add: sys_inv_def)
  then show ?case using cache_inv_cong [of c' "c'\<lparr>dc_totalMisses := dc_totalMisses c' + 1\<rparr>"] by simp
next
  case (capacity c ts m)
  then show ?case using cache_inv_cong [of c "c\<lparr>dc_maxEntries := m\<rparr>"] by (simp add: sys_inv_def)
next
  case (resize i c ts m)
  moreover have "0 < per_shard m" by (simp add: per_shard_def Let_def)
  ultimately show ?case using resize_shard_ok(1) by (simp add: sys_inv_def)
next
  case (config c ts compile cfg)
  then show ?case using cache_inv_cong [of c "set_config compile cfg c"] by (simp add: sys_inv_def)
next
  case (persist c ts)
  then show ?case using cache_inv_cong [of c "SyncPersistLoop c"] by (simp add: sys_inv_def)
next
  case (mark c ts a now)
  have "cache_inv c \<Longrightarrow> cache_inv (c\<lparr>dc_heap := heap_upd (dc_heap c) a (\<lambda>e. e\<lparr>ce_lastPrefetchAt := now\<rparr>)\<rparr>)"
    by (rule stat_update_ok(1) [where a = a and f = "\<lambda>e. e\<lparr>ce_lastPrefetchAt := now\<rparr>"]) simp_all
  with mark show ?case by (simp add: sys_inv_def)
qed (auto simp: sys_inv_def lookup_section_inv stale_inv put_section_ok(1) remove_section_ok(1)
    clear_shard_ok(1) cleanup_shard_ok(1))

lemma step_tasks: "sys_step s s' \<Longrightarrow> cache_inv (fst s) \<Longrightarrow> t \<in> set (snd s') \<Longrightarrow> t \<in> set (snd s) \<or> task_ok (fst s) t"
  by (induction rule: sys_step.induct) (auto dest: pending_ok)

lemma step_sys_inv:
  assumes "sys_step s s'" "sys_inv s"
  shows "sys_inv s'"
  unfolding sys_inv_def
proof (intro conjI ballI)
  show "cache_inv (fst s')" by (rule step_cache_inv [OF assms])
  have c: "cache_inv (fst s)" using assms(2) by (simp add: sys_inv_def)
  fix t assume "t \<in> set (snd s')"
  with step_tasks [OF assms(1) c] assms(2) have "task_ok (fst s) t" by (auto simp: sys_inv_def)
  then show "task_ok (fst s') t" by (rule task_ok_kept [OF step_content_kept [OF assms(1) c]])
qed

lemma steps_sys_inv: "sys_steps s s' \<Longrightarrow> sys_inv s \<Longrightarrow> sys_inv s' \<and> content_kept (dc_heap (fst s)) (dc_heap (fst s'))"
proof (induction rule: rtranclp_induct)
  case (step y z)
  then have y: "sys_inv y" "content_kept (dc_heap (fst s)) (dc_heap (fst y))" by auto
  then have "cache_inv (fst y)" by (simp add: sys_inv_def)
  from step_content_kept [OF step.hyps(2) this] step_sys_inv [OF step.hyps(2) y(1)]
  show ?case using content_kept_trans [OF y(2)] by blast
qed simp

section \<open>Operations are sequences of steps\<close>

lemma get_steps: "sys_steps (c, ts) (snd (GetForGroup c req grp now now2),
    (case g_candidate (fst (GetForGroup c req grp now now2)) of None \<Rightarrow> ts | Some a \<Rightarrow> TStale a # ts))"
proof (cases "IsEnabled c \<and> m_Question req \<noteq> []")
  case False
  then show ?thesis by (auto simp: GetForGroup_def get_miss_def split: list.split)
next
  case True
  then obtain q qs where q: "m_Question req = q # qs" by (cases "m_Question req") auto
  define k where "k = CacheKeyForGroup (q_Name q) (q_Qtype q) (q_Qclass q) grp"
  obtain r c1 where l: "lookup_section c req k now now2 = (r, c1)" by fastforce
  have s: "sys_step (c, ts) (c1, pending k now r @ ts)" using True l by (auto intro: sys_step.lookup)
  show ?thesis
  proof (cases r)
    case LMiss
    with s True q l show ?thesis by (auto simp: GetForGroup_def k_def get_miss_def)
  next
    case (LFresh a m b)
    have "b \<Longrightarrow> sys_step (c1, pending k now r @ ts) (promote_section k a c1, ts)"
      using sys_step.promote [of c1 "[]" k a ts] LFresh by simp
    with s True q l LFresh show ?thesis
      by (cases b) (auto simp: GetForGroup_def k_def intro: converse_rtranclp_into_rtranclp)
  next
    case (LStale a)
    with s True q l show ?thesis by (auto simp: GetForGroup_def k_def)
  next
    case (LExpired a)
    define c2 where "c2 = evict_section k a now c1"
    have "sys_step (c1, pending k now r @ ts) (c2\<lparr>dc_totalMisses := dc_totalMisses c2 + 1\<rparr>, ts)"
      using sys_step.evict [OF c2_def, of "[]" ts] LExpired by simp
    moreover have "GetForGroup c req grp now now2 = (get_miss, c2\<lparr>dc_totalMisses := dc_totalMisses c2 + 1\<rparr>)"
      using True q l LExpired by (simp add: GetForGroup_def k_def c2_def Let_def)
    ultimately show ?thesis
      using s by (auto simp: get_miss_def intro: converse_rtranclp_into_rtranclp)
  qed
qed

lemma put_steps: "sys_steps (c, ts) (snd (PutForGroup c req resp grp now), ts)"
  by (auto simp: PutForGroup_def intro: sys_step.put split: list.split option.split)

lemma remove_steps: "sys_steps (c, ts) (snd (RemoveForGroup c req grp), ts)"
  by (auto simp: RemoveForGroup_def intro: sys_step.remove split: list.split)

lemma fold_steps:
  assumes "\<And>i c. i \<in> set is \<Longrightarrow> sys_step (c, ts) (f i c, ts)"
  shows "sys_steps (c, ts) (fold f is c, ts)"
  using assms
proof (induction "is" arbitrary: c)
  case (Cons i "is")
  then have "sys_step (c, ts) (f i c, ts)" "sys_steps (f i c, ts) (fold f is (f i c), ts)" by auto
  then show ?case by (simp add: converse_rtranclp_into_rtranclp)
qed simp

lemma maintenance_steps:
  assumes "length (dc_shards c) = NumDNSCacheShards"
  shows "sys_steps (c, ts) (Clear c, ts)" "sys_steps (c, ts) (cleanupExpired now c, ts)"
    "sys_steps (c, ts) (resizeCapacity m c, ts)"
proof -
  show "sys_steps (c, ts) (Clear c, ts)" "sys_steps (c, ts) (cleanupExpired now c, ts)"
    using assms by (auto simp: Clear_def cleanupExpired_def intro!: fold_steps sys_step.clear sys_step.cleanup)
  let ?m = "if m \<le> 0 then DefaultMaxCacheEntries else m"
  have "sys_steps (c\<lparr>dc_maxEntries := ?m\<rparr>, ts) (resizeCapacity m c, ts)"
    unfolding resizeCapacity_def Let_def by (rule fold_steps) (use assms in \<open>auto intro: sys_step.resize\<close>)
  with sys_step.capacity show "sys_steps (c, ts) (resizeCapacity m c, ts)"
    by (rule converse_rtranclp_into_rtranclp)
qed

lemma update_config_steps:
  assumes "length (dc_shards c) = NumDNSCacheShards"
  shows "sys_steps (c, ts) (UpdateConfig compile cfg c, ts)"
proof -
  let ?c = "set_config compile (NormalizeCacheConfig cfg) c"
  have 1: "sys_steps (?c, ts) (resizeCapacity (cc_MaxEntries (NormalizeCacheConfig cfg)) ?c, ts)"
    by (rule maintenance_steps(3)) (use assms in simp)
  have "sys_steps (?c, ts) (UpdateConfig compile cfg c, ts)"
    unfolding UpdateConfig_def Let_def using 1 sys_step.persist by (rule rtranclp.rtrancl_into_rtrancl)
  with sys_step.config show ?thesis by (rule converse_rtranclp_into_rtranclp)
qed

lemma new_sys_inv: "sys_inv (NewDNSCache compile cfg, [])"
  by (simp add: sys_inv_def new_cache_inv)

text \<open>
  C7. The cache is structurally sound under every interleaving. From a new cache, after any
  sequence of critical sections of any number of goroutines, every shard holds at most its
  capacity of entries; its map has distinct keys, each hashing to the shard and equal to the key
  of the entry it points to; and its LRU list holds exactly the mapped entries, each once.
\<close>

theorem concurrent_cache_sound:
  assumes "sys_steps (NewDNSCache compile cfg, []) (c, ts)" and "i < NumDNSCacheShards"
  shows "length (sh_entries (dc_shards c ! i)) \<le> sh_maxEntries (dc_shards c ! i) \<and>
    distinct (map fst (sh_entries (dc_shards c ! i))) \<and> distinct (sh_lruList (dc_shards c ! i)) \<and>
    set (sh_lruList (dc_shards c ! i)) = snd ` set (sh_entries (dc_shards c ! i)) \<and>
    (\<forall>(k, a) \<in> set (sh_entries (dc_shards c ! i)).
       shard_index k = i \<and> (\<exists>e. dc_heap c a = Some e \<and> ce_key e = k))"
proof -
  have "sys_inv (c, ts)" using steps_sys_inv [OF assms(1) new_sys_inv] by simp
  then have "shard_inv (dc_heap c) i (dc_shards c ! i)" using assms(2) by (simp add: sys_inv_def cache_inv_def)
  then have I: "shard_core (dc_heap c) i (dc_shards c ! i)"
    "length (sh_entries (dc_shards c ! i)) \<le> sh_maxEntries (dc_shards c ! i)" by (simp_all add: shard_inv_def)
  then have "set (sh_lruList (dc_shards c ! i)) = snd ` set (sh_entries (dc_shards c ! i))"
    by (simp add: set_eq_iff mem_snd_image shard_core_def)
  moreover have "shard_index k = i \<and> (\<exists>e. dc_heap c a = Some e \<and> ce_key e = k)"
    if "(k, a) \<in> set (sh_entries (dc_shards c ! i))" for k a
    using that I(1) liveD [of "dc_heap c" i k a] by (auto simp: shard_core_def)
  ultimately show ?thesis using I by (auto simp: shard_core_def)
qed

text \<open>A run with a race: a hit, then a remove, then the promotion of the removed entry.\<close>

lemma race_run:
  fixes grp :: string
  defines "c1 \<equiv> snd (PutForGroup sample_cache (sample_req 1) sample_resp grp 0)"
  defines "k \<equiv> question_key sample_q grp"
  defines "l \<equiv> lookup_section c1 (sample_req 2) k 1 1"
  shows "\<exists>ts. sys_steps (sample_cache, []) (snd (remove_section k (snd l)), ts)"
proof -
  have "IsEnabled c1"
    by (rule PutForGroup_True [OF sample_put [of grp, folded c1_def]])
      (use sample_cache_ok(3) in \<open>simp add: IsEnabled_def\<close>)
  then have "sys_step (c1, []) (snd l, pending k 1 (fst l) @ [])"
    by (rule sys_step.lookup) (simp add: l_def)
  moreover have "sys_steps (sample_cache, []) (c1, [])" unfolding c1_def by (rule put_steps)
  ultimately have "sys_steps (sample_cache, []) (snd l, pending k 1 (fst l) @ [])" by simp
  then show ?thesis using sys_step.remove by (metis rtranclp.rtrancl_into_rtrancl)
qed

theorem concurrent_cache_sound_witness:
  "length (sh_entries (dc_shards (snd (remove_section (question_key sample_q ''kids'')
      (snd (lookup_section (snd (PutForGroup sample_cache (sample_req 1) sample_resp ''kids'' 0))
        (sample_req 2) (question_key sample_q ''kids'') 1 1)))) ! 5))
   \<le> sh_maxEntries (dc_shards (snd (remove_section (question_key sample_q ''kids'')
      (snd (lookup_section (snd (PutForGroup sample_cache (sample_req 1) sample_resp ''kids'' 0))
        (sample_req 2) (question_key sample_q ''kids'') 1 1)))) ! 5)"
proof -
  obtain ts where "sys_steps (sample_cache, []) (snd (remove_section (question_key sample_q ''kids'')
      (snd (lookup_section (snd (PutForGroup sample_cache (sample_req 1) sample_resp ''kids'' 0))
        (sample_req 2) (question_key sample_q ''kids'') 1 1))), ts)" using race_run by blast
  from concurrent_cache_sound [OF this [unfolded sample_cache_def], of 5] show ?thesis
    by (simp add: NumDNSCacheShards_def sample_cache_def)
qed

text \<open>
  What a reader holds cannot change under it. Once a goroutine has been given a stale
  candidate, the response it builds from it is the same however many other critical sections
  (evictions, replacements, clearing, resizing) run in between.
\<close>

theorem stale_candidate_stable:
  assumes "sys_steps (NewDNSCache compile cfg, []) (c, ts)" and "TStale a \<in> set ts"
    and "sys_steps (c, ts) (c', ts')"
  shows "fst (BuildStaleResponse c' req a now') = fst (BuildStaleResponse c req a now)"
proof -
  have i: "sys_inv (c, ts)" using steps_sys_inv [OF assms(1) new_sys_inv] by simp
  then have "task_ok c (TStale a)" using assms(2) by (auto simp: sys_inv_def)
  then obtain e where e: "dc_heap c a = Some e" by (auto simp: task_ok_def)
  have "content_kept (dc_heap c) (dc_heap c')" using steps_sys_inv [OF assms(3) i] by simp
  with e obtain e' where "dc_heap c' a = Some e'" "view e' = view e" by (auto simp: content_kept_def)
  then have "ce_msg (deref (dc_heap c') a) = ce_msg e" using view_simps(4) by (metis deref_Some)
  then show ?thesis using e by (simp add: BuildStaleResponse_def)
qed

theorem stale_candidate_stable_witness:
  "\<exists>a. fst (BuildStaleResponse (Clear (snd (PutForGroup sample_cache (sample_req 1) sample_resp ''kids'' 0)))
          (sample_req 3) a 9) =
       fst (BuildStaleResponse (snd (PutForGroup sample_cache (sample_req 1) sample_resp ''kids'' 0))
          (sample_req 3) a 8)"
proof -
  let ?c = "snd (PutForGroup sample_cache (sample_req 1) sample_resp ''kids'' 0)"
  obtain a where a: "GetForGroup ?c (sample_req 1) ''kids'' (200 * second) 0 =
      (\<lparr>g_resp = None, g_hit = False, g_isStale = True, g_candidate = Some a\<rparr>, ?c)"
  proof (rule get_stale)
    have p: "?c = put_section (build_entry DefaultCacheConfig sample_q sample_resp ''kids'' 0 False (120 * second)) sample_cache"
      using sample_cache_ok(2,3) sample_put_ttl by (simp add: PutForGroup_def sample_req_def second_def)
    show "cache_inv ?c" unfolding p by (rule dc.put_inv [OF sample_cache_ok(1)])
    show "IsStaleFallbackEnabled ?c"
      unfolding p by (simp add: IsStaleFallbackEnabled_def sample_cache_ok(2) DefaultCacheConfig_def)
    show "m_Question (sample_req 1) = [sample_q]" by (simp add: sample_req_def)
    let ?e = "build_entry DefaultCacheConfig sample_q sample_resp ''kids'' 0 False (120 * second)"
    show "cache_lookup ?c (question_key sample_q ''kids'') = Some (view ?e)"
      using put_lookup(1) [OF sample_cache_ok(1), of ?e] unfolding p by simp
    have "wrap64 (300 * second) = 300 * second" by (rule wrap64_id) (simp add: second_def)
    then show "200 * second < ce_staleUntil (view ?e)" "ce_expiresAt (view ?e) \<le> 200 * second"
      by (simp_all add: DefaultCacheConfig_def second_def)
  qed
  have n: "sys_steps (NewDNSCache (\<lambda>_. None) DefaultCacheConfig, []) (?c, [])"
    using put_steps by (simp add: sample_cache_def)
  moreover have "sys_steps (?c, []) (?c, [TStale a])"
    using get_steps [of ?c "[]" "sample_req 1" "''kids''" "200 * second" 0] a by simp
  ultimately have s: "sys_steps (NewDNSCache (\<lambda>_. None) DefaultCacheConfig, []) (?c, [TStale a])" by simp
  have "length (dc_shards ?c) = NumDNSCacheShards"
    using steps_sys_inv [OF n new_sys_inv] by (simp add: sys_inv_def cache_inv_def)
  from stale_candidate_stable [OF s _ maintenance_steps(1) [OF this], of a "sample_req 3" 9 8]
  show ?thesis by auto
qed

end
