(* ===== verification/Cache_Flight.thy ===== *)
theory Cache_Flight
  imports Dns_Msg
begin

text \<open>
  Coalescing of concurrent upstream queries (\<open>core/cache_flight.go\<close>). Goroutines are
  numbered; each is in one phase of \<open>Do\<close>. The first goroutine to ask for a key leads: it
  registers a call, runs the query and publishes its outcome; the others wait for that call and
  take its outcome. The steps are the atomic points of \<open>Do\<close>: the section under the mutex
  that joins or leads, the return of the query function, the unregistering under the mutex, the
  release of the wait group, and the return of a follower.
\<close>

section \<open>State and steps\<close>

text \<open>How the query function ends: it returns a value and an error, or it panics.\<close>

datatype outcome = Returned "msg option" "string option" | Panicked string

record flightCall =
  fc_val :: "msg option"
  fc_err :: "string option"
  fc_panicked :: bool
  fc_done :: bool   \<comment> \<open>the wait group has been released\<close>

definition new_call :: flightCall where
  "new_call = \<lparr>fc_val = None, fc_err = None, fc_panicked = False, fc_done = False\<rparr>"

definition publish :: "outcome \<Rightarrow> flightCall \<Rightarrow> flightCall" where
  "publish oc c = (case oc of
      Returned v e \<Rightarrow> c\<lparr>fc_val := v, fc_err := e\<rparr>
    | Panicked r \<Rightarrow> c\<lparr>fc_panicked := True, fc_err := Some (''singleflight panic: '' @ r)\<rparr>)"

type_synonym flight_result = "msg option \<times> bool \<times> string option"

definition leader_result :: "outcome \<Rightarrow> flight_result" where
  "leader_result oc = (case oc of
      Returned v e \<Rightarrow> (v, False, e)
    | Panicked r \<Rightarrow> (None, False, Some (''singleflight panic: '' @ r)))"

definition follower_result :: "string \<Rightarrow> flightCall \<Rightarrow> flight_result" where
  "follower_result key c =
     (if fc_panicked c then (None, True, Some (''singleflight panic in query for '' @ key))
      else (fc_val c, True, fc_err c))"

datatype phase =
    Idle
  | Leading string nat              \<comment> \<open>registered, running the query\<close>
  | Publishing string nat outcome   \<comment> \<open>query ended, call still registered\<close>
  | Releasing string nat outcome    \<comment> \<open>unregistered, wait group not yet released\<close>
  | Waiting string nat
  | Finished string nat flight_result

record flight =
  fl_calls :: "(string \<times> nat) list"
  fl_heap :: "nat \<Rightarrow> flightCall option"
  fl_next :: nat
  fl_proc :: "nat \<Rightarrow> phase"

definition newSingleFlightGroup :: flight where
  "newSingleFlightGroup =
     \<lparr>fl_calls = [], fl_heap = (\<lambda>_. None), fl_next = 0, fl_proc = (\<lambda>_. Idle)\<rparr>"

definition set_proc :: "flight \<Rightarrow> nat \<Rightarrow> phase \<Rightarrow> flight" where
  "set_proc g p ph = g\<lparr>fl_proc := (fl_proc g)(p := ph)\<rparr>"

text \<open>The section under the mutex: join a registered call or register a new one.\<close>

definition flight_enter :: "flight \<Rightarrow> nat \<Rightarrow> string \<Rightarrow> flight" where
  "flight_enter g p key =
     (case map_of (fl_calls g) key of
        Some c \<Rightarrow> set_proc g p (Waiting key c)
      | None \<Rightarrow> set_proc (g\<lparr>fl_calls := AList.update key (fl_next g) (fl_calls g),
            fl_heap := (fl_heap g)(fl_next g \<mapsto> new_call), fl_next := Suc (fl_next g)\<rparr>)
          p (Leading key (fl_next g)))"

definition flight_publish :: "flight \<Rightarrow> nat \<Rightarrow> string \<Rightarrow> nat \<Rightarrow> outcome \<Rightarrow> flight" where
  "flight_publish g p key c oc =
     set_proc (g\<lparr>fl_heap := (fl_heap g)(c := map_option (publish oc) (fl_heap g c))\<rparr>) p (Publishing key c oc)"

definition flight_unregister :: "flight \<Rightarrow> nat \<Rightarrow> string \<Rightarrow> nat \<Rightarrow> outcome \<Rightarrow> flight" where
  "flight_unregister g p key c oc =
     set_proc (g\<lparr>fl_calls := AList.delete key (fl_calls g)\<rparr>) p (Releasing key c oc)"

definition flight_release :: "flight \<Rightarrow> nat \<Rightarrow> string \<Rightarrow> nat \<Rightarrow> outcome \<Rightarrow> flight" where
  "flight_release g p key c oc =
     set_proc (g\<lparr>fl_heap := (fl_heap g)(c := map_option (fc_done_update (\<lambda>_. True)) (fl_heap g c))\<rparr>)
       p (Finished key c (leader_result oc))"

inductive flight_step :: "flight \<Rightarrow> flight \<Rightarrow> bool" where
  enter: "fl_proc g p = Idle \<Longrightarrow> flight_step g (flight_enter g p key)"
| ended: "fl_proc g p = Leading key c \<Longrightarrow> flight_step g (flight_publish g p key c oc)"
| unregister: "fl_proc g p = Publishing key c oc \<Longrightarrow> flight_step g (flight_unregister g p key c oc)"
| release: "fl_proc g p = Releasing key c oc \<Longrightarrow> flight_step g (flight_release g p key c oc)"
| follow: "fl_proc g p = Waiting key c \<Longrightarrow> fl_heap g c = Some fc \<Longrightarrow> fc_done fc \<Longrightarrow>
    flight_step g (set_proc g p (Finished key c (follower_result key fc)))"
| again: "fl_proc g p = Finished key c r \<Longrightarrow> flight_step g (set_proc g p Idle)"

inductive_cases flight_stepE: "flight_step g g'"

section \<open>Invariant\<close>

text \<open>Who leads a call, and whether the call is still registered.\<close>

fun leads :: "phase \<Rightarrow> (string \<times> nat) option" where
  "leads (Leading k c) = Some (k, c)"
| "leads (Publishing k c _) = Some (k, c)"
| "leads (Releasing k c _) = Some (k, c)"
| "leads _ = None"

fun registered :: "phase \<Rightarrow> (string \<times> nat) option" where
  "registered (Leading k c) = Some (k, c)"
| "registered (Publishing k c _) = Some (k, c)"
| "registered _ = None"

fun ended_with :: "phase \<Rightarrow> outcome option" where
  "ended_with (Publishing _ _ oc) = Some oc"
| "ended_with (Releasing _ _ oc) = Some oc"
| "ended_with _ = None"

definition call_published :: "flightCall \<Rightarrow> outcome \<Rightarrow> bool" where
  "call_published fc oc \<longleftrightarrow> fc = (publish oc new_call)\<lparr>fc_done := fc_done fc\<rparr>"

definition inv_registered :: "flight \<Rightarrow> bool" where
  "inv_registered g \<longleftrightarrow> distinct (map fst (fl_calls g)) \<and>
     (\<forall>k c. map_of (fl_calls g) k = Some c \<longleftrightarrow> (\<exists>p. registered (fl_proc g p) = Some (k, c)))"

definition inv_one_leader :: "flight \<Rightarrow> bool" where
  "inv_one_leader g \<longleftrightarrow> (\<forall>p p' k k' c. leads (fl_proc g p) = Some (k, c) \<longrightarrow>
     leads (fl_proc g p') = Some (k', c) \<longrightarrow> p = p')"

definition inv_leader_call :: "flight \<Rightarrow> bool" where
  "inv_leader_call g \<longleftrightarrow> (\<forall>p k c. leads (fl_proc g p) = Some (k, c) \<longrightarrow>
     (\<exists>fc. fl_heap g c = Some fc \<and> \<not> fc_done fc \<and>
        (case ended_with (fl_proc g p) of None \<Rightarrow> fc = new_call | Some oc \<Rightarrow> call_published fc oc)))"

definition inv_waiting :: "flight \<Rightarrow> bool" where
  "inv_waiting g \<longleftrightarrow> (\<forall>p k c. fl_proc g p = Waiting k c \<longrightarrow>
     (\<exists>fc. fl_heap g c = Some fc \<and>
        (if fc_done fc then \<exists>oc. call_published fc oc else \<exists>p'. leads (fl_proc g p') = Some (k, c))))"

definition inv_finished :: "flight \<Rightarrow> bool" where
  "inv_finished g \<longleftrightarrow> (\<forall>p k c r. fl_proc g p = Finished k c r \<longrightarrow>
     (\<exists>fc oc. fl_heap g c = Some fc \<and> fc_done fc \<and> call_published fc oc \<and>
        (r = leader_result oc \<or> r = follower_result k (publish oc new_call))))"

definition inv_fresh :: "flight \<Rightarrow> bool" where
  "inv_fresh g \<longleftrightarrow> (\<forall>c \<ge> fl_next g. fl_heap g c = None)"

definition flight_inv :: "flight \<Rightarrow> bool" where
  "flight_inv g \<longleftrightarrow> inv_registered g \<and> inv_one_leader g \<and> inv_leader_call g \<and> inv_waiting g \<and>
     inv_finished g \<and> inv_fresh g"

lemmas flight_inv_defs = inv_registered_def inv_one_leader_def inv_leader_call_def inv_waiting_def
  inv_finished_def inv_fresh_def

lemma flight_inv_new: "flight_inv newSingleFlightGroup"
  by (simp add: flight_inv_def flight_inv_defs newSingleFlightGroup_def)

lemma set_proc_simps [simp]:
  "fl_calls (set_proc g p ph) = fl_calls g" "fl_heap (set_proc g p ph) = fl_heap g"
  "fl_next (set_proc g p ph) = fl_next g" "fl_proc (set_proc g p ph) = (fl_proc g)(p := ph)"
  by (simp_all add: set_proc_def)

lemma registered_leads: "registered ph = Some kc \<Longrightarrow> leads ph = Some kc"
  by (cases ph) auto

lemma follower_published: "call_published fc oc \<Longrightarrow> follower_result k fc = follower_result k (publish oc new_call)"
  unfolding call_published_def follower_result_def by (cases oc) (metis flightCall.select_convs flightCall.surjective
      flightCall.update_convs(4))+

lemma publish_inj:
  assumes "call_published fc oc" "call_published fc oc'"
  shows "oc = oc'"
  using assms unfolding call_published_def
  by (cases oc; cases oc'; cases fc) (simp_all add: publish_def new_call_def)

lemma ex_upd_same: "f (h p) = f y \<Longrightarrow> (\<exists>q. f ((h(p := y)) q) = x) = (\<exists>q. f (h q) = x)"
  by (metis fun_upd_apply)

lemma ex_upd_new: "f (h p) = None \<Longrightarrow> (\<exists>q. f ((h(p := y)) q) = Some x) = (f y = Some x \<or> (\<exists>q. f (h q) = Some x))"
  by (metis fun_upd_apply option.distinct(1))

lemma ex_upd_gone: "f y = None \<Longrightarrow> (\<exists>q. f ((h(p := y)) q) = Some x) = (\<exists>q. q \<noteq> p \<and> f (h q) = Some x)"
  by (metis fun_upd_apply option.distinct(1))

lemma flight_invD:
  assumes "flight_inv g"
  shows "leads (fl_proc g p) = Some (k, c) \<Longrightarrow> \<exists>fc. fl_heap g c = Some fc \<and> \<not> fc_done fc \<and>
      (case ended_with (fl_proc g p) of None \<Rightarrow> fc = new_call | Some oc \<Rightarrow> call_published fc oc)"
    "leads (fl_proc g p) = Some (k, c) \<Longrightarrow> leads (fl_proc g p') = Some (k', c) \<Longrightarrow> p = p'"
    "map_of (fl_calls g) k = Some c \<longleftrightarrow> (\<exists>p. registered (fl_proc g p) = Some (k, c))"
    "distinct (map fst (fl_calls g))" "fl_next g \<le> c \<Longrightarrow> fl_heap g c = None"
  using assms unfolding flight_inv_def flight_inv_defs by blast+

text \<open>Calls that are done never change, so what waiters and finished goroutines rely on persists.\<close>

definition calls_mono :: "flight \<Rightarrow> flight \<Rightarrow> bool" where
  "calls_mono g g' \<longleftrightarrow> (\<forall>c fc. fl_heap g c = Some fc \<longrightarrow> (\<exists>fc'. fl_heap g' c = Some fc' \<and>
     (if fc_done fc then fc' = fc
      else if fc_done fc' then \<exists>oc. call_published fc' oc
      else \<forall>p k. leads (fl_proc g p) = Some (k, c) \<longrightarrow> (\<exists>p'. leads (fl_proc g' p') = Some (k, c)))))"

lemma waiting_mono:
  assumes "inv_waiting g" "calls_mono g g'"
    and "\<And>p k c. fl_proc g' p = Waiting k c \<Longrightarrow> fl_proc g p = Waiting k c \<or>
      (\<exists>fc p'. fl_heap g' c = Some fc \<and> \<not> fc_done fc \<and> leads (fl_proc g' p') = Some (k, c))"
  shows "inv_waiting g'"
  unfolding inv_waiting_def
proof (intro allI impI)
  fix p k c assume w: "fl_proc g' p = Waiting k c"
  show "\<exists>fc. fl_heap g' c = Some fc \<and>
    (if fc_done fc then \<exists>oc. call_published fc oc else \<exists>p'. leads (fl_proc g' p') = Some (k, c))"
  proof (cases "fl_proc g p = Waiting k c")
    case True
    then obtain fc where fc: "fl_heap g c = Some fc"
      "if fc_done fc then \<exists>oc. call_published fc oc else \<exists>p'. leads (fl_proc g p') = Some (k, c)"
      using assms(1) unfolding inv_waiting_def by blast
    then obtain fc' where "fl_heap g' c = Some fc'" "if fc_done fc then fc' = fc
      else if fc_done fc' then \<exists>oc. call_published fc' oc
      else \<forall>p k. leads (fl_proc g p) = Some (k, c) \<longrightarrow> (\<exists>p'. leads (fl_proc g' p') = Some (k, c))"
      using assms(2) unfolding calls_mono_def by blast
    with fc(2) show ?thesis by (auto split: if_splits)
  next
    case False
    then show ?thesis using assms(3) [OF w] by auto
  qed
qed

lemma finished_mono:
  assumes "inv_finished g" "calls_mono g g'"
    and "\<And>p k c r. fl_proc g' p = Finished k c r \<Longrightarrow> fl_proc g p = Finished k c r \<or>
      (\<exists>fc oc. fl_heap g' c = Some fc \<and> fc_done fc \<and> call_published fc oc \<and>
        (r = leader_result oc \<or> r = follower_result k (publish oc new_call)))"
  shows "inv_finished g'"
  unfolding inv_finished_def
proof (intro allI impI)
  fix p k c r assume w: "fl_proc g' p = Finished k c r"
  show "\<exists>fc oc. fl_heap g' c = Some fc \<and> fc_done fc \<and> call_published fc oc \<and>
        (r = leader_result oc \<or> r = follower_result k (publish oc new_call))"
  proof (cases "fl_proc g p = Finished k c r")
    case True
    then obtain fc oc where fc: "fl_heap g c = Some fc" "fc_done fc" "call_published fc oc"
        "r = leader_result oc \<or> r = follower_result k (publish oc new_call)"
      using assms(1) unfolding inv_finished_def by blast
    then have "fl_heap g' c = Some fc" using assms(2) unfolding calls_mono_def by fastforce
    with fc show ?thesis by blast
  next
    case False
    then show ?thesis using assms(3) [OF w] by auto
  qed
qed

lemma step_join:
  assumes "flight_inv g" "fl_proc g p = Idle" "map_of (fl_calls g) k = Some c"
  shows "flight_inv (set_proc g p (Waiting k c))"
proof -
  let ?g = "set_proc g p (Waiting k c)"
  from assms obtain q where q: "registered (fl_proc g q) = Some (k, c)" using flight_invD(3) by metis
  then have l: "leads (fl_proc g q) = Some (k, c)" "q \<noteq> p" using assms(2) registered_leads by auto
  then obtain fc where fc: "fl_heap g c = Some fc" "\<not> fc_done fc" using flight_invD(1) [OF assms(1)] by blast
  have m: "calls_mono g ?g" using assms(2) by (force simp: calls_mono_def)
  have "inv_waiting ?g"
    by (rule waiting_mono [OF _ m]) (use assms(1) l fc in \<open>auto simp: flight_inv_def split: if_splits\<close>)
  moreover have "inv_finished ?g"
    by (rule finished_mono [OF _ m]) (use assms(1) in \<open>auto simp: flight_inv_def split: if_splits\<close>)
  moreover have "(\<exists>q. registered (fl_proc ?g q) = Some x) = (\<exists>q. registered (fl_proc g q) = Some x)" for x
    unfolding set_proc_simps by (rule ex_upd_same) (simp add: assms(2))
  then have "inv_registered ?g" unfolding inv_registered_def using flight_invD(3,4) [OF assms(1)] by simp
  moreover have "inv_one_leader ?g" "inv_leader_call ?g" "inv_fresh ?g"
    using assms(1,2) by (auto simp: flight_inv_def inv_one_leader_def inv_leader_call_def inv_fresh_def)
  ultimately show ?thesis by (simp add: flight_inv_def)
qed

lemma step_lead:
  assumes "flight_inv g" "fl_proc g p = Idle" "map_of (fl_calls g) k = None"
  shows "flight_inv (set_proc (g\<lparr>fl_calls := AList.update k (fl_next g) (fl_calls g),
    fl_heap := (fl_heap g)(fl_next g \<mapsto> new_call), fl_next := Suc (fl_next g)\<rparr>) p (Leading k (fl_next g)))"
    (is "flight_inv ?g")
proof -
  note D = flight_invD [OF assms(1)]
  have old: "c \<noteq> fl_next g" if "leads (fl_proc g q) = Some (k', c)" for q k' c
    using D(1) [OF that] D(5) [of c] by auto
  have nk: "registered (fl_proc g q) \<noteq> Some (k, c)" for q c using D(3) [of k c] assms(3) by auto
  have m: "calls_mono g ?g" using assms(2) D(5) [of "fl_next g"] by (force simp: calls_mono_def)
  have "inv_waiting ?g"
    by (rule waiting_mono [OF _ m]) (use assms(1) in \<open>auto simp: flight_inv_def split: if_splits\<close>)
  moreover have "inv_finished ?g"
    by (rule finished_mono [OF _ m]) (use assms(1) in \<open>auto simp: flight_inv_def split: if_splits\<close>)
  moreover have R: "(\<exists>q. registered (fl_proc ?g q) = Some x) =
      (x = (k, fl_next g) \<or> (\<exists>q. registered (fl_proc g q) = Some x))" for x
    unfolding set_proc_simps by (subst ex_upd_new) (auto simp: assms(2))
  then have "inv_registered ?g"
    unfolding inv_registered_def R using D(4) nk by (auto simp: update_conv distinct_update D(3))
  moreover have "inv_one_leader ?g" using D(2) by (auto simp: inv_one_leader_def dest: old)
  moreover have "inv_leader_call ?g" using D(1) old by (force simp: inv_leader_call_def new_call_def)
  moreover have "inv_fresh ?g" using D(5) by (auto simp: inv_fresh_def)
  ultimately show ?thesis by (simp add: flight_inv_def)
qed

lemma step_publish:
  assumes "flight_inv g" "fl_proc g p = Leading k c"
  shows "flight_inv (flight_publish g p k c oc)" (is "flight_inv ?g")
proof -
  note D = flight_invD [OF assms(1)]
  have c: "fl_heap g c = Some new_call" using D(1) [of p k c] assms(2) by auto
  have g: "fl_calls ?g = fl_calls g" "fl_next ?g = fl_next g"
    "fl_heap ?g = (fl_heap g)(c \<mapsto> publish oc new_call)" "fl_proc ?g = (fl_proc g)(p := Publishing k c oc)"
    by (simp_all add: flight_publish_def c)
  have nd: "\<not> fc_done (publish oc new_call)" by (cases oc) (simp_all add: publish_def new_call_def)
  have other: "q = p" if "leads (fl_proc g q) = Some (k', c)" for q k' using D(2) [OF that] assms(2) by auto
  have m: "calls_mono g ?g"
    unfolding calls_mono_def
  proof (intro allI impI)
    fix c' fc assume h: "fl_heap g c' = Some fc"
    have L: "\<forall>q k'. leads (fl_proc g q) = Some (k', c') \<longrightarrow> (\<exists>q. leads (fl_proc ?g q) = Some (k', c'))"
      unfolding g using ex_upd_same [of leads "fl_proc g" p] assms(2) by auto
    show "\<exists>fc'. fl_heap ?g c' = Some fc' \<and> (if fc_done fc then fc' = fc
      else if fc_done fc' then \<exists>oc. call_published fc' oc
      else \<forall>q k'. leads (fl_proc g q) = Some (k', c') \<longrightarrow> (\<exists>q. leads (fl_proc ?g q) = Some (k', c')))"
      using h L c nd by (cases "c' = c") (auto simp: g(3) new_call_def)
  qed
  have "inv_waiting ?g"
    by (rule waiting_mono [OF _ m]) (use assms(1) in \<open>auto simp: flight_inv_def g split: if_splits\<close>)
  moreover have "inv_finished ?g"
    by (rule finished_mono [OF _ m]) (use assms(1) in \<open>auto simp: flight_inv_def g split: if_splits\<close>)
  moreover have "inv_registered ?g"
  proof -
    have "(\<exists>q. registered (fl_proc ?g q) = Some x) = (\<exists>q. registered (fl_proc g q) = Some x)" for x
      unfolding g by (rule ex_upd_same) (simp add: assms(2))
    then show ?thesis using D(3,4) by (simp add: inv_registered_def g(1))
  qed
  moreover have "inv_one_leader ?g" using D(2) other assms(2) by (auto simp: inv_one_leader_def g)
  moreover have "inv_leader_call ?g"
    using D(1) other nd unfolding inv_leader_call_def g by (auto simp: call_published_def publish_def new_call_def split: outcome.split)
  moreover have "inv_fresh ?g" using D(5) c by (auto simp: inv_fresh_def g)
  ultimately show ?thesis by (simp add: flight_inv_def)
qed

lemma step_unregister:
  assumes "flight_inv g" "fl_proc g p = Publishing k c oc"
  shows "flight_inv (flight_unregister g p k c oc)" (is "flight_inv ?g")
proof -
  note D = flight_invD [OF assms(1)]
  have g: "fl_calls ?g = AList.delete k (fl_calls g)" "fl_next ?g = fl_next g" "fl_heap ?g = fl_heap g"
    "fl_proc ?g = (fl_proc g)(p := Releasing k c oc)"
    by (simp_all add: flight_unregister_def)
  have L: "(\<exists>q. leads (fl_proc ?g q) = Some x) = (\<exists>q. leads (fl_proc g q) = Some x)" for x
    unfolding g by (rule ex_upd_same) (simp add: assms(2))
  have m: "calls_mono g ?g" unfolding calls_mono_def L using g(3) by auto
  have "inv_waiting ?g"
    by (rule waiting_mono [OF _ m]) (use assms(1) in \<open>auto simp: flight_inv_def g split: if_splits\<close>)
  moreover have "inv_finished ?g"
    by (rule finished_mono [OF _ m]) (use assms(1) in \<open>auto simp: flight_inv_def g split: if_splits\<close>)
  moreover have "inv_registered ?g"
  proof -
    have reg: "registered (fl_proc g p) = Some (k, c)" using assms(2) by simp
    then have mk: "map_of (fl_calls g) k = Some c" using D(3) by blast
    have u: "q = p" if "registered (fl_proc g q) = Some (k, c')" for q c'
      using D(2) [of q k c' p k] registered_leads [OF that] registered_leads [OF reg] D(3) [of k c'] mk that by auto
    have "(\<exists>q. registered (fl_proc ?g q) = Some x) = (\<exists>q. q \<noteq> p \<and> registered (fl_proc g q) = Some x)" for x
      unfolding g by (rule ex_upd_gone) simp
    moreover have "(\<exists>q. q \<noteq> p \<and> registered (fl_proc g q) = Some (k', c')) =
        (k' \<noteq> k \<and> (\<exists>q. registered (fl_proc g q) = Some (k', c')))" for k' c'
      using u reg by (metis option.inject prod.inject)
    ultimately show ?thesis using D(4) by (simp add: inv_registered_def g(1) distinct_delete D(3))
  qed
  moreover have "inv_one_leader ?g" using D(2) assms(2) by (auto simp: inv_one_leader_def g)
  moreover have "inv_leader_call ?g" using D(1) [of p k c] D(1) assms(2) by (auto simp: inv_leader_call_def g)
  moreover have "inv_fresh ?g" using D(5) by (auto simp: inv_fresh_def g)
  ultimately show ?thesis by (simp add: flight_inv_def)
qed

lemma step_release:
  assumes "flight_inv g" "fl_proc g p = Releasing k c oc"
  shows "flight_inv (flight_release g p k c oc)" (is "flight_inv ?g")
proof -
  note D = flight_invD [OF assms(1)]
  obtain fc where fc: "fl_heap g c = Some fc" "\<not> fc_done fc" "call_published fc oc"
    using D(1) [of p k c] assms(2) by auto
  let ?fc = "fc\<lparr>fc_done := True\<rparr>"
  have pub: "call_published ?fc oc" "fc_done ?fc" using fc(3) by (auto simp: call_published_def) (metis flightCall.surjective flightCall.update_convs(4))
  have g: "fl_calls ?g = fl_calls g" "fl_next ?g = fl_next g" "fl_heap ?g = (fl_heap g)(c \<mapsto> ?fc)"
    "fl_proc ?g = (fl_proc g)(p := Finished k c (leader_result oc))"
    by (simp_all add: flight_release_def fc(1))
  have other: "q = p" if "leads (fl_proc g q) = Some (k', c)" for q k' using D(2) [OF that] assms(2) by auto
  have m: "calls_mono g ?g"
    unfolding calls_mono_def
  proof (intro allI impI)
    fix c' f assume h: "fl_heap g c' = Some f"
    have L: "\<exists>q. leads (fl_proc ?g q) = Some (k', c')" if "leads (fl_proc g q) = Some (k', c')" "c' \<noteq> c" for q k'
      using that assms(2) unfolding g by (intro exI [of _ q]) auto
    show "\<exists>fc'. fl_heap ?g c' = Some fc' \<and> (if fc_done f then fc' = f
      else if fc_done fc' then \<exists>oc. call_published fc' oc
      else \<forall>q k'. leads (fl_proc g q) = Some (k', c') \<longrightarrow> (\<exists>q. leads (fl_proc ?g q) = Some (k', c')))"
      using h L fc pub by (cases "c' = c") (auto simp: g(3))
  qed
  have "inv_waiting ?g"
    by (rule waiting_mono [OF _ m]) (use assms(1) in \<open>auto simp: flight_inv_def g split: if_splits\<close>)
  moreover have "inv_finished ?g"
    by (rule finished_mono [OF _ m]) (use assms(1) pub in \<open>auto simp: flight_inv_def g split: if_splits\<close>)
  moreover have "inv_registered ?g"
  proof -
    have "(\<exists>q. registered (fl_proc ?g q) = Some x) = (\<exists>q. registered (fl_proc g q) = Some x)" for x
      unfolding g by (rule ex_upd_same) (simp add: assms(2))
    then show ?thesis using D(3,4) by (simp add: inv_registered_def g(1))
  qed
  moreover have "inv_one_leader ?g" using D(2) by (auto simp: inv_one_leader_def g)
  moreover have "inv_leader_call ?g" using D(1) other by (auto simp: inv_leader_call_def g)
  moreover have "inv_fresh ?g" using D(5) fc(1) by (auto simp: inv_fresh_def g)
  ultimately show ?thesis by (simp add: flight_inv_def)
qed

text \<open>The last two steps change only a phase that neither leads nor is registered.\<close>

lemma step_quiet:
  assumes "flight_inv g" "leads (fl_proc g p) = None" "leads ph = None" "\<And>k c. ph \<noteq> Waiting k c"
    and "\<And>k c r. ph = Finished k c r \<Longrightarrow> \<exists>fc oc. fl_heap g c = Some fc \<and> fc_done fc \<and> call_published fc oc \<and>
        (r = leader_result oc \<or> r = follower_result k (publish oc new_call))"
  shows "flight_inv (set_proc g p ph)" (is "flight_inv ?g")
proof -
  note D = flight_invD [OF assms(1)]
  have L: "(\<exists>q. leads (fl_proc ?g q) = Some x) = (\<exists>q. leads (fl_proc g q) = Some x)" for x
    unfolding set_proc_simps by (rule ex_upd_same) (simp add: assms(2,3))
  have m: "calls_mono g ?g" unfolding calls_mono_def L by auto
  have rn: "registered (fl_proc g p) = None" "registered ph = None"
    using assms(2,3) registered_leads by (metis option.exhaust option.distinct(1))+
  have "(\<exists>q. registered (fl_proc ?g q) = Some x) = (\<exists>q. registered (fl_proc g q) = Some x)" for x
    unfolding set_proc_simps by (rule ex_upd_same) (simp add: rn)
  then have "inv_registered ?g" using D(3,4) by (simp add: inv_registered_def)
  moreover have "inv_waiting ?g"
    by (rule waiting_mono [OF _ m]) (use assms(1,4) in \<open>auto simp: flight_inv_def split: if_splits\<close>)
  moreover have "inv_finished ?g"
    by (rule finished_mono [OF _ m]) (use assms(1,5) in \<open>auto simp: flight_inv_def split: if_splits\<close>)
  moreover have "inv_one_leader ?g" using D(2) assms(3) by (auto simp: inv_one_leader_def)
  moreover have "inv_leader_call ?g" using D(1) assms(3) by (auto simp: inv_leader_call_def)
  moreover have "inv_fresh ?g" using D(5) by (auto simp: inv_fresh_def)
  ultimately show ?thesis by (simp add: flight_inv_def)
qed

lemma flight_step_inv: "flight_step g g' \<Longrightarrow> flight_inv g \<Longrightarrow> flight_inv g'"
proof (induction rule: flight_step.induct)
  case (enter g p key)
  then show ?case by (cases "map_of (fl_calls g) key") (simp_all add: flight_enter_def step_join step_lead)
next
  case (ended g p key c oc)
  then show ?case by (simp add: step_publish)
next
  case (unregister g p key c oc)
  then show ?case by (simp add: step_unregister)
next
  case (release g p key c oc)
  then show ?case by (simp add: step_release)
next
  case (follow g p key c fc)
  then obtain oc where "call_published fc oc" unfolding flight_inv_def inv_waiting_def by fastforce
  with follow show ?case by (intro step_quiet) (auto simp: follower_published)
next
  case (again g p key c r)
  then show ?case by (intro step_quiet) auto
qed

lemma flight_steps_inv: "flight_step\<^sup>*\<^sup>* g g' \<Longrightarrow> flight_inv g \<Longrightarrow> flight_inv g'"
  by (induction rule: rtranclp_induct) (auto dest: flight_step_inv)

section \<open>Properties of \<open>Do\<close>\<close>

abbreviation flight_reachable :: "flight \<Rightarrow> bool" where
  "flight_reachable g \<equiv> flight_step\<^sup>*\<^sup>* newSingleFlightGroup g"

lemma reachable_inv: "flight_reachable g \<Longrightarrow> flight_inv g"
  by (rule flight_steps_inv [OF _ flight_inv_new])

text \<open>
  C14. Concurrent identical queries are coalesced: in every reachable state at most one goroutine
  is running the query function for a key, and the table of calls holds exactly the keys whose
  query is registered, so a finished or panicked query never leaves its key behind.
\<close>

theorem flight_one_query_per_key:
  assumes "flight_reachable g"
  shows "(\<forall>p p' k c c'. fl_proc g p = Leading k c \<and> fl_proc g p' = Leading k c' \<longrightarrow> p = p') \<and>
    (\<forall>k. (map_of (fl_calls g) k \<noteq> None) = (\<exists>p c. registered (fl_proc g p) = Some (k, c)))"
proof -
  note D = flight_invD [OF reachable_inv [OF assms]]
  have "p = p'" if "fl_proc g p = Leading k c" "fl_proc g p' = Leading k c'" for p p' k c c'
  proof -
    have "map_of (fl_calls g) k = Some c" "map_of (fl_calls g) k = Some c'"
      using that D(3) by (metis registered.simps(1))+
    then show ?thesis using D(2) [of p k c p' k] that by simp
  qed
  then show ?thesis using D(3) by blast
qed

text \<open>
  Everyone who took part in a call gets its outcome: all results handed out for one call are
  the leader's view or a follower's view of one and the same outcome of the query function.
\<close>

theorem flight_shared_outcome:
  assumes "flight_reachable g" "fl_proc g p = Finished k c r" "fl_proc g p' = Finished k' c r'"
  shows "\<exists>oc. (r = leader_result oc \<or> r = follower_result k (publish oc new_call)) \<and>
    (r' = leader_result oc \<or> r' = follower_result k' (publish oc new_call))"
proof -
  have i: "inv_finished g" using reachable_inv [OF assms(1)] by (simp add: flight_inv_def)
  obtain fc oc where 1: "fl_heap g c = Some fc" "call_published fc oc"
    "r = leader_result oc \<or> r = follower_result k (publish oc new_call)"
    using i assms(2) unfolding inv_finished_def by blast
  obtain oc' where 2: "call_published fc oc'"
    "r' = leader_result oc' \<or> r' = follower_result k' (publish oc' new_call)"
    using i assms(3) 1(1) unfolding inv_finished_def by fastforce
  with 1 publish_inj [OF 1(2) 2(1)] show ?thesis by blast
qed

lemma release_frees:
  assumes "flight_inv g" "fl_proc g p' = Releasing k c oc" "fl_proc g p = Waiting k c"
  shows "\<exists>g' r. flight_step\<^sup>*\<^sup>* g g' \<and> fl_proc g' p = Finished k c r"
proof -
  obtain fc where fc: "fl_heap g c = Some fc" using flight_invD(1) [OF assms(1), of p' k c] assms(2) by auto
  define g1 where "g1 = flight_release g p' k c oc"
  have s1: "flight_step g g1" unfolding g1_def by (rule flight_step.release [OF assms(2)])
  have ne: "p \<noteq> p'" using assms(2,3) by auto
  have "fl_proc g1 p = Waiting k c" "fl_heap g1 c = Some (fc\<lparr>fc_done := True\<rparr>)"
    using assms(3) ne fc by (simp_all add: g1_def flight_release_def)
  then have "flight_step g1 (set_proc g1 p (Finished k c (follower_result k (fc\<lparr>fc_done := True\<rparr>))))"
    by (rule flight_step.follow) simp
  with s1 have "flight_step\<^sup>*\<^sup>* g (set_proc g1 p (Finished k c (follower_result k (fc\<lparr>fc_done := True\<rparr>))))"
    by (meson converse_rtranclp_into_rtranclp r_into_rtranclp)
  then show ?thesis by fastforce
qed

lemma publishing_frees:
  assumes "flight_inv h" "fl_proc h q = Publishing k c oc" "fl_proc h p = Waiting k c"
  shows "\<exists>g' r. flight_step\<^sup>*\<^sup>* h g' \<and> fl_proc g' p = Finished k c r"
proof -
  let ?h = "flight_unregister h q k c oc"
  have "p \<noteq> q" using assms by auto
  then have "fl_proc ?h q = Releasing k c oc" "fl_proc ?h p = Waiting k c"
    using assms(3) by (simp_all add: flight_unregister_def)
  from release_frees [OF step_unregister [OF assms(1,2)] this] flight_step.unregister [OF assms(2)]
  show ?thesis by (meson converse_rtranclp_into_rtranclp)
qed

text \<open>
  No waiter is stuck: from every reachable state in which a goroutine waits for a call, steps
  of the leader (the query ends by returning or panicking) and of the waiter lead to a state in
  which the waiter has its result.
\<close>

theorem flight_waiter_released:
  assumes "flight_reachable g" "fl_proc g p = Waiting k c"
  shows "\<exists>g' r. flight_step\<^sup>*\<^sup>* g g' \<and> fl_proc g' p = Finished k c r"
proof -
  have i: "flight_inv g" by (rule reachable_inv [OF assms(1)])
  then obtain fc where fc: "fl_heap g c = Some fc"
    "if fc_done fc then \<exists>oc. call_published fc oc else \<exists>p'. leads (fl_proc g p') = Some (k, c)"
    using assms(2) unfolding flight_inv_def inv_waiting_def by blast
  show ?thesis
  proof (cases "fc_done fc")
    case True
    then have "flight_step\<^sup>*\<^sup>* g (set_proc g p (Finished k c (follower_result k fc)))"
      using flight_step.follow [OF assms(2) fc(1)] by blast
    then show ?thesis by fastforce
  next
    case False
    with fc(2) obtain q where q: "leads (fl_proc g q) = Some (k, c)" by auto
    consider (l) "fl_proc g q = Leading k c" | (pub) oc where "fl_proc g q = Publishing k c oc"
      | (rel) oc where "fl_proc g q = Releasing k c oc" using q by (cases "fl_proc g q") auto
    then show ?thesis
    proof cases
      case l
      let ?h = "flight_publish g q k c (Panicked [])"
      have "p \<noteq> q" using l assms(2) by auto
      then have "fl_proc ?h q = Publishing k c (Panicked [])" "fl_proc ?h p = Waiting k c"
        using assms(2) by (simp_all add: flight_publish_def)
      from publishing_frees [OF step_publish [OF i l] this] flight_step.ended [OF l]
      show ?thesis by (meson converse_rtranclp_into_rtranclp)
    next
      case pub
      then show ?thesis using publishing_frees [OF i pub assms(2)] by blast
    next
      case rel
      then show ?thesis using release_frees [OF i rel assms(2)] by blast
    qed
  qed
qed

text \<open>A concrete run: goroutine 0 leads, goroutine 1 joins, the query returns an error.\<close>

definition sample_joined :: flight where
  "sample_joined = flight_enter (flight_enter newSingleFlightGroup 0 ''a:1:1'') 1 ''a:1:1''"

definition sample_finished :: flight where
  "sample_finished =
     (let oc = Returned None (Some ''timeout'');
          g = flight_release (flight_unregister (flight_publish sample_joined 0 ''a:1:1'' 0 oc)
            0 ''a:1:1'' 0 oc) 0 ''a:1:1'' 0 oc
      in set_proc g 1 (Finished ''a:1:1'' 0 (None, True, Some ''timeout'')))"

lemmas sample_flight_defs = sample_joined_def sample_finished_def flight_enter_def newSingleFlightGroup_def
  flight_release_def flight_unregister_def flight_publish_def set_proc_def publish_def new_call_def

lemma sample_joined_reachable: "flight_reachable sample_joined"
proof -
  let ?g = "flight_enter newSingleFlightGroup 0 ''a:1:1''"
  have "flight_step newSingleFlightGroup ?g" by (rule flight_step.enter) (simp add: newSingleFlightGroup_def)
  moreover have "flight_step ?g sample_joined"
    unfolding sample_joined_def by (rule flight_step.enter) (simp add: flight_enter_def newSingleFlightGroup_def set_proc_def)
  ultimately show ?thesis by simp
qed

lemma sample_finished_reachable: "flight_reachable sample_finished"
proof -
  let ?oc = "Returned None (Some ''timeout'')" and ?k = "''a:1:1''"
  let ?g1 = "flight_publish sample_joined 0 ?k 0 ?oc"
  let ?g2 = "flight_unregister ?g1 0 ?k 0 ?oc"
  let ?g3 = "flight_release ?g2 0 ?k 0 ?oc"
  have "flight_step sample_joined ?g1" by (rule flight_step.ended) (simp add: sample_flight_defs)
  moreover have "flight_step ?g1 ?g2" by (rule flight_step.unregister) (simp add: flight_publish_def)
  moreover have "flight_step ?g2 ?g3" by (rule flight_step.release) (simp add: flight_unregister_def)
  moreover have "flight_step ?g3 sample_finished"
    using flight_step.follow [of ?g3 1 ?k 0 "\<lparr>fc_val = None, fc_err = Some ''timeout'', fc_panicked = False, fc_done = True\<rparr>"]
    by (simp add: sample_flight_defs follower_result_def)
  ultimately show ?thesis using sample_joined_reachable by (meson rtranclp.rtrancl_into_rtrancl)
qed

theorem flight_one_query_per_key_witness:
  "(map_of (fl_calls sample_joined) ''a:1:1'' \<noteq> None) =
     (\<exists>p c. registered (fl_proc sample_joined p) = Some (''a:1:1'', c))"
  using flight_one_query_per_key [OF sample_joined_reachable] by blast

theorem flight_shared_outcome_witness:
  "\<exists>oc. ((None, False, Some ''timeout'') = leader_result oc \<or>
      (None, False, Some ''timeout'') = follower_result ''a:1:1'' (publish oc new_call)) \<and>
    ((None, True, Some ''timeout'') = leader_result oc \<or>
      (None, True, Some ''timeout'') = follower_result ''a:1:1'' (publish oc new_call))"
  by (rule flight_shared_outcome [OF sample_finished_reachable, of 0 _ 0 _ 1])
    (simp_all add: sample_flight_defs leader_result_def)

theorem flight_waiter_released_witness:
  "\<exists>g' r. flight_step\<^sup>*\<^sup>* sample_joined g' \<and> fl_proc g' 1 = Finished ''a:1:1'' 0 r"
  by (rule flight_waiter_released [OF sample_joined_reachable]) (simp add: sample_flight_defs)

end
