(* ===== verification/Cache_Prefetch.thy ===== *)
theory Cache_Prefetch
  imports Cache_Behaviour Cache_Flight "HOL-Library.Multiset"
begin

text \<open>
  Refreshing popular entries before they expire (\<open>core/cache_prefetch.go\<close>) and the cache's
  statistics views (\<open>core/cache_stats.go\<close>). The upstream resolver is a parameter with the
  two capabilities the code tests for. \<open>joined\<close> tells, per key, whether another goroutine is
  already querying it and with what outcome; otherwise the prefetcher leads the call itself. The
  table of type names is a parameter (\<open>typeName\<close>).
\<close>

section \<open>Prefetching\<close>

record resolver =
  r_Exchange :: "msg \<Rightarrow> msg option \<times> string option"
  r_ExchangeForGroup :: "(string \<Rightarrow> msg \<Rightarrow> msg option \<times> string option) option"

definition maxPrefetchPerTick :: nat where "maxPrefetchPerTick = 64"
definition prefetchMinInterval :: duration where "prefetchMinInterval = 5 * second"

definition buildPrefetchRequest :: "dns_lib \<Rightarrow> u16 \<Rightarrow> cacheEntry \<Rightarrow> msg option" where
  "buildPrefetchRequest L qid e =
     (if ce_domain e = [] then None
      else Some (empty_msg\<lparr>m_Id := qid, m_RecursionDesired := True,
             m_Question := [\<lparr>q_Name = Fqdn L (ce_domain e), q_Qtype = ce_qtype e, q_Qclass = ce_qclass e\<rparr>]\<rparr>))"

definition prefetch_wanted :: "time \<Rightarrow> u64 \<Rightarrow> duration \<Rightarrow> cacheEntry \<Rightarrow> bool" where
  "prefetch_wanted now threshold before e \<longleftrightarrow>
     \<not> ce_isNegative e \<and> now < ce_expiresAt e \<and> \<not> (ce_expiresAt e - now > before) \<and>
     \<not> (ce_hitCount e < threshold) \<and>
     \<not> (ce_lastPrefetchAt e > 0 \<and> now - ce_lastPrefetchAt e < prefetchMinInterval)"

fun collect_candidates :: "heap \<Rightarrow> time \<Rightarrow> u64 \<Rightarrow> duration \<Rightarrow> cacheShard list \<Rightarrow> addr list \<Rightarrow> addr list" where
  "collect_candidates h now threshold before [] acc = acc"
| "collect_candidates h now threshold before (s # ss) acc =
     (let acc' = acc @ filter (\<lambda>a. prefetch_wanted now threshold before (deref h a)) (map snd (sh_entries s))
      in if length acc' \<ge> maxPrefetchPerTick then acc'
         else collect_candidates h now threshold before ss acc')"

definition collectPrefetchCandidates :: "dns_cache \<Rightarrow> time \<Rightarrow> u64 \<Rightarrow> duration \<Rightarrow> addr list" where
  "collectPrefetchCandidates c now threshold before =
     take maxPrefetchPerTick (collect_candidates (dc_heap c) now threshold before (dc_shards c) [])"

definition exchangeForPrefetch :: "resolver \<Rightarrow> string \<Rightarrow> msg \<Rightarrow> msg option \<times> string option" where
  "exchangeForPrefetch res grp req =
     (if grp \<noteq> DefaultClientGroupID
      then (case r_ExchangeForGroup res of Some f \<Rightarrow> f grp req | None \<Rightarrow> r_Exchange res req)
      else r_Exchange res req)"

definition prefetch_group :: "cacheEntry \<Rightarrow> string" where
  "prefetch_group e = (if ce_group e = [] then DefaultClientGroupID else ce_group e)"

definition prefetch_one ::
  "dns_lib \<Rightarrow> resolver \<Rightarrow> (string \<Rightarrow> flight_result option) \<Rightarrow> u16 \<Rightarrow> time \<Rightarrow> time \<Rightarrow> addr \<Rightarrow> dns_cache \<Rightarrow> dns_cache" where
  "prefetch_one L res joined qid now now2 a c =
     (let c1 = c\<lparr>dc_heap := heap_upd (dc_heap c) a (\<lambda>e. e\<lparr>ce_lastPrefetchAt := now\<rparr>)\<rparr>;
          e = deref (dc_heap c1) a
      in case buildPrefetchRequest L qid e of
           None \<Rightarrow> c1
         | Some req \<Rightarrow>
             (let (c2, err) =
                (case joined (ce_key e) of
                   Some (_, _, err) \<Rightarrow> (c1, err)
                 | None \<Rightarrow>
                     (let (resp, exErr) = exchangeForPrefetch res (prefetch_group e) req
                      in (case (exErr, resp) of
                            (None, Some r) \<Rightarrow> snd (PutForGroup c1 req r (prefetch_group e) now2)
                          | _ \<Rightarrow> c1, exErr)))
              in if err = None then c2\<lparr>dc_prefetchCount := dc_prefetchCount c2 + 1\<rparr> else c2))"

definition prefetchHotEntries ::
  "dns_lib \<Rightarrow> resolver option \<Rightarrow> (string \<Rightarrow> flight_result option) \<Rightarrow> u16 \<Rightarrow> time \<Rightarrow> time \<Rightarrow> dns_cache \<Rightarrow> dns_cache" where
  "prefetchHotEntries L res joined qid now now2 c =
     (let cfg = dc_config c in
      if \<not> cc_Enabled cfg \<or> \<not> cc_PrefetchEnabled cfg then c
      else case res of None \<Rightarrow> c | Some r \<Rightarrow>
        (let t0 = word_of_int (cc_PrefetchThreshold cfg) :: u64;
             threshold = (if t0 = 0 then word_of_int defaultPrefetchThreshold else t0);
             b0 = wrap64 (cc_PrefetchBeforeExpiryMs cfg * millisecond);
             before = (if b0 \<le> 0 then defaultPrefetchBeforeMs * millisecond else b0)
         in fold (prefetch_one L r joined qid now now2) (collectPrefetchCandidates c now threshold before) c))"

section \<open>Statistics\<close>

definition entry_count :: "dns_cache \<Rightarrow> nat" where
  "entry_count c = sum_list (map (\<lambda>s. length (sh_entries s)) (dc_shards c))"

record cache_stats =
  st_Enabled :: bool
  st_TotalHits :: u64
  st_TotalMisses :: u64
  st_StaleHits :: u64
  st_NegativeHits :: u64
  st_HitRatio :: "(u64 \<times> u64) option"   \<comment> \<open>numerator and denominator; \<open>None\<close> is 0\<close>
  st_EntryCount :: nat
  st_MaxEntries :: int
  st_EvictionCount :: u64
  st_PrefetchCount :: u64

definition Stats :: "dns_cache \<Rightarrow> cache_stats" where
  "Stats c = (let total = dc_totalHits c + dc_totalMisses c in
     \<lparr>st_Enabled = IsEnabled c, st_TotalHits = dc_totalHits c, st_TotalMisses = dc_totalMisses c,
      st_StaleHits = dc_staleHits c, st_NegativeHits = dc_negativeHits c,
      st_HitRatio = (if total > 0 then Some (dc_totalHits c, total) else None),
      st_EntryCount = entry_count c, st_MaxEntries = dc_maxEntries c,
      st_EvictionCount = dc_evictions c, st_PrefetchCount = dc_prefetchCount c\<rparr>)"

definition all_entries :: "dns_cache \<Rightarrow> cacheEntry list" where
  "all_entries c = concat (map (\<lambda>s. map (\<lambda>(k, a). deref (dc_heap c) a) (sh_entries s)) (dc_shards c))"

record cache_entry_item =
  it_Domain :: string
  it_QType :: string
  it_TTL :: u32
  it_OriginalTTL :: u32
  it_RemainingTTL :: int
  it_ExpiresAt :: int
  it_StaleUntil :: int
  it_HitCount :: u64
  it_LastHitAt :: int
  it_IsNegative :: bool
  it_Status :: string
  it_IPList :: "string list"

definition entry_item :: "(u16 \<Rightarrow> string) \<Rightarrow> time \<Rightarrow> cacheEntry \<Rightarrow> cache_entry_item" where
  "entry_item typeName now e =
     (let r = go_div (ce_expiresAt e - now) second in
      \<lparr>it_Domain = ce_domain e, it_QType = typeName (ce_qtype e),
       it_TTL = word_of_int (go_div (ce_effectiveTTL e) second), it_OriginalTTL = ce_originalTTL e,
       it_RemainingTTL = (if r \<le> 0 then 0 else r), it_ExpiresAt = ce_expiresAt e div 1000000,
       it_StaleUntil = ce_staleUntil e div 1000000, it_HitCount = ce_hitCount e,
       it_LastHitAt = go_div (ce_lastHitAt e) 1000000, it_IsNegative = ce_isNegative e,
       it_Status = (if r \<le> 0 then ''stale'' else ''fresh''), it_IPList = ce_ipList e\<rparr>)"

definition entry_matches :: "(u16 \<Rightarrow> string) \<Rightarrow> string \<Rightarrow> cacheEntry \<Rightarrow> bool" where
  "entry_matches typeName query e \<longleftrightarrow> query = [] \<or> str_contains (ce_domain e) query \<or>
     str_contains (to_lower (typeName (ce_qtype e))) query"

definition GetEntries :: "(u16 \<Rightarrow> string) \<Rightarrow> dns_cache \<Rightarrow> string \<Rightarrow> int \<Rightarrow> time \<Rightarrow> nat \<times> cache_entry_item list" where
  "GetEntries typeName c query limit now =
     (let lim = (if limit \<le> 0 then 100 else nat limit);
          q = to_lower (trim_space query);
          matched = sort_key (\<lambda>e. - ce_lastHitAt e) (filter (entry_matches typeName q) (all_entries c))
      in (length matched, map (entry_item typeName now) (take lim matched)))"

record cache_domain_stat =
  ds_Domain :: string
  ds_QType :: string
  ds_HitCount :: u64
  ds_LastHitAt :: int

definition GetTopDomains :: "(u16 \<Rightarrow> string) \<Rightarrow> dns_cache \<Rightarrow> int \<Rightarrow> cache_domain_stat list" where
  "GetTopDomains typeName c limit =
     (let lim = (if limit \<le> 0 then 10 else nat limit)
      in map (\<lambda>e. \<lparr>ds_Domain = ce_domain e, ds_QType = typeName (ce_qtype e),
                   ds_HitCount = ce_hitCount e, ds_LastHitAt = go_div (ce_lastHitAt e) 1000000\<rparr>)
           (take lim (sort_key (\<lambda>e. - uint (ce_hitCount e)) (all_entries c))))"

section \<open>Facts: candidates\<close>

lemma collect_candidates_props:
  "a \<in> set (collect_candidates h now th before ss acc) \<Longrightarrow>
   a \<in> set acc \<or> (prefetch_wanted now th before (deref h a) \<and> (\<exists>s \<in> set ss. a \<in> snd ` set (sh_entries s)))"
proof (induction ss arbitrary: acc)
  case (Cons s ss)
  let ?acc = "acc @ filter (\<lambda>a. prefetch_wanted now th before (deref h a)) (map snd (sh_entries s))"
  show ?case
  proof (cases "length ?acc \<ge> maxPrefetchPerTick")
    case True
    with Cons.prems show ?thesis by (auto simp: Let_def)
  next
    case False
    then have "a \<in> set (collect_candidates h now th before ss ?acc)"
      using Cons.prems by (simp only: collect_candidates.simps Let_def if_False)
    from Cons.IH [OF this] show ?thesis by auto
  qed
qed simp

text \<open>
  One round of the prefetcher picks at most 64 entries, and only entries that are stored,
  positive, still fresh, within the configured lead time of their expiry, hit at least the
  threshold number of times and not tried within the last five seconds.
\<close>

theorem prefetch_candidates_sound:
  "length (collectPrefetchCandidates c now th before) \<le> 64 \<and>
   (\<forall>a \<in> set (collectPrefetchCandidates c now th before).
      (\<exists>s \<in> set (dc_shards c). a \<in> snd ` set (sh_entries s)) \<and>
      \<not> ce_isNegative (deref (dc_heap c) a) \<and> now < ce_expiresAt (deref (dc_heap c) a) \<and>
      ce_expiresAt (deref (dc_heap c) a) - now \<le> before \<and> th \<le> ce_hitCount (deref (dc_heap c) a) \<and>
      (ce_lastPrefetchAt (deref (dc_heap c) a) \<le> 0 \<or>
       5 * second \<le> now - ce_lastPrefetchAt (deref (dc_heap c) a)))"
proof -
  have "(\<exists>s \<in> set (dc_shards c). a \<in> snd ` set (sh_entries s)) \<and> prefetch_wanted now th before (deref (dc_heap c) a)"
    if "a \<in> set (collectPrefetchCandidates c now th before)" for a
    using collect_candidates_props [of a "dc_heap c" now th before "dc_shards c" "[]"] that
    by (auto simp: collectPrefetchCandidates_def dest: in_set_takeD)
  then show ?thesis
    by (auto simp: collectPrefetchCandidates_def maxPrefetchPerTick_def prefetch_wanted_def
        prefetchMinInterval_def not_less)
qed

theorem prefetch_candidates_sound_witness:
  "length (collectPrefetchCandidates sample_cache 0 5 (30 * second)) \<le> 64"
  using prefetch_candidates_sound [of sample_cache 0 5 "30 * second"] by blast

section \<open>Facts: the refreshed key\<close>

lemma is_space_lower: "is_space (to_lower_char c) \<longleftrightarrow> is_space c"
proof (cases "map_of (zip upper_letters lower_letters) c")
  case (Some d)
  have "list_all (\<lambda>d. \<not> is_space d) lower_letters" "list_all (\<lambda>d. \<not> is_space d) upper_letters"
    by code_simp+
  moreover have "c \<in> set upper_letters" "d \<in> set lower_letters"
    using map_of_SomeD [OF Some] by (auto dest: set_zip_leftD set_zip_rightD)
  ultimately show ?thesis using Some by (auto simp: to_lower_char_def list_all_iff)
qed (simp add: to_lower_char_def)

lemma trim_suffix_dot: "\<exists>r. s = trim_suffix s ''.'' @ r"
  by (simp add: trim_suffix_def) (metis append_take_drop_id)

lemma hd_NormalizeCacheDomain:
  assumes "NormalizeCacheDomain n \<noteq> []"
  shows "\<not> is_space (hd (NormalizeCacheDomain n))"
proof -
  let ?t = "trim_suffix (trim_space n) ''.''"
  have ne: "?t \<noteq> []" using assms by (simp add: NormalizeCacheDomain_def)
  obtain r where r: "trim_space n = ?t @ r" using trim_suffix_dot by blast
  with ne have "trim_space n \<noteq> []" by (metis append_is_Nil_conv)
  then have "\<not> is_space (hd (trim_space n))"
    using trim_with_ends [of is_space n] by (simp add: trim_space_def)
  moreover have "hd (trim_space n) = hd ?t" using r ne by (metis hd_append2)
  ultimately show ?thesis using ne by (simp add: NormalizeCacheDomain_def to_lower_def hd_map is_space_lower)
qed

lemma normalize_fqdn:
  assumes "NormalizeCacheDomain n \<noteq> []"
  shows "NormalizeCacheDomain (NormalizeCacheDomain n @ ''.'') = NormalizeCacheDomain n"
proof -
  let ?d = "NormalizeCacheDomain n"
  have "trim_space (?d @ ''.'') = ?d @ ''.''"
    unfolding trim_space_def by (rule trim_with_id) (use assms hd_NormalizeCacheDomain in \<open>simp add: is_space_def\<close>)
  then have "NormalizeCacheDomain (?d @ ''.'') = to_lower ?d" by (simp add: NormalizeCacheDomain_def)
  also have "\<dots> = ?d" by (simp add: NormalizeCacheDomain_def)
  finally show ?thesis .
qed

lemma normalizeCacheGroup_idem [simp]: "normalizeCacheGroup (normalizeCacheGroup g) = normalizeCacheGroup g"
proof -
  have "trim_space DefaultClientGroupID = DefaultClientGroupID" by code_simp
  then show ?thesis by (simp add: normalizeCacheGroup_def Let_def)
qed

lemma normalizeCacheGroup_not_Nil: "normalizeCacheGroup g \<noteq> []"
  by (simp add: normalizeCacheGroup_def Let_def DefaultClientGroupID_def)

lemma key_of_normalized_group: "CacheKeyForGroup d t c (normalizeCacheGroup g) = CacheKeyForGroup d t c g"
proof -
  have "trim_space DefaultClientGroupID = DefaultClientGroupID" by code_simp
  then show ?thesis by (simp add: normalizeCacheGroup_def CacheKeyForGroup_def Let_def)
qed

text \<open>
  A prefetch refreshes the entry it was started for: for an entry that a put created, of any
  client group, the request rebuilt from the entry and the group the prefetcher uses give back
  the very key of the entry, and the group reaches the resolver when it is not the default one.
\<close>

theorem prefetch_keeps_key:
  assumes "dns_lib_ok L" "e = build_entry cfg q resp grp t neg ttl"
    and "NormalizeCacheDomain (q_Name q) \<noteq> []" "\<not> has_suffix (NormalizeCacheDomain (q_Name q)) ''.''"
  shows "\<exists>req q'. buildPrefetchRequest L qid e = Some req \<and> m_Question req = [q'] \<and>
    question_key q' (prefetch_group e) = ce_key e \<and> prefetch_group e = normalizeCacheGroup grp"
proof -
  have f: "ce_domain e = NormalizeCacheDomain (q_Name q)" "ce_qtype e = q_Qtype q" "ce_qclass e = q_Qclass q"
    "ce_group e = normalizeCacheGroup grp" "ce_key e = question_key q grp"
    by (simp_all add: assms(2) build_entry_def question_key_def Let_def)
  have g: "prefetch_group e = normalizeCacheGroup grp"
    using f(4) normalizeCacheGroup_not_Nil by (simp add: prefetch_group_def)
  let ?q = "\<lparr>q_Name = Fqdn L (ce_domain e), q_Qtype = ce_qtype e, q_Qclass = ce_qclass e\<rparr>"
  have "Fqdn L (ce_domain e) = NormalizeCacheDomain (q_Name q) @ ''.''"
    using dns_lib_okD(9) [OF assms(1)] assms(4) f(1) by (simp add: is_fqdn_def)
  then have "NormalizeCacheDomain (Fqdn L (ce_domain e)) = NormalizeCacheDomain (q_Name q)"
    using normalize_fqdn [OF assms(3)] by simp
  then have "question_key ?q (normalizeCacheGroup grp) = question_key q grp"
    using f(2,3) unfolding question_key_def key_of_normalized_group by (simp add: CacheKeyForGroup_def)
  then show ?thesis using assms(3) f g by (simp add: buildPrefetchRequest_def)
qed

theorem prefetch_keeps_key_witness:
  "\<exists>req q'. buildPrefetchRequest sample_lib 7 (build_entry DefaultCacheConfig sample_q sample_resp ''kids'' 0 False second) = Some req \<and>
    m_Question req = [q'] \<and>
    question_key q' (prefetch_group (build_entry DefaultCacheConfig sample_q sample_resp ''kids'' 0 False second)) =
      ce_key (build_entry DefaultCacheConfig sample_q sample_resp ''kids'' 0 False second) \<and>
    prefetch_group (build_entry DefaultCacheConfig sample_q sample_resp ''kids'' 0 False second) = normalizeCacheGroup ''kids''"
proof (rule prefetch_keeps_key [OF sample_lib_ok refl])
  show "NormalizeCacheDomain (q_Name sample_q) \<noteq> []" by code_simp
  show "\<not> has_suffix (NormalizeCacheDomain (q_Name sample_q)) ''.''" by code_simp
qed

section \<open>Facts: statistics\<close>

lemma entry_count_abs:
  assumes "cache_inv c"
  shows "entry_count c = (\<Sum>i < NumDNSCacheShards. length (cache_abs c i))"
proof -
  have "length (sh_entries (dc_shards c ! i)) = length (cache_abs c i)" if "i < NumDNSCacheShards" for i
    using cache_invD(2) [OF assms that] length_abs [of "dc_heap c" i "dc_shards c ! i"]
    by (simp add: cache_abs_def shard_inv_def)
  then show ?thesis using cache_invD(1) [OF assms]
    by (simp add: entry_count_def sum_list_sum_nth atLeast0LessThan)
qed

text \<open>
  The listing for the user interface is sound and complete up to its limit: the reported
  total is the number of stored entries that match the query, and the listed items are the most
  recently hit of them, in descending order of the last hit.
\<close>

theorem GetEntries_listing:
  "fst (GetEntries typeName c query limit now) =
     length (filter (entry_matches typeName (to_lower (trim_space query))) (all_entries c)) \<and>
   (\<exists>sorted. mset sorted = mset (filter (entry_matches typeName (to_lower (trim_space query))) (all_entries c)) \<and>
      sorted_wrt (\<lambda>x y. ce_lastHitAt y \<le> ce_lastHitAt x) sorted \<and>
      snd (GetEntries typeName c query limit now) =
        map (entry_item typeName now) (take (if limit \<le> 0 then 100 else nat limit) sorted))"
proof -
  let ?m = "filter (entry_matches typeName (to_lower (trim_space query))) (all_entries c)"
  let ?s = "sort_key (\<lambda>e. - ce_lastHitAt e) ?m"
  have "sorted_wrt (\<lambda>x y. - ce_lastHitAt x \<le> - ce_lastHitAt y) ?s"
    using sorted_sort_key [of "\<lambda>e. - ce_lastHitAt e" ?m] by (simp add: sorted_map)
  then show ?thesis by (intro conjI exI [of _ ?s]) (simp_all add: GetEntries_def Let_def)
qed

end
