(* ===== verification/Cache_Persist.thy ===== *)
theory Cache_Persist
  imports Cache_Prefetch
begin

text \<open>
  Saving the cache to disk and restoring it (\<open>core/cache_persist.go\<close>, and the parts of
  \<open>core/cache.go\<close> that save on shutdown). A file system maps paths to contents; each of the
  calls \<open>MkdirAll\<close>, \<open>WriteFile\<close> and \<open>Rename\<close> may fail, and a failing write may leave
  any part of the data behind. The JSON encoding of a payload and the wire format of messages are
  parameters; the round-trip theorem names what it needs of them.
\<close>

section \<open>File format and file system\<close>

definition cachePersistVersion :: int where "cachePersistVersion = 1"

record cachePersistRecord =
  pr_Key :: string
  pr_Domain :: string
  pr_QType :: u16
  pr_QClass :: u16
  pr_Message :: "u8 list"
  pr_OriginalTTL :: u32
  pr_ExpiresAt :: int
  pr_StaleUntil :: int
  pr_IsNegative :: bool
  pr_Rcode :: nat
  pr_IPList :: "string list"
  pr_HitCount :: u64
  pr_LastHitAt :: int

record cachePersistFile =
  pf_Version :: int
  pf_SavedAt :: int
  pf_EntryCount :: nat
  pf_MaxEntries :: int
  pf_Entries :: "cachePersistRecord list"

record 'b json =
  Marshal :: "cachePersistFile \<Rightarrow> 'b option"
  Unmarshal :: "'b \<Rightarrow> cachePersistFile option"

record 'b fs =
  fs_files :: "(string \<times> 'b) list"
  fs_mkdir_ok :: bool
  fs_write :: "'b \<Rightarrow> 'b option"      \<comment> \<open>what a failing write leaves; \<open>None\<close> when writing succeeds\<close>
  fs_rename_ok :: bool
  fs_read_ok :: bool

definition UnixMilli :: "time \<Rightarrow> int" where "UnixMilli t = t div 1000000"
definition from_UnixMilli :: "int \<Rightarrow> time" where "from_UnixMilli ms = ms * 1000000"

datatype persist_error =
    EmptyPath | MarshalFailed | MkdirFailed | WriteFailed | RenameFailed
  | ReadFailed | UnmarshalFailed | UnsupportedVersion int

section \<open>Saving\<close>

definition entry_record :: "cacheEntry \<Rightarrow> u8 list \<Rightarrow> cachePersistRecord" where
  "entry_record e raw = \<lparr>pr_Key = ce_key e, pr_Domain = ce_domain e, pr_QType = ce_qtype e,
     pr_QClass = ce_qclass e, pr_Message = raw, pr_OriginalTTL = ce_originalTTL e,
     pr_ExpiresAt = UnixMilli (ce_expiresAt e), pr_StaleUntil = UnixMilli (ce_staleUntil e),
     pr_IsNegative = ce_isNegative e, pr_Rcode = ce_rcode e, pr_IPList = ce_ipList e,
     pr_HitCount = ce_hitCount e, pr_LastHitAt = ce_lastHitAt e\<rparr>"

definition snapshot_entry :: "dns_lib \<Rightarrow> time \<Rightarrow> cacheEntry \<Rightarrow> cachePersistRecord list" where
  "snapshot_entry L now e =
     (if \<not> now < ce_staleUntil e then []
      else case Pack L (ce_msg e) of None \<Rightarrow> [] | Some raw \<Rightarrow> [entry_record e raw])"

definition snapshotForPersist :: "dns_lib \<Rightarrow> dns_cache \<Rightarrow> time \<Rightarrow> cachePersistRecord list" where
  "snapshotForPersist L c now = concat (map (snapshot_entry L now) (all_entries c))"

definition fs_put :: "'b fs \<Rightarrow> string \<Rightarrow> 'b \<Rightarrow> 'b fs" where
  "fs_put f p d = f\<lparr>fs_files := AList.update p d (fs_files f)\<rparr>"

definition fs_remove :: "'b fs \<Rightarrow> string \<Rightarrow> 'b fs" where
  "fs_remove f p = f\<lparr>fs_files := AList.delete p (fs_files f)\<rparr>"

text \<open>\<open>savedAt\<close> is the clock reading stored in the file, \<open>now\<close> the one of the snapshot.\<close>

definition SaveToFile ::
  "dns_lib \<Rightarrow> 'b json \<Rightarrow> dns_cache \<Rightarrow> string \<Rightarrow> time \<Rightarrow> time \<Rightarrow> 'b fs \<Rightarrow> persist_error option \<times> 'b fs" where
  "SaveToFile L J c path now savedAt f =
     (if path = [] then (Some EmptyPath, f)
      else
       (let records = snapshotForPersist L c now;
            payload = \<lparr>pf_Version = cachePersistVersion, pf_SavedAt = UnixMilli savedAt,
              pf_EntryCount = length records, pf_MaxEntries = dc_maxEntries c, pf_Entries = records\<rparr>;
            tmp = path @ ''.tmp''
        in case Marshal J payload of
             None \<Rightarrow> (Some MarshalFailed, f)
           | Some data \<Rightarrow>
               if \<not> fs_mkdir_ok f then (Some MkdirFailed, f)
               else (case fs_write f data of
                 Some part \<Rightarrow> (Some WriteFailed, fs_put f tmp part)
               | None \<Rightarrow>
                   (let f1 = fs_put f tmp data in
                    if fs_rename_ok f then (None, fs_remove (fs_put f1 path data) tmp)
                    else (Some RenameFailed, fs_remove f1 tmp)))))"

definition persistOnShutdown ::
  "dns_lib \<Rightarrow> 'b json \<Rightarrow> (persist_error \<Rightarrow> string) \<Rightarrow> dns_cache \<Rightarrow> time \<Rightarrow> time \<Rightarrow> 'b fs \<Rightarrow> dns_cache \<times> 'b fs" where
  "persistOnShutdown L J show_err c now savedAt f =
     (let cfg = dc_config c in
      if \<not> cc_PersistEnabled cfg \<or> cc_PersistPath cfg = [] then (c, f)
      else (case SaveToFile L J c (cc_PersistPath cfg) now savedAt f of
              (None, f') \<Rightarrow> (c, f')
            | (Some e, f') \<Rightarrow> (c\<lparr>dc_lastPersistError := show_err e\<rparr>, f')))"

text \<open>Shutting down is idempotent: only the first call saves.\<close>

definition Close ::
  "dns_lib \<Rightarrow> 'b json \<Rightarrow> (persist_error \<Rightarrow> string) \<Rightarrow> dns_cache \<Rightarrow> time \<Rightarrow> time \<Rightarrow> 'b fs \<Rightarrow> dns_cache \<times> 'b fs" where
  "Close L J show_err c now savedAt f =
     (if dc_closed c then (c, f)
      else persistOnShutdown L J show_err (StopPersistLoop (c\<lparr>dc_closed := True\<rparr>)) now savedAt f)"

section \<open>Restoring\<close>

definition entryFromRecord :: "dns_lib \<Rightarrow> cachePersistRecord \<Rightarrow> time \<Rightarrow> time \<Rightarrow> cacheEntry option" where
  "entryFromRecord L rec now now2 =
     (if pr_Key rec = [] \<or> pr_Message rec = [] then None
      else
       (let expiresAt = from_UnixMilli (pr_ExpiresAt rec); staleUntil = from_UnixMilli (pr_StaleUntil rec) in
        if \<not> now < staleUntil then None
        else case Unpack L (pr_Message rec) of None \<Rightarrow> None | Some m \<Rightarrow>
          Some (zero_entry\<lparr>ce_key := pr_Key rec, ce_domain := pr_Domain rec, ce_qtype := pr_QType rec,
            ce_qclass := pr_QClass rec, ce_msg := m, ce_originalTTL := pr_OriginalTTL rec,
            ce_effectiveTTL := (if pr_OriginalTTL rec = 0 then expiresAt - now2
                                else wrap64 (uint (pr_OriginalTTL rec) * second)),
            ce_createdAt := now, ce_expiresAt := expiresAt, ce_staleUntil := staleUntil,
            ce_isNegative := pr_IsNegative rec, ce_rcode := pr_Rcode rec, ce_ipList := pr_IPList rec,
            ce_hitCount := pr_HitCount rec, ce_lastHitAt := pr_LastHitAt rec\<rparr>)))"

definition insertEntry :: "cacheEntry \<Rightarrow> dns_cache \<Rightarrow> bool \<times> dns_cache" where
  "insertEntry e c =
     (let (excluded, c1) = cache_IsExcluded c (ce_domain e)
      in if excluded then (False, c1) else (True, put_section e c1))"

fun load_loop :: "dns_lib \<Rightarrow> time \<Rightarrow> time \<Rightarrow> int \<Rightarrow> cachePersistRecord list \<Rightarrow> nat \<Rightarrow> dns_cache \<Rightarrow> nat \<times> dns_cache" where
  "load_loop L now now2 limit [] restored c = (restored, c)"
| "load_loop L now now2 limit (rec # rest) restored c =
     (if int restored \<ge> limit then (restored, c)
      else case entryFromRecord L rec now now2 of
          None \<Rightarrow> load_loop L now now2 limit rest restored c
        | Some e \<Rightarrow>
            (let (ok, c1) = insertEntry e c
             in load_loop L now now2 limit rest (if ok then Suc restored else restored) c1))"

definition LoadFromFile ::
  "dns_lib \<Rightarrow> 'b json \<Rightarrow> dns_cache \<Rightarrow> string \<Rightarrow> time \<Rightarrow> time \<Rightarrow> 'b fs \<Rightarrow> (persist_error + nat) \<times> dns_cache" where
  "LoadFromFile L J c path now now2 f =
     (if path = [] then (Inl EmptyPath, c)
      else case map_of (fs_files f) path of
        None \<Rightarrow> (Inr 0, c)
      | Some data \<Rightarrow>
          if \<not> fs_read_ok f then (Inl ReadFailed, c)
          else (case Unmarshal J data of
            None \<Rightarrow> (Inl UnmarshalFailed, c)
          | Some payload \<Rightarrow>
              if pf_Version payload \<noteq> cachePersistVersion then (Inl (UnsupportedVersion (pf_Version payload)), c)
              else
               (let limit = (if dc_maxEntries c \<le> 0 then DefaultMaxCacheEntries else dc_maxEntries c);
                    (n, c1) = load_loop L now now2 limit (pf_Entries payload) 0 c
                in (Inr n, c1))))"

section \<open>Facts: saving is atomic\<close>

text \<open>
  Saving never damages an existing file: whatever fails, the file at the path is either the
  old content, untouched, or the complete new encoding, and it is the new one exactly when the
  call reports success. No other path but the temporary one is affected.
\<close>

theorem SaveToFile_atomic:
  "(case SaveToFile L J c path now savedAt f of (err, f') \<Rightarrow>
     map_of (fs_files f') path =
       (if err = None then
          Marshal J \<lparr>pf_Version = cachePersistVersion, pf_SavedAt = UnixMilli savedAt,
            pf_EntryCount = length (snapshotForPersist L c now), pf_MaxEntries = dc_maxEntries c,
            pf_Entries = snapshotForPersist L c now\<rparr>
        else map_of (fs_files f) path) \<and>
     (\<forall>p. p = path \<or> p = path @ ''.tmp'' \<or> map_of (fs_files f') p = map_of (fs_files f) p))"
  by (auto simp: SaveToFile_def Let_def fs_put_def fs_remove_def update_conv split: option.split)

section \<open>Facts: the entries of a sound cache\<close>

definition shard_entries :: "dns_cache \<Rightarrow> nat \<Rightarrow> cacheEntry list" where
  "shard_entries c i = map (\<lambda>(k, a). deref (dc_heap c) a) (sh_entries (dc_shards c ! i))"

lemma all_entries_shards:
  assumes "cache_inv c"
  shows "all_entries c = concat (map (shard_entries c) [0..<NumDNSCacheShards])"
proof -
  have "map F (dc_shards c) = map (\<lambda>i. F (dc_shards c ! i)) [0..<NumDNSCacheShards]" for F :: "cacheShard \<Rightarrow> cacheEntry list"
    using cache_invD(1) [OF assms] by (intro nth_equalityI) simp_all
  then show ?thesis unfolding all_entries_def shard_entries_def by simp
qed

lemma shard_entries_keys:
  assumes "cache_inv c" "i < NumDNSCacheShards"
  shows "map ce_key (shard_entries c i) = map fst (sh_entries (dc_shards c ! i))"
    "e \<in> set (shard_entries c i) \<Longrightarrow> shard_index (ce_key e) = i"
proof -
  have c: "shard_core (dc_heap c) i (dc_shards c ! i)"
    using cache_invD(2) [OF assms] by (simp add: shard_inv_def)
  have k: "ce_key (deref (dc_heap c) a) = k \<and> shard_index k = i" if "(k, a) \<in> set (sh_entries (dc_shards c ! i))" for k a
    using that c live_deref [of "dc_heap c" i k a] by (auto simp: shard_core_def live_def)
  then show "map ce_key (shard_entries c i) = map fst (sh_entries (dc_shards c ! i))"
    by (auto simp: shard_entries_def)
  show "e \<in> set (shard_entries c i) \<Longrightarrow> shard_index (ce_key e) = i"
    using k by (auto simp: shard_entries_def)
qed

lemma filter_concat_shards:
  assumes "\<And>i x. i < n \<Longrightarrow> x \<in> set (f i) \<Longrightarrow> g x = i" "j < n"
  shows "filter (\<lambda>x. g x = j) (concat (map f [0..<n])) = f j"
proof -
  have "filter (\<lambda>x. g x = j) (concat (map f [0..<m])) = (if j < m then f j else [])" if "m \<le> n" for m
    using that
  proof (induction m)
    case (Suc m)
    have "filter (\<lambda>x. g x = j) (f m) = (if m = j then f m else [])"
      using assms(1) [of m] Suc.prems by (auto simp: filter_empty_conv)
    with Suc show ?case by auto
  qed simp
  with assms(2) show ?thesis by simp
qed

lemma distinct_concat_shards:
  assumes "\<And>i x. i < n \<Longrightarrow> x \<in> set (f i) \<Longrightarrow> g (key x) = i" "\<And>i. i < n \<Longrightarrow> distinct (map key (f i))"
  shows "distinct (map key (concat (map f [0..<n])))"
proof -
  have "distinct (map key (concat (map f [0..<m])))" if "m \<le> n" for m
    using that
  proof (induction m)
    case (Suc m)
    have "key x \<noteq> key y" if "x \<in> set (concat (map f [0..<m]))" "y \<in> set (f m)" for x y
    proof -
      from that(1) obtain i where i: "i < m" "x \<in> set (f i)" by auto
      then have "g (key x) = i" "g (key y) = m"
        using assms(1) [of i x] assms(1) [of m y] that(2) Suc.prems by simp_all
      with i(1) show ?thesis by auto
    qed
    with Suc assms(2) [of m] show ?case by auto
  qed simp
  then show ?thesis by simp
qed

lemma all_entries_distinct:
  assumes "cache_inv c"
  shows "distinct (map ce_key (all_entries c))"
  unfolding all_entries_shards [OF assms]
proof (rule distinct_concat_shards)
  show "shard_index (ce_key x) = i" if "i < NumDNSCacheShards" "x \<in> set (shard_entries c i)" for i x
    using shard_entries_keys(2) [OF assms that(1)] that(2) .
  show "distinct (map ce_key (shard_entries c i))" if "i < NumDNSCacheShards" for i
    using cache_invD(2) [OF assms that] by (simp add: shard_entries_keys(1) [OF assms that] shard_inv_def shard_core_def)
qed

lemma all_entries_in_shard:
  assumes "cache_inv c" "j < NumDNSCacheShards"
  shows "length (filter (\<lambda>e. shard_index (ce_key e) = j) (all_entries c)) \<le> shard_cap c j"
proof -
  have "filter (\<lambda>e. shard_index (ce_key e) = j) (all_entries c) = shard_entries c j"
    unfolding all_entries_shards [OF assms(1)]
    by (rule filter_concat_shards [OF _ assms(2)]) (rule shard_entries_keys(2) [OF assms(1)])
  then show ?thesis using cache_invD(2) [OF assms] by (simp add: shard_entries_def shard_inv_def shard_cap_def)
qed

lemma lookup_in_all_entries:
  assumes "cache_inv c" "cache_lookup c k = Some e"
  shows "\<exists>x \<in> set (all_entries c). view x = e \<and> ce_key x = k"
proof -
  obtain a where a: "map_of (sh_entries (shard_at c k)) k = Some a" "view (deref (dc_heap c) a) = e"
    "tag (dc_heap c) a = Some (k, True)" by (rule cache_lookup_Some [OF assms])
  have "dc_shards c ! shard_index k \<in> set (dc_shards c)"
    using cache_invD(1) [OF assms(1)] shard_index_less by simp
  moreover have "(k, a) \<in> set (sh_entries (dc_shards c ! shard_index k))"
    using map_of_SomeD [OF a(1)] by (simp add: shard_at_def)
  ultimately have "deref (dc_heap c) a \<in> set (all_entries c)" by (force simp: all_entries_def)
  moreover have "ce_key (deref (dc_heap c) a) = k" using a(3) by (auto simp: tag_def)
  ultimately show ?thesis using a(2) by blast
qed

lemma puts_on_empty:
  assumes "cache_inv c" "\<And>j. j < NumDNSCacheShards \<Longrightarrow> cache_abs c j = []" "distinct (map ce_key es)"
    and "\<And>j. j < NumDNSCacheShards \<Longrightarrow> length (filter (\<lambda>e. shard_index (ce_key e) = j) es) \<le> shard_cap c j"
  shows "j < NumDNSCacheShards \<Longrightarrow> shard_cap (fold put_section es c) j = shard_cap c j \<and>
    cache_abs (fold put_section es c) j = map view (rev (filter (\<lambda>e. shard_index (ce_key e) = j) es))"
  using assms(3,4)
proof (induction es rule: rev_induct)
  case Nil
  then show ?case using assms(2) by simp
next
  case (snoc e es)
  let ?c = "fold put_section es c" and ?l = "map view (rev (filter (\<lambda>e. shard_index (ce_key e) = j) es))"
  have "length (filter (\<lambda>e. shard_index (ce_key e) = j) es) \<le> shard_cap c j" if "j < NumDNSCacheShards" for j
    using snoc.prems(3) [OF that] by (auto split: if_splits)
  with snoc have IH: "shard_cap ?c j = shard_cap c j" "cache_abs ?c j = ?l" by auto
  have inv: "cache_inv ?c" by (rule dc.puts_inv [OF assms(1)])
  have "ce_key (view e) \<notin> ce_key ` set ?l" using snoc.prems(2) by auto
  then have "lru_remove ce_key (ce_key (view e)) ?l = ?l" by (rule lru_remove_absent)
  then show ?case
    using put_section_ok(2,3) [OF inv snoc.prems(1), of e] IH snoc.prems(3) [OF snoc.prems(1)]
    by (auto simp: lru_put_def)
qed

section \<open>Facts: restoring\<close>

text \<open>What one entry becomes when it is saved and restored.\<close>

definition restored_entry :: "dns_lib \<Rightarrow> time \<Rightarrow> time \<Rightarrow> time \<Rightarrow> cacheEntry \<Rightarrow> cacheEntry option" where
  "restored_entry L now now' now2 e =
     (case snapshot_entry L now e of [] \<Rightarrow> None | r # _ \<Rightarrow> entryFromRecord L r now' now2)"

lemma entryFromRecord_key: "entryFromRecord L r now now2 = Some e \<Longrightarrow> ce_key e = pr_Key r"
  by (auto simp: entryFromRecord_def Let_def split: if_splits option.splits)

lemma restored_entry_key: "restored_entry L now now' now2 e = Some e' \<Longrightarrow> ce_key e' = ce_key e"
  by (auto simp: restored_entry_def snapshot_entry_def entry_record_def dest!: entryFromRecord_key
      split: if_splits option.splits)

lemma map_filter_concat:
  "List.map_filter (\<lambda>r. entryFromRecord L r now' now2) (concat (map (snapshot_entry L now) es)) =
   List.map_filter (restored_entry L now now' now2) es"
  by (induction es) (auto simp: List.map_filter_simps restored_entry_def snapshot_entry_def split: option.split)

lemma cache_IsExcluded_none: "ex_res (Excluder c) = [] \<Longrightarrow> cache_IsExcluded c d = (False, c)"
  by (cases "dc_excluder c") (auto simp: cache_IsExcluded_def Excluder_def IsExcluded_def Let_def)

lemma put_section_excluder [simp]: "dc_excluder (put_section e c) = dc_excluder c"
  by (simp add: put_section_def set_shard_def split: prod.split)

lemma load_loop_all:
  assumes "ex_res (Excluder c) = []" "int n + int (length recs) \<le> limit"
  shows "load_loop L now now2 limit recs n c =
    (n + length (List.map_filter (\<lambda>r. entryFromRecord L r now now2) recs),
     fold put_section (List.map_filter (\<lambda>r. entryFromRecord L r now now2) recs) c)"
  using assms
proof (induction recs arbitrary: n c)
  case (Cons r recs)
  then have l: "\<not> int n \<ge> limit" by simp
  show ?case
  proof (cases "entryFromRecord L r now now2")
    case None
    then show ?thesis using Cons l by (simp add: List.map_filter_simps)
  next
    case (Some e)
    have "insertEntry e c = (True, put_section e c)"
      using cache_IsExcluded_none [OF Cons.prems(1)] by (simp add: insertEntry_def)
    moreover have "ex_res (Excluder (put_section e c)) = []" using Cons.prems(1) by (simp add: Excluder_def)
    ultimately show ?thesis using Cons Some l by (simp add: List.map_filter_simps)
  qed
qed (simp add: List.map_filter_simps)

lemma map_filter_keys:
  assumes "\<And>x y. f x = Some y \<Longrightarrow> key y = key x" "distinct (map key xs)"
  shows "distinct (map key (List.map_filter f xs))" "set (map key (List.map_filter f xs)) \<subseteq> set (map key xs)"
    "length (filter (\<lambda>y. P (key y)) (List.map_filter f xs)) \<le> length (filter (\<lambda>x. P (key x)) xs)"
proof -
  show s: "set (map key (List.map_filter f xs)) \<subseteq> set (map key xs)" for xs
    using assms(1) by (induction xs) (auto simp: List.map_filter_simps split: option.splits)
  show "distinct (map key (List.map_filter f xs))"
    using assms(2)
  proof (induction xs)
    case (Cons x xs)
    then show ?case using s [of xs] assms(1) [of x]
      by (auto simp: List.map_filter_simps split: option.split)
  qed (simp add: List.map_filter_simps)
  show "length (filter (\<lambda>y. P (key y)) (List.map_filter f xs)) \<le> length (filter (\<lambda>x. P (key x)) xs)"
    using assms(1) by (induction xs) (auto simp: List.map_filter_simps split: option.split)
qed

lemma entryFromRecord_Some:
  assumes "entryFromRecord L r now now2 = Some e'"
  shows "Unpack L (pr_Message r) = Some (ce_msg e')" "ce_expiresAt e' = from_UnixMilli (pr_ExpiresAt r)"
    "ce_staleUntil e' = from_UnixMilli (pr_StaleUntil r)" "ce_hitCount e' = pr_HitCount r"
    "ce_isNegative e' = pr_IsNegative r" "ce_rcode e' = pr_Rcode r" "ce_group e' = []"
    "ce_domain e' = pr_Domain r" "ce_qtype e' = pr_QType r" "ce_qclass e' = pr_QClass r"
  using assms by (auto simp: entryFromRecord_def Let_def zero_entry_def split: if_splits option.splits)

lemma restored_entry_exists:
  assumes "now < ce_staleUntil e" "Pack L (ce_msg e) = Some raw" "raw \<noteq> []" "Unpack L raw = Some (ce_msg e)"
    and "ce_key e \<noteq> []" "now' < from_UnixMilli (UnixMilli (ce_staleUntil e))"
  shows "\<exists>e'. restored_entry L now now' now2 e = Some e' \<and> ce_msg e' = ce_msg e \<and>
    ce_expiresAt e' = from_UnixMilli (UnixMilli (ce_expiresAt e)) \<and>
    ce_staleUntil e' = from_UnixMilli (UnixMilli (ce_staleUntil e)) \<and>
    ce_isNegative e' = ce_isNegative e"
proof -
  have "restored_entry L now now' now2 e = entryFromRecord L (entry_record e raw) now' now2"
    using assms(1,2) by (simp add: restored_entry_def snapshot_entry_def)
  moreover have "entryFromRecord L (entry_record e raw) now' now2 \<noteq> None"
    using assms(3-6) by (simp add: entryFromRecord_def entry_record_def Let_def)
  ultimately obtain e' where "restored_entry L now now' now2 e = Some e'"
    "entryFromRecord L (entry_record e raw) now' now2 = Some e'" by auto
  with entryFromRecord_Some [OF this(2)] assms(4) show ?thesis by (simp add: entry_record_def)
qed

lemma snapshot_length: "length (snapshotForPersist L c now) \<le> length (all_entries c)"
proof -
  have "length (snapshot_entry L now x) \<le> 1" for x by (simp add: snapshot_entry_def split: option.split)
  then have "length (concat (map (snapshot_entry L now) xs)) \<le> length xs" for xs
    by (induction xs) (auto simp: add_le_mono [of _ 1, simplified])
  then show ?thesis by (simp add: snapshotForPersist_def)
qed

text \<open>Loading what a save wrote stores the restorable entries in their order.\<close>

lemma load_after_save:
  assumes "\<And>p d. Marshal J p = Some d \<Longrightarrow> Unmarshal J d = Some p"
    and "SaveToFile L J c path now savedAt f = (None, f')" "fs_read_ok f'"
    and "ex_res (Excluder c0) = []" "int (length (all_entries c)) \<le> dc_maxEntries c0" "0 < dc_maxEntries c0"
    and es: "es = List.map_filter (restored_entry L now now' now2) (all_entries c)"
  shows "LoadFromFile L J c0 path now' now2 f' = (Inr (length es), fold put_section es c0)"
proof -
  define recs where "recs = snapshotForPersist L c now"
  define payload where "payload = \<lparr>pf_Version = cachePersistVersion, pf_SavedAt = UnixMilli savedAt,
    pf_EntryCount = length recs, pf_MaxEntries = dc_maxEntries c, pf_Entries = recs\<rparr>"
  have path: "path \<noteq> []" and stored: "map_of (fs_files f') path = Marshal J payload" "Marshal J payload \<noteq> None"
    using assms(2) by (auto simp: SaveToFile_def Let_def payload_def recs_def fs_put_def fs_remove_def update_conv
        split: if_splits option.splits)
  then obtain d where d: "map_of (fs_files f') path = Some d" "Unmarshal J d = Some payload" using assms(1) by auto
  then show ?thesis
    using path d assms(3-6) snapshot_length [of L c now] load_loop_all [of c0 0 recs "dc_maxEntries c0" L now' now2]
    by (simp add: LoadFromFile_def payload_def Let_def es map_filter_concat recs_def snapshotForPersist_def)
qed

text \<open>
  C28. The cache survives a restart: after a successful save, loading the file into a new cache
  of at least the same capacity without exclusion rules succeeds, and every stored answer whose
  grace period has not passed (at saving and, to the millisecond, at loading) is found again
  under its key with the same message and its expiry times truncated to milliseconds.
\<close>

theorem save_load_roundtrip:
  assumes "cache_inv c" and "\<And>p d. Marshal J p = Some d \<Longrightarrow> Unmarshal J d = Some p"
    and "\<And>m raw. Pack L m = Some raw \<Longrightarrow> raw \<noteq> [] \<and> Unpack L raw = Some m"
    and "SaveToFile L J c path now savedAt f = (None, f')" "fs_read_ok f'"
    and "cache_inv c0" "\<And>j. j < NumDNSCacheShards \<Longrightarrow> cache_abs c0 j = []"
    and "\<And>j. j < NumDNSCacheShards \<Longrightarrow> shard_cap c j \<le> shard_cap c0 j"
    and "ex_res (Excluder c0) = []" "int (length (all_entries c)) \<le> dc_maxEntries c0" "0 < dc_maxEntries c0"
    and "cache_lookup c k = Some e" "k \<noteq> []" "Pack L (ce_msg e) \<noteq> None"
    and "now < ce_staleUntil e" "now' < from_UnixMilli (UnixMilli (ce_staleUntil e))"
  shows "\<exists>n c1 e'. LoadFromFile L J c0 path now' now2 f' = (Inr n, c1) \<and> cache_inv c1 \<and>
    cache_lookup c1 k = Some e' \<and> ce_msg e' = ce_msg e \<and>
    ce_expiresAt e' = from_UnixMilli (UnixMilli (ce_expiresAt e)) \<and>
    ce_staleUntil e' = from_UnixMilli (UnixMilli (ce_staleUntil e)) \<and> ce_isNegative e' = ce_isNegative e"
proof -
  define es where "es = List.map_filter (restored_entry L now now' now2) (all_entries c)"
  have load: "LoadFromFile L J c0 path now' now2 f' = (Inr (length es), fold put_section es c0)"
    by (rule load_after_save [OF assms(2,4,5,9-11) es_def])
  have keys: "distinct (map ce_key es)" and cnt: "length (filter (\<lambda>e. shard_index (ce_key e) = j) es) \<le>
      length (filter (\<lambda>e. shard_index (ce_key e) = j) (all_entries c))" for j
    unfolding es_def
    by (rule map_filter_keys [OF restored_entry_key all_entries_distinct [OF assms(1)]], assumption,
        rule map_filter_keys(3) [OF restored_entry_key all_entries_distinct [OF assms(1)]])
  have cap: "length (filter (\<lambda>e. shard_index (ce_key e) = j) es) \<le> shard_cap c0 j" if "j < NumDNSCacheShards" for j
    using cnt [of j] all_entries_in_shard [OF assms(1) that] assms(8) [OF that] by simp
  have P: "cache_abs (fold put_section es c0) j = map view (rev (filter (\<lambda>e. shard_index (ce_key e) = j) es))"
    if "j < NumDNSCacheShards" for j
    using puts_on_empty [OF assms(6) _ keys _ that] assms(7) cap by blast
  obtain x where x: "x \<in> set (all_entries c)" "view x = e" "ce_key x = k"
    using lookup_in_all_entries [OF assms(1,12)] by blast
  have eqs: "ce_msg x = ce_msg e" "ce_staleUntil x = ce_staleUntil e" "ce_expiresAt x = ce_expiresAt e"
    "ce_isNegative x = ce_isNegative e" using x(2) by (auto simp: view_def)
  obtain raw where raw: "Pack L (ce_msg x) = Some raw" using assms(14) eqs by auto
  obtain e' where e': "restored_entry L now now' now2 x = Some e'" "ce_msg e' = ce_msg e"
    "ce_expiresAt e' = from_UnixMilli (UnixMilli (ce_expiresAt e))"
    "ce_staleUntil e' = from_UnixMilli (UnixMilli (ce_staleUntil e))" "ce_isNegative e' = ce_isNegative e"
    using restored_entry_exists [of now x L raw now' now2] assms(3) [OF raw] raw assms(13,15,16) x(3) eqs by auto
  have in_es: "e' \<in> set es" using x(1) e'(1) by (force simp: es_def List.map_filter_def)
  have k': "ce_key e' = k" using restored_entry_key [OF e'(1)] x(3) by simp
  have inv: "cache_inv (fold put_section es c0)" by (rule dc.puts_inv [OF assms(6)])
  have "view e' \<in> set (cache_abs (fold put_section es c0) (shard_index k))"
    using P [OF shard_index_less, of k] in_es k' by auto
  then have "cache_lookup (fold put_section es c0) k = Some (view e')"
    unfolding cache_lookup_def by (rule find_keyed [OF dc.keys_distinct [OF inv]]) (simp add: k')
  moreover have "ce_isNegative (view e') = ce_isNegative e'" by (simp add: view_def)
  ultimately show ?thesis using load inv e' by (intro exI [of _ "length es"] exI [of _ "fold put_section es c0"] exI [of _ "view e'"]) simp
qed

text \<open>A concrete restart with one stored answer of the group \<open>kids\<close>.\<close>

definition sample_codec :: dns_lib where
  "sample_codec = sample_lib\<lparr>Pack := (\<lambda>m. if m = sample_resp then Some [1] else None),
     Unpack := (\<lambda>b. if b = [1] then Some sample_resp else None)\<rparr>"

definition sample_json :: "cachePersistFile json" where
  "sample_json = \<lparr>Marshal = Some, Unmarshal = Some\<rparr>"

definition sample_fs :: "cachePersistFile fs" where
  "sample_fs = \<lparr>fs_files = [], fs_mkdir_ok = True, fs_write = (\<lambda>_. None), fs_rename_ok = True, fs_read_ok = True\<rparr>"

definition sample_entry :: cacheEntry where
  "sample_entry = build_entry DefaultCacheConfig sample_q sample_resp ''kids'' 0 False (120 * second)"

lemma length_all_entries: "length (all_entries c) = entry_count c"
  by (simp add: all_entries_def entry_count_def length_concat comp_def)

lemma sample_count: "length (all_entries (put_section sample_entry sample_cache)) = 1"
proof -
  let ?c = "put_section sample_entry sample_cache" and ?i = "shard_index (ce_key sample_entry)"
  have inv: "cache_inv ?c" by (rule put_section_ok(1) [OF sample_cache_ok(1)])
  have "length (cache_abs ?c i) = (if i = ?i then 1 else 0)" if "i < NumDNSCacheShards" for i
  proof (cases "i = ?i")
    case True
    then show ?thesis using single_entry(2) [of sample_entry] by (simp add: sample_cache_def)
  next
    case False
    then show ?thesis using put_section_ok(2) [OF sample_cache_ok(1) that, of sample_entry] that
      by (simp add: sample_cache_def new_cache_empty)
  qed
  then have "(\<Sum>i < NumDNSCacheShards. length (cache_abs ?c i)) = (\<Sum>i < NumDNSCacheShards. if i = ?i then 1 else 0)"
    by (intro sum.cong) auto
  also have "\<dots> = 1" using shard_index_less by simp
  finally show ?thesis by (simp add: length_all_entries entry_count_abs [OF inv])
qed

lemma sample_stale: "ce_staleUntil sample_entry = 420 * second"
proof -
  have "wrap64 (300 * second) = 300 * second" by (rule wrap64_id) (simp add: second_def)
  then show ?thesis by (simp add: sample_entry_def DefaultCacheConfig_def second_def)
qed

theorem save_load_roundtrip_witness:
  "\<exists>n c1 e'. LoadFromFile sample_codec sample_json sample_cache ''/c'' (9 * second) (9 * second)
      (snd (SaveToFile sample_codec sample_json (put_section sample_entry sample_cache) ''/c'' (5 * second) 0 sample_fs)) = (Inr n, c1) \<and>
    cache_inv c1 \<and> cache_lookup c1 (ce_key sample_entry) = Some e' \<and> ce_msg e' = ce_msg (view sample_entry) \<and>
    ce_expiresAt e' = from_UnixMilli (UnixMilli (ce_expiresAt (view sample_entry))) \<and>
    ce_staleUntil e' = from_UnixMilli (UnixMilli (ce_staleUntil (view sample_entry))) \<and>
    ce_isNegative e' = ce_isNegative (view sample_entry)"
proof (rule save_load_roundtrip)
  show "cache_inv (put_section sample_entry sample_cache)" by (rule put_section_ok(1) [OF sample_cache_ok(1)])
  show "Unmarshal sample_json d = Some p" if "Marshal sample_json p = Some d" for p d
    using that by (simp add: sample_json_def)
  show "raw \<noteq> [] \<and> Unpack sample_codec raw = Some m" if "Pack sample_codec m = Some raw" for m raw
    using that by (auto simp: sample_codec_def split: if_splits)
  show "SaveToFile sample_codec sample_json (put_section sample_entry sample_cache) ''/c'' (5 * second) 0 sample_fs =
    (None, snd (SaveToFile sample_codec sample_json (put_section sample_entry sample_cache) ''/c'' (5 * second) 0 sample_fs))"
    by (simp add: SaveToFile_def sample_json_def sample_fs_def Let_def)
  show "fs_read_ok (snd (SaveToFile sample_codec sample_json (put_section sample_entry sample_cache) ''/c'' (5 * second) 0 sample_fs))"
    by (simp add: SaveToFile_def sample_json_def sample_fs_def Let_def fs_put_def fs_remove_def)
  show "cache_inv sample_cache" by (rule sample_cache_ok(1))
  show "cache_abs sample_cache j = []" if "j < NumDNSCacheShards" for j
    using that by (simp add: sample_cache_def new_cache_empty)
  show "shard_cap (put_section sample_entry sample_cache) j \<le> shard_cap sample_cache j" if "j < NumDNSCacheShards" for j
    using put_section_ok(3) [OF sample_cache_ok(1) that] by simp
  have m: "dc_maxEntries sample_cache = 4096"
    by (simp add: sample_cache_def NewDNSCache_def StartPersistLoop_def Let_def DefaultCacheConfig_def
        NormalizeCacheConfig_def default_if_nonpos_def cache_const_defs split: prod.split)
  show "int (length (all_entries (put_section sample_entry sample_cache))) \<le> dc_maxEntries sample_cache"
    "0 < dc_maxEntries sample_cache" by (simp_all add: sample_count m)
  show "ex_res (Excluder sample_cache) = []"
    by (simp add: sample_cache_def Excluder_def NewDNSCache_def StartPersistLoop_def Let_def NewCacheExcluder_def
        DefaultCacheConfig_def NormalizeCacheConfig_def empty_excluder_def)
  show "cache_lookup (put_section sample_entry sample_cache) (ce_key sample_entry) = Some (view sample_entry)"
    by (rule put_lookup(1) [OF sample_cache_ok(1)])
  show "ce_key sample_entry \<noteq> []" by (simp add: sample_entry_def question_key_def CacheKeyForGroup_def Let_def)
  show "Pack sample_codec (ce_msg (view sample_entry)) \<noteq> None" by (simp add: sample_codec_def sample_entry_def)
  show "5 * second < ce_staleUntil (view sample_entry)"
    "9 * second < from_UnixMilli (UnixMilli (ce_staleUntil (view sample_entry)))"
    by (simp_all add: sample_stale second_def from_UnixMilli_def UnixMilli_def)
qed

lemma normalize_default_group: "normalizeCacheGroup DefaultClientGroupID = DefaultClientGroupID"
  by code_simp

section \<open>Facts: restored entries lose their client group\<close>

text \<open>
  A defect: the saved record has no group field, so a restored entry has none, and the
  prefetcher treats it as an entry of the default group. For an entry of any other group the
  refresh is therefore sent to the default group's resolver and stored under another key than
  the entry's own: the entry it was meant to refresh is not refreshed.
\<close>

theorem restored_prefetch_wrong_key:
  assumes "dns_lib_ok L" "e = build_entry cfg q resp grp t neg ttl"
    and "CHR '':'' \<notin> set (q_Name q)" "normalizeCacheGroup grp \<noteq> DefaultClientGroupID"
    and "restored_entry L now now' now2 e = Some e'" "buildPrefetchRequest L qid e' = Some req"
    and "m_Question req = [q']"
  shows "prefetch_group e' = DefaultClientGroupID \<and> question_key q' (prefetch_group e') \<noteq> ce_key e'"
proof -
  obtain raw where r: "entryFromRecord L (entry_record e raw) now' now2 = Some e'"
    using assms(5) by (auto simp: restored_entry_def snapshot_entry_def split: if_splits option.splits)
  have d: "ce_domain e' = NormalizeCacheDomain (q_Name q)"
    using entryFromRecord_Some(8) [OF r] assms(2) by (simp add: entry_record_def build_entry_def Let_def)
  have g: "prefetch_group e' = DefaultClientGroupID"
    using entryFromRecord_Some(7) [OF r] by (simp add: prefetch_group_def)
  have k: "ce_key e' = question_key q grp" using restored_entry_key [OF assms(5)] assms(2) by simp
  have "q_Name q' = Fqdn L (ce_domain e')" using assms(6,7) by (auto simp: buildPrefetchRequest_def split: if_splits)
  then have "CHR '':'' \<notin> set (q_Name q')"
    using dns_lib_okD(9) [OF assms(1)] NormalizeCacheDomain_no_colon [OF assms(3)] d by simp
  then have "question_key q' DefaultClientGroupID \<noteq> question_key q grp"
    using key_same_group [OF _ assms(3)] assms(4) normalize_default_group unfolding question_key_def by metis
  with g k show ?thesis by simp
qed

theorem restored_prefetch_wrong_key_witness:
  "\<exists>e' q'. restored_entry sample_codec 0 0 0 sample_entry = Some e' \<and>
    prefetch_group e' = DefaultClientGroupID \<and> question_key q' (prefetch_group e') \<noteq> ce_key e'"
proof -
  have "dns_lib_ok sample_codec" using sample_lib_ok by (simp add: dns_lib_ok_def sample_codec_def)
  obtain e' where e': "restored_entry sample_codec 0 0 0 sample_entry = Some e'"
  proof -
    have "\<exists>e'. restored_entry sample_codec 0 0 0 sample_entry = Some e' \<and> ce_msg e' = ce_msg sample_entry \<and>
      ce_expiresAt e' = from_UnixMilli (UnixMilli (ce_expiresAt sample_entry)) \<and>
      ce_staleUntil e' = from_UnixMilli (UnixMilli (ce_staleUntil sample_entry)) \<and>
      ce_isNegative e' = ce_isNegative sample_entry"
      by (rule restored_entry_exists [where raw = "[1]"])
        (simp_all add: sample_stale second_def from_UnixMilli_def UnixMilli_def sample_codec_def,
         simp_all add: sample_entry_def question_key_def CacheKeyForGroup_def Let_def)
    then show thesis using that by blast
  qed
  then obtain raw where r: "entryFromRecord sample_codec (entry_record sample_entry raw) 0 0 = Some e'"
    by (auto simp: restored_entry_def snapshot_entry_def split: if_splits option.splits)
  have "ce_domain e' = ''a.b''"
  proof -
    have "NormalizeCacheDomain (q_Name sample_q) = ''a.b''" by code_simp
    then show ?thesis using entryFromRecord_Some(8) [OF r]
      by (simp add: entry_record_def sample_entry_def build_entry_def Let_def)
  qed
  then obtain req q' where "buildPrefetchRequest sample_codec 0 e' = Some req" "m_Question req = [q']"
    by (simp add: buildPrefetchRequest_def)
  moreover have "CHR '':'' \<notin> set (q_Name sample_q)" by (simp add: sample_q_def)
  moreover have "normalizeCacheGroup ''kids'' \<noteq> DefaultClientGroupID" by code_simp
  ultimately show ?thesis
    using restored_prefetch_wrong_key [OF \<open>dns_lib_ok sample_codec\<close> sample_entry_def _ _ e'] e' by blast
qed

end
