(* ===== verification/Query_Log.thy ===== *)
theory Query_Log
  imports Go_Base "HOL-Library.Multiset" "HOL-Library.Char_ord" "HOL-Library.List_Lexorder"
    "HOL-Library.Product_Lexorder"
begin

text \<open>
  The query history (\<open>querylog/ring.go\<close>, \<open>querylog/types.go\<close>,
  \<open>querylog/reader.go\<close>, \<open>querylog/stats.go\<close>, \<open>querylog/querylog.go\<close>): the ring
  buffer of recent records, searching it, reading log files backwards in blocks, the hourly
  statistics and the facade that combines them. Parameters: the JSON parser of a line
  (\<open>parse\<close>), the start of the local hour of a time stamp (\<open>hourKey\<close>), the day a
  log file belongs to (\<open>fileDate\<close>) and the default log directory. The latency field of a
  record, a floating-point number that is only summed and averaged, is left out.
\<close>

section \<open>Records and queries\<close>

record qrecord =
  qr_Timestamp :: int
  qr_Domain :: string
  qr_QType :: string
  qr_ClientIP :: string
  qr_ClientName :: string
  qr_RCode :: string
  qr_Status :: string
  qr_Cached :: bool
  qr_CacheHit :: string
  qr_Blocked :: bool
  qr_FilterRule :: string
  qr_FilterReason :: string
  qr_Protocol :: string
  qr_Error :: string

definition NormalizeStatus :: "string \<Rightarrow> string" where
  "NormalizeStatus s =
     (let t = to_lower (trim_space s) in
      if t \<in> set [''blocked'', ''cached'', ''stale'', ''error''] then t else ''allowed'')"

record query_log_config =
  qc_Enabled :: bool
  qc_MaxEntries :: int
  qc_FileEnabled :: bool
  qc_RetentionDays :: int
  qc_LogClients :: bool
  qc_DataDir :: string

definition DefaultMaxEntries :: int where "DefaultMaxEntries = 10000"
definition DefaultRetentionDays :: int where "DefaultRetentionDays = 7"
definition MaxSearchLimit :: nat where "MaxSearchLimit = 500"

definition NormalizeQueryLogConfig :: "string \<Rightarrow> query_log_config \<Rightarrow> query_log_config" where
  "NormalizeQueryLogConfig defaultDir c =
     (let m1 = (if qc_MaxEntries c \<le> 0 then DefaultMaxEntries else qc_MaxEntries c);
          m2 = (if m1 > 200000 then 200000 else m1);
          r1 = (if qc_RetentionDays c \<le> 0 then DefaultRetentionDays else qc_RetentionDays c);
          r2 = (if r1 > 365 then 365 else r1)
      in c\<lparr>qc_MaxEntries := m2, qc_RetentionDays := r2,
           qc_DataDir := (if trim_space (qc_DataDir c) = [] then defaultDir else qc_DataDir c)\<rparr>)"

record search_query =
  sq_Domain :: string
  sq_Client :: string
  sq_QType :: string
  sq_RCode :: string
  sq_Status :: string
  sq_StartMs :: int
  sq_EndMs :: int
  sq_Limit :: int
  sq_Offset :: int
  sq_IncludeFile :: bool

definition query_matches :: "search_query \<Rightarrow> qrecord \<Rightarrow> bool" where
  "query_matches q r \<longleftrightarrow>
     \<not> (sq_Domain q \<noteq> [] \<and> \<not> str_contains (to_lower (qr_Domain r)) (to_lower (sq_Domain q))) \<and>
     \<not> (sq_Client q \<noteq> [] \<and> \<not> str_contains (to_lower (qr_ClientIP r)) (to_lower (sq_Client q)) \<and>
        \<not> str_contains (to_lower (qr_ClientName r)) (to_lower (sq_Client q))) \<and>
     \<not> (sq_QType q \<noteq> [] \<and> \<not> equal_fold (qr_QType r) (sq_QType q)) \<and>
     \<not> (sq_RCode q \<noteq> [] \<and> \<not> equal_fold (qr_RCode r) (sq_RCode q)) \<and>
     \<not> (sq_Status q \<noteq> [] \<and> NormalizeStatus (qr_Status r) \<noteq> NormalizeStatus (sq_Status q)) \<and>
     \<not> (sq_StartMs q > 0 \<and> qr_Timestamp r < sq_StartMs q) \<and>
     \<not> (sq_EndMs q > 0 \<and> qr_Timestamp r > sq_EndMs q)"

section \<open>The ring buffer\<close>

text \<open>Unwritten slots of the buffer hold the zero record, which the code never reads.\<close>

record 'r ring =
  rg_buf :: "'r list"
  rg_start :: nat
  rg_size :: nat
  rg_maxSize :: nat
  rg_total :: u64

definition newRing :: "'r \<Rightarrow> int \<Rightarrow> 'r ring" where
  "newRing z maxSize =
     (let n = nat (if maxSize \<le> 0 then DefaultMaxEntries else maxSize)
      in \<lparr>rg_buf = replicate n z, rg_start = 0, rg_size = 0, rg_maxSize = n, rg_total = 0\<rparr>)"

definition ring_append :: "'r \<Rightarrow> 'r ring \<Rightarrow> 'r ring" where
  "ring_append x r =
     (if rg_size r < rg_maxSize r
      then r\<lparr>rg_buf := (rg_buf r)[(rg_start r + rg_size r) mod rg_maxSize r := x],
             rg_size := rg_size r + 1, rg_total := rg_total r + 1\<rparr>
      else r\<lparr>rg_buf := (rg_buf r)[rg_start r := x],
             rg_start := (rg_start r + 1) mod rg_maxSize r, rg_total := rg_total r + 1\<rparr>)"

definition ring_at :: "'r ring \<Rightarrow> nat \<Rightarrow> 'r" where
  "ring_at r i = rg_buf r ! ((rg_start r + i) mod rg_maxSize r)"

definition ring_resize :: "'r \<Rightarrow> int \<Rightarrow> 'r ring \<Rightarrow> 'r ring" where
  "ring_resize z maxSize r =
     (if maxSize \<le> 0 \<or> maxSize = int (rg_maxSize r) then r
      else
       (let n = nat maxSize;
            keep = (if rg_size r > n then n else rg_size r);
            newBuf = map (\<lambda>i. if i < keep then ring_at r (rg_size r - keep + i) else z) [0..<n]
        in r\<lparr>rg_buf := newBuf, rg_start := 0, rg_size := keep, rg_maxSize := n\<rparr>))"

definition ring_clear :: "'r \<Rightarrow> 'r ring \<Rightarrow> 'r ring" where
  "ring_clear z r = r\<lparr>rg_buf := replicate (rg_maxSize r) z, rg_start := 0, rg_size := 0\<rparr>"

text \<open>The backward scan of \<open>searchAll\<close>; the index counts down from the size.\<close>

fun search_down :: "search_query \<Rightarrow> qrecord ring \<Rightarrow> nat \<Rightarrow> qrecord list" where
  "search_down q r 0 = []"
| "search_down q r (Suc i) =
     (let x = ring_at r i in
      if sq_StartMs q > 0 \<and> qr_Timestamp x < sq_StartMs q then []
      else if \<not> query_matches q x then search_down q r i
      else x # search_down q r i)"

definition ring_searchAll :: "search_query \<Rightarrow> qrecord ring \<Rightarrow> qrecord list \<times> nat" where
  "ring_searchAll q r = (let m = search_down q r (rg_size r) in (m, length m))"

definition ring_search :: "search_query \<Rightarrow> qrecord ring \<Rightarrow> qrecord list \<times> nat" where
  "ring_search q r =
     (let (all, total) = ring_searchAll q r;
          all1 = (if sq_Offset q > 0
                  then (if sq_Offset q \<ge> int (length all) then [] else drop (nat (sq_Offset q)) all) else all)
      in (if sq_Limit q > 0 \<and> int (length all1) > sq_Limit q then take (nat (sq_Limit q)) all1 else all1, total))"

definition oldestTimestamp :: "qrecord ring \<Rightarrow> int" where
  "oldestTimestamp r = (if rg_size r = 0 then 0 else qr_Timestamp (ring_at r 0))"

section \<open>Reading log files backwards\<close>

definition newline :: char where "newline = CHR 0x0A"
definition maxLineSize :: nat where "maxLineSize = 65536"
definition readBlockSize :: nat where "readBlockSize = 65536"
definition dayMs :: int where "dayMs = 86400000"

text \<open>
  A callback takes a record and the caller's state and answers whether to go on. \<open>emitLine\<close>
  answers whether to stop.
\<close>

definition emitLine :: "(string \<Rightarrow> 'r option) \<Rightarrow> ('r \<Rightarrow> 's \<Rightarrow> bool \<times> 's) \<Rightarrow> string \<Rightarrow> 's \<Rightarrow> bool \<times> 's" where
  "emitLine parse fn line st =
     (let l = trim_space line in
      if l = [] \<or> length l > maxLineSize then (False, st)
      else case parse l of None \<Rightarrow> (False, st)
        | Some r \<Rightarrow> (let (go, st') = fn r st in (\<not> go, st')))"

fun emit_lines :: "(string \<Rightarrow> 'r option) \<Rightarrow> ('r \<Rightarrow> 's \<Rightarrow> bool \<times> 's) \<Rightarrow> string list \<Rightarrow> 's \<Rightarrow> bool \<times> 's" where
  "emit_lines parse fn [] st = (False, st)"
| "emit_lines parse fn (l # ls) st =
     (let (stop, st') = emitLine parse fn l st in if stop then (True, st') else emit_lines parse fn ls st')"

function read_blocks :: "nat \<Rightarrow> (string \<Rightarrow> 'r option) \<Rightarrow> ('r \<Rightarrow> 's \<Rightarrow> bool \<times> 's) \<Rightarrow> string \<Rightarrow> nat \<Rightarrow> string \<Rightarrow> 's \<Rightarrow>
    bool \<times> string \<times> 's" where
  "read_blocks bs parse fn content pos orphan st =
     (if pos = 0 \<or> bs = 0 then (False, orphan, st)
      else
       (let n = min bs pos;
            block = take n (drop (pos - n) content);
            parts = split_on newline (block @ orphan);
            (stop, st') = emit_lines parse fn (rev (tl parts)) st
        in if stop then (True, hd parts, st')
           else read_blocks bs parse fn content (pos - n) (hd parts) st'))"
  by pat_completeness auto
termination
  by (relation "measure (\<lambda>(bs, parse, fn, content, pos, orphan, st). pos)") auto

declare read_blocks.simps [simp del]

definition readFileReverse ::
  "nat \<Rightarrow> (string \<Rightarrow> 'r option) \<Rightarrow> ('r \<Rightarrow> 's \<Rightarrow> bool \<times> 's) \<Rightarrow> string \<Rightarrow> 's \<Rightarrow> 's" where
  "readFileReverse bs parse fn content st =
     (let (stopped, orphan, st1) = read_blocks bs parse fn content (length content) [] st
      in if \<not> stopped \<and> orphan \<noteq> [] then snd (emitLine parse fn orphan st1) else st1)"

text \<open>
  \<open>searchFilesReverse\<close> in the counting mode that the facade uses: the state is the hits
  collected so far and the number of matches. \<open>files\<close> are path and content, oldest first.
\<close>

definition file_callback :: "search_query \<Rightarrow> nat \<Rightarrow> qrecord \<Rightarrow> qrecord list \<times> nat \<Rightarrow> bool \<times> (qrecord list \<times> nat)" where
  "file_callback q need x = (\<lambda>(hits, total).
     if sq_StartMs q > 0 \<and> qr_Timestamp x < sq_StartMs q then (False, (hits, total))
     else if \<not> query_matches q x then (True, (hits, total))
     else (True, (if length hits \<ge> need then hits else hits @ [x], total + 1)))"

definition search_one_file ::
  "(string \<Rightarrow> qrecord option) \<Rightarrow> (string \<Rightarrow> int) \<Rightarrow> search_query \<Rightarrow> nat \<Rightarrow> string \<times> string \<Rightarrow>
    qrecord list \<times> nat \<Rightarrow> qrecord list \<times> nat" where
  "search_one_file parse fileDate q need = (\<lambda>(path, content) st.
     if sq_StartMs q > 0 \<and> fileDate path > 0 \<and> fileDate path + dayMs \<le> sq_StartMs q then st
     else readFileReverse readBlockSize parse (file_callback q need) content st)"

definition searchFiles ::
  "(string \<Rightarrow> qrecord option) \<Rightarrow> (string \<Rightarrow> int) \<Rightarrow> (string \<times> string) list \<Rightarrow> search_query \<Rightarrow> nat \<Rightarrow> int \<Rightarrow>
    qrecord list \<times> nat" where
  "searchFiles parse fileDate files q memTotal memOldest =
     (let fq = (if memOldest > 0 \<and> (sq_EndMs q = 0 \<or> sq_EndMs q > memOldest)
                then q\<lparr>sq_EndMs := memOldest - 1\<rparr> else q);
          need = nat (sq_Offset q + sq_Limit q - int memTotal)
      in fold (search_one_file parse fileDate fq need) (rev files) ([], 0))"

section \<open>Hourly statistics\<close>

definition statsWindowHours :: int where "statsWindowHours = 24"
definition statsMaxKeysPerHour :: nat where "statsMaxKeysPerHour = 10000"
definition hourMs :: int where "hourMs = 3600000"

record bucket =
  bk_hourMs :: int
  bk_queries :: nat
  bk_blocked :: nat
  bk_cached :: nat
  bk_forwarded :: nat
  bk_errors :: nat
  bk_topDomains :: "(string \<times> nat) list"
  bk_topBlocked :: "(string \<times> nat) list"
  bk_topClients :: "(string \<times> nat) list"

definition newBucket :: "int \<Rightarrow> bucket" where
  "newBucket h = \<lparr>bk_hourMs = h, bk_queries = 0, bk_blocked = 0, bk_cached = 0, bk_forwarded = 0,
     bk_errors = 0, bk_topDomains = [], bk_topBlocked = [], bk_topClients = []\<rparr>"

definition incMap :: "(string \<times> nat) list \<Rightarrow> string \<Rightarrow> (string \<times> nat) list" where
  "incMap m key =
     (if key = [] then m
      else case map_of m key of
          None \<Rightarrow> (if length m \<ge> statsMaxKeysPerHour then m else AList.update key 1 m)
        | Some n \<Rightarrow> AList.update key (n + 1) m)"

type_synonym collector = "(int \<times> bucket) list"

definition evictLocked :: "(int \<Rightarrow> int) \<Rightarrow> int \<Rightarrow> collector \<Rightarrow> collector" where
  "evictLocked hourKey nowMs c =
     (if int (length c) \<le> statsWindowHours + 1 then c
      else (let cutoff = hourKey (nowMs - (statsWindowHours + 1) * hourMs)
            in filter (\<lambda>(k, b). \<not> k < cutoff) c))"

definition bucket_add :: "qrecord \<Rightarrow> bucket \<Rightarrow> bucket" where
  "bucket_add r b =
     (let st = NormalizeStatus (qr_Status r);
          client = (if qr_ClientName r = [] then qr_ClientIP r else qr_ClientName r);
          b1 = b\<lparr>bk_queries := bk_queries b + 1\<rparr>;
          b2 = (if st = ''blocked'' then b1\<lparr>bk_blocked := bk_blocked b1 + 1\<rparr>
                else if st = ''cached'' \<or> st = ''stale'' then b1\<lparr>bk_cached := bk_cached b1 + 1\<rparr>
                else if st = ''error'' then b1\<lparr>bk_errors := bk_errors b1 + 1\<rparr>
                else if \<not> qr_Blocked r then b1\<lparr>bk_forwarded := bk_forwarded b1 + 1\<rparr> else b1);
          b3 = (if qr_Blocked r \<and> st \<noteq> ''blocked'' then b2\<lparr>bk_blocked := bk_blocked b2 + 1\<rparr> else b2)
      in b3\<lparr>bk_topDomains := incMap (bk_topDomains b3) (qr_Domain r),
            bk_topBlocked := (if qr_Blocked r then incMap (bk_topBlocked b3) (qr_Domain r) else bk_topBlocked b3),
            bk_topClients := incMap (bk_topClients b3) client\<rparr>)"

text \<open>The eviction runs after the new bucket is stored and may drop it; the counts still go to it.\<close>

definition collector_Record :: "(int \<Rightarrow> int) \<Rightarrow> int \<Rightarrow> qrecord \<Rightarrow> collector \<Rightarrow> collector" where
  "collector_Record hourKey nowMs r c =
     (if qr_Timestamp r \<le> 0 then c
      else
       (let key = hourKey (qr_Timestamp r) in
        case map_of c key of
          Some b \<Rightarrow> AList.update key (bucket_add r b) c
        | None \<Rightarrow>
            (let c1 = evictLocked hourKey nowMs (AList.update key (newBucket key) c)
             in if map_of c1 key = None then c1 else AList.update key (bucket_add r (newBucket key)) c1)))"

definition windowBuckets :: "(int \<Rightarrow> int) \<Rightarrow> int \<Rightarrow> collector \<Rightarrow> bucket list" where
  "windowBuckets hourKey nowMs c =
     (let cutoff = hourKey (nowMs - (statsWindowHours - 1) * hourMs)
      in map snd (filter (\<lambda>(k, b). k \<ge> cutoff) c))"

record summary =
  su_Queries :: nat
  su_Blocked :: nat
  su_Cached :: nat
  su_Forwarded :: nat
  su_Errors :: nat
  su_CacheHitRate :: "(nat \<times> nat) option"   \<comment> \<open>numerator and denominator; \<open>None\<close> is 0\<close>

definition Summary :: "(int \<Rightarrow> int) \<Rightarrow> int \<Rightarrow> collector \<Rightarrow> summary" where
  "Summary hourKey nowMs c =
     (let bs = windowBuckets hourKey nowMs c;
          q = sum_list (map bk_queries bs); e = sum_list (map bk_errors bs); h = sum_list (map bk_cached bs)
      in \<lparr>su_Queries = q, su_Blocked = sum_list (map bk_blocked bs), su_Cached = h,
          su_Forwarded = sum_list (map bk_forwarded bs), su_Errors = e,
          su_CacheHitRate = (if q > 0 then (if int q - int e > 0 then Some (h, q - e) else Some (h, q)) else None)\<rparr>)"

record hour_point =
  hp_HourMs :: int
  hp_Queries :: nat
  hp_Blocked :: nat
  hp_Cached :: nat

definition PerHour :: "(int \<Rightarrow> int) \<Rightarrow> int \<Rightarrow> collector \<Rightarrow> hour_point list" where
  "PerHour hourKey nowMs c =
     (let byKey = map (\<lambda>b. (bk_hourMs b, b)) (windowBuckets hourKey nowMs c);
          start = hourKey (nowMs - (statsWindowHours - 1) * hourMs)
      in map (\<lambda>i. let key = start + int i * hourMs in
           (case map_of byKey key of
              Some b \<Rightarrow> \<lparr>hp_HourMs = key, hp_Queries = bk_queries b, hp_Blocked = bk_blocked b, hp_Cached = bk_cached b\<rparr>
            | None \<Rightarrow> \<lparr>hp_HourMs = key, hp_Queries = 0, hp_Blocked = 0, hp_Cached = 0\<rparr>)) [0..<24])"

fun agg_counts :: "(string \<times> nat) list \<Rightarrow> (string \<times> nat) list \<Rightarrow> (string \<times> nat) list" where
  "agg_counts [] agg = agg"
| "agg_counts ((k, v) # m) agg =
     agg_counts m (AList.update k ((case map_of agg k of None \<Rightarrow> 0 | Some n \<Rightarrow> n) + v) agg)"

text \<open>Descending counts, ties by name.\<close>

definition topN :: "(int \<Rightarrow> int) \<Rightarrow> int \<Rightarrow> (bucket \<Rightarrow> (string \<times> nat) list) \<Rightarrow> int \<Rightarrow> collector \<Rightarrow> (string \<times> nat) list" where
  "topN hourKey nowMs pick n c =
     (if n \<le> 0 then []
      else take (nat n) (sort_key (\<lambda>(name, cnt). (- int cnt, name))
             (fold (\<lambda>b. agg_counts (pick b)) (windowBuckets hourKey nowMs c) [])))"

section \<open>The facade\<close>

text \<open>
  The asynchronous file writer is seen from the facade: its directory and retention, and the
  bounded queue that records are offered to. What it does with the queue is file output and is
  not modelled; the files it has written are an argument of \<open>Search\<close>.
\<close>

definition writerQueueSize :: nat where "writerQueueSize = 4096"

record log_writer =
  wr_dir :: string
  wr_retentionDays :: int
  wr_ch :: "qrecord list"

record query_log =
  ql_cfg :: query_log_config
  ql_ring :: "qrecord ring"
  ql_collector :: collector
  ql_writer :: "log_writer option"
  ql_fileOK :: bool

definition zero_record :: qrecord where
  "zero_record = \<lparr>qr_Timestamp = 0, qr_Domain = [], qr_QType = [], qr_ClientIP = [], qr_ClientName = [],
     qr_RCode = [], qr_Status = [], qr_Cached = False, qr_CacheHit = [], qr_Blocked = False,
     qr_FilterRule = [], qr_FilterReason = [], qr_Protocol = [], qr_Error = []\<rparr>"

text \<open>\<open>usable dir\<close> tells whether the directory can be created and written to.\<close>

definition newWriter :: "(string \<Rightarrow> bool) \<Rightarrow> string \<Rightarrow> int \<Rightarrow> log_writer option" where
  "newWriter usable dir days =
     (if trim_space dir = [] \<or> \<not> usable dir then None
      else Some \<lparr>wr_dir = dir, wr_retentionDays = days, wr_ch = []\<rparr>)"

definition enqueue :: "qrecord \<Rightarrow> log_writer \<Rightarrow> bool \<times> log_writer" where
  "enqueue r w = (if length (wr_ch w) < writerQueueSize then (True, w\<lparr>wr_ch := wr_ch w @ [r]\<rparr>) else (False, w))"

definition initWriterLocked :: "(string \<Rightarrow> bool) \<Rightarrow> query_log \<Rightarrow> query_log" where
  "initWriterLocked usable q =
     (let q1 = q\<lparr>ql_writer := None, ql_fileOK := False\<rparr> in
      if \<not> qc_FileEnabled (ql_cfg q) then q1
      else case newWriter usable (qc_DataDir (ql_cfg q)) (qc_RetentionDays (ql_cfg q)) of
          None \<Rightarrow> q1
        | Some w \<Rightarrow> q1\<lparr>ql_writer := Some w, ql_fileOK := True\<rparr>)"

definition query_log_New :: "string \<Rightarrow> (string \<Rightarrow> bool) \<Rightarrow> query_log_config \<Rightarrow> query_log" where
  "query_log_New defaultDir usable cfg0 =
     (let cfg = NormalizeQueryLogConfig defaultDir cfg0
      in initWriterLocked usable \<lparr>ql_cfg = cfg, ql_ring = newRing zero_record (qc_MaxEntries cfg),
           ql_collector = [], ql_writer = None, ql_fileOK = False\<rparr>)"

definition prepare_record :: "query_log_config \<Rightarrow> int \<Rightarrow> qrecord \<Rightarrow> qrecord" where
  "prepare_record cfg nowMs r =
     (let r1 = r\<lparr>qr_Status := NormalizeStatus (qr_Status r)\<rparr>;
          r2 = (if qr_Timestamp r1 \<le> 0 then r1\<lparr>qr_Timestamp := nowMs\<rparr> else r1)
      in if \<not> qc_LogClients cfg then r2\<lparr>qr_ClientIP := [], qr_ClientName := []\<rparr> else r2)"

definition query_log_Record :: "(int \<Rightarrow> int) \<Rightarrow> int \<Rightarrow> int \<Rightarrow> qrecord \<Rightarrow> query_log \<Rightarrow> query_log" where
  "query_log_Record hourKey nowMs nowMs2 r0 q =
     (if \<not> qc_Enabled (ql_cfg q) then q
      else
       (let r = prepare_record (ql_cfg q) nowMs r0
        in q\<lparr>ql_ring := ring_append r (ql_ring q),
             ql_collector := collector_Record hourKey nowMs2 r (ql_collector q),
             ql_writer := (if ql_fileOK q then map_option (\<lambda>w. snd (enqueue r w)) (ql_writer q) else ql_writer q)\<rparr>))"

definition query_log_Search ::
  "(string \<Rightarrow> qrecord option) \<Rightarrow> (string \<Rightarrow> int) \<Rightarrow> (string \<times> string) list \<Rightarrow> search_query \<Rightarrow> query_log \<Rightarrow>
    nat \<times> qrecord list" where
  "query_log_Search parse fileDate files sq0 q =
     (let sq1 = (if sq_Limit sq0 \<le> 0 \<or> sq_Limit sq0 > int MaxSearchLimit
                 then sq0\<lparr>sq_Limit := int MaxSearchLimit\<rparr> else sq0);
          sq = (if sq_Offset sq1 < 0 then sq1\<lparr>sq_Offset := 0\<rparr> else sq1);
          (mem, memTotal) = ring_searchAll sq (ql_ring q);
          needFile = (sq_IncludeFile sq \<and> ql_fileOK q \<and> ql_writer q \<noteq> None \<and>
                      int memTotal < sq_Offset sq + sq_Limit sq + 1);
          (fileHits, fileTotal) =
            (if needFile then searchFiles parse fileDate files sq memTotal (oldestTimestamp (ql_ring q)) else ([], 0));
          combined = fileHits @ mem;
          start = min (nat (sq_Offset sq)) (length combined);
          stop = min (start + nat (sq_Limit sq)) (length combined)
      in (memTotal + fileTotal, take (stop - start) (drop start combined)))"

definition query_log_UpdateConfig :: "string \<Rightarrow> (string \<Rightarrow> bool) \<Rightarrow> query_log_config \<Rightarrow> query_log \<Rightarrow> query_log" where
  "query_log_UpdateConfig defaultDir usable cfg0 q =
     (let cfg = NormalizeQueryLogConfig defaultDir cfg0;
          q1 = q\<lparr>ql_cfg := cfg, ql_ring := ring_resize zero_record (qc_MaxEntries cfg) (ql_ring q)\<rparr>;
          needReinit = ((ql_writer q = None) \<noteq> (\<not> qc_FileEnabled cfg) \<or>
             (case ql_writer q of None \<Rightarrow> False | Some w \<Rightarrow> wr_dir w \<noteq> qc_DataDir cfg \<or> wr_retentionDays w \<noteq> qc_RetentionDays cfg))
      in if needReinit then initWriterLocked usable q1 else q1)"

definition query_log_Clear :: "query_log \<Rightarrow> query_log" where
  "query_log_Clear q = q\<lparr>ql_ring := ring_clear zero_record (ql_ring q), ql_collector := []\<rparr>"

definition query_log_Close :: "query_log \<Rightarrow> query_log" where
  "query_log_Close q = q\<lparr>ql_writer := None\<rparr>"

end
