(* ===== verification/Query_Log_Facts.thy ===== *)
theory Query_Log_Facts
  imports Query_Log
begin

text \<open>
  Correctness of the query history: the ring buffer implements a bounded log that keeps the most
  recent records, the search of the ring returns the matching records from newest to oldest, the
  block-wise backward reader of a file is equivalent to splitting the file into lines and going
  through them from the last to the first, and the facade's paging.
\<close>

section \<open>Bounded logs\<close>

definition last_n :: "nat \<Rightarrow> 'a list \<Rightarrow> 'a list" where
  "last_n n xs = drop (length xs - n) xs"

lemma length_last_n [simp]: "length (last_n n xs) = min n (length xs)"
  by (simp add: last_n_def)

lemma last_n_append: "last_n n (last_n n xs @ ys) = last_n n (xs @ ys)"
  by (cases "length xs \<le> n") (auto simp: last_n_def drop_append add.commute)

lemma last_n_all: "length xs \<le> n \<Longrightarrow> last_n n xs = xs"
  by (simp add: last_n_def)

locale bounded_log =
  fixes inv :: "'s \<Rightarrow> bool" and contents :: "'s \<Rightarrow> 'r list" and cap :: "'s \<Rightarrow> nat"
    and app :: "'r \<Rightarrow> 's \<Rightarrow> 's"
  assumes bounded: "inv s \<Longrightarrow> length (contents s) \<le> cap s"
    and app_inv: "inv s \<Longrightarrow> inv (app x s)"
    and app_cap: "inv s \<Longrightarrow> cap (app x s) = cap s"
    and app_contents: "inv s \<Longrightarrow> contents (app x s) = last_n (cap s) (contents s @ [x])"
begin

lemma appends: "inv s \<Longrightarrow> inv (fold app xs s) \<and> cap (fold app xs s) = cap s \<and>
    contents (fold app xs s) = last_n (cap s) (contents s @ xs)"
proof (induction xs arbitrary: s)
  case Nil
  then show ?case using bounded by (simp add: last_n_all)
next
  case (Cons x xs)
  then show ?case using last_n_append [of "cap s" "contents s @ [x]" xs]
    by (simp add: app_inv app_cap app_contents)
qed

lemma newest_kept: "inv s \<Longrightarrow> 0 < cap s \<Longrightarrow> last (contents (app x s)) = x"
  by (simp add: app_contents last_n_def)

end

section \<open>The ring buffer\<close>

definition ring_inv :: "'r ring \<Rightarrow> bool" where
  "ring_inv r \<longleftrightarrow> 0 < rg_maxSize r \<and> length (rg_buf r) = rg_maxSize r \<and> rg_start r < rg_maxSize r \<and>
     rg_size r \<le> rg_maxSize r"

definition ring_contents :: "'r ring \<Rightarrow> 'r list" where
  "ring_contents r = map (ring_at r) [0..<rg_size r]"

lemma length_ring_contents [simp]: "length (ring_contents r) = rg_size r"
  by (simp add: ring_contents_def)

lemma mod_shift_neq:
  assumes "i < j" "j < i + n"
  shows "(s + i) mod n \<noteq> (s + j) mod (n :: nat)"
proof
  assume "(s + i) mod n = (s + j) mod n"
  then have "n dvd (s + j) - (s + i)" using assms(1) mod_eq_dvd_iff_nat [of "s + i" "s + j" n] by simp
  then have "n dvd j - i" by simp
  then have "n \<le> j - i" by (rule dvd_imp_le) (use assms in simp)
  with assms show False by simp
qed

lemma ring_append_inv: "ring_inv r \<Longrightarrow> ring_inv (ring_append x r)"
  by (auto simp: ring_inv_def ring_append_def)

lemma ring_append_contents:
  assumes "ring_inv r"
  shows "ring_contents (ring_append x r) = last_n (rg_maxSize r) (ring_contents r @ [x])"
proof (cases "rg_size r < rg_maxSize r")
  case True
  have "ring_at (ring_append x r) i = (if i < rg_size r then ring_at r i else x)" if "i \<le> rg_size r" for i
  proof (cases "i < rg_size r")
    case i: True
    have "(rg_start r + i) mod rg_maxSize r \<noteq> (rg_start r + rg_size r) mod rg_maxSize r"
      by (rule mod_shift_neq) (use i True in auto)
    with i True show ?thesis by (simp add: ring_at_def ring_append_def nth_list_update)
  next
    case False
    with that have "i = rg_size r" by simp
    with True assms show ?thesis by (simp add: ring_at_def ring_append_def ring_inv_def)
  qed
  then have "ring_contents (ring_append x r) = ring_contents r @ [x]"
    using True by (intro nth_equalityI) (auto simp: ring_contents_def ring_append_def nth_append)
  with True show ?thesis by (simp add: last_n_all)
next
  case False
  with assms have full: "rg_size r = rg_maxSize r" by (simp add: ring_inv_def)
  let ?n = "rg_maxSize r"
  have at: "ring_at (ring_append x r) i = (if Suc i < ?n then ring_at r (Suc i) else x)" if "i < ?n" for i
  proof -
    have idx: "((rg_start r + 1) mod ?n + i) mod ?n = (rg_start r + Suc i) mod ?n"
      by (simp add: mod_add_left_eq)
    show ?thesis
    proof (cases "Suc i < ?n")
      case True
      have "rg_start r mod ?n \<noteq> (rg_start r + Suc i) mod ?n"
        using mod_shift_neq [of 0 "Suc i" ?n "rg_start r"] True by simp
      then show ?thesis using True full assms idx
        by (simp add: ring_at_def ring_append_def ring_inv_def nth_list_update)
    next
      case F: False
      with that have "Suc i = ?n" by simp
      then have "(rg_start r + Suc i) mod ?n = rg_start r" using assms by (simp add: ring_inv_def)
      then show ?thesis using F full assms idx by (simp add: ring_at_def ring_append_def ring_inv_def)
    qed
  qed
  have "ring_contents (ring_append x r) = tl (ring_contents r @ [x])"
  proof (rule nth_equalityI)
    show "length (ring_contents (ring_append x r)) = length (tl (ring_contents r @ [x]))"
      using full by (simp add: ring_append_def)
    fix i assume "i < length (ring_contents (ring_append x r))"
    then have i: "i < ?n" using full by (simp add: ring_append_def)
    then show "ring_contents (ring_append x r) ! i = tl (ring_contents r @ [x]) ! i"
      using full at [OF i] by (auto simp: nth_tl nth_append ring_contents_def ring_append_def)
  qed
  moreover have "ring_contents r \<noteq> []" using full assms by (auto simp: ring_inv_def simp flip: length_greater_0_conv)
  ultimately show ?thesis using full assms by (simp add: last_n_def drop_Suc ring_inv_def)
qed

interpretation rl: bounded_log "ring_inv :: 'r ring \<Rightarrow> bool" ring_contents rg_maxSize ring_append
proof unfold_locales
  fix s :: "'r ring" and x assume i: "ring_inv s"
  show "length (ring_contents s) \<le> rg_maxSize s" using i by (simp add: ring_inv_def)
  show "ring_inv (ring_append x s)" by (rule ring_append_inv [OF i])
  show "rg_maxSize (ring_append x s) = rg_maxSize s" by (simp add: ring_append_def)
  show "ring_contents (ring_append x s) = last_n (rg_maxSize s) (ring_contents s @ [x])"
    by (rule ring_append_contents [OF i])
qed

lemma newRing_inv: "ring_inv (newRing z m)" "ring_contents (newRing z m) = []"
  "rg_maxSize (newRing z m) = nat (if m \<le> 0 then DefaultMaxEntries else m)"
  by (auto simp: ring_inv_def newRing_def ring_contents_def Let_def DefaultMaxEntries_def)

lemma ring_history:
  "ring_inv (fold ring_append xs (newRing z m))"
  "ring_contents (fold ring_append xs (newRing z m)) = last_n (nat (if m \<le> 0 then DefaultMaxEntries else m)) xs"
  using rl.appends [OF newRing_inv(1), of xs z m] by (simp_all add: newRing_inv)

text \<open>
  C29. The ring buffer keeps exactly the most recent records: after any sequence of appends to a
  new ring of capacity \<open>m\<close> it holds the last \<open>m\<close> of them, oldest first.
\<close>

theorem ring_keeps_most_recent:
  "ring_contents (fold ring_append xs (newRing z m)) =
     drop (length xs - nat (if m \<le> 0 then DefaultMaxEntries else m)) xs"
  by (simp add: ring_history last_n_def)

lemma ring_resize_ok:
  assumes "ring_inv r" "0 < m"
  shows "ring_inv (ring_resize z m r) \<and> ring_contents (ring_resize z m r) = last_n (nat m) (ring_contents r)"
proof (cases "m = int (rg_maxSize r)")
  case True
  then show ?thesis using assms by (simp add: ring_resize_def last_n_all ring_inv_def)
next
  case False
  let ?keep = "min (nat m) (rg_size r)"
  have rz: "ring_resize z m r = r\<lparr>rg_buf := map (\<lambda>i. if i < ?keep then ring_at r (rg_size r - ?keep + i) else z) [0..<nat m],
      rg_start := 0, rg_size := ?keep, rg_maxSize := nat m\<rparr>"
  proof -
    have k: "(if rg_size r > nat m then nat m else rg_size r) = ?keep" by simp
    show ?thesis unfolding ring_resize_def Let_def k using False assms(2) by simp
  qed
  have at: "ring_at (ring_resize z m r) i = ring_at r (rg_size r - ?keep + i)" if "i < ?keep" for i
    unfolding rz using that by (simp add: ring_at_def)
  have sz: "rg_size (ring_resize z m r) = ?keep" by (simp add: rz)
  have "ring_contents (ring_resize z m r) = last_n (nat m) (ring_contents r)"
  proof (rule nth_equalityI)
    fix i assume "i < length (ring_contents (ring_resize z m r))"
    then have i: "i < ?keep" by (simp add: sz)
    then show "ring_contents (ring_resize z m r) ! i = last_n (nat m) (ring_contents r) ! i"
      by (cases "nat m < rg_size r") (simp_all add: ring_contents_def [of "ring_resize z m r"] sz at last_n_def ring_contents_def [of r])
  qed (simp add: sz)
  moreover have "ring_inv (ring_resize z m r)" using assms by (auto simp: ring_inv_def rz)
  ultimately show ?thesis by simp
qed

text \<open>
  Changing the capacity at run time keeps the most recent records that fit, in order, and
  the resized ring is again a sound ring.
\<close>

theorem ring_resize_keeps_recent:
  assumes "ring_inv r" "0 < m"
  shows "ring_inv (ring_resize z m r) \<and> ring_contents (ring_resize z m r) = last_n (nat m) (ring_contents r)"
  using ring_resize_ok [OF assms] .

theorem ring_resize_keeps_recent_witness:
  "ring_contents (ring_resize 0 2 (fold ring_append [1, 2, 3, 4, 5 :: nat] (newRing 0 4))) = [4, 5]"
proof -
  have i: "ring_inv (fold ring_append [1, 2, 3, 4, 5 :: nat] (newRing 0 4))"
    by (rule ring_history)
  from ring_resize_keeps_recent [OF i, of 2 0]
  have "ring_contents (ring_resize 0 2 (fold ring_append [1, 2, 3, 4, 5 :: nat] (newRing 0 4))) =
    last_n 2 (ring_contents (fold ring_append [1, 2, 3, 4, 5] (newRing 0 4)))" by simp
  also have "\<dots> = [4, 5]"
    unfolding ring_history by (simp add: last_n_def)
  finally show ?thesis .
qed

section \<open>Searching the ring\<close>

lemma search_down_eq:
  "search_down q r n = filter (query_matches q)
     (takeWhile (\<lambda>x. \<not> (sq_StartMs q > 0 \<and> qr_Timestamp x < sq_StartMs q)) (rev (map (ring_at r) [0..<n])))"
  by (induction n) (auto simp: Let_def)

lemma matches_window: "query_matches q x \<Longrightarrow> \<not> (sq_StartMs q > 0 \<and> qr_Timestamp x < sq_StartMs q)"
  by (simp add: query_matches_def)

lemma filter_takeWhile_sorted:
  assumes "sorted_wrt (\<lambda>x y. t y \<le> (t x :: int)) xs" "\<And>x. P x \<Longrightarrow> \<not> (0 < s \<and> t x < s)"
  shows "filter P (takeWhile (\<lambda>x. \<not> (0 < s \<and> t x < s)) xs) = filter P xs"
  using assms
proof (induction xs)
  case (Cons x xs)
  show ?case
  proof (cases "0 < s \<and> t x < s")
    case True
    then have "\<not> P y" if "y \<in> set (x # xs)" for y using Cons.prems that by fastforce
    then have "filter P (x # xs) = []" by (simp only: filter_empty_conv) blast
    with True show ?thesis by simp
  next
    case False
    with Cons show ?thesis by simp
  qed
qed simp

text \<open>
  Searching the ring finds all and only the matching records, newest first, with their exact
  number, provided the records were appended in the order of their time stamps (the backward scan
  stops at the first record before the requested window).
\<close>

theorem ring_searchAll_exact:
  assumes "sorted (map qr_Timestamp (ring_contents r))"
  shows "ring_searchAll q r =
    (filter (query_matches q) (rev (ring_contents r)), length (filter (query_matches q) (ring_contents r)))"
proof -
  have "sorted_wrt (\<lambda>x y. qr_Timestamp y \<le> qr_Timestamp x) (rev (ring_contents r))"
    using assms by (simp add: sorted_map sorted_wrt_rev)
  then have "search_down q r (rg_size r) = filter (query_matches q) (rev (ring_contents r))"
    unfolding search_down_eq ring_contents_def
    by (rule filter_takeWhile_sorted) (rule matches_window)
  then show ?thesis by (simp add: ring_searchAll_def rev_filter [symmetric])
qed

definition any_query :: search_query where
  "any_query = \<lparr>sq_Domain = [], sq_Client = [], sq_QType = [], sq_RCode = [], sq_Status = [], sq_StartMs = 0,
     sq_EndMs = 0, sq_Limit = 2, sq_Offset = 0, sq_IncludeFile = True\<rparr>"

definition at_time :: "int \<Rightarrow> qrecord" where
  "at_time t = zero_record\<lparr>qr_Timestamp := t, qr_Domain := ''a.''\<rparr>"

theorem ring_searchAll_exact_witness:
  "ring_searchAll (any_query\<lparr>sq_StartMs := 2\<rparr>) (fold ring_append [at_time 1, at_time 2, at_time 3] (newRing zero_record 5)) =
     ([at_time 3, at_time 2], 2)"
proof -
  let ?r = "fold ring_append [at_time 1, at_time 2, at_time 3] (newRing zero_record 5)"
  have c: "ring_contents ?r = [at_time 1, at_time 2, at_time 3]"
    unfolding ring_history by (simp add: last_n_def)
  have "sorted (map qr_Timestamp (ring_contents ?r))" unfolding c by (simp add: at_time_def)
  from ring_searchAll_exact [OF this, of "any_query\<lparr>sq_StartMs := 2\<rparr>", unfolded c] show ?thesis
    by (simp add: query_matches_def any_query_def at_time_def del: fold_simps)
qed

section \<open>Reading backwards\<close>

lemma split_on_append_gen:
  "split_on d (x @ y) = butlast (split_on d x) @ [last (split_on d x) @ hd (split_on d y)] @ tl (split_on d y)"
proof (induction x)
  case Nil
  show ?case by (cases "split_on d y") simp_all
next
  case (Cons c x)
  show ?case
  proof (cases "c = d")
    case True
    with Cons show ?thesis by simp
  next
    case False
    obtain p ps where p: "split_on d x = p # ps" by (cases "split_on d x") simp_all
    with False Cons show ?thesis by (cases ps) auto
  qed
qed

lemma hd_split_no_sep: "d \<notin> set (hd (split_on d s))"
  by (induction s) (auto split: list.splits)

lemma split_on_orphan:
  "split_on d (x @ hd (split_on d y)) @ tl (split_on d y) = split_on d (x @ y)"
  unfolding split_on_append_gen [of d x y] split_on_append_gen [of d x "hd (split_on d y)"]
  by (simp add: split_on_no_sep [OF hd_split_no_sep])

lemma emit_lines_append:
  "emit_lines parse fn (xs @ ys) st =
     (let (stop, st') = emit_lines parse fn xs st in if stop then (True, st') else emit_lines parse fn ys st')"
  by (induction xs arbitrary: st) (auto simp: Let_def split: prod.split)

lemma read_blocks_eq:
  assumes "0 < bs" "pos \<le> length content" "orphan = hd (split_on newline (drop pos content))"
  shows "(case read_blocks bs parse fn content pos orphan st of (stop, o', st') \<Rightarrow>
      if stop then emit_lines parse fn (rev (split_on newline (take pos content @ orphan))) st = (True, st')
      else emit_lines parse fn (rev (split_on newline (take pos content @ orphan))) st = emitLine parse fn o' st')"
  using assms
proof (induction bs parse fn content pos orphan st rule: read_blocks.induct)
  case (1 bs parse fn content pos orphan st)
  have single: "emit_lines parse fn [l] st = emitLine parse fn l st" for l st
    by (cases "emitLine parse fn l st") auto
  show ?case
  proof (cases "pos = 0")
    case True
    have "split_on newline orphan = [orphan]"
      using split_on_no_sep hd_split_no_sep "1.prems"(3) by metis
    moreover have "read_blocks bs parse fn content pos orphan st = (False, orphan, st)"
      by (subst read_blocks.simps) (simp add: True)
    ultimately show ?thesis using True by (simp add: single del: emit_lines.simps)
  next
    case False
    define n where "n = min bs pos"
    define block where "block = take n (drop (pos - n) content)"
    define parts where "parts = split_on newline (block @ orphan)"
    have n: "0 < n" "n \<le> pos" using False "1.prems"(1) by (auto simp: n_def)
    have pre: "take pos content = take (pos - n) content @ block"
      unfolding block_def using n by (metis le_add_diff_inverse2 take_add)
    have tail: "drop (pos - n) content = block @ drop pos content"
      unfolding block_def using n "1.prems"(2)
      by (metis append_take_drop_id drop_drop le_add_diff_inverse)
    have ne: "parts \<noteq> []" by (simp add: parts_def)
    have orphan': "hd parts = hd (split_on newline (drop (pos - n) content))"
      unfolding tail parts_def "1.prems"(3) split_on_orphan [of newline block "drop pos content", symmetric]
      by (simp add: parts_def)
    have whole: "split_on newline (take pos content @ orphan) =
      split_on newline (take (pos - n) content @ hd parts) @ tl parts"
      unfolding pre parts_def by (simp add: split_on_orphan)
    obtain stop st' where e: "emit_lines parse fn (rev (tl parts)) st = (stop, st')" by fastforce
    have rb: "read_blocks bs parse fn content pos orphan st =
      (if stop then (True, hd parts, st') else read_blocks bs parse fn content (pos - n) (hd parts) st')"
      using False "1.prems"(1) e
      by (simp add: read_blocks.simps [of bs parse fn content pos] Let_def flip: n_def block_def parts_def)
    show ?thesis
    proof (cases stop)
      case True
      then show ?thesis using rb e by (simp add: whole emit_lines_append)
    next
      case F: False
      have "case read_blocks bs parse fn content (pos - n) (hd parts) st' of (stop, o', st'') \<Rightarrow>
        if stop then emit_lines parse fn (rev (split_on newline (take (pos - n) content @ hd parts))) st' = (True, st'')
        else emit_lines parse fn (rev (split_on newline (take (pos - n) content @ hd parts))) st' = emitLine parse fn o' st''"
      proof (rule "1.IH" [OF _ n_def block_def parts_def e [symmetric] refl])
        show "\<not> (pos = 0 \<or> bs = 0)" "\<not> stop" "0 < bs" "pos - n \<le> length content"
          using False F "1.prems" by simp_all
      qed (rule orphan')
      moreover have "emit_lines parse fn (rev (split_on newline (take pos content @ orphan))) st =
        emit_lines parse fn (rev (split_on newline (take (pos - n) content @ hd parts))) st'"
        using e F by (simp add: whole emit_lines_append)
      ultimately show ?thesis using F by (simp only: rb if_False)
    qed
  qed
qed

lemma readFileReverse_eq:
  assumes "0 < bs"
  shows "readFileReverse bs parse fn content st = snd (emit_lines parse fn (rev (split_on newline content)) st)"
proof -
  obtain stop o' st' where r: "read_blocks bs parse fn content (length content) [] st = (stop, o', st')"
    by (metis prod_cases3)
  have "if stop then emit_lines parse fn (rev (split_on newline content)) st = (True, st')
    else emit_lines parse fn (rev (split_on newline content)) st = emitLine parse fn o' st'"
    using read_blocks_eq [OF assms, of "length content" content "[]" parse fn st] r by (cases stop) simp_all
  moreover have "emitLine parse fn [] s = (False, s)" for s by (simp add: emitLine_def)
  ultimately show ?thesis using r by (cases "o' = []") (auto simp: readFileReverse_def Let_def split: if_splits)
qed

text \<open>
  Reading a log file backwards in blocks gives the same result as splitting the whole file
  into lines and handing them to the callback from the last line to the first, stopping when it
  asks to stop, for every block size: no line is lost, split or repeated at a block boundary.
\<close>

theorem readFileReverse_lines:
  assumes "0 < bs"
  shows "readFileReverse bs parse fn content st = snd (emit_lines parse fn (rev (split_on newline content)) st)"
  by (rule readFileReverse_eq [OF assms])

theorem readFileReverse_lines_witness:
  "readFileReverse 3 Some (\<lambda>r st. (True, st @ [r])) (''ab'' @ [newline] @ ''cdef'' @ [newline] @ ''g'') [] =
     snd (emit_lines Some (\<lambda>r st. (True, st @ [r])) (rev (split_on newline (''ab'' @ [newline] @ ''cdef'' @ [newline] @ ''g''))) [])"
  by (rule readFileReverse_lines) simp

section \<open>Paging\<close>

text \<open>
  When the search is answered from memory alone, the result is the requested page of the
  matching records, newest first, and the reported total is their number, whatever page is asked
  for.
\<close>

theorem search_memory_page:
  assumes "sorted (map qr_Timestamp (ring_contents (ql_ring q)))" "\<not> sq_IncludeFile sq"
    and "0 < sq_Limit sq" "sq_Limit sq \<le> 500" "0 \<le> sq_Offset sq"
  shows "query_log_Search parse fileDate files sq q =
    (length (filter (query_matches sq) (ring_contents (ql_ring q))),
     take (nat (sq_Limit sq)) (drop (nat (sq_Offset sq)) (filter (query_matches sq) (rev (ring_contents (ql_ring q))))))"
proof -
  let ?m = "filter (query_matches sq) (rev (ring_contents (ql_ring q)))"
  have s: "ring_searchAll sq (ql_ring q) = (?m, length (filter (query_matches sq) (ring_contents (ql_ring q))))"
  proof -
    have "sorted_wrt (\<lambda>x y. qr_Timestamp y \<le> qr_Timestamp x) (rev (ring_contents (ql_ring q)))"
      using assms(1) by (simp add: sorted_map sorted_wrt_rev)
    then have "search_down sq (ql_ring q) (rg_size (ql_ring q)) = ?m"
      unfolding search_down_eq ring_contents_def by (rule filter_takeWhile_sorted) (rule matches_window)
    then show ?thesis by (simp add: ring_searchAll_def rev_filter [symmetric])
  qed
  have page: "take (min (min a (length l) + n) (length l) - min a (length l)) (drop (min a (length l)) l) =
    take n (drop a l)" for a n and l :: "qrecord list"
    by (cases "a \<le> length l") (auto simp: min_def)
  show ?thesis using assms(2-5) s
    by (simp add: query_log_Search_def Let_def MaxSearchLimit_def page not_less)
qed

definition memory_log :: "qrecord list \<Rightarrow> query_log" where
  "memory_log xs = \<lparr>ql_cfg = \<lparr>qc_Enabled = True, qc_MaxEntries = 4, qc_FileEnabled = True, qc_RetentionDays = 7,
       qc_LogClients = True, qc_DataDir = ''/d''\<rparr>,
     ql_ring = fold ring_append xs (newRing zero_record 4), ql_collector = [],
     ql_writer = Some \<lparr>wr_dir = ''/d'', wr_retentionDays = 7, wr_ch = []\<rparr>, ql_fileOK = True\<rparr>"

theorem search_memory_page_witness:
  "query_log_Search (\<lambda>_. None) (\<lambda>_. 0) [] (any_query\<lparr>sq_IncludeFile := False, sq_Offset := 1\<rparr>)
     (memory_log [at_time 1, at_time 2, at_time 3]) = (3, [at_time 2, at_time 1])"
proof -
  have c: "ring_contents (ql_ring (memory_log [at_time 1, at_time 2, at_time 3])) = [at_time 1, at_time 2, at_time 3]"
    unfolding memory_log_def query_log.simps ring_history by (simp add: last_n_def)
  have "sorted (map qr_Timestamp (ring_contents (ql_ring (memory_log [at_time 1, at_time 2, at_time 3]))))"
    unfolding c by (simp add: at_time_def)
  from search_memory_page [OF this, of "any_query\<lparr>sq_IncludeFile := False, sq_Offset := 1\<rparr>" "\<lambda>_. None" "\<lambda>_. 0" "[]"]
  show ?thesis unfolding c by (simp add: any_query_def query_matches_def)
qed

definition digit_parse :: "string \<Rightarrow> qrecord option" where
  "digit_parse l = (if l = ''7'' then Some (at_time 7) else if l = ''8'' then Some (at_time 8)
     else if l = ''9'' then Some (at_time 9) else None)"

text \<open>
  A defect: when files are searched too, the older file hits are placed before the newer
  memory hits, although both lists run from new to old and the page is cut from their
  concatenation. With one record in memory (time 10) and three on disk (times 7, 8, 9), pages of
  two show 9, 10 and then 7, 10: record 10 is shown twice, record 8 never, and no page is in
  descending or consistently ascending order of time.
\<close>

theorem search_pages_overlap:
  "query_log_Search digit_parse (\<lambda>_. 0) [(''f'', ''7'' @ [newline] @ ''8'' @ [newline] @ ''9'')] any_query
     (memory_log [at_time 10]) = (4, [at_time 9, at_time 10]) \<and>
   query_log_Search digit_parse (\<lambda>_. 0) [(''f'', ''7'' @ [newline] @ ''8'' @ [newline] @ ''9'')]
     (any_query\<lparr>sq_Offset := 2\<rparr>) (memory_log [at_time 10]) = (4, [at_time 7, at_time 10])"
proof -
  let ?q = "memory_log [at_time 10]" and ?f = "''7'' @ [newline] @ ''8'' @ [newline] @ ''9''"
  have c: "ring_contents (ql_ring ?q) = [at_time 10]"
    unfolding memory_log_def query_log.simps ring_history by (simp add: last_n_def)
  then have sz: "rg_size (ql_ring ?q) = 1" by (metis length_ring_contents length_Cons list.size(3) One_nat_def)
  have at: "ring_at (ql_ring ?q) 0 = at_time 10" using c sz by (simp add: ring_contents_def)
  have w: "ql_fileOK ?q" "ql_writer ?q \<noteq> None" by (simp_all add: memory_log_def)
  have lines: "split_on newline ?f = [''7'', ''8'', ''9'']" by (simp add: newline_def)
  have trim: "trim_space ''7'' = ''7''" "trim_space ''8'' = ''8''" "trim_space ''9'' = ''9''" by code_simp+
  have reverse: "readFileReverse readBlockSize digit_parse cb ?f st =
    snd (emit_lines digit_parse cb [''9'', ''8'', ''7''] st)" for cb :: "qrecord \<Rightarrow> qrecord list \<times> nat \<Rightarrow> _" and st
    using readFileReverse_eq [of readBlockSize digit_parse cb ?f st] unfolding lines by (simp add: readBlockSize_def)
  define sq where "sq ofs = any_query\<lparr>sq_Offset := ofs\<rparr>" for ofs
  define fq where "fq ofs = (sq ofs)\<lparr>sq_EndMs := 9\<rparr>" for ofs
  have m: "query_matches (sq ofs) (at_time t)" "query_matches (fq ofs) (at_time t) \<longleftrightarrow> t \<le> 9" for ofs t
    by (simp_all add: query_matches_def sq_def fq_def any_query_def at_time_def not_less)
  have start: "sq_StartMs (sq ofs) = 0" "sq_StartMs (fq ofs) = 0" for ofs by (simp_all add: sq_def fq_def any_query_def)
  have emit: "emitLine digit_parse cb [c] st =
      (case digit_parse [c] of None \<Rightarrow> (False, st) | Some r \<Rightarrow> (let (go, st') = cb r st in (\<not> go, st')))"
    if "trim_space [c] = [c]" for c and cb :: "qrecord \<Rightarrow> qrecord list \<times> nat \<Rightarrow> _" and st
    using that by (simp add: emitLine_def maxLineSize_def)
  have files: "searchFiles digit_parse (\<lambda>_. 0) [(''f'', ?f)] (sq ofs) 1 10 =
      (take (nat (ofs + 1)) [at_time 9, at_time 8, at_time 7], 3)" if "ofs = 0 \<or> ofs = 2" for ofs
  proof -
    have "(sq ofs)\<lparr>sq_EndMs := 10 - 1\<rparr> = fq ofs" by (simp add: fq_def)
    moreover have "sq_EndMs (sq ofs) = 0" "sq_Offset (sq ofs) = ofs" "sq_Limit (sq ofs) = 2"
      by (simp_all add: sq_def any_query_def)
    ultimately have "searchFiles digit_parse (\<lambda>_. 0) [(''f'', ?f)] (sq ofs) 1 10 =
        readFileReverse readBlockSize digit_parse (file_callback (fq ofs) (nat (ofs + 1))) ?f ([], 0)"
      by (simp add: searchFiles_def Let_def search_one_file_def start add.commute)
    also have "\<dots> = (take (nat (ofs + 1)) [at_time 9, at_time 8, at_time 7], 3)"
      unfolding reverse using that
      by (auto simp: emit trim digit_parse_def file_callback_def start m)
    finally show ?thesis .
  qed
  have mem: "ring_searchAll (sq ofs) (ql_ring ?q) = ([at_time 10], 1)" for ofs
    by (simp add: ring_searchAll_def sz at start m Let_def)
  have "qr_Timestamp (at_time 10) = 10" by (simp add: at_time_def)
  then have old: "oldestTimestamp (ql_ring ?q) = 10" by (simp add: oldestTimestamp_def sz at)
  have lim: "sq_Limit (sq ofs) = 2" "sq_Offset (sq ofs) = ofs" "sq_IncludeFile (sq ofs)" for ofs
    by (simp_all add: sq_def any_query_def)
  have search: "query_log_Search digit_parse (\<lambda>_. 0) [(''f'', ?f)] (sq ofs) ?q =
      (4, take 2 (drop (nat ofs) (take (nat (ofs + 1)) [at_time 9, at_time 8, at_time 7] @ [at_time 10])))"
    if "ofs = 0 \<or> ofs = 2" for ofs
    using that files [OF that] w
    by (auto simp: query_log_Search_def lim mem old MaxSearchLimit_def Let_def)
  have "any_query = sq 0" "any_query\<lparr>sq_Offset := 2\<rparr> = sq 2" by (simp_all add: sq_def any_query_def)
  then show ?thesis using search [of 0] search [of 2] by simp
qed

section \<open>Statistics and privacy\<close>

lemma incMap_bound: "length m \<le> statsMaxKeysPerHour \<Longrightarrow> length (incMap m k) \<le> statsMaxKeysPerHour"
proof -
  have u: "map_of m k = Some v \<Longrightarrow> length (AList.update k w m) = length m" for v w
    by (induction m) auto
  assume "length m \<le> statsMaxKeysPerHour"
  then show ?thesis
    by (auto simp: incMap_def length_update_absent u split: option.split)
qed

definition bucket_ok :: "bucket \<Rightarrow> bool" where
  "bucket_ok b \<longleftrightarrow> length (bk_topDomains b) \<le> statsMaxKeysPerHour \<and>
     length (bk_topBlocked b) \<le> statsMaxKeysPerHour \<and> length (bk_topClients b) \<le> statsMaxKeysPerHour \<and>
     bk_queries b \<le> bk_blocked b + bk_cached b + bk_forwarded b + bk_errors b"

lemma bucket_add_ok: "bucket_ok b \<Longrightarrow> bucket_ok (bucket_add r b)"
  by (auto simp: bucket_ok_def bucket_add_def Let_def incMap_bound)

lemma newBucket_ok: "bucket_ok (newBucket h)"
  by (simp add: bucket_ok_def newBucket_def)

text \<open>A property of buckets that adding a record keeps holds of all buckets of the collector.\<close>

lemma collector_Record_all:
  assumes "\<And>h. P (newBucket h)" "\<And>b. P b \<Longrightarrow> P (bucket_add r b)" "\<And>k b. (k, b) \<in> set c \<Longrightarrow> P b"
    and "(k, b) \<in> set (collector_Record hourKey now r c)"
  shows "P b"
proof -
  let ?key = "hourKey (qr_Timestamp r)" and ?c = "AList.update (hourKey (qr_Timestamp r)) (newBucket (hourKey (qr_Timestamp r))) c"
  have ev: "set (evictLocked hourKey now m) \<subseteq> set m" for m by (auto simp: evictLocked_def Let_def)
  have 1: "P b'" if "(k', b') \<in> set ?c" for k' b'
    using that set_update_subset [of ?key "newBucket ?key" c] assms(1,3) by auto
  have 2: "P b'" if "(k', b') \<in> set (evictLocked hourKey now ?c)" for k' b' using that ev 1 by blast
  show ?thesis
  proof (cases "qr_Timestamp r \<le> 0")
    case True
    then show ?thesis using assms(3,4) by (simp add: collector_Record_def)
  next
    case False
    show ?thesis
    proof (cases "map_of c ?key")
      case None
      then have "(k, b) \<in> set (evictLocked hourKey now ?c) \<or> b = bucket_add r (newBucket ?key)"
        using False assms(4) set_update_subset [of ?key "bucket_add r (newBucket ?key)" "evictLocked hourKey now ?c"]
        by (auto simp: collector_Record_def Let_def split: if_splits)
      then show ?thesis using 2 assms(1,2) by blast
    next
      case (Some b0)
      then have "(k, b) \<in> set c \<or> b = bucket_add r b0"
        using False assms(4) set_update_subset [of ?key "bucket_add r b0" c]
        by (auto simp: collector_Record_def Let_def)
      then show ?thesis using assms(2,3) map_of_SomeD [OF Some] by blast
    qed
  qed
qed

lemma collector_history_ok:
  assumes "\<And>k b. (k, b) \<in> set c \<Longrightarrow> bucket_ok b"
    and "(k, b) \<in> set (fold (\<lambda>(now, r). collector_Record hourKey now r) h c)"
  shows "bucket_ok b"
  using assms
proof (induction h arbitrary: c)
  case Nil
  then show ?case by simp
next
  case (Cons x h)
  obtain now r where x: "x = (now, r)" by fastforce
  have "bucket_ok b'" if "(k', b') \<in> set (collector_Record hourKey now r c)" for k' b'
    by (rule collector_Record_all [OF newBucket_ok bucket_add_ok Cons.prems(1) that])
  from Cons.IH [OF this] Cons.prems(2) x show ?case by simp
qed

text \<open>
  The statistics stay bounded and account for every query: whatever is recorded, every hourly
  bucket tracks at most 10000 names per ranking, and each counted query is counted in at least
  one of the classes blocked, cached, forwarded and error.
\<close>

theorem collector_bounded:
  "\<forall>(k, b) \<in> set (fold (\<lambda>(now, r). collector_Record hourKey now r) history []). bucket_ok b"
  using collector_history_ok [of "[]"] by auto

theorem collector_bounded_witness:
  "list_all (\<lambda>(k, b). bucket_ok b) (fold (\<lambda>(now, r). collector_Record (\<lambda>ms. ms - ms mod 3600000) now r)
     [(5, at_time 5), (7, at_time 7)] [])"
  unfolding list_all_iff by (rule collector_bounded)

text \<open>
  The privacy switch holds on every path of a record: when client logging is off, the address
  and the name of the client reach neither the ring, nor the ranking of clients, nor the queue of
  the file writer.
\<close>

theorem record_privacy:
  assumes "\<not> qc_LogClients (ql_cfg q)" "ring_inv (ql_ring q)"
    and "\<forall>r \<in> set (ring_contents (ql_ring q)). qr_ClientIP r = [] \<and> qr_ClientName r = []"
    and "\<forall>(k, b) \<in> set (ql_collector q). bk_topClients b = []"
    and "\<forall>w. ql_writer q = Some w \<longrightarrow> (\<forall>r \<in> set (wr_ch w). qr_ClientIP r = [] \<and> qr_ClientName r = [])"
  shows "(\<forall>r \<in> set (ring_contents (ql_ring (query_log_Record hourKey now now2 x q))).
        qr_ClientIP r = [] \<and> qr_ClientName r = []) \<and>
    (\<forall>(k, b) \<in> set (ql_collector (query_log_Record hourKey now now2 x q)). bk_topClients b = []) \<and>
    (\<forall>w. ql_writer (query_log_Record hourKey now now2 x q) = Some w \<longrightarrow>
        (\<forall>r \<in> set (wr_ch w). qr_ClientIP r = [] \<and> qr_ClientName r = []))"
proof (cases "qc_Enabled (ql_cfg q)")
  case False
  then show ?thesis using assms by (simp add: query_log_Record_def)
next
  case True
  let ?r = "prepare_record (ql_cfg q) now x"
  have r: "qr_ClientIP ?r = []" "qr_ClientName ?r = []"
    using assms(1) by (simp_all add: prepare_record_def Let_def)
  have "set (ring_contents (ring_append ?r (ql_ring q))) \<subseteq> insert ?r (set (ring_contents (ql_ring q)))"
    unfolding ring_append_contents [OF assms(2)] last_n_def by (auto dest: in_set_dropD)
  then have 1: "\<forall>r \<in> set (ring_contents (ql_ring (query_log_Record hourKey now now2 x q))).
      qr_ClientIP r = [] \<and> qr_ClientName r = []"
    using True r assms(3) by (auto simp: query_log_Record_def Let_def)
  have cl: "bk_topClients (bucket_add ?r b) = bk_topClients b" for b
    using r by (simp add: bucket_add_def Let_def incMap_def)
  have "bk_topClients b = []" if "(k, b) \<in> set (collector_Record hourKey now2 ?r (ql_collector q))" for k b
    using assms(4)
    by (intro collector_Record_all [where P = "\<lambda>b. bk_topClients b = []", OF _ _ _ that])
      (auto simp: newBucket_def cl)
  then have "\<forall>(k, b) \<in> set (collector_Record hourKey now2 ?r (ql_collector q)). bk_topClients b = []" by auto
  then have 2: "\<forall>(k, b) \<in> set (ql_collector (query_log_Record hourKey now now2 x q)). bk_topClients b = []"
    using True by (simp add: query_log_Record_def Let_def)
  have 3: "\<forall>w. ql_writer (query_log_Record hourKey now now2 x q) = Some w \<longrightarrow>
        (\<forall>r \<in> set (wr_ch w). qr_ClientIP r = [] \<and> qr_ClientName r = [])"
    using True r assms(5) by (auto simp: query_log_Record_def Let_def enqueue_def)
  from 1 2 3 show ?thesis by blast
qed

theorem record_privacy_witness:
  "list_all (\<lambda>r. qr_ClientIP r = [] \<and> qr_ClientName r = [])
     (ring_contents (ql_ring (query_log_Record (\<lambda>ms. ms) 5 5 (zero_record\<lparr>qr_ClientIP := ''10.0.0.9''\<rparr>)
      ((memory_log [])\<lparr>ql_cfg := (ql_cfg (memory_log []))\<lparr>qc_LogClients := False\<rparr>\<rparr>))))"
proof -
  let ?q = "(memory_log [])\<lparr>ql_cfg := (ql_cfg (memory_log []))\<lparr>qc_LogClients := False\<rparr>\<rparr>"
  have a: "\<not> qc_LogClients (ql_cfg ?q)" by simp
  have b: "ring_inv (ql_ring ?q)" by (simp add: memory_log_def newRing_inv)
  have c: "\<forall>r \<in> set (ring_contents (ql_ring ?q)). qr_ClientIP r = [] \<and> qr_ClientName r = []"
    by (simp add: memory_log_def newRing_inv)
  have d: "\<forall>(k, b) \<in> set (ql_collector ?q). bk_topClients b = []" by (simp add: memory_log_def)
  have e: "\<forall>w. ql_writer ?q = Some w \<longrightarrow> (\<forall>r \<in> set (wr_ch w). qr_ClientIP r = [] \<and> qr_ClientName r = [])"
    by (simp add: memory_log_def)
  show ?thesis unfolding list_all_iff by (rule record_privacy [OF a b c d e, THEN conjunct1])
qed

end
