(* ===== verification/Schedule.thy ===== *)
theory Schedule
  imports Go_Base
begin

unbundle bit_operations_syntax

text \<open>
  Blocking schedules (\<open>core/schedule.go\<close>) and their use per built-in service
  (\<open>core/service_schedule.go\<close>). A point of local time is its weekday (0 is Sunday), hour
  and minute. The catalogue of built-in services (\<open>ServiceExists\<close>) is a parameter.
\<close>

section \<open>Schedules\<close>

record clock =
  ck_Weekday :: nat
  ck_Hour :: nat
  ck_Minute :: nat

definition clock_ok :: "clock \<Rightarrow> bool" where
  "clock_ok t \<longleftrightarrow> ck_Weekday t < 7 \<and> ck_Hour t < 24 \<and> ck_Minute t < 60"

definition scheduleWeekdayKeys :: "string list" where
  "scheduleWeekdayKeys = [''sun'', ''mon'', ''tue'', ''wed'', ''thu'', ''fri'', ''sat'']"

definition scheduleAllWeekdays :: u8 where "scheduleAllWeekdays = 0x7F"

record BlockingSchedule =
  bs_ID :: string
  bs_Name :: string
  bs_Enabled :: bool
  bs_Weekdays :: "string list"
  bs_Start :: string
  bs_End :: string
  bs_startMin :: nat
  bs_endMin :: nat
  bs_weekdayMask :: u8

definition parseScheduleClock :: "string \<Rightarrow> nat option" where
  "parseScheduleClock raw =
     (let s = trim_space raw in
      if s = [] then None
      else case split_on CHR '':'' s of
        [h, m] \<Rightarrow>
          (case (Atoi (trim_space h), Atoi (trim_space m)) of
             (Some hour, Some minute) \<Rightarrow>
               (if hour < 0 \<or> hour > 23 \<or> minute < 0 \<or> minute > 59 then None else Some (nat (hour * 60 + minute)))
           | _ \<Rightarrow> None)
      | _ \<Rightarrow> None)"

fun index_of :: "'a \<Rightarrow> 'a list \<Rightarrow> nat option" where
  "index_of x [] = None"
| "index_of x (y # ys) = (if y = x then Some 0 else map_option Suc (index_of x ys))"

fun weekday_mask :: "string list \<Rightarrow> u8 \<Rightarrow> u8 option" where
  "weekday_mask [] wm = Some wm"
| "weekday_mask (raw # days) wm =
     (case index_of (take 3 (to_lower (trim_space raw))) scheduleWeekdayKeys of
        None \<Rightarrow> None
      | Some i \<Rightarrow> weekday_mask days (wm OR push_bit i 1))"

definition parseScheduleWeekdays :: "string list \<Rightarrow> u8 option" where
  "parseScheduleWeekdays days = (if days = [] then Some scheduleAllWeekdays else weekday_mask days 0)"

text \<open>\<open>freshId\<close> is the identifier generated from the clock when none is given.\<close>

definition NormalizeSchedule :: "string \<Rightarrow> BlockingSchedule \<Rightarrow> BlockingSchedule option" where
  "NormalizeSchedule freshId s =
     (let sid = (if trim_space (bs_ID s) = [] then freshId else trim_space (bs_ID s));
          name = (if trim_space (bs_Name s) = [] then sid else trim_space (bs_Name s))
      in case (parseScheduleClock (bs_Start s), parseScheduleClock (bs_End s), parseScheduleWeekdays (bs_Weekdays s)) of
           (Some st, Some en, Some wm) \<Rightarrow>
             Some (s\<lparr>bs_ID := sid, bs_Name := name, bs_startMin := st, bs_endMin := en, bs_weekdayMask := wm\<rparr>)
         | _ \<Rightarrow> None)"

definition on_day :: "u8 \<Rightarrow> nat \<Rightarrow> bool" where
  "on_day wm d \<longleftrightarrow> wm AND push_bit d 1 \<noteq> 0"

definition IsActive :: "BlockingSchedule \<Rightarrow> clock \<Rightarrow> bool" where
  "IsActive s now =
     (if \<not> bs_Enabled s \<or> bs_weekdayMask s = 0 then False
      else if bs_startMin s = bs_endMin s then False
      else
       (let nowMin = ck_Hour now * 60 + ck_Minute now in
        if bs_startMin s < bs_endMin s
        then (if nowMin \<ge> bs_startMin s \<and> nowMin < bs_endMin s
              then on_day (bs_weekdayMask s) (ck_Weekday now) else False)
        else if nowMin \<ge> bs_startMin s then on_day (bs_weekdayMask s) (ck_Weekday now)
        else if nowMin < bs_endMin s then on_day (bs_weekdayMask s) ((ck_Weekday now + 6) mod 7)
        else False))"

definition ActiveSchedule :: "BlockingSchedule list \<Rightarrow> clock \<Rightarrow> bool" where
  "ActiveSchedule ss now = list_ex (\<lambda>s. IsActive s now) ss"

definition HasEnabledSchedule :: "BlockingSchedule list \<Rightarrow> bool" where
  "HasEnabledSchedule ss = list_ex bs_Enabled ss"

definition FirstActiveSchedule :: "BlockingSchedule list \<Rightarrow> clock \<Rightarrow> BlockingSchedule option" where
  "FirstActiveSchedule ss now = find (\<lambda>s. IsActive s now) ss"

section \<open>Service schedules\<close>

definition serviceRuleSourcePrefix :: string where "serviceRuleSourcePrefix = ''service:''"

definition ServiceIDFromSource :: "string \<Rightarrow> string option" where
  "ServiceIDFromSource source =
     (if has_prefix source serviceRuleSourcePrefix
      then (let t = trim_space (trim_prefix source serviceRuleSourcePrefix) in if t = [] then None else Some t)
      else None)"

definition normalize_one_service ::
  "(string \<Rightarrow> bool) \<Rightarrow> string \<Rightarrow> string \<times> BlockingSchedule list \<Rightarrow>
    (string \<times> BlockingSchedule list) list \<Rightarrow> (string \<times> BlockingSchedule list) list" where
  "normalize_one_service ServiceExists freshId = (\<lambda>(sid, schedules) out.
     (let serviceID = trim_space sid in
      if serviceID = [] \<or> \<not> ServiceExists serviceID then out
      else (let compiled = List.map_filter (NormalizeSchedule freshId) schedules
            in if compiled = [] then out else AList.update serviceID compiled out)))"

text \<open>The input is the map's entries in ascending order of their keys.\<close>

definition NormalizeServiceSchedules ::
  "(string \<Rightarrow> bool) \<Rightarrow> string \<Rightarrow> (string \<times> BlockingSchedule list) list \<Rightarrow> (string \<times> BlockingSchedule list) list" where
  "NormalizeServiceSchedules ServiceExists freshId raw = fold (normalize_one_service ServiceExists freshId) raw []"

definition serviceScheduleBlocksAt :: "(string \<times> BlockingSchedule list) list \<Rightarrow> string \<Rightarrow> clock \<Rightarrow> bool" where
  "serviceScheduleBlocksAt cfg source now =
     (if cfg = [] then True
      else case ServiceIDFromSource source of None \<Rightarrow> True | Some sid \<Rightarrow>
        (case map_of cfg sid of None \<Rightarrow> True | Some ss \<Rightarrow>
          (if \<not> HasEnabledSchedule ss then True else ActiveSchedule ss now)))"

record ServiceScheduleState =
  ss_ServiceID :: string
  ss_Active :: bool
  ss_HasSchedule :: bool
  ss_ActiveName :: string

definition ServiceScheduleStates :: "(string \<times> BlockingSchedule list) list \<Rightarrow> clock \<Rightarrow> ServiceScheduleState list" where
  "ServiceScheduleStates cfg now = map (\<lambda>(sid, ss).
     \<lparr>ss_ServiceID = sid, ss_Active = (\<not> HasEnabledSchedule ss \<or> ActiveSchedule ss now),
      ss_HasSchedule = HasEnabledSchedule ss,
      ss_ActiveName = (case FirstActiveSchedule ss now of None \<Rightarrow> [] | Some s \<Rightarrow> bs_Name s)\<rparr>) cfg"

section \<open>Facts\<close>

lemma on_day_bit: "on_day wm d = bit wm d"
  by (simp add: on_day_def push_bit_eq_mult and_exp_eq_0_iff_not_bit)

text \<open>
  The specification: the window of a schedule opens at its start minute on each of its days and
  stays open for the length from start to end, over midnight if need be; times of the week are
  counted in minutes from Sunday midnight, modulo the 10080 minutes of a week.
\<close>

definition week_minute :: "clock \<Rightarrow> int" where
  "week_minute t = int (ck_Weekday t) * 1440 + int (ck_Hour t) * 60 + int (ck_Minute t)"

definition window_covers :: "BlockingSchedule \<Rightarrow> clock \<Rightarrow> nat \<Rightarrow> bool" where
  "window_covers s t d \<longleftrightarrow>
     (week_minute t - (int d * 1440 + int (bs_startMin s))) mod 10080 < (int (bs_endMin s) - int (bs_startMin s)) mod 1440"

lemma week_offset:
  fixes w d :: nat and m st :: int
  assumes "w < 7" "d < 7" "0 \<le> m" "m < 1440" "0 \<le> st" "st < 1440"
  shows "(int w * 1440 + m - (int d * 1440 + st)) mod 10080 =
    (let k = (w + 7 - d) mod 7 in if k = 0 \<and> m < st then 10080 + m - st else int k * 1440 + m - st)"
proof -
  define k where "k = (w + 7 - d) mod 7"
  have k: "k < 7" and "\<exists>q. int w - int d = int k + q * 7"
  proof -
    show "k < 7" by (simp add: k_def)
    have "int (w + 7 - d) = (int w - int d) + 7" using assms(2) by simp
    then have "int k = ((int w - int d) + 7) mod 7" by (simp only: k_def zmod_int) simp
    then have "int k = (int w - int d) mod 7" by simp
    then show "\<exists>q. int w - int d = int k + q * 7" by (intro exI [of _ "(int w - int d) div 7"]) simp
  qed
  then obtain q where q: "int w - int d = int k + q * 7" by blast
  have "int w * 1440 + m - (int d * 1440 + st) = (int k * 1440 + m - st) + q * 10080" using q by algebra
  then have "(int w * 1440 + m - (int d * 1440 + st)) mod 10080 = (int k * 1440 + m - st) mod 10080"
    by (metis mod_mult_self1)
  also have "\<dots> = (if k = 0 \<and> m < st then 10080 + m - st else int k * 1440 + m - st)"
  proof (cases "k = 0 \<and> m < st")
    case True
    have "(m - st + 10080) mod 10080 = m - st + 10080" by (rule mod_pos_pos_trivial) (use True assms in auto)
    then have "(m - st) mod 10080 = m - st + 10080" by (metis mod_add_self2)
    then show ?thesis using True by simp
  next
    case False
    have "0 \<le> int k * 1440 + m - st" "int k * 1440 + m - st < 10080" using False assms k by auto
    then show ?thesis using False by simp
  qed
  finally show ?thesis by (simp add: k_def Let_def)
qed

lemma days_back:
  fixes w d :: nat
  assumes "w < 7" "d < 7"
  shows "(w + 7 - d) mod 7 < 7" "(w + 7 - d) mod 7 = 0 \<longleftrightarrow> d = w" "(w + 7 - d) mod 7 = 1 \<longleftrightarrow> d = (w + 6) mod 7"
proof -
  have kk: "(w + 7 - d) mod 7 = (if d \<le> w then w - d else w + 7 - d)"
  proof (cases "d \<le> w")
    case True
    then have "(w + 7 - d) mod 7 = ((w - d) + 7) mod 7" by (intro arg_cong [where f = "\<lambda>x. x mod 7"]) simp
    also have "\<dots> = w - d" using assms(1) by (simp only: mod_add_self2) simp
    finally show ?thesis using True by simp
  qed (use assms in simp)
  have yy: "(w + 6) mod 7 = (if w = 0 then 6 else w - 1)"
  proof (cases "w = 0")
    case False
    then have "(w + 6) mod 7 = ((w - 1) + 7) mod 7" by (intro arg_cong [where f = "\<lambda>x. x mod 7"]) simp
    also have "\<dots> = w - 1" using assms(1) by (simp only: mod_add_self2) simp
    finally show ?thesis using False by simp
  qed simp
  show "(w + 7 - d) mod 7 < 7" "(w + 7 - d) mod 7 = 0 \<longleftrightarrow> d = w" "(w + 7 - d) mod 7 = 1 \<longleftrightarrow> d = (w + 6) mod 7"
    unfolding yy kk using assms by auto
qed

lemma window_length:
  assumes "st < 1440" "en < 1440"
  shows "(int en - int st) mod 1440 = (if st \<le> en then int en - int st else 1440 + int en - int st)"
proof (cases "st \<le> en")
  case False
  have "(int en - int st + 1440) mod 1440 = int en - int st + 1440"
    by (rule mod_pos_pos_trivial) (use False assms in auto)
  then have "(int en - int st) mod 1440 = int en - int st + 1440" by (metis mod_add_self2)
  then show ?thesis using False by simp
qed (use assms in simp)

text \<open>The window of a day covers a moment of that day, or of the next one when it goes over midnight.\<close>

lemma window_covers_iff:
  assumes "clock_ok t" "bs_startMin s < 1440" "bs_endMin s < 1440" "d < 7"
  shows "window_covers s t d \<longleftrightarrow>
     (let m = ck_Hour t * 60 + ck_Minute t; w = ck_Weekday t in
      if bs_startMin s \<le> bs_endMin s then d = w \<and> bs_startMin s \<le> m \<and> m < bs_endMin s
      else (d = w \<and> bs_startMin s \<le> m) \<or> (d = (w + 6) mod 7 \<and> m < bs_endMin s))"
proof -
  let ?m = "ck_Hour t * 60 + ck_Minute t" and ?st = "bs_startMin s" and ?en = "bs_endMin s" and ?w = "ck_Weekday t"
  have t: "?w < 7" "?m < 1440" using assms(1) by (auto simp: clock_ok_def)
  define k where "k = (?w + 7 - d) mod 7"
  note k = days_back [OF t(1) assms(4), folded k_def]
  have o: "(week_minute t - (int d * 1440 + int ?st)) mod 10080 =
    (if k = 0 \<and> ?m < ?st then 10080 + int ?m - int ?st else int k * 1440 + int ?m - int ?st)"
    using week_offset [OF t(1) assms(4), of "int ?m" "int ?st"] t(2) assms(2) by (simp add: week_minute_def Let_def add.assoc k_def)
  note defs = window_covers_def o window_length [OF assms(2,3)]
  consider "k = 0" | "k = 1" | "2 \<le> k" by linarith
  then show ?thesis
  proof cases
    case 1
    then show ?thesis using k t(2) assms(2,3) unfolding defs Let_def by auto
  next
    case 2
    then show ?thesis using k t(2) assms(2,3) unfolding defs Let_def by auto
  next
    case 3
    then have "2 * 1440 \<le> int k * 1440" by simp
    then show ?thesis using 3 k t(2) assms(2,3) unfolding defs Let_def by auto
  qed
qed

text \<open>
  C33. A compiled schedule is active exactly when the current minute lies in a window that
  opened on one of its days, windows over midnight belonging to the day they start on, and a
  window from a time to the same time being empty.
\<close>

theorem IsActive_window:
  assumes "clock_ok t" "bs_startMin s < 1440" "bs_endMin s < 1440"
  shows "IsActive s t \<longleftrightarrow> bs_Enabled s \<and> (\<exists>d < 7. bit (bs_weekdayMask s) d \<and> window_covers s t d)"
proof -
  let ?m = "ck_Hour t * 60 + ck_Minute t" and ?w = "ck_Weekday t"
  have w: "?w < 7" "(?w + 6) mod 7 < 7" using assms(1) by (auto simp: clock_ok_def)
  note cov = window_covers_iff [OF assms, unfolded Let_def]
  show ?thesis
  proof (cases "bs_startMin s \<le> bs_endMin s")
    case True
    then have "(\<exists>d < 7. bit (bs_weekdayMask s) d \<and> window_covers s t d) \<longleftrightarrow>
      bit (bs_weekdayMask s) ?w \<and> bs_startMin s \<le> ?m \<and> ?m < bs_endMin s" using cov w(1) by auto
    then show ?thesis using True on_day_bit by (auto simp: IsActive_def Let_def)
  next
    case False
    then have "window_covers s t d \<longleftrightarrow> (d = ?w \<and> bs_startMin s \<le> ?m) \<or> (d = (?w + 6) mod 7 \<and> ?m < bs_endMin s)" if "d < 7" for d
      using cov [OF that] by simp
    then have "(\<exists>d < 7. bit (bs_weekdayMask s) d \<and> window_covers s t d) \<longleftrightarrow>
      (bit (bs_weekdayMask s) ?w \<and> bs_startMin s \<le> ?m) \<or> (bit (bs_weekdayMask s) ((?w + 6) mod 7) \<and> ?m < bs_endMin s)"
      using w by metis
    then show ?thesis using False on_day_bit by (auto simp: IsActive_def Let_def)
  qed
qed

theorem IsActive_window_witness:
  "IsActive \<lparr>bs_ID = ''n'', bs_Name = ''night'', bs_Enabled = True, bs_Weekdays = [''fri''], bs_Start = ''22:00'',
      bs_End = ''06:30'', bs_startMin = 1320, bs_endMin = 390, bs_weekdayMask = 32\<rparr>
      \<lparr>ck_Weekday = 6, ck_Hour = 5, ck_Minute = 0\<rparr> =
   (True \<and> (\<exists>d < 7. bit (32 :: u8) d \<and> window_covers \<lparr>bs_ID = ''n'', bs_Name = ''night'', bs_Enabled = True,
      bs_Weekdays = [''fri''], bs_Start = ''22:00'', bs_End = ''06:30'', bs_startMin = 1320, bs_endMin = 390,
      bs_weekdayMask = 32\<rparr> \<lparr>ck_Weekday = 6, ck_Hour = 5, ck_Minute = 0\<rparr> d))"
  using IsActive_window [of "\<lparr>ck_Weekday = 6, ck_Hour = 5, ck_Minute = 0\<rparr>"
      "\<lparr>bs_ID = ''n'', bs_Name = ''night'', bs_Enabled = True, bs_Weekdays = [''fri''], bs_Start = ''22:00'',
      bs_End = ''06:30'', bs_startMin = 1320, bs_endMin = 390, bs_weekdayMask = 32\<rparr>"]
  by (simp add: clock_ok_def)

lemma parseScheduleClock_bound: "parseScheduleClock raw = Some m \<Longrightarrow> m < 1440"
  by (auto simp: parseScheduleClock_def Let_def split: if_splits list.splits option.splits)

lemma set_bit_iff: "bit (wm OR push_bit i 1 :: u8) d \<longleftrightarrow> bit wm d \<or> (d = i \<and> d < 8)"
proof -
  have "push_bit i 1 = (2 ^ i :: u8)" by (simp add: push_bit_eq_mult)
  then show ?thesis by (auto simp: bit_or_iff bit_exp_iff possible_bit_word)
qed

lemma weekday_mask_bits:
  "weekday_mask days wm = Some wm' \<Longrightarrow> bit wm' d \<longleftrightarrow> bit wm d \<or>
     (\<exists>raw \<in> set days. index_of (take 3 (to_lower (trim_space raw))) scheduleWeekdayKeys = Some d \<and> d < 8)"
proof (induction days arbitrary: wm)
  case (Cons raw days)
  then obtain i where i: "index_of (take 3 (to_lower (trim_space raw))) scheduleWeekdayKeys = Some i"
    "weekday_mask days (wm OR push_bit i 1) = Some wm'" by (auto split: option.splits)
  have "bit (wm OR push_bit i 1) d \<longleftrightarrow> bit wm d \<or> (d = i \<and> d < 8)"
    by (rule set_bit_iff)
  with Cons.IH [OF i(2)] i(1) show ?case by auto
qed auto

text \<open>
  Compiling a schedule accepts only well-formed ones and produces sound data: both clock
  times lie within a day, the identifier and the name are not blank when the generated identifier
  is not, and the mask has exactly the bits of the named weekdays (all seven when none is named).
\<close>

theorem NormalizeSchedule_sound:
  assumes "NormalizeSchedule freshId s = Some s'" "freshId \<noteq> []"
  shows "bs_startMin s' < 1440 \<and> bs_endMin s' < 1440 \<and> bs_ID s' \<noteq> [] \<and> bs_Name s' \<noteq> [] \<and>
    (if bs_Weekdays s = [] then bs_weekdayMask s' = 0x7F
     else \<forall>d. bit (bs_weekdayMask s') d \<longleftrightarrow>
       d < 8 \<and> (\<exists>raw \<in> set (bs_Weekdays s). index_of (take 3 (to_lower (trim_space raw))) scheduleWeekdayKeys = Some d))"
proof -
  obtain st en wm where p: "parseScheduleClock (bs_Start s) = Some st" "parseScheduleClock (bs_End s) = Some en"
    "parseScheduleWeekdays (bs_Weekdays s) = Some wm" and
    s': "s' = s\<lparr>bs_ID := (if trim_space (bs_ID s) = [] then freshId else trim_space (bs_ID s)),
      bs_Name := (if trim_space (bs_Name s) = [] then (if trim_space (bs_ID s) = [] then freshId else trim_space (bs_ID s))
        else trim_space (bs_Name s)), bs_startMin := st, bs_endMin := en, bs_weekdayMask := wm\<rparr>"
    using assms(1) by (auto simp: NormalizeSchedule_def Let_def split: option.splits)
  have "if bs_Weekdays s = [] then wm = 0x7F else \<forall>d. bit wm d \<longleftrightarrow>
       d < 8 \<and> (\<exists>raw \<in> set (bs_Weekdays s). index_of (take 3 (to_lower (trim_space raw))) scheduleWeekdayKeys = Some d)"
    using p(3) weekday_mask_bits [of "bs_Weekdays s" 0 wm]
    by (auto simp: parseScheduleWeekdays_def scheduleAllWeekdays_def split: if_splits)
  then show ?thesis using p parseScheduleClock_bound assms(2) by (auto simp: s')
qed

definition sample_schedule :: BlockingSchedule where
  "sample_schedule = \<lparr>bs_ID = [], bs_Name = [], bs_Enabled = True, bs_Weekdays = [''Friday''], bs_Start = ''22:00'',
     bs_End = '' 6:30'', bs_startMin = 0, bs_endMin = 0, bs_weekdayMask = 0\<rparr>"

theorem NormalizeSchedule_sound_witness:
  "\<exists>s'. NormalizeSchedule ''schedule-1'' sample_schedule = Some s' \<and> bs_startMin s' < 1440 \<and> bs_ID s' \<noteq> []"
proof -
  have "NormalizeSchedule ''schedule-1'' sample_schedule \<noteq> None" by code_simp
  then obtain s' where s': "NormalizeSchedule ''schedule-1'' sample_schedule = Some s'" by blast
  with NormalizeSchedule_sound [OF s'] show ?thesis by auto
qed

text \<open>
  A service without an enabled schedule is blocked at all times, like every rule that does
  not belong to a built-in service; otherwise the block applies exactly while a schedule of the
  service is active.
\<close>

theorem service_schedule_gate:
  "serviceScheduleBlocksAt cfg source now \<longleftrightarrow>
     (case ServiceIDFromSource source of None \<Rightarrow> True | Some sid \<Rightarrow>
       (case map_of cfg sid of None \<Rightarrow> True | Some ss \<Rightarrow>
         \<not> list_ex bs_Enabled ss \<or> (\<exists>s \<in> set ss. IsActive s now)))"
  by (cases "cfg = []")
    (auto simp: serviceScheduleBlocksAt_def HasEnabledSchedule_def ActiveSchedule_def list_ex_iff split: option.splits)

end
