(* ===== verification/Client_Policy.thy ===== *)
theory Client_Policy
  imports Go_Net Schedule
begin

text \<open>
  Who may ask and which policy applies: access control (\<open>core/access_control.go\<close>) and
  client groups (\<open>core/client_groups.go\<close>). Error texts are values of a datatype that keeps
  what the message is about.
\<close>

section \<open>Access control\<close>

datatype ip_entry = Single ip | Subnet ip_net

definition parseIPOrCIDR :: "string \<Rightarrow> ip_entry option" where
  "parseIPOrCIDR s =
     (if str_contains s ''/'' then map_option Subnet (ParseCIDR s)
      else if ParseIP s = [] then None
      else Some (Single (norm_ip (ParseIP s))))"

record AccessControlConfig =
  acc_AllowedClients :: "string list"
  acc_BlockedClients :: "string list"

record AccessControl =
  ac_allowedIPs :: "string list"  \<comment> \<open>a set of printed addresses\<close>
  ac_allowedNets :: "ip_net list"
  ac_blockedIPs :: "string list"
  ac_blockedNets :: "ip_net list"
  ac_hasAllowed :: bool

datatype access_error = BadAllowed string | BadBlocked string

fun compile_clients :: "string list \<Rightarrow> string list \<Rightarrow> ip_net list \<Rightarrow> string + (string list \<times> ip_net list)" where
  "compile_clients [] ips nets = Inr (ips, nets)"
| "compile_clients (raw # rest) ips nets =
     (let entry = trim_space raw in
      if entry = [] then compile_clients rest ips nets
      else case parseIPOrCIDR entry of
        None \<Rightarrow> Inl entry
      | Some (Subnet n) \<Rightarrow> compile_clients rest ips (nets @ [n])
      | Some (Single a) \<Rightarrow> compile_clients rest (List.insert (ip_String a) ips) nets)"

definition access_Update :: "AccessControlConfig \<Rightarrow> AccessControl \<Rightarrow> access_error option \<times> AccessControl" where
  "access_Update cfg ac =
     (case compile_clients (acc_AllowedClients cfg) [] [] of
        Inl e \<Rightarrow> (Some (BadAllowed e), ac)
      | Inr (aips, anets) \<Rightarrow>
          (case compile_clients (acc_BlockedClients cfg) [] [] of
             Inl e \<Rightarrow> (Some (BadBlocked e), ac)
           | Inr (bips, bnets) \<Rightarrow>
               (None, \<lparr>ac_allowedIPs = aips, ac_allowedNets = anets, ac_blockedIPs = bips, ac_blockedNets = bnets,
                  ac_hasAllowed = (length aips > 0 \<or> length anets > 0)\<rparr>)))"

definition empty_access :: AccessControl where
  "empty_access = \<lparr>ac_allowedIPs = [], ac_allowedNets = [], ac_blockedIPs = [], ac_blockedNets = [], ac_hasAllowed = False\<rparr>"

definition NewAccessControl :: "AccessControlConfig \<Rightarrow> access_error + AccessControl" where
  "NewAccessControl cfg = (case access_Update cfg empty_access of (Some e, _) \<Rightarrow> Inl e | (None, ac) \<Rightarrow> Inr ac)"

datatype access_reason = NoReason | BlockedIP string | BlockedNet string ip_net | NotAllowed string

definition CheckAccess :: "AccessControl option \<Rightarrow> ip \<Rightarrow> bool \<times> access_reason" where
  "CheckAccess oac a =
     (case oac of None \<Rightarrow> (True, NoReason) | Some ac \<Rightarrow>
       (if a = [] then (True, NoReason)
        else
         (let b = norm_ip a; ipStr = ip_String b in
          if ipStr \<in> set (ac_blockedIPs ac) then (False, BlockedIP ipStr)
          else case find (\<lambda>n. net_Contains n b) (ac_blockedNets ac) of
            Some n \<Rightarrow> (False, BlockedNet ipStr n)
          | None \<Rightarrow>
              (if ac_hasAllowed ac
               then (if ipStr \<in> set (ac_allowedIPs ac) then (True, NoReason)
                     else if list_ex (\<lambda>n. net_Contains n b) (ac_allowedNets ac) then (True, NoReason)
                     else (False, NotAllowed ipStr))
               else (True, NoReason)))))"

section \<open>Client groups\<close>

record ClientGroup =
  cg_ID :: string
  cg_Name :: string
  cg_Enabled :: bool
  cg_Clients :: "string list"
  cg_RuleListIDs :: "string list"
  cg_BlockMode :: string
  cg_UpstreamIDs :: "string list"
  cg_ScheduleEnabled :: bool
  cg_Schedules :: "BlockingSchedule list"
  cg_AllowlistOnly :: bool

record ClientGroupConfig =
  cgc_Enabled :: bool
  cgc_Groups :: "ClientGroup list"

datatype group_problem =
    BadGroupID string
  | BadMember string string
  | DuplicateGroup string
  | BadBlockMode string string
  | BadSchedule string

record groupEntry =
  ge_groupID :: string
  ge_ipNet :: ip_net
  ge_ones :: nat

text \<open>\<open>IPMask.Size\<close>: the length of a mask of leading ones, 0 for any other mask.\<close>

definition mask_Size :: "u8 list \<Rightarrow> nat" where
  "mask_Size m = (case find (\<lambda>n. m = CIDRMask n (8 * length m)) [0..<8 * length m + 1] of None \<Rightarrow> 0 | Some n \<Rightarrow> n)"

definition member_entry :: "string \<Rightarrow> string \<Rightarrow> group_problem + groupEntry" where
  "member_entry gid raw =
     (case parseIPOrCIDR (trim_space raw) of
        None \<Rightarrow> Inl (BadMember gid raw)
      | Some (Subnet n) \<Rightarrow> Inr \<lparr>ge_groupID = gid, ge_ipNet = n, ge_ones = mask_Size (net_Mask n)\<rparr>
      | Some (Single a) \<Rightarrow>
          (let bits = (if To4 a = [] then 128 else 32)
           in Inr \<lparr>ge_groupID = gid, ge_ipNet = \<lparr>net_IP = a, net_Mask = CIDRMask bits bits\<rparr>, ge_ones = bits\<rparr>))"

fun collect_members :: "string \<Rightarrow> string list \<Rightarrow> groupEntry list \<Rightarrow> group_problem list \<Rightarrow> groupEntry list \<times> group_problem list" where
  "collect_members gid [] es ps = (es, ps)"
| "collect_members gid (raw # rest) es ps =
     (case member_entry gid raw of
        Inl p \<Rightarrow> collect_members gid rest es (ps @ [p])
      | Inr e \<Rightarrow> collect_members gid rest (es @ [e]) ps)"

fun collect_groups :: "ClientGroup list \<Rightarrow> groupEntry list \<Rightarrow> group_problem list \<Rightarrow> groupEntry list \<times> group_problem list" where
  "collect_groups [] es ps = (es, ps)"
| "collect_groups (g # gs) es ps =
     (if \<not> cg_Enabled g then collect_groups gs es ps
      else (let gid = trim_space (cg_ID g) in
        if gid = [] \<or> gid = DefaultClientGroupID then collect_groups gs es (ps @ [BadGroupID (cg_Name g)])
        else (let (es', ps') = collect_members gid (cg_Clients g) es ps in collect_groups gs es' ps')))"

definition NewGroupResolver :: "ClientGroupConfig \<Rightarrow> groupEntry list \<times> group_problem list" where
  "NewGroupResolver cfg =
     (if \<not> cgc_Enabled cfg then ([], [])
      else (let (es, ps) = collect_groups (cgc_Groups cfg) [] []
            in (sort_key (\<lambda>e. - int (ge_ones e)) es, ps)))"

definition group_Resolve :: "groupEntry list option \<Rightarrow> ip \<Rightarrow> string" where
  "group_Resolve r a =
     (case r of None \<Rightarrow> DefaultClientGroupID | Some es \<Rightarrow>
       (if a = [] then DefaultClientGroupID
        else case find (\<lambda>e. net_Contains (ge_ipNet e) (norm_ip a)) es of
          Some e \<Rightarrow> ge_groupID e
        | None \<Rightarrow> DefaultClientGroupID))"

definition IsValidBlockMode :: "string \<Rightarrow> bool" where
  "IsValidBlockMode mode = (mode \<in> set [''null_ip'', ''nxdomain'', ''refused''])"

fun normalize_members :: "string \<Rightarrow> string list \<Rightarrow> string list \<Rightarrow> group_problem list \<Rightarrow> string list \<times> group_problem list" where
  "normalize_members gid [] ms ps = (ms, ps)"
| "normalize_members gid (raw # rest) ms ps =
     (let trimmed = trim_space raw in
      if trimmed = [] then normalize_members gid rest ms ps
      else if parseIPOrCIDR trimmed = None then normalize_members gid rest ms (ps @ [BadMember gid trimmed])
      else normalize_members gid rest (ms @ [trimmed]) ps)"

fun dedup_ids :: "string list \<Rightarrow> string list \<Rightarrow> string list" where
  "dedup_ids [] out = out"
| "dedup_ids (raw # rest) out =
     (let i = trim_space raw in if i = [] \<or> i \<in> set out then dedup_ids rest out else dedup_ids rest (out @ [i]))"

fun normalize_schedules ::
  "string \<Rightarrow> string \<Rightarrow> BlockingSchedule list \<Rightarrow> BlockingSchedule list \<Rightarrow> group_problem list \<Rightarrow>
    BlockingSchedule list \<times> group_problem list" where
  "normalize_schedules freshId gid [] out ps = (out, ps)"
| "normalize_schedules freshId gid (s # ss) out ps =
     (case NormalizeSchedule freshId s of
        None \<Rightarrow> normalize_schedules freshId gid ss out (ps @ [BadSchedule gid])
      | Some s' \<Rightarrow> normalize_schedules freshId gid ss (out @ [s']) ps)"

text \<open>The body of the loop for a group that is kept, its identifier and name settled.\<close>

definition normalize_group :: "string \<Rightarrow> ClientGroup \<Rightarrow> group_problem list \<Rightarrow> ClientGroup \<times> group_problem list" where
  "normalize_group freshId g ps =
     (let gid = cg_ID g;
          (members, ps1) = normalize_members gid (cg_Clients g) [] ps;
          ups = (if length (cg_UpstreamIDs g) > 0 then dedup_ids (cg_UpstreamIDs g) [] else cg_UpstreamIDs g);
          badMode = (cg_BlockMode g \<noteq> [] \<and> \<not> IsValidBlockMode (cg_BlockMode g));
          ps2 = (if badMode then ps1 @ [BadBlockMode gid (cg_BlockMode g)] else ps1);
          mode = (if badMode then [] else cg_BlockMode g);
          (scheds, ps3) = normalize_schedules freshId gid (cg_Schedules g) [] ps2;
          on = (if length (cg_Schedules g) > 0 \<and> HasEnabledSchedule scheds then cg_ScheduleEnabled g else False)
      in (g\<lparr>cg_Clients := members, cg_UpstreamIDs := ups, cg_BlockMode := mode, cg_Schedules := scheds,
            cg_ScheduleEnabled := on\<rparr>, ps3))"

fun normalize_groups ::
  "string \<Rightarrow> nat \<Rightarrow> ClientGroup list \<Rightarrow> string list \<Rightarrow> ClientGroup list \<Rightarrow> group_problem list \<Rightarrow>
    ClientGroup list \<times> group_problem list" where
  "normalize_groups freshId i [] seen valid ps = (valid, ps)"
| "normalize_groups freshId i (g0 # gs) seen valid ps =
     (let gid = (if trim_space (cg_ID g0) = [] then ''group-'' @ itoa (i + 1) else trim_space (cg_ID g0)) in
      if gid = DefaultClientGroupID \<or> gid \<in> set seen
      then normalize_groups freshId (i + 1) gs seen valid (ps @ [DuplicateGroup gid])
      else
       (let name = (if trim_space (cg_Name g0) = [] then gid else trim_space (cg_Name g0));
            (g, ps') = normalize_group freshId (g0\<lparr>cg_ID := gid, cg_Name := name\<rparr>) ps
        in normalize_groups freshId (i + 1) gs (gid # seen) (valid @ [g]) ps'))"

definition NormalizeClientGroupConfig :: "string \<Rightarrow> ClientGroupConfig \<Rightarrow> ClientGroupConfig \<times> group_problem list" where
  "NormalizeClientGroupConfig freshId cfg =
     (let (valid, ps) = normalize_groups freshId 0 (cgc_Groups cfg) [] [] [] in (cfg\<lparr>cgc_Groups := valid\<rparr>, ps))"

fun group_upstreams :: "ClientGroup list \<Rightarrow> (string \<times> string list) list \<Rightarrow> (string \<times> string list) list" where
  "group_upstreams [] out = out"
| "group_upstreams (g # gs) out =
     (if \<not> cg_Enabled g \<or> length (cg_UpstreamIDs g) = 0 then group_upstreams gs out
      else (let gid = trim_space (cg_ID g) in
        if gid = [] \<or> gid = DefaultClientGroupID then group_upstreams gs out
        else (let ids = dedup_ids (cg_UpstreamIDs g) [] in
          if ids = [] then group_upstreams gs out else group_upstreams gs (AList.update gid ids out))))"

text \<open>The nil map is the empty one.\<close>

definition GroupUpstreamMap :: "ClientGroupConfig \<Rightarrow> (string \<times> string list) list" where
  "GroupUpstreamMap c = (if \<not> cgc_Enabled c \<or> length (cgc_Groups c) = 0 then [] else group_upstreams (cgc_Groups c) [])"

end
