(* ===== verification/Ip_Text.thy ===== *)
theory Ip_Text
  imports Go_Net
begin

text \<open>
  Printed addresses identify addresses: the text of \<open>IP.String\<close> determines the address up
  to the four-byte and sixteen-byte forms of IPv4. The sources use printed addresses as map keys
  and set members, so this is what makes those tables tables of addresses.
\<close>

definition valid_ip :: "ip \<Rightarrow> bool" where
  "valid_ip a \<longleftrightarrow> length a = 4 \<or> length a = 16"

section \<open>Lengths\<close>

lemma length_all_some: "all_some xs = Some ys \<Longrightarrow> length ys = length xs"
  by (induction xs arbitrary: ys rule: all_some.induct) auto

lemma parse_ipv4_length: "parse_ipv4 s = Some b \<Longrightarrow> length b = 4"
  using length_all_some [of "map parse_octet (split_on CHR ''.'' s)" b]
  by (simp add: parse_ipv4_def Let_def split: if_splits)

lemma parse_ipv6_length: "parse_ipv6 s = Some b \<Longrightarrow> length b = 16"
  by (auto simp: parse_ipv6_def split: option.splits if_splits)

lemma parse_addr_length: "parse_addr s = Some b \<Longrightarrow> length b = 4 \<or> length b = 16"
  using parse_ipv4_length parse_ipv6_length by (auto simp: parse_addr_def split: if_splits)

lemma ParseIP_length: "ParseIP s \<noteq> [] \<Longrightarrow> length (ParseIP s) = 16"
  by (auto simp: ParseIP_def v4_in_v6_prefix_def split: option.splits dest: parse_addr_length)

lemma norm_ip_valid: "valid_ip a \<Longrightarrow> valid_ip (norm_ip a)"
  using To4_length [of a] by (auto simp: norm_ip_def valid_ip_def)

section \<open>Hexadecimal groups\<close>

lemma hex_char_inj: "hex_char m = hex_char n \<Longrightarrow> m mod 16 = n mod 16"
proof -
  have d: "distinct ''0123456789abcdef''" by simp
  assume "hex_char m = hex_char n"
  then show ?thesis
    using nth_eq_iff_index_eq [OF d, of "m mod 16" "n mod 16"]
    by (simp add: hex_char_def del: nth_Cons_numeral)
qed

lemma hex_char_hex: "hex_char n \<in> set ''0123456789abcdef''"
  unfolding hex_char_def by (rule nth_mem) simp

lemma hex_of_not_Nil [simp]: "hex_of n \<noteq> []" "[] \<noteq> hex_of n"
  by (subst hex_of.simps, simp)+

lemma hex_of_chars: "set (hex_of n) \<subseteq> set ''0123456789abcdef''"
proof (induction n rule: hex_of.induct)
  case (1 n)
  then show ?case
    using hex_char_hex [of n] by (subst hex_of.simps) (auto split: if_splits)
qed

lemma hex_of_no_colon [simp]: "CHR '':'' \<notin> set (hex_of n)"
  using hex_of_chars [of n] by auto

lemma hex_of_last: "last (hex_of n) = hex_char n"
  by (subst hex_of.simps) simp

lemma hex_of_inj: "hex_of m = hex_of n \<Longrightarrow> m = n"
proof (induction m arbitrary: n rule: hex_of.induct)
  case (1 m)
  have low: "m mod 16 = n mod 16"
    using "1.prems" hex_of_last hex_char_inj by metis
  have eq: "(if m < 16 then [hex_char m] else hex_of (m div 16) @ [hex_char m]) =
    (if n < 16 then [hex_char n] else hex_of (n div 16) @ [hex_char n])"
    using "1.prems" unfolding hex_of.simps [of m] hex_of.simps [of n] .
  show ?case
  proof (cases "m < 16")
    case True
    with eq have "n < 16" by (auto split: if_splits)
    with True low show ?thesis by simp
  next
    case False
    with eq have n: "\<not> n < 16" by (auto split: if_splits)
    with False eq have "hex_of (m div 16) = hex_of (n div 16)" by simp
    with "1.IH" False have "m div 16 = n div 16" by blast
    with low show ?thesis by (metis div_mult_mod_eq)
  qed
qed

section \<open>Joined groups\<close>

definition parts_ok :: "string list \<Rightarrow> bool" where
  "parts_ok xs \<longleftrightarrow> (\<forall>x \<in> set xs. x \<noteq> [] \<and> CHR '':'' \<notin> set x)"

lemma parts_ok_hex [simp]: "parts_ok (map hex_of gs)"
  by (simp add: parts_ok_def)

lemma parts_ok_Cons [simp]: "parts_ok (x # xs) \<longleftrightarrow> x \<noteq> [] \<and> CHR '':'' \<notin> set x \<and> parts_ok xs"
  by (auto simp: parts_ok_def)

lemma split_join: "parts_ok xs \<Longrightarrow> split_on CHR '':'' (join_colon xs) = (if xs = [] then [[]] else xs)"
  by (induction xs rule: join_colon.induct) (auto simp: split_on_no_sep split_on_append)

lemma split_join_append:
  "parts_ok xs \<Longrightarrow> split_on CHR '':'' (join_colon xs @ CHR '':'' # t) = (if xs = [] then [[]] else xs) @ split_on CHR '':'' t"
  by (induction xs rule: join_colon.induct) (auto simp: split_on_append)

lemma split_ellipsis:
  assumes "parts_ok xs" "parts_ok ys"
  shows "split_on CHR '':'' (join_colon xs @ ''::'' @ join_colon ys) =
    (if xs = [] then [[]] else xs) @ [] # (if ys = [] then [[]] else ys)"
  using split_join_append [OF assms(1), of "CHR '':'' # join_colon ys"] split_join [OF assms(2)] by simp

lemma parts_no_Nil: "parts_ok xs \<Longrightarrow> [] \<notin> set xs"
  by (auto simp: parts_ok_def)

lemma append_Nil_part:
  assumes "[] \<notin> set xs" "[] \<notin> set xs'" "xs @ [] # ys = xs' @ [] # ys'"
  shows "xs = xs' \<and> ys = ys'"
  using assms
proof (induction xs arbitrary: xs')
  case Nil
  then show ?case by (cases xs') auto
next
  case (Cons x xs)
  then show ?case by (cases xs') auto
qed

lemma ellipsis_inj:
  assumes ok: "parts_ok xs" "parts_ok ys" "parts_ok xs'" "parts_ok ys'"
    and eq: "join_colon xs @ ''::'' @ join_colon ys = join_colon xs' @ ''::'' @ join_colon ys'"
  shows "xs = xs' \<and> ys = ys'"
proof -
  let ?b = "\<lambda>zs. if zs = [] then [[]] else zs :: string list"
  have e: "?b xs @ [] # ?b ys = ?b xs' @ [] # ?b ys'"
    using split_ellipsis [OF ok(1,2)] split_ellipsis [OF ok(3,4)] eq by simp
  have inj: "us = vs" if "parts_ok us" "parts_ok vs" "?b us = ?b vs" for us vs
    using that by (cases us; cases vs) auto
  have h: "(if xs = [] then [] else hd xs) = (if xs' = [] then [] else hd xs')"
    using arg_cong [OF e, of hd] by (cases xs; cases xs') simp_all
  have "xs = xs'"
  proof (cases "xs = [] \<or> xs' = []")
    case True
    then show ?thesis using ok(1,3) h by (cases xs; cases xs') auto
  next
    case False
    then show ?thesis using e append_Nil_part [of xs xs' "?b ys" "?b ys'"] parts_no_Nil ok(1,3) by simp
  qed
  moreover from this e have "?b ys = ?b ys'" by (simp only: same_append_eq list.inject)
  ultimately show ?thesis using inj [OF ok(2,4)] by blast
qed

section \<open>The compressed run\<close>

lemma zero_run_spec: "zero_run gs \<le> length gs \<and> (\<forall>i < zero_run gs. gs ! i = 0)"
proof (intro conjI allI impI)
  show "zero_run gs \<le> length gs" by (simp add: zero_run_def length_takeWhile_le)
  fix i assume i: "i < zero_run gs"
  then have "takeWhile (\<lambda>g. g = 0) gs ! i \<in> set (takeWhile (\<lambda>g. g = 0) gs)" by (simp add: zero_run_def)
  then show "gs ! i = 0" using i set_takeWhileD takeWhile_nth by (fastforce simp: zero_run_def)
qed

definition run_ok :: "nat list \<Rightarrow> nat \<times> nat \<Rightarrow> bool" where
  "run_ok gs r \<longleftrightarrow> snd r = 0 \<or> (fst r + snd r \<le> length gs \<and> (\<forall>i < snd r. gs ! (fst r + i) = 0))"

lemma best_run_ok: "length gs = 8 \<Longrightarrow> run_ok gs (best_run gs)"
proof -
  assume len: "length gs = 8"
  have step: "run_ok gs (foldl (\<lambda>(st, ln) i. let r = zero_run (drop i gs)
      in if 2 \<le> r \<and> ln < r then (i, r) else (st, ln)) p is)" if "run_ok gs p" "\<forall>i \<in> set is. i \<le> length gs" for p "is"
    using that
  proof (induction "is" arbitrary: p)
    case (Cons i "is")
    obtain st ln where p: "p = (st, ln)" by fastforce
    let ?q = "let r = zero_run (drop i gs) in if 2 \<le> r \<and> ln < r then (i, r) else (st, ln)"
    have "run_ok gs ?q"
      using Cons.prems zero_run_spec [of "drop i gs"] unfolding p Let_def
      by (auto simp: run_ok_def)
    then show ?case using Cons.IH [of ?q] Cons.prems by (simp add: p)
  qed simp
  show ?thesis unfolding best_run_def by (rule step) (auto simp: run_ok_def len)
qed

lemma run_decompose:
  assumes "run_ok gs (st, ln)" "ln \<noteq> 0"
  shows "gs = take st gs @ replicate ln 0 @ drop (st + ln) gs"
proof -
  have r: "st + ln \<le> length gs" "\<And>i. i < ln \<Longrightarrow> gs ! (st + i) = 0" using assms by (auto simp: run_ok_def)
  then have "take ln (drop st gs) = replicate ln 0" by (intro nth_equalityI) (auto simp: nth_append)
  then have "drop st gs = replicate ln 0 @ drop (st + ln) gs"
    by (metis append_take_drop_id drop_drop add.commute)
  then show ?thesis by (metis append_take_drop_id)
qed

section \<open>Injectivity\<close>

lemma length_groups_of [simp]: "length (groups_of a) = 8"
  by (simp add: groups_of_def)

lemma ipv6_string_groups:
  assumes "ipv6_string a = ipv6_string b"
  shows "groups_of a = groups_of b"
proof -
  let ?A = "groups_of a" and ?B = "groups_of b"
  obtain s l s' l' where r: "best_run ?A = (s, l)" "best_run ?B = (s', l')" by (meson surj_pair)
  have ok: "run_ok ?A (s, l)" "run_ok ?B (s', l')"
    using best_run_ok [of ?A] best_run_ok [of ?B] r by simp_all
  let ?j = "\<lambda>gs. join_colon (map hex_of gs)"
  have hexinj: "map hex_of us = map hex_of vs \<Longrightarrow> us = vs" for us vs
    by (rule map_injective [of hex_of]) (auto intro: injI hex_of_inj)
  have plain: "split_on CHR '':'' (?j ?A) = map hex_of ?A" "split_on CHR '':'' (?j ?B) = map hex_of ?B"
    using split_join [OF parts_ok_hex, of ?A] split_join [OF parts_ok_hex, of ?B] length_groups_of
    by (metis length_0_conv map_is_Nil_conv zero_neq_numeral)+
  have nil: "[] \<notin> set (map hex_of us)" for us by (rule parts_no_Nil) simp
  have comp: "[] \<in> set (split_on CHR '':'' (?j us @ ''::'' @ ?j vs))" for us vs
    by (subst split_ellipsis) simp_all
  consider "l = 0" "l' = 0" | "l = 0" "l' \<noteq> 0" | "l \<noteq> 0" "l' = 0" | "l \<noteq> 0" "l' \<noteq> 0" by blast
  then show ?thesis
  proof cases
    case 1
    then have "?j ?A = ?j ?B" using assms r by (simp add: ipv6_string_def)
    then show ?thesis using plain hexinj by metis
  next
    case 2
    then have "?j ?A = ?j (take s' ?B) @ ''::'' @ ?j (drop (s' + l') ?B)" using assms r by (simp add: ipv6_string_def Let_def)
    then show ?thesis using plain(1) comp nil by metis
  next
    case 3
    then have "?j (take s ?A) @ ''::'' @ ?j (drop (s + l) ?A) = ?j ?B" using assms r by (simp add: ipv6_string_def Let_def)
    then show ?thesis using plain(2) comp nil by metis
  next
    case 4
    then have "?j (take s ?A) @ ''::'' @ ?j (drop (s + l) ?A) = ?j (take s' ?B) @ ''::'' @ ?j (drop (s' + l') ?B)"
      using assms r by (simp add: ipv6_string_def Let_def)
    then have t: "take s ?A = take s' ?B" "drop (s + l) ?A = drop (s' + l') ?B"
      using ellipsis_inj [OF parts_ok_hex parts_ok_hex parts_ok_hex parts_ok_hex] hexinj by blast+
    have d: "?A = take s ?A @ replicate l 0 @ drop (s + l) ?A" "?B = take s' ?B @ replicate l' 0 @ drop (s' + l') ?B"
      using run_decompose ok 4 by blast+
    have "length (take s ?A @ replicate l 0 @ drop (s + l) ?A) = length (take s' ?B @ replicate l' 0 @ drop (s' + l') ?B)"
      using d by (metis length_groups_of)
    then have "l = l'" using t by simp
    with d t show ?thesis by simp
  qed
qed

lemma byte_pair_inj: "unat (a :: u8) * 256 + unat (b :: u8) = unat (c :: u8) * 256 + unat (d :: u8) \<Longrightarrow> a = c \<and> b = d"
proof -
  assume eq: "unat a * 256 + unat b = unat c * 256 + unat d"
  have "unat x < 2 ^ LENGTH(8)" for x :: u8 by (rule unsigned_less)
  then have "unat b < 256" "unat d < 256" by simp_all
  then have "unat a = unat c" using eq by linarith
  with eq have "unat a = unat c" "unat b = unat d" by linarith+
  then show ?thesis by (simp add: word_unat_eq_iff)
qed

lemma groups_of_inj:
  assumes "length a = 16" "length b = 16" "groups_of a = groups_of b"
  shows "a = b"
proof (rule nth_equalityI)
  show "length a = length b" using assms by simp
  fix k assume "k < length a"
  then have k: "k div 2 < 8" using assms(1) by simp
  then have "groups_of a ! (k div 2) = groups_of b ! (k div 2)" using assms(3) by simp
  then have "a ! (2 * (k div 2)) = b ! (2 * (k div 2)) \<and> a ! (2 * (k div 2) + 1) = b ! (2 * (k div 2) + 1)"
    using k by (simp add: groups_of_def byte_pair_inj del: upt_Suc)
  moreover have "k = 2 * (k div 2) \<or> k = 2 * (k div 2) + 1" by presburger
  ultimately show "a ! k = b ! k" by metis
qed

lemma itoa_no_dot: "CHR ''.'' \<notin> set (itoa n)"
  using itoa_digits [of n] by auto

lemma dotted_inj:
  assumes "length a = 4" "length b = 4" "dotted a = dotted b"
  shows "a = b"
proof -
  have sp: "split_on CHR ''.'' (dotted c) = map (\<lambda>i. itoa (unat (c ! i))) [0, 1, 2, 3]" for c :: ip
    unfolding dotted_def by (simp add: split_on_append split_on_no_sep itoa_no_dot)
  have "map (\<lambda>i. itoa (unat (a ! i))) [0, 1, 2, 3] = map (\<lambda>i. itoa (unat (b ! i))) [0, 1, 2, 3]"
    using sp assms(3) by metis
  then have e: "\<forall>i \<in> {0, 1, 2, 3}. a ! i = b ! i" by (auto dest!: itoa_inj simp: word_unat_eq_iff)
  have "a ! i = b ! i" if "i < 4" for i
  proof -
    have "i \<in> {0, 1, 2, 3}" using that by auto
    with e show ?thesis by blast
  qed
  then show ?thesis by (intro nth_equalityI) (simp_all add: assms(1,2))
qed

lemma dotted_no_colon: "CHR '':'' \<notin> set (dotted a)"
  by (simp add: dotted_def itoa_no_colon)

lemma ipv6_string_colon: "CHR '':'' \<in> set (ipv6_string a)"
proof (rule ccontr)
  assume n: "CHR '':'' \<notin> set (ipv6_string a)"
  obtain s l where r: "best_run (groups_of a) = (s, l)" by fastforce
  have "l = 0" using n r by (cases "l = 0") (simp_all add: ipv6_string_def Let_def)
  then have "ipv6_string a = join_colon (map hex_of (groups_of a))" using r by (simp add: ipv6_string_def)
  then have "split_on CHR '':'' (join_colon (map hex_of (groups_of a))) = [join_colon (map hex_of (groups_of a))]"
    using n by (simp add: split_on_no_sep)
  moreover have "split_on CHR '':'' (join_colon (map hex_of (groups_of a))) = map hex_of (groups_of a)"
    using split_join [OF parts_ok_hex, of "groups_of a"] length_groups_of
    by (metis length_0_conv map_is_Nil_conv zero_neq_numeral)
  ultimately show False using length_groups_of [of a]
    by (metis One_nat_def length_Cons length_map list.size(3) numeral_eq_one_iff semiring_norm(83))
qed

lemma ip_String_valid:
  "valid_ip a \<Longrightarrow> ip_String a = (if To4 a \<noteq> [] then dotted (To4 a) else ipv6_string a)"
proof -
  assume v: "valid_ip a"
  then have "a \<noteq> []" by (auto simp: valid_ip_def)
  moreover have "length a = 16" if "To4 a = []" using that v by (cases "length a = 4") (auto simp: valid_ip_def To4_def)
  ultimately show ?thesis by (simp add: ip_String_def)
qed

lemma ip_String_inj:
  assumes "valid_ip a" "valid_ip b"
  shows "ip_String a = ip_String b \<longleftrightarrow> norm_ip a = norm_ip b"
proof
  assume s: "ip_String a = ip_String b"
  have v6: "length c = 16" if "valid_ip c" "To4 c = []" for c
    using that by (cases "length c = 4") (auto simp: valid_ip_def To4_def)
  show "norm_ip a = norm_ip b"
  proof (cases "To4 a = []"; cases "To4 b = []")
    assume n: "To4 a = []" "To4 b = []"
    then have "ipv6_string a = ipv6_string b" using s assms by (simp add: ip_String_valid)
    then have "a = b" by (rule groups_of_inj [OF v6 [OF assms(1) n(1)] v6 [OF assms(2) n(2)] ipv6_string_groups])
    then show ?thesis by simp
  next
    assume n: "To4 a \<noteq> []" "To4 b \<noteq> []"
    then have "dotted (To4 a) = dotted (To4 b)" using s assms by (simp add: ip_String_valid)
    then have "To4 a = To4 b" by (rule dotted_inj [OF To4_length [OF n(1)] To4_length [OF n(2)]])
    then show ?thesis using n by (simp add: norm_ip_def)
  next
    assume "To4 a = []" "To4 b \<noteq> []"
    then show ?thesis using s assms ipv6_string_colon [of a] dotted_no_colon [of "To4 b"] by (simp add: ip_String_valid)
  next
    assume "To4 a \<noteq> []" "To4 b = []"
    then show ?thesis using s assms ipv6_string_colon [of b] dotted_no_colon [of "To4 a"] by (simp add: ip_String_valid)
  qed
next
  assume "norm_ip a = norm_ip b"
  then show "ip_String a = ip_String b" by (metis ip_String_norm_ip)
qed

end
