(* ===== verification/Longest_Match.thy ===== *)
theory Longest_Match
  imports Main
begin

text \<open>
  The contract of a table that answers with its most specific matching candidate. Two components
  promise it: the client-group resolver (longest network prefix) and the conditional router
  (longest domain suffix). What their users rely on is proved here once.
\<close>

locale longest_match =
  fixes cands :: "'s \<Rightarrow> 'c set"
    and matches :: "'k \<Rightarrow> 'c \<Rightarrow> bool"
    and rank :: "'c \<Rightarrow> nat"
    and lookup :: "'s \<Rightarrow> 'k \<Rightarrow> 'c option"
  assumes lookup_sound: "lookup s k = Some c \<Longrightarrow> c \<in> cands s \<and> matches k c"
    and lookup_best: "lookup s k = Some c \<Longrightarrow> c' \<in> cands s \<Longrightarrow> matches k c' \<Longrightarrow> rank c' \<le> rank c"
    and lookup_complete: "c \<in> cands s \<Longrightarrow> matches k c \<Longrightarrow> lookup s k \<noteq> None"
begin

lemma lookup_None_iff: "lookup s k = None \<longleftrightarrow> (\<forall>c \<in> cands s. \<not> matches k c)"
  using lookup_complete lookup_sound by (cases "lookup s k") blast+

lemma lookup_unique:
  assumes "c \<in> cands s" "matches k c"
    and "\<And>c'. c' \<in> cands s \<Longrightarrow> matches k c' \<Longrightarrow> c' \<noteq> c \<Longrightarrow> rank c' < rank c"
  shows "lookup s k = Some c"
proof -
  obtain d where d: "lookup s k = Some d" using lookup_complete [OF assms(1,2)] by blast
  have "rank c \<le> rank d" using lookup_best [OF d assms(1,2)] .
  then have "d = c" using assms(3) lookup_sound [OF d] by (metis leD)
  with d show ?thesis by simp
qed

lemma lookup_local:
  assumes "\<And>c. matches k c \<Longrightarrow> c \<in> cands s \<longleftrightarrow> c \<in> cands s'"
    and "\<And>c c'. c \<in> cands s \<Longrightarrow> c' \<in> cands s \<Longrightarrow> matches k c \<Longrightarrow> matches k c' \<Longrightarrow> rank c = rank c' \<Longrightarrow> c = c'"
  shows "lookup s k = lookup s' k"
proof (cases "lookup s k")
  case None
  then show ?thesis using assms(1) lookup_None_iff by metis
next
  case (Some c)
  have c: "c \<in> cands s'" "matches k c" using lookup_sound [OF Some] assms(1) by auto
  have "rank c' < rank c" if "c' \<in> cands s'" "matches k c'" "c' \<noteq> c" for c'
  proof -
    have "c' \<in> cands s" using that assms(1) by blast
    then have "rank c' \<le> rank c" "rank c' \<noteq> rank c"
      using lookup_best [OF Some] that assms(2) lookup_sound [OF Some] by blast+
    then show ?thesis by simp
  qed
  then have "lookup s' k = Some c" by (rule lookup_unique [OF c])
  with Some show ?thesis by simp
qed

end

section \<open>Searching a list sorted by rank\<close>

text \<open>
  Both the group resolver and the zone engine keep their candidates in a list, stably sorted by
  descending rank, and take the first that matches.
\<close>

lemma find_Some_mem: "find P xs = Some c \<Longrightarrow> c \<in> set xs \<and> P c"
  by (induction xs) (auto split: if_splits)

lemma find_refine: "find P xs = Some c \<Longrightarrow> find (\<lambda>e. P e \<and> f e = f c) xs = Some c"
  by (induction xs) (auto split: if_splits)

lemma find_sorted_best:
  assumes "sorted (map (\<lambda>e. - int (f e)) xs)" "find P xs = Some c" "c' \<in> set xs" "P c'"
  shows "f c' \<le> f c"
  using assms
proof (induction xs)
  case (Cons x xs)
  then show ?case by (cases "P x") (auto split: if_splits)
qed simp

text \<open>Of the matching entries of the best rank, the first declared one is found: the sort is stable.\<close>

lemma find_sort_first:
  assumes "find P (sort_key (\<lambda>e. - int (f e)) xs) = Some c"
  shows "find (\<lambda>e. P e \<and> f e = f c) xs = Some c"
proof -
  let ?s = "sort_key (\<lambda>e. - int (f e)) xs"
  have hd: "find Q ys = (case filter Q ys of [] \<Rightarrow> None | y # _ \<Rightarrow> Some y)" for Q and ys :: "'a list"
    by (induction ys) (auto split: list.splits)
  have st: "filter (\<lambda>e. f e = f c) ?s = filter (\<lambda>e. f e = f c) xs"
    using sort_key_stable [of "\<lambda>e. - int (f e)" "- int (f c)" xs] by simp
  have "find (\<lambda>e. P e \<and> f e = f c) ?s = Some c"
    using assms by (rule find_refine)
  then have "(case filter P (filter (\<lambda>e. f e = f c) ?s) of [] \<Rightarrow> None | y # _ \<Rightarrow> Some y) = Some c"
    by (simp add: hd conj_commute)
  then show ?thesis unfolding st by (simp add: hd conj_commute)
qed

lemma sorted_find_longest:
  "longest_match set m rank (\<lambda>s k. find (m k) (sort_key (\<lambda>c. - int (rank c)) s))"
proof
  fix s k c
  assume "find (m k) (sort_key (\<lambda>c. - int (rank c)) s) = Some c"
  from find_Some_mem [OF this] show "c \<in> set s \<and> m k c" by simp
next
  fix s k c c'
  show "find (m k) (sort_key (\<lambda>c. - int (rank c)) s) = Some c \<Longrightarrow> c' \<in> set s \<Longrightarrow> m k c' \<Longrightarrow> rank c' \<le> rank c"
    by (rule find_sorted_best [where P = "m k" and xs = "sort_key (\<lambda>c. - int (rank c)) s"]) simp_all
next
  fix c s k
  show "c \<in> set s \<Longrightarrow> m k c \<Longrightarrow> find (m k) (sort_key (\<lambda>c. - int (rank c)) s) \<noteq> None"
    by (auto simp: find_None_iff)
qed

end
