(* ===== verification/Client_Facts.thy ===== *)
theory Client_Facts
  imports Client_Policy Ip_Text Longest_Match
begin

text \<open>
  What access control and client groups guarantee: the access decision in terms of the configured
  entries alone, the group of an address as the longest matching prefix, and the shape of a
  normalized group configuration.
\<close>

section \<open>Parsed addresses\<close>

lemma parse_Single: "parseIPOrCIDR s = Some (Single a) \<Longrightarrow> valid_ip a \<and> norm_ip a = a"
  using ParseIP_length [of s] norm_ip_valid [of "ParseIP s"]
  by (auto simp: parseIPOrCIDR_def valid_ip_def split: if_splits)

section \<open>Access control\<close>

text \<open>The specification: what a configured entry covers, and the decision over the two lists.\<close>

definition entry_covers :: "string \<Rightarrow> ip \<Rightarrow> bool" where
  "entry_covers s a \<longleftrightarrow> trim_space s \<noteq> [] \<and>
     (case parseIPOrCIDR (trim_space s) of None \<Rightarrow> False
      | Some (Single b) \<Rightarrow> norm_ip b = norm_ip a
      | Some (Subnet n) \<Rightarrow> net_Contains n a)"

definition entry_legal :: "string \<Rightarrow> bool" where
  "entry_legal s \<longleftrightarrow> trim_space s = [] \<or> parseIPOrCIDR (trim_space s) \<noteq> None"

lemma entry_covers_legal: "entry_covers s a \<Longrightarrow> entry_legal s"
  by (auto simp: entry_covers_def entry_legal_def split: option.splits)

definition tables_cover :: "string list \<Rightarrow> ip_net list \<Rightarrow> ip \<Rightarrow> bool" where
  "tables_cover ips nets a \<longleftrightarrow> ip_String a \<in> set ips \<or> (\<exists>n \<in> set nets. net_Contains n a)"

lemma compile_clients_covers:
  assumes "compile_clients ss ips nets = Inr (ips', nets')" "valid_ip a"
  shows "(tables_cover ips' nets' a \<longleftrightarrow> tables_cover ips nets a \<or> (\<exists>s \<in> set ss. entry_covers s a)) \<and>
    (\<forall>s \<in> set ss. entry_legal s) \<and>
    (ips' = [] \<and> nets' = [] \<longleftrightarrow> ips = [] \<and> nets = [] \<and> (\<forall>s \<in> set ss. trim_space s = []))"
  using assms(1)
proof (induction ss arbitrary: ips nets)
  case (Cons s ss)
  show ?case
  proof (cases "trim_space s = []")
    case True
    then show ?thesis using Cons by (simp add: entry_covers_def entry_legal_def)
  next
    case False
    then obtain e where e: "parseIPOrCIDR (trim_space s) = Some e" using Cons.prems by (auto simp: Let_def split: option.splits)
    show ?thesis
    proof (cases e)
      case (Single b)
      have "compile_clients ss (List.insert (ip_String b) ips) nets = Inr (ips', nets')"
        using Cons.prems e False Single by simp
      note ih = Cons.IH [OF this]
      have "ip_String a = ip_String b \<longleftrightarrow> norm_ip b = norm_ip a"
        using ip_String_inj [OF assms(2)] parse_Single e Single by metis
      then have cov: "tables_cover (List.insert (ip_String b) ips) nets a \<longleftrightarrow> tables_cover ips nets a \<or> entry_covers s a"
        using e False Single by (auto simp: tables_cover_def entry_covers_def)
      have "List.insert (ip_String b) ips \<noteq> []" by (auto simp: List.insert_def)
      with ih cov show ?thesis using e False by (auto simp: entry_legal_def)
    next
      case (Subnet n)
      have "compile_clients ss ips (nets @ [n]) = Inr (ips', nets')" using Cons.prems e False Subnet by simp
      note ih = Cons.IH [OF this]
      have cov: "tables_cover ips (nets @ [n]) a \<longleftrightarrow> tables_cover ips nets a \<or> entry_covers s a"
        using e False Subnet by (auto simp: tables_cover_def entry_covers_def)
      with ih show ?thesis using e False by (auto simp: entry_legal_def)
    qed
  qed
qed simp

lemma compile_clients_error: "compile_clients ss ips nets = Inl e \<Longrightarrow> \<exists>s \<in> set ss. \<not> entry_legal s \<and> e = trim_space s"
proof (induction ss arbitrary: ips nets)
  case (Cons s ss)
  then show ?case
    by (cases "trim_space s = []") (auto simp: entry_legal_def Let_def split: option.splits ip_entry.splits)
qed simp

lemma CheckAccess_covers:
  assumes "a \<noteq> []"
  shows "fst (CheckAccess (Some ac) a) \<longleftrightarrow> \<not> tables_cover (ac_blockedIPs ac) (ac_blockedNets ac) a \<and>
    (ac_hasAllowed ac \<longrightarrow> tables_cover (ac_allowedIPs ac) (ac_allowedNets ac) a)"
proof (cases "find (\<lambda>n. net_Contains n a) (ac_blockedNets ac)")
  case None
  then have "\<not> (\<exists>n \<in> set (ac_blockedNets ac). net_Contains n a)" by (simp add: find_None_iff)
  then show ?thesis using assms None by (simp add: CheckAccess_def tables_cover_def Let_def list_ex_iff)
next
  case (Some n)
  then have "\<exists>n \<in> set (ac_blockedNets ac). net_Contains n a" by (auto simp: find_Some_iff)
  then show ?thesis using assms Some by (simp add: CheckAccess_def tables_cover_def Let_def)
qed

text \<open>
  C16. Access control decides by the configured entries alone. An update succeeds exactly when
  every non-blank entry of both lists is an address or a network, and otherwise leaves the rules in
  force unchanged. After it, a client is admitted exactly when no blocked entry covers its address
  and, if the allowed list has any entry, one of those covers it; the two forms of an IPv4 address
  are the same address.
\<close>

theorem access_decision:
  assumes "access_Update cfg ac0 = (err, ac)" "valid_ip a"
  shows "(err = None \<longleftrightarrow> (\<forall>s \<in> set (acc_AllowedClients cfg) \<union> set (acc_BlockedClients cfg). entry_legal s)) \<and>
    (err \<noteq> None \<longrightarrow> ac = ac0) \<and>
    (err = None \<longrightarrow> (fst (CheckAccess (Some ac) a) \<longleftrightarrow>
       \<not> (\<exists>s \<in> set (acc_BlockedClients cfg). entry_covers s a) \<and>
       ((\<forall>s \<in> set (acc_AllowedClients cfg). trim_space s = []) \<or> (\<exists>s \<in> set (acc_AllowedClients cfg). entry_covers s a))))"
proof (cases "compile_clients (acc_AllowedClients cfg) [] []")
  case (Inl e)
  with compile_clients_error [OF Inl] assms(1) show ?thesis by (auto simp: access_Update_def)
next
  case al: (Inr r)
  obtain aips anets where r: "r = (aips, anets)" by fastforce
  note al = al [unfolded r]
  note A = compile_clients_covers [OF al assms(2)]
  show ?thesis
  proof (cases "compile_clients (acc_BlockedClients cfg) [] []")
    case (Inl e)
    with compile_clients_error [OF Inl] assms(1) al show ?thesis by (auto simp: access_Update_def)
  next
    case bl: (Inr r')
    obtain bips bnets where r': "r' = (bips, bnets)" by fastforce
    note bl = bl [unfolded r']
    note B = compile_clients_covers [OF bl assms(2)]
    have ac: "err = None" "ac = \<lparr>ac_allowedIPs = aips, ac_allowedNets = anets, ac_blockedIPs = bips,
        ac_blockedNets = bnets, ac_hasAllowed = (aips \<noteq> [] \<or> anets \<noteq> [])\<rparr>"
      using assms(1) al bl by (auto simp: access_Update_def)
    have ne: "a \<noteq> []" using assms(2) by (auto simp: valid_ip_def)
    have "fst (CheckAccess (Some ac) a) \<longleftrightarrow>
      \<not> tables_cover bips bnets a \<and> (aips = [] \<and> anets = [] \<or> tables_cover aips anets a)"
      by (simp add: ac(2) CheckAccess_covers [OF ne]) blast
    moreover have "\<not> tables_cover [] [] a" by (simp add: tables_cover_def)
    ultimately show ?thesis using A B ac(1) by blast
  qed
qed

definition sample_access :: AccessControlConfig where
  "sample_access = \<lparr>acc_AllowedClients = [''10.0.0.0/8'', '' ''], acc_BlockedClients = [''10.1.2.3'']\<rparr>"

theorem access_decision_witness:
  "\<exists>ac. access_Update sample_access empty_access = (None, ac) \<and>
     fst (CheckAccess (Some ac) [10, 1, 2, 4]) \<and> \<not> fst (CheckAccess (Some ac) (IPv4 10 1 2 3)) \<and>
     \<not> fst (CheckAccess (Some ac) [11, 0, 0, 1])"
proof -
  obtain err ac where u: "access_Update sample_access empty_access = (err, ac)" by fastforce
  have v: "valid_ip [10, 1, 2, 4]" "valid_ip (IPv4 10 1 2 3)" "valid_ip [11, 0, 0, 1]"
    by (simp_all add: valid_ip_def IPv4_def v4_in_v6_prefix_def)
  have s: "set (acc_AllowedClients sample_access) = {''10.0.0.0/8'', '' ''}" "set (acc_BlockedClients sample_access) = {''10.1.2.3''}"
    by (simp_all add: sample_access_def)
  have l: "entry_legal ''10.0.0.0/8''" "entry_legal '' ''" "entry_legal ''10.1.2.3''" by code_simp+
  have c: "\<not> entry_covers ''10.1.2.3'' [10, 1, 2, 4]" "entry_covers ''10.0.0.0/8'' [10, 1, 2, 4]"
    "entry_covers ''10.1.2.3'' (IPv4 10 1 2 3)" "\<not> entry_covers ''10.0.0.0/8'' [11, 0, 0, 1]"
    "\<not> entry_covers '' '' [11, 0, 0, 1]" "trim_space ''10.0.0.0/8'' \<noteq> []" by code_simp+
  show ?thesis
    using u access_decision [OF u v(1)] access_decision [OF u v(2)] access_decision [OF u v(3)] l c unfolding s by auto
qed

section \<open>Group of an address\<close>

definition entry_contains :: "ip \<Rightarrow> groupEntry \<Rightarrow> bool" where
  "entry_contains a e = net_Contains (ge_ipNet e) a"

definition find_entry :: "groupEntry list \<Rightarrow> ip \<Rightarrow> groupEntry option" where
  "find_entry es a = find (entry_contains a) (sort_key (\<lambda>e. - int (ge_ones e)) es)"

interpretation gr: longest_match set entry_contains ge_ones find_entry
  unfolding find_entry_def by (rule sorted_find_longest)

text \<open>The entries a configuration declares: enabled groups with a proper identifier, in order.\<close>

definition declared_entries :: "ClientGroupConfig \<Rightarrow> groupEntry list" where
  "declared_entries cfg = concat (map (\<lambda>g.
     (let gid = trim_space (cg_ID g) in
      if cgc_Enabled cfg \<and> cg_Enabled g \<and> gid \<noteq> [] \<and> gid \<noteq> DefaultClientGroupID
      then List.map_filter (\<lambda>raw. case member_entry gid raw of Inl _ \<Rightarrow> None | Inr e \<Rightarrow> Some e) (cg_Clients g)
      else [])) (cgc_Groups cfg))"

lemma collect_members_entries:
  "fst (collect_members gid raws es ps) =
     es @ List.map_filter (\<lambda>raw. case member_entry gid raw of Inl _ \<Rightarrow> None | Inr e \<Rightarrow> Some e) raws"
  by (induction raws arbitrary: es ps) (auto simp: map_filter_simps split: sum.splits)

lemma collect_groups_entries:
  "cgc_Enabled cfg \<Longrightarrow> fst (collect_groups gs es ps) = es @ declared_entries (cfg\<lparr>cgc_Groups := gs\<rparr>)"
proof (induction gs arbitrary: es ps)
  case (Cons g gs)
  obtain es' ps' where c: "collect_members (trim_space (cg_ID g)) (cg_Clients g) es ps = (es', ps')" by fastforce
  have "es' = es @ List.map_filter (\<lambda>raw. case member_entry (trim_space (cg_ID g)) raw of Inl _ \<Rightarrow> None | Inr e \<Rightarrow> Some e) (cg_Clients g)"
    using collect_members_entries [of "trim_space (cg_ID g)" "cg_Clients g" es ps] c by simp
  then show ?case using Cons c by (simp add: declared_entries_def Let_def)
qed (simp add: declared_entries_def)

lemma NewGroupResolver_entries:
  "fst (NewGroupResolver cfg) = sort_key (\<lambda>e. - int (ge_ones e)) (declared_entries cfg)"
proof (cases "cgc_Enabled cfg")
  case True
  obtain es ps where c: "collect_groups (cgc_Groups cfg) [] [] = (es, ps)" by fastforce
  have "cfg\<lparr>cgc_Groups := cgc_Groups cfg\<rparr> = cfg" by simp
  then show ?thesis using True c collect_groups_entries [of cfg "cgc_Groups cfg" "[]" "[]"]
    by (simp add: NewGroupResolver_def)
next
  case False
  then have "declared_entries cfg = []" by (auto simp: declared_entries_def)
  then show ?thesis using False by (simp add: NewGroupResolver_def)
qed

lemma group_Resolve_find_entry:
  "a \<noteq> [] \<Longrightarrow> group_Resolve (Some (fst (NewGroupResolver cfg))) a =
     (case find_entry (declared_entries cfg) a of None \<Rightarrow> DefaultClientGroupID | Some e \<Rightarrow> ge_groupID e)"
  by (simp add: group_Resolve_def NewGroupResolver_entries find_entry_def entry_contains_def [abs_def] split: option.splits)

text \<open>
  C26. A client belongs to the group of the longest configured prefix that contains its address:
  the group is the default one exactly when no declared member of an enabled group contains the
  address, and otherwise that of the first declared member among those of the greatest prefix
  length that contain it. Invalid members and groups do not take part.
\<close>

theorem group_longest_prefix:
  assumes "a \<noteq> []" "es = declared_entries cfg"
  shows "if \<forall>e \<in> set es. \<not> net_Contains (ge_ipNet e) a
    then group_Resolve (Some (fst (NewGroupResolver cfg))) a = DefaultClientGroupID
    else \<exists>i < length es. net_Contains (ge_ipNet (es ! i)) a \<and>
      group_Resolve (Some (fst (NewGroupResolver cfg))) a = ge_groupID (es ! i) \<and>
      (\<forall>j < length es. net_Contains (ge_ipNet (es ! j)) a \<longrightarrow>
        ge_ones (es ! j) < ge_ones (es ! i) \<or> (ge_ones (es ! j) = ge_ones (es ! i) \<and> i \<le> j))"
proof (cases "find_entry es a")
  case None
  then have "\<forall>e \<in> set es. \<not> net_Contains (ge_ipNet e) a"
    using gr.lookup_None_iff [of es a] by (simp add: entry_contains_def)
  then show ?thesis using None group_Resolve_find_entry [OF assms(1)] assms(2) by simp
next
  case (Some c)
  have r: "group_Resolve (Some (fst (NewGroupResolver cfg))) a = ge_groupID c"
    using Some group_Resolve_find_entry [OF assms(1)] assms(2) by simp
  have "find (\<lambda>e. entry_contains a e \<and> ge_ones e = ge_ones c) es = Some c"
    using Some unfolding find_entry_def by (rule find_sort_first)
  then obtain i where i: "i < length es" "es ! i = c" "entry_contains a c"
    "\<forall>j < i. \<not> (entry_contains a (es ! j) \<and> ge_ones (es ! j) = ge_ones c)"
    by (auto simp: find_Some_iff)
  have "ge_ones (es ! j) < ge_ones c \<or> (ge_ones (es ! j) = ge_ones c \<and> i \<le> j)"
    if "j < length es" "net_Contains (ge_ipNet (es ! j)) a" for j
  proof -
    have "ge_ones (es ! j) \<le> ge_ones c"
      using gr.lookup_best [OF Some, of "es ! j"] that by (simp add: entry_contains_def)
    then show ?thesis using i(4) that(2) by (cases "j < i") (auto simp: entry_contains_def)
  qed
  then have "\<exists>i < length es. net_Contains (ge_ipNet (es ! i)) a \<and>
      group_Resolve (Some (fst (NewGroupResolver cfg))) a = ge_groupID (es ! i) \<and>
      (\<forall>j < length es. net_Contains (ge_ipNet (es ! j)) a \<longrightarrow>
        ge_ones (es ! j) < ge_ones (es ! i) \<or> (ge_ones (es ! j) = ge_ones (es ! i) \<and> i \<le> j))"
    using i r by (intro exI [of _ i]) (simp add: entry_contains_def)
  moreover have "\<not> (\<forall>e \<in> set es. \<not> net_Contains (ge_ipNet e) a)"
    using i by (auto simp: entry_contains_def)
  ultimately show ?thesis by (simp only: if_False)
qed

definition sample_group :: "string \<Rightarrow> string list \<Rightarrow> ClientGroup" where
  "sample_group gid cs = \<lparr>cg_ID = gid, cg_Name = gid, cg_Enabled = True, cg_Clients = cs, cg_RuleListIDs = [],
     cg_BlockMode = [], cg_UpstreamIDs = [], cg_ScheduleEnabled = False, cg_Schedules = [], cg_AllowlistOnly = False\<rparr>"

definition sample_groups :: ClientGroupConfig where
  "sample_groups = \<lparr>cgc_Enabled = True, cgc_Groups = [sample_group ''lan'' [''10.0.0.0/8'', ''x''], sample_group ''kids'' [''10.1.2.3'']]\<rparr>"

theorem group_longest_prefix_witness:
  "\<exists>i < length (declared_entries sample_groups).
     group_Resolve (Some (fst (NewGroupResolver sample_groups))) [10, 1, 2, 3] = ge_groupID (declared_entries sample_groups ! i) \<and>
     (\<forall>j < length (declared_entries sample_groups). net_Contains (ge_ipNet (declared_entries sample_groups ! j)) [10, 1, 2, 3] \<longrightarrow>
        ge_ones (declared_entries sample_groups ! j) \<le> ge_ones (declared_entries sample_groups ! i))"
proof -
  have "\<not> (\<forall>e \<in> set (declared_entries sample_groups). \<not> net_Contains (ge_ipNet e) [10, 1, 2, 3])" by code_simp
  with group_longest_prefix [of "[10, 1, 2, 3]", OF _ refl, of sample_groups] show ?thesis
    by (metis list.discI order.order_iff_strict order_refl)
qed

section \<open>Normalized group configurations\<close>

definition group_ok :: "ClientGroup \<Rightarrow> bool" where
  "group_ok g \<longleftrightarrow> cg_ID g \<noteq> [] \<and> cg_ID g \<noteq> DefaultClientGroupID \<and> trim_space (cg_ID g) = cg_ID g \<and> cg_Name g \<noteq> [] \<and>
     (\<forall>m \<in> set (cg_Clients g). trim_space m = m \<and> parseIPOrCIDR m \<noteq> None) \<and>
     distinct (cg_UpstreamIDs g) \<and> [] \<notin> set (cg_UpstreamIDs g) \<and>
     (cg_BlockMode g = [] \<or> IsValidBlockMode (cg_BlockMode g)) \<and>
     (cg_ScheduleEnabled g \<longrightarrow> HasEnabledSchedule (cg_Schedules g))"

lemma normalize_members_ok:
  "fst (normalize_members gid raws ms ps) = ms @ filter (\<lambda>m. m \<noteq> [] \<and> parseIPOrCIDR m \<noteq> None) (map trim_space raws)"
  by (induction raws arbitrary: ms ps) (auto simp: Let_def)

lemma dedup_ids_ok: "distinct out \<Longrightarrow> [] \<notin> set out \<Longrightarrow> distinct (dedup_ids raws out) \<and> [] \<notin> set (dedup_ids raws out)"
  by (induction raws arbitrary: out) (auto simp: Let_def)

lemma normalize_group_ok:
  assumes "cg_ID g \<noteq> []" "cg_ID g \<noteq> DefaultClientGroupID" "trim_space (cg_ID g) = cg_ID g" "cg_Name g \<noteq> []"
    "normalize_group freshId g ps = (g', ps')"
  shows "group_ok g' \<and> cg_ID g' = cg_ID g"
proof -
  obtain ms ps1 where m: "normalize_members (cg_ID g) (cg_Clients g) [] ps = (ms, ps1)" by fastforce
  obtain sc ps3 where s: "normalize_schedules freshId (cg_ID g) (cg_Schedules g) []
    (if cg_BlockMode g \<noteq> [] \<and> \<not> IsValidBlockMode (cg_BlockMode g) then ps1 @ [BadBlockMode (cg_ID g) (cg_BlockMode g)] else ps1) = (sc, ps3)"
    by fastforce
  have ms: "\<forall>m \<in> set ms. trim_space m = m \<and> parseIPOrCIDR m \<noteq> None"
    using normalize_members_ok [of "cg_ID g" "cg_Clients g" "[]" ps] m by auto
  have g': "g' = g\<lparr>cg_Clients := ms,
      cg_UpstreamIDs := (if length (cg_UpstreamIDs g) > 0 then dedup_ids (cg_UpstreamIDs g) [] else cg_UpstreamIDs g),
      cg_BlockMode := (if cg_BlockMode g \<noteq> [] \<and> \<not> IsValidBlockMode (cg_BlockMode g) then [] else cg_BlockMode g),
      cg_Schedules := sc, cg_ScheduleEnabled := (if length (cg_Schedules g) > 0 \<and> HasEnabledSchedule sc then cg_ScheduleEnabled g else False)\<rparr>"
    using assms(5) m s by (simp add: normalize_group_def Let_def)
  show ?thesis using assms(1-4) ms dedup_ids_ok [of "[]" "cg_UpstreamIDs g"] unfolding g' by (auto simp: group_ok_def)
qed

lemma trim_group_name: "trim_space (''group-'' @ itoa n) = ''group-'' @ itoa n"
proof -
  have "last (''group-'' @ itoa n) \<in> set (itoa n)" by simp
  then have "last (''group-'' @ itoa n) \<in> set ''0123456789''" using itoa_digits by blast
  then have "\<not> is_space (last (''group-'' @ itoa n))" by (auto simp: is_space_def)
  then show ?thesis unfolding trim_space_def by (intro trim_with_id) (simp add: is_space_def)
qed

lemma normalize_groups_ok:
  assumes "list_all group_ok valid" "distinct (map cg_ID valid)" "set seen = cg_ID ` set valid"
    "normalize_groups freshId i gs seen valid ps = (valid', ps')"
  shows "list_all group_ok valid' \<and> distinct (map cg_ID valid')"
  using assms
proof (induction gs arbitrary: i seen valid ps)
  case (Cons g0 gs)
  define gid where "gid = (if trim_space (cg_ID g0) = [] then ''group-'' @ itoa (i + 1) else trim_space (cg_ID g0))"
  define name where "name = (if trim_space (cg_Name g0) = [] then gid else trim_space (cg_Name g0))"
  have gid: "gid \<noteq> []" "trim_space gid = gid" using trim_group_name by (auto simp: gid_def)
  show ?case
  proof (cases "gid = DefaultClientGroupID \<or> gid \<in> set seen")
    case True
    then have "normalize_groups freshId (i + 1) gs seen valid (ps @ [DuplicateGroup gid]) = (valid', ps')"
      using Cons.prems(4) by (simp add: Let_def flip: gid_def)
    then show ?thesis using Cons.IH Cons.prems by blast
  next
    case False
    obtain g ps1 where g: "normalize_group freshId (g0\<lparr>cg_ID := gid, cg_Name := name\<rparr>) ps = (g, ps1)" by fastforce
    have "name \<noteq> []" using gid by (simp add: name_def)
    then have ok: "group_ok g" "cg_ID g = gid" using normalize_group_ok [OF _ _ _ _ g] gid False by simp_all
    have "normalize_groups freshId (i + 1) gs (gid # seen) (valid @ [g]) ps1 = (valid', ps')"
      using Cons.prems(4) False g by (simp add: Let_def flip: gid_def name_def)
    then show ?thesis using Cons.IH [of "valid @ [g]" "gid # seen"] Cons.prems ok False by auto
  qed
qed simp

lemma collect_members_no_problem:
  "\<forall>m \<in> set raws. trim_space m = m \<and> parseIPOrCIDR m \<noteq> None \<Longrightarrow> snd (collect_members gid raws es ps) = ps"
proof (induction raws arbitrary: es)
  case (Cons m raws)
  then obtain e where "parseIPOrCIDR (trim_space m) = Some e" by auto
  then obtain ge where "member_entry gid m = Inr ge" by (cases e) (auto simp: member_entry_def Let_def)
  then show ?case using Cons by simp
qed simp

lemma collect_groups_no_problem: "list_all group_ok gs \<Longrightarrow> snd (collect_groups gs es ps) = ps"
proof (induction gs arbitrary: es)
  case (Cons g gs)
  obtain es' ps' where c: "collect_members (trim_space (cg_ID g)) (cg_Clients g) es ps = (es', ps')" by fastforce
  have "ps' = ps" using collect_members_no_problem [of "cg_Clients g" "trim_space (cg_ID g)" es ps] c Cons.prems
    by (simp add: group_ok_def)
  then show ?case using Cons c by (simp add: Let_def group_ok_def)
qed simp

text \<open>
  Normalizing a group configuration makes it fit for use whatever it held: identifiers are
  non-blank, trimmed, distinct and never the reserved default one; every member left parses; the
  upstream identifiers are distinct and non-blank; the block mode is empty or a supported one; a
  group schedule switched on has an enabled schedule. The resolver compiled from the result then
  reports no problem.
\<close>

theorem normalized_groups_usable:
  assumes "NormalizeClientGroupConfig freshId cfg = (cfg', problems)"
  shows "distinct (map cg_ID (cgc_Groups cfg')) \<and> list_all group_ok (cgc_Groups cfg') \<and>
    cgc_Enabled cfg' = cgc_Enabled cfg \<and> snd (NewGroupResolver cfg') = []"
proof -
  obtain valid where n: "normalize_groups freshId 0 (cgc_Groups cfg) [] [] [] = (valid, problems)" "cfg' = cfg\<lparr>cgc_Groups := valid\<rparr>"
    using assms by (auto simp: NormalizeClientGroupConfig_def split: prod.splits)
  have ok: "list_all group_ok valid" "distinct (map cg_ID valid)"
    using normalize_groups_ok [OF _ _ _ n(1)] by simp_all
  have "snd (NewGroupResolver cfg') = []"
    using collect_groups_no_problem [OF ok(1), of "[]" "[]"] n(2)
    by (cases "collect_groups valid [] []") (simp add: NewGroupResolver_def)
  with ok show ?thesis by (simp add: n(2))
qed

theorem normalized_groups_usable_witness:
  "length (cgc_Groups (fst (NormalizeClientGroupConfig ''s'' sample_groups))) = 2 \<and>
   distinct (map cg_ID (cgc_Groups (fst (NormalizeClientGroupConfig ''s'' sample_groups)))) \<and>
   snd (NewGroupResolver (fst (NormalizeClientGroupConfig ''s'' sample_groups))) = []"
proof (intro conjI)
  show "length (cgc_Groups (fst (NormalizeClientGroupConfig ''s'' sample_groups))) = 2" by code_simp
qed (use normalized_groups_usable [OF surjective_pairing, of "''s''" sample_groups] in auto)

end
