(* ===== verification/Router.thy ===== *)
theory Router
  imports Dns_Msg Longest_Match
begin

text \<open>
  Split-horizon routing (\<open>core/conditional_router.go\<close>): domain suffixes mapped to resolvers,
  the longest matching suffix wins, a default resolver takes the rest. A resolver is a value of an
  arbitrary type; what it answers is a parameter.
\<close>

section \<open>The router\<close>

record 'r ConditionalRouter =
  cr_default :: "'r option"
  cr_routes :: "(string \<times> 'r) list"

definition cleanDomainPattern :: "string \<Rightarrow> string" where
  "cleanDomainPattern s = trim_dots (trim_prefix (to_lower (trim_space s)) ''*'')"

definition NewConditionalRouter :: "'r option \<Rightarrow> 'r ConditionalRouter" where
  "NewConditionalRouter def = \<lparr>cr_default = def, cr_routes = []\<rparr>"

definition SetRoute :: "string \<Rightarrow> 'r option \<Rightarrow> 'r ConditionalRouter \<Rightarrow> 'r ConditionalRouter" where
  "SetRoute pattern r cr =
     (let cleaned = cleanDomainPattern pattern in
      case r of None \<Rightarrow> cr
      | Some x \<Rightarrow> if cleaned \<noteq> [] then cr\<lparr>cr_routes := AList.update cleaned x (cr_routes cr)\<rparr> else cr)"

definition RemoveRoute :: "string \<Rightarrow> 'r ConditionalRouter \<Rightarrow> 'r ConditionalRouter" where
  "RemoveRoute pattern cr = cr\<lparr>cr_routes := AList.delete (cleanDomainPattern pattern) (cr_routes cr)\<rparr>"

definition ClearRoutes :: "'r ConditionalRouter \<Rightarrow> 'r ConditionalRouter" where
  "ClearRoutes cr = cr\<lparr>cr_routes := []\<rparr>"

definition SetDefaultResolver :: "'r option \<Rightarrow> 'r ConditionalRouter \<Rightarrow> 'r ConditionalRouter" where
  "SetDefaultResolver r cr = cr\<lparr>cr_default := r\<rparr>"

text \<open>What follows the first dot, if there is one.\<close>

fun after_dot :: "string \<Rightarrow> string option" where
  "after_dot [] = None"
| "after_dot (c # s) = (if c = CHR ''.'' then Some s else after_dot s)"

lemma after_dot_shorter: "after_dot s = Some t \<Longrightarrow> length t < length s"
  by (induction s) (auto split: if_splits)

function parent_loop :: "(string \<times> 'r) list \<Rightarrow> string \<Rightarrow> (string \<times> 'r) option" where
  "parent_loop routes name =
     (case after_dot name of None \<Rightarrow> None
      | Some parent \<Rightarrow>
          (case map_of routes parent of Some r \<Rightarrow> Some (parent, r) | None \<Rightarrow> parent_loop routes parent))"
  by pat_completeness auto
termination by (relation "measure (\<lambda>(_, s). length s)") (auto dest: after_dot_shorter)

declare parent_loop.simps [simp del]

text \<open>The route a domain takes, with the suffix it matched.\<close>

definition find_route :: "(string \<times> 'r) list \<Rightarrow> string \<Rightarrow> (string \<times> 'r) option" where
  "find_route routes domain =
     (let cleaned = cleanDomainPattern domain in
      if length routes = 0 \<or> cleaned = [] then None
      else case map_of routes cleaned of Some r \<Rightarrow> Some (cleaned, r) | None \<Rightarrow> parent_loop routes cleaned)"

definition MatchRoute :: "'r ConditionalRouter \<Rightarrow> string \<Rightarrow> 'r option" where
  "MatchRoute cr domain =
     (case find_route (cr_routes cr) domain of Some (_, r) \<Rightarrow> Some r | None \<Rightarrow> cr_default cr)"

datatype 'e router_error = NilRequest | NoUpstream | UpstreamError 'e

definition router_Exchange ::
  "('r \<Rightarrow> msg \<Rightarrow> 'e + msg) \<Rightarrow> 'r ConditionalRouter \<Rightarrow> msg option \<Rightarrow> 'e router_error + msg" where
  "router_Exchange exch cr oreq =
     (case oreq of None \<Rightarrow> Inl NilRequest | Some req \<Rightarrow>
       (let t1 = (case m_Question req of [] \<Rightarrow> None | q # _ \<Rightarrow> MatchRoute cr (q_Name q));
            target = (case t1 of None \<Rightarrow> cr_default cr | Some r \<Rightarrow> Some r)
        in case target of None \<Rightarrow> Inl NoUpstream
           | Some r \<Rightarrow> (case exch r req of Inl e \<Rightarrow> Inl (UpstreamError e) | Inr resp \<Rightarrow> Inr resp)))"

definition router_Resolve ::
  "dns_lib \<Rightarrow> ('r \<Rightarrow> u8 list \<Rightarrow> 'e + u8 list) \<Rightarrow> 'r ConditionalRouter \<Rightarrow> u8 list \<Rightarrow> 'e router_error + u8 list" where
  "router_Resolve L res cr raw =
     (let t1 = (case Unpack L raw of None \<Rightarrow> None
                | Some req \<Rightarrow> (case m_Question req of [] \<Rightarrow> None | q # _ \<Rightarrow> MatchRoute cr (q_Name q)));
          target = (case t1 of None \<Rightarrow> cr_default cr | Some r \<Rightarrow> Some r)
      in case target of None \<Rightarrow> Inl NoUpstream
         | Some r \<Rightarrow> (case res r raw of Inl e \<Rightarrow> Inl (UpstreamError e) | Inr b \<Rightarrow> Inr b))"

section \<open>Longest suffix\<close>

definition domain_under :: "string \<Rightarrow> string \<Rightarrow> bool" where
  "domain_under d p \<longleftrightarrow> d = p \<or> has_suffix d (''.'' @ p)"

lemma after_dot_None: "after_dot s = None \<longleftrightarrow> CHR ''.'' \<notin> set s"
  by (induction s) auto

lemma after_dot_split: "after_dot s = Some t \<Longrightarrow> \<exists>u. s = u @ ''.'' @ t \<and> CHR ''.'' \<notin> set u"
proof (induction s)
  case (Cons c s)
  show ?case
  proof (cases "c = CHR ''.''")
    case True
    then show ?thesis using Cons by (intro exI [of _ "[]"]) auto
  next
    case False
    then obtain u where "s = u @ ''.'' @ t" "CHR ''.'' \<notin> set u" using Cons by auto
    then show ?thesis using False by (intro exI [of _ "c # u"]) auto
  qed
qed simp

text \<open>A proper parent is the first one or a parent of it.\<close>

lemma suffix_parent:
  assumes "after_dot s = Some t"
  shows "has_suffix s (''.'' @ p) \<longleftrightarrow> domain_under t p"
proof -
  obtain u where u: "s = u @ ''.'' @ t" "CHR ''.'' \<notin> set u" using after_dot_split [OF assms] by blast
  show ?thesis
  proof
    assume "has_suffix s (''.'' @ p)"
    then obtain v where v: "s = v @ ''.'' @ p" by (auto simp: has_suffix_iff)
    then have "u @ CHR ''.'' # t = v @ CHR ''.'' # p" using u by simp
    then obtain w where "(u = v @ w \<and> w @ CHR ''.'' # t = CHR ''.'' # p) \<or> (u @ w = v \<and> CHR ''.'' # t = w @ CHR ''.'' # p)"
      by (auto simp: append_eq_append_conv2)
    then show "domain_under t p"
      using u(2) by (cases w) (auto simp: domain_under_def has_suffix_iff)
  next
    assume "domain_under t p"
    then show "has_suffix s (''.'' @ p)" using u(1) by (auto simp: domain_under_def has_suffix_iff)
  qed
qed

lemma domain_under_length: "domain_under d p \<Longrightarrow> length p \<le> length d"
  by (auto simp: domain_under_def has_suffix_def)

lemma domain_under_drop: "domain_under d p \<Longrightarrow> p = drop (length d - length p) d"
  by (auto simp: domain_under_def has_suffix_iff)

lemma domain_under_eq: "domain_under d p \<Longrightarrow> domain_under d p' \<Longrightarrow> length p = length p' \<Longrightarrow> p = p'"
  by (metis domain_under_drop)

lemma parent_loop_Some:
  "parent_loop routes s = Some (p, r) \<Longrightarrow> map_of routes p = Some r \<and> has_suffix s (''.'' @ p) \<and>
     (\<forall>p'. has_suffix s (''.'' @ p') \<and> map_of routes p' \<noteq> None \<longrightarrow> length p' \<le> length p)"
proof (induction routes s rule: parent_loop.induct)
  case (1 routes s)
  obtain t where t: "after_dot s = Some t" using "1.prems" by (subst (asm) parent_loop.simps) (auto split: option.splits)
  note par = suffix_parent [OF t]
  show ?case
  proof (cases "map_of routes t")
    case None
    then have "parent_loop routes t = Some (p, r)" using "1.prems" t by (subst (asm) parent_loop.simps) simp
    then show ?thesis using "1.IH" [OF t None] None unfolding par by (auto simp: domain_under_def)
  next
    case (Some x)
    then have "p = t" "r = x" using "1.prems" t by (auto simp: parent_loop.simps [of routes s])
    then show ?thesis using Some domain_under_length unfolding par by (auto simp: domain_under_def)
  qed
qed

lemma parent_loop_None: "parent_loop routes s = None \<Longrightarrow> has_suffix s (''.'' @ p) \<Longrightarrow> map_of routes p = None"
proof (induction routes s rule: parent_loop.induct)
  case (1 routes s)
  show ?case
  proof (cases "after_dot s")
    case None
    then show ?thesis using "1.prems"(2) by (auto simp: after_dot_None has_suffix_iff)
  next
    case (Some t)
    then have t: "map_of routes t = None" "parent_loop routes t = None"
      using "1.prems"(1) by (auto simp: parent_loop.simps [of routes s] split: option.splits)
    then show ?thesis using "1.IH" [OF Some t(1) t(2)] "1.prems"(2) suffix_parent [OF Some]
      by (auto simp: domain_under_def)
  qed
qed

definition route_cands :: "(string \<times> 'r) list \<Rightarrow> (string \<times> 'r) set" where
  "route_cands routes = {(p, r). map_of routes p = Some r}"

definition route_matches :: "string \<Rightarrow> string \<times> 'r \<Rightarrow> bool" where
  "route_matches d c \<longleftrightarrow> cleanDomainPattern d \<noteq> [] \<and> domain_under (cleanDomainPattern d) (fst c)"

lemma find_route_Some:
  assumes "find_route routes d = Some (p, r)"
  shows "map_of routes p = Some r \<and> route_matches d (p, r) \<and>
    (\<forall>c. map_of routes (fst c) \<noteq> None \<and> route_matches d c \<longrightarrow> length (fst c) \<le> length p)"
proof (cases "map_of routes (cleanDomainPattern d)")
  case None
  then have l: "parent_loop routes (cleanDomainPattern d) = Some (p, r)" "cleanDomainPattern d \<noteq> []"
    using assms by (auto simp: find_route_def Let_def split: if_splits)
  then show ?thesis using parent_loop_Some [OF l(1)] None by (auto simp: route_matches_def domain_under_def)
next
  case (Some x)
  then have "p = cleanDomainPattern d" "x = r" "cleanDomainPattern d \<noteq> []"
    using assms by (auto simp: find_route_def Let_def split: if_splits)
  then show ?thesis using Some domain_under_length by (auto simp: route_matches_def domain_under_def)
qed

lemma find_route_None:
  assumes "find_route routes d = None" "route_matches d c"
  shows "map_of routes (fst c) = None"
proof (cases "routes = []")
  case False
  then have "map_of routes (cleanDomainPattern d) = None" "parent_loop routes (cleanDomainPattern d) = None"
    using assms by (auto simp: find_route_def route_matches_def Let_def split: option.splits if_splits)
  then show ?thesis using parent_loop_None assms(2) by (auto simp: route_matches_def domain_under_def)
qed simp

interpretation cr: longest_match route_cands route_matches "\<lambda>c. length (fst c)" find_route
proof
  fix s d and c :: "string \<times> 'a"
  show "find_route s d = Some c \<Longrightarrow> c \<in> route_cands s \<and> route_matches d c"
    using find_route_Some [of s d "fst c" "snd c"] by (auto simp: route_cands_def split_beta)
next
  fix s d and c c' :: "string \<times> 'a"
  show "find_route s d = Some c \<Longrightarrow> c' \<in> route_cands s \<Longrightarrow> route_matches d c' \<Longrightarrow> length (fst c') \<le> length (fst c)"
    using find_route_Some [of s d "fst c" "snd c"] by (auto simp: route_cands_def)
next
  fix c :: "string \<times> 'a" and s d
  show "c \<in> route_cands s \<Longrightarrow> route_matches d c \<Longrightarrow> find_route s d \<noteq> None"
    using find_route_None [of s d c] by (cases "find_route s d") (auto simp: route_cands_def)
qed

lemma route_matches_unique:
  "route_matches d c \<Longrightarrow> route_matches d c' \<Longrightarrow> length (fst c) = length (fst c') \<Longrightarrow> fst c = fst c'"
  using domain_under_eq by (auto simp: route_matches_def)

section \<open>Properties\<close>

text \<open>
  A query goes to the resolver of the longest configured suffix of its name, on label
  boundaries; to the default resolver exactly when no configured suffix matches.
\<close>

theorem MatchRoute_longest_suffix:
  assumes "cleanDomainPattern d \<noteq> []"
  shows "if \<forall>p. domain_under (cleanDomainPattern d) p \<longrightarrow> map_of (cr_routes cr) p = None
    then MatchRoute cr d = cr_default cr
    else \<exists>p r. map_of (cr_routes cr) p = Some r \<and> MatchRoute cr d = Some r \<and> domain_under (cleanDomainPattern d) p \<and>
      (\<forall>p'. domain_under (cleanDomainPattern d) p' \<and> map_of (cr_routes cr) p' \<noteq> None \<longrightarrow> length p' \<le> length p)"
proof (cases "find_route (cr_routes cr) d")
  case None
  then have "map_of (cr_routes cr) p = None" if "domain_under (cleanDomainPattern d) p" for p
    using that assms find_route_None [OF None, of "(p, undefined)"] by (simp add: route_matches_def)
  then show ?thesis using None by (simp add: MatchRoute_def)
next
  case (Some c)
  obtain p r where c: "c = (p, r)" by fastforce
  note f = find_route_Some [OF Some [unfolded c]]
  have "map_of (cr_routes cr) p = Some r \<and> MatchRoute cr d = Some r \<and> domain_under (cleanDomainPattern d) p \<and>
      (\<forall>p'. domain_under (cleanDomainPattern d) p' \<and> map_of (cr_routes cr) p' \<noteq> None \<longrightarrow> length p' \<le> length p)"
    using f assms Some c by (auto simp: route_matches_def MatchRoute_def)
  then show ?thesis by (metis option.distinct(1))
qed

lemma MatchRoute_cong:
  assumes "\<And>p. cleanDomainPattern d \<noteq> [] \<Longrightarrow> domain_under (cleanDomainPattern d) p \<Longrightarrow> map_of (cr_routes cr) p = map_of (cr_routes cr') p"
    and "cr_default cr = cr_default cr'"
  shows "MatchRoute cr d = MatchRoute cr' d"
proof -
  have "find_route (cr_routes cr) d = find_route (cr_routes cr') d"
  proof (rule cr.lookup_local)
    fix c :: "string \<times> 'a" assume "route_matches d c"
    then show "c \<in> route_cands (cr_routes cr) \<longleftrightarrow> c \<in> route_cands (cr_routes cr')"
      using assms(1) by (cases c) (auto simp: route_cands_def route_matches_def)
  next
    fix c c' :: "string \<times> 'a"
    assume "c \<in> route_cands (cr_routes cr)" "c' \<in> route_cands (cr_routes cr)" "route_matches d c" "route_matches d c'"
      "length (fst c) = length (fst c')"
    then show "c = c'" using route_matches_unique [of d c c'] by (cases c; cases c') (auto simp: route_cands_def)
  qed
  then show ?thesis unfolding MatchRoute_def assms(2) by (simp only:)
qed

text \<open>
  Changing the route of one suffix never changes where a name outside that suffix goes, and
  a name equal to the suffix goes to the resolver just set.
\<close>

theorem route_update_isolated:
  assumes "cleanDomainPattern pat \<noteq> []"
  shows "(\<not> domain_under (cleanDomainPattern d) (cleanDomainPattern pat) \<longrightarrow>
      MatchRoute (SetRoute pat (Some r) cr) d = MatchRoute cr d \<and> MatchRoute (RemoveRoute pat cr) d = MatchRoute cr d) \<and>
    (cleanDomainPattern d = cleanDomainPattern pat \<longrightarrow> MatchRoute (SetRoute pat (Some r) cr) d = Some r)"
proof (intro conjI impI)
  assume n: "\<not> domain_under (cleanDomainPattern d) (cleanDomainPattern pat)"
  show "MatchRoute (SetRoute pat (Some r) cr) d = MatchRoute cr d"
    by (rule MatchRoute_cong) (use n assms in \<open>auto simp: SetRoute_def update_conv' Let_def\<close>)
  show "MatchRoute (RemoveRoute pat cr) d = MatchRoute cr d"
    by (rule MatchRoute_cong) (use n in \<open>auto simp: RemoveRoute_def\<close>)
next
  assume e: "cleanDomainPattern d = cleanDomainPattern pat"
  let ?rs = "AList.update (cleanDomainPattern pat) r (cr_routes cr)"
  have "find_route ?rs d = Some (cleanDomainPattern pat, r)"
    using e assms by (simp add: find_route_def Let_def update_conv')
  then show "MatchRoute (SetRoute pat (Some r) cr) d = Some r"
    using assms by (simp add: MatchRoute_def SetRoute_def Let_def)
qed

definition sample_router :: "nat ConditionalRouter" where
  "sample_router = SetRoute ''*.corp.lan'' (Some 2) (SetRoute ''lan.'' (Some 1) (NewConditionalRouter (Some 0)))"

theorem MatchRoute_longest_suffix_witness:
  "\<exists>p r. map_of (cr_routes sample_router) p = Some r \<and> MatchRoute sample_router ''Db.Corp.Lan.'' = Some r \<and>
     domain_under (cleanDomainPattern ''Db.Corp.Lan.'') p"
proof -
  have c: "cleanDomainPattern ''Db.Corp.Lan.'' \<noteq> []" by code_simp
  have "domain_under (cleanDomainPattern ''Db.Corp.Lan.'') ''lan'' \<and> map_of (cr_routes sample_router) ''lan'' \<noteq> None" by code_simp
  with MatchRoute_longest_suffix [OF c, of sample_router] show ?thesis by (auto split: if_splits)
qed

theorem route_update_isolated_witness:
  "MatchRoute (SetRoute ''corp.lan'' (Some 5) sample_router) ''x.lan'' = MatchRoute sample_router ''x.lan'' \<and>
   MatchRoute (SetRoute ''corp.lan'' (Some 5) sample_router) ''Corp.lan.'' = Some 5"
proof -
  have c: "cleanDomainPattern ''corp.lan'' \<noteq> []" "\<not> domain_under (cleanDomainPattern ''x.lan'') (cleanDomainPattern ''corp.lan'')"
    "cleanDomainPattern ''Corp.lan.'' = cleanDomainPattern ''corp.lan''" by code_simp+
  show ?thesis
    using route_update_isolated [OF c(1), of "''x.lan''" 5 sample_router]
      route_update_isolated [OF c(1), of "''Corp.lan.''" 5 sample_router] c(2,3) by blast
qed

end
