(* ===== verification/Scheduler.thy ===== *)
theory Scheduler
  imports Dns_Msg
begin

text \<open>
  Upstream scheduling (\<open>core/scheduler.go\<close>, \<open>core/scheduler_fallback.go\<close>): provider
  statistics, the four modes, response validation and the fallback chain.

  The executor that talks to an upstream is the callback the sources inject: a parameter, a function
  of the context, the provider, the query and the time, giving an answer or an error and the time it
  took. A context is its deadline and the moment its owner cancels it. Floating point is not
  modelled: the moving average of two round-trip times is a parameter. \<open>ss_sent\<close> observes the
  calls of the executor. The sort of the prediction mode reads every score once, at its start.
\<close>

section \<open>Contexts\<close>

datatype ctx_error = Canceled | DeadlineExceeded

record ctx =
  cx_deadline :: "time option"
  cx_cancelAt :: "time option"

definition reached :: "time option \<Rightarrow> time \<Rightarrow> bool" where
  "reached o1 t = (case o1 of None \<Rightarrow> False | Some d \<Rightarrow> d \<le> t)"

text \<open>\<open>ctx.Err()\<close>: whichever happened first.\<close>

definition ctx_Err :: "ctx \<Rightarrow> time \<Rightarrow> ctx_error option" where
  "ctx_Err c t =
     (if reached (cx_cancelAt c) t \<and> \<not> (reached (cx_deadline c) t \<and> the (cx_deadline c) \<le> the (cx_cancelAt c)) then Some Canceled
      else if reached (cx_deadline c) t then Some DeadlineExceeded else None)"

definition WithTimeout :: "ctx \<Rightarrow> duration \<Rightarrow> time \<Rightarrow> ctx" where
  "WithTimeout c d t = c\<lparr>cx_deadline := Some (case cx_deadline c of None \<Rightarrow> t + d | Some e \<Rightarrow> min e (t + d))\<rparr>"

section \<open>Errors\<close>

datatype sched_error =
    NoProviders
  | CtxError ctx_error
  | TransportError string
  | InvalidQueryPacket
  | InvalidQueryFlags
  | InvalidResponsePacket
  | ResponseIDMismatch
  | QuestionCountMismatch
  | QuestionMismatch
  | UpstreamRcodeError nat
  | UpstreamFailed string sched_error
  | AllBackupFailed nat "sched_error option"
  | AllRaceFailed nat "sched_error option"
  | BothChainsFailed sched_error
  | FallbackChainFailed sched_error

text \<open>\<open>errors.As(err, *UpstreamRcodeError)\<close> and \<open>errors.Is(err, context.Canceled)\<close> look through wrapping.\<close>

fun as_rcode :: "sched_error \<Rightarrow> nat option" where
  "as_rcode (UpstreamRcodeError c) = Some c"
| "as_rcode (UpstreamFailed _ e) = as_rcode e"
| "as_rcode (AllBackupFailed _ (Some e)) = as_rcode e"
| "as_rcode (AllRaceFailed _ (Some e)) = as_rcode e"
| "as_rcode (BothChainsFailed e) = as_rcode e"
| "as_rcode (FallbackChainFailed e) = as_rcode e"
| "as_rcode _ = None"

fun is_canceled :: "sched_error \<Rightarrow> bool" where
  "is_canceled (CtxError c) = (c = Canceled)"
| "is_canceled (UpstreamFailed _ e) = is_canceled e"
| "is_canceled (AllBackupFailed _ (Some e)) = is_canceled e"
| "is_canceled (AllRaceFailed _ (Some e)) = is_canceled e"
| "is_canceled (BothChainsFailed e) = is_canceled e"
| "is_canceled (FallbackChainFailed e) = is_canceled e"
| "is_canceled _ = False"

section \<open>Modes\<close>

datatype sched_mode = ModeSingle | ModePrimaryBackup | ModeParallelRace | ModeSmartPrediction

definition IsValidMode :: "string \<Rightarrow> bool" where
  "IsValidMode mode = (to_lower (trim_space mode) \<in> set [''single'', ''primary_backup'', ''backup'', ''parallel_race'',
     ''race'', ''fastest'', ''smart_prediction'', ''prediction'', ''smart'', ''load_balance''])"

definition CanonicalMode :: "string \<Rightarrow> sched_mode" where
  "CanonicalMode mode =
     (let m = to_lower (trim_space mode) in
      if m \<in> set [''primary_backup'', ''backup''] then ModePrimaryBackup
      else if m \<in> set [''parallel_race'', ''race'', ''fastest''] then ModeParallelRace
      else if m \<in> set [''smart_prediction'', ''prediction'', ''smart'', ''load_balance''] then ModeSmartPrediction
      else ModeSingle)"

section \<open>Provider statistics\<close>

record ProviderStats =
  ps_ewmaRTT :: duration
  ps_failureCount :: int
  ps_lastFailure :: "time option"
  ps_lastSuccess :: "time option"
  ps_sampleCount :: int

definition defaultStatsEWMA :: duration where "defaultStatsEWMA = 50 * millisecond"

definition NewProviderStats :: ProviderStats where
  "NewProviderStats = \<lparr>ps_ewmaRTT = defaultStatsEWMA, ps_failureCount = 0, ps_lastFailure = None, ps_lastSuccess = None,
     ps_sampleCount = 0\<rparr>"

definition RecordSuccess :: "(duration \<Rightarrow> duration \<Rightarrow> duration) \<Rightarrow> duration \<Rightarrow> time \<Rightarrow> ProviderStats \<Rightarrow> ProviderStats" where
  "RecordSuccess ewma rtt now s =
     s\<lparr>ps_lastSuccess := Some now, ps_failureCount := 0,
       ps_ewmaRTT := (if ps_sampleCount s = 0 then rtt else ewma (ps_ewmaRTT s) rtt),
       ps_sampleCount := wrap64 (ps_sampleCount s + 1)\<rparr>"

definition RecordFailure :: "time \<Rightarrow> ProviderStats \<Rightarrow> ProviderStats" where
  "RecordFailure now s = s\<lparr>ps_lastFailure := Some now, ps_failureCount := wrap64 (ps_failureCount s + 1)\<rparr>"

definition penalty :: "time \<Rightarrow> ProviderStats \<Rightarrow> duration" where
  "penalty now s =
     (let p1 = wrap64 (ps_failureCount s * 100 * millisecond);
          p2 = (if p1 > 5 * second then 5 * second else p1)
      in if (case ps_lastFailure s of None \<Rightarrow> False | Some t \<Rightarrow> now - t > 30 * second) then go_div p2 2 else p2)"

definition Score :: "time \<Rightarrow> ProviderStats option \<Rightarrow> duration" where
  "Score now os =
     (case os of None \<Rightarrow> defaultStatsEWMA
      | Some s \<Rightarrow> if ps_failureCount s > 0 then wrap64 (ps_ewmaRTT s + penalty now s) else ps_ewmaRTT s)"

definition Snapshot :: "time \<Rightarrow> ProviderStats option \<Rightarrow> int \<times> int \<times> duration \<times> duration" where
  "Snapshot now os =
     (case os of None \<Rightarrow> (0, 0, defaultStatsEWMA, defaultStatsEWMA)
      | Some s \<Rightarrow> (ps_sampleCount s, ps_failureCount s, ps_ewmaRTT s, Score now os))"

section \<open>Providers and the state of a resolution\<close>

record ConfiguredProvider =
  cp_ID :: string
  cp_Protocol :: string
  cp_Server :: string
  cp_URL :: string
  cp_Weight :: int
  cp_Pin :: "u8 list option"  \<comment> \<open>the digest a certificate must have, if one is pinned\<close>
  cp_Stats :: "nat option"  \<comment> \<open>the address of its statistics object\<close>

record sched_state =
  ss_now :: time
  ss_stats :: "(nat \<times> ProviderStats) list"
  ss_sent :: "ConfiguredProvider list"

type_synonym executor = "ctx \<Rightarrow> ConfiguredProvider \<Rightarrow> u8 list \<Rightarrow> time \<Rightarrow> (sched_error + u8 list) \<times> duration"

record sched_env =
  env_execute :: executor
  env_lib :: dns_lib
  env_ewma :: "duration \<Rightarrow> duration \<Rightarrow> duration"

definition stats_of :: "sched_state \<Rightarrow> ConfiguredProvider \<Rightarrow> ProviderStats option" where
  "stats_of s p = (case cp_Stats p of None \<Rightarrow> None | Some a \<Rightarrow> map_of (ss_stats s) a)"

definition update_stats :: "ConfiguredProvider \<Rightarrow> (ProviderStats \<Rightarrow> ProviderStats) \<Rightarrow> sched_state \<Rightarrow> sched_state" where
  "update_stats p f s =
     (case cp_Stats p of None \<Rightarrow> s
      | Some a \<Rightarrow> (case map_of (ss_stats s) a of None \<Rightarrow> s | Some x \<Rightarrow> s\<lparr>ss_stats := AList.update a (f x) (ss_stats s)\<rparr>))"

section \<open>Validation\<close>

definition questions_match :: "question \<Rightarrow> question \<Rightarrow> bool" where
  "questions_match q a = (equal_fold (q_Name q) (q_Name a) \<and> q_Qtype q = q_Qtype a \<and> q_Qclass q = q_Qclass a)"

definition ValidateDNSResponse :: "dns_lib \<Rightarrow> u8 list \<Rightarrow> u8 list \<Rightarrow> sched_error option" where
  "ValidateDNSResponse L rawQuery rawResponse =
     (case Unpack L rawQuery of None \<Rightarrow> Some InvalidQueryPacket
      | Some qm \<Rightarrow>
         (if m_Response qm \<or> length (m_Question qm) = 0 then Some InvalidQueryFlags
          else case Unpack L rawResponse of None \<Rightarrow> Some InvalidResponsePacket
          | Some rm \<Rightarrow>
             (if \<not> m_Response rm \<or> (m_Id rm \<noteq> m_Id qm \<and> m_Id rm \<noteq> 0) then Some ResponseIDMismatch
              else if length (m_Question rm) \<noteq> length (m_Question qm) then Some QuestionCountMismatch
              else if \<not> list_all2 questions_match (m_Question qm) (m_Question rm) then Some QuestionMismatch
              else if m_Rcode rm = RcodeSuccess \<or> m_Rcode rm = RcodeNameError then None
              else Some (UpstreamRcodeError (m_Rcode rm)))))"

definition queryWithValidation ::
  "sched_env \<Rightarrow> ctx \<Rightarrow> ConfiguredProvider \<Rightarrow> u8 list \<Rightarrow> sched_state \<Rightarrow> (sched_error + u8 list) \<times> sched_state" where
  "queryWithValidation E c p raw s =
     (let (res, d) = env_execute E c p raw (ss_now s);
          s1 = s\<lparr>ss_now := ss_now s + d, ss_sent := ss_sent s @ [p]\<rparr>
      in case res of
           Inl err \<Rightarrow> (Inl err, if is_canceled err then s1 else update_stats p (RecordFailure (ss_now s1)) s1)
         | Inr resp \<Rightarrow>
            (case ValidateDNSResponse (env_lib E) raw resp of
               Some vErr \<Rightarrow> (Inl vErr, update_stats p (RecordFailure (ss_now s1)) s1)
             | None \<Rightarrow> (Inr resp, update_stats p (RecordSuccess (env_ewma E) d (ss_now s1)) s1)))"

section \<open>Sequential modes\<close>

definition resolveSingle ::
  "sched_env \<Rightarrow> ctx \<Rightarrow> ConfiguredProvider list \<Rightarrow> u8 list \<Rightarrow> sched_state \<Rightarrow> (sched_error + u8 list) \<times> sched_state" where
  "resolveSingle E c ps raw s =
     (let p = hd ps in
      case queryWithValidation E c p raw s of
        (Inl err, s') \<Rightarrow> (Inl (UpstreamFailed (cp_ID p) err), s')
      | (Inr resp, s') \<Rightarrow> (Inr resp, s'))"

fun backup_loop ::
  "sched_env \<Rightarrow> ctx \<Rightarrow> u8 list \<Rightarrow> nat \<Rightarrow> ConfiguredProvider list \<Rightarrow> sched_error option \<Rightarrow> sched_state \<Rightarrow>
    (sched_error + u8 list) \<times> sched_state" where
  "backup_loop E c raw n [] lastErr s = (Inl (AllBackupFailed n lastErr), s)"
| "backup_loop E c raw n (p # ps) lastErr s =
     (case ctx_Err c (ss_now s) of Some e \<Rightarrow> (Inl (CtxError e), s)
      | None \<Rightarrow>
         (case queryWithValidation E c p raw s of
            (Inr resp, s') \<Rightarrow> (Inr resp, s')
          | (Inl err, s') \<Rightarrow> backup_loop E c raw n ps (Some err) s'))"

definition resolvePrimaryBackup ::
  "sched_env \<Rightarrow> ctx \<Rightarrow> ConfiguredProvider list \<Rightarrow> u8 list \<Rightarrow> sched_state \<Rightarrow> (sched_error + u8 list) \<times> sched_state" where
  "resolvePrimaryBackup E c ps raw s = backup_loop E c raw (length ps) ps None s"

definition weighted_score :: "sched_state \<Rightarrow> ConfiguredProvider \<Rightarrow> int" where
  "weighted_score s p = go_div (Score (ss_now s) (stats_of s p)) (if cp_Weight p > 0 then cp_Weight p else 1)"

definition resolveSmartPrediction ::
  "sched_env \<Rightarrow> ctx \<Rightarrow> ConfiguredProvider list \<Rightarrow> u8 list \<Rightarrow> sched_state \<Rightarrow> (sched_error + u8 list) \<times> sched_state" where
  "resolveSmartPrediction E c ps raw s =
     (if length ps = 1 then resolveSingle E c ps raw s
      else resolvePrimaryBackup E c (sort_key (weighted_score s) ps) raw s)"

section \<open>The race\<close>

text \<open>
  The race runs one goroutine per provider. Its interleavings are steps of a state: the providers
  still running, the channel, the number of results the caller has received, its outcome. A
  goroutine finishes with any result of the executor; the caller receives in channel order, stops at
  the first answer, and may at any time notice that its context is done.
\<close>

record race_state =
  rc_running :: "ConfiguredProvider list"
  rc_chan :: "(sched_error + u8 list) list"
  rc_received :: nat
  rc_lastErr :: "sched_error option"
  rc_outcome :: "(sched_error + u8 list) option"
  rc_log :: "(ConfiguredProvider \<times> (sched_error + u8 list)) list"
  rc_stats :: "(nat \<times> ProviderStats) list"

definition race_start :: "ConfiguredProvider list \<Rightarrow> (nat \<times> ProviderStats) list \<Rightarrow> race_state" where
  "race_start ps st = \<lparr>rc_running = ps, rc_chan = [], rc_received = 0, rc_lastErr = None, rc_outcome = None, rc_log = [], rc_stats = st\<rparr>"

text \<open>A goroutine returns from \<open>queryWithValidation\<close> and sends its result.\<close>

definition race_finish ::
  "sched_env \<Rightarrow> u8 list \<Rightarrow> nat \<Rightarrow> (sched_error + u8 list) \<times> duration \<Rightarrow> time \<Rightarrow> race_state \<Rightarrow> race_state" where
  "race_finish E raw i res t r =
     (let p = rc_running r ! i;
          (out, s') = queryWithValidation (E\<lparr>env_execute := \<lambda>_ _ _ _. res\<rparr>) \<lparr>cx_deadline = None, cx_cancelAt = None\<rparr> p raw
            \<lparr>ss_now = t, ss_stats = rc_stats r, ss_sent = []\<rparr>
      in r\<lparr>rc_running := take i (rc_running r) @ drop (Suc i) (rc_running r), rc_chan := rc_chan r @ [out],
           rc_log := rc_log r @ [(p, out)], rc_stats := ss_stats s'\<rparr>)"

text \<open>One turn of the loop of the caller: a result from the channel.\<close>

definition race_receive :: "nat \<Rightarrow> race_state \<Rightarrow> race_state" where
  "race_receive n r =
     (case rc_chan r of [] \<Rightarrow> r
      | Inr resp # rest \<Rightarrow> r\<lparr>rc_chan := rest, rc_received := Suc (rc_received r), rc_outcome := Some (Inr resp)\<rparr>
      | Inl err # rest \<Rightarrow>
          r\<lparr>rc_chan := rest, rc_received := Suc (rc_received r), rc_lastErr := Some err,
            rc_outcome := (if Suc (rc_received r) = n then Some (Inl (AllRaceFailed n (Some err))) else None)\<rparr>)"

inductive race_step :: "sched_env \<Rightarrow> u8 list \<Rightarrow> nat \<Rightarrow> race_state \<Rightarrow> race_state \<Rightarrow> bool"
  for E :: sched_env and raw :: "u8 list" and n :: nat where
  finish: "i < length (rc_running r) \<Longrightarrow> race_step E raw n r (race_finish E raw i res t r)"
| receive: "rc_outcome r = None \<Longrightarrow> rc_chan r \<noteq> [] \<Longrightarrow> race_step E raw n r (race_receive n r)"
| done_ctx: "rc_outcome r = None \<Longrightarrow> race_step E raw n r (r\<lparr>rc_outcome := Some (Inl (CtxError e))\<rparr>)"

text \<open>
  The race as a function of the durations the executor reports: the results arrive in the order of
  their durations (equal ones in the order of the providers), and a context that is done by the time
  of the next arrival is noticed first. The statistics of the goroutines that are still running when
  the caller returns are updated later and are not part of the returned state.
\<close>

definition ctx_done_time :: "ctx \<Rightarrow> time \<Rightarrow> time" where
  "ctx_done_time c t0 = max t0
     (case (cx_deadline c, cx_cancelAt c) of
        (None, None) \<Rightarrow> t0 | (Some a, None) \<Rightarrow> a | (None, Some b) \<Rightarrow> b | (Some a, Some b) \<Rightarrow> min a b)"

fun race_loop ::
  "sched_env \<Rightarrow> ctx \<Rightarrow> u8 list \<Rightarrow> nat \<Rightarrow> time \<Rightarrow> ConfiguredProvider list \<Rightarrow> sched_error option \<Rightarrow> sched_state \<Rightarrow>
    (sched_error + u8 list) \<times> sched_state" where
  "race_loop E c raw n t0 [] lastErr s = (Inl (AllRaceFailed n lastErr), s)"
| "race_loop E c raw n t0 (p # ps) lastErr s =
     (case ctx_Err c (t0 + snd (env_execute E c p raw t0)) of
        Some e \<Rightarrow> (Inl (CtxError e), s\<lparr>ss_now := ctx_done_time c t0\<rparr>)
      | None \<Rightarrow>
         (case queryWithValidation E c p raw (s\<lparr>ss_now := t0\<rparr>) of
            (Inr resp, s') \<Rightarrow> (Inr resp, s')
          | (Inl err, s') \<Rightarrow> race_loop E c raw n t0 ps (Some err) s'))"

definition resolveParallelRace ::
  "sched_env \<Rightarrow> ctx \<Rightarrow> ConfiguredProvider list \<Rightarrow> u8 list \<Rightarrow> sched_state \<Rightarrow> (sched_error + u8 list) \<times> sched_state" where
  "resolveParallelRace E c ps raw s =
     (if length ps = 1 then resolveSingle E c ps raw s
      else
       (let t0 = ss_now s;
            (out, s') = race_loop E c raw (length ps) t0 (sort_key (\<lambda>p. snd (env_execute E c p raw t0)) ps) None s
        in (out, s'\<lparr>ss_sent := ss_sent s @ ps\<rparr>)))"

definition sched_Resolve ::
  "sched_env \<Rightarrow> ctx \<Rightarrow> string \<Rightarrow> ConfiguredProvider list \<Rightarrow> u8 list \<Rightarrow>
    sched_state \<Rightarrow> (sched_error + u8 list) \<times> sched_state" where
  "sched_Resolve E c mode ps raw s =
     (if length ps = 0 then (Inl NoProviders, s)
      else case CanonicalMode mode of
        ModePrimaryBackup \<Rightarrow> resolvePrimaryBackup E c ps raw s
      | ModeParallelRace \<Rightarrow> resolveParallelRace E c ps raw s
      | ModeSmartPrediction \<Rightarrow> resolveSmartPrediction E c ps raw s
      | ModeSingle \<Rightarrow> resolveSingle E c ps raw s)"

section \<open>The fallback chain\<close>

record FallbackPlan =
  fp_Mode :: string
  fp_Providers :: "ConfiguredProvider list"
  fp_FallbackProviders :: "ConfiguredProvider list"
  fp_Timeout :: duration
  fp_OnRcode :: "nat list option"  \<comment> \<open>nil and the empty list differ\<close>
  fp_OnError :: "bool option"

definition DefaultFallbackRcodes :: "nat list" where
  "DefaultFallbackRcodes = [RcodeServerFailure, RcodeRefused]"

definition fallbackRcodes :: "nat list option \<Rightarrow> nat list" where
  "fallbackRcodes configured = (case configured of None \<Rightarrow> DefaultFallbackRcodes | Some l \<Rightarrow> l)"

definition rcodeMatches :: "nat \<Rightarrow> nat list option \<Rightarrow> bool" where
  "rcodeMatches rcode configured = list_ex (\<lambda>want. rcode = want) (fallbackRcodes configured)"

definition onErrorOrDefault :: "FallbackPlan \<Rightarrow> bool" where
  "onErrorOrDefault p = (case fp_OnError p of None \<Rightarrow> True | Some b \<Rightarrow> b)"

definition responseRcode :: "dns_lib \<Rightarrow> u8 list \<Rightarrow> nat option" where
  "responseRcode L raw = (if length raw < 12 then None else map_option m_Rcode (Unpack L raw))"

definition needsFallback :: "dns_lib \<Rightarrow> ctx \<Rightarrow> time \<Rightarrow> sched_error + u8 list \<Rightarrow> FallbackPlan \<Rightarrow> bool" where
  "needsFallback L c now res plan =
     (if ctx_Err c now \<noteq> None then False
      else case res of
        Inl err \<Rightarrow> (case as_rcode err of Some rc \<Rightarrow> rcodeMatches rc (fp_OnRcode plan) | None \<Rightarrow> onErrorOrDefault plan)
      | Inr resp \<Rightarrow> (case responseRcode L resp of Some rc \<Rightarrow> rcodeMatches rc (fp_OnRcode plan) | None \<Rightarrow> False))"

definition resolveWithFallback ::
  "sched_env \<Rightarrow> ctx \<Rightarrow> FallbackPlan \<Rightarrow> u8 list \<Rightarrow> sched_state \<Rightarrow>
    (sched_error + u8 list) \<times> sched_state" where
  "resolveWithFallback E c plan raw s =
     (if length (fp_FallbackProviders plan) = 0 then sched_Resolve E c (fp_Mode plan) (fp_Providers plan) raw s
      else
       (let mainCtx = (if fp_Timeout plan > 0 then WithTimeout c (fp_Timeout plan) (ss_now s) else c);
            (res, s1) = sched_Resolve E mainCtx (fp_Mode plan) (fp_Providers plan) raw s
        in if \<not> needsFallback (env_lib E) c (ss_now s1) res plan then (res, s1)
           else (case sched_Resolve E c (fp_Mode plan) (fp_FallbackProviders plan) raw s1 of
                   (Inr resp, s2) \<Rightarrow> (Inr resp, s2)
                 | (Inl fbErr, s2) \<Rightarrow>
                     (Inl (case res of Inl _ \<Rightarrow> BothChainsFailed fbErr | Inr _ \<Rightarrow> FallbackChainFailed fbErr), s2))))"

end
