(* ===== verification/Scheduler_Facts.thy ===== *)
theory Scheduler_Facts
  imports Scheduler
begin

text \<open>
  What upstream scheduling guarantees: no mode ever hands out an answer that fails validation, the
  backup chain stops at the first valid answer, the race finds an answer whenever one arrives under
  every interleaving of its goroutines, and the fallback chain is used exactly when it should be.
\<close>

section \<open>Accepted answers\<close>

text \<open>The specification of an acceptable answer to a query.\<close>

definition answers :: "dns_lib \<Rightarrow> u8 list \<Rightarrow> u8 list \<Rightarrow> bool" where
  "answers L raw resp \<longleftrightarrow> (\<exists>qm rm. Unpack L raw = Some qm \<and> Unpack L resp = Some rm \<and> \<not> m_Response qm \<and> m_Question qm \<noteq> [] \<and>
     m_Response rm \<and> (m_Id rm = m_Id qm \<or> m_Id rm = 0) \<and> list_all2 questions_match (m_Question qm) (m_Question rm) \<and>
     m_Rcode rm \<in> {RcodeSuccess, RcodeNameError})"

lemma validate_iff: "ValidateDNSResponse L raw resp = None \<longleftrightarrow> answers L raw resp"
proof (cases "Unpack L raw")
  case None
  then show ?thesis by (simp add: ValidateDNSResponse_def answers_def)
next
  case q: (Some qm)
  show ?thesis
  proof (cases "Unpack L resp")
    case None
    then show ?thesis using q by (simp add: ValidateDNSResponse_def answers_def)
  next
    case (Some rm)
    have "list_all2 questions_match (m_Question qm) (m_Question rm) \<Longrightarrow> length (m_Question rm) = length (m_Question qm)"
      by (simp add: list_all2_lengthD)
    then show ?thesis using q Some by (auto simp: ValidateDNSResponse_def answers_def)
  qed
qed

text \<open>A provider gave an acceptable answer at some time, under some context.\<close>

definition answered_by :: "sched_env \<Rightarrow> u8 list \<Rightarrow> ConfiguredProvider \<Rightarrow> u8 list \<Rightarrow> bool" where
  "answered_by E raw p resp \<longleftrightarrow> answers (env_lib E) raw resp \<and> (\<exists>c t. fst (env_execute E c p raw t) = Inr resp)"

lemma update_stats_fields [simp]:
  "ss_now (update_stats p f s) = ss_now s" "ss_sent (update_stats p f s) = ss_sent s"
  by (simp_all add: update_stats_def split: option.splits)

lemma query_Inr: "queryWithValidation E c p raw s = (Inr resp, s') \<Longrightarrow> answered_by E raw p resp"
  unfolding answered_by_def validate_iff [symmetric]
  by (auto simp: queryWithValidation_def Let_def split: prod.splits sum.splits option.splits) (metis fst_conv)

lemma query_sent: "ss_sent (snd (queryWithValidation E c p raw s)) = ss_sent s @ [p]"
  by (simp add: queryWithValidation_def Let_def split: prod.splits sum.splits option.splits)

lemma backup_loop_Inr:
  "backup_loop E c raw n ps le s = (Inr resp, s') \<Longrightarrow> \<exists>p \<in> set ps. answered_by E raw p resp"
proof (induction ps arbitrary: le s)
  case (Cons p ps)
  show ?case
  proof (cases "ctx_Err c (ss_now s)")
    case None
    obtain out s1 where q: "queryWithValidation E c p raw s = (out, s1)" by fastforce
    show ?thesis using Cons None q query_Inr by (cases out) auto
  qed (use Cons in simp)
qed simp

lemma race_loop_Inr:
  "race_loop E c raw n t0 ps le s = (Inr resp, s') \<Longrightarrow> \<exists>p \<in> set ps. answered_by E raw p resp"
proof (induction ps arbitrary: le s)
  case (Cons p ps)
  show ?case
  proof (cases "ctx_Err c (t0 + snd (env_execute E c p raw t0))")
    case None
    obtain out s1 where q: "queryWithValidation E c p raw (s\<lparr>ss_now := t0\<rparr>) = (out, s1)" by fastforce
    show ?thesis using Cons None q query_Inr by (cases out) auto
  qed (use Cons in simp)
qed simp

lemma single_Inr: "resolveSingle E c ps raw s = (Inr resp, s') \<Longrightarrow> answered_by E raw (hd ps) resp"
  by (auto simp: resolveSingle_def Let_def dest: query_Inr split: prod.splits sum.splits)

lemma sched_Resolve_Inr:
  assumes "sched_Resolve E c mode ps raw s = (Inr resp, s')"
  shows "\<exists>p \<in> set ps. answered_by E raw p resp"
proof -
  have ne: "ps \<noteq> []" using assms by (auto simp: sched_Resolve_def)
  then have hd: "hd ps \<in> set ps" by simp
  show ?thesis
  proof (cases "CanonicalMode mode")
    case ModeSingle
    then show ?thesis using assms ne hd single_Inr by (fastforce simp: sched_Resolve_def)
  next
    case ModePrimaryBackup
    then show ?thesis using assms ne backup_loop_Inr by (fastforce simp: sched_Resolve_def resolvePrimaryBackup_def)
  next
    case ModeParallelRace
    then have r: "resolveParallelRace E c ps raw s = (Inr resp, s')" using assms ne by (simp add: sched_Resolve_def)
    show ?thesis
    proof (cases "length ps = 1")
      case True
      then show ?thesis using r hd single_Inr by (fastforce simp: resolveParallelRace_def)
    next
      case False
      then obtain s1 where "race_loop E c raw (length ps) (ss_now s)
          (sort_key (\<lambda>p. snd (env_execute E c p raw (ss_now s))) ps) None s = (Inr resp, s1)"
        using r by (auto simp: resolveParallelRace_def Let_def split: prod.splits)
      from race_loop_Inr [OF this] show ?thesis by simp
    qed
  next
    case ModeSmartPrediction
    then have r: "resolveSmartPrediction E c ps raw s = (Inr resp, s')" using assms ne by (simp add: sched_Resolve_def)
    show ?thesis
    proof (cases "length ps = 1")
      case True
      then show ?thesis using r hd single_Inr by (fastforce simp: resolveSmartPrediction_def)
    next
      case False
      then have "backup_loop E c raw (length ps) (sort_key (weighted_score s) ps) None s = (Inr resp, s')"
        using r by (simp add: resolveSmartPrediction_def resolvePrimaryBackup_def)
      from backup_loop_Inr [OF this] show ?thesis by simp
    qed
  qed
qed

lemma resolveWithFallback_Inr:
  assumes "resolveWithFallback E c plan raw s = (Inr resp, s')"
  shows "\<exists>p \<in> set (fp_Providers plan) \<union> set (fp_FallbackProviders plan). answered_by E raw p resp"
proof (cases "length (fp_FallbackProviders plan) = 0")
  case True
  then have "sched_Resolve E c (fp_Mode plan) (fp_Providers plan) raw s = (Inr resp, s')"
    using assms by (simp add: resolveWithFallback_def)
  from sched_Resolve_Inr [OF this] show ?thesis by blast
next
  case False
  define mc where "mc = (if fp_Timeout plan > 0 then WithTimeout c (fp_Timeout plan) (ss_now s) else c)"
  obtain res s1 where m: "sched_Resolve E mc (fp_Mode plan) (fp_Providers plan) raw s = (res, s1)" by fastforce
  obtain fb s2 where f: "sched_Resolve E c (fp_Mode plan) (fp_FallbackProviders plan) raw s1 = (fb, s2)" by fastforce
  have "(res = Inr resp) \<or> fb = Inr resp"
    using assms False m f unfolding resolveWithFallback_def mc_def [symmetric] by (cases fb) (auto split: if_splits)
  then show ?thesis using sched_Resolve_Inr m f by blast
qed

text \<open>
  C8. No answer leaves the scheduler unchecked: in every mode, with or without the fallback chain,
  an answer handed out was given by one of the configured providers, is a response to this query
  (same identifier, or zero, and the same questions up to letter case) and carries NOERROR or NXDOMAIN.
\<close>

theorem scheduler_answers_valid:
  assumes "resolveWithFallback E c plan raw s = (Inr resp, s')"
  shows "answers (env_lib E) raw resp \<and>
    (\<exists>p \<in> set (fp_Providers plan) \<union> set (fp_FallbackProviders plan). \<exists>c' t. fst (env_execute E c' p raw t) = Inr resp)"
  using resolveWithFallback_Inr [OF assms] by (auto simp: answered_by_def)

section \<open>The backup chain\<close>

definition idle_ctx :: ctx where "idle_ctx = \<lparr>cx_deadline = None, cx_cancelAt = None\<rparr>"

lemma idle_ctx_Err [simp]: "ctx_Err idle_ctx t = None"
  by (simp add: ctx_Err_def idle_ctx_def reached_def)

definition failed_at :: "sched_env \<Rightarrow> u8 list \<Rightarrow> ConfiguredProvider \<Rightarrow> bool" where
  "failed_at E raw p \<longleftrightarrow> (\<exists>s err s'. queryWithValidation E idle_ctx p raw s = (Inl err, s'))"

lemma backup_loop_order:
  "backup_loop E idle_ctx raw n ps le s = (out, s') \<Longrightarrow>
     \<exists>k \<le> length ps. ss_sent s' = ss_sent s @ take k ps \<and>
       (case out of Inr resp \<Rightarrow> 0 < k \<and> answered_by E raw (ps ! (k - 1)) resp \<and> (\<forall>i < k - 1. failed_at E raw (ps ! i))
        | Inl _ \<Rightarrow> k = length ps \<and> (\<forall>i < k. failed_at E raw (ps ! i)))"
proof (induction ps arbitrary: le s)
  case (Cons p ps)
  obtain o1 s1 where q: "queryWithValidation E idle_ctx p raw s = (o1, s1)" by fastforce
  have sent: "ss_sent s1 = ss_sent s @ [p]" using query_sent [of E idle_ctx p raw s] q by simp
  show ?case
  proof (cases o1)
    case (Inr resp)
    then have "out = Inr resp" "s' = s1" using Cons.prems q by simp_all
    then show ?thesis using query_Inr q Inr sent by (intro exI [of _ 1]) simp
  next
    case (Inl err)
    then have f: "failed_at E raw p" using q by (auto simp: failed_at_def)
    have "backup_loop E idle_ctx raw n ps (Some err) s1 = (out, s')" using Cons.prems q Inl by simp
    from Cons.IH [OF this] obtain k where k: "k \<le> length ps" "ss_sent s' = ss_sent s1 @ take k ps"
      "case out of Inr resp \<Rightarrow> 0 < k \<and> answered_by E raw (ps ! (k - 1)) resp \<and> (\<forall>i < k - 1. failed_at E raw (ps ! i))
        | Inl _ \<Rightarrow> k = length ps \<and> (\<forall>i < k. failed_at E raw (ps ! i))" by blast
    show ?thesis
    proof (intro exI [of _ "Suc k"] conjI)
      show "Suc k \<le> length (p # ps)" "ss_sent s' = ss_sent s @ take (Suc k) (p # ps)" using k sent by simp_all
      show "case out of Inr resp \<Rightarrow> 0 < Suc k \<and> answered_by E raw ((p # ps) ! (Suc k - 1)) resp \<and>
            (\<forall>i < Suc k - 1. failed_at E raw ((p # ps) ! i))
          | Inl _ \<Rightarrow> Suc k = length (p # ps) \<and> (\<forall>i < Suc k. failed_at E raw ((p # ps) ! i))"
        using k(3) f by (cases out) (auto simp: nth_Cons split: nat.splits)
    qed
  qed
qed auto

text \<open>
  The backup chain asks the providers in order and stops at the first valid answer: the
  providers contacted are a prefix of the list; on success the last of them gave the answer and all
  before it failed; the chain fails only after every provider has been asked and has failed.
\<close>

theorem backup_chain_order:
  assumes "resolvePrimaryBackup E idle_ctx ps raw s = (out, s')"
  shows "\<exists>k \<le> length ps. ss_sent s' = ss_sent s @ take k ps \<and>
       (case out of Inr resp \<Rightarrow> 0 < k \<and> answered_by E raw (ps ! (k - 1)) resp \<and> (\<forall>i < k - 1. failed_at E raw (ps ! i))
        | Inl _ \<Rightarrow> k = length ps \<and> (\<forall>i < k. failed_at E raw (ps ! i)))"
  using assms unfolding resolvePrimaryBackup_def by (rule backup_loop_order)

section \<open>The race\<close>

definition race_verdict :: "nat \<Rightarrow> nat \<Rightarrow> (sched_error + u8 list) list \<Rightarrow> (sched_error + u8 list) option \<Rightarrow> bool" where
  "race_verdict n k got outcome \<longleftrightarrow>
     (case outcome of
        None \<Rightarrow> k < n \<and> (\<forall>x \<in> set got. isl x)
      | Some (Inr resp) \<Rightarrow> Inr resp \<in> set got
      | Some (Inl (AllRaceFailed _ _)) \<Rightarrow> k = n \<and> (\<forall>x \<in> set got. isl x)
      | Some (Inl _) \<Rightarrow> True)"

definition race_inv :: "sched_env \<Rightarrow> u8 list \<Rightarrow> ConfiguredProvider list \<Rightarrow> race_state \<Rightarrow> bool" where
  "race_inv E raw ps r \<longleftrightarrow>
     rc_received r + length (rc_chan r) + length (rc_running r) = length ps \<and>
     set (rc_running r) \<subseteq> set ps \<and>
     (\<forall>(p, out) \<in> set (rc_log r). p \<in> set ps \<and> (\<forall>resp. out = Inr resp \<longrightarrow> answers (env_lib E) raw resp)) \<and>
     (\<exists>got. map snd (rc_log r) = got @ rc_chan r \<and> length got = rc_received r \<and>
        race_verdict (length ps) (rc_received r) got (rc_outcome r))"

lemma race_finish_inv:
  assumes inv: "race_inv E raw ps r" and i: "i < length (rc_running r)"
  shows "race_inv E raw ps (race_finish E raw i res t r)"
proof -
  define p where "p = rc_running r ! i"
  let ?E = "E\<lparr>env_execute := \<lambda>_ _ _ _. res\<rparr>"
  obtain out s' where q: "queryWithValidation ?E \<lparr>cx_deadline = None, cx_cancelAt = None\<rparr> p raw
      \<lparr>ss_now = t, ss_stats = rc_stats r, ss_sent = []\<rparr> = (out, s')" by fastforce
  have ok: "answers (env_lib E) raw resp" if "out = Inr resp" for resp
    using query_Inr [of ?E _ p raw _ resp s'] q that by (simp add: answered_by_def)
  have r': "race_finish E raw i res t r = r\<lparr>rc_running := take i (rc_running r) @ drop (Suc i) (rc_running r),
      rc_chan := rc_chan r @ [out], rc_log := rc_log r @ [(p, out)], rc_stats := ss_stats s'\<rparr>"
    using q by (simp add: race_finish_def p_def)
  have p: "p \<in> set ps" using inv i by (auto simp: race_inv_def p_def)
  have sub: "set (take i (rc_running r) @ drop (Suc i) (rc_running r)) \<subseteq> set ps"
    using inv by (auto simp: race_inv_def dest: in_set_takeD in_set_dropD)
  obtain got where got: "map snd (rc_log r) = got @ rc_chan r" "length got = rc_received r"
    "race_verdict (length ps) (rc_received r) got (rc_outcome r)"
    using inv by (auto simp: race_inv_def)
  have logok: "\<forall>(p, out) \<in> set (rc_log r @ [(p, out)]). p \<in> set ps \<and> (\<forall>resp. out = Inr resp \<longrightarrow> answers (env_lib E) raw resp)"
    using inv p ok by (auto simp: race_inv_def)
  show ?thesis unfolding race_inv_def r'
    using inv i sub logok got by (auto simp: race_inv_def intro!: exI [of _ got])
qed

lemma race_receive_inv:
  assumes inv: "race_inv E raw ps r" and o: "rc_outcome r = None" "rc_chan r \<noteq> []"
  shows "race_inv E raw ps (race_receive (length ps) r)"
proof -
  obtain x rest where c: "rc_chan r = x # rest" using o(2) by (cases "rc_chan r") auto
  obtain got where got: "map snd (rc_log r) = got @ x # rest" "length got = rc_received r" "\<forall>x \<in> set got. isl x"
    "rc_received r < length ps"
    using inv o(1) c by (auto simp: race_inv_def race_verdict_def)
  have base: "rc_received r + Suc (length rest) + length (rc_running r) = length ps" "set (rc_running r) \<subseteq> set ps"
    "\<forall>(p, out) \<in> set (rc_log r). p \<in> set ps \<and> (\<forall>resp. out = Inr resp \<longrightarrow> answers (env_lib E) raw resp)"
    using inv c by (auto simp: race_inv_def)
  have g': "map snd (rc_log r) = (got @ [x]) @ rest" "length (got @ [x]) = Suc (rc_received r)" using got by simp_all
  show ?thesis
  proof (cases x)
    case (Inl err)
    show ?thesis unfolding race_inv_def race_receive_def c Inl
      using base got g' Inl by (auto simp: race_verdict_def intro!: exI [of _ "got @ [x]"])
  next
    case (Inr resp)
    show ?thesis unfolding race_inv_def race_receive_def c Inr
      using base got g' Inr by (auto simp: race_verdict_def intro!: exI [of _ "got @ [x]"])
  qed
qed

lemma race_step_inv: "race_step E raw (length ps) r r' \<Longrightarrow> race_inv E raw ps r \<Longrightarrow> race_inv E raw ps r'"
proof (induction rule: race_step.induct)
  case (finish i r res t)
  then show ?case by (intro race_finish_inv)
next
  case (receive r)
  then show ?case by (intro race_receive_inv)
next
  case (done_ctx r e)
  then show ?case by (auto simp: race_inv_def race_verdict_def)
qed

lemma race_start_inv: "ps \<noteq> [] \<Longrightarrow> race_inv E raw ps (race_start ps st)"
  by (simp add: race_inv_def race_start_def race_verdict_def)

lemma race_reachable_inv:
  assumes "(race_step E raw (length ps))\<^sup>*\<^sup>* (race_start ps st) r" "ps \<noteq> []"
  shows "race_inv E raw ps r"
  using assms(1)
  by (induction rule: rtranclp_induct) (auto intro: race_start_inv [OF assms(2)] race_step_inv)

text \<open>
  C15. Under every interleaving of the goroutines of a race: an answer handed out passed validation
  and came from one of the providers; the race reports failure of all only when every provider has
  finished and none of them gave a valid answer; and while the caller has no outcome some goroutine is
  still running or a result waits in the channel, so the caller never blocks for good.
\<close>

theorem race_every_interleaving:
  assumes "(race_step E raw (length ps))\<^sup>*\<^sup>* (race_start ps st) r" "ps \<noteq> []"
  shows "(\<forall>resp. rc_outcome r = Some (Inr resp) \<longrightarrow>
        answers (env_lib E) raw resp \<and> (\<exists>p \<in> set ps. (p, Inr resp) \<in> set (rc_log r))) \<and>
    (\<forall>k e. rc_outcome r = Some (Inl (AllRaceFailed k e)) \<longrightarrow>
        rc_running r = [] \<and> length (rc_log r) = length ps \<and> (\<forall>(p, out) \<in> set (rc_log r). isl out)) \<and>
    (rc_outcome r = None \<longrightarrow> rc_running r \<noteq> [] \<or> rc_chan r \<noteq> [])"
proof -
  have inv: "race_inv E raw ps r" using race_reachable_inv [OF assms] .
  then obtain got where got: "map snd (rc_log r) = got @ rc_chan r" "length got = rc_received r"
    "race_verdict (length ps) (rc_received r) got (rc_outcome r)"
    by (auto simp: race_inv_def)
  have n: "rc_received r + length (rc_chan r) + length (rc_running r) = length ps"
    and logok: "\<forall>(p, out) \<in> set (rc_log r). p \<in> set ps \<and> (\<forall>resp. out = Inr resp \<longrightarrow> answers (env_lib E) raw resp)"
    using inv by (auto simp: race_inv_def)
  show ?thesis
  proof (intro conjI allI impI)
    fix resp assume o: "rc_outcome r = Some (Inr resp)"
    then have "Inr resp \<in> set (map snd (rc_log r))" using got by (simp add: race_verdict_def)
    then obtain p where "(p, Inr resp) \<in> set (rc_log r)" by auto
    then show "answers (env_lib E) raw resp" "\<exists>p \<in> set ps. (p, Inr resp) \<in> set (rc_log r)" using logok by auto
  next
    fix k e assume o: "rc_outcome r = Some (Inl (AllRaceFailed k e))"
    then have a: "rc_received r = length ps" "\<forall>x \<in> set got. isl x" using got(3) by (simp_all add: race_verdict_def)
    then have "rc_chan r = []" "rc_running r = []" using n by simp_all
    with a got have m: "map snd (rc_log r) = got" "length got = length ps" by simp_all
    show "rc_running r = []" by fact
    show "length (rc_log r) = length ps" using m by (metis length_map)
    show "\<forall>(p, out) \<in> set (rc_log r). isl out" using a(2) m(1) by (auto simp: rev_image_eqI)
  next
    assume "rc_outcome r = None"
    then have "rc_received r < length ps" using got(3) by (simp add: race_verdict_def)
    then show "rc_running r \<noteq> [] \<or> rc_chan r \<noteq> []" using n by auto
  qed
qed

section \<open>The fallback chain\<close>

lemma valid_rcode: "answers L raw resp \<Longrightarrow> responseRcode L resp \<in> {None, Some RcodeSuccess, Some RcodeNameError}"
  by (auto simp: answers_def responseRcode_def)

text \<open>
  When the fallback chain is used. A valid answer of the main chain is final when neither
  NOERROR nor NXDOMAIN is a configured trigger (and neither is by default); nothing is sent to the
  fallback providers once the caller's context is done; a transport failure of the main chain while the caller is
  still waiting hands the query to the fallback chain under the caller's own context, whose answer
  is returned, unless that trigger is switched off.
\<close>

theorem fallback_policy:
  assumes "fp_FallbackProviders plan \<noteq> []"
    and "mc = (if fp_Timeout plan > 0 then WithTimeout c (fp_Timeout plan) (ss_now s) else c)"
    and "sched_Resolve E mc (fp_Mode plan) (fp_Providers plan) raw s = (res, s1)"
  shows "(\<forall>resp. res = Inr resp \<and> \<not> rcodeMatches RcodeSuccess (fp_OnRcode plan) \<and> \<not> rcodeMatches RcodeNameError (fp_OnRcode plan) \<longrightarrow>
        resolveWithFallback E c plan raw s = (Inr resp, s1)) \<and>
    (ctx_Err c (ss_now s1) \<noteq> None \<longrightarrow> resolveWithFallback E c plan raw s = (res, s1)) \<and>
    (\<forall>err resp s2. res = Inl err \<and> as_rcode err = None \<and> ctx_Err c (ss_now s1) = None \<and> fp_OnError plan \<noteq> Some False \<and>
        sched_Resolve E c (fp_Mode plan) (fp_FallbackProviders plan) raw s1 = (Inr resp, s2) \<longrightarrow>
        resolveWithFallback E c plan raw s = (Inr resp, s2))"
proof -
  have step: "resolveWithFallback E c plan raw s =
     (if \<not> needsFallback (env_lib E) c (ss_now s1) res plan then (res, s1)
      else case sched_Resolve E c (fp_Mode plan) (fp_FallbackProviders plan) raw s1 of
          (Inr resp, s2) \<Rightarrow> (Inr resp, s2)
        | (Inl fbErr, s2) \<Rightarrow> (Inl (case res of Inl _ \<Rightarrow> BothChainsFailed fbErr | Inr _ \<Rightarrow> FallbackChainFailed fbErr), s2))"
    using assms by (simp add: resolveWithFallback_def Let_def)
  show ?thesis
  proof (intro conjI allI impI)
    fix resp
    assume h: "res = Inr resp \<and> \<not> rcodeMatches RcodeSuccess (fp_OnRcode plan) \<and> \<not> rcodeMatches RcodeNameError (fp_OnRcode plan)"
    then have "answers (env_lib E) raw resp" using sched_Resolve_Inr assms(3) by (auto simp: answered_by_def)
    then have "\<not> needsFallback (env_lib E) c (ss_now s1) res plan"
      using h valid_rcode [of "env_lib E" raw resp] by (auto simp: needsFallback_def)
    then show "resolveWithFallback E c plan raw s = (Inr resp, s1)" using step h by simp
  next
    assume "ctx_Err c (ss_now s1) \<noteq> None"
    then have "\<not> needsFallback (env_lib E) c (ss_now s1) res plan" by (simp add: needsFallback_def)
    then show "resolveWithFallback E c plan raw s = (res, s1)" using step by simp
  next
    fix err resp s2
    assume h: "res = Inl err \<and> as_rcode err = None \<and> ctx_Err c (ss_now s1) = None \<and> fp_OnError plan \<noteq> Some False \<and>
        sched_Resolve E c (fp_Mode plan) (fp_FallbackProviders plan) raw s1 = (Inr resp, s2)"
    then have "needsFallback (env_lib E) c (ss_now s1) res plan"
      by (cases "fp_OnError plan") (auto simp: needsFallback_def onErrorOrDefault_def)
    then show "resolveWithFallback E c plan raw s = (Inr resp, s2)" using step h by simp
  qed
qed

section \<open>Witnesses\<close>

text \<open>Two providers: the first fails, the second answers; the query and the answer are one byte each.\<close>

definition sample_query :: msg where
  "sample_query = empty_msg\<lparr>m_Id := 7, m_Question := [\<lparr>q_Name = ''a.b.'', q_Qtype = TypeA, q_Qclass = ClassINET\<rparr>]\<rparr>"

definition sample_env :: sched_env where
  "sample_env = \<lparr>env_execute = (\<lambda>c p raw t. if cp_ID p = ''p2'' then (Inr [2], 5) else (Inl (TransportError ''refused''), 3)),
     env_lib = sample_lib\<lparr>Unpack := (\<lambda>b. if b = [1] then Some sample_query
       else if b = [2] then Some (sample_query\<lparr>m_Response := True, m_Question := [\<lparr>q_Name = ''A.b.'', q_Qtype = TypeA, q_Qclass = ClassINET\<rparr>]\<rparr>)
       else None)\<rparr>,
     env_ewma = (\<lambda>a b. (7 * a + 3 * b) div 10)\<rparr>"

definition sample_provider :: "string \<Rightarrow> ConfiguredProvider" where
  "sample_provider i = \<lparr>cp_ID = i, cp_Protocol = ''PLAIN'', cp_Server = [], cp_URL = [], cp_Weight = 1, cp_Pin = None, cp_Stats = None\<rparr>"

definition sample_providers :: "ConfiguredProvider list" where
  "sample_providers = [sample_provider ''p1'', sample_provider ''p2'']"

definition sample_sched_state :: sched_state where
  "sample_sched_state = \<lparr>ss_now = 0, ss_stats = [], ss_sent = []\<rparr>"

definition sample_plan :: FallbackPlan where
  "sample_plan = \<lparr>fp_Mode = ''single'', fp_Providers = [sample_provider ''p1''], fp_FallbackProviders = [sample_provider ''p2''],
     fp_Timeout = 0, fp_OnRcode = None, fp_OnError = None\<rparr>"

lemma sample_fallback_run:
  "fst (resolveWithFallback sample_env idle_ctx sample_plan [1] sample_sched_state) = Inr [2]"
  by code_simp

theorem scheduler_answers_valid_witness: "answers (env_lib sample_env) [1] [2]"
proof -
  obtain s' where "resolveWithFallback sample_env idle_ctx sample_plan [1] sample_sched_state = (Inr [2], s')"
    using sample_fallback_run by (metis prod.collapse)
  from scheduler_answers_valid [OF this] show ?thesis by blast
qed

theorem backup_chain_order_witness:
  "\<exists>out s' k. resolvePrimaryBackup sample_env idle_ctx sample_providers [1] sample_sched_state = (out, s') \<and>
     out = Inr [2] \<and> k \<le> 2 \<and> ss_sent s' = take k sample_providers"
proof -
  obtain out s' where r: "resolvePrimaryBackup sample_env idle_ctx sample_providers [1] sample_sched_state = (out, s')" by fastforce
  have "fst (resolvePrimaryBackup sample_env idle_ctx sample_providers [1] sample_sched_state) = Inr [2]" by code_simp
  then have "out = Inr [2]" using r by simp
  moreover obtain k where "k \<le> length sample_providers" "ss_sent s' = ss_sent sample_sched_state @ take k sample_providers"
    using backup_chain_order [OF r] by blast
  moreover have "length sample_providers = 2" "ss_sent sample_sched_state = []"
    by (simp_all add: sample_providers_def sample_sched_state_def)
  ultimately show ?thesis using r by (metis append_Nil)
qed

theorem race_every_interleaving_witness:
  "\<exists>r. (race_step sample_env [1] (length sample_providers))\<^sup>*\<^sup>* (race_start sample_providers []) r \<and>
     rc_outcome r = Some (Inr [2]) \<and> answers (env_lib sample_env) [1] [2]"
proof -
  let ?r0 = "race_start sample_providers []"
  let ?r1 = "race_finish sample_env [1] 1 (Inr [2], 5) 0 ?r0"
  let ?r2 = "race_receive 2 ?r1"
  have n: "length sample_providers = 2" "sample_providers \<noteq> []" by (simp_all add: sample_providers_def)
  have run: "rc_running ?r0 = sample_providers" "rc_outcome ?r1 = None \<and> rc_chan ?r1 = [Inr [2]]" "rc_outcome ?r2 = Some (Inr [2])"
    by (simp add: race_start_def, code_simp, code_simp)
  have "race_step sample_env [1] 2 ?r0 ?r1" by (rule race_step.finish) (simp add: run(1) n(1))
  moreover have "race_step sample_env [1] 2 ?r1 ?r2" by (rule race_step.receive) (use run(2) in auto)
  ultimately have steps: "(race_step sample_env [1] (length sample_providers))\<^sup>*\<^sup>* ?r0 ?r2" unfolding n by (meson converse_rtranclp_into_rtranclp rtranclp.rtrancl_refl)
  with race_every_interleaving [OF steps n(2)] run(3) show ?thesis by blast
qed

definition race_measure :: "race_state \<Rightarrow> nat" where
  "race_measure r = 2 * length (rc_running r) + length (rc_chan r) + (if rc_outcome r = None then 1 else 0)"

lemma race_step_measure: "race_step E raw n r r' \<Longrightarrow> race_measure r' < race_measure r"
proof (induction rule: race_step.induct)
  case (finish i r res t)
  then show ?case by (auto simp: race_measure_def race_finish_def Let_def split: prod.splits)
next
  case (receive r)
  then show ?case by (cases "rc_chan r") (auto simp: race_measure_def race_receive_def split: sum.splits)
next
  case (done_ctx r e)
  then show ?case by (simp add: race_measure_def)
qed



theorem fallback_policy_witness:
  "\<exists>s2. resolveWithFallback sample_env idle_ctx sample_plan [1] sample_sched_state = (Inr [2], s2)"
proof -
  obtain res s1 where m: "sched_Resolve sample_env idle_ctx (fp_Mode sample_plan) (fp_Providers sample_plan) [1] sample_sched_state = (res, s1)"
    by fastforce
  obtain fb s2 where f: "sched_Resolve sample_env idle_ctx (fp_Mode sample_plan) (fp_FallbackProviders sample_plan) [1] s1 = (fb, s2)"
    by fastforce
  have "fst (sched_Resolve sample_env idle_ctx (fp_Mode sample_plan) (fp_Providers sample_plan) [1] sample_sched_state) =
      Inl (UpstreamFailed ''p1'' (TransportError ''refused''))" by code_simp
  then have res: "res = Inl (UpstreamFailed ''p1'' (TransportError ''refused''))" using m by simp
  have "fst (sched_Resolve sample_env idle_ctx (fp_Mode sample_plan) (fp_FallbackProviders sample_plan) [1]
      (snd (sched_Resolve sample_env idle_ctx (fp_Mode sample_plan) (fp_Providers sample_plan) [1] sample_sched_state))) = Inr [2]"
    by code_simp
  then have fb: "fb = Inr [2]" using m f by simp
  have p: "fp_FallbackProviders sample_plan \<noteq> []" "idle_ctx = (if fp_Timeout sample_plan > 0 then WithTimeout idle_ctx (fp_Timeout sample_plan) (ss_now sample_sched_state) else idle_ctx)"
    by (simp_all add: sample_plan_def)
  show ?thesis using fallback_policy [OF p m] res f fb by (auto simp: sample_plan_def)
qed

end
