(* ===== verification/Zone.thy ===== *)
theory Zone
  imports Dns_Msg Longest_Match "HOL-Library.List_Lexorder" "HOL-Library.Char_ord"
begin

text \<open>
  Local authoritative zones (\<open>core/custom_zone.go\<close>): building the index from the
  configured zones under the three resource limits, and answering from it. The zone-file parser of
  \<open>miekg/dns\<close> is a parameter: from the text, the origin, the file name and the default TTL
  it gives the records it reads and the error it stops at, if any. Nested maps are nested
  association lists; iterating over one follows the list.
\<close>

section \<open>Configuration and state\<close>

definition MaxZoneCount :: nat where "MaxZoneCount = 32"
definition MaxZoneRecords :: int where "MaxZoneRecords = 10000"
definition MaxZoneContentBytes :: int where "MaxZoneContentBytes = 1048576"
definition DefaultZoneTTL :: u32 where "DefaultZoneTTL = 300"

record ZoneEntry =
  ze_ID :: string
  ze_Origin :: string
  ze_Content :: string
  ze_Enabled :: bool

record ZoneConfig =
  zc_Enabled :: bool
  zc_TTL :: u32
  zc_Zones :: "ZoneEntry list"

text \<open>\<open>freshId i\<close> is the identifier generated from the clock for the zone at position \<open>i\<close>.\<close>

definition NormalizeZoneConfig :: "(nat \<Rightarrow> string) \<Rightarrow> ZoneConfig \<Rightarrow> ZoneConfig" where
  "NormalizeZoneConfig freshId cfg =
     cfg\<lparr>zc_TTL := (if zc_TTL cfg = 0 then DefaultZoneTTL else zc_TTL cfg),
         zc_Zones := map (\<lambda>(i, z). z\<lparr>ze_Origin := trim_space (ze_Origin z),
             ze_ID := (if trim_space (ze_ID z) = [] then freshId i else trim_space (ze_ID z))\<rparr>)
           (enumerate 0 (zc_Zones cfg))\<rparr>"

datatype zone_error = TooManyZones | ZoneDisabled | ContentTooLarge | BudgetExhausted | Truncated
  | EmptyOrigin | BadOrigin | BadRecordName string | ParseError string

record ZoneState =
  zs_ID :: string
  zs_Origin :: string
  zs_Records :: int
  zs_Loaded :: bool
  zs_Error :: "zone_error option"

type_synonym rr_index = "(string \<times> (u16 \<times> rr list) list) list"
type_synonym zone_parser = "string \<Rightarrow> string \<Rightarrow> string \<Rightarrow> u32 \<Rightarrow> rr list \<times> string option"

record zoneBuild =
  zb_origin :: string
  zb_records :: rr_index
  zb_soa :: "rr option"
  zb_count :: int
  zb_trunc :: bool

record ZoneEngine =
  ze_enabled :: bool
  ze_defaultTTL :: u32
  ze_entries :: "ZoneEntry list"
  ze_records :: rr_index
  ze_owner :: "(string \<times> string) list"
  ze_origins :: "string list"
  ze_soaByOrigin :: "(string \<times> rr) list"
  ze_states :: "ZoneState list"

section \<open>Building the index\<close>

text \<open>Reading a missing key of a Go map gives the empty value.\<close>

definition look :: "('k \<times> 'v list) list \<Rightarrow> 'k \<Rightarrow> 'v list" where
  "look m k = (case map_of m k of None \<Rightarrow> [] | Some v \<Rightarrow> v)"

definition add_rr :: "string \<Rightarrow> u16 \<Rightarrow> rr list \<Rightarrow> rr_index \<Rightarrow> rr_index" where
  "add_rr name t rrs recs = (let byType = look recs name in AList.update name (AList.update t (look byType t @ rrs) byType) recs)"

definition zone_add :: "dns_lib \<Rightarrow> rr \<Rightarrow> zoneBuild \<Rightarrow> zone_error + zoneBuild" where
  "zone_add L rr b =
     (let key = to_lower (h_Name (rr_Hdr rr)) in
      if \<not> IsDomainName L key then Inl (BadRecordName (h_Name (rr_Hdr rr)))
      else if h_Class (rr_Hdr rr) \<noteq> ClassINET then Inr b
      else Inr (b\<lparr>zb_records := add_rr key (rr_type rr) [rr] (zb_records b), zb_count := zb_count b + 1,
             zb_soa := (case rr_Data rr of RD_SOA _ _ _ _ _ _ _ \<Rightarrow> if key = zb_origin b then Some rr else zb_soa b
                        | _ \<Rightarrow> zb_soa b)\<rparr>))"

fun parse_loop :: "dns_lib \<Rightarrow> int \<Rightarrow> rr list \<Rightarrow> string option \<Rightarrow> zoneBuild \<Rightarrow> zone_error + zoneBuild" where
  "parse_loop L budget [] err b = (case err of Some e \<Rightarrow> Inl (ParseError e) | None \<Rightarrow> Inr b)"
| "parse_loop L budget (rr # rrs) err b =
     (if zb_count b \<ge> budget then Inr (b\<lparr>zb_trunc := True\<rparr>)
      else case zone_add L rr b of Inl e \<Rightarrow> Inl e | Inr b' \<Rightarrow> parse_loop L budget rrs err b')"

definition parseZoneEntry :: "dns_lib \<Rightarrow> zone_parser \<Rightarrow> ZoneEntry \<Rightarrow> u32 \<Rightarrow> int \<Rightarrow> zone_error + zoneBuild" where
  "parseZoneEntry L ZP entry defaultTTL budget =
     (let o0 = to_lower (trim_space (ze_Origin entry)) in
      if o0 = [] then Inl EmptyOrigin
      else (let origin = Fqdn L o0 in
        if \<not> IsDomainName L origin then Inl BadOrigin
        else (let built = \<lparr>zb_origin = origin, zb_records = [], zb_soa = None, zb_count = 0, zb_trunc = False\<rparr> in
          if trim_space (ze_Content entry) = [] then Inr built
          else (let name = (if ze_ID entry = [] then ze_Origin entry else ze_ID entry);
                    (rrs, err) = ZP (ze_Content entry) origin name defaultTTL
                in parse_loop L budget rrs err built))))"

fun merge_types :: "string \<Rightarrow> (u16 \<times> rr list) list \<Rightarrow> rr_index \<Rightarrow> rr_index" where
  "merge_types name [] recs = recs"
| "merge_types name ((t, rrs) # ts) recs = merge_types name ts (add_rr name t rrs recs)"

text \<open>A name gets its entry even when it has no type.\<close>

fun merge_names :: "string \<Rightarrow> rr_index \<Rightarrow> rr_index \<Rightarrow> (string \<times> string) list \<Rightarrow> rr_index \<times> (string \<times> string) list" where
  "merge_names origin [] recs owner = (recs, owner)"
| "merge_names origin ((name, byType) # rest) recs owner =
     (let recs1 = (if map_of recs name = None then AList.update name [] recs else recs)
      in merge_names origin rest (merge_types name byType recs1) (AList.update name origin owner))"

definition mergeZone :: "zoneBuild \<Rightarrow> rr_index \<Rightarrow> (string \<times> string) list \<Rightarrow> rr_index \<times> (string \<times> string) list" where
  "mergeZone b recs owner = merge_names (zb_origin b) (zb_records b) recs owner"

record zone_acc =
  za_records :: rr_index
  za_owner :: "(string \<times> string) list"
  za_soa :: "(string \<times> rr) list"
  za_states :: "ZoneState list"
  za_budget :: int
  za_origins :: "string list"

definition skip_zone :: "ZoneEntry \<Rightarrow> zone_error \<Rightarrow> zone_acc \<Rightarrow> zone_acc" where
  "skip_zone z e a = a\<lparr>za_states := za_states a @
     [\<lparr>zs_ID = ze_ID z, zs_Origin = ze_Origin z, zs_Records = 0, zs_Loaded = False, zs_Error = Some e\<rparr>]\<rparr>"

definition load_zone :: "ZoneEntry \<Rightarrow> zoneBuild \<Rightarrow> zone_acc \<Rightarrow> zone_acc" where
  "load_zone z b a =
     (let (recs, owner) = mergeZone b (za_records a) (za_owner a)
      in a\<lparr>za_records := recs, za_owner := owner,
           za_soa := (case zb_soa b of None \<Rightarrow> za_soa a | Some s \<Rightarrow> AList.update (zb_origin b) s (za_soa a)),
           za_origins := za_origins a @ [zb_origin b], za_budget := za_budget a - zb_count b,
           za_states := za_states a @ [\<lparr>zs_ID = ze_ID z, zs_Origin = ze_Origin z, zs_Records = zb_count b, zs_Loaded = True,
             zs_Error = (if zb_trunc b then Some Truncated else None)\<rparr>]\<rparr>)"

fun build_loop :: "dns_lib \<Rightarrow> zone_parser \<Rightarrow> u32 \<Rightarrow> nat \<Rightarrow> ZoneEntry list \<Rightarrow> zone_acc \<Rightarrow> zone_acc" where
  "build_loop L ZP ttl i [] a = a"
| "build_loop L ZP ttl i (z # zs) a =
     build_loop L ZP ttl (i + 1) zs
       (if i \<ge> MaxZoneCount then skip_zone z TooManyZones a
        else if \<not> ze_Enabled z then skip_zone z ZoneDisabled a
        else if int (length (ze_Content z)) > MaxZoneContentBytes then skip_zone z ContentTooLarge a
        else if za_budget a \<le> 0 then skip_zone z BudgetExhausted a
        else case parseZoneEntry L ZP z ttl (za_budget a) of
          Inl e \<Rightarrow> skip_zone z e a
        | Inr b \<Rightarrow> load_zone z b a)"

definition zone_start :: zone_acc where
  "zone_start = \<lparr>za_records = [], za_owner = [], za_soa = [], za_states = [], za_budget = MaxZoneRecords, za_origins = []\<rparr>"

definition zone_build :: "dns_lib \<Rightarrow> zone_parser \<Rightarrow> ZoneConfig \<Rightarrow> ZoneEngine \<Rightarrow> ZoneEngine" where
  "zone_build L ZP cfg e =
     (let ttl1 = (if zc_TTL cfg = 0 then ze_defaultTTL e else zc_TTL cfg);
          ttl = (if ttl1 = 0 then DefaultZoneTTL else ttl1);
          a = build_loop L ZP ttl 0 (zc_Zones cfg) zone_start
      in \<lparr>ze_enabled = zc_Enabled cfg, ze_defaultTTL = (if zc_TTL cfg > 0 then zc_TTL cfg else ze_defaultTTL e),
          ze_entries = zc_Zones cfg, ze_records = za_records a, ze_owner = za_owner a,
          ze_origins = sort_key (\<lambda>org. - int (CountLabel L org)) (za_origins a),
          ze_soaByOrigin = za_soa a, ze_states = za_states a\<rparr>)"

definition NewZoneEngine :: "dns_lib \<Rightarrow> zone_parser \<Rightarrow> ZoneConfig \<Rightarrow> ZoneEngine" where
  "NewZoneEngine L ZP cfg =
     zone_build L ZP cfg \<lparr>ze_enabled = False, ze_defaultTTL = (if zc_TTL cfg = 0 then DefaultZoneTTL else zc_TTL cfg), ze_entries = [],
       ze_records = [], ze_owner = [], ze_origins = [], ze_soaByOrigin = [], ze_states = []\<rparr>"

definition zone_Configure :: "dns_lib \<Rightarrow> zone_parser \<Rightarrow> ZoneConfig \<Rightarrow> ZoneEngine \<Rightarrow> ZoneEngine" where
  "zone_Configure L ZP cfg e = zone_build L ZP cfg e"

definition zone_GetConfig :: "ZoneEngine \<Rightarrow> ZoneConfig" where
  "zone_GetConfig e = \<lparr>zc_Enabled = ze_enabled e, zc_TTL = ze_defaultTTL e, zc_Zones = ze_entries e\<rparr>"

definition RecordCount :: "ZoneEngine \<Rightarrow> nat" where
  "RecordCount e = length (ze_owner e)"

section \<open>Answering\<close>

definition covers_name :: "string \<Rightarrow> string \<Rightarrow> bool" where
  "covers_name name origin \<longleftrightarrow> name = origin \<or> has_suffix name (''.'' @ origin)"

definition authoritativeOrigin :: "ZoneEngine \<Rightarrow> string \<Rightarrow> string option" where
  "authoritativeOrigin e name = find (covers_name name) (ze_origins e)"

definition soaFor :: "ZoneEngine \<Rightarrow> string \<Rightarrow> rr" where
  "soaFor e origin = (case map_of (ze_soaByOrigin e) origin of Some s \<Rightarrow> s
     | None \<Rightarrow> mk_rr origin TypeSOA (ze_defaultTTL e)
         (RD_SOA ''localhost.'' ''nobody.invalid.'' 1 10000 2400 604800 (ze_defaultTTL e)))"

text \<open>
  Following a chain of CNAME records. The set of visited names is shared by the recursive calls, so
  it is threaded through; every nested call has one more name in it and a call with more than eight
  stops, so nine levels of fuel are enough (\<open>chase_fuel\<close>).
\<close>

fun chase_list :: "(string \<Rightarrow> string list \<Rightarrow> rr list \<times> string list) \<Rightarrow> rr list \<Rightarrow> string list \<Rightarrow> rr list \<times> string list" where
  "chase_list f [] visited = ([], visited)"
| "chase_list f (rr # rrs) visited =
     (case rr_Data rr of
        RD_CNAME target \<Rightarrow>
          (let (a, v1) = f target visited; (b, v2) = chase_list f rrs v1 in (rr # a @ b, v2))
      | _ \<Rightarrow> chase_list f rrs visited)"

primrec chaseLocked :: "nat \<Rightarrow> dns_lib \<Rightarrow> ZoneEngine \<Rightarrow> u16 \<Rightarrow> string \<Rightarrow> string list \<Rightarrow> rr list \<times> string list" where
  "chaseLocked 0 L e qtype target visited = ([], visited)"
| "chaseLocked (Suc n) L e qtype target visited =
     (if length visited > 8 then ([], visited)
      else (let name = to_lower (Fqdn L target) in
        if name \<in> set visited then ([], visited)
        else (let visited' = name # visited in
          if authoritativeOrigin e name = None then ([], visited')
          else (let byType = look (ze_records e) name in
            if byType = [] then ([], visited')
            else if look byType qtype \<noteq> [] then (look byType qtype, visited')
            else chase_list (chaseLocked n L e qtype) (look byType TypeCNAME) visited'))))"

fun lookup_chain :: "dns_lib \<Rightarrow> ZoneEngine \<Rightarrow> u16 \<Rightarrow> string \<Rightarrow> rr list \<Rightarrow> rr list" where
  "lookup_chain L e qtype name [] = []"
| "lookup_chain L e qtype name (rr # rrs) =
     (case rr_Data rr of
        RD_CNAME target \<Rightarrow> fst (chaseLocked 9 L e qtype target [name]) @ lookup_chain L e qtype name rrs
      | _ \<Rightarrow> lookup_chain L e qtype name rrs)"

definition zone_Lookup :: "dns_lib \<Rightarrow> ZoneEngine \<Rightarrow> string \<Rightarrow> u16 \<Rightarrow> rr list \<times> rr option \<times> bool" where
  "zone_Lookup L e qname qtype =
     (if \<not> ze_enabled e then ([], None, False)
      else (let name = to_lower (Fqdn L qname) in
        if \<not> IsDomainName L name then ([], None, False)
        else case authoritativeOrigin e name of None \<Rightarrow> ([], None, False)
          | Some origin \<Rightarrow>
             (let soa = Some (soaFor e origin); byType = look (ze_records e) name in
              if byType = [] then ([], soa, True)
              else if qtype = TypeANY then (concat (map snd byType), soa, True)
              else if look byType qtype \<noteq> [] then (look byType qtype, soa, True)
              else (let cnames = look byType TypeCNAME in
                if qtype = TypeCNAME \<or> cnames = [] then ([], soa, True)
                else (let chain = cnames @ lookup_chain L e qtype name cnames in
                  if length chain = length cnames then ([], soa, True) else (chain, soa, True))))))"

section \<open>Preview\<close>

text \<open>\<open>rr.String()\<close> belongs to the DNS package; the order of names and types is what the preview fixes.\<close>

definition ParseZonePreview ::
  "dns_lib \<Rightarrow> zone_parser \<Rightarrow> (rr \<Rightarrow> string) \<Rightarrow> string \<Rightarrow> string \<Rightarrow> u32 \<Rightarrow> zone_error + string list" where
  "ParseZonePreview L ZP rr_string origin content ttl0 =
     (let ttl = (if ttl0 = 0 then DefaultZoneTTL else ttl0) in
      if int (length content) > MaxZoneContentBytes then Inl ContentTooLarge
      else case parseZoneEntry L ZP \<lparr>ze_ID = ''preview'', ze_Origin = origin, ze_Content = content, ze_Enabled = True\<rparr> ttl MaxZoneRecords of
        Inl e \<Rightarrow> Inl e
      | Inr b \<Rightarrow>
          (if zb_trunc b then Inl Truncated
           else Inr (concat (map (\<lambda>name. concat (map (\<lambda>t. map rr_string (look (look (zb_records b) name) t))
                  (sort_key unat (map fst (look (zb_records b) name))))) (sort (map fst (zb_records b)))))))"

end
