(* ===== verification/Zone_Facts.thy ===== *)
theory Zone_Facts
  imports Zone
begin

text \<open>
  What local zones guarantee: a name under a loaded zone is always answered locally, from the most
  specific zone and with records of the index only; the index never exceeds the configured limits;
  chasing CNAME records terminates.
\<close>

section \<open>Chasing terminates\<close>

lemma chase_list_cong:
  assumes "\<And>t v. length v0 \<le> length v \<Longrightarrow> f t v = g t v" "\<And>t v. length v \<le> length (snd (f t v))"
  shows "length v0 \<le> length v \<Longrightarrow> chase_list f rrs v = chase_list g rrs v"
proof (induction rrs arbitrary: v)
  case (Cons rr rrs)
  show ?case
  proof (cases "\<exists>t. rr_Data rr = RD_CNAME t")
    case True
    then obtain t where t: "rr_Data rr = RD_CNAME t" by blast
    obtain a v1 where f: "f t v = (a, v1)" by fastforce
    then have "g t v = (a, v1)" "length v0 \<le> length v1"
      using assms(1) [OF Cons.prems, of t] assms(2) [of v t] Cons.prems by auto
    then show ?thesis using Cons.IH [of v1] f t by simp
  next
    case False
    then show ?thesis using Cons by (cases "rr_Data rr") auto
  qed
qed simp

lemma chase_list_grows:
  assumes "\<And>t v. length v \<le> length (snd (f t v))"
  shows "length v \<le> length (snd (chase_list f rrs v))"
proof (induction rrs arbitrary: v)
  case (Cons rr rrs)
  show ?case
  proof (cases "\<exists>t. rr_Data rr = RD_CNAME t")
    case True
    then obtain t where t: "rr_Data rr = RD_CNAME t" by blast
    obtain a v1 where f: "f t v = (a, v1)" by fastforce
    obtain b v2 where c: "chase_list f rrs v1 = (b, v2)" by fastforce
    have "length v \<le> length v1" "length v1 \<le> length v2" using assms [of v t] f Cons.IH [of v1] c by simp_all
    then show ?thesis using t f c by simp
  next
    case False
    then show ?thesis using Cons by (cases "rr_Data rr") auto
  qed
qed simp

lemma chase_grows: "length v \<le> length (snd (chaseLocked n L e qt t v))"
proof (induction n arbitrary: t v)
  case (Suc n)
  let ?name = "to_lower (Fqdn L t)"
  have "length (?name # v) \<le> length (snd (chase_list (chaseLocked n L e qt) rrs (?name # v)))" for rrs
    by (rule chase_list_grows) (rule Suc.IH)
  then have "length v \<le> length (snd (chase_list (chaseLocked n L e qt) rrs (?name # v)))" for rrs
    by (meson Suc_leD impossible_Cons linear order_trans)
  then show ?case by (simp add: Let_def)
qed simp

lemma chase_fuel_step: "9 \<le> n + length v \<Longrightarrow> chaseLocked n L e qt t v = chaseLocked (Suc n) L e qt t v"
proof (induction n arbitrary: t v)
  case 0
  then show ?case by simp
next
  case (Suc n)
  let ?name = "to_lower (Fqdn L t)"
  have "chase_list (chaseLocked n L e qt) rrs (?name # v) = chase_list (chaseLocked (Suc n) L e qt) rrs (?name # v)" for rrs
  proof (rule chase_list_cong [where v0 = "?name # v"])
    show "chaseLocked n L e qt t' v' = chaseLocked (Suc n) L e qt t' v'" if "length (?name # v) \<le> length v'" for t' v'
      using Suc.IH [of v' t'] Suc.prems that by simp
    show "length v' \<le> length (snd (chaseLocked n L e qt t' v'))" for t' v' by (rule chase_grows)
  qed simp
  then show ?case by (simp only: chaseLocked.simps(2) Let_def)
qed

text \<open>Nine levels decide: more fuel never changes what a lookup chases.\<close>

lemma chase_fuel: "chaseLocked (9 + k) L e qt t v = chaseLocked 9 L e qt t v"
proof (induction k)
  case (Suc k)
  have "chaseLocked (9 + k) L e qt t v = chaseLocked (Suc (9 + k)) L e qt t v" by (rule chase_fuel_step) simp
  with Suc show ?case by (simp only: add_Suc_right)
qed simp

section \<open>Answers come from the index\<close>

definition index_rrs :: "rr_index \<Rightarrow> rr set" where
  "index_rrs recs = {r. \<exists>name byType t rrs. map_of recs name = Some byType \<and> (t, rrs) \<in> set byType \<and> r \<in> set rrs}"

lemma look_Some: "x \<in> set (look m k) \<Longrightarrow> \<exists>v. map_of m k = Some v \<and> x \<in> set v"
  by (cases "map_of m k") (auto simp: look_def)

lemma look_index: "r \<in> set (look (look recs name) t) \<Longrightarrow> r \<in> index_rrs recs"
proof -
  assume "r \<in> set (look (look recs name) t)"
  then obtain rrs where r: "map_of (look recs name) t = Some rrs" "r \<in> set rrs" using look_Some by meson
  then obtain bt where "map_of recs name = Some bt" "(t, rrs) \<in> set bt"
    using look_Some [of "(t, rrs)" recs name] map_of_SomeD by fastforce
  with r show ?thesis unfolding index_rrs_def by blast
qed

lemma look_ANY_index: "r \<in> set (concat (map snd (look recs name))) \<Longrightarrow> r \<in> index_rrs recs"
proof -
  assume "r \<in> set (concat (map snd (look recs name)))"
  then obtain t rrs where r: "(t, rrs) \<in> set (look recs name)" "r \<in> set rrs" by auto
  then obtain bt where "map_of recs name = Some bt" "(t, rrs) \<in> set bt" using look_Some by meson
  with r show ?thesis unfolding index_rrs_def by blast
qed

lemma chase_list_index:
  assumes "\<And>t v. set (fst (f t v)) \<subseteq> S" "set rrs \<subseteq> S"
  shows "set (fst (chase_list f rrs v)) \<subseteq> S"
  using assms(2)
proof (induction rrs arbitrary: v)
  case (Cons rr rrs)
  show ?case
  proof (cases "\<exists>t. rr_Data rr = RD_CNAME t")
    case True
    then obtain t where t: "rr_Data rr = RD_CNAME t" by blast
    obtain a v1 where f: "f t v = (a, v1)" by fastforce
    obtain b v2 where c: "chase_list f rrs v1 = (b, v2)" by fastforce
    have "set a \<subseteq> S" "set b \<subseteq> S" using assms(1) [of t v] f Cons.IH [of v1] Cons.prems c by simp_all
    then show ?thesis using t f c Cons.prems by simp
  next
    case False
    then show ?thesis using Cons by (cases "rr_Data rr") auto
  qed
qed simp

lemma chase_index: "set (fst (chaseLocked n L e qt t v)) \<subseteq> index_rrs (ze_records e)"
proof (induction n arbitrary: t v)
  case (Suc n)
  let ?name = "to_lower (Fqdn L t)"
  have "set (fst (chase_list (chaseLocked n L e qt) (look (look (ze_records e) ?name) TypeCNAME) v')) \<subseteq> index_rrs (ze_records e)" for v'
    by (rule chase_list_index) (auto simp: look_index Suc.IH)
  moreover have "set (look (look (ze_records e) ?name) qt) \<subseteq> index_rrs (ze_records e)" by (auto simp: look_index)
  ultimately show ?case by (simp add: Let_def)
qed simp

lemma lookup_chain_index: "set (lookup_chain L e qt name rrs) \<subseteq> index_rrs (ze_records e)"
proof (induction rrs)
  case (Cons rr rrs)
  then show ?case using chase_index [of 9 L e qt _ "[name]"] by (cases "rr_Data rr") auto
qed simp

text \<open>
  C24. Local zones are authoritative: with the engine enabled, a lookup is decided locally exactly
  when the name lies under a loaded zone, so it never reaches an upstream; every record answered is
  one of the index; records of the asked type at the name are answered as they are; and every local
  decision comes with an SOA record for negative caching.
\<close>

theorem zone_lookup_authoritative:
  assumes "zone_Lookup L e qname qtype = (ans, soa, matched)" "name = to_lower (Fqdn L qname)"
  shows "(matched \<longleftrightarrow> ze_enabled e \<and> IsDomainName L name \<and> (\<exists>org \<in> set (ze_origins e). covers_name name org)) \<and>
    (matched \<longleftrightarrow> soa \<noteq> None) \<and> (\<not> matched \<longrightarrow> ans = []) \<and> set ans \<subseteq> index_rrs (ze_records e) \<and>
    (matched \<and> qtype \<noteq> TypeANY \<and> look (look (ze_records e) name) qtype \<noteq> [] \<longrightarrow> ans = look (look (ze_records e) name) qtype)"
proof (cases "ze_enabled e \<and> IsDomainName L name \<and> authoritativeOrigin e name \<noteq> None")
  case True
  then obtain orig where o: "authoritativeOrigin e name = Some orig" by blast
  then have ex: "\<exists>org \<in> set (ze_origins e). covers_name name org"
    by (auto simp: authoritativeOrigin_def find_Some_iff)
  let ?bt = "look (ze_records e) name" and ?soa = "soaFor e orig"
  define cn where "cn = look ?bt TypeCNAME"
  define ch where "ch = cn @ lookup_chain L e qtype name cn"
  have eq: "(ans, soa, matched) =
      (if ?bt = [] then ([], Some ?soa, True)
       else if qtype = TypeANY then (concat (map snd ?bt), Some ?soa, True)
       else if look ?bt qtype \<noteq> [] then (look ?bt qtype, Some ?soa, True)
       else if qtype = TypeCNAME \<or> cn = [] then ([], Some ?soa, True)
       else if length ch = length cn then ([], Some ?soa, True) else (ch, Some ?soa, True))"
    unfolding assms(1) [symmetric] using True o
    by (simp only: zone_Lookup_def Let_def cn_def ch_def assms(2) [symmetric] option.case if_True if_False not_True_eq_False simp_thms)
  have chi: "set ch \<subseteq> index_rrs (ze_records e)"
    using lookup_chain_index [of L e qtype name cn] by (auto simp: ch_def cn_def look_index)
  have m: "matched" "soa = Some ?soa" using eq by (auto split: if_splits)
  have sub: "set ans \<subseteq> index_rrs (ze_records e)"
    using eq chi by (auto simp: look_index look_ANY_index simp del: set_concat split: if_splits)
  have nil: "look ([] :: (u16 \<times> rr list) list) qtype = []" by (simp add: look_def)
  have dir: "qtype \<noteq> TypeANY \<and> look ?bt qtype \<noteq> [] \<longrightarrow> ans = look ?bt qtype"
    using eq nil by (auto split: if_splits)
  show ?thesis using True ex m sub dir by blast
next
  case False
  then have eq: "ans = [] \<and> soa = None \<and> \<not> matched"
    using assms by (auto simp: zone_Lookup_def Let_def split: if_splits option.splits)
  have "\<not> (ze_enabled e \<and> IsDomainName L name \<and> (\<exists>org \<in> set (ze_origins e). covers_name name org))"
    using False by (auto simp: authoritativeOrigin_def find_None_iff)
  then show ?thesis using eq by simp
qed

section \<open>The most specific zone\<close>

definition find_origin :: "dns_lib \<Rightarrow> string list \<Rightarrow> string \<Rightarrow> string option" where
  "find_origin L os name = find (covers_name name) (sort_key (\<lambda>org. - int (CountLabel L org)) os)"

interpretation zo: longest_match set covers_name "CountLabel L" "find_origin L" for L
  unfolding find_origin_def by (rule sorted_find_longest)

definition loaded_origins :: "dns_lib \<Rightarrow> zone_parser \<Rightarrow> ZoneConfig \<Rightarrow> ZoneEngine \<Rightarrow> string list" where
  "loaded_origins L ZP cfg e =
     za_origins (build_loop L ZP
       (let t1 = (if zc_TTL cfg = 0 then ze_defaultTTL e else zc_TTL cfg) in if t1 = 0 then DefaultZoneTTL else t1)
       0 (zc_Zones cfg) zone_start)"

lemma authoritativeOrigin_build:
  "authoritativeOrigin (zone_build L ZP cfg e) name = find_origin L (loaded_origins L ZP cfg e) name"
  by (simp add: authoritativeOrigin_def zone_build_def find_origin_def loaded_origins_def Let_def)

text \<open>
  Of nested zones the most specific one answers for a name: the zone picked covers the name and
  no loaded zone that covers it has more labels; no zone is picked exactly when none covers it.
\<close>

theorem zone_most_specific:
  "case authoritativeOrigin (zone_build L ZP cfg e) name of
     None \<Rightarrow> \<forall>org \<in> set (loaded_origins L ZP cfg e). \<not> covers_name name org
   | Some org \<Rightarrow> org \<in> set (loaded_origins L ZP cfg e) \<and> covers_name name org \<and>
       (\<forall>org' \<in> set (loaded_origins L ZP cfg e). covers_name name org' \<longrightarrow> CountLabel L org' \<le> CountLabel L org)"
  unfolding authoritativeOrigin_build
  using zo.lookup_None_iff [of L "loaded_origins L ZP cfg e" name] zo.lookup_sound [of L "loaded_origins L ZP cfg e" name]
    zo.lookup_best [of L "loaded_origins L ZP cfg e" name]
  by (cases "find_origin L (loaded_origins L ZP cfg e) name") auto

section \<open>Limits\<close>

definition index_size :: "rr_index \<Rightarrow> nat" where
  "index_size recs = sum_list (map (\<lambda>(_, bt). sum_list (map (\<lambda>(_, rrs). length rrs) bt)) recs)"

definition types_size :: "(u16 \<times> rr list) list \<Rightarrow> nat" where
  "types_size bt = sum_list (map (\<lambda>(_, rrs). length rrs) bt)"

lemma types_size_Cons [simp]: "types_size ((t, rrs) # bt) = length rrs + types_size bt" "types_size [] = 0"
  by (simp_all add: types_size_def)

lemma index_size_Cons [simp]: "index_size ((n, bt) # recs) = types_size bt + index_size recs" "index_size [] = 0"
  by (simp_all add: index_size_def types_size_def)

lemma types_size_update: "types_size (AList.update t (look bt t @ rrs) bt) = types_size bt + length rrs"
  by (induction bt) (auto simp: look_def split: if_splits)

lemma index_size_update: "index_size (AList.update n bt' recs) + types_size (look recs n) = index_size recs + types_size bt'"
  by (induction recs) (auto simp: look_def split: if_splits)

lemma add_rr_size: "index_size (add_rr n t rrs recs) = index_size recs + length rrs"
  using index_size_update [of n "AList.update t (look (look recs n) t @ rrs) (look recs n)" recs]
  by (simp add: add_rr_def Let_def types_size_update)

lemma merge_types_size: "index_size (merge_types n ts recs) = index_size recs + types_size ts"
  by (induction n ts recs rule: merge_types.induct) (auto simp: add_rr_size)

lemma merge_names_size: "index_size (fst (merge_names org bs recs owner)) = index_size recs + index_size bs"
proof (induction org bs recs owner rule: merge_names.induct)
  case (2 origin name byType rest recs owner)
  have "index_size (if map_of recs name = None then AList.update name [] recs else recs) = index_size recs"
    using index_size_update [of name "[]" recs] by (simp add: look_def split: option.splits)
  then show ?case using 2 by (simp add: Let_def merge_types_size)
qed simp

lemma zone_add_count:
  assumes "zone_add L rr b = Inr b'" "zb_count b = int (index_size (zb_records b))"
  shows "zb_count b' = int (index_size (zb_records b')) \<and> zb_count b' \<le> zb_count b + 1 \<and> zb_origin b' = zb_origin b"
  using assms by (auto simp: zone_add_def Let_def add_rr_size split: if_splits)

lemma parse_loop_count:
  assumes "parse_loop L budget rrs err b = Inr b'" "zb_count b = int (index_size (zb_records b))" "zb_count b \<le> budget"
  shows "zb_count b' = int (index_size (zb_records b')) \<and> zb_count b' \<le> budget"
  using assms
proof (induction rrs arbitrary: b)
  case Nil
  then show ?case by (cases err) auto
next
  case (Cons rr rrs)
  show ?case
  proof (cases "zb_count b \<ge> budget")
    case True
    then show ?thesis using Cons.prems by auto
  next
    case False
    then obtain b1 where b1: "zone_add L rr b = Inr b1" "parse_loop L budget rrs err b1 = Inr b'"
      using Cons.prems(1) by (auto split: sum.splits)
    have "zb_count b1 \<le> budget" using zone_add_count [OF b1(1) Cons.prems(2)] False by linarith
    then show ?thesis using zone_add_count [OF b1(1) Cons.prems(2)] Cons.IH [OF b1(2)] by blast
  qed
qed

lemma parseZoneEntry_count:
  assumes "parseZoneEntry L ZP z ttl budget = Inr b" "0 < budget"
  shows "zb_count b = int (index_size (zb_records b)) \<and> zb_count b \<le> budget"
proof -
  let ?org = "Fqdn L (to_lower (trim_space (ze_Origin z)))"
  let ?b0 = "\<lparr>zb_origin = ?org, zb_records = [], zb_soa = None, zb_count = 0, zb_trunc = False\<rparr>"
  show ?thesis
  proof (cases "trim_space (ze_Content z) = []")
    case True
    then have "b = ?b0" using assms(1) by (auto simp: parseZoneEntry_def Let_def split: if_splits)
    then show ?thesis using assms(2) by simp
  next
    case False
    then obtain rrs err where "parse_loop L budget rrs err ?b0 = Inr b"
      using assms(1) by (auto simp: parseZoneEntry_def Let_def split: if_splits prod.splits)
    from parse_loop_count [OF this] show ?thesis using assms(2) by simp
  qed
qed

definition acc_ok :: "nat \<Rightarrow> zone_acc \<Rightarrow> bool" where
  "acc_ok i a \<longleftrightarrow> 0 \<le> za_budget a \<and> za_budget a + int (index_size (za_records a)) = MaxZoneRecords \<and>
     length (za_states a) = i \<and> length (za_origins a) \<le> min i MaxZoneCount"

lemma skip_zone_ok: "acc_ok i a \<Longrightarrow> acc_ok (Suc i) (skip_zone z err a)"
  by (auto simp: acc_ok_def skip_zone_def)

lemma load_zone_ok:
  assumes "acc_ok i a" "i < MaxZoneCount" "zb_count b = int (index_size (zb_records b))" "zb_count b \<le> za_budget a"
  shows "acc_ok (Suc i) (load_zone z b a)"
  using assms merge_names_size [of "zb_origin b" "zb_records b" "za_records a" "za_owner a"]
  by (auto simp: acc_ok_def load_zone_def mergeZone_def Let_def split: prod.splits)

lemma build_loop_ok: "acc_ok i a \<Longrightarrow> acc_ok (i + length zs) (build_loop L ZP ttl i zs a)"
proof (induction zs arbitrary: i a)
  case (Cons z zs)
  let ?a = "if i \<ge> MaxZoneCount then skip_zone z TooManyZones a
        else if \<not> ze_Enabled z then skip_zone z ZoneDisabled a
        else if int (length (ze_Content z)) > MaxZoneContentBytes then skip_zone z ContentTooLarge a
        else if za_budget a \<le> 0 then skip_zone z BudgetExhausted a
        else case parseZoneEntry L ZP z ttl (za_budget a) of Inl e \<Rightarrow> skip_zone z e a | Inr b \<Rightarrow> load_zone z b a"
  have "acc_ok (Suc i) ?a"
  proof (cases "i < MaxZoneCount \<and> 0 < za_budget a")
    case True
    then show ?thesis
      using Cons.prems skip_zone_ok load_zone_ok [OF Cons.prems] parseZoneEntry_count [of L ZP z ttl "za_budget a"]
      by (cases "parseZoneEntry L ZP z ttl (za_budget a)") auto
  next
    case False
    then show ?thesis using skip_zone_ok [OF Cons.prems] by auto
  qed
  then show ?case using Cons.IH [of "Suc i" ?a] by simp
qed simp

text \<open>
  Whatever the zone files contain, the engine stays within its limits: at most 32 zones are
  loaded, the index holds at most 10000 records in all, however a directive of a file expands, and
  every configured zone gets one status entry.
\<close>

theorem zone_build_limits:
  "index_size (ze_records (zone_build L ZP cfg e)) \<le> 10000 \<and>
   length (ze_origins (zone_build L ZP cfg e)) \<le> 32 \<and>
   length (ze_states (zone_build L ZP cfg e)) = length (zc_Zones cfg)"
proof -
  define ttl where "ttl = (let t1 = (if zc_TTL cfg = 0 then ze_defaultTTL e else zc_TTL cfg) in if t1 = 0 then DefaultZoneTTL else t1)"
  define a where "a = build_loop L ZP ttl 0 (zc_Zones cfg) zone_start"
  have "acc_ok 0 zone_start" by (simp add: acc_ok_def zone_start_def MaxZoneRecords_def)
  from build_loop_ok [OF this, of "zc_Zones cfg"] have a: "acc_ok (length (zc_Zones cfg)) a" by (simp add: a_def)
  have z: "ze_records (zone_build L ZP cfg e) = za_records a" "length (ze_origins (zone_build L ZP cfg e)) = length (za_origins a)"
    "ze_states (zone_build L ZP cfg e) = za_states a"
    by (simp_all add: zone_build_def a_def ttl_def Let_def)
  show ?thesis unfolding z using a by (auto simp: acc_ok_def MaxZoneRecords_def MaxZoneCount_def)
qed

section \<open>A loop of CNAME records\<close>

definition cname_rr :: "string \<Rightarrow> string \<Rightarrow> rr" where
  "cname_rr n t = mk_rr n TypeCNAME 300 (RD_CNAME t)"

definition loop_config :: ZoneConfig where
  "loop_config = \<lparr>zc_Enabled = True, zc_TTL = 300,
     zc_Zones = [\<lparr>ze_ID = ''z'', ze_Origin = ''lan'', ze_Content = ''loop'', ze_Enabled = True\<rparr>]\<rparr>"

text \<open>The parsed file: two aliases that point at each other, and an address.\<close>

definition loop_parser :: zone_parser where
  "loop_parser content origin name ttl =
     ([cname_rr ''a.lan.'' ''b.lan.'', cname_rr ''b.lan.'' ''a.lan.'', mk_rr ''c.lan.'' TypeA 300 (RD_A [10, 0, 0, 1])], None)"

definition loop_engine :: ZoneEngine where "loop_engine = NewZoneEngine sample_lib loop_parser loop_config"

text \<open>
  A defect: the code announces that a CNAME chain which leads nowhere is answered as NODATA,
  because a lone CNAME is useless to a client. That holds for a chain that ends at once; for a loop
  of two aliases the answer to an address query is the two aliases with no address.
\<close>

theorem zone_cname_loop_answer:
  "fst (zone_Lookup sample_lib loop_engine ''a.lan.'' TypeA) = [cname_rr ''a.lan.'' ''b.lan.'', cname_rr ''b.lan.'' ''a.lan.'']"
  by code_simp

theorem zone_lookup_authoritative_witness:
  "snd (snd (zone_Lookup sample_lib loop_engine ''C.lan'' TypeA)) \<and>
   set (fst (zone_Lookup sample_lib loop_engine ''C.lan'' TypeA)) \<subseteq> index_rrs (ze_records loop_engine)"
proof -
  have m: "snd (snd (zone_Lookup sample_lib loop_engine ''C.lan'' TypeA))" by code_simp
  obtain ans soa mt where r: "zone_Lookup sample_lib loop_engine ''C.lan'' TypeA = (ans, soa, mt)" by (rule prod_cases3)
  from zone_lookup_authoritative [OF r refl] m show ?thesis unfolding r by simp
qed

theorem zone_most_specific_witness:
  "authoritativeOrigin (zone_build sample_lib loop_parser loop_config loop_engine) ''a.lan.'' = Some ''lan.'' \<and>
   ''lan.'' \<in> set (loaded_origins sample_lib loop_parser loop_config loop_engine)"
proof -
  have o: "authoritativeOrigin (zone_build sample_lib loop_parser loop_config loop_engine) ''a.lan.'' = Some ''lan.''" by code_simp
  then show ?thesis using zone_most_specific [of sample_lib loop_parser loop_config loop_engine "''a.lan.''"] by simp
qed

end
