(* ===== verification/Go_Addr.thy ===== *)
theory Go_Addr
  imports Go_Net
begin

text \<open>
  Network endpoints and header fields of the Go standard library, as the listeners use them:
  \<open>net.Addr\<close>, \<open>net.SplitHostPort\<close> and \<open>http.Header.Get\<close>.
\<close>

section \<open>Endpoints\<close>

text \<open>A \<open>net.Addr\<close> by its dynamic type; any other implementation is known by its text only.\<close>

datatype net_addr = UDPAddr ip int | TCPAddr ip int | OtherAddr string

definition index_byte :: "char \<Rightarrow> string \<Rightarrow> nat option" where
  "index_byte c s = find (\<lambda>i. s ! i = c) [0..<length s]"

definition last_index_byte :: "char \<Rightarrow> string \<Rightarrow> nat option" where
  "last_index_byte c s = find (\<lambda>i. s ! i = c) (rev [0..<length s])"

text \<open>\<open>net.SplitHostPort\<close>; \<open>None\<close> for its error results.\<close>

definition SplitHostPort :: "string \<Rightarrow> (string \<times> string) option" where
  "SplitHostPort hp =
     (case last_index_byte (CHR '':'') hp of None \<Rightarrow> None
      | Some i \<Rightarrow>
         (if hd hp = CHR ''[''
          then (case index_byte (CHR '']'') hp of None \<Rightarrow> None
            | Some e \<Rightarrow>
               (if e + 1 \<noteq> i \<or> CHR ''['' \<in> set (drop 1 hp) \<or> CHR '']'' \<in> set (drop (e + 1) hp) then None
                else Some (take (e - 1) (drop 1 hp), drop (i + 1) hp)))
          else if CHR '':'' \<in> set (take i hp) \<or> CHR ''['' \<in> set hp \<or> CHR '']'' \<in> set hp then None
          else Some (take i hp, drop (i + 1) hp)))"

definition JoinHostPort :: "string \<Rightarrow> string \<Rightarrow> string" where
  "JoinHostPort host port =
     (if CHR '':'' \<in> set host \<or> CHR ''%'' \<in> set host then ''['' @ host @ '']:'' @ port else host @ '':'' @ port)"

section \<open>Header fields\<close>

type_synonym http_header = "(string \<times> string list) list"

definition token_char :: "char \<Rightarrow> bool" where
  "token_char c = (c \<in> set upper_letters \<or> c \<in> set lower_letters \<or> c \<in> set ''0123456789!#$%&*+-.^_`|~'' \<or> c = CHR 0x27)"

definition to_upper_char :: "char \<Rightarrow> char" where
  "to_upper_char c = (case map_of (zip lower_letters upper_letters) c of None \<Rightarrow> c | Some d \<Rightarrow> d)"

definition to_upper :: "string \<Rightarrow> string" where
  "to_upper s = map to_upper_char s"

fun canonical :: "bool \<Rightarrow> string \<Rightarrow> string" where
  "canonical up [] = []"
| "canonical up (c # s) = (if up then to_upper_char c else to_lower_char c) # canonical (c = CHR ''-'') s"

definition CanonicalMIMEHeaderKey :: "string \<Rightarrow> string" where
  "CanonicalMIMEHeaderKey s = (if list_all token_char s then canonical True s else s)"

definition header_Get :: "http_header \<Rightarrow> string \<Rightarrow> string" where
  "header_Get h key =
     (case map_of h (CanonicalMIMEHeaderKey key) of Some (v # vs) \<Rightarrow> v | _ \<Rightarrow> [])"

section \<open>Facts\<close>

lemma split_on_parts: "split_on d (s @ d # t) = split_on d s @ split_on d t"
  by (induction s) (auto split: list.splits)

lemma SplitHostPort_samples:
  "SplitHostPort ''[fe80::1%eth0]:53'' = Some (''fe80::1%eth0'', ''53'')" "SplitHostPort ''10.0.0.1:53'' = Some (''10.0.0.1'', ''53'')"
  "SplitHostPort ''::1:53'' = None" "SplitHostPort ''10.0.0.1'' = None"
  by code_simp+

end
