(* ===== verification/Real_Ip.thy ===== *)
theory Real_Ip
  imports Go_Addr Ip_Text
begin

text \<open>
  Where a query came from (\<open>dns/realip.go\<close>, \<open>dns/client_id.go\<close> and
  \<open>remoteAddrFromRequest\<close> of \<open>dns/server_tls_params.go\<close>): the client address of a
  request behind a trusted proxy, and the identifier a client gives in a server name or a path.
\<close>

section \<open>Trusted proxies\<close>

record TrustedProxy =
  tp_ips :: "string list"
  tp_nets :: "ip_net list"
  tp_header :: string

datatype proxy_error = BadProxyNet string | BadProxyAddr string

fun proxy_loop :: "string list \<Rightarrow> TrustedProxy \<Rightarrow> proxy_error + TrustedProxy" where
  "proxy_loop [] tp = Inr tp"
| "proxy_loop (raw # rest) tp =
     (let entry = trim_space raw in
      if entry = [] then proxy_loop rest tp
      else if str_contains entry ''/''
      then (case ParseCIDR entry of None \<Rightarrow> Inl (BadProxyNet entry)
            | Some n \<Rightarrow> proxy_loop rest (tp\<lparr>tp_nets := tp_nets tp @ [n]\<rparr>))
      else (let a = ParseIP entry in
            if a = [] then Inl (BadProxyAddr entry)
            else proxy_loop rest (tp\<lparr>tp_ips := tp_ips tp @ [ip_String (norm_ip a)]\<rparr>)))"

definition NewTrustedProxy :: "bool \<Rightarrow> string list \<Rightarrow> string \<Rightarrow> proxy_error + TrustedProxy option" where
  "NewTrustedProxy enabled entries header =
     (if \<not> enabled then Inr None
      else case proxy_loop entries \<lparr>tp_ips = [], tp_nets = [], tp_header = trim_space header\<rparr> of
        Inl e \<Rightarrow> Inl e | Inr tp \<Rightarrow> Inr (Some tp))"

definition proxy_Empty :: "TrustedProxy option \<Rightarrow> bool" where
  "proxy_Empty t = (case t of None \<Rightarrow> True | Some tp \<Rightarrow> tp_ips tp = [] \<and> tp_nets tp = [])"

definition Trusts :: "TrustedProxy option \<Rightarrow> ip \<Rightarrow> bool" where
  "Trusts t a =
     (case t of None \<Rightarrow> False
      | Some tp \<Rightarrow>
         a \<noteq> [] \<and> (ip_String (norm_ip a) \<in> set (tp_ips tp) \<or> list_ex (\<lambda>n. net_Contains n (norm_ip a)) (tp_nets tp)))"

definition normalizeIP :: "ip \<Rightarrow> ip" where
  "normalizeIP a = (if a = [] then [] else norm_ip a)"

definition parseIPHeader :: "string \<Rightarrow> ip" where
  "parseIPHeader v =
     (let s0 = trim_space v in
      if s0 = [] then []
      else (let s = trim_with (\<lambda>c. c = CHR 0x22) s0 in
        if ParseIP s \<noteq> [] then normalizeIP (ParseIP s)
        else case SplitHostPort s of None \<Rightarrow> []
          | Some (host, _) \<Rightarrow> if ParseIP host \<noteq> [] then normalizeIP (ParseIP host) else []))"

fun ipFromAddr :: "net_addr option \<Rightarrow> ip" where
  "ipFromAddr None = []"
| "ipFromAddr (Some (TCPAddr a p)) = normalizeIP a"
| "ipFromAddr (Some (UDPAddr a p)) = normalizeIP a"
| "ipFromAddr (Some (OtherAddr s)) = (case SplitHostPort s of None \<Rightarrow> [] | Some (host, _) \<Rightarrow> parseIPHeader host)"

text \<open>The loop of \<open>parseForwardedFor\<close>, over the parts from right to left.\<close>

fun forwarded_loop :: "TrustedProxy option \<Rightarrow> string list \<Rightarrow> ip" where
  "forwarded_loop t [] = []"
| "forwarded_loop t (p # ps) =
     (let a = parseIPHeader p in if a = [] then [] else if \<not> Trusts t a then a else forwarded_loop t ps)"

definition parseForwardedFor :: "string \<Rightarrow> TrustedProxy option \<Rightarrow> ip" where
  "parseForwardedFor v t = (if trim_space v = [] then [] else forwarded_loop t (rev (split_on (CHR '','') v)))"

definition headerXForwardedFor :: string where "headerXForwardedFor = ''X-Forwarded-For''"
definition headerXRealIP :: string where "headerXRealIP = ''X-Real-IP''"

definition ipFromCustomHeader :: "TrustedProxy \<Rightarrow> http_header \<Rightarrow> ip" where
  "ipFromCustomHeader tp h =
     (if tp_header tp = [] then []
      else if equal_fold (tp_header tp) headerXForwardedFor then parseForwardedFor (header_Get h (tp_header tp)) (Some tp)
      else parseIPHeader (header_Get h (tp_header tp)))"

definition RealClientIP :: "TrustedProxy option \<Rightarrow> net_addr option \<Rightarrow> http_header \<Rightarrow> ip" where
  "RealClientIP t peer h =
     (let peerIP = ipFromAddr peer in
      case t of None \<Rightarrow> peerIP
      | Some tp \<Rightarrow>
         (if peerIP = [] \<or> \<not> Trusts t peerIP then peerIP
          else if ipFromCustomHeader tp h \<noteq> [] then ipFromCustomHeader tp h
          else if parseForwardedFor (header_Get h headerXForwardedFor) t \<noteq> [] then parseForwardedFor (header_Get h headerXForwardedFor) t
          else if parseIPHeader (header_Get h headerXRealIP) \<noteq> [] then parseIPHeader (header_Get h headerXRealIP)
          else peerIP))"

section \<open>The client address of an HTTP request\<close>

definition remoteAddrFromRequest :: "string \<Rightarrow> net_addr option" where
  "remoteAddrFromRequest remote =
     (if remote = [] then None
      else case SplitHostPort remote of None \<Rightarrow> None
        | Some (host, portStr) \<Rightarrow>
           (if ParseIP host = [] then None
            else case Atoi portStr of None \<Rightarrow> None | Some port \<Rightarrow> Some (TCPAddr (ParseIP host) port)))"

definition doHClientAddr :: "TrustedProxy option \<Rightarrow> string \<Rightarrow> http_header \<Rightarrow> net_addr option" where
  "doHClientAddr tp remote h =
     (let peer = remoteAddrFromRequest remote in
      case tp of None \<Rightarrow> peer
      | Some _ \<Rightarrow>
         (let a = RealClientIP tp peer h in
          if a = [] then peer
          else Some (TCPAddr a (case peer of Some (TCPAddr _ port) \<Rightarrow> port | _ \<Rightarrow> 0))))"

section \<open>Client identifiers\<close>

definition maxClientIDLen :: nat where "maxClientIDLen = 63"

datatype client_id_error = EmptyClientID | ClientIDTooLong nat | ClientIDBadChar string

definition alnum :: "char \<Rightarrow> bool" where
  "alnum c = (c \<in> set lower_letters \<or> c \<in> set upper_letters \<or> c \<in> set ''0123456789'')"

text \<open>\<open>None\<close> is the nil error.\<close>

definition ValidateClientID :: "string \<Rightarrow> client_id_error option" where
  "ValidateClientID s =
     (let label = trim_space s in
      if label = [] then Some EmptyClientID
      else if length label > maxClientIDLen then Some (ClientIDTooLong (length label))
      else if list_all (\<lambda>i. alnum (label ! i) \<or> (label ! i = CHR ''-'' \<and> 0 < i \<and> i < length label - 1)) [0..<length label]
      then None else Some (ClientIDBadChar label))"

definition normalizeServerName :: "string \<Rightarrow> string" where
  "normalizeServerName s = to_lower (trim_suffix (trim_space s) ''.'')"

definition ClientIDFromServerName :: "string \<Rightarrow> string \<Rightarrow> string" where
  "ClientIDFromServerName hostSNI cliSNI =
     (let host = normalizeServerName hostSNI; client = normalizeServerName cliSNI in
      if host = [] \<or> client = [] \<or> client = host then []
      else (let tail = CHR ''.'' # host in
        if \<not> has_suffix client tail then []
        else (let prefix = take (length client - length tail) client in
          if prefix = [] \<or> CHR ''.'' \<in> set prefix then []
          else if ValidateClientID prefix \<noteq> None then []
          else to_lower prefix)))"

section \<open>Facts\<close>

lemma Trusts_norm_ip [simp]: "Trusts t (norm_ip a) = Trusts t a"
  by (simp add: Trusts_def split: option.splits)

text \<open>The parts a chain of trusted proxies appended: each an address, each trusted.\<close>

definition trusted_parts :: "TrustedProxy option \<Rightarrow> string list \<Rightarrow> bool" where
  "trusted_parts t ps = list_all (\<lambda>p. parseIPHeader p \<noteq> [] \<and> Trusts t (parseIPHeader p)) ps"

lemma forwarded_loop_trusted:
  "trusted_parts t ps \<Longrightarrow> forwarded_loop t (ps @ qs) = forwarded_loop t qs"
  by (induction ps) (auto simp: trusted_parts_def Let_def)

lemma trim_space_not_Nil: "c \<in> set s \<Longrightarrow> \<not> is_space c \<Longrightarrow> trim_space s \<noteq> []"
proof -
  assume "c \<in> set s" "\<not> is_space c"
  then have "c \<in> set (dropWhile is_space s)" by (induction s) auto
  then have "c \<in> set (rev (dropWhile is_space s))" by simp
  then have "dropWhile is_space (rev (dropWhile is_space s)) \<noteq> []" using \<open>\<not> is_space c\<close>
    by (auto simp: dropWhile_eq_Nil_conv)
  then show ?thesis by (simp add: trim_space_def trim_with_def)
qed

lemma parseForwardedFor_client:
  assumes "split_on (CHR '','') rest = c # ts" "trusted_parts t ts"
    and "parseIPHeader c \<noteq> []" "\<not> Trusts t (parseIPHeader c)"
  shows "parseForwardedFor (spoofed @ '','' @ rest) t = parseIPHeader c"
proof -
  have "trim_space (spoofed @ '','' @ rest) \<noteq> []"
    by (rule trim_space_not_Nil [of "CHR '',''"]) (simp_all add: is_space_def)
  moreover have "trusted_parts t (rev ts)" using assms(2) by (simp add: trusted_parts_def)
  ultimately show ?thesis
    using assms(1,3,4) by (simp add: parseForwardedFor_def split_on_parts forwarded_loop_trusted)
qed


definition sample_proxy :: TrustedProxy where
  "sample_proxy = \<lparr>tp_ips = [''10.0.0.2''], tp_nets = [], tp_header = []\<rparr>"


lemma normalizeServerName_lower: "to_lower (normalizeServerName s) = normalizeServerName s"
  by (simp add: normalizeServerName_def)

text \<open>
  A server name yields a client identifier exactly when it is one label in front of the name of
  the service and that label is a valid identifier: names of other hosts, deeper names and the
  service name itself never do, and the identifier is the label in lower case.
\<close>

theorem client_id_exact:
  "ClientIDFromServerName host cli = r \<and> r \<noteq> [] \<longleftrightarrow>
   normalizeServerName cli = r @ CHR ''.'' # normalizeServerName host \<and> normalizeServerName host \<noteq> [] \<and>
   r \<noteq> [] \<and> CHR ''.'' \<notin> set r \<and> ValidateClientID r = None"
proof (intro iffI conjI)
  assume l: "ClientIDFromServerName host cli = r \<and> r \<noteq> []"
  define c where "c = normalizeServerName cli"
  define t where "t = CHR ''.'' # normalizeServerName host"
  have x: "has_suffix c t" "normalizeServerName host \<noteq> []" "CHR ''.'' \<notin> set (take (length c - length t) c)"
    "ValidateClientID (take (length c - length t) c) = None" "r = to_lower (take (length c - length t) c)"
    using l by (auto simp: ClientIDFromServerName_def Let_def c_def t_def split: if_splits)
  obtain q where q: "c = q @ t" using x(1) by (auto simp: has_suffix_iff)
  have "to_lower q = q" using normalizeServerName_lower [of cli] q by (simp add: c_def [symmetric])
  then have "r = q" "take (length c - length t) c = q" using x(5) q by simp_all
  then show "normalizeServerName cli = r @ CHR ''.'' # normalizeServerName host" "normalizeServerName host \<noteq> []"
    "r \<noteq> []" "CHR ''.'' \<notin> set r" "ValidateClientID r = None"
    using x q l by (simp_all add: c_def t_def)
next
  assume r: "normalizeServerName cli = r @ CHR ''.'' # normalizeServerName host \<and> normalizeServerName host \<noteq> [] \<and>
   r \<noteq> [] \<and> CHR ''.'' \<notin> set r \<and> ValidateClientID r = None"
  have "to_lower r = r" using normalizeServerName_lower [of cli] r by simp
  moreover have "has_suffix (r @ CHR ''.'' # normalizeServerName host) (CHR ''.'' # normalizeServerName host)"
    by (auto simp: has_suffix_iff)
  ultimately show "ClientIDFromServerName host cli = r" using r by (simp add: ClientIDFromServerName_def Let_def)
  show "r \<noteq> []" using r by blast
qed

text \<open>A text with a zone is no address for \<open>net.ParseIP\<close>.\<close>

lemma read_number_bad: "c \<in> set s \<Longrightarrow> dv c = None \<Longrightarrow> read_number b dv acc s = None"
  by (induction s arbitrary: acc) (auto split: option.splits)

lemma split_on_covers: "c \<in> set s \<Longrightarrow> c \<noteq> d \<Longrightarrow> \<exists>p\<in>set (split_on d s). c \<in> set p"
  by (induction s) (auto split: list.splits)

lemma all_some_None: "None \<in> set xs \<Longrightarrow> all_some xs = None"
  by (induction xs rule: all_some.induct) auto

lemma parse_octet_bad: "c \<in> set s \<Longrightarrow> digit_value c = None \<Longrightarrow> parse_octet s = None"
  using read_number_bad [of c s digit_value] by (auto simp: parse_octet_def)

lemma parse_group_bad: "c \<in> set s \<Longrightarrow> hex_value c = None \<Longrightarrow> parse_group s = None"
  using read_number_bad [of c s hex_value] by (auto simp: parse_group_def)

lemma percent_values: "digit_value (CHR ''%'') = None" "hex_value (CHR ''%'') = None"
  by code_simp+

lemma parse_ipv4_zone: "CHR ''%'' \<in> set s \<Longrightarrow> parse_ipv4 s = None"
proof -
  assume "CHR ''%'' \<in> set s"
  then obtain p where "p \<in> set (split_on (CHR ''.'') s)" "CHR ''%'' \<in> set p" using split_on_covers [of "CHR ''%''" s] by auto
  then have "None \<in> set (map parse_octet (split_on (CHR ''.'') s))" using parse_octet_bad percent_values by force
  then show ?thesis by (simp add: parse_ipv4_def Let_def all_some_None)
qed

lemma parse_groups_zone: "g \<in> set gs \<Longrightarrow> CHR ''%'' \<in> set g \<Longrightarrow> parse_groups b gs = None"
  by (induction b gs rule: parse_groups.induct) (auto simp: parse_ipv4_zone parse_group_bad percent_values split: option.splits)

lemma colon_parts_zone: "CHR ''%'' \<in> set s \<Longrightarrow> parse_groups b (colon_parts s) = None"
  using split_on_covers [of "CHR ''%''" s "CHR '':''"] parse_groups_zone by (auto simp: colon_parts_def)

lemma cut_ellipsis_covers: "cut_ellipsis s = Some (l, r) \<Longrightarrow> c \<in> set s \<Longrightarrow> c \<noteq> CHR '':'' \<Longrightarrow> c \<in> set l \<or> c \<in> set r"
  by (induction s arbitrary: l r rule: cut_ellipsis.induct) (auto split: if_splits)

lemma ParseIP_zone: "CHR ''%'' \<in> set s \<Longrightarrow> ParseIP s = []"
proof -
  assume z: "CHR ''%'' \<in> set s"
  then have "parse_groups True (split_on (CHR '':'') s) = None"
    using split_on_covers [of "CHR ''%''" s "CHR '':''"] parse_groups_zone by auto
  moreover have "parse_groups False (colon_parts l) = None \<or> parse_groups True (colon_parts r) = None"
    if "cut_ellipsis s = Some (l, r)" for l r
    using cut_ellipsis_covers [OF that z] colon_parts_zone by auto
  ultimately have "parse_ipv6 s = None" by (auto simp: parse_ipv6_def split: option.splits)
  with z show ?thesis by (simp add: ParseIP_def parse_addr_def parse_ipv4_zone)
qed

text \<open>
  The remote address of a DoH request from a link-local IPv6 client carries a zone, and is
  then lost: whatever the zone and the port, the query has no client address.
\<close>

theorem doh_zone_address_lost:
  "SplitHostPort remote = Some (host, port) \<and> CHR ''%'' \<in> set host \<longrightarrow> doHClientAddr None remote h = None"
  by (simp add: doHClientAddr_def remoteAddrFromRequest_def Let_def ParseIP_zone)

theorem doh_zone_address_lost_witness:
  "SplitHostPort ''[fe80::1%eth0]:53'' = Some (''fe80::1%eth0'', ''53'') \<and> doHClientAddr None ''[fe80::1%eth0]:53'' [] = None"
  using doh_zone_address_lost [of "''[fe80::1%eth0]:53''" "''fe80::1%eth0''" "''53''" "[]"] SplitHostPort_samples(1) by simp

end
