(* ===== verification/Safe_Browsing.thy ===== *)
theory Safe_Browsing
  imports Scheduler
begin

text \<open>
  Reputation checks (\<open>core/safebrowsing.go\<close>): a name is checked against the malware list and
  the parental list of a third party, which sees only hash prefixes. The native kernel, which
  computes digests and keeps the answer cache, is a parameter: its replies are functions of
  the calls it has seen, the arguments and the time. The upstream resolver is the injected interface
  \<open>Resolver.Exchange\<close>, a function of the context, the request and the time that also says how
  long it took. Counters are mathematical integers: 64 bits are not exhausted by counting queries.
\<close>

type_synonym exchange = "ctx \<Rightarrow> msg \<Rightarrow> time \<Rightarrow> (msg option \<times> string option) \<times> duration"

section \<open>Configuration\<close>

definition ReasonSafeBrowsing :: string where "ReasonSafeBrowsing = ''SAFE_BROWSING''"
definition ReasonParentalControl :: string where "ReasonParentalControl = ''PARENTAL_CONTROL''"
definition DefaultSafeBrowsingTimeoutMs :: int where "DefaultSafeBrowsingTimeoutMs = 3000"
definition DefaultSafeBrowsingCacheTTL :: int where "DefaultSafeBrowsingCacheTTL = 600"

record SafeBrowsingConfig =
  sbc_Enabled :: bool
  sbc_ParentalEnabled :: bool
  sbc_TimeoutMs :: int
  sbc_CacheSize :: int
  sbc_CacheTTLSeconds :: int

definition NormalizeSafeBrowsingConfig :: "SafeBrowsingConfig \<Rightarrow> SafeBrowsingConfig" where
  "NormalizeSafeBrowsingConfig cfg = cfg\<lparr>
     sbc_TimeoutMs := (if sbc_TimeoutMs cfg < 100 \<or> sbc_TimeoutMs cfg > 30000 then DefaultSafeBrowsingTimeoutMs else sbc_TimeoutMs cfg),
     sbc_CacheSize := max 0 (sbc_CacheSize cfg),
     sbc_CacheTTLSeconds := (if sbc_CacheTTLSeconds cfg \<le> 0 then DefaultSafeBrowsingCacheTTL else sbc_CacheTTLSeconds cfg)\<rparr>"

section \<open>The kernel\<close>

record sbPlan =
  pl_empty :: bool
  pl_found :: bool
  pl_blocked :: bool
  pl_hashes :: "u8 list list"
  pl_question :: string

datatype sb_service = Malware | Parental

fun service_name :: "sb_service \<Rightarrow> string" where
  "service_name Malware = ReasonSafeBrowsing"
| "service_name Parental = ReasonParentalControl"

datatype sb_call =
    PlanCall sb_service string time
  | ApplyCall sb_service "u8 list list" "string list" time
  | ConfigureCall int int

record sb_kernel =
  k_plan :: "sb_call list \<Rightarrow> sb_service \<Rightarrow> string \<Rightarrow> time \<Rightarrow> sbPlan option"
  k_apply :: "sb_call list \<Rightarrow> sb_service \<Rightarrow> u8 list list \<Rightarrow> string list \<Rightarrow> time \<Rightarrow> bool"

section \<open>The engine\<close>

record SafeBrowsingEngine =
  sb_enabled :: bool
  sb_parental :: bool
  sb_timeout :: duration
  sb_resolver :: bool
  sb_calls :: "sb_call list"
  sb_cacheHits :: int
  sb_cacheMiss :: int
  sb_lookups :: int
  sb_failures :: int
  sb_blockedCnt :: int

datatype sb_error = NotReady | ExchangeFailed string

record SafeBrowsingVerdict =
  sv_Blocked :: bool
  sv_Service :: string
  sv_Failed :: bool
  sv_Err :: "sb_error option"

definition no_verdict :: SafeBrowsingVerdict where
  "no_verdict = \<lparr>sv_Blocked = False, sv_Service = [], sv_Failed = False, sv_Err = None\<rparr>"

definition NewSafeBrowsingEngine :: "SafeBrowsingConfig \<Rightarrow> bool \<Rightarrow> SafeBrowsingEngine" where
  "NewSafeBrowsingEngine cfg0 resolver =
     (let cfg = NormalizeSafeBrowsingConfig cfg0 in
      \<lparr>sb_enabled = sbc_Enabled cfg, sb_parental = sbc_ParentalEnabled cfg, sb_timeout = sbc_TimeoutMs cfg * millisecond,
       sb_resolver = resolver, sb_calls = [ConfigureCall (sbc_CacheSize cfg) (sbc_CacheTTLSeconds cfg)],
       sb_cacheHits = 0, sb_cacheMiss = 0, sb_lookups = 0, sb_failures = 0, sb_blockedCnt = 0\<rparr>)"

definition sb_IsEnabled :: "SafeBrowsingEngine \<Rightarrow> bool" where
  "sb_IsEnabled e = (sb_enabled e \<or> sb_parental e)"

definition sb_Configure :: "SafeBrowsingConfig \<Rightarrow> SafeBrowsingEngine \<Rightarrow> SafeBrowsingEngine" where
  "sb_Configure cfg0 e =
     (let cfg = NormalizeSafeBrowsingConfig cfg0 in
      e\<lparr>sb_calls := sb_calls e @ [ConfigureCall (sbc_CacheSize cfg) (sbc_CacheTTLSeconds cfg)],
        sb_enabled := sbc_Enabled cfg, sb_parental := sbc_ParentalEnabled cfg, sb_timeout := sbc_TimeoutMs cfg * millisecond\<rparr>)"

definition sb_SetResolver :: "bool \<Rightarrow> SafeBrowsingEngine \<Rightarrow> SafeBrowsingEngine" where
  "sb_SetResolver r e = e\<lparr>sb_resolver := r\<rparr>"

definition sb_record :: "bool \<Rightarrow> bool \<Rightarrow> SafeBrowsingEngine \<Rightarrow> SafeBrowsingEngine" where
  "sb_record fromCache blocked e =
     (let e1 = (if fromCache then e\<lparr>sb_cacheHits := sb_cacheHits e + 1\<rparr> else e\<lparr>sb_cacheMiss := sb_cacheMiss e + 1\<rparr>);
          e2 = e1\<lparr>sb_lookups := sb_lookups e1 + 1\<rparr>
      in if blocked then e2\<lparr>sb_blockedCnt := sb_blockedCnt e2 + 1\<rparr> else e2)"

definition recordFailure :: "SafeBrowsingEngine \<Rightarrow> SafeBrowsingEngine" where
  "recordFailure e = e\<lparr>sb_failures := sb_failures e + 1\<rparr>"

text \<open>\<open>SetQuestion\<close> draws the identifier of a request at random: \<open>mid\<close>, per time.\<close>

definition buildHashQuestion :: "(time \<Rightarrow> u16) \<Rightarrow> time \<Rightarrow> string \<Rightarrow> msg" where
  "buildHashQuestion mid t name = empty_msg\<lparr>m_Id := mid t, m_RecursionDesired := True,
     m_Question := [\<lparr>q_Name = name, q_Qtype = TypeTXT, q_Qclass = ClassINET\<rparr>]\<rparr>"

fun txt_of :: "rdata \<Rightarrow> string list" where
  "txt_of (RD_TXT ts) = ts"
| "txt_of _ = []"

definition txtChunks :: "msg option \<Rightarrow> string list" where
  "txtChunks resp = (case resp of None \<Rightarrow> [] | Some m \<Rightarrow> concat (map (\<lambda>r. txt_of (rr_Data r)) (m_Answer m)))"

text \<open>
  A check threads the engine, the time and the requests that left. \<open>sb_plan\<close> and
  \<open>sb_apply\<close> are the calls into the kernel.
\<close>

type_synonym sb_run = "SafeBrowsingEngine \<times> time \<times> msg list"

definition sb_plan :: "sb_kernel \<Rightarrow> sb_service \<Rightarrow> string \<Rightarrow> sb_run \<Rightarrow> sbPlan option \<times> sb_run" where
  "sb_plan K sv host = (\<lambda>(e, t, out).
     (k_plan K (sb_calls e) sv host t, e\<lparr>sb_calls := sb_calls e @ [PlanCall sv host t]\<rparr>, t, out))"

definition verdict_of :: "sb_service \<Rightarrow> bool \<Rightarrow> SafeBrowsingVerdict" where
  "verdict_of sv blocked = (if blocked then no_verdict\<lparr>sv_Blocked := True, sv_Service := service_name sv\<rparr> else no_verdict)"

definition failed_verdict :: "sb_error \<Rightarrow> SafeBrowsingVerdict" where
  "failed_verdict err = no_verdict\<lparr>sv_Failed := True, sv_Err := Some err\<rparr>"

definition checkPlanned ::
  "sb_kernel \<Rightarrow> (time \<Rightarrow> u16) \<Rightarrow> exchange \<Rightarrow> ctx \<Rightarrow> sb_service \<Rightarrow> sbPlan \<Rightarrow> sb_run \<Rightarrow> SafeBrowsingVerdict \<times> sb_run" where
  "checkPlanned K mid X c sv plan = (\<lambda>(e, t, out).
     if pl_found plan then (verdict_of sv (pl_blocked plan), sb_record True (pl_blocked plan) e, t, out)
     else (let req = buildHashQuestion mid t (pl_question plan);
               ((resp, err), d) = X c req t;
               t1 = t + d; out1 = out @ [req]
           in case err of Some x \<Rightarrow> (failed_verdict (ExchangeFailed x), recordFailure e, t1, out1)
              | None \<Rightarrow>
                 (let blocked = k_apply K (sb_calls e) sv (pl_hashes plan) (txtChunks resp) t1;
                      e1 = e\<lparr>sb_calls := sb_calls e @ [ApplyCall sv (pl_hashes plan) (txtChunks resp) t1]\<rparr>
                  in (verdict_of sv blocked, sb_record False blocked e1, t1, out1))))"

definition check_parental ::
  "sb_kernel \<Rightarrow> (time \<Rightarrow> u16) \<Rightarrow> exchange \<Rightarrow> ctx \<Rightarrow> bool \<Rightarrow> string \<Rightarrow> sbPlan \<Rightarrow> sb_run \<Rightarrow> SafeBrowsingVerdict \<times> sb_run" where
  "check_parental K mid X c sbOn host plan r =
     (if \<not> sbOn then checkPlanned K mid X c Parental plan r
      else (let (p, r1) = sb_plan K Parental host r in
        case p of None \<Rightarrow> (no_verdict, r1) | Some plan' \<Rightarrow> checkPlanned K mid X c Parental plan' r1))"

definition sb_Check ::
  "sb_kernel \<Rightarrow> (time \<Rightarrow> u16) \<Rightarrow> exchange \<Rightarrow> ctx \<Rightarrow> string \<Rightarrow> SafeBrowsingEngine \<Rightarrow> time \<Rightarrow> SafeBrowsingVerdict \<times> sb_run" where
  "sb_Check K mid X c0 host e0 t0 =
     (let sbOn = sb_enabled e0; pcOn = sb_parental e0 in
      if \<not> sbOn \<and> \<not> pcOn then (no_verdict, e0, t0, [])
      else (let (p, r) = sb_plan K (if sbOn then Malware else Parental) host (e0, t0, []) in
        case p of None \<Rightarrow> (no_verdict, r)
        | Some plan \<Rightarrow>
           if \<not> sb_resolver e0 then (failed_verdict NotReady, recordFailure (fst r), snd r)
           else if pl_empty plan then (no_verdict, r)
           else (let c = WithTimeout c0 (sb_timeout e0) t0 in
             if \<not> sbOn then check_parental K mid X c sbOn host plan r
             else (let (v, r1) = checkPlanned K mid X c Malware plan r in
               if sv_Blocked v \<or> sv_Failed v then (v, r1)
               else if \<not> pcOn then (no_verdict, r1)
               else check_parental K mid X c sbOn host plan r1))))"

section \<open>What a check may do\<close>

definition planned :: "sb_kernel \<Rightarrow> (time \<Rightarrow> u16) \<Rightarrow> string \<Rightarrow> msg \<Rightarrow> bool" where
  "planned K mid host m \<longleftrightarrow> (\<exists>calls sv t t' plan. k_plan K calls sv host t = Some plan \<and> m = buildHashQuestion mid t' (pl_question plan))"

text \<open>The kernel listed the name: its answer cache says so, or it found a digest in an answer.\<close>

definition listed :: "sb_kernel \<Rightarrow> sb_service \<Rightarrow> string \<Rightarrow> bool" where
  "listed K sv host \<longleftrightarrow> (\<exists>calls t plan. k_plan K calls sv host t = Some plan \<and>
     (pl_found plan \<and> pl_blocked plan \<or> (\<exists>calls' chunks t'. k_apply K calls' sv (pl_hashes plan) chunks t')))"

definition sound_run :: "sb_kernel \<Rightarrow> (time \<Rightarrow> u16) \<Rightarrow> string \<Rightarrow> nat \<Rightarrow> SafeBrowsingVerdict \<times> sb_run \<Rightarrow> bool" where
  "sound_run K mid host n r = (case r of (v, e, t, out) \<Rightarrow>
     length out \<le> n \<and> (\<forall>m\<in>set out. planned K mid host m) \<and>
     (sv_Blocked v \<longrightarrow> \<not> sv_Failed v \<and> (\<exists>sv. sv_Service v = service_name sv \<and> listed K sv host)))"

lemma verdict_simps [simp]:
  "sv_Blocked no_verdict = False" "sv_Failed no_verdict = False"
  "sv_Blocked (failed_verdict x) = False" "sv_Failed (failed_verdict x) = True"
  "sv_Blocked (verdict_of sv b) = b" "sv_Failed (verdict_of sv b) = False"
  "b \<Longrightarrow> sv_Service (verdict_of sv b) = service_name sv"
  by (simp_all add: no_verdict_def failed_verdict_def verdict_of_def)

lemma checkPlanned_sound:
  assumes "k_plan K calls sv host t' = Some plan" "length out \<le> n" "\<forall>m\<in>set out. planned K mid host m"
  shows "sound_run K mid host (Suc n) (checkPlanned K mid X c sv plan (e, t, out))"
proof (cases "pl_found plan")
  case True
  then have "listed K sv host" if "pl_blocked plan" using assms(1) that by (auto simp: listed_def)
  then show ?thesis using True assms by (auto simp: sound_run_def checkPlanned_def)
next
  case False
  obtain resp err d where x: "X c (buildHashQuestion mid t (pl_question plan)) t = ((resp, err), d)" by (metis surj_pair)
  have q: "planned K mid host (buildHashQuestion mid t (pl_question plan))" unfolding planned_def using assms(1) by blast
  show ?thesis
  proof (cases err)
    case None
    have "listed K sv host" if "k_apply K (sb_calls e) sv (pl_hashes plan) (txtChunks resp) (t + d)"
      unfolding listed_def using assms(1) that by blast
    then show ?thesis using False x None q assms by (auto simp: sound_run_def checkPlanned_def Let_def)
  next
    case (Some y)
    then show ?thesis using False x q assms by (auto simp: sound_run_def checkPlanned_def Let_def)
  qed
qed

lemma check_parental_sound:
  assumes "\<not> sbOn \<Longrightarrow> k_plan K calls Parental host t' = Some plan" "length out \<le> n" "\<forall>m\<in>set out. planned K mid host m"
  shows "sound_run K mid host (Suc n) (check_parental K mid X c sbOn host plan (e, t, out))"
proof (cases sbOn)
  case False
  then show ?thesis using checkPlanned_sound [OF assms(1)] assms(2,3) by (simp add: check_parental_def)
next
  case True
  show ?thesis
  proof (cases "k_plan K (sb_calls e) Parental host t")
    case None
    then show ?thesis using True assms by (simp add: check_parental_def sb_plan_def sound_run_def)
  next
    case (Some p)
    then show ?thesis using True checkPlanned_sound [OF Some assms(2,3)] by (simp add: check_parental_def sb_plan_def)
  qed
qed

lemma sound_run_mono: "sound_run K mid host n r \<Longrightarrow> n \<le> n' \<Longrightarrow> sound_run K mid host n' r"
  by (auto simp: sound_run_def)

lemma sb_Check_sound: "sound_run K mid host 2 (sb_Check K mid X c host e t)"
proof (cases "sb_enabled e \<or> sb_parental e")
  case False
  then show ?thesis by (simp add: sb_Check_def sound_run_def)
next
  case on: True
  define first where "first = (if sb_enabled e then Malware else Parental)"
  define e1 where "e1 = e\<lparr>sb_calls := sb_calls e @ [PlanCall first host t]\<rparr>"
  define cx where "cx = WithTimeout c (sb_timeout e) t"
  show ?thesis
  proof (cases "k_plan K (sb_calls e) first host t")
    case None
    then show ?thesis using on by (simp add: sb_Check_def sb_plan_def first_def [symmetric] sound_run_def Let_def)
  next
    case (Some plan)
    show ?thesis
    proof (cases "sb_resolver e \<and> \<not> pl_empty plan")
      case False
      then show ?thesis using on Some by (auto simp: sb_Check_def sb_plan_def first_def [symmetric] sound_run_def Let_def)
    next
      case go: True
      show ?thesis
      proof (cases "sb_enabled e")
        case False
        then have "sound_run K mid host (Suc 0) (check_parental K mid X cx False host plan (e1, t, []))"
          using Some by (intro check_parental_sound) (auto simp: first_def)
        then show ?thesis using False on go Some
          by (simp add: sb_Check_def sb_plan_def first_def cx_def e1_def Let_def sound_run_mono)
      next
        case sb: True
        have e1: "e\<lparr>sb_calls := sb_calls e @ [PlanCall Malware host t]\<rparr> = e1" using sb by (simp add: e1_def first_def)
        obtain v e2 t2 out where r: "checkPlanned K mid X cx Malware plan (e1, t, []) = (v, e2, t2, out)" by (metis surj_pair)
        have m: "sound_run K mid host (Suc 0) (v, e2, t2, out)"
          using checkPlanned_sound [of K "sb_calls e" Malware host t plan "[]" 0 mid X cx e1 t] Some sb r by (simp add: first_def)
        then have out: "length out \<le> Suc 0" "\<forall>m\<in>set out. planned K mid host m" by (auto simp: sound_run_def)
        have "sound_run K mid host (Suc (Suc 0)) (check_parental K mid X cx True host plan (e2, t2, out))"
          by (rule check_parental_sound) (use out in simp_all)
        moreover have "sound_run K mid host 2 (no_verdict, e2, t2, out)" using out by (simp add: sound_run_def)
        ultimately show ?thesis using sb go Some r sound_run_mono [OF m, of 2]
          by (simp add: sb_Check_def sb_plan_def first_def cx_def [symmetric] e1 Let_def numeral_2_eq_2)
      qed
    qed
  qed
qed


definition sample_kernel :: sb_kernel where
  "sample_kernel = \<lparr>k_plan = (\<lambda>_ _ _ _. Some \<lparr>pl_empty = False, pl_found = False, pl_blocked = False, pl_hashes = [[1]], pl_question = ''6bd4.sb.''\<rparr>),
     k_apply = (\<lambda>_ _ _ chunks _. chunks \<noteq> [])\<rparr>"

definition sample_upstream :: exchange where
  "sample_upstream = (\<lambda>_ m _. ((Some (empty_msg\<lparr>m_Answer := [mk_rr ''6bd4.sb.'' TypeTXT 60 (RD_TXT [''01''])]\<rparr>), None), 5))"

definition sample_sb_engine :: SafeBrowsingEngine where
  "sample_sb_engine = NewSafeBrowsingEngine \<lparr>sbc_Enabled = True, sbc_ParentalEnabled = False, sbc_TimeoutMs = 0, sbc_CacheSize = 10, sbc_CacheTTLSeconds = 0\<rparr> True"

lemmas sample_check = sb_Check_def sb_plan_def checkPlanned_def sample_kernel_def sample_upstream_def sample_sb_engine_def NewSafeBrowsingEngine_def
  NormalizeSafeBrowsingConfig_def txtChunks_def verdict_of_def mk_rr_def


end
