(* ===== verification/Bogus_Nx.thy ===== *)
theory Bogus_Nx
  imports Dns_Msg
begin

text \<open>
  The list of addresses an upstream answers with instead of NXDOMAIN
  (\<open>core/bogus_nxdomain.go\<close>): compiling the configured entries and looking for one of them in
  an answer.
\<close>

section \<open>The matcher\<close>

record BogusNXDomainMatcher =
  bm_entries :: "string list"
  bm_nets :: "ip_net list"
  bm_exact :: "ip list"
  bm_hits :: u64

datatype bogus_problem = BogusTooMany | BogusBadNet string | BogusBadIP string

definition maxBogusNXDomainNetworks :: nat where "maxBogusNXDomainNetworks = 256"

definition empty_bogus :: BogusNXDomainMatcher where
  "empty_bogus = \<lparr>bm_entries = [], bm_nets = [], bm_exact = [], bm_hits = 0\<rparr>"

fun bogus_loop :: "string list \<Rightarrow> BogusNXDomainMatcher \<Rightarrow> bogus_problem list \<Rightarrow> BogusNXDomainMatcher \<times> bogus_problem list" where
  "bogus_loop [] m ps = (m, ps)"
| "bogus_loop (raw # rest) m ps =
     (let entry = trim_space raw in
      if entry = [] then bogus_loop rest m ps
      else if length (bm_entries m) \<ge> maxBogusNXDomainNetworks then (m, ps @ [BogusTooMany])
      else if str_contains entry ''/''
      then (case ParseCIDR entry of
              None \<Rightarrow> bogus_loop rest m (ps @ [BogusBadNet entry])
            | Some n \<Rightarrow> bogus_loop rest (m\<lparr>bm_nets := bm_nets m @ [n], bm_entries := bm_entries m @ [entry]\<rparr>) ps)
      else (let a = ParseIP entry in
            if a = [] then bogus_loop rest m (ps @ [BogusBadIP entry])
            else bogus_loop rest (m\<lparr>bm_exact := bm_exact m @ [a], bm_entries := bm_entries m @ [entry]\<rparr>) ps))"

text \<open>The matcher, and the problems; there is an error exactly when there are problems.\<close>

definition NewBogusNXDomainMatcher :: "string list \<Rightarrow> BogusNXDomainMatcher \<times> bogus_problem list" where
  "NewBogusNXDomainMatcher entries = (if entries = [] then (empty_bogus, []) else bogus_loop entries empty_bogus [])"

definition MatchIP :: "BogusNXDomainMatcher \<Rightarrow> ip \<Rightarrow> bool" where
  "MatchIP m a = (a \<noteq> [] \<and> (list_ex (\<lambda>c. ip_Equal c a) (bm_exact m) \<or> list_ex (\<lambda>n. net_Contains n a) (bm_nets m)))"

fun answer_ip :: "rdata \<Rightarrow> ip" where
  "answer_ip (RD_A a) = a"
| "answer_ip (RD_AAAA a) = a"
| "answer_ip d = []"

definition FindInMsg :: "BogusNXDomainMatcher \<Rightarrow> msg \<Rightarrow> ip option \<times> BogusNXDomainMatcher" where
  "FindInMsg m msg0 =
     (if bm_entries m = [] then (None, m)
      else case find (\<lambda>r. MatchIP m (answer_ip (rr_Data r))) (m_Answer msg0) of
        None \<Rightarrow> (None, m)
      | Some r \<Rightarrow> (Some (answer_ip (rr_Data r)), m\<lparr>bm_hits := bm_hits m + 1\<rparr>))"

definition bogus_Size :: "BogusNXDomainMatcher \<Rightarrow> nat" where "bogus_Size m = length (bm_entries m)"

definition DefaultBogusNXDomainNetworks :: "string list" where
  "DefaultBogusNXDomainNetworks = [''0.0.0.0/8'', ''::/128'', ''127.0.0.0/8'', ''::1/128'']"

section \<open>Facts\<close>

lemma bogus_loop_size:
  "length (bm_entries m) \<le> maxBogusNXDomainNetworks \<Longrightarrow>
   length (bm_entries (fst (bogus_loop es m ps))) \<le> maxBogusNXDomainNetworks"
  by (induction es m ps rule: bogus_loop.induct) (auto simp: Let_def split: option.splits)

lemma NewBogus_size: "bogus_Size (fst (NewBogusNXDomainMatcher es)) \<le> maxBogusNXDomainNetworks"
  using bogus_loop_size [of empty_bogus es "[]"]
  by (simp add: NewBogusNXDomainMatcher_def bogus_Size_def empty_bogus_def)

lemma FindInMsg_Some: "fst (FindInMsg m msg0) = Some a \<Longrightarrow> MatchIP m a \<and> (\<exists>r\<in>set (m_Answer msg0). answer_ip (rr_Data r) = a)"
  by (auto simp: FindInMsg_def find_Some_iff split: if_splits option.splits)

lemma FindInMsg_None:
  "fst (FindInMsg m msg0) = None \<Longrightarrow> bm_entries m \<noteq> [] \<Longrightarrow> r \<in> set (m_Answer msg0) \<Longrightarrow> \<not> MatchIP m (answer_ip (rr_Data r))"
  by (auto simp: FindInMsg_def find_None_iff split: option.splits)

end
