(* ===== verification/Rule_Engine.thy ===== *)
theory Rule_Engine
  imports Bogus_Nx Client_Policy
begin

text \<open>
  The rule engine (\<open>core/rule_engine.go\<close> and its companion files, \<open>core/rule_matcher.go\<close>,
  \<open>core/services_catalog.go\<close>): configuration and its normalization, loading of custom rules,
  built-in services and subscriptions, the matchers of the client groups, the decision on a name,
  the check of an answer, pausing, and the maintenance of subscriptions.

  Rules are parsed, indexed and matched by the native filter library; its entry points are the
  fields of \<open>rule_env\<close>, with the built index as the function it answers by. The catalogue of
  built-in services is the embedded data file. The subscription cache on disk is part of the state,
  keyed by directory and list. A nil slice is \<open>None\<close> where the sources tell it from an empty
  one.
\<close>

section \<open>Configuration\<close>

record FilterList =
  fl_ID :: string
  fl_Name :: string
  fl_URL :: string
  fl_Enabled :: bool
  fl_RulesCount :: nat
  fl_LastUpdated :: int
  fl_Checksum :: string
  fl_ETag :: string
  fl_LastModified :: string
  fl_LastStatus :: string
  fl_LastError :: string

record FilterConfig =
  fc_Enabled :: bool
  fc_BlockMode :: string
  fc_BlockingIPv4 :: string
  fc_BlockingIPv6 :: string
  fc_CustomRules :: "string list option"
  fc_Lists :: "FilterList list option"
  fc_UpdateIntervalHours :: int
  fc_DataDir :: string
  fc_ScheduleEnabled :: bool
  fc_Schedules :: "BlockingSchedule list option"
  fc_FilterResponse :: bool
  fc_AllowlistOnly :: bool
  fc_BogusNXDomain :: bool
  fc_BogusNXDomainNetworks :: "string list"
  fc_BlockedServices :: "string list"
  fc_BlockedServiceGroups :: "string list"
  fc_ServiceSchedules :: "(string \<times> BlockingSchedule list) list"

definition BlockModeNullIP :: string where "BlockModeNullIP = ''null_ip''"
definition BlockModeNXDOMAIN :: string where "BlockModeNXDOMAIN = ''nxdomain''"
definition BlockModeRefused :: string where "BlockModeRefused = ''refused''"
definition DefaultBlockingIPv4 :: string where "DefaultBlockingIPv4 = ''0.0.0.0''"
definition DefaultBlockingIPv6 :: string where "DefaultBlockingIPv6 = ''::''"
definition DefaultRuleTTL :: u32 where "DefaultRuleTTL = 10"

definition defaultSubscriptionLists :: "FilterList list" where
  "defaultSubscriptionLists =
     [\<lparr>fl_ID = ''adguard-dns-filter'', fl_Name = ''AdGuard DNS Filter'',
       fl_URL = ''https://adguardteam.github.io/HostlistsRegistry/assets/filter_1.txt'', fl_Enabled = True,
       fl_RulesCount = 0, fl_LastUpdated = 0, fl_Checksum = [], fl_ETag = [], fl_LastModified = [],
       fl_LastStatus = [], fl_LastError = []\<rparr>]"

section \<open>Rules and results\<close>

record RewriteAction =
  ra_Bare :: bool
  ra_RCode :: nat
  ra_RRType :: u16
  ra_Value :: string

record ParsedRule =
  pr_Raw :: string
  pr_Pattern :: string
  pr_IsAllow :: bool
  pr_Important :: bool
  pr_IsRegex :: bool
  pr_DNSType :: u16
  pr_IsWildcard :: bool
  pr_IsExact :: bool
  pr_Source :: string
  pr_DenyAllow :: "string list"
  pr_To :: "string list"
  pr_Rewrite :: "RewriteAction option"

record RewriteResult =
  rw_RCode :: nat
  rw_Records :: "rr list"
  rw_Summary :: "string list"

record CheckHostResult =
  ch_Blocked :: bool
  ch_Action :: string
  ch_MatchedRule :: string
  ch_ListName :: string
  ch_Reason :: string
  ch_Rewritten :: "RewriteResult option"

definition IsRewrite :: "CheckHostResult \<Rightarrow> bool" where
  "IsRewrite r = (ch_Action r = ''rewrite'' \<and> ch_Rewritten r \<noteq> None)"

definition pass_result :: "string \<Rightarrow> CheckHostResult" where
  "pass_result reason = \<lparr>ch_Blocked = False, ch_Action = ''pass'', ch_MatchedRule = [], ch_ListName = [],
     ch_Reason = reason, ch_Rewritten = None\<rparr>"

definition ReasonScheduleInactive :: string where "ReasonScheduleInactive = ''SCHEDULE_INACTIVE''"
definition ReasonServiceScheduleInactive :: string where "ReasonServiceScheduleInactive = ''SERVICE_SCHEDULE_INACTIVE''"
definition ReasonAllowlistOnly :: string where "ReasonAllowlistOnly = ''ALLOWLIST_ONLY''"
definition ReasonResponseBlocked :: string where "ReasonResponseBlocked = ''RESPONSE_CNAME_BLOCKED''"
definition ReasonDNSRewrite :: string where "ReasonDNSRewrite = ''DNSREWRITE''"

section \<open>The native library and the embedded catalogue\<close>

datatype filter_action = ActPass | ActAllow | ActBlock | ActRewrite

record filterDecision =
  fd_action :: filter_action
  fd_reason :: string
  fd_ruleIndex :: int
  fd_rewrite :: "(nat \<times> int list) option"

type_synonym rule_index = "string \<Rightarrow> u16 \<Rightarrow> string + filterDecision"

record serviceEntry =
  se_ID :: string
  se_Name :: string
  se_Group :: string
  se_Rules :: "string list"

record servicesCatalog =
  sc_Groups :: "string list"
  sc_Services :: "serviceEntry list"

record rule_env =
  rv_parseLine :: "string \<Rightarrow> string \<Rightarrow> ParsedRule option"
  rv_parseText :: "string \<Rightarrow> string \<Rightarrow> ParsedRule list option"
  rv_build :: "ParsedRule list \<Rightarrow> string + rule_index"
  rv_buildRR :: "string \<Rightarrow> u16 \<Rightarrow> string \<times> string \<Rightarrow> u32 \<Rightarrow> rr option"
  rv_typeName :: "u16 \<Rightarrow> string"
  rv_rrText :: "rr \<Rightarrow> string"
  rv_catalog :: "servicesCatalog option"
  rv_dataDir :: string
  rv_checksum :: "string \<Rightarrow> string"
  rv_local :: "time \<Rightarrow> clock"

section \<open>Built-in services\<close>

definition parseServiceRules :: "rule_env \<Rightarrow> serviceEntry \<Rightarrow> ParsedRule list" where
  "parseServiceRules V s = List.map_filter (\<lambda>line. rv_parseLine V line (serviceRuleSourcePrefix @ se_ID s)) (se_Rules s)"

text \<open>The catalogue with its identifiers trimmed; a failure to parse it is \<open>None\<close>.\<close>

definition loadServicesCatalog :: "rule_env \<Rightarrow> servicesCatalog option" where
  "loadServicesCatalog V =
     map_option (\<lambda>c. c\<lparr>sc_Services := map (\<lambda>s. s\<lparr>se_ID := trim_space (se_ID s)\<rparr>) (sc_Services c)\<rparr>) (rv_catalog V)"

definition ServiceExists :: "rule_env \<Rightarrow> string \<Rightarrow> bool" where
  "ServiceExists V i = (case loadServicesCatalog V of None \<Rightarrow> False
     | Some c \<Rightarrow> list_ex (\<lambda>s. se_ID s = trim_space i) (sc_Services c))"

definition ServiceGroupExists :: "rule_env \<Rightarrow> string \<Rightarrow> bool" where
  "ServiceGroupExists V i = (case loadServicesCatalog V of None \<Rightarrow> False
     | Some c \<Rightarrow> list_ex (\<lambda>g. g = trim_space i) (sc_Groups c))"

definition parseBlockedServiceRules :: "rule_env \<Rightarrow> string list \<Rightarrow> string list \<Rightarrow> ParsedRule list" where
  "parseBlockedServiceRules V serviceIDs groupIDs =
     (if serviceIDs = [] \<and> groupIDs = [] then []
      else case loadServicesCatalog V of None \<Rightarrow> []
        | Some c \<Rightarrow>
           concat (map (parseServiceRules V)
             (filter (\<lambda>s. se_ID s \<in> set (map trim_space serviceIDs) \<or> se_Group s \<in> set (map trim_space groupIDs)) (sc_Services c))))"

definition CountBlockedServiceRules :: "rule_env \<Rightarrow> string list \<Rightarrow> string list \<Rightarrow> nat" where
  "CountBlockedServiceRules V serviceIDs groupIDs = length (parseBlockedServiceRules V serviceIDs groupIDs)"

section \<open>Normalization\<close>

definition or_default :: "string \<Rightarrow> string \<Rightarrow> string" where
  "or_default s d = (if s = [] then d else s)"

fun dedup_networks :: "string list \<Rightarrow> string list \<Rightarrow> string list" where
  "dedup_networks [] seen = []"
| "dedup_networks (raw # rest) seen =
     (let entry = trim_space raw; key = to_lower entry in
      if entry = [] \<or> key \<in> set seen then dedup_networks rest seen
      else entry # dedup_networks rest (key # seen))"

fun known_ids :: "(string \<Rightarrow> bool) \<Rightarrow> string list \<Rightarrow> string list \<Rightarrow> string list" where
  "known_ids known [] seen = []"
| "known_ids known (raw # rest) seen =
     (let i = trim_space raw in
      if i = [] \<or> i \<in> set seen then known_ids known rest seen
      else if \<not> known i then known_ids known rest (i # seen)
      else i # known_ids known rest (i # seen))"

definition filterKnownIDs :: "(string \<Rightarrow> bool) \<Rightarrow> string list \<Rightarrow> string list" where
  "filterKnownIDs known ids = known_ids known ids []"

definition NormalizeFilterConfig :: "rule_env \<Rightarrow> string \<Rightarrow> FilterConfig \<Rightarrow> FilterConfig" where
  "NormalizeFilterConfig V freshId cfg = cfg
     \<lparr>fc_BlockMode := or_default (fc_BlockMode cfg) BlockModeNullIP,
      fc_BlockingIPv4 := or_default (fc_BlockingIPv4 cfg) DefaultBlockingIPv4,
      fc_BlockingIPv6 := or_default (fc_BlockingIPv6 cfg) DefaultBlockingIPv6,
      fc_UpdateIntervalHours := (if fc_UpdateIntervalHours cfg \<le> 0 then 24 else fc_UpdateIntervalHours cfg),
      fc_DataDir := or_default (fc_DataDir cfg) (rv_dataDir V),
      fc_CustomRules := Some (case fc_CustomRules cfg of None \<Rightarrow> [] | Some rs \<Rightarrow> rs),
      fc_Lists := Some (case fc_Lists cfg of None \<Rightarrow> defaultSubscriptionLists | Some ls \<Rightarrow> ls),
      fc_Schedules := Some (case fc_Schedules cfg of None \<Rightarrow> [] | Some ss \<Rightarrow> List.map_filter (NormalizeSchedule freshId) ss),
      fc_BogusNXDomainNetworks := dedup_networks (fc_BogusNXDomainNetworks cfg) [],
      fc_BlockedServices := filterKnownIDs (ServiceExists V) (fc_BlockedServices cfg),
      fc_BlockedServiceGroups := filterKnownIDs (ServiceGroupExists V) (fc_BlockedServiceGroups cfg),
      fc_ServiceSchedules := NormalizeServiceSchedules (ServiceExists V) freshId (fc_ServiceSchedules cfg)\<rparr>"

text \<open>\<open>append([]T(nil), s...)\<close>: appending nothing to a nil slice gives a nil slice.\<close>

definition clone_slice :: "'a list option \<Rightarrow> 'a list option" where
  "clone_slice s = (case s of Some (x # xs) \<Rightarrow> Some (x # xs) | _ \<Rightarrow> None)"

definition cloneFilterConfig :: "FilterConfig \<Rightarrow> FilterConfig" where
  "cloneFilterConfig cfg = cfg
     \<lparr>fc_CustomRules := clone_slice (fc_CustomRules cfg), fc_Lists := clone_slice (fc_Lists cfg),
      fc_Schedules := clone_slice (fc_Schedules cfg)\<rparr>"

section \<open>The matcher\<close>

record RuleMatcher =
  rm_rules :: "ParsedRule list"
  rm_index :: "rule_index option"
  rm_total :: nat

definition NewRuleMatcher :: RuleMatcher where
  "NewRuleMatcher = \<lparr>rm_rules = [], rm_index = None, rm_total = 0\<rparr>"

definition BuildFromRules :: "rule_env \<Rightarrow> ParsedRule list \<Rightarrow> string + RuleMatcher" where
  "BuildFromRules V rules =
     (case rv_build V rules of Inl e \<Rightarrow> Inl e
      | Inr ix \<Rightarrow> Inr \<lparr>rm_rules = rules, rm_index = Some ix, rm_total = length rules\<rparr>)"

definition ruleAt :: "ParsedRule list \<Rightarrow> int \<Rightarrow> ParsedRule option" where
  "ruleAt rules i = (if i < 0 \<or> i \<ge> int (length rules) then None else Some (rules ! nat i))"

definition ruleRaw :: "ParsedRule option \<Rightarrow> string" where
  "ruleRaw r = (case r of None \<Rightarrow> [] | Some x \<Rightarrow> pr_Raw x)"

definition ruleSource :: "ParsedRule option \<Rightarrow> string" where
  "ruleSource r = (case r of None \<Rightarrow> [] | Some x \<Rightarrow> pr_Source x)"

definition action_Records :: "rule_env \<Rightarrow> RewriteAction \<Rightarrow> string \<Rightarrow> u16 \<Rightarrow> u32 \<Rightarrow> rr list" where
  "action_Records V a qname qtype ttl =
     (if ra_Bare a \<or> ra_RCode a \<noteq> RcodeSuccess \<or> ra_RRType a = 0 then []
      else case rv_buildRR V qname qtype (rv_typeName V (ra_RRType a), ra_Value a) ttl of None \<Rightarrow> [] | Some r \<Rightarrow> [r])"

definition rewriteRecords :: "rule_env \<Rightarrow> int list \<Rightarrow> ParsedRule list \<Rightarrow> string \<Rightarrow> u16 \<Rightarrow> rr list" where
  "rewriteRecords V indices rules domain qtype =
     concat (map (\<lambda>i. case ruleAt rules i of None \<Rightarrow> []
        | Some r \<Rightarrow> (case pr_Rewrite r of None \<Rightarrow> [] | Some a \<Rightarrow> action_Records V a domain qtype DefaultRewriteTTL)) indices)"

definition newRewriteResult :: "rule_env \<Rightarrow> nat \<Rightarrow> rr list \<Rightarrow> RewriteResult" where
  "newRewriteResult V rcode records = \<lparr>rw_RCode = rcode, rw_Records = records, rw_Summary = map (rv_rrText V) records\<rparr>"

definition rewriteHit :: "ParsedRule option \<Rightarrow> RewriteResult \<Rightarrow> CheckHostResult" where
  "rewriteHit rule res = \<lparr>ch_Blocked = False, ch_Action = ''rewrite'', ch_MatchedRule = ruleRaw rule,
     ch_ListName = ruleSource rule, ch_Reason = ReasonDNSRewrite, ch_Rewritten = Some res\<rparr>"

definition buildHostResult :: "rule_env \<Rightarrow> filterDecision \<Rightarrow> ParsedRule list \<Rightarrow> string \<Rightarrow> u16 \<Rightarrow> CheckHostResult" where
  "buildHostResult V d rules domain qtype =
     (let rule = ruleAt rules (fd_ruleIndex d) in
      case (fd_action d, fd_rewrite d) of
        (ActRewrite, Some (rcode, idx)) \<Rightarrow> rewriteHit rule (newRewriteResult V rcode (rewriteRecords V idx rules domain qtype))
      | _ \<Rightarrow> \<lparr>ch_Blocked = (fd_action d = ActBlock),
              ch_Action = (case fd_action d of ActAllow \<Rightarrow> ''allow'' | ActBlock \<Rightarrow> ''block'' | _ \<Rightarrow> ''pass''),
              ch_MatchedRule = ruleRaw rule, ch_ListName = ruleSource rule, ch_Reason = fd_reason d, ch_Rewritten = None\<rparr>)"

definition normalizeCheckName :: "string \<Rightarrow> string" where
  "normalizeCheckName name = trim_suffix (to_lower (trim_space name)) ''.''"

definition matcher_Match :: "rule_env \<Rightarrow> RuleMatcher \<Rightarrow> string \<Rightarrow> u16 \<Rightarrow> CheckHostResult" where
  "matcher_Match V m domain0 qtype =
     (let domain = normalizeCheckName domain0 in
      if domain = [] then pass_result []
      else case rm_index m of None \<Rightarrow> pass_result []
        | Some ix \<Rightarrow> (case ix domain qtype of Inl e \<Rightarrow> pass_result []
            | Inr d \<Rightarrow> buildHostResult V d (rm_rules m) domain qtype))"

section \<open>The engine\<close>

record RuleEngine =
  re_cfg :: FilterConfig
  re_matcher :: RuleMatcher
  re_totalQueries :: u64
  re_blockedQueries :: u64
  re_allowedQueries :: u64
  re_groupCfg :: ClientGroupConfig
  re_groupMatchers :: "(string \<times> RuleMatcher) list"
  re_groupBlockModes :: "(string \<times> string) list"
  re_bogusMatcher :: "BogusNXDomainMatcher option"
  re_pausedUntil :: "time option"
  re_files :: "string \<Rightarrow> string \<Rightarrow> string option"

abbreviation cfg_lists :: "FilterConfig \<Rightarrow> FilterList list" where
  "cfg_lists cfg \<equiv> (case fc_Lists cfg of None \<Rightarrow> [] | Some ls \<Rightarrow> ls)"

abbreviation cfg_rules :: "FilterConfig \<Rightarrow> string list" where
  "cfg_rules cfg \<equiv> (case fc_CustomRules cfg of None \<Rightarrow> [] | Some rs \<Rightarrow> rs)"

abbreviation cfg_schedules :: "FilterConfig \<Rightarrow> BlockingSchedule list" where
  "cfg_schedules cfg \<equiv> (case fc_Schedules cfg of None \<Rightarrow> [] | Some ss \<Rightarrow> ss)"

record ruleSet =
  rs_custom :: "ParsedRule list"
  rs_service :: "ParsedRule list"
  rs_lists :: "ParsedRule list"

definition rs_all :: "ruleSet \<Rightarrow> ParsedRule list" where
  "rs_all rs = rs_custom rs @ rs_service rs @ rs_lists rs"

text \<open>One subscription: its cached rules, and the list with its rule count updated.\<close>

definition load_list :: "rule_env \<Rightarrow> (string \<Rightarrow> string \<Rightarrow> string option) \<Rightarrow> string \<Rightarrow> FilterList \<Rightarrow> ParsedRule list \<times> FilterList" where
  "load_list V files dir l =
     (if \<not> fl_Enabled l then ([], l)
      else case files dir (fl_ID l) of None \<Rightarrow> ([], l)
        | Some text \<Rightarrow> (case rv_parseText V text (fl_ID l) of None \<Rightarrow> ([], l)
            | Some parsed \<Rightarrow> (parsed, l\<lparr>fl_RulesCount := length parsed\<rparr>)))"

definition loadAllRulesUnlocked :: "rule_env \<Rightarrow> RuleEngine \<Rightarrow> ruleSet \<times> RuleEngine" where
  "loadAllRulesUnlocked V e =
     (let cfg = re_cfg e;
          loaded = map (load_list V (re_files e) (fc_DataDir cfg)) (cfg_lists cfg)
      in (\<lparr>rs_custom = List.map_filter (\<lambda>line. rv_parseLine V line ''custom'') (cfg_rules cfg),
           rs_service = parseBlockedServiceRules V (fc_BlockedServices cfg) (fc_BlockedServiceGroups cfg),
           rs_lists = concat (map fst loaded)\<rparr>,
          e\<lparr>re_cfg := cfg\<lparr>fc_Lists := map_option (\<lambda>ls. map snd loaded) (fc_Lists cfg)\<rparr>\<rparr>))"

definition group_rules :: "ClientGroup \<Rightarrow> ruleSet \<Rightarrow> ParsedRule list" where
  "group_rules g rs = rs_custom rs @ rs_service rs @
     (if cg_RuleListIDs g = [] then rs_lists rs
      else filter (\<lambda>r. pr_Source r \<in> set (cg_RuleListIDs g)) (rs_lists rs))"

fun compile_groups ::
  "rule_env \<Rightarrow> ruleSet \<Rightarrow> ClientGroup list \<Rightarrow> (string \<times> RuleMatcher) list \<Rightarrow> (string \<times> string) list
    \<Rightarrow> (string \<times> RuleMatcher) list \<times> (string \<times> string) list" where
  "compile_groups V rs [] ms modes = (ms, modes)"
| "compile_groups V rs (g # gs) ms modes =
     (if \<not> cg_Enabled g then compile_groups V rs gs ms modes
      else case BuildFromRules V (group_rules g rs) of
        Inl err \<Rightarrow> compile_groups V rs gs ms modes
      | Inr m \<Rightarrow> compile_groups V rs gs (AList.update (cg_ID g) m ms)
                  (if cg_BlockMode g \<noteq> [] then AList.update (cg_ID g) (cg_BlockMode g) modes else modes))"

definition compileGroupMatchersUnlocked :: "rule_env \<Rightarrow> ruleSet \<Rightarrow> RuleEngine \<Rightarrow> RuleEngine" where
  "compileGroupMatchersUnlocked V rs e =
     (let (ms, modes) = (if cgc_Enabled (re_groupCfg e) then compile_groups V rs (cgc_Groups (re_groupCfg e)) [] [] else ([], []))
      in e\<lparr>re_groupMatchers := ms, re_groupBlockModes := modes\<rparr>)"

text \<open>An error, or nil, and the engine.\<close>

definition rebuildUnlocked :: "rule_env \<Rightarrow> RuleEngine \<Rightarrow> string option \<times> RuleEngine" where
  "rebuildUnlocked V e =
     (let (rs, e1) = loadAllRulesUnlocked V e in
      case BuildFromRules V (rs_all rs) of Inl err \<Rightarrow> (Some err, e1)
      | Inr m \<Rightarrow> (None, compileGroupMatchersUnlocked V rs (e1\<lparr>re_matcher := m\<rparr>)))"

definition syncBogusMatcherUnlocked :: "RuleEngine \<Rightarrow> RuleEngine" where
  "syncBogusMatcherUnlocked e =
     (if \<not> fc_Enabled (re_cfg e) \<or> \<not> fc_BogusNXDomain (re_cfg e) then e\<lparr>re_bogusMatcher := None\<rparr>
      else (let (m, problems) = NewBogusNXDomainMatcher (fc_BogusNXDomainNetworks (re_cfg e)) in
        if problems \<noteq> [] \<and> bogus_Size m = 0 then e\<lparr>re_bogusMatcher := None\<rparr>
        else e\<lparr>re_bogusMatcher := Some m\<rparr>))"

definition engine_BogusNXDomainMatcher :: "RuleEngine \<Rightarrow> BogusNXDomainMatcher option" where
  "engine_BogusNXDomainMatcher e =
     (if \<not> fc_Enabled (re_cfg e) \<or> \<not> fc_BogusNXDomain (re_cfg e) then None else re_bogusMatcher e)"

definition NewRuleEngine :: "rule_env \<Rightarrow> string \<Rightarrow> (string \<Rightarrow> string \<Rightarrow> string option) \<Rightarrow> FilterConfig \<Rightarrow> RuleEngine" where
  "NewRuleEngine V freshId files cfg =
     syncBogusMatcherUnlocked (snd (rebuildUnlocked V
       \<lparr>re_cfg = cloneFilterConfig (NormalizeFilterConfig V freshId cfg), re_matcher = NewRuleMatcher,
        re_totalQueries = 0, re_blockedQueries = 0, re_allowedQueries = 0,
        re_groupCfg = \<lparr>cgc_Enabled = False, cgc_Groups = []\<rparr>, re_groupMatchers = [], re_groupBlockModes = [],
        re_bogusMatcher = None, re_pausedUntil = None, re_files = files\<rparr>))"

section \<open>Switches, pausing and configuration\<close>

definition pauseStateUnlockedAt :: "RuleEngine \<Rightarrow> time \<Rightarrow> bool" where
  "pauseStateUnlockedAt e now = (case re_pausedUntil e of None \<Rightarrow> False | Some u \<Rightarrow> now < u)"

definition engine_IsEnabled :: "RuleEngine \<Rightarrow> time \<Rightarrow> bool" where
  "engine_IsEnabled e now = (fc_Enabled (re_cfg e) \<and> \<not> pauseStateUnlockedAt e now)"

definition engine_SetEnabled :: "bool \<Rightarrow> RuleEngine \<Rightarrow> RuleEngine" where
  "engine_SetEnabled b e = syncBogusMatcherUnlocked (e\<lparr>re_cfg := (re_cfg e)\<lparr>fc_Enabled := b\<rparr>\<rparr>)"

definition hour :: duration where "hour = 3600 * second"
definition MaxPauseDuration :: duration where "MaxPauseDuration = 365 * 24 * hour"

definition PauseFor :: "duration \<Rightarrow> time \<Rightarrow> RuleEngine \<Rightarrow> RuleEngine" where
  "PauseFor d now e =
     (if d \<le> 0 then e\<lparr>re_pausedUntil := Some (now + 100 * 365 * 24 * hour)\<rparr>
      else e\<lparr>re_pausedUntil := Some (now + (if d > MaxPauseDuration then MaxPauseDuration else d))\<rparr>)"

definition ResumePause :: "RuleEngine \<Rightarrow> RuleEngine" where
  "ResumePause e = e\<lparr>re_pausedUntil := None\<rparr>"

definition PauseState :: "RuleEngine \<Rightarrow> time \<Rightarrow> bool \<times> duration \<times> time option" where
  "PauseState e now = (case re_pausedUntil e of None \<Rightarrow> (False, 0, None)
     | Some u \<Rightarrow> if now < u then (True, u - now, Some u) else (False, 0, Some u))"

definition engine_GetConfig :: "RuleEngine \<Rightarrow> FilterConfig" where
  "engine_GetConfig e = cloneFilterConfig (re_cfg e)"

definition list_key :: "FilterList \<Rightarrow> string \<times> string \<times> bool \<times> string" where
  "list_key l = (fl_ID l, fl_URL l, fl_Enabled l, fl_Name l)"

definition equalFilterLists :: "FilterList list \<Rightarrow> FilterList list \<Rightarrow> bool" where
  "equalFilterLists a b = (map list_key a = map list_key b)"

text \<open>The configuration \<open>UpdateConfig\<close> installs for a requested one.\<close>

definition merge_config :: "rule_env \<Rightarrow> string \<Rightarrow> FilterConfig \<Rightarrow> FilterConfig \<Rightarrow> FilterConfig" where
  "merge_config V freshId old cfg =
     (let c1 = cfg\<lparr>fc_CustomRules := (if fc_CustomRules cfg = None then fc_CustomRules old else fc_CustomRules cfg),
                   fc_Lists := (if fc_Lists cfg = None then fc_Lists old else fc_Lists cfg)\<rparr>;
          c2 = cloneFilterConfig c1;
          c3 = c2\<lparr>fc_DataDir := or_default (fc_DataDir c2) (fc_DataDir old)\<rparr>;
          c4 = c3\<lparr>fc_Schedules := clone_slice (if fc_Schedules c3 = None then fc_Schedules old else fc_Schedules c3)\<rparr>
      in NormalizeFilterConfig V freshId c4)"

definition engine_UpdateConfig :: "rule_env \<Rightarrow> string \<Rightarrow> FilterConfig \<Rightarrow> RuleEngine \<Rightarrow> string option \<times> RuleEngine" where
  "engine_UpdateConfig V freshId cfg0 e =
     (let old = re_cfg e; cfg = merge_config V freshId old cfg0;
          e1 = syncBogusMatcherUnlocked (e\<lparr>re_cfg := cfg\<rparr>)
      in if rm_total (re_matcher e) > 0 \<and> cfg_rules old = cfg_rules cfg \<and>
            fc_BlockedServices old = fc_BlockedServices cfg \<and> fc_BlockedServiceGroups old = fc_BlockedServiceGroups cfg \<and>
            equalFilterLists (cfg_lists old) (cfg_lists cfg)
         then (None, e1) else rebuildUnlocked V e1)"

section \<open>Decisions\<close>

definition groupByIDUnlocked :: "RuleEngine \<Rightarrow> string \<Rightarrow> ClientGroup option" where
  "groupByIDUnlocked e gid =
     (if gid = [] \<or> gid = DefaultClientGroupID \<or> \<not> cgc_Enabled (re_groupCfg e) then None
      else find (\<lambda>g. cg_ID g = gid) (cgc_Groups (re_groupCfg e)))"

definition IsBlockingActiveAt :: "RuleEngine \<Rightarrow> clock \<Rightarrow> bool" where
  "IsBlockingActiveAt e now =
     (if \<not> fc_ScheduleEnabled (re_cfg e) \<or> \<not> HasEnabledSchedule (cfg_schedules (re_cfg e)) then True
      else ActiveSchedule (cfg_schedules (re_cfg e)) now)"

definition CurrentScheduleAt :: "RuleEngine \<Rightarrow> clock \<Rightarrow> BlockingSchedule option" where
  "CurrentScheduleAt e now =
     (if \<not> fc_ScheduleEnabled (re_cfg e) then None else FirstActiveSchedule (cfg_schedules (re_cfg e)) now)"

definition IsBlockingActiveForGroupAt :: "RuleEngine \<Rightarrow> string \<Rightarrow> clock \<Rightarrow> bool" where
  "IsBlockingActiveForGroupAt e gid now =
     (case groupByIDUnlocked e gid of
        Some g \<Rightarrow> (if cg_ScheduleEnabled g \<and> HasEnabledSchedule (cg_Schedules g) then ActiveSchedule (cg_Schedules g) now
                   else IsBlockingActiveAt e now)
      | None \<Rightarrow> IsBlockingActiveAt e now)"

definition IsAllowlistOnlyForGroup :: "RuleEngine \<Rightarrow> string \<Rightarrow> bool" where
  "IsAllowlistOnlyForGroup e gid =
     (case groupByIDUnlocked e gid of Some g \<Rightarrow> cg_AllowlistOnly g | None \<Rightarrow> fc_AllowlistOnly (re_cfg e))"

definition applyAllowlistOnly :: "CheckHostResult \<Rightarrow> CheckHostResult" where
  "applyAllowlistOnly res =
     (if ch_Blocked res \<or> ch_Action res = ''allow'' \<or> IsRewrite res then res
      else (pass_result ReasonAllowlistOnly)\<lparr>ch_Blocked := True, ch_Action := ''block''\<rparr>)"

definition getGroupMatcher :: "RuleEngine \<Rightarrow> string \<Rightarrow> RuleMatcher" where
  "getGroupMatcher e gid =
     (if gid \<noteq> [] \<and> gid \<noteq> DefaultClientGroupID
      then (case map_of (re_groupMatchers e) gid of Some m \<Rightarrow> m | None \<Rightarrow> re_matcher e)
      else re_matcher e)"

definition GroupBlockMode :: "RuleEngine \<Rightarrow> string \<Rightarrow> string" where
  "GroupBlockMode e gid =
     (if gid = [] \<or> gid = DefaultClientGroupID then []
      else case map_of (re_groupBlockModes e) gid of None \<Rightarrow> [] | Some m \<Rightarrow> m)"

definition MatchForGroup :: "rule_env \<Rightarrow> string \<Rightarrow> u16 \<Rightarrow> string \<Rightarrow> time \<Rightarrow> RuleEngine \<Rightarrow> CheckHostResult \<times> RuleEngine" where
  "MatchForGroup V domain qtype gid now e =
     (if \<not> engine_IsEnabled e now then (pass_result [], e)
      else if \<not> IsBlockingActiveForGroupAt e gid (rv_local V now) then (pass_result ReasonScheduleInactive, e)
      else
       (let e1 = e\<lparr>re_totalQueries := re_totalQueries e + 1\<rparr>;
            res0 = matcher_Match V (getGroupMatcher e gid) domain qtype;
            res = (if IsAllowlistOnlyForGroup e gid then applyAllowlistOnly res0 else res0)
        in if IsRewrite res then (res, e1)
           else if ch_Blocked res \<and> \<not> serviceScheduleBlocksAt (fc_ServiceSchedules (re_cfg e)) (ch_ListName res) (rv_local V now)
           then (pass_result ReasonServiceScheduleInactive, e1)
           else if ch_Blocked res then (res, e1\<lparr>re_blockedQueries := re_blockedQueries e1 + 1\<rparr>)
           else if ch_Action res = ''allow'' then (res, e1\<lparr>re_allowedQueries := re_allowedQueries e1 + 1\<rparr>)
           else (res, e1)))"

definition engine_Match :: "rule_env \<Rightarrow> string \<Rightarrow> u16 \<Rightarrow> time \<Rightarrow> RuleEngine \<Rightarrow> CheckHostResult \<times> RuleEngine" where
  "engine_Match V domain qtype now e = MatchForGroup V domain qtype DefaultClientGroupID now e"

definition CheckHost :: "rule_env \<Rightarrow> string \<Rightarrow> u16 \<Rightarrow> RuleEngine \<Rightarrow> CheckHostResult" where
  "CheckHost V domain qtype e = matcher_Match V (re_matcher e) domain qtype"

section \<open>Checking an answer\<close>

definition MaxResponseAliasDepth :: nat where "MaxResponseAliasDepth = 8"

definition check_name_of :: "rr \<Rightarrow> string" where
  "check_name_of r = (case rr_Data r of RD_CNAME t \<Rightarrow> t
     | RD_A a \<Rightarrow> h_Name (rr_Hdr r) | RD_AAAA a \<Rightarrow> h_Name (rr_Hdr r)
     | RD_HTTPS p t vs \<Rightarrow> h_Name (rr_Hdr r) | RD_SVCB p t vs \<Rightarrow> h_Name (rr_Hdr r) | _ \<Rightarrow> [])"

fun check_names :: "string \<Rightarrow> rr list \<Rightarrow> string list \<Rightarrow> string list" where
  "check_names origin [] names = names"
| "check_names origin (r # rest) names =
     (let name = normalizeCheckName (check_name_of r);
          names' = (if name = [] \<or> name = origin \<or> name \<in> set names \<or> length names \<ge> MaxResponseAliasDepth then names
                    else names @ [name])
      in if length names' \<ge> MaxResponseAliasDepth then names' else check_names origin rest names')"

definition ExtractResponseCheckNames :: "msg \<Rightarrow> string \<Rightarrow> string list" where
  "ExtractResponseCheckNames resp qname = check_names (normalizeCheckName qname) (m_Answer resp) []"

fun first_blocked :: "rule_env \<Rightarrow> RuleMatcher \<Rightarrow> u16 \<Rightarrow> string list \<Rightarrow> CheckHostResult" where
  "first_blocked V m qtype [] = pass_result []"
| "first_blocked V m qtype (n # ns) =
     (let res = matcher_Match V m n qtype in
      if ch_Blocked res then res\<lparr>ch_Reason := ReasonResponseBlocked\<rparr> else first_blocked V m qtype ns)"

definition MatchResponse :: "rule_env \<Rightarrow> msg \<Rightarrow> string \<Rightarrow> u16 \<Rightarrow> string \<Rightarrow> time \<Rightarrow> RuleEngine \<Rightarrow> CheckHostResult" where
  "MatchResponse V resp qname qtype gid now e =
     (if \<not> engine_IsEnabled e now then pass_result []
      else if \<not> IsBlockingActiveForGroupAt e gid (rv_local V now) then pass_result ReasonScheduleInactive
      else first_blocked V (getGroupMatcher e gid) qtype (ExtractResponseCheckNames resp qname))"

section \<open>Groups and subscriptions\<close>

definition SetClientGroups :: "rule_env \<Rightarrow> string \<Rightarrow> ClientGroupConfig \<Rightarrow> RuleEngine \<Rightarrow> RuleEngine" where
  "SetClientGroups V freshId cfg e =
     (let e1 = e\<lparr>re_groupCfg := fst (NormalizeClientGroupConfig freshId cfg)\<rparr>;
          (rs, e2) = loadAllRulesUnlocked V e1
      in compileGroupMatchersUnlocked V rs e2)"

definition SetCustomRules :: "rule_env \<Rightarrow> string list \<Rightarrow> RuleEngine \<Rightarrow> string option \<times> RuleEngine" where
  "SetCustomRules V rules e = rebuildUnlocked V (e\<lparr>re_cfg := (re_cfg e)\<lparr>fc_CustomRules := Some rules\<rparr>\<rparr>)"

datatype fetch_error = HttpStatus nat | Transport string

record fetch_result =
  fr_data :: string
  fr_etag :: string
  fr_lastModified :: string
  fr_notModified :: bool

type_synonym fetcher = "string \<Rightarrow> string \<Rightarrow> string \<Rightarrow> fetch_error + fetch_result"

definition isTransientFetchError :: "fetch_error \<Rightarrow> bool" where
  "isTransientFetchError err = (case err of HttpStatus c \<Rightarrow> False | Transport t \<Rightarrow> True)"

definition ListStatusOK :: string where "ListStatusOK = ''ok''"
definition ListStatusUnchanged :: string where "ListStatusUnchanged = ''unchanged''"
definition ListStatusCached :: string where "ListStatusCached = ''cached''"
definition ListStatusFailed :: string where "ListStatusFailed = ''failed''"

text \<open>\<open>upd_list id f\<close> changes the first list of that identifier, which the sources reach by pointer.\<close>

definition upd_list :: "string \<Rightarrow> (FilterList \<Rightarrow> FilterList) \<Rightarrow> RuleEngine \<Rightarrow> RuleEngine" where
  "upd_list i f e =
     (case find (\<lambda>k. fl_ID (cfg_lists (re_cfg e) ! k) = i) [0..<length (cfg_lists (re_cfg e))] of
        None \<Rightarrow> e
      | Some k \<Rightarrow> e\<lparr>re_cfg := (re_cfg e)\<lparr>fc_Lists := Some ((cfg_lists (re_cfg e))[k := f (cfg_lists (re_cfg e) ! k)])\<rparr>\<rparr>)"

datatype list_error = ListNotFound string | FetchFailed fetch_error | SaveFailed string | ListExists string
  | EmptyURL string | RebuildFailed string

text \<open>
  \<open>write\<close> is the outcome of \<open>writeListCacheAtomic\<close>, which leaves the old file on an error;
  \<open>err_text\<close> is \<open>err.Error()\<close>.
\<close>

definition refreshListUnlocked ::
  "rule_env \<Rightarrow> fetcher \<Rightarrow> (string \<Rightarrow> string option) \<Rightarrow> (fetch_error \<Rightarrow> string) \<Rightarrow> time \<Rightarrow> string \<Rightarrow> RuleEngine
    \<Rightarrow> (list_error + bool) \<times> RuleEngine" where
  "refreshListUnlocked V fetch write err_text now i e =
     (case find (\<lambda>l. fl_ID l = i) (cfg_lists (re_cfg e)) of None \<Rightarrow> (Inl (ListNotFound i), e)
      | Some t \<Rightarrow>
         (case fetch (fl_URL t) (fl_ETag t) (fl_LastModified t) of
            Inl err \<Rightarrow>
              (if re_files e (fc_DataDir (re_cfg e)) i \<noteq> None \<and> isTransientFetchError err
               then (Inr False, upd_list i (\<lambda>l. l\<lparr>fl_LastStatus := ListStatusCached, fl_LastError := err_text err\<rparr>) e)
               else (Inl (FetchFailed err), upd_list i (\<lambda>l. l\<lparr>fl_LastStatus := ListStatusFailed, fl_LastError := err_text err\<rparr>) e))
          | Inr r \<Rightarrow>
              (if fr_notModified r
               then (Inr False, upd_list i (\<lambda>l. l\<lparr>fl_LastStatus := ListStatusUnchanged, fl_LastError := [],
                                                 fl_LastUpdated := go_div now millisecond\<rparr>) e)
               else case write (fr_data r) of
                 Some we \<Rightarrow> (Inl (SaveFailed we), upd_list i (\<lambda>l. l\<lparr>fl_LastStatus := ListStatusFailed, fl_LastError := we\<rparr>) e)
               | None \<Rightarrow>
                  (Inr True,
                   upd_list i (\<lambda>l. l\<lparr>fl_RulesCount := (case rv_parseText V (fr_data r) i of None \<Rightarrow> 0 | Some ps \<Rightarrow> length ps),
                       fl_LastUpdated := go_div now millisecond, fl_Checksum := rv_checksum V (fr_data r),
                       fl_ETag := fr_etag r, fl_LastModified := fr_lastModified r, fl_LastStatus := ListStatusOK, fl_LastError := []\<rparr>)
                    (e\<lparr>re_files := (re_files e)(fc_DataDir (re_cfg e) := (re_files e (fc_DataDir (re_cfg e)))(i \<mapsto> fr_data r))\<rparr>)))))"

definition wrap_rebuild :: "string option \<times> RuleEngine \<Rightarrow> list_error option \<times> RuleEngine" where
  "wrap_rebuild p = (map_option RebuildFailed (fst p), snd p)"

definition AddFilterList ::
  "rule_env \<Rightarrow> fetcher \<Rightarrow> (string \<Rightarrow> string option) \<Rightarrow> (fetch_error \<Rightarrow> string) \<Rightarrow> time \<Rightarrow> string \<Rightarrow> FilterList \<Rightarrow> RuleEngine
    \<Rightarrow> list_error option \<times> RuleEngine" where
  "AddFilterList V fetch write err_text now freshId l0 e =
     (let l = l0\<lparr>fl_ID := or_default (fl_ID l0) freshId\<rparr> in
      if list_ex (\<lambda>x. fl_ID x = fl_ID l) (cfg_lists (re_cfg e)) then (Some (ListExists (fl_ID l)), e)
      else (let e1 = e\<lparr>re_cfg := (re_cfg e)\<lparr>fc_Lists := Some (cfg_lists (re_cfg e) @ [l])\<rparr>\<rparr> in
        case refreshListUnlocked V fetch write err_text now (fl_ID l) e1 of
          (Inl err, e2) \<Rightarrow> (Some err, e2)
        | (Inr _, e2) \<Rightarrow> wrap_rebuild (rebuildUnlocked V e2)))"

definition UpdateFilterList :: "rule_env \<Rightarrow> FilterList \<Rightarrow> RuleEngine \<Rightarrow> list_error option \<times> RuleEngine" where
  "UpdateFilterList V l e =
     (if \<not> list_ex (\<lambda>x. fl_ID x = fl_ID l) (cfg_lists (re_cfg e)) then (Some (ListNotFound (fl_ID l)), e)
      else if trim_space (fl_URL l) = [] then (Some (EmptyURL (fl_ID l)), e)
      else wrap_rebuild (rebuildUnlocked V
        (upd_list (fl_ID l) (\<lambda>x. x\<lparr>fl_Name := fl_Name l, fl_URL := fl_URL l, fl_Enabled := fl_Enabled l\<rparr>) e)))"

definition RemoveFilterList :: "rule_env \<Rightarrow> string \<Rightarrow> RuleEngine \<Rightarrow> list_error option \<times> RuleEngine" where
  "RemoveFilterList V i e =
     (case find (\<lambda>k. fl_ID (cfg_lists (re_cfg e) ! k) = i) [0..<length (cfg_lists (re_cfg e))] of
        None \<Rightarrow> (Some (ListNotFound i), e)
      | Some k \<Rightarrow>
         wrap_rebuild (rebuildUnlocked V
           (e\<lparr>re_cfg := (re_cfg e)\<lparr>fc_Lists := Some (take k (cfg_lists (re_cfg e)) @ drop (Suc k) (cfg_lists (re_cfg e)))\<rparr>,
              re_files := (re_files e)(fc_DataDir (re_cfg e) := (re_files e (fc_DataDir (re_cfg e)))(i := None))\<rparr>)))"

definition RefreshList ::
  "rule_env \<Rightarrow> fetcher \<Rightarrow> (string \<Rightarrow> string option) \<Rightarrow> (fetch_error \<Rightarrow> string) \<Rightarrow> time \<Rightarrow> string \<Rightarrow> RuleEngine
    \<Rightarrow> list_error option \<times> RuleEngine" where
  "RefreshList V fetch write err_text now i e =
     (case refreshListUnlocked V fetch write err_text now i e of
        (Inl err, e1) \<Rightarrow> (Some err, e1)
      | (Inr _, e1) \<Rightarrow> wrap_rebuild (rebuildUnlocked V e1))"

fun refresh_lists ::
  "rule_env \<Rightarrow> fetcher \<Rightarrow> (string \<Rightarrow> string option) \<Rightarrow> (fetch_error \<Rightarrow> string) \<Rightarrow> time \<Rightarrow> FilterList list \<Rightarrow> bool \<Rightarrow> RuleEngine
    \<Rightarrow> bool \<times> RuleEngine" where
  "refresh_lists V fetch write err_text now [] changed e = (changed, e)"
| "refresh_lists V fetch write err_text now (l # ls) changed e =
     (if \<not> fl_Enabled l then refresh_lists V fetch write err_text now ls changed e
      else case refreshListUnlocked V fetch write err_text now (fl_ID l) e of
        (Inr True, e1) \<Rightarrow> refresh_lists V fetch write err_text now ls True e1
      | (_, e1) \<Rightarrow> refresh_lists V fetch write err_text now ls changed e1)"

definition RefreshAllLists ::
  "rule_env \<Rightarrow> fetcher \<Rightarrow> (string \<Rightarrow> string option) \<Rightarrow> (fetch_error \<Rightarrow> string) \<Rightarrow> time \<Rightarrow> RuleEngine \<Rightarrow> string option \<times> RuleEngine" where
  "RefreshAllLists V fetch write err_text now e =
     (case refresh_lists V fetch write err_text now (cfg_lists (re_cfg e)) False e of
        (False, e1) \<Rightarrow> (None, e1)
      | (True, e1) \<Rightarrow> rebuildUnlocked V e1)"

text \<open>What the update ticker does every hour: the lists that are due, and a rebuild if one changed.\<close>

definition due :: "time \<Rightarrow> int \<Rightarrow> FilterList \<Rightarrow> bool" where
  "due now hours l = (fl_Enabled l \<and> now - fl_LastUpdated l * millisecond > wrap64 (hours * hour))"

definition update_tick ::
  "rule_env \<Rightarrow> fetcher \<Rightarrow> (string \<Rightarrow> string option) \<Rightarrow> (fetch_error \<Rightarrow> string) \<Rightarrow> time \<Rightarrow> RuleEngine \<Rightarrow> RuleEngine" where
  "update_tick V fetch write err_text now e =
     (case refresh_lists V fetch write err_text now (filter (due now (fc_UpdateIntervalHours (re_cfg e))) (cfg_lists (re_cfg e))) False e of
        (False, e1) \<Rightarrow> e1
      | (True, e1) \<Rightarrow> snd (rebuildUnlocked V e1))"

end
