(* ===== verification/Edns.thy ===== *)
theory Edns
  imports Dns_Msg
begin

text \<open>
  EDNS0 options and service parameters of a message (\<open>core/edns_pad.go\<close>,
  \<open>dns/edns0.go\<close>): setting, reading and removing options of the OPT record, extended
  errors, client subnets, padding, and stripping of ECH and IPv6 hints. The OPT record of a message
  is the last one of its additional section, as \<open>Msg.IsEdns0\<close> finds it; the wire length
  \<open>Msg.Len\<close> is a parameter. Functions that change the message in place return it.
\<close>

section \<open>Options\<close>

definition is_opt :: "rr \<Rightarrow> bool" where
  "is_opt r = (rr_type r = TypeOPT)"

definition opt_index :: "msg \<Rightarrow> nat option" where
  "opt_index m = find (\<lambda>i. is_opt (m_Extra m ! i)) (rev [0..<length (m_Extra m)])"

definition IsEdns0 :: "msg \<Rightarrow> rr option" where
  "IsEdns0 m = map_option (\<lambda>i. m_Extra m ! i) (opt_index m)"

definition opt_options :: "rr \<Rightarrow> edns0 list" where
  "opt_options r = (case rr_Data r of RD_OPT os \<Rightarrow> os | _ \<Rightarrow> [])"

definition msg_options :: "msg \<Rightarrow> edns0 list" where
  "msg_options m = (case IsEdns0 m of None \<Rightarrow> [] | Some r \<Rightarrow> opt_options r)"

text \<open>\<open>new(dns.OPT)\<close> with the default size, which the record keeps in its class field.\<close>

definition new_opt :: rr where
  "new_opt = \<lparr>rr_Hdr = \<lparr>h_Name = ''.'', h_Rrtype = TypeOPT, h_Class = 4096, h_Ttl = 0\<rparr>, rr_Data = RD_OPT []\<rparr>"

definition ensure_opt :: "msg \<Rightarrow> msg" where
  "ensure_opt m = (if IsEdns0 m = None then m\<lparr>m_Extra := m_Extra m @ [new_opt]\<rparr> else m)"

definition set_options :: "edns0 list \<Rightarrow> msg \<Rightarrow> msg" where
  "set_options os m = (case opt_index m of None \<Rightarrow> m
     | Some i \<Rightarrow> m\<lparr>m_Extra := (m_Extra m)[i := (m_Extra m ! i)\<lparr>rr_Data := RD_OPT os\<rparr>]\<rparr>)"

definition SetEdns0Option :: "edns0 \<Rightarrow> msg \<Rightarrow> msg" where
  "SetEdns0Option opt msg0 =
     (let m = ensure_opt msg0 in set_options (filter (\<lambda>x. edns0_Option x \<noteq> edns0_Option opt) (msg_options m) @ [opt]) m)"

definition GetEdns0Option :: "(edns0 \<Rightarrow> bool) \<Rightarrow> msg \<Rightarrow> edns0 option" where
  "GetEdns0Option is_T m = find is_T (msg_options m)"

definition RemoveEdns0Option :: "u16 \<Rightarrow> msg \<Rightarrow> bool \<times> msg" where
  "RemoveEdns0Option code m =
     (case IsEdns0 m of None \<Rightarrow> (False, m)
      | Some r \<Rightarrow>
          (let removed = list_ex (\<lambda>x. edns0_Option x = code) (opt_options r)
           in (removed, if removed then set_options (filter (\<lambda>x. edns0_Option x \<noteq> code) (opt_options r)) m else m)))"

section \<open>Extended errors and client subnets\<close>

definition MaxEDETextLength :: nat where "MaxEDETextLength = 200"

text \<open>\<open>utf8.RuneStart\<close>: not a continuation byte.\<close>

definition RuneStart :: "char \<Rightarrow> bool" where
  "RuneStart c = (\<not> (0x80 \<le> (of_char c :: nat) \<and> (of_char c :: nat) < 0xC0))"

fun rune_cut :: "string \<Rightarrow> nat \<Rightarrow> nat" where
  "rune_cut s 0 = 0"
| "rune_cut s (Suc n) = (if RuneStart (s ! Suc n) then Suc n else rune_cut s n)"

definition TruncateText :: "string \<Rightarrow> nat \<Rightarrow> string" where
  "TruncateText s maxLen = (if length s \<le> maxLen then s else take (rune_cut s maxLen) s)"

definition SetEDE :: "u16 \<Rightarrow> string \<Rightarrow> msg \<Rightarrow> msg" where
  "SetEDE infoCode extraText m = SetEdns0Option (EDNS0_EDE infoCode (TruncateText extraText MaxEDETextLength)) m"

definition EDNS0SUBNET :: u16 where "EDNS0SUBNET = 8"
definition EDNS0PADDING :: u16 where "EDNS0PADDING = 12"

definition StripECS :: "msg \<Rightarrow> msg" where
  "StripECS m = snd (RemoveEdns0Option EDNS0SUBNET m)"

definition subnet_option :: "ip_net \<Rightarrow> nat \<Rightarrow> edns0" where
  "subnet_option n maskLen =
     (if To4 (net_IP n) \<noteq> [] then EDNS0_SUBNET 1 (of_nat maskLen) 0 (To4 (net_IP n))
      else EDNS0_SUBNET 2 (of_nat maskLen) 0 (To16 (net_IP n)))"

text \<open>\<open>mask_len\<close> is \<open>IPMask.Size\<close>.\<close>

definition mask_len :: "u8 list \<Rightarrow> nat" where
  "mask_len m = (case find (\<lambda>n. m = CIDRMask n (8 * length m)) [0..<8 * length m + 1] of None \<Rightarrow> 0 | Some n \<Rightarrow> n)"

definition SetECS :: "string \<Rightarrow> msg \<Rightarrow> string option \<times> msg" where
  "SetECS subnetCIDR m =
     (if subnetCIDR = [] then (None, m)
      else case ParseCIDR subnetCIDR of None \<Rightarrow> (Some ''invalid CIDR address'', m)
        | Some n \<Rightarrow> (None, SetEdns0Option (subnet_option n (mask_len (net_Mask n))) m))"

section \<open>Padding\<close>

definition add_padding :: "nat \<Rightarrow> msg \<Rightarrow> msg" where
  "add_padding n m = set_options (msg_options m @ [EDNS0_PADDING (replicate n 0)]) m"

definition PadMessage :: "(msg \<Rightarrow> nat) \<Rightarrow> int \<Rightarrow> msg \<Rightarrow> bool \<times> msg" where
  "PadMessage Len blockSize msg0 =
     (if blockSize \<le> 0 then (False, msg0)
      else
       (let m = ensure_opt (snd (RemoveEdns0Option EDNS0PADDING msg0));
            curLen = int (Len m); rem = (curLen + 4) mod blockSize;
            padLen = (if rem > 0 then blockSize - rem else 0)
        in if curLen + 4 + padLen > 65535 then (False, m) else (True, add_padding (nat padLen) m)))"

section \<open>Service parameters\<close>

definition strip_values :: "u16 \<Rightarrow> svcb_kv list \<Rightarrow> svcb_kv list \<times> bool" where
  "strip_values k vs = (filter (\<lambda>kv. svcb_Key kv \<noteq> k) vs, list_ex (\<lambda>kv. svcb_Key kv = k) vs)"

fun strip_data :: "u16 \<Rightarrow> rdata \<Rightarrow> rdata \<times> bool" where
  "strip_data k (RD_HTTPS p t vs) = (let (vs', ch) = strip_values k vs in (if ch then RD_HTTPS p t vs' else RD_HTTPS p t vs, ch))"
| "strip_data k (RD_SVCB p t vs) = (let (vs', ch) = strip_values k vs in (if ch then RD_SVCB p t vs' else RD_SVCB p t vs, ch))"
| "strip_data k d = (d, False)"

definition strip_rr :: "u16 \<Rightarrow> rr \<Rightarrow> rr" where
  "strip_rr k r = r\<lparr>rr_Data := fst (strip_data k (rr_Data r))\<rparr>"

definition strip_msg :: "u16 \<Rightarrow> msg \<Rightarrow> bool \<times> msg" where
  "strip_msg k m =
     (list_ex (\<lambda>r. snd (strip_data k (rr_Data r))) (m_Answer m @ m_Extra m @ m_Ns m),
      m\<lparr>m_Answer := map (strip_rr k) (m_Answer m), m_Extra := map (strip_rr k) (m_Extra m), m_Ns := map (strip_rr k) (m_Ns m)\<rparr>)"

definition SVCB_ECHCONFIG :: u16 where "SVCB_ECHCONFIG = 5"
definition SVCB_IPV6HINT :: u16 where "SVCB_IPV6HINT = 6"

definition StripECH :: "msg \<Rightarrow> bool \<times> msg" where "StripECH m = strip_msg SVCB_ECHCONFIG m"
definition StripIPv6Hints :: "msg \<Rightarrow> bool \<times> msg" where "StripIPv6Hints m = strip_msg SVCB_IPV6HINT m"

section \<open>Facts on options\<close>

lemma opt_index_Some: "opt_index m = Some i \<Longrightarrow> i < length (m_Extra m) \<and> is_opt (m_Extra m ! i)"
  by (auto simp: opt_index_def find_Some_iff rev_nth)

lemma ensure_opt_index: "\<exists>i. opt_index (ensure_opt m) = Some i"
proof (cases "opt_index m")
  case None
  have "is_opt (m_Extra (ensure_opt m) ! length (m_Extra m))"
    using None by (simp add: ensure_opt_def IsEdns0_def is_opt_def new_opt_def)
  moreover have "length (m_Extra (ensure_opt m)) = Suc (length (m_Extra m))"
    using None by (simp add: ensure_opt_def IsEdns0_def)
  ultimately show ?thesis by (simp add: opt_index_def)
next
  case (Some i)
  then show ?thesis by (simp add: ensure_opt_def IsEdns0_def)
qed

lemma set_options_index:
  assumes "opt_index m = Some i"
  shows "opt_index (set_options os m) = Some i"
proof -
  have t: "is_opt (m_Extra (set_options os m) ! j) = is_opt (m_Extra m ! j)" if "j < length (m_Extra m)" for j
    using assms that by (cases "j = i") (simp_all add: set_options_def is_opt_def)
  have "length (m_Extra (set_options os m)) = length (m_Extra m)" using assms by (simp add: set_options_def)
  then have "opt_index (set_options os m) = find (\<lambda>j. is_opt (m_Extra (set_options os m) ! j)) (rev [0..<length (m_Extra m)])"
    by (simp add: opt_index_def)
  also have "\<dots> = find (\<lambda>j. is_opt (m_Extra m ! j)) (rev [0..<length (m_Extra m)])"
    by (rule find_cong) (auto simp: t)
  finally show ?thesis using assms by (simp add: opt_index_def)
qed

lemma set_options_get: "opt_index m = Some i \<Longrightarrow> msg_options (set_options os m) = os"
  using opt_index_Some [of m i] set_options_index [of m i os]
  by (simp add: msg_options_def IsEdns0_def) (simp add: set_options_def opt_options_def)

lemma ensure_opt_options: "msg_options (ensure_opt m) = msg_options m"
proof (cases "opt_index m")
  case None
  obtain i where i: "opt_index (ensure_opt m) = Some i" using ensure_opt_index by blast
  have old: "\<not> is_opt (m_Extra m ! j)" if "j < length (m_Extra m)" for j
    using None that by (auto simp: opt_index_def find_None_iff)
  have x: "m_Extra (ensure_opt m) = m_Extra m @ [new_opt]" using None by (simp add: ensure_opt_def IsEdns0_def)
  have "i = length (m_Extra m)"
    using opt_index_Some [OF i] old by (cases "i < length (m_Extra m)") (auto simp: x nth_append)
  then show ?thesis using None i by (simp add: msg_options_def IsEdns0_def x opt_options_def new_opt_def)
qed (simp add: ensure_opt_def IsEdns0_def)

lemma SetEdns0Option_options:
  "msg_options (SetEdns0Option opt m) = filter (\<lambda>x. edns0_Option x \<noteq> edns0_Option opt) (msg_options m) @ [opt]"
proof -
  obtain i where "opt_index (ensure_opt m) = Some i" using ensure_opt_index by blast
  from set_options_get [OF this] show ?thesis by (simp add: SetEdns0Option_def Let_def ensure_opt_options)
qed

lemma RemoveEdns0Option_options:
  "msg_options (snd (RemoveEdns0Option code m)) = filter (\<lambda>x. edns0_Option x \<noteq> code) (msg_options m)"
proof (cases "opt_index m")
  case None
  then show ?thesis by (simp add: RemoveEdns0Option_def IsEdns0_def msg_options_def)
next
  case (Some i)
  have o: "msg_options m = opt_options (m_Extra m ! i)" using Some by (simp add: msg_options_def IsEdns0_def)
  have none: "filter (\<lambda>x. edns0_Option x \<noteq> code) os = os" if "\<not> list_ex (\<lambda>x. edns0_Option x = code) os" for os
    using that by (induction os) auto
  show ?thesis
  proof (cases "list_ex (\<lambda>x. edns0_Option x = code) (msg_options m)")
    case True
    then show ?thesis using Some o set_options_get [OF Some] by (simp add: RemoveEdns0Option_def IsEdns0_def)
  next
    case False
    then show ?thesis using Some o none by (simp add: RemoveEdns0Option_def IsEdns0_def)
  qed
qed

text \<open>Setting and removing an option leaves everything but the additional section alone.\<close>

definition same_body :: "msg \<Rightarrow> msg \<Rightarrow> bool" where
  "same_body m m' \<longleftrightarrow> m' = m\<lparr>m_Extra := m_Extra m'\<rparr>"

lemma set_options_body: "same_body m (set_options os m)"
  by (simp add: same_body_def set_options_def split: option.splits)

lemma ensure_opt_body: "same_body m (ensure_opt m)"
  by (simp add: same_body_def ensure_opt_def)

lemma same_body_trans: "same_body a b \<Longrightarrow> same_body b c \<Longrightarrow> same_body a c"
  by (cases a, cases b, cases c) (simp add: same_body_def)

lemma SetEdns0Option_body: "same_body m (SetEdns0Option opt m)"
  unfolding SetEdns0Option_def Let_def by (rule same_body_trans [OF ensure_opt_body set_options_body])

text \<open>
  The EDNS0 options of a message behave as a table keyed by option code: setting one makes it
  the only option of its code, keeps every other option and its order, and touches nothing of the
  message outside the additional section; removing a code leaves no option of it.
\<close>

theorem edns_option_table:
  "msg_options (SetEdns0Option opt m) = filter (\<lambda>x. edns0_Option x \<noteq> edns0_Option opt) (msg_options m) @ [opt] \<and>
   same_body m (SetEdns0Option opt m) \<and>
   msg_options (snd (RemoveEdns0Option code m)) = filter (\<lambda>x. edns0_Option x \<noteq> code) (msg_options m)"
  by (simp add: SetEdns0Option_options SetEdns0Option_body RemoveEdns0Option_options)

lemma rune_cut_bound: "rune_cut s n \<le> n \<and> (rune_cut s n = 0 \<or> RuneStart (s ! rune_cut s n))"
  by (induction n) auto

lemma TruncateText_bound: "length (TruncateText s n) \<le> n"
  using rune_cut_bound [of s n] by (simp add: TruncateText_def)

section \<open>Facts on padding\<close>

text \<open>
  What padding relies on of the wire length: a padding option of \<open>n\<close> bytes adds four bytes of
  option header and its content.
\<close>

definition len_ok :: "(msg \<Rightarrow> nat) \<Rightarrow> bool" where
  "len_ok Len \<longleftrightarrow> (\<forall>m n. IsEdns0 m \<noteq> None \<longrightarrow> Len (add_padding n m) = Len m + 4 + n)"

lemma pad_multiple:
  fixes c b :: int
  assumes "0 < b"
  shows "(c + (if c mod b > 0 then b - c mod b else 0)) mod b = 0"
proof (cases "c mod b > 0")
  case True
  have "(c + (b - c mod b)) mod b = (c - c mod b) mod b" by (metis add.commute diff_add_eq mod_add_self2)
  also have "\<dots> = 0" by simp
  finally show ?thesis using True by simp
next
  case False
  then show ?thesis using assms pos_mod_sign [of b c] by (simp add: antisym)
qed

text \<open>
  A padded message has a wire length that is a multiple of the block size and at most 65535,
  whatever padding the message carried before.
\<close>

theorem PadMessage_length:
  assumes "len_ok Len" "PadMessage Len blockSize m = (True, m')"
  shows "int (Len m') mod blockSize = 0 \<and> Len m' \<le> 65535"
proof -
  define n where "n = ensure_opt (snd (RemoveEdns0Option EDNS0PADDING m))"
  define p where "p = (if (int (Len n) + 4) mod blockSize > 0 then blockSize - (int (Len n) + 4) mod blockSize else 0)"
  have b: "0 < blockSize" "m' = add_padding (nat p) n" "int (Len n) + 4 + p \<le> 65535"
    using assms(2) by (auto simp: PadMessage_def Let_def n_def p_def split: if_splits)
  have p0: "0 \<le> p" using b(1) pos_mod_bound [of blockSize "int (Len n) + 4"] by (auto simp: p_def intro: less_imp_le)
  have "IsEdns0 n \<noteq> None" using ensure_opt_index by (auto simp: IsEdns0_def n_def)
  then have "Len m' = Len n + 4 + nat p" using assms(1) b(2) by (simp add: len_ok_def)
  then have l: "int (Len m') = int (Len n) + 4 + p" using p0 by simp
  then show ?thesis using b pad_multiple [of blockSize "int (Len n) + 4"] by (simp add: p_def)
qed

text \<open>A wire length that counts the header and the padding options satisfies the law.\<close>

definition padding_len :: "edns0 \<Rightarrow> nat" where
  "padding_len o1 = (case o1 of EDNS0_PADDING p \<Rightarrow> 4 + length p | _ \<Rightarrow> 0)"

definition sample_len :: "msg \<Rightarrow> nat" where
  "sample_len m = 12 + sum_list (map padding_len (msg_options m))"

lemma sample_len_ok: "len_ok sample_len"
proof -
  have "msg_options (add_padding n m) = msg_options m @ [EDNS0_PADDING (replicate n 0)]" if "IsEdns0 m \<noteq> None" for m n
    using that by (auto simp: IsEdns0_def add_padding_def set_options_get)
  then show ?thesis by (simp add: len_ok_def sample_len_def padding_len_def)
qed

theorem PadMessage_length_witness:
  "fst (PadMessage sample_len 128 empty_msg) \<and> int (sample_len (snd (PadMessage sample_len 128 empty_msg))) mod 128 = 0 \<and>
   sample_len (snd (PadMessage sample_len 128 empty_msg)) \<le> 65535"
proof -
  have f: "fst (PadMessage sample_len 128 empty_msg)" by code_simp
  then have "PadMessage sample_len 128 empty_msg = (True, snd (PadMessage sample_len 128 empty_msg))" by (simp add: prod_eq_iff)
  from PadMessage_length [OF sample_len_ok this] f show ?thesis by blast
qed

section \<open>Facts on stripping\<close>

fun svcb_values :: "rdata \<Rightarrow> svcb_kv list" where
  "svcb_values (RD_HTTPS p t vs) = vs"
| "svcb_values (RD_SVCB p t vs) = vs"
| "svcb_values d = []"

lemma filter_key_id: "\<not> list_ex (\<lambda>kv. svcb_Key kv = k) vs \<Longrightarrow> filter (\<lambda>kv. svcb_Key kv \<noteq> k) vs = vs"
  by (induction vs) auto

lemma strip_data_values: "svcb_values (fst (strip_data k d)) = filter (\<lambda>kv. svcb_Key kv \<noteq> k) (svcb_values d)"
  by (cases d) (auto simp: strip_values_def filter_key_id)

lemma strip_data_changed: "snd (strip_data k d) = list_ex (\<lambda>kv. svcb_Key kv = k) (svcb_values d)"
  by (cases d) (auto simp: strip_values_def)

lemma strip_data_id: "\<not> snd (strip_data k d) \<Longrightarrow> fst (strip_data k d) = d"
  by (cases d) (auto simp: strip_values_def split: if_splits)

end
