(* ===== verification/Client_Resolver.thy ===== *)
theory Client_Resolver
  imports Ip_Text
begin

text \<open>
  Client names (\<open>core/client_resolver.go\<close>): static aliases, local reverse lookups, the cache of
  reverse DNS names, the limit on concurrent lookups, and the activity table. The order in which Go
  visits a map is a parameter (\<open>visit\<close>, a permutation of the keys); the reverse lookup itself
  and the local lookupers are the callbacks the sources inject.
\<close>

record ClientInfo =
  ci_IP :: string
  ci_Name :: string
  ci_QueryCount :: u64
  ci_LastSeen :: int

record cachedNameEntry =
  cn_name :: string
  cn_expiresAt :: time

record ClientConfig =
  clc_Enabled :: bool
  clc_EnableRDNS :: bool
  clc_CacheTTL :: duration
  clc_Aliases :: "(string \<times> string) list"

record ClientResolver =
  cr_enabled :: bool
  cr_enableRDNS :: bool
  cr_cacheTTL :: duration
  cr_aliases :: "(string \<times> string) list"
  cr_cache :: "(string \<times> cachedNameEntry) list"
  cr_stats :: "(string \<times> ClientInfo) list"
  cr_inFlight :: "string list"
  cr_sem :: nat  \<comment> \<open>slots of \<open>sem\<close> in use\<close>

definition maxConcurrentRDNS :: nat where "maxConcurrentRDNS = 16"
definition maxClientStats :: nat where "maxClientStats = 4096"
definition maxClientCache :: nat where "maxClientCache = 4096"

section \<open>Aliases\<close>

text \<open>Only an IPv4 address is brought to its canonical text; anything else is kept as it was typed.\<close>

definition alias_key :: "string \<Rightarrow> string" where
  "alias_key i = (let a = ParseIP i in if a \<noteq> [] \<and> To4 a \<noteq> [] then ip_String (To4 a) else i)"

fun add_aliases :: "(string \<times> string) list \<Rightarrow> (string \<times> string) list \<Rightarrow> (string \<times> string) list" where
  "add_aliases [] m = m"
| "add_aliases ((i0, n0) # rest) m =
     (let i = trim_space i0; n = trim_space n0 in
      add_aliases rest (if i \<noteq> [] \<and> n \<noteq> [] then AList.update (alias_key i) n m else m))"

definition NewClientResolver :: "ClientConfig \<Rightarrow> ClientResolver" where
  "NewClientResolver cfg =
     \<lparr>cr_enabled = clc_Enabled cfg, cr_enableRDNS = clc_EnableRDNS cfg,
      cr_cacheTTL = (if clc_CacheTTL cfg \<le> 0 then 3600 * second else clc_CacheTTL cfg),
      cr_aliases = add_aliases (clc_Aliases cfg) [], cr_cache = [], cr_stats = [], cr_inFlight = [], cr_sem = 0\<rparr>"

definition cr_Configure :: "ClientConfig \<Rightarrow> ClientResolver \<Rightarrow> ClientResolver" where
  "cr_Configure cfg r = r\<lparr>cr_enabled := clc_Enabled cfg, cr_enableRDNS := clc_EnableRDNS cfg,
      cr_cacheTTL := (if clc_CacheTTL cfg > 0 then clc_CacheTTL cfg else cr_cacheTTL r),
      cr_aliases := add_aliases (clc_Aliases cfg) []\<rparr>"

section \<open>The activity table\<close>

definition updateInfoName :: "string \<Rightarrow> string \<Rightarrow> ClientResolver \<Rightarrow> ClientResolver" where
  "updateInfoName i name r =
     (case map_of (cr_stats r) i of None \<Rightarrow> r
      | Some info \<Rightarrow> r\<lparr>cr_stats := AList.update i (info\<lparr>ci_Name := name\<rparr>) (cr_stats r)\<rparr>)"

definition SetAlias :: "string \<Rightarrow> string \<Rightarrow> ClientResolver \<Rightarrow> ClientResolver" where
  "SetAlias i0 n0 r =
     (let i = trim_space i0; n = trim_space n0 in
      if i = [] then r
      else (let k = alias_key i in
        if n = [] then r\<lparr>cr_aliases := AList.delete k (cr_aliases r)\<rparr>
        else updateInfoName k n (r\<lparr>cr_aliases := AList.update k n (cr_aliases r)\<rparr>)))"

definition evict_stats :: "(string list \<Rightarrow> string list) \<Rightarrow> ClientResolver \<Rightarrow> ClientResolver" where
  "evict_stats visit r =
     (if length (cr_stats r) \<ge> maxClientStats
      then (case find (\<lambda>k. map_of (cr_aliases r) k = None) (visit (map fst (cr_stats r))) of
              None \<Rightarrow> r
            | Some k \<Rightarrow> r\<lparr>cr_stats := AList.delete k (cr_stats r)\<rparr>)
      else r)"

definition touch :: "(string list \<Rightarrow> string list) \<Rightarrow> string \<Rightarrow> time \<Rightarrow> ClientResolver \<Rightarrow> ClientResolver" where
  "touch visit i now r =
     (let r1 = (case map_of (cr_stats r) i of
          Some info \<Rightarrow> r
        | None \<Rightarrow> (let r0 = evict_stats visit r in
            r0\<lparr>cr_stats := AList.update i \<lparr>ci_IP = i, ci_Name = [], ci_QueryCount = 0, ci_LastSeen = go_div now second\<rparr> (cr_stats r0)\<rparr>));
          info = the (map_of (cr_stats r1) i)
      in r1\<lparr>cr_stats := AList.update i (info\<lparr>ci_QueryCount := ci_QueryCount info + 1, ci_LastSeen := go_div now second\<rparr>) (cr_stats r1)\<rparr>)"

section \<open>Identification\<close>

text \<open>Starting a reverse lookup: at most one per address, at most sixteen in all.\<close>

definition start_rdns :: "string \<Rightarrow> ClientResolver \<Rightarrow> ClientResolver" where
  "start_rdns i r =
     (if cr_enableRDNS r \<and> i \<notin> set (cr_inFlight r) \<and> cr_sem r < maxConcurrentRDNS
      then r\<lparr>cr_inFlight := i # cr_inFlight r, cr_sem := cr_sem r + 1\<rparr> else r)"

definition local_name :: "(ip \<Rightarrow> string) list \<Rightarrow> ip \<Rightarrow> string" where
  "local_name lookupers a = (case find (\<lambda>f. f a \<noteq> []) lookupers of None \<Rightarrow> [] | Some f \<Rightarrow> f a)"

definition cached_name :: "string \<Rightarrow> time \<Rightarrow> ClientResolver \<Rightarrow> string \<times> ClientResolver" where
  "cached_name i now r =
     (case map_of (cr_cache r) i of
        Some e \<Rightarrow>
          (if now < cn_expiresAt e
           then (cn_name e, if cn_name e \<noteq> [] then updateInfoName i (cn_name e) r else r)
           else (cn_name e, start_rdns i r))
      | None \<Rightarrow> ([], start_rdns i r))"

definition IdentifyClient ::
  "(string list \<Rightarrow> string list) \<Rightarrow> (ip \<Rightarrow> string) list \<Rightarrow> ip \<Rightarrow> time \<Rightarrow> ClientResolver \<Rightarrow> string \<times> ClientResolver" where
  "IdentifyClient visit lookupers a0 now r0 =
     (if a0 = [] then ([], r0)
      else (let a = norm_ip a0; i = ip_String a; r = touch visit i now r0 in
        if \<not> cr_enabled r then ([], r)
        else case map_of (cr_aliases r) i of
          Some alias \<Rightarrow> (alias, updateInfoName i alias r)
        | None \<Rightarrow>
            (if IsLoopback a then (''localhost'', updateInfoName i ''localhost'' r)
             else if local_name lookupers a \<noteq> [] then (local_name lookupers a, updateInfoName i (local_name lookupers a) r)
             else cached_name i now r)))"

text \<open>The end of a reverse lookup; the answer of \<open>lookupAddr\<close> is a parameter (\<open>None\<close> is an error).\<close>

definition drop_one :: "(string list \<Rightarrow> string list) \<Rightarrow> (string \<Rightarrow> bool) \<Rightarrow> (string \<times> cachedNameEntry) list \<Rightarrow> (string \<times> cachedNameEntry) list" where
  "drop_one visit p m = (case find p (visit (map fst m)) of None \<Rightarrow> m | Some k \<Rightarrow> AList.delete k m)"

definition make_room :: "(string list \<Rightarrow> string list) \<Rightarrow> time \<Rightarrow> (string \<times> cachedNameEntry) list \<Rightarrow> (string \<times> cachedNameEntry) list" where
  "make_room visit now m =
     (if length m \<ge> maxClientCache
      then (let m1 = drop_one visit (\<lambda>k. case map_of m k of None \<Rightarrow> False | Some e \<Rightarrow> cn_expiresAt e < now) m
            in if length m1 \<ge> maxClientCache then drop_one visit (\<lambda>k. True) m1 else m1)
      else m)"

definition asyncResolveRDNS ::
  "(string list \<Rightarrow> string list) \<Rightarrow> string list option \<Rightarrow> string \<Rightarrow> time \<Rightarrow> ClientResolver \<Rightarrow> ClientResolver" where
  "asyncResolveRDNS visit names i now r =
     (let name = (case names of Some (n # _) \<Rightarrow> trim_suffix n ''.'' | _ \<Rightarrow> []);
          ttl = (if name = [] \<and> cr_cacheTTL r > 300 * second then 300 * second else cr_cacheTTL r);
          r1 = r\<lparr>cr_cache := AList.update i \<lparr>cn_name = name, cn_expiresAt = now + ttl\<rparr> (make_room visit now (cr_cache r))\<rparr>;
          r2 = (if name \<noteq> [] then updateInfoName i name r1 else r1)
      in r2\<lparr>cr_inFlight := filter (\<lambda>j. j \<noteq> i) (cr_inFlight r2), cr_sem := cr_sem r2 - 1\<rparr>)"

section \<open>Bounds\<close>

definition visits :: "(string list \<Rightarrow> string list) \<Rightarrow> bool" where
  "visits visit \<longleftrightarrow> (\<forall>ks. set (visit ks) = set ks)"

text \<open>
  The table of names and the lookups in flight stay within their limits. Clients with an alias are
  never evicted, so the activity table may exceed its limit only when it consists of them.
\<close>

abbreviation stat_keys :: "ClientResolver \<Rightarrow> string list" where "stat_keys r \<equiv> map fst (cr_stats r)"

definition unaliased :: "ClientResolver \<Rightarrow> string list" where
  "unaliased r = filter (\<lambda>k. map_of (cr_aliases r) k = None) (stat_keys r)"

definition resolver_inv :: "ClientResolver \<Rightarrow> bool" where
  "resolver_inv r \<longleftrightarrow>
     length (cr_cache r) \<le> maxClientCache \<and> cr_sem r \<le> maxConcurrentRDNS \<and>
     length (cr_inFlight r) \<le> cr_sem r \<and> distinct (cr_inFlight r) \<and>
     distinct (stat_keys r) \<and> length (unaliased r) \<le> maxClientStats"

lemma update_present_keys: "map_of m k \<noteq> None \<Longrightarrow> map fst (AList.update k v m) = map fst m"
  by (simp add: AList.update_keys map_of_eq_None_iff)

lemma delete_keys: "map fst (AList.delete k m) = filter (\<lambda>j. j \<noteq> k) (map fst m)"
  by (induction m) (auto simp: AList.delete_eq)

lemma updateInfoName_simps [simp]:
  "cr_cache (updateInfoName i n r) = cr_cache r" "cr_sem (updateInfoName i n r) = cr_sem r"
  "cr_inFlight (updateInfoName i n r) = cr_inFlight r" "cr_aliases (updateInfoName i n r) = cr_aliases r"
  "stat_keys (updateInfoName i n r) = stat_keys r" "cr_enabled (updateInfoName i n r) = cr_enabled r"
  by (auto simp: updateInfoName_def update_present_keys split: option.splits)

lemma resolver_inv_cong:
  assumes "stat_keys r' = stat_keys r" "cr_aliases r' = cr_aliases r" "cr_cache r' = cr_cache r" "cr_sem r' = cr_sem r"
    "cr_inFlight r' = cr_inFlight r"
  shows "resolver_inv r' = resolver_inv r"
  by (simp only: resolver_inv_def unaliased_def assms)

lemma resolver_inv_name [simp]: "resolver_inv (updateInfoName i n r) = resolver_inv r"
  by (intro resolver_inv_cong) simp_all

lemma evict_stats_inv:
  assumes "resolver_inv r" "visits visit"
  shows "resolver_inv (evict_stats visit r) \<and> length (unaliased (evict_stats visit r)) < maxClientStats \<and>
    set (stat_keys (evict_stats visit r)) \<subseteq> set (stat_keys r) \<and> cr_aliases (evict_stats visit r) = cr_aliases r"
proof (cases "length (cr_stats r) \<ge> maxClientStats")
  case False
  have "length (unaliased r) \<le> length (stat_keys r)" unfolding unaliased_def by (rule length_filter_le)
  with False assms(1) show ?thesis by (simp add: evict_stats_def)
next
  case True
  let ?f = "find (\<lambda>k. map_of (cr_aliases r) k = None) (visit (stat_keys r))"
  show ?thesis
  proof (cases ?f)
    case None
    then have "unaliased r = []" using assms(2) by (auto simp: find_None_iff visits_def unaliased_def filter_empty_conv)
    with None True assms(1) show ?thesis by (simp add: evict_stats_def maxClientStats_def)
  next
    case (Some k)
    define r' where "r' = r\<lparr>cr_stats := AList.delete k (cr_stats r)\<rparr>"
    have k: "k \<in> set (unaliased r)"
      using Some assms(2) by (auto simp: find_Some_iff visits_def unaliased_def dest: nth_mem)
    have e: "evict_stats visit r = r'" using True Some by (simp add: evict_stats_def r'_def)
    have u: "unaliased r' = filter (\<lambda>j. j \<noteq> k) (unaliased r)" by (simp add: unaliased_def r'_def delete_keys filter_filter conj_commute)
    have "length (unaliased r') < length (unaliased r)" unfolding u using k by (rule length_filter_less) simp
    then show ?thesis using assms(1) by (auto simp: e resolver_inv_def r'_def delete_keys)
  qed
qed

lemma touch_inv:
  assumes "resolver_inv r" "visits visit"
  shows "resolver_inv (touch visit i now r)"
proof -
  define r1 where "r1 = (case map_of (cr_stats r) i of Some info \<Rightarrow> r
        | None \<Rightarrow> (let r0 = evict_stats visit r in
            r0\<lparr>cr_stats := AList.update i \<lparr>ci_IP = i, ci_Name = [], ci_QueryCount = 0, ci_LastSeen = go_div now second\<rparr> (cr_stats r0)\<rparr>))"
  have "resolver_inv r1 \<and> map_of (cr_stats r1) i \<noteq> None"
  proof (cases "map_of (cr_stats r) i")
    case (Some info)
    then show ?thesis using assms(1) by (simp add: r1_def)
  next
    case None
    define r0 where "r0 = evict_stats visit r"
    have e: "resolver_inv r0" "length (unaliased r0) < maxClientStats" "set (stat_keys r0) \<subseteq> set (stat_keys r)"
      using evict_stats_inv [OF assms] by (simp_all add: r0_def)
    have i: "i \<notin> set (stat_keys r0)" using e(3) None by (auto simp: map_of_eq_None_iff)
    then have k: "stat_keys r1 = stat_keys r0 @ [i]" using None by (simp add: r1_def r0_def [symmetric] Let_def AList.update_keys)
    have f: "cr_aliases r1 = cr_aliases r0" "cr_cache r1 = cr_cache r0" "cr_sem r1 = cr_sem r0" "cr_inFlight r1 = cr_inFlight r0"
      using None by (simp_all add: r1_def r0_def [symmetric] Let_def)
    have "length (unaliased r1) \<le> Suc (length (unaliased r0))" using k f by (simp add: unaliased_def)
    moreover have "map_of (cr_stats r1) i \<noteq> None" using None by (simp add: r1_def Let_def AList.update_conv')
    ultimately show ?thesis using e i k f by (simp add: resolver_inv_def)
  qed
  note i = this
  let ?v = "(the (map_of (cr_stats r1) i))\<lparr>ci_QueryCount := ci_QueryCount (the (map_of (cr_stats r1) i)) + 1, ci_LastSeen := go_div now second\<rparr>"
  have "touch visit i now r = r1\<lparr>cr_stats := AList.update i ?v (cr_stats r1)\<rparr>"
    unfolding touch_def r1_def Let_def by (rule refl)
  moreover have "resolver_inv (r1\<lparr>cr_stats := AList.update i ?v (cr_stats r1)\<rparr>) = resolver_inv r1"
    using i by (intro resolver_inv_cong) (simp_all add: update_present_keys)
  ultimately show ?thesis using i by simp
qed

lemma start_rdns_inv: "resolver_inv r \<Longrightarrow> resolver_inv (start_rdns i r)"
  by (auto simp: start_rdns_def resolver_inv_def unaliased_def)

lemma cached_name_inv: "resolver_inv r \<Longrightarrow> resolver_inv (snd (cached_name i now r))"
  by (auto simp: cached_name_def start_rdns_inv split: option.splits)

lemma IdentifyClient_inv:
  "resolver_inv r \<Longrightarrow> visits visit \<Longrightarrow> resolver_inv (snd (IdentifyClient visit lk a now r))"
  using touch_inv [of r visit] by (auto simp: IdentifyClient_def Let_def cached_name_inv split: option.splits)

lemma drop_one_length: "length (drop_one visit p m) \<le> length m"
  by (simp add: drop_one_def length_delete_le split: option.splits)

lemma make_room_length:
  assumes "visits visit" "length m \<le> maxClientCache"
  shows "length (make_room visit now m) < maxClientCache"
proof -
  have d: "length (drop_one visit (\<lambda>k. True) x) < length x" if "x \<noteq> []" for x
  proof -
    have "visit (map fst x) \<noteq> []" using assms(1) that by (metis visits_def list.map_disc_iff set_empty)
    then obtain k ks where k: "visit (map fst x) = k # ks" by (cases "visit (map fst x)") auto
    then have "k \<in> set (map fst x)" using assms(1) by (metis visits_def list.set_intros(1))
    then have "length (filter (\<lambda>j. j \<noteq> k) (map fst x)) < length (map fst x)" by (rule length_filter_less) simp
    then have "length (map fst (AList.delete k x)) < length x" unfolding delete_keys by (simp only: length_map)
    then show ?thesis by (simp add: drop_one_def k)
  qed
  show ?thesis
  proof (cases "length m \<ge> maxClientCache")
    case True
    define m1 where "m1 = drop_one visit (\<lambda>k. case map_of m k of None \<Rightarrow> False | Some e \<Rightarrow> cn_expiresAt e < now) m"
    have l: "length m1 \<le> maxClientCache" using drop_one_length assms(2) by (metis m1_def le_trans)
    show ?thesis
    proof (cases "length m1 \<ge> maxClientCache")
      case True
      then have "m1 \<noteq> []" by (auto simp: maxClientCache_def)
      from d [OF this] l True \<open>length m \<ge> maxClientCache\<close> show ?thesis by (simp add: make_room_def m1_def [symmetric] Let_def)
    next
      case False
      then show ?thesis using \<open>length m \<ge> maxClientCache\<close> by (simp add: make_room_def m1_def [symmetric] Let_def)
    qed
  qed (simp add: make_room_def)
qed

lemma asyncResolveRDNS_inv:
  assumes "resolver_inv r" "visits visit" "i \<in> set (cr_inFlight r)"
  shows "resolver_inv (asyncResolveRDNS visit names i now r)"
proof -
  define name where "name = (case names of Some (n # _) \<Rightarrow> trim_suffix n ''.'' | _ \<Rightarrow> [])"
  define ttl where "ttl = (if name = [] \<and> cr_cacheTTL r > 300 * second then 300 * second else cr_cacheTTL r)"
  define r1 where "r1 = r\<lparr>cr_cache := AList.update i \<lparr>cn_name = name, cn_expiresAt = now + ttl\<rparr> (make_room visit now (cr_cache r))\<rparr>"
  define r2 where "r2 = (if name \<noteq> [] then updateInfoName i name r1 else r1)"
  have e: "asyncResolveRDNS visit names i now r = r2\<lparr>cr_inFlight := filter (\<lambda>j. j \<noteq> i) (cr_inFlight r2), cr_sem := cr_sem r2 - 1\<rparr>"
    unfolding asyncResolveRDNS_def Let_def r2_def r1_def ttl_def name_def by (rule refl)
  have "length (make_room visit now (cr_cache r)) < maxClientCache"
    using make_room_length [OF assms(2)] assms(1) by (simp add: resolver_inv_def)
  moreover have "length (AList.update k v m) \<le> Suc (length m)" for k and v :: cachedNameEntry and m by (induction m) auto
  ultimately have c: "length (cr_cache r1) \<le> maxClientCache"
    by (metis (no_types, lifting) r1_def ClientResolver.select_convs(5) ClientResolver.update_convs(5) ClientResolver.surjective Suc_leI le_trans)
  have f: "length (filter (\<lambda>j. j \<noteq> i) (cr_inFlight r)) < length (cr_inFlight r)" using assms(3) by (rule length_filter_less) simp
  have r1: "resolver_inv r1" using assms(1) c by (simp add: resolver_inv_def r1_def unaliased_def)
  then have r2: "resolver_inv r2" by (simp add: r2_def)
  have k: "cr_inFlight r2 = cr_inFlight r" "cr_sem r2 = cr_sem r" by (simp_all add: r2_def r1_def)
  have "length (filter (\<lambda>j. j \<noteq> i) (cr_inFlight r)) \<le> cr_sem r - 1" "cr_sem r - 1 \<le> maxConcurrentRDNS"
    using f assms(1) by (auto simp: resolver_inv_def)
  then show ?thesis using r2 k by (simp add: e resolver_inv_def unaliased_def)
qed

text \<open>A run of the resolver: clients are identified, and lookups in flight end, in any order.\<close>

inductive cr_step :: "ClientResolver \<Rightarrow> ClientResolver \<Rightarrow> bool" where
  identify: "visits visit \<Longrightarrow> cr_step r (snd (IdentifyClient visit lookupers a now r))"
| finish: "visits visit \<Longrightarrow> i \<in> set (cr_inFlight r) \<Longrightarrow> cr_step r (asyncResolveRDNS visit names i now r)"

lemma cr_step_inv: "cr_step r r' \<Longrightarrow> resolver_inv r \<Longrightarrow> resolver_inv r'"
  by (induction rule: cr_step.induct) (auto intro: IdentifyClient_inv asyncResolveRDNS_inv)

lemma new_resolver_inv: "resolver_inv (NewClientResolver cfg)"
  by (simp add: resolver_inv_def NewClientResolver_def unaliased_def maxClientCache_def maxConcurrentRDNS_def maxClientStats_def)

text \<open>
  However clients come and lookups end, the name cache holds at most 4096 entries, at most
  sixteen lookups are in flight and never two for one address, and at most 4096 clients without an
  alias are tracked.
\<close>

theorem client_resolver_bounded:
  assumes "cr_step\<^sup>*\<^sup>* (NewClientResolver cfg) r"
  shows "length (cr_cache r) \<le> 4096 \<and> length (cr_inFlight r) \<le> 16 \<and> distinct (cr_inFlight r) \<and> length (unaliased r) \<le> 4096"
proof -
  have "resolver_inv r" using assms by (induction rule: rtranclp_induct) (auto intro: new_resolver_inv cr_step_inv)
  then show ?thesis by (auto simp: resolver_inv_def maxClientCache_def maxConcurrentRDNS_def maxClientStats_def)
qed

definition sample_client_config :: ClientConfig where
  "sample_client_config = \<lparr>clc_Enabled = True, clc_EnableRDNS = True, clc_CacheTTL = 0, clc_Aliases = []\<rparr>"

theorem client_resolver_bounded_witness:
  "cr_step (NewClientResolver sample_client_config) (snd (IdentifyClient id [] [10, 0, 0, 1] 0 (NewClientResolver sample_client_config))) \<and>
   length (cr_inFlight (snd (IdentifyClient id [] [10, 0, 0, 1] 0 (NewClientResolver sample_client_config)))) \<le> 16"
proof -
  have s: "cr_step (NewClientResolver sample_client_config) (snd (IdentifyClient id [] [10, 0, 0, 1] 0 (NewClientResolver sample_client_config)))"
    by (rule cr_step.identify) (simp add: visits_def)
  have "cr_step\<^sup>*\<^sup>* (NewClientResolver sample_client_config) (snd (IdentifyClient id [] [10, 0, 0, 1] 0 (NewClientResolver sample_client_config)))"
    using s by (rule r_into_rtranclp)
  from client_resolver_bounded [OF this] s show ?thesis by blast
qed

text \<open>
  An alias for an IPv6 address works only in the canonical spelling: typed any other way, it is
  stored under the typed text and the client is looked up under another.
\<close>

theorem alias_text_not_canonical:
  assumes "trim_space i = i" "i \<noteq> []" "trim_space n = n" "n \<noteq> []" "To4 (ParseIP i) = []" "i \<noteq> ip_String (norm_ip (ParseIP i))"
  shows "map_of (cr_aliases (NewClientResolver (cfg\<lparr>clc_Aliases := [(i, n)]\<rparr>))) (ip_String (norm_ip (ParseIP i))) = None"
  using assms by (simp add: NewClientResolver_def alias_key_def Let_def)

theorem alias_text_not_canonical_witness:
  "map_of (cr_aliases (NewClientResolver (sample_client_config\<lparr>clc_Aliases := [(''::A'', ''nas'')]\<rparr>))) (ip_String (norm_ip (ParseIP ''::A''))) = None"
proof (rule alias_text_not_canonical)
  show "trim_space ''::A'' = ''::A''" "trim_space ''nas'' = ''nas''" "To4 (ParseIP ''::A'') = []"
    "''::A'' \<noteq> ip_String (norm_ip (ParseIP ''::A''))" by code_simp+
qed simp_all

end
