(* ===== verification/Pipeline.thy ===== *)
theory Pipeline
  imports Real_Ip Dns_Cache Scheduler Safe_Browsing Rule_Engine Edns Client_Resolver
begin

text \<open>
  The query pipeline (\<open>dns/context.go\<close>, \<open>dns/pipeline.go\<close>): the context a query carries,
  the state its handlers share, and the onion of middlewares, each of which may answer, pass on or
  work on what comes back.

  A handler is a function of the state: the context of the query, and the world it acts on. Of the
  world the state has the time, the answer cache, the rule engine, the client names, the reputation engine, the requests that left for an
  upstream (\<open>w_sent\<close>), the background refreshes started (\<open>w_tasks\<close>), the calls the
  native rate limiter has seen (\<open>w_limited\<close>), how a coalesced query ends for this caller
  (\<open>w_flight\<close>) and what the metrics callback was given (\<open>w_reported\<close>). A message reached by
  pointer is the same field of the state before and after a call.
\<close>

section \<open>The context of a query\<close>

datatype attr = AStr string | ABool bool

record dns_context =
  dx_Context :: ctx
  dx_Req :: "msg option"
  dx_Resp :: "msg option"
  dx_ClientIP :: ip
  dx_ClientPort :: int
  dx_ClientName :: string
  dx_ClientID :: string
  dx_Protocol :: string
  dx_StartTime :: time
  dx_Attributes :: "(string \<times> attr) list"
  dx_Err :: "string option"

definition ctx_Set :: "string \<Rightarrow> attr \<Rightarrow> 'a dns_context_scheme \<Rightarrow> 'a dns_context_scheme" where
  "ctx_Set k v c = c\<lparr>dx_Attributes := AList.update k v (dx_Attributes c)\<rparr>"

definition ctx_Get :: "string \<Rightarrow> 'a dns_context_scheme \<Rightarrow> attr option" where
  "ctx_Get k c = map_of (dx_Attributes c) k"

definition attr_is_true :: "string \<Rightarrow> 'a dns_context_scheme \<Rightarrow> bool" where
  "attr_is_true k c = (ctx_Get k c = Some (ABool True))"

text \<open>The address and port of a peer; anything unknown is nil and 0.\<close>

fun peer_endpoint :: "net_addr option \<Rightarrow> ip \<times> int" where
  "peer_endpoint None = ([], 0)"
| "peer_endpoint (Some (UDPAddr a p)) = (a, p)"
| "peer_endpoint (Some (TCPAddr a p)) = (a, p)"
| "peer_endpoint (Some (OtherAddr s)) =
     (case SplitHostPort s of None \<Rightarrow> ([], 0)
      | Some (host, portStr) \<Rightarrow> (ParseIP host, case Atoi portStr of None \<Rightarrow> 0 | Some p \<Rightarrow> p))"

definition NewDNSContext :: "ctx \<Rightarrow> msg \<Rightarrow> net_addr option \<Rightarrow> string \<Rightarrow> time \<Rightarrow> dns_context" where
  "NewDNSContext c req clientAddr protocol now =
     \<lparr>dx_Context = c, dx_Req = Some req, dx_Resp = None, dx_ClientIP = fst (peer_endpoint clientAddr),
      dx_ClientPort = snd (peer_endpoint clientAddr), dx_ClientName = [], dx_ClientID = [], dx_Protocol = protocol,
      dx_StartTime = now, dx_Attributes = [], dx_Err = None\<rparr>"

record queryOrigin =
  qo_Protocol :: string
  qo_ServerName :: string
  qo_PathClientID :: string

definition attrClientGroup :: string where "attrClientGroup = ''client_group''"
definition attrClientID :: string where "attrClientID = ''client_id''"

definition applyEncryptedClientID :: "queryOrigin \<Rightarrow> string \<Rightarrow> 'a dns_context_scheme \<Rightarrow> 'a dns_context_scheme" where
  "applyEncryptedClientID origin hostSNI c =
     (let i0 = qo_PathClientID origin;
          i = (if i0 = [] then ClientIDFromServerName hostSNI (qo_ServerName origin) else i0)
      in if i = [] then c else ctx_Set attrClientID (AStr i) (c\<lparr>dx_ClientID := i\<rparr>))"

section \<open>The state of a query\<close>

datatype sent = Forwarded msg | GroupForwarded string msg | Reputation msg

text \<open>
  How a coalesced query goes for this caller: it leads, or it joined another caller's query, which
  ended with a message and an error, at a later time, over the cache as it is then.
\<close>

datatype flight_role = Leader | Joined "msg option" "string option" dns_cache time

record qstate = dns_context +
  w_now :: time
  w_cache :: "dns_cache option"
  w_engine :: "RuleEngine option"
  w_clients :: "ClientResolver option"
  w_safe :: "SafeBrowsingEngine option"
  w_sent :: "sent list"
  w_tasks :: "(string \<times> msg \<times> string) list"
  w_limited :: "(ip \<times> time) list"
  w_flight :: flight_role
  w_reported :: "(dns_context \<times> duration \<times> string option) list"

type_synonym nxt = "qstate \<Rightarrow> string option \<times> qstate"
type_synonym middleware = "nxt \<Rightarrow> nxt"

section \<open>The onion\<close>

fun run :: "middleware list \<Rightarrow> nxt" where
  "run [] s = (None, s)"
| "run (m # ms) s = m (run ms) s"

definition NewPipeline :: "middleware list \<Rightarrow> middleware list" where "NewPipeline ms = ms"
definition pipeline_Use :: "middleware list \<Rightarrow> middleware list \<Rightarrow> middleware list" where "pipeline_Use ms p = p @ ms"

text \<open>\<open>Execute\<close> steps through the list by index; \<open>run\<close> is the same by structure.\<close>

function step :: "middleware list \<Rightarrow> nat \<Rightarrow> nxt" where
  "step ms i s = (if i \<ge> length ms then (None, s) else (ms ! i) (step ms (Suc i)) s)"
  by pat_completeness auto
termination by (relation "measure (\<lambda>(ms, i, s). length ms - i)") auto

declare step.simps [simp del]

definition Execute :: "middleware list \<Rightarrow> nxt" where
  "Execute ms s = (if ms = [] then (None, s) else step ms 0 s)"

lemma step_run: "step ms i = run (drop i ms)"
proof (induction "length ms - i" arbitrary: i)
  case 0
  then show ?case by (intro ext) (simp add: step.simps [of ms i])
next
  case (Suc n)
  then have i: "i < length ms" by simp
  have "step ms (Suc i) = run (drop (Suc i) ms)" by (rule Suc.hyps(1)) (use Suc.hyps(2) in simp)
  moreover have "drop i ms = ms ! i # drop (Suc i) ms" by (rule Cons_nth_drop_Suc [OF i, symmetric])
  ultimately show ?case using i by (intro ext) (simp add: step.simps [of ms i])
qed

lemma Execute_run: "Execute ms s = run ms s"
  by (cases ms) (simp_all add: Execute_def step_run)

section \<open>Contracts of a middleware\<close>

text \<open>
  A gate answers at once when it decides and otherwise only passes on; a response handler always
  passes on and then works on what came back.
\<close>

locale gate =
  fixes m :: middleware and decides :: "qstate \<Rightarrow> bool" and answer :: "qstate \<Rightarrow> qstate" and pass :: "qstate \<Rightarrow> qstate"
  assumes gate_law: "m next s = (if decides s then (None, answer s) else next (pass s))"
begin

lemma gate_stops: "decides s \<Longrightarrow> run (m # ms) s = (None, answer s)"
  by (simp add: gate_law)

lemma gate_passes: "\<not> decides s \<Longrightarrow> run (m # ms) s = run ms (pass s)"
  by (simp add: gate_law)

end

locale after =
  fixes m :: middleware and work :: "qstate \<Rightarrow> string option \<times> qstate \<Rightarrow> string option \<times> qstate"
  assumes after_law: "m next s = work s (next s)"
begin

lemma after_run: "run (m # ms) s = work s (run ms s)"
  by (simp add: after_law)

end

text \<open>
  \<open>carries Q R m\<close>: over states that satisfy \<open>Q\<close>, if the rest of the pipeline relates its
  input to its output by \<open>R\<close>, so does \<open>m\<close> in front of it. The relation used below is
  that nothing was sent upstream.
\<close>

definition carries :: "(qstate \<Rightarrow> bool) \<Rightarrow> (qstate \<Rightarrow> qstate \<Rightarrow> bool) \<Rightarrow> middleware \<Rightarrow> bool" where
  "carries Q R m \<longleftrightarrow> (\<forall>next. (\<forall>s. Q s \<longrightarrow> R s (snd (next s))) \<longrightarrow> (\<forall>s. Q s \<longrightarrow> R s (snd (m next s))))"

lemma carriesI:
  "(\<And>next s. (\<And>s. Q s \<Longrightarrow> R s (snd (next s))) \<Longrightarrow> Q s \<Longrightarrow> R s (snd (m next s))) \<Longrightarrow> carries Q R m"
  by (simp add: carries_def)

definition settles :: "(qstate \<Rightarrow> bool) \<Rightarrow> (qstate \<Rightarrow> qstate \<Rightarrow> bool) \<Rightarrow> middleware \<Rightarrow> bool" where
  "settles Q R m \<longleftrightarrow> (\<forall>next s. Q s \<longrightarrow> R s (snd (m next s)))"

lemma settles_carries: "settles Q R m \<Longrightarrow> carries Q R m"
  by (simp add: settles_def carries_def)

lemma run_carries:
  "list_all (carries Q R) ms \<Longrightarrow> (\<And>s. Q s \<Longrightarrow> R s s) \<Longrightarrow> Q s \<Longrightarrow> R s (snd (run ms s))"
proof (induction ms arbitrary: s)
  case Nil
  then show ?case by simp
next
  case (Cons k ms)
  then show ?case by (simp add: carries_def)
qed

lemma run_settled:
  "list_all (carries Q R) ms \<Longrightarrow> settles Q R m \<Longrightarrow> Q s \<Longrightarrow> R s (snd (run (ms @ m # rest) s))"
proof (induction ms arbitrary: s)
  case Nil
  then show ?case by (simp add: settles_def)
next
  case (Cons k ms)
  then show ?case by (simp add: carries_def)
qed

text \<open>The relation: no request left, and the cache and the background tasks are as they were.\<close>

definition quiet :: "qstate \<Rightarrow> qstate \<Rightarrow> bool" where
  "quiet s s' \<longleftrightarrow> w_sent s' = w_sent s \<and> w_cache s' = w_cache s \<and> w_tasks s' = w_tasks s"

lemma quiet_refl [simp]: "quiet s s" by (simp add: quiet_def)
lemma quiet_trans: "quiet a b \<Longrightarrow> quiet b c \<Longrightarrow> quiet a c" by (simp add: quiet_def)

lemma quiet_Set [simp]: "quiet s (ctx_Set k v t) = quiet s t"
  by (simp add: quiet_def ctx_Set_def)

context gate
begin

lemma gate_carries:
  assumes "\<And>s. Q s \<Longrightarrow> decides s \<Longrightarrow> R s (answer s)"
    and "\<And>s. Q s \<Longrightarrow> \<not> decides s \<Longrightarrow> Q (pass s)"
    and "\<And>s t. Q s \<Longrightarrow> \<not> decides s \<Longrightarrow> R (pass s) t \<Longrightarrow> R s t"
  shows "carries Q R m"
  using assms by (simp add: carries_def gate_law)

lemma gate_settles:
  assumes "\<And>s. Q s \<Longrightarrow> decides s" "\<And>s. Q s \<Longrightarrow> R s (answer s)"
  shows "settles Q R m"
  using assms by (simp add: settles_def gate_law)

end

context after
begin

lemma after_carries:
  assumes "\<And>s r. Q s \<Longrightarrow> R s (snd r) \<Longrightarrow> R s (snd (work s r))"
  shows "carries Q R m"
  using assms by (simp add: carries_def after_law)

end

text \<open>
  What a handler does before it calls the rest is what it does in front of a rest that always fails:
  \<open>probe\<close> ends with no error when the handler answers by itself, and otherwise in the state
  the handler passes on. It gives a gate its three functions.
\<close>

definition probe :: "middleware \<Rightarrow> qstate \<Rightarrow> string option \<times> qstate" where
  "probe m s = m (\<lambda>s. (Some [], s)) s"

definition decides_by :: "middleware \<Rightarrow> qstate \<Rightarrow> bool" where "decides_by m s = (fst (probe m s) = None)"
definition outcome_of :: "middleware \<Rightarrow> qstate \<Rightarrow> qstate" where "outcome_of m s = snd (probe m s)"

definition is_gate :: "middleware \<Rightarrow> bool" where
  "is_gate m \<longleftrightarrow> (\<forall>next s. m next s = (if decides_by m s then (None, outcome_of m s) else next (outcome_of m s)))"

lemma gate_probe: "is_gate m \<Longrightarrow> gate m (decides_by m) (outcome_of m) (outcome_of m)"
  by unfold_locales (simp add: is_gate_def)

text \<open>The same query from the same client at the same time, with the same rules, and nothing sent.\<close>

definition same_query :: "qstate \<Rightarrow> qstate \<Rightarrow> bool" where
  "same_query s s' \<longleftrightarrow> quiet s s' \<and> dx_Req s' = dx_Req s \<and> dx_ClientIP s' = dx_ClientIP s \<and> dx_Context s' = dx_Context s \<and>
     w_now s' = w_now s \<and> w_engine s' = w_engine s"

definition tidy :: "middleware \<Rightarrow> bool" where
  "tidy m \<longleftrightarrow> (\<forall>s. same_query s (outcome_of m s))"

text \<open>The answer, if there is one, carries the identifier of the request.\<close>

definition id_ok :: "qstate \<Rightarrow> bool" where
  "id_ok s \<longleftrightarrow> (\<forall>resp. dx_Resp s = Some resp \<longrightarrow> m_Id resp = m_Id (the (dx_Req s)))"

definition keeps_id :: "middleware \<Rightarrow> bool" where
  "keeps_id m \<longleftrightarrow> (\<forall>s. id_ok s \<longrightarrow> id_ok (outcome_of m s))"

definition asked :: "qstate \<Rightarrow> bool" where "asked s \<longleftrightarrow> dx_Req s \<noteq> None \<and> id_ok s"

definition replied :: "qstate \<Rightarrow> qstate \<Rightarrow> bool" where
  "replied s s' \<longleftrightarrow> dx_Req s' \<noteq> None \<and> m_Id (the (dx_Req s')) = m_Id (the (dx_Req s)) \<and> id_ok s'"

text \<open>A property of the query itself, which the same query later still has.\<close>

definition stable :: "(qstate \<Rightarrow> bool) \<Rightarrow> bool" where
  "stable Q \<longleftrightarrow> (\<forall>s s'. Q s \<longrightarrow> same_query s s' \<longrightarrow> Q s')"

lemma tidy_quiet:
  assumes "is_gate m" "tidy m" "stable Q"
  shows "carries Q quiet m"
proof (rule gate.gate_carries [OF gate_probe [OF assms(1)]])
  fix s assume "Q s"
  have k: "same_query s (outcome_of m s)" using assms(2) by (simp add: tidy_def)
  then show "quiet s (outcome_of m s)" by (simp add: same_query_def)
  then show "quiet s t" if "quiet (outcome_of m s) t" for t using that by (rule quiet_trans)
  show "Q (outcome_of m s)" using assms(3) \<open>Q s\<close> k by (auto simp: stable_def)
qed

lemma tidy_replied:
  assumes "is_gate m" "tidy m" "keeps_id m"
  shows "carries asked replied m"
  by (rule gate.gate_carries [OF gate_probe [OF assms(1)]]) (use assms(2,3) in \<open>auto simp: tidy_def keeps_id_def same_query_def asked_def replied_def\<close>)

lemma same_query_refl [simp]: "same_query s s" by (simp add: same_query_def)

lemma ctx_Set_simps [simp]:
  "dx_Req (ctx_Set k v s) = dx_Req s" "dx_Resp (ctx_Set k v s) = dx_Resp s" "dx_ClientIP (ctx_Set k v s) = dx_ClientIP s"
  "dx_ClientID (ctx_Set k v s) = dx_ClientID s" "dx_Context (ctx_Set k v s) = dx_Context s" "dx_Err (ctx_Set k v s) = dx_Err s"
  by (simp_all add: ctx_Set_def)

lemma ctx_Set_world [simp]:
  fixes s :: qstate
  shows "w_now (ctx_Set k v s) = w_now s" "w_cache (ctx_Set k v s) = w_cache s" "w_sent (ctx_Set k v s) = w_sent s"
    "w_tasks (ctx_Set k v s) = w_tasks s" "w_limited (ctx_Set k v s) = w_limited s" "w_flight (ctx_Set k v s) = w_flight s"
    "w_engine (ctx_Set k v s) = w_engine s" "w_clients (ctx_Set k v s) = w_clients s" "w_reported (ctx_Set k v s) = w_reported s"
    "w_safe (ctx_Set k v s) = w_safe s"
  by (simp_all add: ctx_Set_def)

lemma ctx_Get_Set [simp]: "ctx_Get k (ctx_Set k' v s) = (if k = k' then Some v else ctx_Get k s)"
  by (simp add: ctx_Get_def ctx_Set_def update_conv)

end
