(* ===== verification/Local_Sources.thy ===== *)
theory Local_Sources
  imports Dns_Msg Go_Addr
begin

text \<open>
  Names answered from local data: hosts files (\<open>core/hosts_resolver.go\<close>), custom rewrites
  (\<open>core/rewrite.go\<close>, \<open>core/rewrite_lookup.go\<close>) and enforced safe search
  (\<open>core/safesearch.go\<close>). The tables of the first two live in native libraries: a built table
  is the record of the functions it answers by, and building one is a parameter. The texts of the
  safe search rules are a parameter too.
\<close>

section \<open>Hosts files\<close>

datatype hostsSource = SourceFile string | SourceText string

record hosts_table =
  ht_lookup :: "string \<Rightarrow> u16 \<Rightarrow> ip list"
  ht_contains :: "string \<Rightarrow> bool"
  ht_ptr :: "string \<Rightarrow> string list"
  ht_reverse :: "ip \<Rightarrow> string"

text \<open>Building a table: it fails outright, or gives the table, the files read and a read error.\<close>

type_synonym hosts_builder = "hostsSource list \<Rightarrow> string + (hosts_table \<times> string list \<times> string option)"

record HostsConfig =
  hc_Enabled :: bool
  hc_UseSystemHost :: bool
  hc_CustomFiles :: "string list"
  hc_TTL :: u32

record HostsResolver =
  hr_enabled :: bool
  hr_ttl :: u32
  hr_sources :: "hostsSource list"
  hr_loadedFiles :: "string list"
  hr_kernel :: "hosts_table option"

definition DefaultHostsTTL :: u32 where "DefaultHostsTTL = 60"

definition hostsConfigSources :: "string \<Rightarrow> HostsConfig \<Rightarrow> hostsSource list" where
  "hostsConfigSources systemPath cfg =
     (if \<not> hc_Enabled cfg then []
      else (if hc_UseSystemHost cfg then [SourceFile systemPath] else []) @ map SourceFile (hc_CustomFiles cfg))"

definition NewHostsResolver :: "hosts_builder \<Rightarrow> string \<Rightarrow> HostsConfig \<Rightarrow> string + HostsResolver" where
  "NewHostsResolver build systemPath cfg =
     (let r = \<lparr>hr_enabled = hc_Enabled cfg, hr_ttl = (if hc_TTL cfg = 0 then DefaultHostsTTL else hc_TTL cfg),
               hr_sources = [], hr_loadedFiles = [], hr_kernel = None\<rparr>
      in if \<not> hc_Enabled cfg then Inr r
         else (let ss = hostsConfigSources systemPath cfg in
           case build ss of Inl e \<Rightarrow> Inl e
           | Inr (t, loaded, _) \<Rightarrow> Inr (r\<lparr>hr_sources := ss, hr_loadedFiles := loaded, hr_kernel := Some t\<rparr>)))"

text \<open>Every other load: a new table replaces the old one, or the resolver stays as it was.\<close>

definition install_table :: "hosts_builder \<Rightarrow> hostsSource list \<Rightarrow> HostsResolver \<Rightarrow> string option \<times> HostsResolver" where
  "install_table build ss r =
     (case build ss of Inl e \<Rightarrow> (Some e, r)
      | Inr (t, loaded, readErr) \<Rightarrow> (readErr, r\<lparr>hr_kernel := Some t, hr_sources := ss, hr_loadedFiles := loaded\<rparr>))"

definition hosts_UpdateConfig :: "hosts_builder \<Rightarrow> string \<Rightarrow> HostsConfig \<Rightarrow> HostsResolver \<Rightarrow> string option \<times> HostsResolver" where
  "hosts_UpdateConfig build systemPath cfg r =
     (case build (hostsConfigSources systemPath cfg) of Inl e \<Rightarrow> (Some e, r)
      | Inr _ \<Rightarrow> install_table build (hostsConfigSources systemPath cfg)
                   (r\<lparr>hr_enabled := hc_Enabled cfg, hr_ttl := (if hc_TTL cfg > 0 then hc_TTL cfg else hr_ttl r)\<rparr>))"

fun is_text :: "hostsSource \<Rightarrow> bool" where "is_text (SourceText _) = True" | "is_text (SourceFile _) = False"

definition reloadHostsSources :: "string list \<Rightarrow> hostsSource list \<Rightarrow> hostsSource list" where
  "reloadHostsSources loaded previous = map SourceFile loaded @ filter is_text previous"

definition hosts_Reload :: "hosts_builder \<Rightarrow> HostsResolver \<Rightarrow> string option \<times> HostsResolver" where
  "hosts_Reload build r = install_table build (reloadHostsSources (hr_loadedFiles r) (hr_sources r)) r"

definition LoadFile :: "hosts_builder \<Rightarrow> string \<Rightarrow> HostsResolver \<Rightarrow> string option \<times> HostsResolver" where
  "LoadFile build path r = install_table build (hr_sources r @ [SourceFile path]) r"

definition loadText :: "hosts_builder \<Rightarrow> string \<Rightarrow> HostsResolver \<Rightarrow> HostsResolver" where
  "loadText build text r = snd (install_table build (hr_sources r @ [SourceText text]) r)"

definition HasDomain :: "HostsResolver \<Rightarrow> string \<Rightarrow> bool" where
  "HasDomain r domain = (case hr_kernel r of None \<Rightarrow> False | Some t \<Rightarrow> ht_contains t domain)"

definition address_rr :: "string \<Rightarrow> u16 \<Rightarrow> u32 \<Rightarrow> ip \<Rightarrow> rr list" where
  "address_rr fqdn qtype ttl a =
     (if qtype = TypeA \<and> length a = 4 then [mk_rr fqdn qtype ttl (RD_A a)]
      else if qtype = TypeAAAA \<and> length a = 16 then [mk_rr fqdn qtype ttl (RD_AAAA a)] else [])"

definition hosts_Lookup :: "dns_lib \<Rightarrow> HostsResolver \<Rightarrow> string \<Rightarrow> u16 \<Rightarrow> rr list" where
  "hosts_Lookup L r domain qtype =
     (case hr_kernel r of None \<Rightarrow> []
      | Some t \<Rightarrow> concat (map (address_rr (Fqdn L domain) qtype (hr_ttl r)) (ht_lookup t domain qtype)))"

definition hosts_LookupPTR :: "dns_lib \<Rightarrow> HostsResolver \<Rightarrow> string \<Rightarrow> rr list" where
  "hosts_LookupPTR L r arpa =
     (case hr_kernel r of None \<Rightarrow> []
      | Some t \<Rightarrow> map (\<lambda>h. mk_rr (Fqdn L arpa) TypePTR (hr_ttl r) (RD_PTR (Fqdn L h))) (ht_ptr t arpa))"

definition hosts_LookupReverse :: "HostsResolver \<Rightarrow> ip \<Rightarrow> string" where
  "hosts_LookupReverse r a =
     (if a = [] then [] else case hr_kernel r of None \<Rightarrow> [] | Some t \<Rightarrow> ht_reverse t (norm_ip a))"

section \<open>Rewrites\<close>

record RewriteRule =
  rr_Domain :: string
  rr_IPs :: "string list"
  rr_CNAME :: string
  rr_TXT :: "string list"
  rr_TTL :: u32
  rr_Records :: "(string \<times> string) list"
  rr_RCode :: string

record RewriteConfig =
  rwc_Enabled :: bool
  rwc_TTL :: u32
  rwc_Rules :: "RewriteRule list"

record rewrite_table =
  rt_lookup :: "string \<Rightarrow> u16 \<Rightarrow> (rr list \<times> nat \<times> bool) option"
  rt_ptr :: "ip \<Rightarrow> string list option"
  rt_reverse :: "ip \<Rightarrow> string option"

type_synonym rewrite_builder = "RewriteConfig \<Rightarrow> string + rewrite_table"

record RewriteEngine =
  rwe_enabled :: bool
  rwe_defaultTTL :: u32
  rwe_rules :: "RewriteRule list"
  rwe_native :: "rewrite_table option"


definition normalizeRewriteDomain :: "string \<Rightarrow> string" where
  "normalizeRewriteDomain domain = trim_dots (trim_space (to_lower domain))"

definition NormalizeRewriteConfig :: "RewriteConfig \<Rightarrow> RewriteConfig" where
  "NormalizeRewriteConfig cfg = (if rwc_TTL cfg = 0 then cfg\<lparr>rwc_TTL := DefaultRewriteTTL\<rparr> else cfg)"

definition retainRewriteRules :: "RewriteRule list \<Rightarrow> RewriteRule list" where
  "retainRewriteRules rules = filter (\<lambda>r. normalizeRewriteDomain (rr_Domain r) \<noteq> []) rules"

definition rewrite_swap :: "rewrite_builder \<Rightarrow> RewriteRule list \<Rightarrow> bool \<Rightarrow> u32 \<Rightarrow> RewriteEngine \<Rightarrow> string option \<times> RewriteEngine" where
  "rewrite_swap build rules enabled ttl e =
     (case build \<lparr>rwc_Enabled = enabled, rwc_TTL = ttl, rwc_Rules = rules\<rparr> of Inl err \<Rightarrow> (Some err, e)
      | Inr t \<Rightarrow> (None, e\<lparr>rwe_native := Some t, rwe_rules := rules, rwe_enabled := enabled, rwe_defaultTTL := ttl\<rparr>))"

definition NewRewriteEngine :: "rewrite_builder \<Rightarrow> RewriteConfig \<Rightarrow> string + RewriteEngine" where
  "NewRewriteEngine build cfg =
     (let ttl = (if rwc_TTL cfg = 0 then DefaultRewriteTTL else rwc_TTL cfg) in
      case rewrite_swap build (retainRewriteRules (rwc_Rules cfg)) (rwc_Enabled cfg) ttl
             \<lparr>rwe_enabled = rwc_Enabled cfg, rwe_defaultTTL = ttl, rwe_rules = [], rwe_native = None\<rparr> of
        (Some err, _) \<Rightarrow> Inl err | (None, e) \<Rightarrow> Inr e)"

definition rewrite_rebuild :: "rewrite_builder \<Rightarrow> RewriteRule list \<Rightarrow> RewriteEngine \<Rightarrow> string option \<times> RewriteEngine" where
  "rewrite_rebuild build rules e = rewrite_swap build rules (rwe_enabled e) (rwe_defaultTTL e) e"

definition AddRule :: "rewrite_builder \<Rightarrow> RewriteRule \<Rightarrow> RewriteEngine \<Rightarrow> string option \<times> RewriteEngine" where
  "AddRule build rule e =
     (let norm = normalizeRewriteDomain (rr_Domain rule) in
      if norm = [] then (Some ''invalid domain'', e)
      else rewrite_rebuild build (filter (\<lambda>r. normalizeRewriteDomain (rr_Domain r) \<noteq> norm) (rwe_rules e) @ [rule]) e)"

definition DeleteRule :: "rewrite_builder \<Rightarrow> string \<Rightarrow> RewriteEngine \<Rightarrow> (bool \<times> string option) \<times> RewriteEngine" where
  "DeleteRule build domain e =
     (let norm = normalizeRewriteDomain domain in
      if norm = [] then ((False, None), e)
      else if \<not> list_ex (\<lambda>r. normalizeRewriteDomain (rr_Domain r) = norm) (rwe_rules e) then ((False, None), e)
      else case rewrite_rebuild build (filter (\<lambda>r. normalizeRewriteDomain (rr_Domain r) \<noteq> norm) (rwe_rules e)) e of
        (Some err, e1) \<Rightarrow> ((False, Some err), e1) | (None, e1) \<Rightarrow> ((True, None), e1))"

definition rewrite_Configure :: "rewrite_builder \<Rightarrow> RewriteConfig \<Rightarrow> RewriteEngine \<Rightarrow> string option \<times> RewriteEngine" where
  "rewrite_Configure build cfg e =
     rewrite_swap build (retainRewriteRules (rwc_Rules cfg)) (rwc_Enabled cfg)
       (if rwc_TTL cfg > 0 then rwc_TTL cfg else rwe_defaultTTL e) e"

definition LookupDetailed :: "RewriteEngine \<Rightarrow> string \<Rightarrow> u16 \<Rightarrow> rr list \<times> nat \<times> bool" where
  "LookupDetailed e domain qtype =
     (case rwe_native e of None \<Rightarrow> ([], RcodeSuccess, False)
      | Some t \<Rightarrow> (case rt_lookup t domain qtype of None \<Rightarrow> ([], RcodeSuccess, False) | Some r \<Rightarrow> r))"

text \<open>\<open>parseArpa\<close> is the parser of the hosts library.\<close>

definition rewrite_LookupPTR :: "dns_lib \<Rightarrow> (string \<Rightarrow> ip) \<Rightarrow> RewriteEngine \<Rightarrow> string \<Rightarrow> rr list \<times> bool" where
  "rewrite_LookupPTR L parseArpa e ptrQuery =
     (case rwe_native e of None \<Rightarrow> ([], False)
      | Some t \<Rightarrow>
         (if parseArpa ptrQuery = [] then ([], False)
          else case rt_ptr t (norm_ip (parseArpa ptrQuery)) of None \<Rightarrow> ([], False)
            | Some ds \<Rightarrow>
               (if ds = [] then ([], False)
                else (map (\<lambda>d. mk_rr (Fqdn L ptrQuery) TypePTR (rwe_defaultTTL e) (RD_PTR d)) ds, True))))"

definition rewrite_LookupReverse :: "RewriteEngine \<Rightarrow> ip \<Rightarrow> string" where
  "rewrite_LookupReverse e a =
     (if a = [] then [] else case rwe_native e of None \<Rightarrow> []
      | Some t \<Rightarrow> (case rt_reverse t (norm_ip a) of None \<Rightarrow> [] | Some d \<Rightarrow> trim_suffix d ''.''))"

section \<open>Safe search\<close>

record SafeSearchConfig =
  ssc_Enabled :: bool
  ssc_Disabled :: "string list"
  ssc_TTL :: u32

record SafeSearchResult =
  ssr_Service :: string
  ssr_CNAME :: string
  ssr_IP :: ip
  ssr_IPType :: u16
  ssr_NODATA :: bool

record ssRule =
  ssl_domain :: string
  ssl_service :: string
  ssl_cname :: string
  ssl_ip :: ip
  ssl_ipType :: u16

record SafeSearchEngine =
  sse_cfg :: SafeSearchConfig
  sse_rules :: "(string \<times> ssRule) list"
  sse_disabled :: "string list"

definition DefaultSafeSearchTTL :: u32 where "DefaultSafeSearchTTL = 300"

definition SafeSearchServices :: "string list" where
  "SafeSearchServices = [''bing'', ''duckduckgo'', ''ecosia'', ''google'', ''pixabay'', ''yandex'', ''youtube'']"

fun keep_valid :: "string list \<Rightarrow> string list \<Rightarrow> string list" where
  "keep_valid [] seen = []"
| "keep_valid (s # rest) seen =
     (if s \<notin> set SafeSearchServices \<or> s \<in> set seen then keep_valid rest seen else s # keep_valid rest (s # seen))"

definition NormalizeSafeSearchConfig :: "SafeSearchConfig \<Rightarrow> SafeSearchConfig" where
  "NormalizeSafeSearchConfig cfg = cfg\<lparr>ssc_TTL := (if ssc_TTL cfg = 0 then DefaultSafeSearchTTL else ssc_TTL cfg),
     ssc_Disabled := keep_valid (ssc_Disabled cfg) []\<rparr>"

definition before_after :: "char \<Rightarrow> string \<Rightarrow> string \<times> string" where
  "before_after c s = (takeWhile (\<lambda>x. x \<noteq> c) s, drop 1 (dropWhile (\<lambda>x. x \<noteq> c) s))"

text \<open>\<open>strings.SplitN(s, ";", 3)\<close> with exactly three parts.\<close>

definition split3 :: "string \<Rightarrow> (string \<times> string \<times> string) option" where
  "split3 s =
     (case split_on (CHR '';'') s of
        a # b # c # rest \<Rightarrow> Some (a, b, snd (before_after (CHR '';'') (snd (before_after (CHR '';'') s))))
      | _ \<Rightarrow> None)"

definition parseSafeSearchRuleLine :: "dns_lib \<Rightarrow> string \<Rightarrow> string \<Rightarrow> ssRule option" where
  "parseSafeSearchRuleLine L line0 service =
     (let line = trim_space line0 in
      if line = [] \<or> has_prefix line ''!'' \<or> has_prefix line ''#'' then None
      else (let (domainPart, modPart) = before_after (CHR ''$'') line;
                domain = normalizeRewriteDomain (trim_suffix (trim_prefix domainPart ''|'') ''^'')
            in if domain = [] \<or> \<not> has_prefix modPart ''dnsrewrite='' then None
               else case split3 (trim_prefix modPart ''dnsrewrite='') of None \<Rightarrow> None
                 | Some (_, t0, v0) \<Rightarrow>
                    (let typ = to_upper (trim_space t0); val = trim_space v0;
                         r = \<lparr>ssl_domain = domain, ssl_service = service, ssl_cname = [], ssl_ip = [], ssl_ipType = 0\<rparr>
                     in if typ = ''CNAME''
                        then (if val = [] then None else Some (r\<lparr>ssl_cname := Fqdn L (normalizeRewriteDomain val)\<rparr>))
                        else if typ = ''A''
                        then (if ParseIP val = [] \<or> To4 (ParseIP val) = [] then None
                              else Some (r\<lparr>ssl_ip := To4 (ParseIP val), ssl_ipType := TypeA\<rparr>))
                        else if typ = ''AAAA''
                        then (if ParseIP val = [] then None else Some (r\<lparr>ssl_ip := ParseIP val, ssl_ipType := TypeAAAA\<rparr>))
                        else None)))"

text \<open>The texts per service, in the order the map is visited; a later rule of a domain wins.\<close>

definition safe_Configure :: "dns_lib \<Rightarrow> (string \<times> string list) list \<Rightarrow> SafeSearchConfig \<Rightarrow> SafeSearchEngine" where
  "safe_Configure L texts cfg =
     \<lparr>sse_cfg = (if ssc_TTL cfg = 0 then cfg\<lparr>ssc_TTL := DefaultSafeSearchTTL\<rparr> else cfg),
      sse_rules = fold (\<lambda>r m. AList.update (ssl_domain r) r m)
        (concat (map (\<lambda>(service, lines). List.map_filter (\<lambda>l. parseSafeSearchRuleLine L l service) lines) texts)) [],
      sse_disabled = ssc_Disabled cfg\<rparr>"

definition safe_Lookup :: "SafeSearchEngine \<Rightarrow> string \<Rightarrow> u16 \<Rightarrow> SafeSearchResult option" where
  "safe_Lookup e domain qtype =
     (if qtype \<notin> {TypeA, TypeAAAA, TypeHTTPS} then None
      else (let norm = normalizeRewriteDomain domain in
        if norm = [] \<or> \<not> ssc_Enabled (sse_cfg e) then None
        else case map_of (sse_rules e) norm of None \<Rightarrow> None
          | Some rule \<Rightarrow>
             (if ssl_service rule \<in> set (sse_disabled e) then None
              else (let res = \<lparr>ssr_Service = ssl_service rule, ssr_CNAME = [], ssr_IP = [], ssr_IPType = 0, ssr_NODATA = False\<rparr> in
                Some (if ssl_cname rule \<noteq> [] then res\<lparr>ssr_CNAME := ssl_cname rule\<rparr>
                      else if ssl_ip rule \<noteq> [] \<and> ssl_ipType rule = qtype then res\<lparr>ssr_IP := ssl_ip rule, ssr_IPType := ssl_ipType rule\<rparr>
                      else res\<lparr>ssr_NODATA := True\<rparr>)))))"

section \<open>Facts\<close>

text \<open>
  A rewrite rule is replaced as a whole or not at all: when the table cannot be built the engine
  is unchanged, and otherwise the rules are those of the other domains with the new one behind them.
\<close>

theorem AddRule_atomic:
  assumes "normalizeRewriteDomain (rr_Domain rule) = d" "d \<noteq> []" "AddRule build rule e = (r, e')"
  shows "(r \<noteq> None \<longrightarrow> e' = e) \<and>
    (r = None \<longrightarrow> rwe_rules e' = filter (\<lambda>x. normalizeRewriteDomain (rr_Domain x) \<noteq> d) (rwe_rules e) @ [rule] \<and>
       rwe_enabled e' = rwe_enabled e \<and> rwe_defaultTTL e' = rwe_defaultTTL e \<and>
       Inr (the (rwe_native e')) = build \<lparr>rwc_Enabled = rwe_enabled e, rwc_TTL = rwe_defaultTTL e, rwc_Rules = rwe_rules e'\<rparr>)"
  using assms by (auto simp: AddRule_def rewrite_rebuild_def rewrite_swap_def Let_def split: sum.splits)

text \<open>
  A file that could not be read at one reload is not among the sources any more: the next reload
  does not try it again.
\<close>

theorem reload_forgets_failed:
  assumes "hosts_Reload build r = (res, r')" "build (reloadHostsSources (hr_loadedFiles r) (hr_sources r)) = Inr (t, loaded, res)"
    and "f \<notin> set loaded"
  shows "SourceFile f \<notin> set (reloadHostsSources (hr_loadedFiles r') (hr_sources r'))"
  using assms by (auto simp: hosts_Reload_def install_table_def reloadHostsSources_def)

definition sample_table :: hosts_table where
  "sample_table = \<lparr>ht_lookup = (\<lambda>d t. []), ht_contains = (\<lambda>d. False), ht_ptr = (\<lambda>a. []), ht_reverse = (\<lambda>a. [])\<rparr>"

definition sample_hosts :: HostsResolver where
  "sample_hosts = \<lparr>hr_enabled = True, hr_ttl = 60, hr_sources = [SourceFile ''/etc/hosts'', SourceFile ''/mnt/lan''],
     hr_loadedFiles = [''/etc/hosts'', ''/mnt/lan''], hr_kernel = None\<rparr>"

theorem reload_forgets_failed_witness:
  "SourceFile ''/mnt/lan'' \<notin> set (reloadHostsSources [''/etc/hosts''] [SourceFile ''/etc/hosts'', SourceFile ''/mnt/lan''])"
proof -
  let ?build = "\<lambda>ss. Inr (sample_table, [''/etc/hosts''], Some ''unreadable'')"
  let ?r = "sample_hosts\<lparr>hr_kernel := Some sample_table, hr_loadedFiles := [''/etc/hosts'']\<rparr>"
  have "hosts_Reload ?build sample_hosts = (Some ''unreadable'', ?r)"
    by (simp add: hosts_Reload_def install_table_def sample_hosts_def reloadHostsSources_def)
  from reload_forgets_failed [OF this refl, of "''/mnt/lan''"] show ?thesis by (simp add: sample_hosts_def)
qed

end
