(* ===== verification/Ddr.thy ===== *)
theory Ddr
  imports Edns Real_Ip
begin

text \<open>
  Discovery of designated resolvers (\<open>dns/ddr.go\<close>, \<open>BuildDDRAnswer\<close> of
  \<open>dns/ddr_middleware.go\<close>) and the DoH request path (\<open>dns/server_doh.go\<close>). Paths are
  valid UTF-8 texts; \<open>setEdns0\<close> is \<open>Msg.SetEdns0\<close> with the size and DO bit of an OPT
  record.
\<close>

section \<open>The request path\<close>

definition trim_right :: "char \<Rightarrow> string \<Rightarrow> string" where
  "trim_right c s = rev (dropWhile (\<lambda>x. x = c) (rev s))"

text \<open>\<open>path.Clean\<close> of a rooted path.\<close>

fun clean_segments :: "string list \<Rightarrow> string list \<Rightarrow> string list" where
  "clean_segments [] out = rev out"
| "clean_segments (seg # rest) out =
     (if seg = [] \<or> seg = ''.'' then clean_segments rest out
      else if seg = ''..'' then clean_segments rest (tl out)
      else clean_segments rest (seg # out))"

definition join_segments :: "string list \<Rightarrow> string" where
  "join_segments segs = concat (map (\<lambda>s. CHR ''/'' # s) segs)"

definition path_Clean :: "string \<Rightarrow> string" where
  "path_Clean p = (let r = join_segments (clean_segments (split_on (CHR ''/'') p) []) in if r = [] then ''/'' else r)"

text \<open>The text from the first brace on, without the braced part.\<close>

function stripDoHTemplate :: "string \<Rightarrow> string" where
  "stripDoHTemplate p =
     (if CHR ''{'' \<notin> set p then p
      else (let pre = takeWhile (\<lambda>c. c \<noteq> CHR ''{'') p; post = dropWhile (\<lambda>c. c \<noteq> CHR ''{'') p in
        if CHR ''}'' \<notin> set post then pre
        else stripDoHTemplate (pre @ tl (dropWhile (\<lambda>c. c \<noteq> CHR ''}'') post))))"
  by pat_completeness auto
termination
proof (relation "measure length")
  fix p pre post :: string
  assume a: "\<not> CHR ''{'' \<notin> set p" "pre = takeWhile (\<lambda>c. c \<noteq> CHR ''{'') p" "post = dropWhile (\<lambda>c. c \<noteq> CHR ''{'') p"
    "\<not> CHR ''}'' \<notin> set post"
  have "dropWhile (\<lambda>c. c \<noteq> CHR ''}'') post \<noteq> []" using a(4) by (auto simp: dropWhile_eq_Nil_conv)
  then have "length (tl (dropWhile (\<lambda>c. c \<noteq> CHR ''}'') post)) < length post"
    using length_dropWhile_le [of "\<lambda>c. c \<noteq> CHR ''}''" post] by (cases "dropWhile (\<lambda>c. c \<noteq> CHR ''}'') post") auto
  moreover have "length p = length pre + length post" using a by (metis length_append takeWhile_dropWhile_id)
  ultimately show "(pre @ tl (dropWhile (\<lambda>c. c \<noteq> CHR ''}'') post), p) \<in> measure length" by simp
qed simp

declare stripDoHTemplate.simps [simp del]

definition bad_path_char :: "char \<Rightarrow> bool" where
  "bad_path_char c = (c = CHR ''{'' \<or> c = CHR ''}'' \<or> (of_char c :: nat) < 0x20 \<or> (of_char c :: nat) = 0x7f)"

definition sanitizeDoHPathSegment :: "string \<Rightarrow> string" where
  "sanitizeDoHPathSegment p = map (\<lambda>c. if bad_path_char c then CHR ''-'' else c) p"

definition default_doh_path :: string where "default_doh_path = ''/dns-query''"

definition normalizeDoHPath :: "string \<Rightarrow> string" where
  "normalizeDoHPath path =
     (let p0 = trim_space path in
      if p0 = [] \<or> p0 = ''/'' then default_doh_path
      else (let p1 = (if has_prefix p0 ''/'' then p0 else CHR ''/'' # p0); p2 = trim_right (CHR ''/'') p1 in
        if p2 = [] then default_doh_path
        else (let p4 = path_Clean (stripDoHTemplate p2) in
          if p4 = ''/'' \<or> p4 = ''.'' then default_doh_path
          else (let p5 = sanitizeDoHPathSegment p4 in if p5 = [] \<or> p5 = ''/'' then default_doh_path else p5))))"

section \<open>The answer\<close>

record DDRAnswer =
  da_ServerName :: string
  da_DoTEnabled :: bool
  da_DoHEnabled :: bool
  da_DoQEnabled :: bool
  da_DoTPort :: int
  da_DoHPort :: int
  da_DoQPort :: int
  da_DoHPath :: string
  da_CertHasIPs :: bool

record EncryptedServerConfig =
  ec_DoTEnabled :: bool
  ec_DoHEnabled :: bool
  ec_DoQEnabled :: bool
  ec_ListenAddress :: string
  ec_DoTPort :: int
  ec_DoHPort :: int
  ec_DoQPort :: int
  ec_DoHPath :: string
  ec_ServerName :: string
  ec_TLSConfig :: bool                    \<comment> \<open>whether a certificate is loaded\<close>
  ec_TrustedProxy :: "TrustedProxy option"
  ec_ReadTimeout :: duration
  ec_IdleTimeout :: duration

definition ddr_IsEmpty :: "DDRAnswer \<Rightarrow> bool" where
  "ddr_IsEmpty a = (\<not> da_DoTEnabled a \<and> \<not> da_DoHEnabled a \<and> \<not> da_DoQEnabled a)"

definition ddrQueryName :: string where "ddrQueryName = ''_dns.resolver.arpa.''"

definition clampPort :: "int \<Rightarrow> u16" where
  "clampPort port = (if port \<le> 0 \<or> port > 65535 then 0 else of_int port)"

definition ddrDoHPathTemplate :: "string \<Rightarrow> string" where
  "ddrDoHPathTemplate path = (let p = normalizeDoHPath path in if str_contains p ''{?dns}'' then p else p @ ''{?dns}'')"

definition buildDDRRecord :: "string \<Rightarrow> svcb_kv list \<Rightarrow> rr" where
  "buildDDRRecord target values = mk_rr ddrQueryName TypeSVCB 600 (RD_SVCB 1 target values)"

definition ddr_records :: "string \<Rightarrow> DDRAnswer \<Rightarrow> rr list" where
  "ddr_records target a =
     (if da_DoHEnabled a then [buildDDRRecord target [SVCBAlpn [''h2''], SVCBPort (clampPort (da_DoHPort a)), SVCBDoHPath (ddrDoHPathTemplate (da_DoHPath a))]] else []) @
     (if da_DoTEnabled a \<and> da_CertHasIPs a then [buildDDRRecord target [SVCBAlpn [''dot''], SVCBPort (clampPort (da_DoTPort a))]] else []) @
     (if da_DoQEnabled a then [buildDDRRecord target [SVCBAlpn [''doq''], SVCBPort (clampPort (da_DoQPort a))]] else [])"

definition BuildDDRResponse :: "dns_lib \<Rightarrow> (rr \<Rightarrow> msg \<Rightarrow> msg) \<Rightarrow> msg \<Rightarrow> DDRAnswer \<Rightarrow> msg option" where
  "BuildDDRResponse L setEdns0 req a =
     (case m_Question req of [] \<Rightarrow> None
      | q # _ \<Rightarrow>
         (let r0 = (SetReply L req)\<lparr>m_Authoritative := True, m_RecursionAvailable := True\<rparr>;
              r1 = (case IsEdns0 req of None \<Rightarrow> r0 | Some opt \<Rightarrow> setEdns0 opt r0);
              target = Fqdn L (trim_space (da_ServerName a))
          in if \<not> equal_fold (q_Name q) ddrQueryName \<or> q_Qtype q \<noteq> TypeSVCB \<or> ddr_IsEmpty a \<or> target = ''.'' then Some r1
             else Some (r1\<lparr>m_Answer := m_Answer r1 @ ddr_records target a\<rparr>)))"

definition ddrCertHasIPs :: "string list \<Rightarrow> bool" where
  "ddrCertHasIPs ips = list_ex (\<lambda>s. ParseIP (trim_space s) \<noteq> []) ips"

definition empty_ddr :: DDRAnswer where
  "empty_ddr = \<lparr>da_ServerName = [], da_DoTEnabled = False, da_DoHEnabled = False, da_DoQEnabled = False,
     da_DoTPort = 0, da_DoHPort = 0, da_DoQPort = 0, da_DoHPath = [], da_CertHasIPs = False\<rparr>"

definition BuildDDRAnswer :: "EncryptedServerConfig option \<Rightarrow> string \<Rightarrow> string \<Rightarrow> string \<Rightarrow> string list \<Rightarrow> DDRAnswer" where
  "BuildDDRAnswer ocfg dotListen dohListen doqListen certIPs =
     (case ocfg of None \<Rightarrow> empty_ddr
      | Some cfg \<Rightarrow>
         (let dot = (trim_space dotListen \<noteq> [] \<and> ec_DoTEnabled cfg); doh = (trim_space dohListen \<noteq> [] \<and> ec_DoHEnabled cfg);
              doq = (trim_space doqListen \<noteq> [] \<and> ec_DoQEnabled cfg)
          in \<lparr>da_ServerName = ec_ServerName cfg, da_DoTEnabled = dot, da_DoHEnabled = doh, da_DoQEnabled = doq,
              da_DoTPort = (if dot then ec_DoTPort cfg else 0), da_DoHPort = (if doh then ec_DoHPort cfg else 0),
              da_DoQPort = (if doq then ec_DoQPort cfg else 0), da_DoHPath = (if doh then ec_DoHPath cfg else []),
              da_CertHasIPs = ddrCertHasIPs certIPs\<rparr>))"

section \<open>Facts\<close>

definition segment_ok :: "string \<Rightarrow> bool" where
  "segment_ok s \<longleftrightarrow> s \<noteq> [] \<and> CHR ''/'' \<notin> set s \<and> s \<noteq> ''.'' \<and> s \<noteq> ''..''"

lemma split_on_no: "p \<in> set (split_on d s) \<Longrightarrow> d \<notin> set p"
  by (induction s arbitrary: p) (auto split: list.splits if_splits)

lemma clean_segments_ok:
  "list_all segment_ok out \<Longrightarrow> (\<And>s. s \<in> set segs \<Longrightarrow> CHR ''/'' \<notin> set s) \<Longrightarrow> list_all segment_ok (clean_segments segs out)"
proof (induction segs out rule: clean_segments.induct)
  case (2 seg rest out)
  have t: "list_all segment_ok (tl out)" using 2(4) by (cases out) auto
  have "segment_ok seg" if "seg \<noteq> []" "seg \<noteq> ''.''" "seg \<noteq> ''..''" using that 2(5) [of seg] by (simp add: segment_ok_def)
  with 2 t show ?case by simp
qed simp

text \<open>
  A path a route may have: segments that are not empty and have no slash, no braces and no control
  characters; at least one segment.
\<close>

definition route_path :: "string \<Rightarrow> bool" where
  "route_path p \<longleftrightarrow> (\<exists>segs. segs \<noteq> [] \<and> p = join_segments segs \<and>
     (\<forall>s\<in>set segs. s \<noteq> [] \<and> CHR ''/'' \<notin> set s \<and> (\<forall>c\<in>set s. \<not> bad_path_char c)))"

lemma slash_not_bad: "\<not> bad_path_char (CHR ''/'')" "\<not> bad_path_char (CHR ''-'')"
  by (simp_all add: bad_path_char_def)

lemma sanitize_join:
  "sanitizeDoHPathSegment (join_segments segs) = join_segments (map sanitizeDoHPathSegment segs)"
  by (induction segs) (simp_all add: sanitizeDoHPathSegment_def join_segments_def slash_not_bad)

lemma sanitize_Nil [simp]: "sanitizeDoHPathSegment s = [] \<longleftrightarrow> s = []"
  by (simp add: sanitizeDoHPathSegment_def)

lemma sanitize_chars: "c \<in> set (sanitizeDoHPathSegment s) \<Longrightarrow> \<not> bad_path_char c \<and> (c = CHR ''/'' \<longrightarrow> CHR ''/'' \<in> set s)"
proof -
  assume "c \<in> set (sanitizeDoHPathSegment s)"
  then obtain d where d: "d \<in> set s" "c = (if bad_path_char d then CHR ''-'' else d)"
    unfolding sanitizeDoHPathSegment_def set_map by (rule imageE) blast
  then show ?thesis by (cases "bad_path_char d") (auto simp: slash_not_bad)
qed

lemma default_route: "route_path default_doh_path"
  unfolding route_path_def
  by (rule exI [of _ "[''dns-query'']"]) (simp add: join_segments_def default_doh_path_def bad_path_char_def)

text \<open>
  Whatever path is configured, the path the DoH routes are registered under is a plain literal
  path: it starts with a slash, has no empty segment and no trailing slash, and contains neither
  braces nor control characters, so registering it cannot be refused as a pattern.
\<close>

theorem doh_path_safe: "route_path (normalizeDoHPath path)"
proof -
  have main: "route_path (sanitizeDoHPathSegment (path_Clean p))" if "path_Clean p \<noteq> ''/''" for p
  proof -
    define segs where "segs = clean_segments (split_on (CHR ''/'') p) []"
    have c: "path_Clean p = join_segments segs" "segs \<noteq> []"
      using that by (auto simp: path_Clean_def segs_def Let_def join_segments_def split: if_splits)
    have "list_all segment_ok segs" unfolding segs_def by (rule clean_segments_ok) (auto dest: split_on_no)
    then have "\<forall>s\<in>set segs. s \<noteq> [] \<and> CHR ''/'' \<notin> set s" by (simp add: list_all_iff segment_ok_def)
    then have "\<forall>s\<in>set (map sanitizeDoHPathSegment segs). s \<noteq> [] \<and> CHR ''/'' \<notin> set s \<and> (\<forall>c\<in>set s. \<not> bad_path_char c)"
    proof (intro ballI conjI)
      fix s assume "s \<in> set (map sanitizeDoHPathSegment segs)"
      then obtain t where t: "t \<in> set segs" "s = sanitizeDoHPathSegment t" by auto
      with \<open>\<forall>s\<in>set segs. s \<noteq> [] \<and> CHR ''/'' \<notin> set s\<close> show "s \<noteq> []" "CHR ''/'' \<notin> set s"
        using sanitize_chars [of _ t] by auto
      show "\<not> bad_path_char c" if "c \<in> set s" for c using that t(2) sanitize_chars by blast
    qed
    then show ?thesis unfolding route_path_def c(1) sanitize_join using c(2) by blast
  qed
  have step: "route_path (if a then default_doh_path else b)" if "\<not> a \<Longrightarrow> route_path b" for a b
    using that default_route by simp
  show ?thesis unfolding normalizeDoHPath_def Let_def
    by (rule step, rule step, rule step, rule step) (rule main, blast)
qed

text \<open>
  Discovery advertises exactly the encrypted listeners that are both configured and bound, in
  the order DoH, DoT, DoQ, each under its own port; DoT only when the certificate names an address,
  and nothing without a server name or for any other question.
\<close>

theorem ddr_advertises_listeners:
  assumes "m_Question req = q # qs" "equal_fold (q_Name q) ddrQueryName" "q_Qtype q = TypeSVCB" "IsEdns0 req = None"
    and "dns_lib_ok L" "trim_space (ec_ServerName cfg) \<notin> {[], ''.''}"
  shows "BuildDDRResponse L setEdns0 req (BuildDDRAnswer (Some cfg) dot doh doq ips) =
    Some ((SetReply L req)\<lparr>m_Authoritative := True, m_RecursionAvailable := True,
      m_Answer := map (buildDDRRecord (Fqdn L (trim_space (ec_ServerName cfg))))
       ((if ec_DoHEnabled cfg \<and> trim_space doh \<noteq> [] then [[SVCBAlpn [''h2''], SVCBPort (clampPort (ec_DoHPort cfg)), SVCBDoHPath (ddrDoHPathTemplate (ec_DoHPath cfg))]] else []) @
        (if ec_DoTEnabled cfg \<and> trim_space dot \<noteq> [] \<and> ddrCertHasIPs ips then [[SVCBAlpn [''dot''], SVCBPort (clampPort (ec_DoTPort cfg))]] else []) @
        (if ec_DoQEnabled cfg \<and> trim_space doq \<noteq> [] then [[SVCBAlpn [''doq''], SVCBPort (clampPort (ec_DoQPort cfg))]] else []))\<rparr>)"
proof -
  define t where "t = Fqdn L (trim_space (ec_ServerName cfg))"
  have "t \<noteq> ''.''" using assms(6) dns_lib_okD(9) [OF assms(5), of "trim_space (ec_ServerName cfg)"]
    by (auto simp: t_def split: if_splits)
  then show ?thesis
    using assms(1-4) dns_lib_okD(5) [OF assms(5)]
    by (auto simp: BuildDDRResponse_def BuildDDRAnswer_def Let_def ddr_IsEmpty_def ddr_records_def t_def [symmetric])
qed

end
