(* ===== verification/Middleware_Local.thy ===== *)
theory Middleware_Local
  imports Pipeline Zone Local_Sources Ddr
begin

text \<open>
  The middlewares in front of the filter, which answer a query on the spot or pass it on:
  client identification, access control, rate limiting, designated resolver discovery (with
  \<open>dns/ddr.go\<close>), special-use names, local zones, hosts files, rewrites, safe search, IPv6
  suppression, private reverse zones, single-label names and ANY queries. Each definition takes what
  the Go constructor is given; a callback that reads a setting is its value.
\<close>

section \<open>Replies\<close>

definition local_reply :: "dns_lib \<Rightarrow> msg \<Rightarrow> nat \<Rightarrow> msg" where
  "local_reply L req rcode = (SetReply L req)\<lparr>m_Authoritative := True, m_RecursionAvailable := True, m_Rcode := rcode\<rparr>"

definition refused_reply :: "dns_lib \<Rightarrow> msg \<Rightarrow> msg" where
  "refused_reply L req = (SetRcode L req RcodeRefused)\<lparr>m_RecursionAvailable := True\<rparr>"

definition has_question :: "qstate \<Rightarrow> bool" where
  "has_question s = (case dx_Req s of None \<Rightarrow> False | Some req \<Rightarrow> m_Question req \<noteq> [])"

definition the_req :: "qstate \<Rightarrow> msg" where "the_req s = the (dx_Req s)"
definition the_q :: "qstate \<Rightarrow> question" where "the_q s = hd (m_Question (the_req s))"

definition set_all :: "(string \<times> attr) list \<Rightarrow> qstate \<Rightarrow> qstate" where
  "set_all kvs s = fold (\<lambda>(k, v). ctx_Set k v) kvs s"

definition respond :: "msg \<Rightarrow> (string \<times> attr) list \<Rightarrow> qstate \<Rightarrow> qstate" where
  "respond resp kvs s = set_all kvs (s\<lparr>dx_Resp := Some resp\<rparr>)"

section \<open>Client identification\<close>

definition identify :: "(string list \<Rightarrow> string list) \<Rightarrow> (ip \<Rightarrow> string) list \<Rightarrow> qstate \<Rightarrow> qstate" where
  "identify visit lookupers s =
     (case w_clients s of None \<Rightarrow> s
      | Some r \<Rightarrow>
         (if dx_ClientIP s = [] then s
          else (let (name, r') = IdentifyClient visit lookupers (dx_ClientIP s) (w_now s) r;
                    s1 = s\<lparr>w_clients := Some r', dx_ClientName := name\<rparr>
                in if name \<noteq> [] then ctx_Set ''client_name'' (AStr name) s1 else s1)))"

text \<open>\<open>groups\<close> is the group resolver at the time of the query (\<open>None\<close> is nil).\<close>

definition client_marks ::
  "(string list \<Rightarrow> string list) \<Rightarrow> (ip \<Rightarrow> string) list \<Rightarrow> groupEntry list option \<Rightarrow> qstate \<Rightarrow> qstate" where
  "client_marks visit lookupers groups s0 =
     (let s = identify visit lookupers s0;
          s1 = (if dx_ClientID s \<noteq> [] then ctx_Set ''client_name'' (AStr (dx_ClientID s)) (s\<lparr>dx_ClientName := dx_ClientID s\<rparr>) else s)
      in if groups \<noteq> None \<and> dx_ClientIP s1 \<noteq> []
         then ctx_Set attrClientGroup (AStr (group_Resolve groups (dx_ClientIP s1))) s1 else s1)"

definition NewClientMiddlewareWithGroups ::
  "(string list \<Rightarrow> string list) \<Rightarrow> (ip \<Rightarrow> string) list \<Rightarrow> groupEntry list option \<Rightarrow> middleware" where
  "NewClientMiddlewareWithGroups visit lookupers groups next s = next (client_marks visit lookupers groups s)"

section \<open>Access control and rate limiting\<close>

definition net_String :: "ip_net \<Rightarrow> string" where
  "net_String n = (case network_number_and_mask n of None \<Rightarrow> ''<nil>''
     | Some (a, m) \<Rightarrow> ip_String a @ ''/'' @ itoa (mask_Size m))"

text \<open>The texts are those of the sources, in UTF-8.\<close>

fun reason_text :: "access_reason \<Rightarrow> string" where
  "reason_text NoReason = []"
| "reason_text (BlockedIP a) = [CHR 0xE5, CHR 0xAE, CHR 0xA2, CHR 0xE6, CHR 0x88, CHR 0xB7, CHR 0xE7, CHR 0xAB, CHR 0xAF] @ '' IP '' @ a @ '' '' @ [CHR 0xE5, CHR 0xA4, CHR 0x84, CHR 0xE4, CHR 0xBA, CHR 0x8E, CHR 0xE9, CHR 0xBB, CHR 0x91, CHR 0xE5, CHR 0x90, CHR 0x8D, CHR 0xE5, CHR 0x8D, CHR 0x95, CHR 0xE9, CHR 0x98, CHR 0xBB, CHR 0xE6, CHR 0x96, CHR 0xAD, CHR 0xE5, CHR 0x88, CHR 0x97, CHR 0xE8, CHR 0xA1, CHR 0xA8, CHR 0xE4, CHR 0xB8, CHR 0xAD]"
| "reason_text (BlockedNet a n) = [CHR 0xE5, CHR 0xAE, CHR 0xA2, CHR 0xE6, CHR 0x88, CHR 0xB7, CHR 0xE7, CHR 0xAB, CHR 0xAF] @ '' IP '' @ a @ '' '' @ [CHR 0xE5, CHR 0xA4, CHR 0x84, CHR 0xE4, CHR 0xBA, CHR 0x8E, CHR 0xE9, CHR 0xBB, CHR 0x91, CHR 0xE5, CHR 0x90, CHR 0x8D, CHR 0xE5, CHR 0x8D, CHR 0x95, CHR 0xE7, CHR 0xBD, CHR 0x91, CHR 0xE6, CHR 0xAE, CHR 0xB5] @ '' '' @ net_String n @ '' '' @ [CHR 0xE4, CHR 0xB8, CHR 0xAD]"
| "reason_text (NotAllowed a) = [CHR 0xE5, CHR 0xAE, CHR 0xA2, CHR 0xE6, CHR 0x88, CHR 0xB7, CHR 0xE7, CHR 0xAB, CHR 0xAF] @ '' IP '' @ a @ '' '' @ [CHR 0xE4, CHR 0xB8, CHR 0x8D, CHR 0xE5, CHR 0x9C, CHR 0xA8, CHR 0xE5, CHR 0x85, CHR 0x81, CHR 0xE8, CHR 0xAE, CHR 0xB8, CHR 0xE8, CHR 0xAE, CHR 0xBF, CHR 0xE9, CHR 0x97, CHR 0xAE, CHR 0xE7, CHR 0x9A, CHR 0x84, CHR 0xE7, CHR 0x99, CHR 0xBD, CHR 0xE5, CHR 0x90, CHR 0x8D, CHR 0xE5, CHR 0x8D, CHR 0x95, CHR 0xE5, CHR 0x88, CHR 0x97, CHR 0xE8, CHR 0xA1, CHR 0xA8, CHR 0xE4, CHR 0xB8, CHR 0xAD]"

definition NewAccessMiddleware :: "dns_lib \<Rightarrow> AccessControl option \<Rightarrow> middleware" where
  "NewAccessMiddleware L ac next s =
     (if ac = None \<or> dx_Req s = None then next s
      else (let (allowed, reason) = CheckAccess ac (dx_ClientIP s) in
        if \<not> allowed
        then (None, respond (refused_reply L (the_req s))
               [(''filter_blocked'', ABool True), (''filter_rule'', AStr ''CLIENT_ACCESS_CONTROL''),
                (''filter_reason'', AStr (reason_text reason)), (''access_blocked'', ABool True)] s)
        else next s))"

text \<open>
  The rate limiter: its switch, and the native kernel, whose decision is a function of the calls it
  has seen, the address, the time and the bucket limit.
\<close>

record RateLimiter =
  rl_enabled :: bool
  rl_maxBuckets :: int
  rl_kernel :: "(ip \<times> time) list \<Rightarrow> ip \<Rightarrow> time \<Rightarrow> int \<Rightarrow> bool"

definition limiter_Allow :: "RateLimiter \<Rightarrow> ip \<Rightarrow> qstate \<Rightarrow> bool \<times> qstate" where
  "limiter_Allow r a s =
     (if \<not> rl_enabled r \<or> a = [] then (True, s)
      else (rl_kernel r (w_limited s) a (w_now s) (rl_maxBuckets r), s\<lparr>w_limited := w_limited s @ [(a, w_now s)]\<rparr>))"

definition NewRateLimitMiddleware :: "dns_lib \<Rightarrow> RateLimiter option \<Rightarrow> middleware" where
  "NewRateLimitMiddleware L limiter next s =
     (case limiter of None \<Rightarrow> next s
      | Some r \<Rightarrow>
         (if \<not> rl_enabled r \<or> dx_Req s = None then next s
          else (let (ok, s1) = limiter_Allow r (dx_ClientIP s) s in
            if \<not> ok
            then (None, respond (refused_reply L (the_req s))
                   [(''filter_blocked'', ABool True), (''filter_rule'', AStr ''RATE_LIMIT_EXCEEDED''),
                    (''filter_reason'', AStr ''Client query rate limit exceeded''), (''ratelimit_blocked'', ABool True)] s1)
            else next s1)))"

section \<open>Discovery and special-use names\<close>

definition NewDDRMiddleware :: "dns_lib \<Rightarrow> (rr \<Rightarrow> msg \<Rightarrow> msg) \<Rightarrow> bool \<Rightarrow> DDRAnswer \<Rightarrow> middleware" where
  "NewDDRMiddleware L setEdns0 enabled cfg next s =
     (if \<not> has_question s \<or> \<not> enabled \<or> \<not> equal_fold (trim_space (q_Name (the_q s))) ddrQueryName \<or> ddr_IsEmpty cfg then next s
      else case BuildDDRResponse L setEdns0 (the_req s) cfg of None \<Rightarrow> next s
        | Some resp \<Rightarrow> (None, respond resp [(''ddr_handled'', ABool True), (''source'', AStr ''ddr'')] s))"

definition under_name :: "string \<Rightarrow> string \<Rightarrow> bool" where
  "under_name name zone = (name = zone \<or> has_suffix name (CHR ''.'' # zone))"

definition loopback_answer :: "question \<Rightarrow> rr list" where
  "loopback_answer q =
     (if q_Qtype q = TypeA then [mk_rr (q_Name q) TypeA 300 (RD_A (IPv4 127 0 0 1))]
      else if q_Qtype q = TypeAAAA then [mk_rr (q_Name q) TypeAAAA 300 (RD_AAAA ipv6_loopback)] else [])"

definition NewSUDNMiddleware :: "dns_lib \<Rightarrow> middleware" where
  "NewSUDNMiddleware L next s =
     (if \<not> has_question s then next s
      else (let q = the_q s; name = to_lower (trim_dots (q_Name q)) in
        if name = [] then next s
        else if under_name name ''localhost''
        then (None, respond ((local_reply L (the_req s) RcodeSuccess)\<lparr>m_Answer := loopback_answer q\<rparr>)
               [(''sudn_handled'', ABool True), (''source'', AStr ''sudn'')] s)
        else if under_name name ''test'' \<or> under_name name ''invalid'' \<or> under_name name ''onion'' \<or> under_name name ''home.arpa''
        then (None, respond (local_reply L (the_req s) RcodeNameError) [(''sudn_handled'', ABool True), (''source'', AStr ''sudn'')] s)
        else if under_name name ''resolver.arpa''
        then (None, respond (local_reply L (the_req s) RcodeSuccess) [(''sudn_handled'', ABool True), (''source'', AStr ''sudn_ddr'')] s)
        else next s))"

section \<open>Local data\<close>

definition NewZoneMiddleware :: "dns_lib \<Rightarrow> ZoneEngine option \<Rightarrow> middleware" where
  "NewZoneMiddleware L engine next s =
     (case engine of None \<Rightarrow> next s
      | Some z \<Rightarrow>
         (if \<not> ze_enabled z \<or> \<not> has_question s then next s
          else if trim_space (q_Name (the_q s)) = [] then next s
          else (let (answers, soa, matched) = zone_Lookup L z (q_Name (the_q s)) (q_Qtype (the_q s)) in
            if \<not> matched then next s
            else (let resp = (local_reply L (the_req s) RcodeSuccess)\<lparr>m_Answer := answers\<rparr> in
              if answers = []
              then (None, respond (case soa of None \<Rightarrow> resp | Some r \<Rightarrow> resp\<lparr>m_Ns := m_Ns resp @ [r]\<rparr>)
                     [(''source'', AStr ''zone''), (''cache_hit'', AStr ''zone_nodata'')] s)
              else (None, respond resp [(''source'', AStr ''zone''), (''cache_hit'', AStr ''zone'')] s)))))"

definition NewHostsMiddleware :: "dns_lib \<Rightarrow> HostsResolver option \<Rightarrow> middleware" where
  "NewHostsMiddleware L resolver next s =
     (case resolver of None \<Rightarrow> next s
      | Some r \<Rightarrow>
         (if \<not> has_question s then next s
          else (let q = the_q s; domain = trim_dots (q_Name q) in
            if domain = [] then next s
            else (let answers = (if q_Qtype q = TypePTR then hosts_LookupPTR L r (q_Name q)
                                 else if q_Qtype q = TypeA \<or> q_Qtype q = TypeAAAA then hosts_Lookup L r domain (q_Qtype q) else []) in
              if answers \<noteq> []
              then (None, respond ((local_reply L (the_req s) RcodeSuccess)\<lparr>m_Answer := answers\<rparr>)
                     [(''source'', AStr ''hosts''), (''cache_hit'', AStr ''hosts'')] s)
              else if (q_Qtype q = TypeA \<or> q_Qtype q = TypeAAAA) \<and> HasDomain r domain
              then (None, respond ((local_reply L (the_req s) RcodeSuccess)\<lparr>m_Answer := []\<rparr>)
                     [(''source'', AStr ''hosts''), (''cache_hit'', AStr ''hosts_nodata'')] s)
              else next s))))"

definition NewRewriteMiddleware :: "dns_lib \<Rightarrow> (string \<Rightarrow> ip) \<Rightarrow> RewriteEngine option \<Rightarrow> middleware" where
  "NewRewriteMiddleware L parseArpa engine next s =
     (case engine of None \<Rightarrow> next s
      | Some e \<Rightarrow>
         (if \<not> rwe_enabled e \<or> \<not> has_question s then next s
          else (let q = the_q s; domain = trim_dots (q_Name q) in
            if domain = [] then next s
            else (let (answers, rcode, matched) =
                    (if q_Qtype q = TypePTR then (let (a, ok) = rewrite_LookupPTR L parseArpa e (q_Name q) in (a, RcodeSuccess, ok))
                     else LookupDetailed e domain (q_Qtype q)) in
              if \<not> matched then next s
              else (let r0 = local_reply L (the_req s) rcode;
                        resp = (if rcode = RcodeSuccess then r0\<lparr>m_Answer := answers\<rparr> else r0)
                    in (None, respond resp
                         [(''source'', AStr ''rewrite''),
                          (''cache_hit'', AStr (if rcode \<noteq> RcodeSuccess then ''rewrite_rcode'' else if answers \<noteq> [] then ''rewrite'' else ''rewrite_nodata''))] s))))))"

definition safe_answer :: "dns_lib \<Rightarrow> u32 \<Rightarrow> question \<Rightarrow> SafeSearchResult \<Rightarrow> rr list option" where
  "safe_answer L ttl q res =
     (let fqdn = Fqdn L (q_Name q) in
      if ssr_CNAME res \<noteq> [] then Some [mk_rr fqdn TypeCNAME ttl (RD_CNAME (ssr_CNAME res))]
      else if ssr_IP res \<noteq> [] \<and> ssr_IPType res = q_Qtype q
      then Some [if ssr_IPType res = TypeA then mk_rr fqdn TypeA ttl (RD_A (To4 (ssr_IP res))) else mk_rr fqdn TypeAAAA ttl (RD_AAAA (To16 (ssr_IP res)))]
      else if ssr_NODATA res then Some [] else None)"

definition NewSafeSearchMiddleware :: "dns_lib \<Rightarrow> SafeSearchEngine option \<Rightarrow> middleware" where
  "NewSafeSearchMiddleware L engine next s =
     (case engine of None \<Rightarrow> next s
      | Some e \<Rightarrow>
         (if \<not> ssc_Enabled (sse_cfg e) \<or> \<not> has_question s then next s
          else (let q = the_q s; domain = trim_suffix (to_lower (trim_space (q_Name q))) ''.'' in
            if domain = [] then next s
            else case safe_Lookup e domain (q_Qtype q) of None \<Rightarrow> next s
              | Some res \<Rightarrow> (case safe_answer L (ssc_TTL (sse_cfg e)) q res of None \<Rightarrow> next s
                  | Some answers \<Rightarrow>
                     (None, respond ((local_reply L (the_req s) RcodeSuccess)\<lparr>m_Answer := answers\<rparr>)
                        [(''source'', AStr ''safesearch''), (''cache_hit'', AStr ''safesearch''), (''safesearch_service'', AStr (ssr_Service res))] s)))))"

section \<open>IPv6 suppression\<close>

definition with_dot :: "string \<Rightarrow> string" where
  "with_dot s = (if has_suffix s ''.'' then s else s @ ''.'')"

definition negative_soa :: "string \<Rightarrow> rr" where
  "negative_soa zone = mk_rr zone TypeSOA 300 (RD_SOA ''localhost.'' ''nobody.invalid.'' 1 10000 2400 604800 300)"

definition NewIPv6Middleware :: "dns_lib \<Rightarrow> bool \<Rightarrow> middleware" where
  "NewIPv6Middleware L enabled next s =
     (if \<not> has_question s \<or> \<not> enabled then next s
      else if q_Qtype (the_q s) = TypeAAAA
      then (None, respond ((local_reply L (the_req s) RcodeSuccess)\<lparr>m_Ns := [negative_soa (with_dot (q_Name (the_q s)))]\<rparr>)
             [(''source'', AStr ''block_ipv6''), (''ipv6_blocked'', ABool True)] s)
      else (let (err, s1) = next s in
        if err \<noteq> None then (err, s1)
        else case dx_Resp s1 of None \<Rightarrow> (None, s1)
          | Some resp \<Rightarrow>
             (let (stripped, resp') = StripIPv6Hints resp; s2 = s1\<lparr>dx_Resp := Some resp'\<rparr>
              in (None, if stripped then ctx_Set ''ipv6_hints_stripped'' (ABool True) s2 else s2))))"

section \<open>Private reverse zones\<close>

definition privateReverseSuffixes :: "string list" where
  "privateReverseSuffixes =
     [''10.in-addr.arpa'', ''168.192.in-addr.arpa''] @
     map (\<lambda>n. itoa n @ ''.172.in-addr.arpa'') [16..<32] @ map (\<lambda>n. itoa n @ ''.100.in-addr.arpa'') [64..<128] @
     [''254.169.in-addr.arpa'', ''127.in-addr.arpa'', ''0.in-addr.arpa'', ''255.255.255.255.in-addr.arpa'', ''2.0.192.in-addr.arpa'', ''100.51.198.in-addr.arpa'', ''113.0.203.in-addr.arpa'', ''c.f.ip6.arpa'', ''d.f.ip6.arpa'', ''8.e.f.ip6.arpa'', ''9.e.f.ip6.arpa'', ''a.e.f.ip6.arpa'', ''b.e.f.ip6.arpa'',
      ''1.'' @ concat (replicate 31 ''0.'') @ ''ip6.arpa'', concat (replicate 32 ''0.'') @ ''ip6.arpa'',
      ''8.b.d.0.1.0.0.2.ip6.arpa'']"

definition IsPrivateReverseZone :: "string \<Rightarrow> bool" where
  "IsPrivateReverseZone domain = list_ex (under_name (to_lower (trim_dots domain))) privateReverseSuffixes"

definition longer :: "string \<Rightarrow> string \<Rightarrow> string" where
  "longer cand best = (if length cand > length best then cand else best)"

definition PrivateReverseZoneApex :: "string \<Rightarrow> string" where
  "PrivateReverseZoneApex domain =
     (let best = fold longer (filter (under_name (to_lower (trim_dots domain))) privateReverseSuffixes) []
      in if best = [] then [] else best @ ''.'')"

text \<open>\<open>strconv.ParseUint\<close> in base 10 or 16 and eight bits.\<close>

definition parse_uint8 :: "nat \<Rightarrow> (char \<Rightarrow> nat option) \<Rightarrow> string \<Rightarrow> nat option" where
  "parse_uint8 b dv s = (if s = [] then None else case read_number b dv 0 s of None \<Rightarrow> None | Some n \<Rightarrow> if n \<le> 255 then Some n else None)"

definition nibble :: "string \<Rightarrow> nat option" where
  "nibble s = (case parse_uint8 16 hex_value s of None \<Rightarrow> None | Some n \<Rightarrow> if n > 15 then None else Some n)"

definition ParsePTRIP :: "string \<Rightarrow> ip" where
  "ParsePTRIP ptrName =
     (let clean = to_lower (trim_dots ptrName) in
      if has_suffix clean ''.in-addr.arpa''
      then (case map (parse_uint8 10 digit_value) (split_on (CHR ''.'') (trim_suffix clean ''.in-addr.arpa'')) of
              [Some b3, Some b2, Some b1, Some b0] \<Rightarrow> IPv4 (of_nat b0) (of_nat b1) (of_nat b2) (of_nat b3)
            | _ \<Rightarrow> [])
      else if has_suffix clean ''.ip6.arpa''
      then (let ns = split_on (CHR ''.'') (trim_suffix clean ''.ip6.arpa'') in
            if length ns \<noteq> 32 then []
            else case all_some (map nibble ns) of None \<Rightarrow> []
              | Some vs \<Rightarrow> map (\<lambda>i. of_nat (vs ! (31 - i * 2) * 16 + vs ! (31 - i * 2 - 1))) [0..<16])
      else [])"

definition NewPrivatePTRMiddleware ::
  "dns_lib \<Rightarrow> (string list \<Rightarrow> string list) \<Rightarrow> (ip \<Rightarrow> string) list \<Rightarrow> bool \<Rightarrow> middleware" where
  "NewPrivatePTRMiddleware L visit lookupers enabled next s =
     (if \<not> has_question s \<or> \<not> enabled \<or> q_Qtype (the_q s) \<noteq> TypePTR \<or> \<not> IsPrivateReverseZone (q_Name (the_q s)) then next s
      else (let q = the_q s;
                (host, s1) = (case w_clients s of None \<Rightarrow> ([], s)
                  | Some r \<Rightarrow> if ParsePTRIP (q_Name q) = [] then ([], s)
                      else (let (n, r') = IdentifyClient visit lookupers (ParsePTRIP (q_Name q)) (w_now s) r in (n, s\<lparr>w_clients := Some r'\<rparr>)))
            in if host \<noteq> []
               then (None, respond ((local_reply L (the_req s) RcodeSuccess)\<lparr>m_Answer := [mk_rr (q_Name q) TypePTR 300 (RD_PTR (with_dot host))]\<rparr>)
                      [(''source'', AStr ''client_resolver_ptr'')] s1)
               else (let apex = PrivateReverseZoneApex (q_Name q); zone = (if apex = [] then with_dot (q_Name q) else apex)
                     in (None, respond ((local_reply L (the_req s) RcodeNameError)\<lparr>m_Ns := [negative_soa zone]\<rparr>)
                          [(''source'', AStr ''locally_served_zone''), (''private_ptr_blocked'', ABool True)] s1))))"

section \<open>Single-label names and ANY\<close>

definition NewDynamicUnqualifiedMiddleware :: "dns_lib \<Rightarrow> bool \<Rightarrow> middleware" where
  "NewDynamicUnqualifiedMiddleware L enabled next s =
     (if \<not> enabled \<or> \<not> has_question s then next s
      else (let clean = trim_suffix (q_Name (the_q s)) ''.'' in
        if clean \<noteq> [] \<and> CHR ''.'' \<notin> set clean
        then (None, respond ((SetRcode L (the_req s) RcodeNameError)\<lparr>m_Authoritative := True, m_RecursionAvailable := True\<rparr>)
               [(''filter_blocked'', ABool True), (''filter_rule'', AStr ''BLOCK_UNQUALIFIED''),
                (''filter_reason'', AStr ''Unqualified domain name leak blocked''), (''unqualified_blocked'', ABool True)] s)
        else next s))"

definition resolvedANYMode :: "string \<Rightarrow> string" where
  "resolvedANYMode mode = (if to_lower (trim_space mode) = ''rfc8482'' then ''rfc8482'' else ''notimp'')"

definition buildANYMinimalResponse :: "dns_lib \<Rightarrow> msg \<Rightarrow> string \<Rightarrow> msg" where
  "buildANYMinimalResponse L req mode =
     (let resp = (SetReply L req)\<lparr>m_Authoritative := True, m_RecursionAvailable := True\<rparr> in
      if mode \<noteq> ''rfc8482'' then resp\<lparr>m_Rcode := RcodeNotImplemented\<rparr>
      else resp\<lparr>m_Answer := m_Answer resp @ [mk_rr (q_Name (hd (m_Question req))) TypeHINFO 0 (RD_HINFO ''RFC8482'' [])]\<rparr>)"

definition NewANYMiddleware :: "dns_lib \<Rightarrow> bool \<Rightarrow> string \<Rightarrow> middleware" where
  "NewANYMiddleware L enabled mode next s =
     (if \<not> enabled \<or> \<not> has_question s then next s
      else if q_Qtype (the_q s) \<noteq> TypeANY \<or> q_Qclass (the_q s) \<noteq> ClassINET then next s
      else (None, respond (buildANYMinimalResponse L (the_req s) (resolvedANYMode mode))
             [(''filter_blocked'', ABool True), (''filter_rule'', AStr ''BLOCK_ANY''),
              (''filter_reason'', AStr ''ANY query minimized per RFC 8482''), (''any_blocked'', ABool True)] s))"

section \<open>The gates\<close>

text \<open>
  Each of these handlers is a gate, and neither its answer nor the state it passes on has sent anything
  or changed the query.
\<close>

lemma set_all_same [simp]: "same_query s (set_all kvs t) = same_query s t"
  by (induction kvs arbitrary: t) (simp_all add: set_all_def same_query_def split_beta)

lemma set_all_simps [simp]:
  "dx_Req (set_all kvs s) = dx_Req s" "dx_Resp (set_all kvs s) = dx_Resp s" "dx_Err (set_all kvs s) = dx_Err s"
  by (induction kvs arbitrary: s) (simp_all add: set_all_def split_beta)

lemma respond_simps [simp]:
  "same_query s (respond resp kvs t) = same_query s t" "dx_Resp (respond resp kvs s) = Some resp" "dx_Req (respond resp kvs s) = dx_Req s"
  by (simp_all add: respond_def same_query_def [of s "t\<lparr>dx_Resp := x\<rparr>" for x t] same_query_def [of s t] quiet_def)

lemma quiet_world [simp]:
  "quiet s (set_all kvs t) = quiet s t" "quiet s (t\<lparr>w_engine := x1\<rparr>) = quiet s t" "quiet s (t\<lparr>dx_Resp := x2\<rparr>) = quiet s t"
  "quiet s (respond resp kvs t) = quiet s t"
proof -
  show a: "quiet s (set_all kvs t) = quiet s t" for kvs t
    by (induction kvs arbitrary: t) (simp_all add: set_all_def split_beta)
  show "quiet s (t\<lparr>w_engine := x1\<rparr>) = quiet s t" "quiet s (t\<lparr>dx_Resp := x2\<rparr>) = quiet s t" by (simp_all add: quiet_def)
  then show "quiet s (respond resp kvs t) = quiet s t" by (simp add: respond_def a) (simp add: quiet_def)
qed

lemmas probe_defs = is_gate_def decides_by_def outcome_of_def probe_def

lemma access_gate: "is_gate (NewAccessMiddleware L ac)"
  by (simp add: probe_defs NewAccessMiddleware_def split: prod.splits)

lemma limit_gate: "is_gate (NewRateLimitMiddleware L rl)"
  by (simp add: probe_defs NewRateLimitMiddleware_def split: prod.splits option.splits)

lemma client_gate: "is_gate (NewClientMiddlewareWithGroups visit lk groups)"
  by (simp add: probe_defs NewClientMiddlewareWithGroups_def)

lemma ddr_gate: "is_gate (NewDDRMiddleware L se en cfg)"
  by (simp add: probe_defs NewDDRMiddleware_def split: option.splits)

lemma sudn_gate: "is_gate (NewSUDNMiddleware L)"
  by (simp add: probe_defs NewSUDNMiddleware_def Let_def)

lemma zone_gate: "is_gate (NewZoneMiddleware L z)"
  by (simp add: probe_defs NewZoneMiddleware_def Let_def split: prod.splits option.splits)

lemma hosts_gate: "is_gate (NewHostsMiddleware L h)"
  by (simp add: probe_defs NewHostsMiddleware_def Let_def split: option.splits)

lemma rewrite_gate: "is_gate (NewRewriteMiddleware L pa rw)"
  by (simp add: probe_defs NewRewriteMiddleware_def Let_def split: prod.splits option.splits)

lemma safesearch_gate: "is_gate (NewSafeSearchMiddleware L ss)"
  by (simp add: probe_defs NewSafeSearchMiddleware_def Let_def split: option.splits)

lemma ptr_gate: "is_gate (NewPrivatePTRMiddleware L visit lk en)"
  by (simp add: probe_defs NewPrivatePTRMiddleware_def Let_def split: prod.splits option.splits)

lemma unqualified_gate: "is_gate (NewDynamicUnqualifiedMiddleware L en)"
  by (simp add: probe_defs NewDynamicUnqualifiedMiddleware_def Let_def)

lemma any_gate: "is_gate (NewANYMiddleware L en mode)"
  by (simp add: probe_defs NewANYMiddleware_def)

interpretation access: gate "NewAccessMiddleware L ac" "decides_by (NewAccessMiddleware L ac)" "outcome_of (NewAccessMiddleware L ac)" "outcome_of (NewAccessMiddleware L ac)" for L ac
  by (rule gate_probe [OF access_gate])

interpretation limit: gate "NewRateLimitMiddleware L rl" "decides_by (NewRateLimitMiddleware L rl)" "outcome_of (NewRateLimitMiddleware L rl)" "outcome_of (NewRateLimitMiddleware L rl)" for L rl
  by (rule gate_probe [OF limit_gate])

interpretation client: gate "NewClientMiddlewareWithGroups visit lk groups" "decides_by (NewClientMiddlewareWithGroups visit lk groups)" "outcome_of (NewClientMiddlewareWithGroups visit lk groups)" "outcome_of (NewClientMiddlewareWithGroups visit lk groups)" for visit lk groups
  by (rule gate_probe [OF client_gate])

interpretation ddr: gate "NewDDRMiddleware L se en cfg" "decides_by (NewDDRMiddleware L se en cfg)" "outcome_of (NewDDRMiddleware L se en cfg)" "outcome_of (NewDDRMiddleware L se en cfg)" for L se en cfg
  by (rule gate_probe [OF ddr_gate])

interpretation sudn: gate "NewSUDNMiddleware L" "decides_by (NewSUDNMiddleware L)" "outcome_of (NewSUDNMiddleware L)" "outcome_of (NewSUDNMiddleware L)" for L
  by (rule gate_probe [OF sudn_gate])

interpretation zone: gate "NewZoneMiddleware L z" "decides_by (NewZoneMiddleware L z)" "outcome_of (NewZoneMiddleware L z)" "outcome_of (NewZoneMiddleware L z)" for L z
  by (rule gate_probe [OF zone_gate])

interpretation hosts: gate "NewHostsMiddleware L h" "decides_by (NewHostsMiddleware L h)" "outcome_of (NewHostsMiddleware L h)" "outcome_of (NewHostsMiddleware L h)" for L h
  by (rule gate_probe [OF hosts_gate])

interpretation rewrite: gate "NewRewriteMiddleware L pa rw" "decides_by (NewRewriteMiddleware L pa rw)" "outcome_of (NewRewriteMiddleware L pa rw)" "outcome_of (NewRewriteMiddleware L pa rw)" for L pa rw
  by (rule gate_probe [OF rewrite_gate])

interpretation safesearch: gate "NewSafeSearchMiddleware L ss" "decides_by (NewSafeSearchMiddleware L ss)" "outcome_of (NewSafeSearchMiddleware L ss)" "outcome_of (NewSafeSearchMiddleware L ss)" for L ss
  by (rule gate_probe [OF safesearch_gate])

interpretation private_ptr: gate "NewPrivatePTRMiddleware L visit lk en" "decides_by (NewPrivatePTRMiddleware L visit lk en)" "outcome_of (NewPrivatePTRMiddleware L visit lk en)" "outcome_of (NewPrivatePTRMiddleware L visit lk en)" for L visit lk en
  by (rule gate_probe [OF ptr_gate])

interpretation unqualified: gate "NewDynamicUnqualifiedMiddleware L en" "decides_by (NewDynamicUnqualifiedMiddleware L en)" "outcome_of (NewDynamicUnqualifiedMiddleware L en)" "outcome_of (NewDynamicUnqualifiedMiddleware L en)" for L en
  by (rule gate_probe [OF unqualified_gate])

interpretation any_query: gate "NewANYMiddleware L en mode" "decides_by (NewANYMiddleware L en mode)" "outcome_of (NewANYMiddleware L en mode)" "outcome_of (NewANYMiddleware L en mode)" for L en mode
  by (rule gate_probe [OF any_gate])

section \<open>What the gates leave alone\<close>

named_theorems tidy_gates \<open>handlers that send nothing and keep the query\<close>
named_theorems id_gates \<open>handlers whose answer carries the identifier of the request\<close>

lemmas outcome_defs = tidy_def keeps_id_def outcome_of_def probe_def

lemma id_ok_simps [simp]:
  "id_ok (respond resp kvs s) \<longleftrightarrow> m_Id resp = m_Id (the_req s)" "id_ok (set_all kvs s) = id_ok s" "id_ok (ctx_Set k v s) = id_ok s"
  "id_ok (s\<lparr>w_clients := x1\<rparr>) = id_ok s" "id_ok (s\<lparr>w_limited := x2\<rparr>) = id_ok s" "id_ok (s\<lparr>w_engine := x3\<rparr>) = id_ok s"
  "id_ok (s\<lparr>w_cache := x4\<rparr>) = id_ok s" "id_ok (s\<lparr>w_now := x5\<rparr>) = id_ok s" "id_ok (s\<lparr>w_safe := x6\<rparr>) = id_ok s"
  "id_ok (s\<lparr>w_sent := x7\<rparr>) = id_ok s" "id_ok (s\<lparr>dx_Err := x8\<rparr>) = id_ok s" "id_ok (s\<lparr>w_tasks := x9\<rparr>) = id_ok s"
  "id_ok (s\<lparr>dx_ClientName := x10\<rparr>) = id_ok s" "id_ok (s\<lparr>w_reported := x11\<rparr>) = id_ok s"
  "id_ok (s\<lparr>dx_Resp := Some m\<rparr>) \<longleftrightarrow> m_Id m = m_Id (the_req s)"
  by (simp_all add: id_ok_def the_req_def)

lemma the_req_world [simp]:
  "the_req (s\<lparr>w_clients := x1\<rparr>) = the_req s" "the_req (s\<lparr>w_limited := x2\<rparr>) = the_req s" "the_req (s\<lparr>w_engine := x3\<rparr>) = the_req s"
  "the_req (s\<lparr>w_cache := x4\<rparr>) = the_req s" "the_req (s\<lparr>w_now := x5\<rparr>) = the_req s" "the_req (s\<lparr>w_safe := x6\<rparr>) = the_req s"
  "the_req (s\<lparr>w_sent := x7\<rparr>) = the_req s" "the_req (s\<lparr>dx_Err := x8\<rparr>) = the_req s" "the_req (s\<lparr>dx_Resp := x9\<rparr>) = the_req s"
  "the_req (ctx_Set k v s) = the_req s" "the_req (set_all kvs s) = the_req s"
  by (simp_all add: the_req_def)

lemma same_query_world [simp]:
  "same_query s (t\<lparr>w_limited := x1\<rparr>) = same_query s t" "same_query s (t\<lparr>w_clients := x2\<rparr>) = same_query s t"
  "same_query s (t\<lparr>dx_ClientName := x4\<rparr>) = same_query s t"
  "same_query s (ctx_Set k v t) = same_query s t" "same_query s (t\<lparr>dx_Resp := x5\<rparr>) = same_query s t"
  by (simp_all add: same_query_def quiet_def)

lemma reply_ids:
  assumes "dns_lib_ok L"
  shows "m_Id (local_reply L req rc) = m_Id req" "m_Id (refused_reply L req) = m_Id req" "m_Id (SetRcode L req rc) = m_Id req"
    "m_Id (buildANYMinimalResponse L req mode) = m_Id req"
  using assms by (simp_all add: local_reply_def refused_reply_def buildANYMinimalResponse_def Let_def dns_lib_okD)

lemma ddr_reply_id:
  "dns_lib_ok L \<Longrightarrow> (\<And>r m. m_Id (se r m) = m_Id m) \<Longrightarrow> BuildDDRResponse L se req cfg = Some resp \<Longrightarrow> m_Id resp = m_Id req"
  by (auto simp: BuildDDRResponse_def Let_def dns_lib_okD split: list.splits option.splits if_splits)

lemma access_tidy [tidy_gates]: "tidy (NewAccessMiddleware L ac)"
  by (simp add: outcome_defs NewAccessMiddleware_def Let_def  split: prod.splits option.splits)

lemma access_id [id_gates]: "dns_lib_ok L \<Longrightarrow> keeps_id (NewAccessMiddleware L ac)"
  by (simp add: outcome_defs NewAccessMiddleware_def Let_def reply_ids  split: prod.splits option.splits)

lemma limit_tidy [tidy_gates]: "tidy (NewRateLimitMiddleware L rl)"
  by (simp add: outcome_defs NewRateLimitMiddleware_def Let_def limiter_Allow_def split: prod.splits option.splits)

lemma limit_id [id_gates]: "dns_lib_ok L \<Longrightarrow> keeps_id (NewRateLimitMiddleware L rl)"
  by (simp add: outcome_defs NewRateLimitMiddleware_def Let_def reply_ids limiter_Allow_def  split: prod.splits option.splits)

lemma sudn_tidy [tidy_gates]: "tidy (NewSUDNMiddleware L)"
  by (simp add: outcome_defs NewSUDNMiddleware_def Let_def  split: prod.splits option.splits)

lemma sudn_id [id_gates]: "dns_lib_ok L \<Longrightarrow> keeps_id (NewSUDNMiddleware L)"
  by (simp add: outcome_defs NewSUDNMiddleware_def Let_def reply_ids  split: prod.splits option.splits)

lemma zone_tidy [tidy_gates]: "tidy (NewZoneMiddleware L z)"
  by (simp add: outcome_defs NewZoneMiddleware_def Let_def  split: prod.splits option.splits)

lemma zone_id [id_gates]: "dns_lib_ok L \<Longrightarrow> keeps_id (NewZoneMiddleware L z)"
  by (simp add: outcome_defs NewZoneMiddleware_def Let_def reply_ids  split: prod.splits option.splits)

lemma hosts_tidy [tidy_gates]: "tidy (NewHostsMiddleware L h)"
  by (simp add: outcome_defs NewHostsMiddleware_def Let_def  split: prod.splits option.splits)

lemma hosts_id [id_gates]: "dns_lib_ok L \<Longrightarrow> keeps_id (NewHostsMiddleware L h)"
  by (simp add: outcome_defs NewHostsMiddleware_def Let_def reply_ids  split: prod.splits option.splits)

lemma rewrite_tidy [tidy_gates]: "tidy (NewRewriteMiddleware L pa rw)"
  by (simp add: outcome_defs NewRewriteMiddleware_def Let_def  split: prod.splits option.splits)

lemma rewrite_id [id_gates]: "dns_lib_ok L \<Longrightarrow> keeps_id (NewRewriteMiddleware L pa rw)"
  by (simp add: outcome_defs NewRewriteMiddleware_def Let_def reply_ids  split: prod.splits option.splits)

lemma safesearch_tidy [tidy_gates]: "tidy (NewSafeSearchMiddleware L ss)"
  by (simp add: outcome_defs NewSafeSearchMiddleware_def Let_def  split: prod.splits option.splits)

lemma safesearch_id [id_gates]: "dns_lib_ok L \<Longrightarrow> keeps_id (NewSafeSearchMiddleware L ss)"
  by (simp add: outcome_defs NewSafeSearchMiddleware_def Let_def reply_ids  split: prod.splits option.splits)

lemma private_ptr_tidy [tidy_gates]: "tidy (NewPrivatePTRMiddleware L visit lk en)"
  by (auto simp: outcome_defs NewPrivatePTRMiddleware_def Let_def split: prod.splits option.splits)

lemma private_ptr_id [id_gates]: "dns_lib_ok L \<Longrightarrow> keeps_id (NewPrivatePTRMiddleware L visit lk en)"
  by (auto simp: outcome_defs NewPrivatePTRMiddleware_def Let_def reply_ids  split: prod.splits option.splits)

lemma unqualified_tidy [tidy_gates]: "tidy (NewDynamicUnqualifiedMiddleware L en)"
  by (simp add: outcome_defs NewDynamicUnqualifiedMiddleware_def Let_def  split: prod.splits option.splits)

lemma unqualified_id [id_gates]: "dns_lib_ok L \<Longrightarrow> keeps_id (NewDynamicUnqualifiedMiddleware L en)"
  by (simp add: outcome_defs NewDynamicUnqualifiedMiddleware_def Let_def reply_ids  split: prod.splits option.splits)

lemma any_query_tidy [tidy_gates]: "tidy (NewANYMiddleware L en mode)"
  by (simp add: outcome_defs NewANYMiddleware_def Let_def  split: prod.splits option.splits)

lemma any_query_id [id_gates]: "dns_lib_ok L \<Longrightarrow> keeps_id (NewANYMiddleware L en mode)"
  by (simp add: outcome_defs NewANYMiddleware_def Let_def reply_ids  split: prod.splits option.splits)

lemma identify_facts [simp]:
  "same_query s (identify visit lk s)" "id_ok (identify visit lk s) = id_ok s" "dx_Resp (identify visit lk s) = dx_Resp s"
  by (simp_all add: identify_def Let_def split: option.splits prod.splits)

lemma client_tidy [tidy_gates]: "tidy (NewClientMiddlewareWithGroups visit lk groups)"
  by (simp add: outcome_defs NewClientMiddlewareWithGroups_def client_marks_def Let_def)

lemma client_id [id_gates]: "keeps_id (NewClientMiddlewareWithGroups visit lk groups)"
  by (simp add: outcome_defs NewClientMiddlewareWithGroups_def client_marks_def Let_def)

lemma ddr_tidy [tidy_gates]: "tidy (NewDDRMiddleware L se en cfg)"
  by (simp add: outcome_defs NewDDRMiddleware_def split: option.splits)

lemma ddr_id [id_gates]: "dns_lib_ok L \<Longrightarrow> (\<And>r m. m_Id (se r m) = m_Id m) \<Longrightarrow> keeps_id (NewDDRMiddleware L se en cfg)"
  by (auto simp: outcome_defs NewDDRMiddleware_def dest: ddr_reply_id split: option.splits)

lemma ipv6_law:
  "NewIPv6Middleware L enabled next s =
     (if \<not> has_question s \<or> \<not> enabled then next s
      else if q_Qtype (the_q s) = TypeAAAA then (None, outcome_of (NewIPv6Middleware L enabled) s)
      else (let (err, s1) = next s in
        (err, if err \<noteq> None then s1 else case dx_Resp s1 of None \<Rightarrow> s1
          | Some resp \<Rightarrow> if fst (StripIPv6Hints resp) then ctx_Set ''ipv6_hints_stripped'' (ABool True) (s1\<lparr>dx_Resp := Some (snd (StripIPv6Hints resp))\<rparr>)
                          else s1\<lparr>dx_Resp := Some (snd (StripIPv6Hints resp))\<rparr>)))"
  by (simp add: NewIPv6Middleware_def outcome_of_def probe_def Let_def split: prod.splits option.splits)

lemma ipv6_blocked:
  "has_question s \<Longrightarrow> enabled \<Longrightarrow> q_Qtype (the_q s) = TypeAAAA \<Longrightarrow> same_query s (outcome_of (NewIPv6Middleware L enabled) s)"
  "has_question s \<Longrightarrow> enabled \<Longrightarrow> q_Qtype (the_q s) = TypeAAAA \<Longrightarrow> dns_lib_ok L \<Longrightarrow> id_ok (outcome_of (NewIPv6Middleware L enabled) s)"
  by (simp_all add: NewIPv6Middleware_def outcome_of_def probe_def reply_ids)

lemma ipv6_quiet: "carries Q quiet (NewIPv6Middleware L enabled)"
proof (rule carriesI)
  fix "next" :: nxt and s
  assume "\<And>s. Q s \<Longrightarrow> quiet s (snd (next s))" "Q s"
  then have "quiet s (snd (next s))" by blast
  then show "quiet s (snd (NewIPv6Middleware L enabled next s))"
    using ipv6_blocked(1) [of s enabled L]
    by (auto simp: ipv6_law Let_def same_query_def quiet_def split: prod.splits option.splits)
qed

lemma strip_hints_id [simp]: "m_Id (snd (StripIPv6Hints m)) = m_Id m" "m_Id (snd (StripECH m)) = m_Id m"
  by (simp_all add: StripIPv6Hints_def StripECH_def strip_msg_def Let_def split: prod.splits)

lemma replied_Set [simp]: "replied s (ctx_Set k v t) = replied s t"
  by (simp add: replied_def)

lemma ipv6_id:
  assumes L: "dns_lib_ok L"
  shows "carries asked replied (NewIPv6Middleware L enabled)"
proof (rule carriesI)
  fix "next" :: nxt and s
  assume n: "\<And>s. asked s \<Longrightarrow> replied s (snd (next s))" and s: "asked s"
  obtain err s1 where r: "next s = (err, s1)" by fastforce
  then have r1: "replied s s1" using n s by fastforce
  have strip: "replied s (s1\<lparr>dx_Resp := Some (snd (StripIPv6Hints resp))\<rparr>)" if "dx_Resp s1 = Some resp" for resp
    using r1 that by (simp add: replied_def id_ok_def)
  moreover have "replied s (outcome_of (NewIPv6Middleware L enabled) s)" if "has_question s" "enabled" "q_Qtype (the_q s) = TypeAAAA"
    using ipv6_blocked [OF that, of L] L s by (simp add: same_query_def replied_def asked_def)
  ultimately show "replied s (snd (NewIPv6Middleware L enabled next s))"
    using r r1 by (simp add: ipv6_law Let_def split: option.splits)
qed

end
