(* ===== verification/Middleware_Guard.thy ===== *)
theory Middleware_Guard
  imports Middleware_Local
begin

text \<open>
  The middlewares that guard the answer: metrics, extended errors, ECH removal, the filter with its
  response check, reputation checks, rebinding protection and the correction of bogus answers
  (\<open>dns/forwarder.go\<close>, \<open>ede_middleware.go\<close>, \<open>ech_middleware.go\<close>,
  \<open>filter_middleware.go\<close>, \<open>filter_response_middleware.go\<close>,
  \<open>safebrowsing_middleware.go\<close>, \<open>rebind_middleware.go\<close>,
  \<open>bogus_nxdomain_middleware.go\<close>). Texts are in UTF-8, as the sources have them.
\<close>

section \<open>Metrics, extended errors and ECH\<close>

definition NewMetricsMiddleware :: middleware where
  "NewMetricsMiddleware next s =
     (let (err, s1) = next s
      in (err, s1\<lparr>w_reported := w_reported s1 @ [(dns_context.truncate s1, w_now s1 - w_now s, err)]\<rparr>))"

definition ExtendedErrorCodeCachedError :: u16 where "ExtendedErrorCodeCachedError = 13"
definition ExtendedErrorCodeBlocked :: u16 where "ExtendedErrorCodeBlocked = 15"
definition ExtendedErrorCodeProhibited :: u16 where "ExtendedErrorCodeProhibited = 18"
definition ExtendedErrorCodeNetworkError :: u16 where "ExtendedErrorCodeNetworkError = 23"

text \<open>The reason another handler left, or a default.\<close>

definition ede_reason :: "string \<Rightarrow> qstate \<Rightarrow> string" where
  "ede_reason dflt s = (case ctx_Get ''filter_reason'' s of
     Some (AStr r) \<Rightarrow> if r \<noteq> [] then ''DITING: '' @ r else dflt | _ \<Rightarrow> dflt)"

definition ede_for :: "msg \<Rightarrow> qstate \<Rightarrow> (u16 \<times> string) option" where
  "ede_for resp s =
     (if attr_is_true ''access_blocked'' s
      then Some (ExtendedErrorCodeProhibited, ede_reason ''DITING: Client query prohibited by access policy'' s)
      else if attr_is_true ''ratelimit_blocked'' s
      then Some (ExtendedErrorCodeProhibited, ede_reason ''DITING: Client query rate limit exceeded'' s)
      else if attr_is_true ''rebinding_blocked'' s
      then Some (ExtendedErrorCodeProhibited, ede_reason ''DITING: Blocked by DNS rebinding protection'' s)
      else if attr_is_true ''unqualified_blocked'' s
      then Some (ExtendedErrorCodeBlocked, ede_reason ''DITING: Blocked unqualified domain leak'' s)
      else if attr_is_true ''any_blocked'' s
      then Some (ExtendedErrorCodeBlocked, ''DITING: ANY '' @ [CHR 0xE6, CHR 0x9F, CHR 0xA5, CHR 0xE8, CHR 0xAF, CHR 0xA2, CHR 0xE5, CHR 0xB7, CHR 0xB2, CHR 0xE6, CHR 0x8C, CHR 0x89] @ '' RFC 8482 '' @ [CHR 0xE6, CHR 0x9C, CHR 0x80, CHR 0xE5, CHR 0xB0, CHR 0x8F, CHR 0xE5, CHR 0x8C, CHR 0x96, CHR 0xE5, CHR 0xBA, CHR 0x94, CHR 0xE7, CHR 0xAD, CHR 0x94])
      else if attr_is_true ''bogus_nxdomain'' s
      then Some (ExtendedErrorCodeBlocked, ''DITING: '' @ [CHR 0xE4, CHR 0xB8, CHR 0x8A, CHR 0xE6, CHR 0xB8, CHR 0xB8, CHR 0xE8, CHR 0xBF, CHR 0x94, CHR 0xE5, CHR 0x9B, CHR 0x9E, CHR 0xE5, CHR 0x8A, CHR 0xAB, CHR 0xE6, CHR 0x8C, CHR 0x81, CHR 0xE5, CHR 0x9C, CHR 0xB0, CHR 0xE5, CHR 0x9D, CHR 0x80, CHR 0xEF, CHR 0xBC, CHR 0x8C, CHR 0xE5, CHR 0xB7, CHR 0xB2, CHR 0xE7, CHR 0xBA, CHR 0xA0, CHR 0xE6, CHR 0xAD, CHR 0xA3, CHR 0xE4, CHR 0xB8, CHR 0xBA] @ '' NXDOMAIN'')
      else if attr_is_true ''filter_blocked'' s
      then Some (ExtendedErrorCodeBlocked, ede_reason ''DITING: Blocked by filter rule'' s)
      else if dx_Err s \<noteq> None \<or> m_Rcode resp = RcodeServerFailure
      then Some (ExtendedErrorCodeNetworkError,
             case dx_Err s of None \<Rightarrow> ''DITING: Upstream resolution failed'' | Some e \<Rightarrow> ''DITING: '' @ e)
      else if ctx_Get ''cache_hit'' s = Some (AStr ''stale'')
      then Some (ExtendedErrorCodeCachedError, ''DITING: Stale cache response (network degraded)'')
      else None)"

definition NewEDEMiddleware :: "bool \<Rightarrow> middleware" where
  "NewEDEMiddleware enabled next s =
     (let (err, s1) = next s in
      case (dx_Resp s1, dx_Req s1) of
        (Some resp, Some req) \<Rightarrow>
          if \<not> enabled \<or> IsEdns0 req = None then (err, s1)
          else (case ede_for resp s1 of None \<Rightarrow> (err, s1) | Some (code, text) \<Rightarrow> (err, s1\<lparr>dx_Resp := Some (SetEDE code text resp)\<rparr>))
      | _ \<Rightarrow> (err, s1))"

definition NewECHMiddleware :: "bool \<Rightarrow> middleware" where
  "NewECHMiddleware enabled next s =
     (let (err, s1) = next s in
      if err \<noteq> None then (err, s1)
      else case dx_Resp s1 of None \<Rightarrow> (None, s1)
        | Some resp \<Rightarrow>
           if \<not> enabled then (None, s1)
           else (let (stripped, resp') = StripECH resp; s2 = s1\<lparr>dx_Resp := Some resp'\<rparr>
                 in (None, if stripped then ctx_Set ''ech_stripped'' (ABool True) s2 else s2)))"

section \<open>The filter\<close>

definition buildRewriteResponse :: "dns_lib \<Rightarrow> msg \<Rightarrow> RewriteResult \<Rightarrow> msg" where
  "buildRewriteResponse L req res = (local_reply L req (rw_RCode res))\<lparr>m_Answer := rw_Records res\<rparr>"

definition null_answer :: "FilterConfig \<Rightarrow> question \<Rightarrow> rr list" where
  "null_answer cfg q =
     (if q_Qtype q = TypeA
      then (let a = To4 (if ParseIP (fc_BlockingIPv4 cfg) = [] then IPv4 0 0 0 0 else ParseIP (fc_BlockingIPv4 cfg))
            in if a \<noteq> [] then [mk_rr (q_Name q) TypeA DefaultRuleTTL (RD_A a)] else [])
      else if q_Qtype q = TypeAAAA
      then [mk_rr (q_Name q) TypeAAAA DefaultRuleTTL
              (RD_AAAA (if ParseIP (fc_BlockingIPv6 cfg) = [] then ipv6_zero else ParseIP (fc_BlockingIPv6 cfg)))]
      else [])"

definition BuildBlockedResponse :: "dns_lib \<Rightarrow> msg \<Rightarrow> FilterConfig \<Rightarrow> msg" where
  "BuildBlockedResponse L req cfg =
     (if fc_BlockMode cfg = BlockModeNXDOMAIN then local_reply L req RcodeNameError
      else if fc_BlockMode cfg = BlockModeRefused then local_reply L req RcodeRefused
      else (let resp = local_reply L req RcodeSuccess
            in resp\<lparr>m_Answer := m_Answer resp @ null_answer cfg (hd (m_Question req))\<rparr>))"

definition group_of :: "groupEntry list option \<Rightarrow> qstate \<Rightarrow> string" where
  "group_of groups s = (if groups \<noteq> None \<and> dx_ClientIP s \<noteq> [] then group_Resolve groups (dx_ClientIP s) else DefaultClientGroupID)"

definition block_config :: "RuleEngine \<Rightarrow> string \<Rightarrow> FilterConfig" where
  "block_config e gid = (let cfg = engine_GetConfig e; m = GroupBlockMode e gid in if m \<noteq> [] then cfg\<lparr>fc_BlockMode := m\<rparr> else cfg)"

definition rule_attrs :: "string \<Rightarrow> CheckHostResult \<Rightarrow> (string \<times> attr) list" where
  "rule_attrs action res =
     [(''filter_action'', AStr action), (''filter_blocked'', ABool (action = ''block'')), (''filter_rule'', AStr (ch_MatchedRule res)),
      (''filter_reason'', AStr (ch_Reason res)), (''filter_list'', AStr (ch_ListName res))]"

definition NewFilterMiddlewareWithGroups :: "dns_lib \<Rightarrow> rule_env \<Rightarrow> groupEntry list option \<Rightarrow> middleware" where
  "NewFilterMiddlewareWithGroups L V groups next s =
     (case w_engine s of None \<Rightarrow> next s
      | Some e0 \<Rightarrow>
         (if \<not> engine_IsEnabled e0 (w_now s) \<or> \<not> has_question s then next s
          else (let q = the_q s; domain = trim_suffix (to_lower (trim_space (q_Name q))) ''.'' in
            if domain = [] then next s
            else (let gid = group_of groups s;
                      (res, e) = MatchForGroup V domain (q_Qtype q) gid (w_now s) e0;
                      s1 = s\<lparr>w_engine := Some e\<rparr> in
              if ch_Action res = ''pass'' \<and> ch_Reason res = ReasonScheduleInactive
              then next (set_all [(''filter_action'', AStr ''pass''), (''filter_blocked'', ABool False),
                           (''filter_reason'', AStr (ch_Reason res)), (''filter_schedule_inactive'', ABool True)] s1)
              else if ch_Action res = ''pass'' \<and> ch_Reason res = ReasonServiceScheduleInactive
              then next (set_all [(''filter_action'', AStr ''pass''), (''filter_blocked'', ABool False), (''filter_reason'', AStr (ch_Reason res)),
                           (''filter_service_schedule_inactive'', ABool True), (attrClientGroup, AStr gid)] s1)
              else if IsRewrite res
              then (None, respond (buildRewriteResponse L (the_req s) (the (ch_Rewritten res)))
                     ([(''source'', AStr ''dnsrewrite''), (''cache_hit'', AStr ''dnsrewrite'')] @ rule_attrs ''rewrite'' res @
                      [(attrClientGroup, AStr gid)]) s1)
              else if ch_Blocked res
              then (None, respond (BuildBlockedResponse L (the_req s) (block_config e gid))
                     (rule_attrs ''block'' res @ [(attrClientGroup, AStr gid)]) s1)
              else if ch_Action res = ''allow'' then next (set_all (rule_attrs ''allow'' res) s1)
              else next s1))))"

definition isLocallyServedSource :: "qstate \<Rightarrow> bool" where
  "isLocallyServedSource s = (case ctx_Get ''source'' s of
     Some (AStr src) \<Rightarrow> src \<in> set [''hosts'', ''rewrite'', ''sudn'', ''sudn_ddr'', ''locally_served_zone''] | _ \<Rightarrow> False)"

definition drop_cached :: "string \<Rightarrow> qstate \<Rightarrow> qstate" where
  "drop_cached gid s = s\<lparr>w_cache := map_option (\<lambda>c. snd (RemoveForGroup c (the_req s) gid)) (w_cache s)\<rparr>"

definition filter_response_work :: "dns_lib \<Rightarrow> rule_env \<Rightarrow> groupEntry list option \<Rightarrow> bool \<Rightarrow> qstate \<Rightarrow> qstate" where
  "filter_response_work L V groups enabled s =
     (case (w_engine s, dx_Resp s) of
        (Some e, Some resp) \<Rightarrow>
          if \<not> enabled \<or> \<not> engine_IsEnabled e (w_now s) \<or> \<not> has_question s \<or> attr_is_true ''filter_blocked'' s \<or>
             isLocallyServedSource s \<or> m_Rcode resp \<noteq> RcodeSuccess then s
          else (let q = the_q s; qname = trim_suffix (to_lower (trim_space (q_Name q))) ''.''; gid = group_of groups s;
                    res = MatchResponse V resp qname (q_Qtype q) gid (w_now s) e in
            if \<not> ch_Blocked res then s
            else drop_cached gid (respond (BuildBlockedResponse L (the_req s) (block_config e gid))
                   (rule_attrs ''block'' res @ [(attrClientGroup, AStr gid), (''response_filtered'', ABool True)]) s))
      | _ \<Rightarrow> s)"

definition NewFilterResponseMiddleware :: "dns_lib \<Rightarrow> rule_env \<Rightarrow> groupEntry list option \<Rightarrow> bool \<Rightarrow> middleware" where
  "NewFilterResponseMiddleware L V groups enabled next s =
     (let (err, s1) = next s in (err, filter_response_work L V groups enabled s1))"

section \<open>Reputation\<close>

definition isConnectableQType :: "u16 \<Rightarrow> bool" where
  "isConnectableQType t = (t \<in> set [TypeA, TypeAAAA, TypeHTTPS, TypeSVCB])"

text \<open>\<open>zero_config\<close> is the zero value \<open>core.FilterConfig{}\<close>, used when there is no rule engine.\<close>

definition zero_config :: FilterConfig where
  "zero_config = \<lparr>fc_Enabled = False, fc_BlockMode = [], fc_BlockingIPv4 = [], fc_BlockingIPv6 = [], fc_CustomRules = None,
     fc_Lists = None, fc_UpdateIntervalHours = 0, fc_DataDir = [], fc_ScheduleEnabled = False, fc_Schedules = None,
     fc_FilterResponse = False, fc_AllowlistOnly = False, fc_BogusNXDomain = False, fc_BogusNXDomainNetworks = [],
     fc_BlockedServices = [], fc_BlockedServiceGroups = [], fc_ServiceSchedules = []\<rparr>"

definition NewSafeBrowsingMiddleware :: "dns_lib \<Rightarrow> sb_kernel \<Rightarrow> (time \<Rightarrow> u16) \<Rightarrow> exchange \<Rightarrow> middleware" where
  "NewSafeBrowsingMiddleware L K mid X next s =
     (case w_safe s of None \<Rightarrow> next s
      | Some e0 \<Rightarrow>
         (if \<not> sb_IsEnabled e0 \<or> \<not> has_question s then next s
          else (let q = the_q s; domain = trim_suffix (to_lower (trim_space (q_Name q))) ''.'' in
            if \<not> isConnectableQType (q_Qtype q) \<or> domain = [] then next s
            else (let (v, e, t, out) = sb_Check K mid X (dx_Context s) domain e0 (w_now s);
                      s1 = s\<lparr>w_safe := Some e, w_now := t, w_sent := w_sent s @ map Reputation out\<rparr> in
              if sv_Failed v
              then next (set_all [(''safebrowsing_failed'', ABool True), (''safebrowsing_service'', AStr (sv_Service v))] s1)
              else if \<not> sv_Blocked v then next s1
              else (None, respond (BuildBlockedResponse L (the_req s) (case w_engine s of None \<Rightarrow> zero_config | Some r \<Rightarrow> engine_GetConfig r))
                     [(''source'', AStr ''safebrowsing''), (''cache_hit'', AStr ''safebrowsing''), (''filter_action'', AStr ''block''),
                      (''filter_blocked'', ABool True), (''filter_rule'', AStr domain), (''filter_reason'', AStr (sv_Service v)),
                      (''filter_list'', AStr (sv_Service v))] s1)))))"

section \<open>Rebinding protection\<close>

record RebindConfig =
  rbc_Enabled :: bool
  rbc_AllowedDomains :: "string list"

record RebindProtectionManager =
  rb_enabled :: bool
  rb_allowedDomains :: "string list"

definition clean_allowed :: "string \<Rightarrow> string" where
  "clean_allowed d = trim_dots (trim_prefix (to_lower (trim_space d)) ''*'')"

definition SetAllowedDomains :: "string list \<Rightarrow> RebindProtectionManager \<Rightarrow> RebindProtectionManager" where
  "SetAllowedDomains ds m = m\<lparr>rb_allowedDomains := filter (\<lambda>d. d \<noteq> []) (map clean_allowed ds)\<rparr>"

definition NewRebindProtectionManager :: "RebindConfig \<Rightarrow> RebindProtectionManager" where
  "NewRebindProtectionManager cfg = SetAllowedDomains (rbc_AllowedDomains cfg) \<lparr>rb_enabled = rbc_Enabled cfg, rb_allowedDomains = []\<rparr>"

definition rebind_UpdateConfig :: "RebindConfig \<Rightarrow> RebindProtectionManager \<Rightarrow> RebindProtectionManager" where
  "rebind_UpdateConfig cfg m = SetAllowedDomains (rbc_AllowedDomains cfg) (m\<lparr>rb_enabled := rbc_Enabled cfg\<rparr>)"

definition IsDomainAllowed :: "RebindProtectionManager \<Rightarrow> string \<Rightarrow> bool" where
  "IsDomainAllowed m domain = list_ex (under_name (to_lower (trim_dots domain))) (rb_allowedDomains m)"

definition internal_ip :: "ip \<Rightarrow> bool" where
  "internal_ip a = (IsPrivate a \<or> IsLoopback a \<or> IsLinkLocalUnicast a \<or> IsUnspecified a)"

definition nat64_prefix :: "u8 list" where
  "nat64_prefix = [0, 0x64, 0xFF, 0x9B, 0, 0, 0, 0, 0, 0, 0, 0]"

definition IsBlockedIP :: "ip \<Rightarrow> bool" where
  "IsBlockedIP a =
     (if a = [] then False
      else if internal_ip a then True
      else length a = 16 \<and> take 12 a = nat64_prefix \<and> internal_ip (IPv4 (a ! 12) (a ! 13) (a ! 14) (a ! 15)))"

fun hint_ips :: "svcb_kv \<Rightarrow> ip list" where
  "hint_ips (SVCBIPv4Hint as) = as"
| "hint_ips (SVCBIPv6Hint as) = as"
| "hint_ips _ = []"

definition findBlockedHintIP :: "svcb_kv list \<Rightarrow> ip option" where
  "findBlockedHintIP values = find IsBlockedIP (concat (map hint_ips values))"

fun rr_blocked_ip :: "rdata \<Rightarrow> ip option" where
  "rr_blocked_ip (RD_A a) = (if IsBlockedIP a then Some a else None)"
| "rr_blocked_ip (RD_AAAA a) = (if IsBlockedIP a then Some a else None)"
| "rr_blocked_ip (RD_HTTPS p t vs) = findBlockedHintIP vs"
| "rr_blocked_ip (RD_SVCB p t vs) = findBlockedHintIP vs"
| "rr_blocked_ip _ = None"

fun first_blocked_ip :: "rr list \<Rightarrow> ip option" where
  "first_blocked_ip [] = None"
| "first_blocked_ip (r # rs) = (case rr_blocked_ip (rr_Data r) of Some a \<Rightarrow> Some a | None \<Rightarrow> first_blocked_ip rs)"

definition FindBlockedIPInMsg :: "msg \<Rightarrow> ip option" where
  "FindBlockedIPInMsg m = first_blocked_ip (m_Answer m @ m_Extra m @ m_Ns m)"

definition cachedGroup :: "qstate \<Rightarrow> string" where
  "cachedGroup s = (case ctx_Get attrClientGroup s of
     Some (AStr g) \<Rightarrow> if g \<noteq> [] then g else DefaultClientGroupID | _ \<Rightarrow> DefaultClientGroupID)"

definition rebind_reason :: "ip \<Rightarrow> string" where
  "rebind_reason a = ''DNS Rebinding '' @ [CHR 0xE6, CHR 0x94, CHR 0xBB, CHR 0xE5, CHR 0x87, CHR 0xBB, CHR 0xE9, CHR 0x98, CHR 0xB2, CHR 0xE6, CHR 0x8A, CHR 0xA4] @ '': '' @ [CHR 0xE5, CHR 0xA4, CHR 0x96, CHR 0xE9, CHR 0x83, CHR 0xA8, CHR 0xE5, CHR 0x9F, CHR 0x9F, CHR 0xE5, CHR 0x90, CHR 0x8D, CHR 0xE8, CHR 0xA7, CHR 0xA3, CHR 0xE6, CHR 0x9E, CHR 0x90, CHR 0xE4, CHR 0xB8, CHR 0xBA, CHR 0xE9, CHR 0x9D, CHR 0x9E, CHR 0xE5, CHR 0x8F, CHR 0x97, CHR 0xE4, CHR 0xBF, CHR 0xA1, CHR 0xE5, CHR 0x86, CHR 0x85, CHR 0xE7, CHR 0xBD, CHR 0x91] @ '' IP ('' @ ip_String a @ '')''"

definition rebind_work :: "dns_lib \<Rightarrow> RebindProtectionManager option \<Rightarrow> qstate \<Rightarrow> qstate" where
  "rebind_work L mgr s =
     (case (mgr, dx_Resp s) of
        (Some m, Some resp) \<Rightarrow>
          if \<not> rb_enabled m \<or> \<not> has_question s \<or> attr_is_true ''filter_blocked'' s then s
          else (case FindBlockedIPInMsg resp of None \<Rightarrow> s
            | Some a \<Rightarrow>
               if IsDomainAllowed m (trim_dots (q_Name (the_q s))) then s
               else (let s1 = set_all [(''rebinding_blocked'', ABool True), (''filter_action'', AStr ''block''),
                              (''filter_blocked'', ABool True), (''filter_reason'', AStr (rebind_reason a))] s;
                         s2 = drop_cached (cachedGroup s1) s1
                     in s2\<lparr>dx_Resp := Some ((SetRcode L (the_req s2) RcodeSuccess)\<lparr>m_Authoritative := True, m_RecursionAvailable := True\<rparr>)\<rparr>))
      | _ \<Rightarrow> s)"

definition NewRebindMiddleware :: "dns_lib \<Rightarrow> RebindProtectionManager option \<Rightarrow> middleware" where
  "NewRebindMiddleware L mgr next s = (let (err, s1) = next s in (err, rebind_work L mgr s1))"

section \<open>Bogus answers\<close>

definition bogus_reason :: "string \<Rightarrow> ip \<Rightarrow> string" where
  "bogus_reason name a = [CHR 0xE4, CHR 0xBC, CHR 0xAA, CHR 0xE5, CHR 0xBA, CHR 0x94, CHR 0xE7, CHR 0xAD, CHR 0x94, CHR 0xE7, CHR 0xBA, CHR 0xA0, CHR 0xE6, CHR 0xAD, CHR 0xA3] @ '': '' @ name @ '' '' @ [CHR 0xE8, CHR 0xA7, CHR 0xA3, CHR 0xE6, CHR 0x9E, CHR 0x90, CHR 0xE4, CHR 0xB8, CHR 0xBA] @ '' '' @ ip_String a @ [CHR 0xEF, CHR 0xBC, CHR 0x8C, CHR 0xE5, CHR 0x88, CHR 0xA4, CHR 0xE5, CHR 0xAE, CHR 0x9A, CHR 0xE4, CHR 0xB8, CHR 0xBA, CHR 0xE4, CHR 0xB8, CHR 0x8A, CHR 0xE6, CHR 0xB8, CHR 0xB8, CHR 0xE5, CHR 0x8A, CHR 0xAB, CHR 0xE6, CHR 0x8C, CHR 0x81]"

definition bogus_work :: "dns_lib \<Rightarrow> qstate \<Rightarrow> qstate" where
  "bogus_work L s =
     (case (w_engine s, dx_Resp s) of
        (Some e, Some resp) \<Rightarrow>
          (case engine_BogusNXDomainMatcher e of None \<Rightarrow> s
           | Some m \<Rightarrow>
              if \<not> has_question s \<or> bogus_Size m = 0 \<or> attr_is_true ''filter_blocked'' s \<or> m_Rcode resp \<noteq> RcodeSuccess then s
              else (let (hit, m') = FindInMsg m resp; s1 = s\<lparr>w_engine := Some (e\<lparr>re_bogusMatcher := Some m'\<rparr>)\<rparr> in
                case hit of None \<Rightarrow> s1
                | Some a \<Rightarrow> respond ((SetRcode L (the_req s) RcodeNameError)\<lparr>m_Authoritative := True, m_RecursionAvailable := True\<rparr>)
                    [(''bogus_nxdomain'', ABool True), (''filter_action'', AStr ''block''), (''filter_blocked'', ABool True),
                     (''filter_reason'', AStr (bogus_reason (q_Name (the_q s)) a)), (''filter_list'', AStr ''bogus-nxdomain'')] s1))
      | _ \<Rightarrow> s)"

definition NewBogusNXDomainMiddleware :: "dns_lib \<Rightarrow> middleware" where
  "NewBogusNXDomainMiddleware L next s = (let (err, s1) = next s in (err, bogus_work L s1))"

section \<open>What the guards do to a query\<close>

text \<open>The filter and the reputation check are gates; the others work on what comes back.\<close>

lemma filter_gate: "is_gate (NewFilterMiddlewareWithGroups L V groups)"
  unfolding is_gate_def
proof (intro allI)
  fix "next" s
  show "NewFilterMiddlewareWithGroups L V groups next s =
    (if decides_by (NewFilterMiddlewareWithGroups L V groups) s then (None, outcome_of (NewFilterMiddlewareWithGroups L V groups) s)
     else next (outcome_of (NewFilterMiddlewareWithGroups L V groups) s))"
  proof (cases "w_engine s")
    case None
    then show ?thesis by (simp add: probe_defs NewFilterMiddlewareWithGroups_def)
  next
    case (Some e0)
    obtain res e where "MatchForGroup V (trim_suffix (to_lower (trim_space (q_Name (the_q s)))) ''.'') (q_Qtype (the_q s)) (group_of groups s) (w_now s) e0 = (res, e)"
      by fastforce
    then show ?thesis using Some by (simp add: probe_defs NewFilterMiddlewareWithGroups_def Let_def)
  qed
qed

interpretation filter_rules: gate "NewFilterMiddlewareWithGroups L V groups" "decides_by (NewFilterMiddlewareWithGroups L V groups)"
  "outcome_of (NewFilterMiddlewareWithGroups L V groups)" "outcome_of (NewFilterMiddlewareWithGroups L V groups)" for L V groups
  by (rule gate_probe [OF filter_gate])

lemma safe_gate: "is_gate (NewSafeBrowsingMiddleware L K mid X)"
  by (simp add: probe_defs NewSafeBrowsingMiddleware_def Let_def split: prod.splits option.splits)

interpretation reputation: gate "NewSafeBrowsingMiddleware L K mid X" "decides_by (NewSafeBrowsingMiddleware L K mid X)"
  "outcome_of (NewSafeBrowsingMiddleware L K mid X)" "outcome_of (NewSafeBrowsingMiddleware L K mid X)" for L K mid X
  by (rule gate_probe [OF safe_gate])

definition metrics_work :: "qstate \<Rightarrow> string option \<times> qstate \<Rightarrow> string option \<times> qstate" where
  "metrics_work s = (\<lambda>(err, s1). (err, s1\<lparr>w_reported := w_reported s1 @ [(dns_context.truncate s1, w_now s1 - w_now s, err)]\<rparr>))"

interpretation metrics: after NewMetricsMiddleware metrics_work
  by unfold_locales (simp add: NewMetricsMiddleware_def metrics_work_def Let_def)

text \<open>A handler that always works on what came back is determined by its behaviour behind a constant rest.\<close>

definition work_of :: "middleware \<Rightarrow> qstate \<Rightarrow> string option \<times> qstate \<Rightarrow> string option \<times> qstate" where
  "work_of m s r = m (\<lambda>_. r) s"

interpretation ede: after "NewEDEMiddleware enabled" "work_of (NewEDEMiddleware enabled)" for enabled
  by unfold_locales (simp add: NewEDEMiddleware_def work_of_def)

interpretation ech: after "NewECHMiddleware enabled" "work_of (NewECHMiddleware enabled)" for enabled
  by unfold_locales (simp add: NewECHMiddleware_def work_of_def)

interpretation rebind: after "NewRebindMiddleware L mgr" "work_of (NewRebindMiddleware L mgr)" for L mgr
  by unfold_locales (simp add: NewRebindMiddleware_def work_of_def)

interpretation filter_answer: after "NewFilterResponseMiddleware L V groups enabled" "work_of (NewFilterResponseMiddleware L V groups enabled)" for L V groups enabled
  by unfold_locales (simp add: NewFilterResponseMiddleware_def work_of_def)

interpretation bogus: after "NewBogusNXDomainMiddleware L" "work_of (NewBogusNXDomainMiddleware L)" for L
  by unfold_locales (simp add: NewBogusNXDomainMiddleware_def work_of_def)

lemma filter_query:
  "dx_Req (outcome_of (NewFilterMiddlewareWithGroups L V groups) s) = dx_Req s"
  "quiet s (outcome_of (NewFilterMiddlewareWithGroups L V groups) s)"
  by (simp_all add: outcome_defs NewFilterMiddlewareWithGroups_def Let_def split: prod.splits option.splits)

lemma blocked_reply_id [simp]: "dns_lib_ok L \<Longrightarrow> m_Id (BuildBlockedResponse L req cfg) = m_Id req"
  "dns_lib_ok L \<Longrightarrow> m_Id (buildRewriteResponse L req res) = m_Id req"
  by (simp_all add: BuildBlockedResponse_def buildRewriteResponse_def Let_def reply_ids)

lemma filter_id: "dns_lib_ok L \<Longrightarrow> keeps_id (NewFilterMiddlewareWithGroups L V groups)"
  by (simp add: outcome_defs NewFilterMiddlewareWithGroups_def Let_def split: prod.splits option.splits)

lemma filter_replied:
  assumes "dns_lib_ok L"
  shows "carries asked replied (NewFilterMiddlewareWithGroups L V groups)"
  by (rule filter_rules.gate_carries)
    (use filter_id [OF assms] filter_query(1) in \<open>auto simp: keeps_id_def asked_def replied_def\<close>)

lemma SetEDE_id [simp]: "m_Id (SetEDE code text m) = m_Id m" "m_Rcode (SetEDE code text m) = m_Rcode m"
  "m_Answer (SetEDE code text m) = m_Answer m" "m_Question (SetEDE code text m) = m_Question m"
  by (simp_all add: SetEDE_def SetEdns0Option_def ensure_opt_def set_options_def Let_def split: option.splits)

text \<open>Both relations survive a change of what the guards may touch.\<close>

lemma replied_world [simp]:
  "replied s (t\<lparr>w_reported := x1\<rparr>) = replied s t" "replied s (t\<lparr>w_cache := x2\<rparr>) = replied s t"
  "replied s (t\<lparr>w_engine := x3\<rparr>) = replied s t" "replied s (t\<lparr>w_now := x4\<rparr>) = replied s t"
  "replied s (t\<lparr>w_sent := x5\<rparr>) = replied s t" "replied s (t\<lparr>dx_Err := x6\<rparr>) = replied s t"
  "replied s (t\<lparr>w_tasks := x7\<rparr>) = replied s t" "replied s (set_all kvs t) = replied s t"
  by (simp_all add: replied_def)

lemma replied_Resp: "replied s t \<Longrightarrow> m_Id m = m_Id (the_req t) \<Longrightarrow> replied s (t\<lparr>dx_Resp := Some m\<rparr>)"
  by (simp add: replied_def)

lemma replied_respond: "replied s t \<Longrightarrow> m_Id m = m_Id (the_req t) \<Longrightarrow> replied s (respond m kvs t)"
  by (simp add: respond_def replied_Resp)

lemma replied_id: "replied s t \<Longrightarrow> dx_Resp t = Some m \<Longrightarrow> m_Id m = m_Id (the_req t)"
  by (simp add: replied_def id_ok_def the_req_def)

end
