(* ===== verification/Middleware_Answer.thy ===== *)
theory Middleware_Answer
  imports Middleware_Guard
begin

text \<open>
  The middlewares that produce an answer: address synthesis for IPv6-only networks
  (\<open>core/dns64.go\<close>, \<open>dns/dns64_middleware.go\<close>), the client subnet option
  (\<open>ecs_middleware.go\<close>), the cache with coalescing and stale answers
  (\<open>cache_middleware.go\<close>), group upstreams (\<open>upstream_route_middleware.go\<close>) and
  forwarding (\<open>forwarder.go\<close>); and the order in which \<open>buildPipeline\<close>
  (\<open>cmd/service/controller_pipeline.go\<close>) puts all of them. The upstream resolver is the
  interface \<open>Resolver\<close> the sources inject; no handler below the cache changes the request.
\<close>

section \<open>DNS64\<close>

text \<open>
  The synthesizer: its switch, and the native kernel as the two questions asked of it, which addresses
  an IPv4 address maps to and whether a list has an address outside the excluded ranges; \<open>None\<close>
  is an error of the kernel.
\<close>

record DNS64Synthesizer =
  sy_enabled :: bool
  sy_synthesize :: "ip \<Rightarrow> ip list option"
  sy_hasValid :: "ip list \<Rightarrow> bool option"

fun aaaa_of :: "rdata \<Rightarrow> ip list" where
  "aaaa_of (RD_AAAA a) = (if a = [] then [] else [a])"
| "aaaa_of _ = []"

definition HasValidAAAARecords :: "DNS64Synthesizer \<Rightarrow> msg \<Rightarrow> bool" where
  "HasValidAAAARecords sy m =
     (let addresses = concat (map (\<lambda>r. aaaa_of (rr_Data r)) (m_Answer m)) in
      if addresses = [] then False else case sy_hasValid sy addresses of None \<Rightarrow> False | Some b \<Rightarrow> b)"

definition synthesize_rr :: "DNS64Synthesizer \<Rightarrow> u32 \<Rightarrow> rr \<Rightarrow> rr list" where
  "synthesize_rr sy overrideTTL r = (case rr_Data r of
     RD_A a \<Rightarrow> if a = [] then []
       else (case sy_synthesize sy (To4 a) of None \<Rightarrow> []
         | Some addrs \<Rightarrow> map (\<lambda>b. mk_rr (h_Name (rr_Hdr r)) TypeAAAA (if overrideTTL > 0 then overrideTTL else rr_ttl r) (RD_AAAA b)) addrs)
   | _ \<Rightarrow> [])"

definition SynthesizeFromAWithTTL :: "DNS64Synthesizer \<Rightarrow> rr list \<Rightarrow> u32 \<Rightarrow> rr list" where
  "SynthesizeFromAWithTTL sy as overrideTTL =
     (if \<not> sy_enabled sy \<or> as = [] then [] else concat (map (synthesize_rr sy overrideTTL) as))"

definition is_A :: "rr \<Rightarrow> bool" where "is_A r = (case rr_Data r of RD_A _ \<Rightarrow> True | _ \<Rightarrow> False)"
definition is_CNAME :: "rr \<Rightarrow> bool" where "is_CNAME r = (case rr_Data r of RD_CNAME _ \<Rightarrow> True | _ \<Rightarrow> False)"
definition is_DNAME :: "rr \<Rightarrow> bool" where "is_DNAME r = (case rr_Data r of RD_DNAME _ \<Rightarrow> True | _ \<Rightarrow> False)"

definition chain_ttl :: "rr list \<Rightarrow> u32" where
  "chain_ttl rs =
     (let m = fold (\<lambda>r acc. if rr_ttl r < acc then rr_ttl r else acc) (filter (\<lambda>r. is_A r \<or> is_CNAME r \<or> is_DNAME r) rs) (- 1)
      in if m = - 1 then 60 else m)"

text \<open>Aliases are added once, compared by the text of a record (\<open>rrString\<close>).\<close>

fun add_missing :: "(rr \<Rightarrow> string) \<Rightarrow> rr list \<Rightarrow> rr list \<Rightarrow> rr list" where
  "add_missing rrString answer [] = answer"
| "add_missing rrString answer (r # rs) =
     (if rrString r \<in> set (map rrString answer) then add_missing rrString answer rs
      else add_missing rrString (answer @ [r]) rs)"

definition dns64_answer :: "(rr \<Rightarrow> string) \<Rightarrow> DNS64Synthesizer \<Rightarrow> msg option \<times> string option \<Rightarrow> rr list \<Rightarrow> rr list option" where
  "dns64_answer rrString sy res answer = (case res of
     (Some aResp, None) \<Rightarrow>
       if m_Rcode aResp \<noteq> RcodeSuccess \<or> m_Answer aResp = [] then None
       else (let rs = m_Answer aResp; aaaa = SynthesizeFromAWithTTL sy (filter is_A rs) (chain_ttl rs) in
         if filter is_A rs = [] \<or> aaaa = [] then None
         else Some (add_missing rrString (add_missing rrString answer (filter is_CNAME rs)) (filter is_DNAME rs) @ aaaa))
   | _ \<Rightarrow> None)"

definition NewDNS64Middleware ::
  "(rr \<Rightarrow> string) \<Rightarrow> (time \<Rightarrow> u16) \<Rightarrow> exchange \<Rightarrow> DNS64Synthesizer option \<Rightarrow> middleware" where
  "NewDNS64Middleware rrString mid X synth next s =
     (case synth of None \<Rightarrow> next s
      | Some sy \<Rightarrow>
         if \<not> sy_enabled sy \<or> \<not> has_question s then next s
         else if q_Qtype (the_q s) \<noteq> TypeAAAA then next s
         else (let (err, s1) = next s in
           if err \<noteq> None then (err, s1)
           else case dx_Resp s1 of None \<Rightarrow> (None, s1)
             | Some resp \<Rightarrow>
                if m_Rcode resp \<noteq> RcodeSuccess \<or> HasValidAAAARecords sy resp then (None, s1)
                else (let aReq = empty_msg\<lparr>m_Id := mid (w_now s1), m_RecursionDesired := True,
                              m_Question := [\<lparr>q_Name = q_Name (the_q s), q_Qtype = TypeA, q_Qclass = ClassINET\<rparr>]\<rparr>;
                          (res, d) = X (dx_Context s1) aReq (w_now s1);
                          s2 = s1\<lparr>w_now := w_now s1 + d, w_sent := w_sent s1 @ [Forwarded aReq]\<rparr> in
                  case dns64_answer rrString sy res (m_Answer resp) of None \<Rightarrow> (None, s2)
                  | Some answer \<Rightarrow>
                     (None, ctx_Set ''dns64_synthesized'' (ABool True) (s2\<lparr>dx_Resp := Some (resp\<lparr>m_Answer := answer, m_Rcode := RcodeSuccess\<rparr>)\<rparr>)))))"

section \<open>Client subnets\<close>

record ECSConfig =
  ec_Enabled :: bool
  ec_StripECS :: bool
  ec_CustomSubnet :: string

definition ecs_request :: "ECSConfig \<Rightarrow> qstate \<Rightarrow> qstate" where
  "ecs_request cfg s =
     (if ec_CustomSubnet cfg \<noteq> []
      then ctx_Set ''ecs_injected'' (AStr (ec_CustomSubnet cfg)) (s\<lparr>dx_Req := map_option (\<lambda>m. snd (SetECS (ec_CustomSubnet cfg) (StripECS m))) (dx_Req s)\<rparr>)
      else if ec_StripECS cfg then ctx_Set ''ecs_stripped'' (ABool True) (s\<lparr>dx_Req := map_option StripECS (dx_Req s)\<rparr>)
      else s)"

definition NewECSMiddleware :: "ECSConfig option \<Rightarrow> middleware" where
  "NewECSMiddleware mgr next s = (case mgr of None \<Rightarrow> next s
     | Some cfg \<Rightarrow> if dx_Req s = None \<or> \<not> ec_Enabled cfg then next s else next (ecs_request cfg s))"

section \<open>The cache\<close>

definition stale_usable :: "get_result \<Rightarrow> dns_cache \<Rightarrow> bool" where
  "stale_usable g c = (g_isStale g \<and> g_candidate g \<noteq> None \<and> IsStaleFallbackEnabled c)"

definition serve_stale :: "get_result \<Rightarrow> string \<Rightarrow> dns_cache \<Rightarrow> qstate \<Rightarrow> qstate" where
  "serve_stale g label c s =
     (let (resp, c') = BuildStaleResponse c (the_req s) (the (g_candidate g)) (w_now s)
      in ctx_Set ''cache_hit'' (AStr label) (s\<lparr>dx_Resp := Some resp, w_cache := Some c'\<rparr>))"

definition no_answer :: "string option \<Rightarrow> qstate \<Rightarrow> bool" where
  "no_answer err s = (err \<noteq> None \<or> (case dx_Resp s of None \<Rightarrow> True | Some resp \<Rightarrow> m_Rcode resp = RcodeServerFailure))"

text \<open>What a query that found no answer does: the stale entry, or the error.\<close>

definition fall_back :: "get_result \<Rightarrow> string option \<Rightarrow> (qstate \<Rightarrow> qstate) \<Rightarrow> qstate \<Rightarrow> string option \<times> qstate" where
  "fall_back g err giveup s = (case w_cache s of
     Some c \<Rightarrow> if stale_usable g c then (None, (serve_stale g ''stale_fallback'' c s)\<lparr>dx_Err := None\<rparr>) else (err, giveup s)
   | None \<Rightarrow> (err, giveup s))"

definition cache_lead :: "get_result \<Rightarrow> string \<Rightarrow> middleware" where
  "cache_lead g grp next s =
     (let (err, s1) = next s;
          s2 = (case (err, dx_Resp s1) of
                  (None, Some resp) \<Rightarrow> s1\<lparr>w_cache := map_option (\<lambda>c. snd (PutForGroup c (the_req s) resp grp (w_now s1))) (w_cache s1)\<rparr>
                | _ \<Rightarrow> s1)
      in if no_answer err s2 then fall_back g err (\<lambda>s. s) s2 else (None, s2))"

definition cache_join :: "get_result \<Rightarrow> string \<Rightarrow> msg option \<Rightarrow> string option \<Rightarrow> dns_cache \<Rightarrow> time \<Rightarrow> nxt" where
  "cache_join g grp val err c t s =
     (let req = the_req s;
          (g2, c2) = GetForGroup c req grp t t;
          s1 = s\<lparr>w_cache := Some c2, w_now := t\<rparr>
      in if g_hit g2 \<and> g_resp g2 \<noteq> None
         then (None, (ctx_Set ''cache_hit'' (AStr ''fresh'') (s1\<lparr>dx_Resp := g_resp g2\<rparr>))\<lparr>dx_Err := None\<rparr>)
         else (let s2 = s1\<lparr>dx_Resp := (case val of None \<Rightarrow> dx_Resp s1 | Some m \<Rightarrow> Some (m\<lparr>m_Id := m_Id req\<rparr>))\<rparr>
               in if no_answer err s2 then fall_back g err (\<lambda>s. s\<lparr>dx_Err := err\<rparr>) s2 else (None, s2\<lparr>dx_Err := None\<rparr>)))"

definition NewCacheMiddlewareWithGroups :: "bool \<Rightarrow> middleware" where
  "NewCacheMiddlewareWithGroups hasResolver next s =
     (case w_cache s of None \<Rightarrow> next s
      | Some c \<Rightarrow>
         if \<not> IsEnabled c \<or> \<not> has_question s then next s
         else (let q = the_q s; (excluded, c1) = cache_IsExcluded c (q_Name q) in
           if excluded then next (s\<lparr>w_cache := Some c1\<rparr>)
           else (let grp = cachedGroup s;
                     (g, c2) = GetForGroup c1 (the_req s) grp (w_now s) (w_now s);
                     s2 = s\<lparr>w_cache := Some c2\<rparr>;
                     key = CacheKeyForGroup (q_Name q) (q_Qtype q) (q_Qclass q) grp in
             if g_hit g \<and> g_resp g \<noteq> None then (None, ctx_Set ''cache_hit'' (AStr ''fresh'') (s2\<lparr>dx_Resp := g_resp g\<rparr>))
             else if stale_usable g c2 \<and> IsOptimistic c2
             then (None, (serve_stale g ''stale'' c2 s2)\<lparr>w_tasks := w_tasks s @ (if hasResolver then [(key, the_req s, grp)] else [])\<rparr>)
             else case w_flight s of Leader \<Rightarrow> cache_lead g grp next s2
               | Joined val err c' t' \<Rightarrow> cache_join g grp val err c' t' s2)))"

text \<open>The background refresh of a stale entry, when it leads its flight.\<close>

definition background :: ctx where "background = \<lparr>cx_deadline = None, cx_cancelAt = None\<rparr>"

definition refresh_task :: "exchange \<Rightarrow> string \<times> msg \<times> string \<Rightarrow> dns_cache \<Rightarrow> time \<Rightarrow> (msg option \<times> string option) \<times> dns_cache" where
  "refresh_task X task c t = (case task of (key, reqCopy, grp) \<Rightarrow>
     (let ((resp, err), d) = X background reqCopy t in
      ((resp, err), case (err, resp) of (None, Some m) \<Rightarrow> snd (PutForGroup c reqCopy m grp (t + d)) | _ \<Rightarrow> c)))"

section \<open>Upstreams\<close>

record group_resolvers =
  gu_has :: "string \<Rightarrow> bool"
  gu_exchange :: "ctx \<Rightarrow> string \<Rightarrow> msg \<Rightarrow> time \<Rightarrow> (msg option \<times> string option) \<times> duration"

definition NewUpstreamRouteMiddleware :: "group_resolvers option \<Rightarrow> groupEntry list option \<Rightarrow> middleware" where
  "NewUpstreamRouteMiddleware resolver groups next s =
     (case resolver of None \<Rightarrow> next s
      | Some r \<Rightarrow>
         if groups = None \<or> \<not> has_question s then next s
         else (let grp = cachedGroup s in
           if grp = DefaultClientGroupID \<or> \<not> gu_has r grp then next s
           else (let ((resp, err), d) = gu_exchange r (dx_Context s) grp (the_req s) (w_now s);
                     s1 = s\<lparr>w_now := w_now s + d, w_sent := w_sent s @ [GroupForwarded grp (the_req s)]\<rparr> in
             case (err, resp) of
               (None, Some m) \<Rightarrow> (None, ctx_Set ''upstream_route'' (AStr grp) (s1\<lparr>dx_Resp := Some (m\<lparr>m_Id := m_Id (the_req s)\<rparr>)\<rparr>))
             | _ \<Rightarrow> next s1)))"

definition NewForwardMiddleware :: "dns_lib \<Rightarrow> exchange \<Rightarrow> middleware" where
  "NewForwardMiddleware L X next s =
     (case dx_Req s of None \<Rightarrow> (let e = ''empty request in DNSContext'' in (Some e, s\<lparr>dx_Err := Some e\<rparr>))
      | Some req \<Rightarrow>
         (let ((resp, err), d) = X (dx_Context s) req (w_now s);
              s1 = s\<lparr>w_now := w_now s + d, w_sent := w_sent s @ [Forwarded req]\<rparr> in
          case err of
            Some e \<Rightarrow>
              (Some e, snd (next (s1\<lparr>dx_Err := Some e,
                 dx_Resp := Some ((SetRcode L req RcodeServerFailure)\<lparr>m_RecursionAvailable := True\<rparr>)\<rparr>)))
          | None \<Rightarrow> next (s1\<lparr>dx_Resp := resp\<rparr>)))"

section \<open>The whole pipeline\<close>

text \<open>What the service holds when a query runs; a callback that reads a setting is its value.\<close>

record program =
  pg_lib :: dns_lib
  pg_setEdns0 :: "rr \<Rightarrow> msg \<Rightarrow> msg"
  pg_rrString :: "rr \<Rightarrow> string"
  pg_newId :: "time \<Rightarrow> u16"
  pg_visit :: "string list \<Rightarrow> string list"
  pg_lookupers :: "(ip \<Rightarrow> string) list"
  pg_groups :: "groupEntry list option"
  pg_access :: "AccessControl option"
  pg_limiter :: "RateLimiter option"
  pg_EnableEDE :: bool
  pg_BlockECH :: bool
  pg_DDREnabled :: bool
  pg_ddr :: DDRAnswer
  pg_zone :: "ZoneEngine option"
  pg_hosts :: "HostsResolver option"
  pg_rewrite :: "RewriteEngine option"
  pg_parseArpa :: "string \<Rightarrow> ip"
  pg_safeSearch :: "SafeSearchEngine option"
  pg_BlockIPv6 :: bool
  pg_BlockPrivatePTR :: bool
  pg_BlockUnqualified :: bool
  pg_BlockANY :: bool
  pg_BlockANYMode :: string
  pg_rules :: rule_env
  pg_sbKernel :: sb_kernel
  pg_rebind :: "RebindProtectionManager option"
  pg_FilterResponse :: bool
  pg_dns64 :: "DNS64Synthesizer option"
  pg_ecs :: "ECSConfig option"
  pg_exchange :: exchange
  pg_groupUpstreams :: "group_resolvers option"

text \<open>The middlewares in front of the cache that only look at the request, then the rest.\<close>

definition front :: "program \<Rightarrow> middleware list" where
  "front P =
     [NewMetricsMiddleware, NewEDEMiddleware (pg_EnableEDE P), NewECHMiddleware (pg_BlockECH P),
      NewClientMiddlewareWithGroups (pg_visit P) (pg_lookupers P) (pg_groups P)]"

definition local_part :: "program \<Rightarrow> middleware list" where
  "local_part P =
     [NewZoneMiddleware (pg_lib P) (pg_zone P), NewHostsMiddleware (pg_lib P) (pg_hosts P),
      NewRewriteMiddleware (pg_lib P) (pg_parseArpa P) (pg_rewrite P), NewSafeSearchMiddleware (pg_lib P) (pg_safeSearch P),
      NewIPv6Middleware (pg_lib P) (pg_BlockIPv6 P), NewPrivatePTRMiddleware (pg_lib P) (pg_visit P) (pg_lookupers P) (pg_BlockPrivatePTR P),
      NewDynamicUnqualifiedMiddleware (pg_lib P) (pg_BlockUnqualified P), NewANYMiddleware (pg_lib P) (pg_BlockANY P) (pg_BlockANYMode P),
      NewFilterMiddlewareWithGroups (pg_lib P) (pg_rules P) (pg_groups P)]"

definition answer_part :: "program \<Rightarrow> middleware list" where
  "answer_part P =
     [NewDNS64Middleware (pg_rrString P) (pg_newId P) (pg_exchange P) (pg_dns64 P), NewECSMiddleware (pg_ecs P),
      NewCacheMiddlewareWithGroups True, NewBogusNXDomainMiddleware (pg_lib P),
      NewUpstreamRouteMiddleware (pg_groupUpstreams P) (pg_groups P), NewForwardMiddleware (pg_lib P) (pg_exchange P)]"

definition buildPipeline :: "program \<Rightarrow> middleware list" where
  "buildPipeline P = NewPipeline
     (front P @
      [NewAccessMiddleware (pg_lib P) (pg_access P), NewRateLimitMiddleware (pg_lib P) (pg_limiter P),
       NewDDRMiddleware (pg_lib P) (pg_setEdns0 P) (pg_DDREnabled P) (pg_ddr P), NewSUDNMiddleware (pg_lib P)] @
      local_part P @
      [NewSafeBrowsingMiddleware (pg_lib P) (pg_sbKernel P) (pg_newId P) (pg_exchange P), NewRebindMiddleware (pg_lib P) (pg_rebind P),
       NewFilterResponseMiddleware (pg_lib P) (pg_rules P) (pg_groups P) (pg_FilterResponse P)] @
      answer_part P)"

end
