(* ===== verification/Rule_Facts.thy ===== *)
theory Rule_Facts
  imports Rule_Engine
begin

text \<open>
  What the rule engine decides: exactly which queries it blocks, that its index always reflects the
  configuration and the cached subscriptions, which names of an answer it checks, and what it does
  with an update that empties a list.
\<close>

section \<open>The decision\<close>

lemma buildHostResult_cases:
  "IsRewrite (buildHostResult V d rules n t) \<longrightarrow> \<not> ch_Blocked (buildHostResult V d rules n t)"
  "ch_Blocked (buildHostResult V d rules n t) \<longrightarrow> ch_Action (buildHostResult V d rules n t) = ''block''"
  "\<not> ch_Blocked (buildHostResult V d rules n t) \<and> ch_Action (buildHostResult V d rules n t) \<noteq> ''allow'' \<and>
     \<not> IsRewrite (buildHostResult V d rules n t) \<longleftrightarrow> ch_Action (buildHostResult V d rules n t) = ''pass''"
  by (auto simp: buildHostResult_def Let_def IsRewrite_def rewriteHit_def split: filter_action.splits option.splits prod.splits)

lemma pass_result_simps [simp]:
  "ch_Blocked (pass_result r) = False" "ch_Action (pass_result r) = ''pass''" "\<not> IsRewrite (pass_result r)"
  "ch_ListName (pass_result r) = []" "ch_Reason (pass_result r) = r"
  by (simp_all add: pass_result_def IsRewrite_def)

lemma matcher_Match_cases:
  "IsRewrite (matcher_Match V m n t) \<longrightarrow> \<not> ch_Blocked (matcher_Match V m n t)"
  "ch_Blocked (matcher_Match V m n t) \<longrightarrow> ch_Action (matcher_Match V m n t) = ''block''"
  "\<not> ch_Blocked (matcher_Match V m n t) \<and> ch_Action (matcher_Match V m n t) \<noteq> ''allow'' \<and> \<not> IsRewrite (matcher_Match V m n t)
     \<longleftrightarrow> ch_Action (matcher_Match V m n t) = ''pass''"
  using buildHostResult_cases by (auto simp: matcher_Match_def Let_def split: option.splits sum.splits)

lemma service_schedule_other: "serviceScheduleBlocksAt ss [] now"
  by (simp add: serviceScheduleBlocksAt_def ServiceIDFromSource_def serviceRuleSourcePrefix_def has_prefix_def)

lemma applyAllowlistOnly_simps:
  assumes "r = matcher_Match V m n t"
  shows "ch_Blocked (applyAllowlistOnly r) \<longleftrightarrow> ch_Blocked r \<or> ch_Action r = ''pass''"
    "IsRewrite (applyAllowlistOnly r) = IsRewrite r"
    "ch_Blocked r \<Longrightarrow> applyAllowlistOnly r = r"
    "ch_Action r = ''pass'' \<Longrightarrow> ch_ListName (applyAllowlistOnly r) = []"
  using matcher_Match_cases [of V m n t] assms
  by (auto simp: applyAllowlistOnly_def IsRewrite_def pass_result_def)


section \<open>The index\<close>

text \<open>The index is current: it is the one a rebuild from the configuration and the cache would give.\<close>

definition index_current :: "rule_env \<Rightarrow> RuleEngine \<Rightarrow> bool" where
  "index_current V e \<longleftrightarrow>
     BuildFromRules V (rs_all (fst (loadAllRulesUnlocked V e))) = Inr (re_matcher e) \<and>
     (re_groupMatchers e, re_groupBlockModes e) =
       (if cgc_Enabled (re_groupCfg e)
        then compile_groups V (fst (loadAllRulesUnlocked V e)) (cgc_Groups (re_groupCfg e)) [] [] else ([], []))"

text \<open>What loading reads of the engine.\<close>

definition load_inputs :: "RuleEngine \<Rightarrow> (string \<Rightarrow> string \<Rightarrow> string option) \<times> string \<times> string list \<times> string list \<times> string list \<times> (string \<times> bool) list" where
  "load_inputs e = (re_files e, fc_DataDir (re_cfg e), cfg_rules (re_cfg e), fc_BlockedServices (re_cfg e),
     fc_BlockedServiceGroups (re_cfg e), map (\<lambda>l. (fl_ID l, fl_Enabled l)) (cfg_lists (re_cfg e)))"

definition load_key :: "rule_env \<Rightarrow> (string \<Rightarrow> string \<Rightarrow> string option) \<Rightarrow> string \<Rightarrow> string \<times> bool \<Rightarrow> ParsedRule list" where
  "load_key V files dir = (\<lambda>(i, en). if \<not> en then [] else case files dir i of None \<Rightarrow> []
     | Some text \<Rightarrow> (case rv_parseText V text i of None \<Rightarrow> [] | Some ps \<Rightarrow> ps))"

lemma load_list_key: "fst (load_list V files dir l) = load_key V files dir (fl_ID l, fl_Enabled l)"
  by (simp add: load_list_def load_key_def split: option.splits)

lemma load_list_keeps: "fl_ID (snd (load_list V files dir l)) = fl_ID l" "fl_Enabled (snd (load_list V files dir l)) = fl_Enabled l"
  by (simp_all add: load_list_def split: option.splits)

fun rules_of :: "rule_env \<Rightarrow> (string \<Rightarrow> string \<Rightarrow> string option) \<times> string \<times> string list \<times> string list \<times> string list \<times> (string \<times> bool) list \<Rightarrow> ruleSet" where
  "rules_of V (files, dir, rules, services, groups, keys) =
     \<lparr>rs_custom = List.map_filter (\<lambda>line. rv_parseLine V line ''custom'') rules,
      rs_service = parseBlockedServiceRules V services groups, rs_lists = concat (map (load_key V files dir) keys)\<rparr>"

lemma load_rules_of: "fst (loadAllRulesUnlocked V e) = rules_of V (load_inputs e)"
  by (simp add: loadAllRulesUnlocked_def Let_def load_inputs_def load_list_key o_def)

lemma load_keeps:
  "load_inputs (snd (loadAllRulesUnlocked V e)) = load_inputs e"
  "re_groupCfg (snd (loadAllRulesUnlocked V e)) = re_groupCfg e"
  by (simp_all add: loadAllRulesUnlocked_def Let_def load_inputs_def load_list_keeps o_def split: option.splits)

lemma compile_keeps:
  "load_inputs (compileGroupMatchersUnlocked V rs e) = load_inputs e"
  "re_groupCfg (compileGroupMatchersUnlocked V rs e) = re_groupCfg e"
  "re_matcher (compileGroupMatchersUnlocked V rs e) = re_matcher e"
  "(re_groupMatchers (compileGroupMatchersUnlocked V rs e), re_groupBlockModes (compileGroupMatchersUnlocked V rs e)) =
     (if cgc_Enabled (re_groupCfg e) then compile_groups V rs (cgc_Groups (re_groupCfg e)) [] [] else ([], []))"
  by (simp_all add: compileGroupMatchersUnlocked_def Let_def load_inputs_def split: prod.splits)

lemma load_inputs_matcher [simp]: "load_inputs (e\<lparr>re_matcher := m\<rparr>) = load_inputs e"
  by (simp add: load_inputs_def)

lemma rebuild_current: "rebuildUnlocked V e = (None, e') \<Longrightarrow> index_current V e'"
proof -
  assume r: "rebuildUnlocked V e = (None, e')"
  define rs where "rs = fst (loadAllRulesUnlocked V e)"
  define e1 where "e1 = snd (loadAllRulesUnlocked V e)"
  have u: "rebuildUnlocked V e = (case BuildFromRules V (rs_all rs) of Inl err \<Rightarrow> (Some err, e1)
      | Inr m \<Rightarrow> (None, compileGroupMatchersUnlocked V rs (e1\<lparr>re_matcher := m\<rparr>)))"
    unfolding rebuildUnlocked_def rs_def e1_def case_prod_unfold Let_def by (rule refl)
  obtain m where m: "BuildFromRules V (rs_all rs) = Inr m" "e' = compileGroupMatchersUnlocked V rs (e1\<lparr>re_matcher := m\<rparr>)"
    using r unfolding u by (cases "BuildFromRules V (rs_all rs)") simp_all
  have "load_inputs e' = load_inputs e" by (simp add: m(2) compile_keeps e1_def load_keeps)
  then have l: "fst (loadAllRulesUnlocked V e') = rs" by (simp add: load_rules_of rs_def)
  have "BuildFromRules V (rs_all rs) = Inr (re_matcher e')" using m by (simp add: compile_keeps)
  moreover have "re_groupCfg e' = re_groupCfg e1" by (simp add: m(2) compile_keeps)
  ultimately show ?thesis
    using compile_keeps(4) [of V rs "e1\<lparr>re_matcher := m\<rparr>", folded m(2)] by (simp add: index_current_def l)
qed

lemma sync_keeps:
  "load_inputs (syncBogusMatcherUnlocked e) = load_inputs e" "re_matcher (syncBogusMatcherUnlocked e) = re_matcher e"
  "re_groupCfg (syncBogusMatcherUnlocked e) = re_groupCfg e" "re_groupMatchers (syncBogusMatcherUnlocked e) = re_groupMatchers e"
  "re_groupBlockModes (syncBogusMatcherUnlocked e) = re_groupBlockModes e"
  by (simp_all add: syncBogusMatcherUnlocked_def load_inputs_def split: prod.splits)

lemma index_current_cong:
  assumes "index_current V e" "load_inputs e' = load_inputs e" "re_matcher e' = re_matcher e" "re_groupCfg e' = re_groupCfg e"
    "re_groupMatchers e' = re_groupMatchers e" "re_groupBlockModes e' = re_groupBlockModes e"
  shows "index_current V e'"
  using assms by (simp add: index_current_def load_rules_of)

lemma equalFilterLists_inputs:
  "equalFilterLists a b \<Longrightarrow> map (\<lambda>l. (fl_ID l, fl_Enabled l)) a = map (\<lambda>l. (fl_ID l, fl_Enabled l)) b"
proof -
  assume "equalFilterLists a b"
  then have "map ((\<lambda>(i, u, en, n). (i, en)) \<circ> list_key) a = map ((\<lambda>(i, u, en, n). (i, en)) \<circ> list_key) b"
    unfolding equalFilterLists_def map_map [symmetric] by simp
  then show ?thesis by (simp add: list_key_def o_def)
qed

text \<open>
  A configuration update that reports no error leaves the index current: when it skips the
  rebuild because rules, services and subscriptions are unchanged, the index it keeps is the one
  a rebuild would give, for every client group too. (The cache directory must stay the same: the
  code does not compare it.)
\<close>

theorem UpdateConfig_index_current:
  assumes "index_current V e" "engine_UpdateConfig V freshId cfg e = (None, e')"
    and "fc_DataDir (merge_config V freshId (re_cfg e) cfg) = fc_DataDir (re_cfg e)"
  shows "index_current V e'"
proof -
  define c where "c = merge_config V freshId (re_cfg e) cfg"
  define e1 where "e1 = syncBogusMatcherUnlocked (e\<lparr>re_cfg := c\<rparr>)"
  define same where "same \<longleftrightarrow> rm_total (re_matcher e) > 0 \<and> cfg_rules (re_cfg e) = cfg_rules c \<and>
      fc_BlockedServices (re_cfg e) = fc_BlockedServices c \<and> fc_BlockedServiceGroups (re_cfg e) = fc_BlockedServiceGroups c \<and>
      equalFilterLists (cfg_lists (re_cfg e)) (cfg_lists c)"
  have u: "engine_UpdateConfig V freshId cfg e = (if same then (None, e1) else rebuildUnlocked V e1)"
    unfolding engine_UpdateConfig_def Let_def c_def e1_def same_def by (rule refl)
  show ?thesis
  proof (cases same)
    case True
    then have "e' = e1" using assms(2) by (simp add: u)
    moreover have "load_inputs e1 = load_inputs (e\<lparr>re_cfg := c\<rparr>)" by (simp add: e1_def sync_keeps)
    moreover have "load_inputs (e\<lparr>re_cfg := c\<rparr>) = load_inputs e"
      using True assms(3) equalFilterLists_inputs [of "cfg_lists (re_cfg e)" "cfg_lists c"]
      by (simp add: load_inputs_def c_def [symmetric] same_def)
    ultimately show ?thesis using index_current_cong [OF assms(1)] by (simp add: e1_def sync_keeps)
  next
    case False
    then have "rebuildUnlocked V e1 = (None, e')" using assms(2) by (simp add: u)
    then show ?thesis by (rule rebuild_current)
  qed
qed

definition sample_env :: rule_env where
  "sample_env = \<lparr>rv_parseLine = (\<lambda>line src. Some \<lparr>pr_Raw = line, pr_Pattern = line, pr_IsAllow = False, pr_Important = False,
       pr_IsRegex = False, pr_DNSType = 0, pr_IsWildcard = False, pr_IsExact = False, pr_Source = src, pr_DenyAllow = [],
       pr_To = [], pr_Rewrite = None\<rparr>),
     rv_parseText = (\<lambda>text i. None),
     rv_build = (\<lambda>rules. Inr (\<lambda>d t. case find (\<lambda>i. pr_Pattern (rules ! i) = d) [0..<length rules] of
        Some i \<Rightarrow> Inr \<lparr>fd_action = ActBlock, fd_reason = ''rule'', fd_ruleIndex = int i, fd_rewrite = None\<rparr>
      | None \<Rightarrow> Inr \<lparr>fd_action = ActPass, fd_reason = [], fd_ruleIndex = -1, fd_rewrite = None\<rparr>)),
     rv_buildRR = (\<lambda>n t tv ttl. None), rv_typeName = (\<lambda>t. []), rv_rrText = (\<lambda>r. []),
     rv_catalog = Some \<lparr>sc_Groups = [], sc_Services = [\<lparr>se_ID = ''video'', se_Name = [], se_Group = [], se_Rules = [''video.example'']\<rparr>]\<rparr>,
     rv_dataDir = ''d'', rv_checksum = (\<lambda>t. []), rv_local = (\<lambda>t. \<lparr>ck_Weekday = 1, ck_Hour = 12, ck_Minute = 0\<rparr>)\<rparr>"

definition sample_filter :: FilterConfig where
  "sample_filter = \<lparr>fc_Enabled = True, fc_BlockMode = [], fc_BlockingIPv4 = [], fc_BlockingIPv6 = [],
     fc_CustomRules = Some [''ads.example''], fc_Lists = Some [], fc_UpdateIntervalHours = 24, fc_DataDir = ''d'',
     fc_ScheduleEnabled = False, fc_Schedules = Some [], fc_FilterResponse = False, fc_AllowlistOnly = False,
     fc_BogusNXDomain = False, fc_BogusNXDomainNetworks = [], fc_BlockedServices = [''video''], fc_BlockedServiceGroups = [],
     fc_ServiceSchedules = [(''video'', [\<lparr>bs_ID = ''s'', bs_Name = ''s'', bs_Enabled = True, bs_Weekdays = [],
        bs_Start = ''20:00'', bs_End = ''21:00'', bs_startMin = 1200, bs_endMin = 1260, bs_weekdayMask = 127\<rparr>])]\<rparr>"

definition sample_base :: RuleEngine where
  "sample_base = \<lparr>re_cfg = sample_filter, re_matcher = NewRuleMatcher, re_totalQueries = 0, re_blockedQueries = 0,
     re_allowedQueries = 0, re_groupCfg = \<lparr>cgc_Enabled = False, cgc_Groups = []\<rparr>, re_groupMatchers = [],
     re_groupBlockModes = [], re_bogusMatcher = None, re_pausedUntil = None, re_files = (\<lambda>d i. None)\<rparr>"

definition sample_engine :: RuleEngine where "sample_engine = snd (rebuildUnlocked sample_env sample_base)"

lemma rebuild_ok: "(\<And>rs. \<exists>ix. rv_build V rs = Inr ix) \<Longrightarrow> rebuildUnlocked V e = (None, snd (rebuildUnlocked V e))"
proof -
  assume b: "\<And>rs. \<exists>ix. rv_build V rs = Inr ix"
  obtain ix where "rv_build V (rs_all (fst (loadAllRulesUnlocked V e))) = Inr ix" using b by blast
  then show ?thesis by (simp add: rebuildUnlocked_def case_prod_unfold Let_def BuildFromRules_def)
qed

lemma sample_build: "\<exists>ix. rv_build sample_env rs = Inr ix" by (simp add: sample_env_def)

theorem UpdateConfig_index_current_witness:
  "index_current sample_env (snd (engine_UpdateConfig sample_env ''x'' sample_filter sample_engine))"
proof (rule UpdateConfig_index_current)
  show "index_current sample_env sample_engine"
    unfolding sample_engine_def by (rule rebuild_current [OF rebuild_ok [OF sample_build]])
  have "engine_UpdateConfig sample_env ''x'' sample_filter sample_engine = (fst (engine_UpdateConfig sample_env ''x'' sample_filter sample_engine),
      snd (engine_UpdateConfig sample_env ''x'' sample_filter sample_engine))" by simp
  moreover have "fst (engine_UpdateConfig sample_env ''x'' sample_filter sample_engine) = None"
    using rebuild_ok [OF sample_build] by (simp add: engine_UpdateConfig_def Let_def) (metis fst_conv)
  ultimately show "engine_UpdateConfig sample_env ''x'' sample_filter sample_engine = (None, snd (engine_UpdateConfig sample_env ''x'' sample_filter sample_engine))"
    by (simp add: prod_eq_iff)
  have "fc_DataDir (re_cfg sample_engine) = ''d''"
    by (simp add: sample_engine_def rebuildUnlocked_def loadAllRulesUnlocked_def sample_base_def sample_filter_def
        BuildFromRules_def sample_env_def compileGroupMatchersUnlocked_def Let_def)
  then show "fc_DataDir (merge_config sample_env ''x'' (re_cfg sample_engine) sample_filter) = fc_DataDir (re_cfg sample_engine)"
    by (simp add: merge_config_def Let_def NormalizeFilterConfig_def cloneFilterConfig_def or_default_def sample_filter_def)
qed

section \<open>Updates that empty a list\<close>

text \<open>
  An update that clears the schedules does not clear them, and one that removes the last
  subscription brings the built-in default subscription back: copying the requested configuration
  turns an empty slice into a nil one, which then counts as not given.
\<close>

theorem empty_update_ignored:
  "fc_Schedules (merge_config V freshId old (cfg\<lparr>fc_Schedules := Some []\<rparr>)) =
     Some (List.map_filter (NormalizeSchedule freshId) (cfg_schedules old)) \<and>
   fc_Lists (merge_config V freshId old (cfg\<lparr>fc_Lists := Some []\<rparr>)) = Some defaultSubscriptionLists"
  by (auto simp: merge_config_def Let_def NormalizeFilterConfig_def cloneFilterConfig_def clone_slice_def
      split: option.splits list.splits)

section \<open>Checking an answer\<close>

text \<open>The candidates of an answer in order, and the first occurrence of each.\<close>

definition candidates :: "string \<Rightarrow> rr list \<Rightarrow> string list" where
  "candidates origin rs = filter (\<lambda>n. n \<noteq> [] \<and> n \<noteq> origin) (map (\<lambda>r. normalizeCheckName (check_name_of r)) rs)"

fun keep_first :: "string list \<Rightarrow> string list \<Rightarrow> string list" where
  "keep_first seen [] = []"
| "keep_first seen (n # ns) = (if n \<in> set seen then keep_first seen ns else n # keep_first (seen @ [n]) ns)"

lemma keep_first_distinct: "distinct (keep_first seen ns) \<and> set (keep_first seen ns) = set ns - set seen"
  by (induction seen ns rule: keep_first.induct) auto

lemma check_names_spec:
  "length names < MaxResponseAliasDepth \<Longrightarrow>
   check_names origin rs names = names @ take (MaxResponseAliasDepth - length names) (keep_first names (candidates origin rs))"
proof (induction origin rs names rule: check_names.induct)
  case (1 origin names)
  then show ?case by (simp add: candidates_def)
next
  case (2 origin r rest names)
  define n where "n = normalizeCheckName (check_name_of r)"
  have c: "candidates origin (r # rest) = (if n \<noteq> [] \<and> n \<noteq> origin then [n] else []) @ candidates origin rest"
    by (simp add: candidates_def n_def)
  show ?case
  proof (cases "n = [] \<or> n = origin \<or> n \<in> set names")
    case True
    then have "check_names origin (r # rest) names = check_names origin rest names"
      using 2(2) by (auto simp: Let_def n_def [symmetric])
    moreover have "keep_first names (candidates origin (r # rest)) = keep_first names (candidates origin rest)"
      using True by (auto simp: c)
    ultimately show ?thesis using 2 True by (simp add: n_def [symmetric] Let_def)
  next
    case False
    then have k: "keep_first names (candidates origin (r # rest)) = n # keep_first (names @ [n]) (candidates origin rest)"
      by (simp add: c)
    show ?thesis
    proof (cases "Suc (length names) < MaxResponseAliasDepth")
      case True
      then have "check_names origin (r # rest) names = check_names origin rest (names @ [n])"
        using False 2(2) by (simp add: Let_def n_def [symmetric])
      moreover have "check_names origin rest (names @ [n]) =
          (names @ [n]) @ take (MaxResponseAliasDepth - length (names @ [n])) (keep_first (names @ [n]) (candidates origin rest))"
        using 2(1) [OF n_def refl] False True 2(2) by simp
      moreover have "MaxResponseAliasDepth - length names = Suc (MaxResponseAliasDepth - length (names @ [n]))"
        using True by simp
      ultimately show ?thesis by (simp add: k del: check_names.simps)
    next
      case f: False
      then have "MaxResponseAliasDepth - length names = 1" using 2(2) by simp
      then show ?thesis using False f 2(2) by (simp add: Let_def n_def [symmetric] k)
    qed
  qed
qed

lemma first_blocked_iff: "ch_Blocked (first_blocked V m t ns) \<longleftrightarrow> (\<exists>n\<in>set ns. ch_Blocked (matcher_Match V m n t))"
  by (induction ns) (auto simp: Let_def)


text \<open>
  C5. The check of an answer does not look at the schedules of built-in services: at a moment when
  the service is released, a query for its name passes, yet an answer whose alias leads to that name
  is blocked.
\<close>

definition alias_answer :: msg where
  "alias_answer = empty_msg\<lparr>m_Response := True, m_Answer := [mk_rr ''www.example.'' TypeCNAME 60 (RD_CNAME ''video.example.'')]\<rparr>"

theorem response_ignores_service_schedule:
  "\<not> ch_Blocked (fst (MatchForGroup sample_env ''video.example'' TypeA DefaultClientGroupID 0 sample_engine)) \<and>
   ch_Reason (fst (MatchForGroup sample_env ''video.example'' TypeA DefaultClientGroupID 0 sample_engine)) = ReasonServiceScheduleInactive \<and>
   ch_Blocked (MatchResponse sample_env alias_answer ''www.example'' TypeA DefaultClientGroupID 0 sample_engine)"
  by code_simp

section \<open>Pausing\<close>

lemma PauseFor_until:
  "0 < d \<Longrightarrow> re_pausedUntil (PauseFor d now e) = Some (now + min d MaxPauseDuration)"
  by (simp add: PauseFor_def min_def)

text \<open>
  A timed pause lets every query and every answer through until it ends, at the latest a year
  later, and from then on the engine decides as before.
\<close>

theorem pause_bounded:
  assumes "0 < d" "re_pausedUntil e = None"
  shows "(if t < now + min d MaxPauseDuration
      then MatchForGroup V domain qtype gid t (PauseFor d now e) = (pass_result [], PauseFor d now e) \<and>
        MatchResponse V resp domain qtype gid t (PauseFor d now e) = pass_result []
      else fst (MatchForGroup V domain qtype gid t (PauseFor d now e)) = fst (MatchForGroup V domain qtype gid t e) \<and>
        MatchResponse V resp domain qtype gid t (PauseFor d now e) = MatchResponse V resp domain qtype gid t e)"
proof -
  define p where "p = PauseFor d now e"
  have u: "re_pausedUntil p = Some (now + min d MaxPauseDuration)" using assms(1) by (simp add: p_def PauseFor_until)
  have k: "re_cfg p = re_cfg e" "re_groupCfg p = re_groupCfg e" "re_matcher p = re_matcher e" "re_groupMatchers p = re_groupMatchers e"
    using assms(1) by (simp_all add: p_def PauseFor_def)
  have a: "IsBlockingActiveAt p = IsBlockingActiveAt e" by (rule ext) (simp add: IsBlockingActiveAt_def k)
  have f: "groupByIDUnlocked p = groupByIDUnlocked e" by (rule ext) (simp add: groupByIDUnlocked_def k)
  have g: "IsBlockingActiveForGroupAt p = IsBlockingActiveForGroupAt e" "IsAllowlistOnlyForGroup p = IsAllowlistOnlyForGroup e"
    "getGroupMatcher p = getGroupMatcher e"
    by (intro ext, simp add: k a f IsBlockingActiveForGroupAt_def IsAllowlistOnlyForGroup_def getGroupMatcher_def
        cong: option.case_cong if_cong)+
  have en: "engine_IsEnabled p t = (engine_IsEnabled e t \<and> \<not> t < now + min d MaxPauseDuration)"
    using assms(2) by (simp add: engine_IsEnabled_def pauseStateUnlockedAt_def k u)
  show ?thesis
    by (simp add: p_def [symmetric] MatchForGroup_def MatchResponse_def en g k Let_def)
qed

theorem pause_bounded_witness:
  "MatchForGroup sample_env ''ads.example'' TypeA [] 5 (PauseFor 10 0 sample_base) = (pass_result [], PauseFor 10 0 sample_base)"
proof -
  have "re_pausedUntil sample_base = None" by (simp add: sample_base_def)
  from pause_bounded [OF _ this, of 10 5 0 sample_env "''ads.example''" TypeA "[]" empty_msg] show ?thesis
    by (simp add: MaxPauseDuration_def hour_def second_def)
qed

end
