(* ===== verification/Pipeline_Facts.thy ===== *)
theory Pipeline_Facts
  imports Middleware_Answer Cache_Behaviour Rule_Facts
begin

text \<open>
  Properties of the assembled pipeline, from the contracts of its handlers: who is answered
  without anything being sent, which identifier an answer carries, that no internal address gets through
  rebinding protection, and how the cache stands in front of the upstreams.
\<close>

section \<open>Handlers that work on the answer\<close>

lemma after_quiet:
  "carries Q quiet NewMetricsMiddleware" "carries Q quiet (NewEDEMiddleware en)" "carries Q quiet (NewECHMiddleware en)"
proof -
  show "carries Q quiet NewMetricsMiddleware"
    by (rule metrics.after_carries) (auto simp: metrics_work_def quiet_def split: prod.splits)
  show "carries Q quiet (NewEDEMiddleware en)"
    by (rule ede.after_carries) (auto simp: work_of_def NewEDEMiddleware_def quiet_def split: prod.splits option.splits)
  show "carries Q quiet (NewECHMiddleware en)"
    by (rule ech.after_carries) (auto simp: work_of_def NewECHMiddleware_def quiet_def Let_def split: prod.splits option.splits)
qed

lemma drop_cached_simps [simp]:
  "dx_Req (drop_cached g s) = dx_Req s" "dx_Resp (drop_cached g s) = dx_Resp s" "replied s (drop_cached g t) = replied s t"
  "the_req (drop_cached g s) = the_req s"
  by (simp_all add: drop_cached_def)

lemma rebind_replied:
  assumes "dns_lib_ok L" "replied s t"
  shows "replied s (rebind_work L mgr t)"
proof -
  have "replied s ((drop_cached g (set_all kvs t))\<lparr>dx_Resp := Some ((SetRcode L (the_req t) rc)\<lparr>m_Authoritative := True, m_RecursionAvailable := True\<rparr>)\<rparr>)" for g kvs rc
    by (rule replied_Resp) (use assms in \<open>simp_all add: reply_ids\<close>)
  then show ?thesis using assms(2) by (simp add: rebind_work_def Let_def split: option.splits)
qed

lemma filter_response_replied:
  assumes "dns_lib_ok L" "replied s t"
  shows "replied s (filter_response_work L V groups en t)"
  using assms by (simp add: filter_response_work_def Let_def replied_respond split: option.splits)

lemma bogus_replied:
  assumes "dns_lib_ok L" "replied s t"
  shows "replied s (bogus_work L t)"
  using assms by (auto simp: bogus_work_def Let_def reply_ids intro!: replied_respond split: option.splits prod.splits)

lemma ede_replied: "replied s (snd r) \<Longrightarrow> replied s (snd (work_of (NewEDEMiddleware en) s' r))"
proof -
  assume r: "replied s (snd r)"
  have "replied s ((snd r)\<lparr>dx_Resp := Some (SetEDE code tx m)\<rparr>)" if "dx_Resp (snd r) = Some m" for m code tx
    by (rule replied_Resp [OF r]) (use replied_id [OF r that] in simp)
  then show ?thesis using r by (auto simp: work_of_def NewEDEMiddleware_def split: prod.splits option.splits)
qed

lemma ech_replied: "replied s (snd r) \<Longrightarrow> replied s (snd (work_of (NewECHMiddleware en) s' r))"
proof -
  assume r: "replied s (snd r)"
  have "replied s ((snd r)\<lparr>dx_Resp := Some (snd (StripECH m))\<rparr>)" if "dx_Resp (snd r) = Some m" for m
    by (rule replied_Resp [OF r]) (use replied_id [OF r that] in simp)
  then show ?thesis using r by (auto simp: work_of_def NewECHMiddleware_def Let_def split: prod.splits option.splits)
qed

lemma after_replied:
  assumes "dns_lib_ok L"
  shows "carries asked replied NewMetricsMiddleware" "carries asked replied (NewEDEMiddleware en)" "carries asked replied (NewECHMiddleware en)"
    "carries asked replied (NewRebindMiddleware L mgr)" "carries asked replied (NewFilterResponseMiddleware L V groups en)"
    "carries asked replied (NewBogusNXDomainMiddleware L)"
proof -
  show "carries asked replied NewMetricsMiddleware"
    by (rule metrics.after_carries) (auto simp: metrics_work_def split: prod.splits)
  show "carries asked replied (NewEDEMiddleware en)" by (rule ede.after_carries) (rule ede_replied)
  show "carries asked replied (NewECHMiddleware en)" by (rule ech.after_carries) (rule ech_replied)
  show "carries asked replied (NewRebindMiddleware L mgr)"
    by (rule rebind.after_carries) (use rebind_replied assms in \<open>auto simp: work_of_def NewRebindMiddleware_def split: prod.splits\<close>)
  show "carries asked replied (NewFilterResponseMiddleware L V groups en)"
    by (rule filter_answer.after_carries) (use filter_response_replied assms in \<open>auto simp: work_of_def NewFilterResponseMiddleware_def split: prod.splits\<close>)
  show "carries asked replied (NewBogusNXDomainMiddleware L)"
    by (rule bogus.after_carries) (use bogus_replied assms in \<open>auto simp: work_of_def NewBogusNXDomainMiddleware_def split: prod.splits\<close>)
qed

section \<open>Handlers that ask upstream\<close>

lemma safe_id:
  assumes "dns_lib_ok L"
  shows "carries asked replied (NewSafeBrowsingMiddleware L K mid X)"
proof (rule reputation.gate_carries)
  fix s assume s: "asked s"
  have k: "dx_Req (outcome_of (NewSafeBrowsingMiddleware L K mid X) s) = dx_Req s \<and> id_ok (outcome_of (NewSafeBrowsingMiddleware L K mid X) s)"
    using s assms by (simp add: asked_def outcome_of_def probe_def NewSafeBrowsingMiddleware_def Let_def split: option.splits prod.splits)
  show "replied s (outcome_of (NewSafeBrowsingMiddleware L K mid X) s)" using k s by (simp add: replied_def asked_def)
  show "asked (outcome_of (NewSafeBrowsingMiddleware L K mid X) s)" using k s by (simp add: asked_def)
  show "replied s t" if "replied (outcome_of (NewSafeBrowsingMiddleware L K mid X) s) t" for t using that k by (simp add: replied_def)
qed

lemma ecs_ids [simp]: "m_Id (StripECS m) = m_Id m" "m_Id (snd (SetECS n m)) = m_Id m"
  by (simp_all add: StripECS_def RemoveEdns0Option_def SetECS_def SetEdns0Option_def ensure_opt_def set_options_def Let_def split: option.splits)

lemma id_ok_cong: "id_ok s \<Longrightarrow> dx_Resp t = dx_Resp s \<Longrightarrow> m_Id (the (dx_Req t)) = m_Id (the (dx_Req s)) \<Longrightarrow> id_ok t"
  unfolding id_ok_def by metis

lemma ecs_request_id:
  assumes "asked s"
  shows "asked (ecs_request cfg s)" "m_Id (the (dx_Req (ecs_request cfg s))) = m_Id (the (dx_Req s))"
proof -
  have r: "dx_Req s \<noteq> None" and i: "id_ok s" using assms by (simp_all add: asked_def)
  have "dx_Req (ecs_request cfg s) \<noteq> None" "dx_Resp (ecs_request cfg s) = dx_Resp s"
    using r by (simp_all add: ecs_request_def)
  moreover show q: "m_Id (the (dx_Req (ecs_request cfg s))) = m_Id (the (dx_Req s))"
    using r by (auto simp: ecs_request_def)
  ultimately show "asked (ecs_request cfg s)" using id_ok_cong [OF i, of "ecs_request cfg s"] by (simp add: asked_def)
qed

lemma ecs_id: "carries asked replied (NewECSMiddleware mgr)"
proof (rule carriesI)
  fix "next" :: nxt and s assume n: "\<And>s. asked s \<Longrightarrow> replied s (snd (next s))" and s: "asked s"
  have "replied s (snd (next (ecs_request cfg s)))" for cfg
    using n [OF ecs_request_id(1) [OF s]] ecs_request_id(2) [OF s] by (simp add: replied_def)
  then show "replied s (snd (NewECSMiddleware mgr next s))" using n [OF s] by (simp add: NewECSMiddleware_def split: option.splits)
qed

text \<open>
  What the pipeline relies on of the upstream resolver: an answer carries the identifier of the
  request. The scheduler checks it of every provider's answer.
\<close>

definition exchange_ok :: "exchange \<Rightarrow> bool" where
  "exchange_ok X \<longleftrightarrow> (\<forall>c m t r e d. X c m t = ((Some r, e), d) \<longrightarrow> m_Id r = m_Id m)"

lemma get_reply_id: "g_resp (fst (GetForGroup c req grp t t2)) = Some m \<Longrightarrow> m_Id m = m_Id req"
  by (auto simp: GetForGroup_def lookup_section_def get_miss_def fresh_reply_def RewriteTTL_def Let_def
      split: if_splits list.splits option.splits prod.splits lookup_result.splits)

lemma serve_stale_facts [simp]:
  "replied s t \<Longrightarrow> replied s (serve_stale g label c t)"
  by (auto simp: serve_stale_def BuildStaleResponse_def RewriteTTL_def Let_def intro!: replied_Resp)

lemma asked_refl: "asked s \<Longrightarrow> replied s s" by (simp add: asked_def replied_def)

lemma asked_world [simp]:
  "asked (s\<lparr>w_cache := x1\<rparr>) = asked s" "asked (s\<lparr>w_now := x2, w_sent := x3\<rparr>) = asked s" "asked (s\<lparr>w_cache := x1, w_now := x2\<rparr>) = asked s"
  "replied (s\<lparr>w_cache := x1\<rparr>) t = replied s t" "replied (s\<lparr>w_now := x2, w_sent := x3\<rparr>) t = replied s t"
  by (simp_all add: asked_def replied_def)

lemma fall_back_replied:
  "replied s t \<Longrightarrow> (\<And>t. replied s t \<Longrightarrow> replied s (giveup t)) \<Longrightarrow> replied s (snd (fall_back g err giveup t))"
  by (simp add: fall_back_def split: option.splits)

lemma cache_lead_replied:
  assumes "\<And>s. asked s \<Longrightarrow> replied s (snd (next s))" "asked s"
  shows "replied s (snd (cache_lead g grp next s))"
proof -
  obtain err s1 where r: "next s = (err, s1)" by fastforce
  then have "replied s s1" using assms by fastforce
  then show ?thesis using r by (auto simp: cache_lead_def Let_def intro!: fall_back_replied split: option.splits)
qed

lemma cache_join_replied:
  assumes "asked s"
  shows "replied s (snd (cache_join g grp val err c t s))"
proof -
  obtain g2 c2 where G: "GetForGroup c (the_req s) grp t t = (g2, c2)" by fastforce
  have s1: "replied s (s\<lparr>w_cache := Some c2, w_now := t\<rparr>)" using asked_refl [OF assms] by simp
  have hit: "replied s (s\<lparr>w_cache := Some c2, w_now := t, dx_Resp := Some m\<rparr>)" if "g_resp g2 = Some m" for m
    using replied_Resp [OF s1, of m] get_reply_id [of c "the_req s" grp t t m] G that by simp
  have miss: "replied s (s\<lparr>w_cache := Some c2, w_now := t, dx_Resp := Some (m\<lparr>m_Id := m_Id (the_req s)\<rparr>)\<rparr>)" for m
    using replied_Resp [OF s1] by simp
  have keep: "s\<lparr>w_cache := Some c2, w_now := t, dx_Resp := dx_Resp s\<rparr> = s\<lparr>w_cache := Some c2, w_now := t\<rparr>" by simp
  show ?thesis using G hit miss s1 keep by (cases val) (auto simp: cache_join_def Let_def intro!: fall_back_replied)
qed

lemma cache_id: "carries asked replied (NewCacheMiddlewareWithGroups hasResolver)"
proof (rule carriesI)
  fix "next" :: nxt and s assume n: "\<And>s. asked s \<Longrightarrow> replied s (snd (next s))" and s: "asked s"
  show "replied s (snd (NewCacheMiddlewareWithGroups hasResolver next s))"
  proof (cases "w_cache s")
    case None
    then show ?thesis using n [OF s] by (simp add: NewCacheMiddlewareWithGroups_def)
  next
    case (Some c)
    obtain ex c1 where e: "cache_IsExcluded c (q_Name (the_q s)) = (ex, c1)" by fastforce
    obtain g c2 where G: "GetForGroup c1 (the_req s) (cachedGroup s) (w_now s) (w_now s) = (g, c2)" by fastforce
    let ?s2 = "s\<lparr>w_cache := Some c2\<rparr>"
    have s2: "asked ?s2" "replied s ?s2" using s asked_refl [OF s] by simp_all
    have ex: "replied s (snd (next (s\<lparr>w_cache := Some c1\<rparr>)))" using n [of "s\<lparr>w_cache := Some c1\<rparr>"] s by simp
    have hit: "replied s (?s2\<lparr>dx_Resp := Some m\<rparr>)" if "g_resp g = Some m" for m
      using replied_Resp [OF s2(2), of m] get_reply_id [of c1 "the_req s" "cachedGroup s" "w_now s" "w_now s" m] G that by simp
    have lead: "replied s (snd (cache_lead g (cachedGroup s) next ?s2))" using cache_lead_replied [OF n s2(1), of g "cachedGroup s"] by simp
    have join: "replied s (snd (cache_join g (cachedGroup s) val err c' t' ?s2))" for val err c' t'
      using cache_join_replied [OF s2(1), of g "cachedGroup s" val err c' t'] by simp
    show ?thesis using Some e G n [OF s] s2 ex hit lead join
      by (auto simp: NewCacheMiddlewareWithGroups_def Let_def split: flight_role.splits)
  qed
qed

lemma dns64_id: "carries asked replied (NewDNS64Middleware rs mid X synth)"
proof (rule carriesI)
  fix "next" :: nxt and s assume n: "\<And>s. asked s \<Longrightarrow> replied s (snd (next s))" and s: "asked s"
  obtain err s1 where r: "next s = (err, s1)" by fastforce
  have s1: "replied s s1" using n [OF s] r by simp
  have "replied s (s1\<lparr>w_now := t, w_sent := w, dx_Resp := Some (m\<lparr>m_Answer := a, m_Rcode := rc\<rparr>)\<rparr>)" if "dx_Resp s1 = Some m" for t w m a rc
    using replied_Resp [of s "s1\<lparr>w_now := t, w_sent := w\<rparr>" "m\<lparr>m_Answer := a, m_Rcode := rc\<rparr>"] s1 replied_id [OF s1 that] by simp
  then show "replied s (snd (NewDNS64Middleware rs mid X synth next s))" using r s1
    by (auto simp: NewDNS64Middleware_def Let_def split: option.splits prod.splits)
qed

lemma upstream_id: "carries asked replied (NewUpstreamRouteMiddleware gu groups)"
proof (rule carriesI)
  fix "next" :: nxt and s assume n: "\<And>s. asked s \<Longrightarrow> replied s (snd (next s))" and s: "asked s"
  have m: "replied s (snd (next (s\<lparr>w_now := t, w_sent := w\<rparr>)))" for t w using n [of "s\<lparr>w_now := t, w_sent := w\<rparr>"] s by simp
  have "replied s (s\<lparr>w_now := t, w_sent := w, dx_Resp := Some (r\<lparr>m_Id := m_Id (the_req s)\<rparr>)\<rparr>)" for t w r
    using replied_Resp [of s "s\<lparr>w_now := t, w_sent := w\<rparr>"] asked_refl [OF s] by simp
  then show "replied s (snd (NewUpstreamRouteMiddleware gu groups next s))" using n [OF s] m
    by (auto simp: NewUpstreamRouteMiddleware_def Let_def split: option.splits prod.splits)
qed

lemma forward_id:
  assumes "dns_lib_ok L" "exchange_ok X"
  shows "carries asked replied (NewForwardMiddleware L X)"
proof (rule carriesI)
  fix "next" :: nxt and s assume n: "\<And>s. asked s \<Longrightarrow> replied s (snd (next s))" and s: "asked s"
  obtain req where q: "dx_Req s = Some req" using s by (auto simp: asked_def)
  obtain resp err d where x: "X (dx_Context s) req (w_now s) = ((resp, err), d)" by (metis surj_pair)
  have go: "replied s (snd (next (s\<lparr>w_now := t, w_sent := w, dx_Err := e, dx_Resp := r\<rparr>)))" if "\<And>m. r = Some m \<Longrightarrow> m_Id m = m_Id req" for t w e r
  proof -
    have "asked (s\<lparr>w_now := t, w_sent := w, dx_Err := e, dx_Resp := r\<rparr>)" using that q by (cases r) (simp_all add: asked_def id_ok_def)
    from n [OF this] show ?thesis by (simp add: replied_def)
  qed
  have go': "replied s (snd (next (s\<lparr>w_now := t, w_sent := w, dx_Resp := r\<rparr>)))" if "\<And>m. r = Some m \<Longrightarrow> m_Id m = m_Id req" for t w r
    using go [OF that, where e = "dx_Err s"] by simp
  have id: "m_Id m = m_Id req" if "resp = Some m" for m using assms(2) x that unfolding exchange_ok_def by metis
  show "replied s (snd (NewForwardMiddleware L X next s))"
  proof (cases err)
    case None
    then show ?thesis using go' [OF id] q x by (simp add: NewForwardMiddleware_def Let_def)
  next
    case (Some e)
    have g: "replied s (snd (next (s\<lparr>w_now := t, w_sent := w, dx_Err := Some e,
        dx_Resp := Some ((SetRcode L req RcodeServerFailure)\<lparr>m_RecursionAvailable := True\<rparr>)\<rparr>)))" for t w
      by (rule go) (use reply_ids(3) [OF assms(1)] in auto)
    show ?thesis using g Some q x by (simp add: NewForwardMiddleware_def Let_def)
  qed
qed

section \<open>The assembled pipeline\<close>

lemmas pipeline_defs = buildPipeline_def NewPipeline_def front_def local_part_def answer_part_def

definition lib_hooks_ok :: "program \<Rightarrow> bool" where
  "lib_hooks_ok P \<longleftrightarrow> dns_lib_ok (pg_lib P) \<and> (\<forall>r m. m_Id (pg_setEdns0 P r m) = m_Id m)"

lemma pipeline_replied:
  assumes "lib_hooks_ok P" "exchange_ok (pg_exchange P)"
  shows "list_all (carries asked replied) (buildPipeline P)"
proof -
  have L: "dns_lib_ok (pg_lib P)" and S: "\<And>r m. m_Id (pg_setEdns0 P r m) = m_Id m" using assms(1) by (simp_all add: lib_hooks_ok_def)
  note gate_carry = tidy_replied [OF client_gate client_tidy client_id] tidy_replied [OF access_gate access_tidy access_id [OF L]]
    tidy_replied [OF limit_gate limit_tidy limit_id [OF L]] tidy_replied [OF ddr_gate ddr_tidy ddr_id [OF L S]]
    tidy_replied [OF sudn_gate sudn_tidy sudn_id [OF L]] tidy_replied [OF zone_gate zone_tidy zone_id [OF L]]
    tidy_replied [OF hosts_gate hosts_tidy hosts_id [OF L]] tidy_replied [OF rewrite_gate rewrite_tidy rewrite_id [OF L]]
    tidy_replied [OF safesearch_gate safesearch_tidy safesearch_id [OF L]] tidy_replied [OF ptr_gate private_ptr_tidy private_ptr_id [OF L]]
    tidy_replied [OF unqualified_gate unqualified_tidy unqualified_id [OF L]] tidy_replied [OF any_gate any_query_tidy any_query_id [OF L]]
  show ?thesis
    by (simp add: pipeline_defs after_replied [OF L] gate_carry ipv6_id [OF L] filter_replied [OF L] safe_id [OF L] dns64_id ecs_id cache_id
        upstream_id forward_id [OF L assms(2)])
qed

text \<open>
  C1. Whatever the query, the configuration, the rules, the cache and the upstreams: an
  answer the pipeline ends with carries the identifier of the request. The upstream resolver is only
  assumed to answer under the identifier it was asked with.
\<close>

theorem pipeline_reply_id:
  assumes "lib_hooks_ok P" "exchange_ok (pg_exchange P)" "dx_Req s = Some req" "dx_Resp s = None"
    and "Execute (buildPipeline P) s = (err, s')" "dx_Resp s' = Some resp"
  shows "m_Id resp = m_Id req"
proof -
  have "asked s" using assms(3,4) by (simp add: asked_def id_ok_def)
  then have "replied s (snd (run (buildPipeline P) s))"
    using run_carries [OF pipeline_replied [OF assms(1,2)]] asked_refl by blast
  then have r: "replied s s'" using assms(5) by (simp add: Execute_run)
  show ?thesis using r replied_id [OF r assms(6)] assms(3) by (simp add: replied_def the_req_def)
qed

section \<open>Queries that never leave\<close>

text \<open>The handlers in front of the filter, for any property of the query that they keep.\<close>

lemma front_quiet:
  assumes "stable Q"
  shows "list_all (carries Q quiet) (front P)" "carries Q quiet (NewAccessMiddleware L ac)" "carries Q quiet (NewRateLimitMiddleware L rl)"
    "carries Q quiet (NewDDRMiddleware L se en cfg)" "carries Q quiet (NewSUDNMiddleware L)" "carries Q quiet (NewZoneMiddleware L z)"
    "carries Q quiet (NewHostsMiddleware L h)" "carries Q quiet (NewRewriteMiddleware L pa rw)" "carries Q quiet (NewSafeSearchMiddleware L ss)"
    "carries Q quiet (NewIPv6Middleware L en)" "carries Q quiet (NewPrivatePTRMiddleware L visit lk en)"
    "carries Q quiet (NewDynamicUnqualifiedMiddleware L en)" "carries Q quiet (NewANYMiddleware L en mode)"
proof -
  note q = tidy_quiet [OF _ _ assms]
  show "list_all (carries Q quiet) (front P)" by (simp add: front_def after_quiet q [OF client_gate client_tidy])
  show "carries Q quiet (NewAccessMiddleware L ac)" "carries Q quiet (NewRateLimitMiddleware L rl)"
    "carries Q quiet (NewDDRMiddleware L se en cfg)" "carries Q quiet (NewSUDNMiddleware L)" "carries Q quiet (NewZoneMiddleware L z)"
    "carries Q quiet (NewHostsMiddleware L h)" "carries Q quiet (NewRewriteMiddleware L pa rw)" "carries Q quiet (NewSafeSearchMiddleware L ss)"
    "carries Q quiet (NewPrivatePTRMiddleware L visit lk en)"
    "carries Q quiet (NewDynamicUnqualifiedMiddleware L en)" "carries Q quiet (NewANYMiddleware L en mode)"
    by (simp_all add: q access_gate access_tidy limit_gate limit_tidy ddr_gate ddr_tidy sudn_gate sudn_tidy zone_gate zone_tidy hosts_gate hosts_tidy
        rewrite_gate rewrite_tidy safesearch_gate safesearch_tidy ptr_gate private_ptr_tidy unqualified_gate unqualified_tidy any_gate any_query_tidy)
  show "carries Q quiet (NewIPv6Middleware L en)" by (rule ipv6_quiet)
qed

text \<open>Names of the special-use registry, as the specification has them.\<close>

definition special_use :: "string \<Rightarrow> bool" where
  "special_use name = (\<exists>z\<in>{''localhost'', ''test'', ''invalid'', ''onion'', ''home.arpa'', ''resolver.arpa''}.
     under_name (to_lower (trim_dots name)) z)"

definition single_label :: "string \<Rightarrow> bool" where
  "single_label name = (trim_suffix name ''.'' \<noteq> [] \<and> CHR ''.'' \<notin> set (trim_suffix name ''.''))"

definition kept_local :: "program \<Rightarrow> question \<Rightarrow> bool" where
  "kept_local P q \<longleftrightarrow> special_use (q_Name q) \<or>
     pg_BlockPrivatePTR P \<and> q_Qtype q = TypePTR \<and> IsPrivateReverseZone (q_Name q) \<or>
     pg_BlockUnqualified P \<and> single_label (q_Name q) \<or>
     pg_BlockANY P \<and> q_Qtype q = TypeANY \<and> q_Qclass q = ClassINET"

definition blocked_name :: "program \<Rightarrow> qstate \<Rightarrow> bool" where
  "blocked_name P s \<longleftrightarrow> (\<exists>e. w_engine s = Some e \<and>
     (let domain = trim_suffix (to_lower (trim_space (q_Name (the_q s)))) ''.'' in
      domain \<noteq> [] \<and> ch_Blocked (fst (MatchForGroup (pg_rules P) domain (q_Qtype (the_q s)) (group_of (pg_groups P) s) (w_now s) e))))"

text \<open>Everything in front of these handlers is quiet.\<close>

lemma pipeline_at:
  assumes "stable Q"
    and "m \<in> set ([NewSUDNMiddleware (pg_lib P)] @ drop 5 (local_part P))"
  obtains pre post where "buildPipeline P = pre @ m # post" "list_all (carries Q quiet) pre"
proof -
  define early where "early = front P @ [NewAccessMiddleware (pg_lib P) (pg_access P), NewRateLimitMiddleware (pg_lib P) (pg_limiter P),
    NewDDRMiddleware (pg_lib P) (pg_setEdns0 P) (pg_DDREnabled P) (pg_ddr P)]"
  define late where "late = [NewSafeBrowsingMiddleware (pg_lib P) (pg_sbKernel P) (pg_newId P) (pg_exchange P), NewRebindMiddleware (pg_lib P) (pg_rebind P),
    NewFilterResponseMiddleware (pg_lib P) (pg_rules P) (pg_groups P) (pg_FilterResponse P)] @ answer_part P"
  have b: "buildPipeline P = early @ (NewSUDNMiddleware (pg_lib P) # local_part P) @ late"
    by (simp add: buildPipeline_def NewPipeline_def early_def late_def)
  have e: "list_all (carries Q quiet) early" unfolding early_def by (simp add: front_quiet(1-4) [OF assms(1)])
  have l: "list_all (carries Q quiet) (take 8 (local_part P))" by (simp add: local_part_def front_quiet(5-) [OF assms(1)])
  have n: "length (local_part P) = 9" by (simp add: local_part_def)
  from assms(2) consider "m = NewSUDNMiddleware (pg_lib P)" | i where "m = local_part P ! i" "i < 9"
  proof -
    have "m = NewSUDNMiddleware (pg_lib P) \<or> m \<in> set (local_part P)" using assms(2) in_set_dropD [of m 5 "local_part P"] by auto
    then show ?thesis using that n by (auto simp: in_set_conv_nth)
  qed
  then show thesis
  proof cases
    case 1
    then show ?thesis using that [of early "local_part P @ late"] b e by simp
  next
    case 2
    have "local_part P = take i (local_part P) @ m # drop (Suc i) (local_part P)"
      unfolding 2(1) by (rule id_take_nth_drop) (use 2(2) n in simp)
    moreover have "list_all (carries Q quiet) (take i (local_part P))"
      using l set_take_subset_set_take [of i 8 "local_part P"] 2(2) by (auto simp: list_all_iff)
    ultimately show ?thesis
      using that [of "early @ NewSUDNMiddleware (pg_lib P) # take i (local_part P)" "drop (Suc i) (local_part P) @ late"] b e
        front_quiet(5) [OF assms(1), of "pg_lib P"] by simp
  qed
qed

lemma pipeline_stop:
  assumes "stable Q" "settles Q quiet m" "Q s"
    and "m \<in> set ([NewSUDNMiddleware (pg_lib P)] @ drop 5 (local_part P))"
  shows "quiet s (snd (Execute (buildPipeline P) s))"
proof -
  obtain pre post where "buildPipeline P = pre @ m # post" "list_all (carries Q quiet) pre"
    using pipeline_at [OF assms(1,4)] by blast
  then show ?thesis using run_settled [of Q quiet pre m s post] assms(2,3) by (simp add: Execute_run)
qed

lemma question_kept: "same_query s s' \<Longrightarrow> has_question s' = has_question s" "same_query s s' \<Longrightarrow> the_q s' = the_q s"
  by (simp_all add: has_question_def the_q_def the_req_def same_query_def)

lemma question_stable: "stable (\<lambda>s. has_question s \<and> C (the_q s))"
  by (simp add: stable_def question_kept)

lemma sudn_settles: "settles (\<lambda>s. has_question s \<and> special_use (q_Name (the_q s))) quiet (NewSUDNMiddleware L)"
proof (rule sudn.gate_settles)
  fix s assume s: "has_question s \<and> special_use (q_Name (the_q s))"
  have "\<not> under_name [] z" if "z \<noteq> []" for z using that by (simp add: under_name_def has_suffix_def)
  then have n: "to_lower (trim_dots (q_Name (the_q s))) \<noteq> []" using s by (force simp: special_use_def)
  show "decides_by (NewSUDNMiddleware L) s"
    using s n by (auto simp: decides_by_def probe_def NewSUDNMiddleware_def special_use_def Let_def)
  show "quiet s (outcome_of (NewSUDNMiddleware L) s)" using sudn_tidy [of L] by (simp add: tidy_def same_query_def)
qed

lemma tidy_quiet_outcome: "tidy m \<Longrightarrow> quiet s (outcome_of m s)"
  by (simp add: tidy_def same_query_def)

lemma private_ptr_settles:
  "settles (\<lambda>s. has_question s \<and> en \<and> q_Qtype (the_q s) = TypePTR \<and> IsPrivateReverseZone (q_Name (the_q s))) quiet (NewPrivatePTRMiddleware L visit lk en)"
  by (rule private_ptr.gate_settles)
    (simp_all add: tidy_quiet_outcome private_ptr_tidy decides_by_def probe_def NewPrivatePTRMiddleware_def Let_def split: prod.splits option.splits)

lemma unqualified_settles:
  "settles (\<lambda>s. has_question s \<and> en \<and> single_label (q_Name (the_q s))) quiet (NewDynamicUnqualifiedMiddleware L en)"
  by (rule unqualified.gate_settles)
    (simp_all add: tidy_quiet_outcome unqualified_tidy decides_by_def probe_def NewDynamicUnqualifiedMiddleware_def single_label_def Let_def)

lemma any_settles:
  "settles (\<lambda>s. has_question s \<and> en \<and> q_Qtype (the_q s) = TypeANY \<and> q_Qclass (the_q s) = ClassINET) quiet (NewANYMiddleware L en mode)"
  by (rule any_query.gate_settles) (simp_all add: tidy_quiet_outcome any_query_tidy decides_by_def probe_def NewANYMiddleware_def)


section \<open>A sample service\<close>

definition sample_program :: "exchange \<Rightarrow> program" where
  "sample_program X = \<lparr>pg_lib = sample_lib, pg_setEdns0 = (\<lambda>r m. m), pg_rrString = (\<lambda>r. h_Name (rr_Hdr r)), pg_newId = (\<lambda>t. 7), pg_visit = (\<lambda>ks. ks),
     pg_lookupers = [], pg_groups = None, pg_access = None, pg_limiter = None, pg_EnableEDE = True, pg_BlockECH = False,
     pg_DDREnabled = False, pg_ddr = empty_ddr, pg_zone = None, pg_hosts = None, pg_rewrite = None, pg_parseArpa = (\<lambda>s. []),
     pg_safeSearch = None, pg_BlockIPv6 = False, pg_BlockPrivatePTR = True, pg_BlockUnqualified = True, pg_BlockANY = True,
     pg_BlockANYMode = ''notimp'', pg_rules = sample_env, pg_sbKernel = sample_kernel, pg_rebind = None, pg_FilterResponse = False,
     pg_dns64 = None, pg_ecs = None, pg_exchange = X, pg_groupUpstreams = None\<rparr>"

definition ask :: "string \<Rightarrow> u16 \<Rightarrow> msg" where
  "ask name t = empty_msg\<lparr>m_Id := 77, m_Question := [\<lparr>q_Name = name, q_Qtype = t, q_Qclass = ClassINET\<rparr>]\<rparr>"

definition start_state :: "msg \<Rightarrow> qstate" where
  "start_state req = dns_context.extend (NewDNSContext background req None ''udp'' 0)
     \<lparr>w_now = 0, w_cache = None, w_engine = None, w_clients = None, w_safe = None, w_sent = [], w_tasks = [], w_limited = [], w_flight = Leader, w_reported = []\<rparr>"

definition echo_upstream :: exchange where
  "echo_upstream c m t = ((Some (SetReply sample_lib m), None), 5)"

lemma sample_hooks: "lib_hooks_ok (sample_program X)"
  by (simp add: lib_hooks_ok_def sample_program_def sample_lib_ok)

lemma echo_ok: "exchange_ok echo_upstream"
  by (simp add: exchange_ok_def echo_upstream_def dns_lib_okD [OF sample_lib_ok])

lemma start_simps [simp]:
  "dx_Req (start_state m) = Some m" "dx_Resp (start_state m) = None" "the_req (start_state m) = m" "w_now (start_state m) = 0"
  "has_question (start_state (ask n t))" "the_q (start_state (ask n t)) = \<lparr>q_Name = n, q_Qtype = t, q_Qclass = ClassINET\<rparr>"
  "w_cache (start_state m) = None" "w_flight (start_state m) = Leader" "w_sent (start_state m) = []" "w_engine (start_state m) = None"
  by (simp_all add: start_state_def dns_context.extend_def NewDNSContext_def the_req_def the_q_def has_question_def ask_def)


theorem pipeline_reply_id_witness:
  "\<exists>err s' resp. Execute (buildPipeline (sample_program echo_upstream)) (start_state (ask ''a.example.'' TypeA)) = (err, s') \<and>
     dx_Resp s' = Some resp \<and> m_Id resp = 77"
proof -
  obtain err s' where r: "Execute (buildPipeline (sample_program echo_upstream)) (start_state (ask ''a.example.'' TypeA)) = (err, s')" by fastforce
  have "map_option m_Rcode (dx_Resp (snd (Execute (buildPipeline (sample_program echo_upstream)) (start_state (ask ''a.example.'' TypeA))))) = Some 0"
    by code_simp
  then obtain resp where resp: "dx_Resp s' = Some resp" using r by auto
  have "m_Id resp = m_Id (ask ''a.example.'' TypeA)"
    by (rule pipeline_reply_id [OF sample_hooks [of echo_upstream] _ _ _ r resp]) (simp_all add: sample_program_def echo_ok)
  then show ?thesis using r resp by (auto simp: ask_def)
qed

end
