(* ===== verification/Pipeline_Guards.thy ===== *)
theory Pipeline_Guards
  imports Pipeline_Facts
begin

text \<open>
  Guards of the assembled pipeline: denied clients, blocked names, rebinding protection and what the
  client subnet option does to a client without EDNS.
\<close>

section \<open>Denied clients\<close>

lemma front_run:
  "run (front P @ ms) s =
     metrics_work s (work_of (NewEDEMiddleware (pg_EnableEDE P)) s (work_of (NewECHMiddleware (pg_BlockECH P)) s
       (run ms (client_marks (pg_visit P) (pg_lookupers P) (pg_groups P) s))))"
  by (simp add: front_def metrics.after_run ede.after_run ech.after_run NewClientMiddlewareWithGroups_def del: run.simps(2))
    (simp add: NewClientMiddlewareWithGroups_def)

lemma strip_empty: "m_Answer m = [] \<Longrightarrow> m_Answer (snd (StripECH m)) = []" "m_Rcode (snd (StripECH m)) = m_Rcode m"
  by (simp_all add: StripECH_def strip_msg_def Let_def split: prod.splits)

text \<open>The three outermost handlers keep the identifier, the code and an empty answer.\<close>

definition same_world :: "qstate \<Rightarrow> qstate \<Rightarrow> bool" where
  "same_world s s' \<longleftrightarrow> quiet s s' \<and> w_engine s' = w_engine s \<and> w_limited s' = w_limited s \<and> w_safe s' = w_safe s"

lemma same_world_simps [simp]:
  "same_world s s" "same_world s (t\<lparr>dx_Resp := x1\<rparr>) = same_world s t" "same_world s (t\<lparr>w_reported := x2\<rparr>) = same_world s t"
  "same_world s (ctx_Set k v t) = same_world s t"
  by (simp_all add: same_world_def quiet_def)

lemma ech_keeps:
  assumes "dx_Resp t = Some m"
  obtains t' m' where "work_of (NewECHMiddleware en) s (None, t) = (None, t')" "dx_Resp t' = Some m'" "m_Id m' = m_Id m" "m_Rcode m' = m_Rcode m"
    "m_Answer m = [] \<longrightarrow> m_Answer m' = []" "same_world t t'" "w_reported t' = w_reported t"
proof -
  obtain b m' where m': "StripECH m = (b, m')" by fastforce
  have "m_Id m' = m_Id m" "m_Rcode m' = m_Rcode m" "m_Answer m = [] \<longrightarrow> m_Answer m' = []"
    using strip_hints_id(2) [of m] strip_empty [of m] m' by auto
  then show thesis
    using that assms m' by (cases "en"; cases b) (simp_all add: work_of_def NewECHMiddleware_def Let_def)
qed

lemma ede_keeps:
  assumes "dx_Resp t = Some m"
  obtains t' m' where "work_of (NewEDEMiddleware en) s (None, t) = (None, t')" "dx_Resp t' = Some m'" "m_Id m' = m_Id m" "m_Rcode m' = m_Rcode m"
    "m_Answer m = [] \<longrightarrow> m_Answer m' = []" "same_world t t'" "w_reported t' = w_reported t"
proof -
  have "work_of (NewEDEMiddleware en) s (None, t) = (None, t) \<or>
      (\<exists>c x. work_of (NewEDEMiddleware en) s (None, t) = (None, t\<lparr>dx_Resp := Some (SetEDE c x m)\<rparr>))"
    using assms by (auto simp: work_of_def NewEDEMiddleware_def split: option.splits)
  then show thesis using that assms by (elim disjE exE) simp_all
qed


definition denied_program :: program where
  "denied_program = (sample_program echo_upstream)\<lparr>pg_access := Some (snd (access_Update \<lparr>acc_AllowedClients = [], acc_BlockedClients = [''10.1.2.3'']\<rparr> empty_access))\<rparr>"


section \<open>Blocked names\<close>

lemma blocked_action: "ch_Blocked (fst (MatchForGroup V d q g t e)) \<Longrightarrow> ch_Action (fst (MatchForGroup V d q g t e)) = ''block'' \<and> engine_IsEnabled e t"
  using matcher_Match_cases [of V "getGroupMatcher e g" d q]
  by (auto simp: MatchForGroup_def Let_def applyAllowlistOnly_def pass_result_def split: if_splits)

lemma filter_settles:
  "settles (\<lambda>s. has_question s \<and> blocked_name P s) quiet (NewFilterMiddlewareWithGroups L (pg_rules P) (pg_groups P))"
proof (rule filter_rules.gate_settles)
  fix s assume s: "has_question s \<and> blocked_name P s"
  let ?d = "trim_suffix (to_lower (trim_space (q_Name (the_q s)))) ''.''"
  from s obtain e where e: "w_engine s = Some e" "?d \<noteq> []" and
    b: "ch_Blocked (fst (MatchForGroup (pg_rules P) ?d (q_Qtype (the_q s)) (group_of (pg_groups P) s) (w_now s) e))"
    by (auto simp: blocked_name_def Let_def)
  obtain res e' where M: "MatchForGroup (pg_rules P) ?d (q_Qtype (the_q s)) (group_of (pg_groups P) s) (w_now s) e = (res, e')" by fastforce
  have "ch_Blocked res" "ch_Action res = ''block''" "engine_IsEnabled e (w_now s)" using blocked_action [OF b] b M by simp_all
  then show "decides_by (NewFilterMiddlewareWithGroups L (pg_rules P) (pg_groups P)) s"
    using s e M by (simp add: decides_by_def probe_def NewFilterMiddlewareWithGroups_def Let_def IsRewrite_def)
  show "quiet s (outcome_of (NewFilterMiddlewareWithGroups L (pg_rules P) (pg_groups P)) s)" by (rule filter_query)
qed

lemma blocked_kept:
  assumes "same_query s s'"
  shows "blocked_name P s' = blocked_name P s"
proof -
  have "w_engine s' = w_engine s" "w_now s' = w_now s" "dx_ClientIP s' = dx_ClientIP s" using assms by (simp_all add: same_query_def)
  then show ?thesis by (simp add: blocked_name_def group_of_def question_kept(2) [OF assms])
qed

text \<open>
  C3. A query whose name the rules block for the group of the client never leaves, whatever
  else is configured: nothing is sent, also not to the reputation services, and the cache is
  neither read nor written.
\<close>

theorem blocked_names_never_leave:
  assumes "has_question s" "blocked_name P s"
  shows "quiet s (snd (Execute (buildPipeline P) s))"
proof (rule pipeline_stop [OF _ filter_settles [of P "pg_lib P"]])
  show "stable (\<lambda>s. has_question s \<and> blocked_name P s)"
    by (simp add: stable_def question_kept blocked_kept)
qed (use assms in \<open>simp_all add: local_part_def\<close>)

lemma sample_blocks: "ch_Blocked (fst (MatchForGroup sample_env ''ads.example'' TypeA DefaultClientGroupID 0 sample_engine))"
  by code_simp

theorem blocked_names_never_leave_witness:
  "quiet ((start_state (ask ''Ads.example.'' TypeA))\<lparr>w_engine := Some sample_engine\<rparr>)
     (snd (Execute (buildPipeline (sample_program echo_upstream)) ((start_state (ask ''Ads.example.'' TypeA))\<lparr>w_engine := Some sample_engine\<rparr>)))"
proof (rule blocked_names_never_leave)
  let ?s = "(start_state (ask ''Ads.example.'' TypeA))\<lparr>w_engine := Some sample_engine\<rparr>"
  show "has_question ?s" by (simp add: has_question_def ask_def)
  have d: "trim_suffix (to_lower (trim_space ''Ads.example.'')) ''.'' = ''ads.example''" by code_simp
  have "the_q ?s = \<lparr>q_Name = ''Ads.example.'', q_Qtype = TypeA, q_Qclass = ClassINET\<rparr>" by (simp add: the_q_def the_req_def ask_def)
  moreover have "group_of (pg_groups (sample_program echo_upstream)) ?s = DefaultClientGroupID" by (simp add: group_of_def sample_program_def)
  ultimately show "blocked_name (sample_program echo_upstream) ?s"
    using sample_blocks d by (simp add: blocked_name_def sample_program_def)
qed

section \<open>Rebinding\<close>

text \<open>The addresses a record hands to a client.\<close>

fun rr_addresses :: "rdata \<Rightarrow> ip list" where
  "rr_addresses (RD_A a) = [a]"
| "rr_addresses (RD_AAAA a) = [a]"
| "rr_addresses (RD_HTTPS p t vs) = concat (map hint_ips vs)"
| "rr_addresses (RD_SVCB p t vs) = concat (map hint_ips vs)"
| "rr_addresses _ = []"

definition msg_addresses :: "msg \<Rightarrow> ip list" where
  "msg_addresses m = concat (map (\<lambda>r. rr_addresses (rr_Data r)) (m_Answer m @ m_Extra m @ m_Ns m))"

lemma rr_blocked_find: "rr_blocked_ip d = find IsBlockedIP (rr_addresses d)"
  by (cases d) (simp_all add: findBlockedHintIP_def)

lemma find_append_None: "find P (xs @ ys) = (case find P xs of Some a \<Rightarrow> Some a | None \<Rightarrow> find P ys)"
  by (induction xs) simp_all

lemma FindBlockedIPInMsg_find: "FindBlockedIPInMsg m = find IsBlockedIP (msg_addresses m)"
proof -
  have "first_blocked_ip rs = find IsBlockedIP (concat (map (\<lambda>r. rr_addresses (rr_Data r)) rs))" for rs
    by (induction rs) (simp_all add: rr_blocked_find find_append_None split: option.splits)
  then show ?thesis unfolding FindBlockedIPInMsg_def msg_addresses_def .
qed

text \<open>
  C5. Rebinding protection holds whatever the handlers behind it return: for a name that is not
  exempt, an answer that was not already replaced by a block carries no private, loopback,
  link-local, unspecified or NAT64-embedded internal address in any record or service hint of any
  section; and when the answer was replaced, the poisoned entry is gone from the cache of the client's group.
\<close>

theorem rebind_protects:
  assumes "dns_lib_ok L" "rb_enabled m" "next s = (err, s1)" "NewRebindMiddleware L (Some m) next s = (err', s')"
    and "has_question s1" "\<not> IsDomainAllowed m (trim_dots (q_Name (the_q s1)))" "\<not> attr_is_true ''filter_blocked'' s1"
    and "dx_Resp s' = Some resp"
  shows "(\<forall>a\<in>set (msg_addresses resp). \<not> IsBlockedIP a) \<and>
    (\<forall>resp1 c. dx_Resp s1 = Some resp1 \<longrightarrow> (\<exists>a\<in>set (msg_addresses resp1). IsBlockedIP a) \<longrightarrow> w_cache s1 = Some c \<longrightarrow> cache_inv c \<longrightarrow>
      (\<exists>c'. w_cache s' = Some c' \<and> cache_lookup c' (question_key (the_q s1) (cachedGroup s1)) = None))"
proof -
  have s': "s' = rebind_work L (Some m) s1" using assms(3,4) by (simp add: NewRebindMiddleware_def)
  obtain resp1 where r1: "dx_Resp s1 = Some resp1" using assms(8) s' by (cases "dx_Resp s1") (simp_all add: rebind_work_def)
  show ?thesis
  proof (cases "FindBlockedIPInMsg resp1")
    case None
    then have "s' = s1" using s' r1 by (simp add: rebind_work_def)
    then show ?thesis using None r1 assms(8) by (auto simp: FindBlockedIPInMsg_find find_None_iff)
  next
    case (Some a)
    define s2 where "s2 = set_all [(''rebinding_blocked'', ABool True), (''filter_action'', AStr ''block''),
      (''filter_blocked'', ABool True), (''filter_reason'', AStr (rebind_reason a))] s1"
    have e: "s' = (drop_cached (cachedGroup s2) s2)\<lparr>dx_Resp := Some ((SetRcode L (the_req s1) RcodeSuccess)\<lparr>m_Authoritative := True, m_RecursionAvailable := True\<rparr>)\<rparr>"
      using s' r1 Some assms(2,5,6,7) by (simp add: rebind_work_def Let_def s2_def)
    have g: "cachedGroup s2 = cachedGroup s1" by (simp add: s2_def set_all_def cachedGroup_def attrClientGroup_def)
    have "msg_addresses resp = []" using e assms(1,8) by (auto simp: msg_addresses_def dns_lib_okD)
    moreover have "\<exists>c'. w_cache s' = Some c' \<and> cache_lookup c' (question_key (the_q s1) (cachedGroup s1)) = None"
      if c: "w_cache s1 = Some c" "cache_inv c" for c
    proof -
      obtain q qs where q: "m_Question (the_req s1) = q # qs" "the_q s1 = q"
        using assms(5) by (cases "m_Question (the_req s1)") (auto simp: has_question_def the_q_def the_req_def split: option.splits)
      have w: "w_cache s2 = Some c" using c(1) by (simp add: s2_def set_all_def)
      have "w_cache s' = Some (snd (RemoveForGroup c (the_req s1) (cachedGroup s1)))"
        using e w g by (simp add: drop_cached_def s2_def)
      moreover have "RemoveForGroup c (the_req s1) (cachedGroup s1) = remove_section (question_key q (cachedGroup s1)) c"
        using q(1) by (simp add: RemoveForGroup_def question_key_def)
      moreover have "cache_lookup (snd (remove_section k c)) k = None" for k
        unfolding cache_lookup_def using dc.lookup_remove [OF c(2)] by simp
      ultimately show ?thesis using q(2) by simp
    qed
    ultimately show ?thesis by simp
  qed
qed

definition poisoned :: nxt where
  "poisoned s = (None, s\<lparr>dx_Resp := Some ((SetReply sample_lib (the_req s))\<lparr>m_Answer := [mk_rr ''evil.example.'' TypeA 1 (RD_A [192, 168, 1, 1])]\<rparr>)\<rparr>)"

theorem rebind_protects_witness:
  "\<exists>err s' resp. NewRebindMiddleware sample_lib (Some (NewRebindProtectionManager \<lparr>rbc_Enabled = True, rbc_AllowedDomains = [''*.lan'']\<rparr>)) poisoned
       (start_state (ask ''evil.example.'' TypeA)) = (err, s') \<and>
     dx_Resp s' = Some resp \<and> filter IsBlockedIP (msg_addresses resp) = []"
proof -
  let ?m = "NewRebindProtectionManager \<lparr>rbc_Enabled = True, rbc_AllowedDomains = [''*.lan'']\<rparr>"
  let ?s = "start_state (ask ''evil.example.'' TypeA)"
  obtain err s1 where n: "poisoned ?s = (err, s1)" by fastforce
  obtain err' s' where r: "NewRebindMiddleware sample_lib (Some ?m) poisoned ?s = (err', s')" by fastforce
  have q: "has_question s1" "the_q s1 = the_q ?s" "\<not> attr_is_true ''filter_blocked'' s1" "dx_Resp s1 \<noteq> None"
    using n by (auto simp: poisoned_def has_question_def the_q_def the_req_def attr_is_true_def ctx_Get_def start_state_def dns_context.extend_def
        NewDNSContext_def ask_def)
  have d: "\<not> IsDomainAllowed ?m (trim_dots ''evil.example.'')" "rb_enabled ?m" by code_simp+
  have "dx_Resp s' \<noteq> None" using r n q(4) by (auto simp: NewRebindMiddleware_def rebind_work_def Let_def split: option.splits)
  then obtain resp where resp: "dx_Resp s' = Some resp" by auto
  show ?thesis
    using rebind_protects [OF sample_lib_ok d(2) n r q(1) _ q(3) resp] d(1) q(2) r resp by (auto simp: filter_empty_conv)
qed

section \<open>Clients without EDNS\<close>

definition failing_upstream :: exchange where "failing_upstream c m t = ((None, Some ''timeout''), 5)"

definition reply_of :: "program \<Rightarrow> msg \<Rightarrow> msg option" where
  "reply_of P req = dx_Resp (snd (Execute (buildPipeline P) (start_state req)))"

definition subnet_program :: program where
  "subnet_program = (sample_program failing_upstream)\<lparr>pg_ecs := Some \<lparr>ec_Enabled = True, ec_StripECS = True, ec_CustomSubnet = ''203.0.113.0/24''\<rparr>\<rparr>"

text \<open>
  With a configured client subnet a client that asked without EDNS gets an
  answer with an OPT record and an extended error, which the same service without that setting does not send:
  the subnet handler puts its OPT record into the request of the client, and the handler of extended
  errors reads that request afterwards.
\<close>

theorem subnet_leaks_edns:
  "IsEdns0 (ask ''a.example.'' TypeA) = None \<and>
   map_option IsEdns0 (reply_of (sample_program failing_upstream) (ask ''a.example.'' TypeA)) = Some None \<and>
   map_option (\<lambda>m. map edns0_Option (msg_options m)) (reply_of subnet_program (ask ''a.example.'' TypeA)) = Some [15]"
  by (intro conjI) code_simp+

end
