(* ===== verification/Pipeline_Cache.thy ===== *)
theory Pipeline_Cache
  imports Pipeline_Facts
begin

text \<open>
  The cache in front of the upstreams: a stored answer is served and nothing behind the cache
  runs, what an upstream answered is stored for the next client, and an outage is bridged with the stale
  entry.
\<close>

lemma excluder_frame:
  assumes "cache_IsExcluded c n = (b, c1)" "cache_inv c"
  shows "cache_inv c1" "cache_abs c1 = cache_abs c" "dc_config c1 = dc_config c" "IsEnabled c1 = IsEnabled c"
    "IsStaleFallbackEnabled c1 = IsStaleFallbackEnabled c" "IsOptimistic c1 = IsOptimistic c"
proof -
  obtain ex where c1: "c1 = c\<lparr>dc_excluder := ex\<rparr>"
    using assms(1) by (cases "dc_excluder c") (auto simp: cache_IsExcluded_def Let_def split: prod.splits intro: that [of "dc_excluder c"])
  show "cache_inv c1" using assms(2) by (simp add: c1 cache_inv_def shard_inv_def)
  show "cache_abs c1 = cache_abs c" unfolding c1 by (rule cache_abs_cong) simp_all
  show "dc_config c1 = dc_config c" "IsEnabled c1 = IsEnabled c" "IsStaleFallbackEnabled c1 = IsStaleFallbackEnabled c" "IsOptimistic c1 = IsOptimistic c"
    by (simp_all add: c1 IsEnabled_def IsStaleFallbackEnabled_def IsOptimistic_def)
qed

text \<open>A query the cache handles: it has a question whose name is not excluded, and the cache is on.\<close>

definition cacheable :: "dns_cache \<Rightarrow> qstate \<Rightarrow> bool" where
  "cacheable c s \<longleftrightarrow> w_cache s = Some c \<and> cache_inv c \<and> IsEnabled c \<and> has_question s \<and> \<not> fst (cache_IsExcluded c (q_Name (the_q s)))"

abbreviation state_key :: "qstate \<Rightarrow> string" where "state_key s \<equiv> question_key (the_q s) (cachedGroup s)"

lemma has_question_req: "has_question s \<Longrightarrow> \<exists>qs. m_Question (the_req s) = the_q s # qs"
  by (cases "m_Question (the_req s)") (auto simp: has_question_def the_q_def the_req_def split: option.splits)

lemma cache_hit_run:
  assumes "cacheable c s" "cache_lookup c (state_key s) = Some e" "w_now s < ce_expiresAt e"
  obtains s' where "NewCacheMiddlewareWithGroups h next s = (None, s')" "dx_Resp s' = Some (fresh_reply (the_req s) e (w_now s))"
    "w_sent s' = w_sent s" "w_tasks s' = w_tasks s"
proof -
  obtain c1 where x: "cache_IsExcluded c (q_Name (the_q s)) = (False, c1)"
    using assms(1) by (cases "cache_IsExcluded c (q_Name (the_q s))") (simp add: cacheable_def)
  have c: "w_cache s = Some c" "cache_inv c" "IsEnabled c" "has_question s" using assms(1) by (simp_all add: cacheable_def)
  note F = excluder_frame [OF x c(2)]
  obtain qs where q: "m_Question (the_req s) = the_q s # qs" using has_question_req [OF c(4)] by auto
  have l: "cache_lookup c1 (state_key s) = Some e" using assms(2) F(2) by (simp add: cache_lookup_def)
  obtain g c2 where G: "GetForGroup c1 (the_req s) (cachedGroup s) (w_now s) (w_now s) = (g, c2)" by fastforce
  have g: "g = \<lparr>g_resp = Some (fresh_reply (the_req s) e (w_now s)), g_hit = True, g_isStale = False, g_candidate = None\<rparr>"
    using get_fresh(1) [OF F(1) _ q l assms(3), of "w_now s"] F(4) c(3) G by simp
  show thesis by (rule that [of "ctx_Set ''cache_hit'' (AStr ''fresh'') (s\<lparr>w_cache := Some c2, dx_Resp := Some (fresh_reply (the_req s) e (w_now s))\<rparr>)"])
    (use c x G g in \<open>simp_all add: NewCacheMiddlewareWithGroups_def Let_def\<close>)
qed

lemma get_absent_run:
  assumes "cache_inv c" "IsEnabled c" "m_Question req = q # qs" "cache_lookup c (question_key q grp) = None"
  shows "GetForGroup c req grp now now2 = (get_miss, c\<lparr>dc_totalMisses := dc_totalMisses c + 1\<rparr>)"
  using assms by (auto simp: GetForGroup_def lookup_section_def cache_lookup_map_of question_key_def Let_def)

lemma misses_frame:
  "cache_inv (c\<lparr>dc_totalMisses := n\<rparr>) = cache_inv c" "dc_config (c\<lparr>dc_totalMisses := n\<rparr>) = dc_config c"
  by (simp_all add: cache_inv_def shard_inv_def)


definition storing_upstream :: nxt where
  "storing_upstream s = (None, s\<lparr>dx_Resp := Some (sample_resp\<lparr>m_Id := m_Id (the_req s)\<rparr>), w_now := w_now s + 3\<rparr>)"

definition no_upstream :: nxt where "no_upstream s = (Some ''unreachable'', s\<lparr>w_sent := w_sent s @ [Forwarded (the_req s)]\<rparr>)"

definition cached_state :: "msg \<Rightarrow> dns_cache \<Rightarrow> qstate" where "cached_state req c = (start_state req)\<lparr>w_cache := Some c\<rparr>"

lemma sample_cacheable: "cacheable sample_cache (cached_state (sample_req 5) sample_cache)"
proof -
  have "\<not> fst (cache_IsExcluded sample_cache ''a.b.'')" "IsEnabled sample_cache" by code_simp+
  then show ?thesis by (simp add: cacheable_def cached_state_def sample_cache_ok(1) has_question_def the_q_def the_req_def sample_req_def sample_q_def)
qed

lemma storing_run:
  "cache_lookup sample_cache (state_key (cached_state (sample_req 5) sample_cache)) = None"
  "fst (NewCacheMiddlewareWithGroups True storing_upstream (cached_state (sample_req 5) sample_cache)) = None"
  "dx_Resp (snd (NewCacheMiddlewareWithGroups True storing_upstream (cached_state (sample_req 5) sample_cache))) = Some (sample_resp\<lparr>m_Id := 5\<rparr>)"
  "w_now (snd (NewCacheMiddlewareWithGroups True storing_upstream (cached_state (sample_req 5) sample_cache))) = 3"
  by code_simp+

lemma storing_excludes: "\<not> fst (cache_IsExcluded (the (w_cache (snd (NewCacheMiddlewareWithGroups True storing_upstream (cached_state (sample_req 5) sample_cache))))) ''a.b.'')"
  by code_simp


section \<open>Outages\<close>

lemma put_failure: "m_Rcode m = RcodeServerFailure \<Longrightarrow> snd (PutForGroup c req m grp t) = c"
  by (simp add: PutForGroup_def put_ttl_def Let_def split: list.splits prod.splits)

lemma cache_lead_failure:
  assumes "next s = (e1, s1)" "no_answer e1 s1"
  shows "cache_lead g grp next s = fall_back g e1 (\<lambda>s. s) s1"
proof -
  have "s1\<lparr>w_cache := map_option (\<lambda>c. snd (PutForGroup c (the_req s) m grp (w_now s1))) (w_cache s1)\<rparr> = s1" if "m_Rcode m = RcodeServerFailure" for m
    using that by (simp add: put_failure option.map_ident)
  then show ?thesis using assms by (auto simp: cache_lead_def Let_def no_answer_def split: option.splits)
qed


definition aged_cache :: dns_cache where
  "aged_cache = put_section (build_entry DefaultCacheConfig sample_q sample_resp [] 0 False (120 * second)) (sample_cache\<lparr>dc_config := (dc_config sample_cache)\<lparr>cc_Optimistic := False\<rparr>\<rparr>)"


end
