(* ===== verification/Listen.thy ===== *)
theory Listen
  imports Ddr "HOL-Library.Multiset"
begin

text \<open>
  The listeners of the service and their life cycle (\<open>dns/server.go\<close>,
  \<open>dns/encrypted_config.go\<close>, and the \<open>start...Locked\<close> functions of
  \<open>dns/server_dot.go\<close>, \<open>dns/server_doh.go\<close> and \<open>dns/server_doq.go\<close>).

  A socket is its network and address. Whether the operating system lets one be bound is a
  parameter, a function of the sockets the service has open. \<open>sv_open\<close> observes these: binding adds to
  it and closing removes from it. Accept loops and the wait for queries in flight are outside.
\<close>

section \<open>Addresses\<close>

definition is_v6 :: "ip \<Rightarrow> bool" where
  "is_v6 a = (a \<noteq> [] \<and> To4 a = [])"

definition isIPv6 :: "string \<Rightarrow> bool" where
  "isIPv6 addr =
     (case SplitHostPort addr of
        Some (host, _) \<Rightarrow> is_v6 (ParseIP host)
      | None \<Rightarrow> is_v6 (ParseIP (trim_with (\<lambda>c. c = CHR ''['' \<or> c = CHR '']'') addr)))"

text \<open>The ports on which some address has the given wildcard host.\<close>

definition wildcard_ports :: "string \<Rightarrow> string list \<Rightarrow> string list" where
  "wildcard_ports host addrs =
     List.map_filter (\<lambda>a. case SplitHostPort a of Some (h, p) \<Rightarrow> if h = host then Some p else None | None \<Rightarrow> None) addrs"

definition shadowed :: "string list \<Rightarrow> string list \<Rightarrow> string \<Rightarrow> bool" where
  "shadowed v4 v6 a =
     (case SplitHostPort a of None \<Rightarrow> False
      | Some (host, port) \<Rightarrow>
          port \<in> set v4 \<and> host \<noteq> ''0.0.0.0'' \<and> \<not> isIPv6 a \<or> port \<in> set v6 \<and> host \<noteq> ''::'' \<and> isIPv6 a)"

fun dedup_loop :: "string list \<Rightarrow> string list \<Rightarrow> string list \<Rightarrow> string list \<Rightarrow> string list" where
  "dedup_loop v4 v6 [] result = result"
| "dedup_loop v4 v6 (a # rest) result =
     (if a \<in> set result then dedup_loop v4 v6 rest result
      else if shadowed v4 v6 a then dedup_loop v4 v6 rest result
      else dedup_loop v4 v6 rest (result @ [a]))"

definition DeduplicateAddresses :: "string list \<Rightarrow> string list" where
  "DeduplicateAddresses addrs = dedup_loop (wildcard_ports ''0.0.0.0'' addrs) (wildcard_ports ''::'' addrs) addrs []"

section \<open>Configurations\<close>

record ServerConfig =
  sc_UDPAddresses :: "string list"
  sc_TCPAddresses :: "string list"
  sc_ReadTimeout :: duration
  sc_WriteTimeout :: duration

definition DefaultServerConfig :: ServerConfig where
  "DefaultServerConfig = \<lparr>sc_UDPAddresses = [''127.0.0.1:53'', ''[::1]:53''], sc_TCPAddresses = [''127.0.0.1:53'', ''[::1]:53''],
     sc_ReadTimeout = 5 * second, sc_WriteTimeout = 5 * second\<rparr>"

definition DefaultDoTPort :: int where "DefaultDoTPort = 853"
definition DefaultDoHPort :: int where "DefaultDoHPort = 443"
definition DefaultDoQPort :: int where "DefaultDoQPort = 853"

text \<open>The three listen addresses differ in the port only.\<close>

definition listen_address :: "string \<Rightarrow> int \<Rightarrow> int \<Rightarrow> string" where
  "listen_address addr port dflt =
     (let h = trim_space addr in
      JoinHostPort (if h = [] then ''0.0.0.0'' else h) (itoa (nat (if port \<le> 0 \<or> port > 65535 then dflt else port))))"

definition DoTListenAddress :: "EncryptedServerConfig \<Rightarrow> string" where
  "DoTListenAddress c = listen_address (ec_ListenAddress c) (ec_DoTPort c) DefaultDoTPort"

definition DoHListenAddress :: "EncryptedServerConfig \<Rightarrow> string" where
  "DoHListenAddress c = listen_address (ec_ListenAddress c) (ec_DoHPort c) DefaultDoHPort"

definition DoQListenAddress :: "EncryptedServerConfig \<Rightarrow> string" where
  "DoQListenAddress c = listen_address (ec_ListenAddress c) (ec_DoQPort c) DefaultDoQPort"

datatype listen_error =
    BadPort string int
  | BadListenAddress string
  | NotConfigured
  | NoCertificate
  | BindFailed string string
  | AlreadyStarted
  | NothingBound

definition bad_port :: "int \<Rightarrow> bool" where "bad_port p = (p \<le> 0 \<or> p > 65535)"

definition encrypted_Validate :: "EncryptedServerConfig \<Rightarrow> listen_error option" where
  "encrypted_Validate c =
     (if ec_DoTEnabled c \<and> bad_port (ec_DoTPort c) then Some (BadPort ''DoT'' (ec_DoTPort c))
      else if ec_DoHEnabled c \<and> bad_port (ec_DoHPort c) then Some (BadPort ''DoH'' (ec_DoHPort c))
      else if ec_DoQEnabled c \<and> bad_port (ec_DoQPort c) then Some (BadPort ''DoQ'' (ec_DoQPort c))
      else if ec_ListenAddress c \<noteq> [] \<and> ParseIP (trim_space (ec_ListenAddress c)) = [] then Some (BadListenAddress (ec_ListenAddress c))
      else None)"

section \<open>The server\<close>

type_synonym socket = "string \<times> string"

text \<open>Whether a socket can be bound, given those the service holds.\<close>

type_synonym bind_rule = "socket list \<Rightarrow> socket \<Rightarrow> bool"

record dns_server =
  sv_config :: ServerConfig
  sv_servers :: "socket list"
  sv_started :: bool
  sv_closed :: bool
  sv_encrypted :: "EncryptedServerConfig option"
  sv_dot :: "socket option"
  sv_doh :: "(socket \<times> string) option"       \<comment> \<open>with the path of its routes\<close>
  sv_doq :: "socket option"
  sv_open :: "socket list"

definition NewServer :: "ServerConfig \<Rightarrow> dns_server" where
  "NewServer config =
     (let c0 = (if sc_UDPAddresses config = [] \<and> sc_TCPAddresses config = [] then DefaultServerConfig else config)
      in \<lparr>sv_config = c0\<lparr>sc_UDPAddresses := DeduplicateAddresses (sc_UDPAddresses c0), sc_TCPAddresses := DeduplicateAddresses (sc_TCPAddresses c0),
            sc_ReadTimeout := (if sc_ReadTimeout c0 \<le> 0 then 5 * second else sc_ReadTimeout c0),
            sc_WriteTimeout := (if sc_WriteTimeout c0 \<le> 0 then 5 * second else sc_WriteTimeout c0)\<rparr>,
          sv_servers = [], sv_started = False, sv_closed = False, sv_encrypted = None, sv_dot = None, sv_doh = None, sv_doq = None, sv_open = []\<rparr>)"

definition SetEncryptedConfig :: "EncryptedServerConfig option \<Rightarrow> dns_server \<Rightarrow> dns_server" where
  "SetEncryptedConfig cfg s = s\<lparr>sv_encrypted := cfg\<rparr>"

definition EncryptedEnabled :: "dns_server \<Rightarrow> bool" where
  "EncryptedEnabled s = (case sv_encrypted s of None \<Rightarrow> False | Some c \<Rightarrow> ec_DoTEnabled c \<or> ec_DoHEnabled c \<or> ec_DoQEnabled c)"

definition queryTimeout :: "dns_server \<Rightarrow> duration" where
  "queryTimeout s =
     (let t = wrap64 (sc_ReadTimeout (sv_config s) + sc_WriteTimeout (sv_config s)) in if t \<le> 0 then 5 * second else t)"

definition serving :: "dns_server \<Rightarrow> bool" where "serving s = (sv_started s \<and> \<not> sv_closed s)"

definition sv_ServerName :: "dns_server \<Rightarrow> string" where
  "sv_ServerName s = (case sv_encrypted s of None \<Rightarrow> [] | Some c \<Rightarrow> ec_ServerName c)"

definition sv_DoHPath :: "dns_server \<Rightarrow> string" where
  "sv_DoHPath s =
     (case sv_doh s of Some (_, p) \<Rightarrow> if p \<noteq> [] then p else (case sv_encrypted s of None \<Rightarrow> [] | Some c \<Rightarrow> normalizeDoHPath (ec_DoHPath c))
      | None \<Rightarrow> (case sv_encrypted s of None \<Rightarrow> [] | Some c \<Rightarrow> normalizeDoHPath (ec_DoHPath c)))"

definition close_sockets :: "socket list \<Rightarrow> socket list \<Rightarrow> socket list" where
  "close_sockets ss opened = foldl (\<lambda>os s. remove1 s os) opened ss"

section \<open>Encrypted listeners\<close>

text \<open>What the three start functions share: the checks, the bind, and where the listener is kept.\<close>

definition startListener :: "bind_rule \<Rightarrow> (EncryptedServerConfig \<Rightarrow> socket) \<Rightarrow> (EncryptedServerConfig \<Rightarrow> socket \<Rightarrow> dns_server \<Rightarrow> dns_server) \<Rightarrow>
    dns_server \<Rightarrow> listen_error option \<times> dns_server" where
  "startListener bind sock keep s =
     (case sv_encrypted s of None \<Rightarrow> (Some NotConfigured, s)
      | Some cfg \<Rightarrow>
         (if \<not> ec_TLSConfig cfg then (Some NoCertificate, s)
          else case encrypted_Validate cfg of Some e \<Rightarrow> (Some e, s)
           | None \<Rightarrow>
               (let k = sock cfg in
                if bind (sv_open s) k then (None, keep cfg k (s\<lparr>sv_open := sv_open s @ [k]\<rparr>))
                else (Some (BindFailed (fst k) (snd k)), s))))"

definition tcp_network :: "string \<Rightarrow> string" where
  "tcp_network addr = (if isIPv6 addr then ''tcp6'' else ''tcp4'')"

definition startDoTLocked :: "bind_rule \<Rightarrow> dns_server \<Rightarrow> listen_error option \<times> dns_server" where
  "startDoTLocked bind =
     startListener bind (\<lambda>c. (tcp_network (DoTListenAddress c), DoTListenAddress c)) (\<lambda>_ k s. s\<lparr>sv_dot := Some k\<rparr>)"

definition startDoHLocked :: "bind_rule \<Rightarrow> dns_server \<Rightarrow> listen_error option \<times> dns_server" where
  "startDoHLocked bind =
     startListener bind (\<lambda>c. (tcp_network (DoHListenAddress c), DoHListenAddress c))
       (\<lambda>c k s. s\<lparr>sv_doh := Some (k, normalizeDoHPath (ec_DoHPath c))\<rparr>)"

definition startDoQLocked :: "bind_rule \<Rightarrow> dns_server \<Rightarrow> listen_error option \<times> dns_server" where
  "startDoQLocked bind = startListener bind (\<lambda>c. (''udp'', DoQListenAddress c)) (\<lambda>_ k s. s\<lparr>sv_doq := Some k\<rparr>)"

text \<open>Errors are only logged.\<close>

definition startEncryptedListeners :: "bind_rule \<Rightarrow> EncryptedServerConfig \<Rightarrow> dns_server \<Rightarrow> dns_server" where
  "startEncryptedListeners bind cfg s =
     (let s0 = s\<lparr>sv_encrypted := Some cfg\<rparr>;
          s1 = (if ec_DoTEnabled cfg then snd (startDoTLocked bind s0) else s0);
          s2 = (if ec_DoHEnabled cfg then snd (startDoHLocked bind s1) else s1)
      in if ec_DoQEnabled cfg then snd (startDoQLocked bind s2) else s2)"

definition encrypted_sockets :: "dns_server \<Rightarrow> socket list" where
  "encrypted_sockets s = (case sv_dot s of None \<Rightarrow> [] | Some k \<Rightarrow> [k]) @ (case sv_doh s of None \<Rightarrow> [] | Some (k, _) \<Rightarrow> [k]) @
     (case sv_doq s of None \<Rightarrow> [] | Some k \<Rightarrow> [k])"

text \<open>A reload takes the old listeners under the lock, closes them, and starts the new ones under the lock again.\<close>

definition reload_take :: "EncryptedServerConfig option \<Rightarrow> dns_server \<Rightarrow> socket list \<times> dns_server" where
  "reload_take cfg s = (encrypted_sockets s, s\<lparr>sv_dot := None, sv_doh := None, sv_doq := None, sv_encrypted := cfg\<rparr>)"

definition close_all :: "socket list \<Rightarrow> dns_server \<Rightarrow> dns_server" where
  "close_all ks s = s\<lparr>sv_open := close_sockets ks (sv_open s)\<rparr>"

definition reload_goes_on :: "EncryptedServerConfig option \<Rightarrow> dns_server \<Rightarrow> bool" where
  "reload_goes_on cfg s = (\<not> (cfg = None \<or> \<not> sv_started s \<or> sv_closed s))"

definition ReloadEncrypted :: "bind_rule \<Rightarrow> EncryptedServerConfig option \<Rightarrow> dns_server \<Rightarrow> dns_server" where
  "ReloadEncrypted bind cfg s =
     (let (old, s1) = reload_take cfg s; s2 = close_all old s1
      in if reload_goes_on cfg s2 then startEncryptedListeners bind (the cfg) s2 else s2)"

section \<open>Start and shutdown\<close>

text \<open>
  One pass over the addresses of a protocol: an IPv6 address that cannot be bound is skipped, any
  other ends the start after the sockets bound so far are closed.
\<close>

fun bind_loop :: "bind_rule \<Rightarrow> string \<Rightarrow> string list \<Rightarrow> socket list \<Rightarrow> socket list \<Rightarrow> (listen_error \<times> socket list) + socket list \<times> socket list" where
  "bind_loop bind proto [] bound opened = Inr (bound, opened)"
| "bind_loop bind proto (addr # rest) bound opened =
     (let k = (proto @ (if isIPv6 addr then ''6'' else ''4''), addr) in
      if bind opened k then bind_loop bind proto rest (bound @ [k]) (opened @ [k])
      else if isIPv6 addr then bind_loop bind proto rest bound opened
      else Inl (BindFailed proto addr, close_sockets bound opened))"

definition Start_locked :: "bind_rule \<Rightarrow> dns_server \<Rightarrow> listen_error option \<times> dns_server" where
  "Start_locked bind s =
     (if sv_started s then (Some AlreadyStarted, s)
      else case bind_loop bind ''udp'' (sc_UDPAddresses (sv_config s)) [] (sv_open s) of
        Inl (e, opened) \<Rightarrow> (Some e, s\<lparr>sv_open := opened\<rparr>)
      | Inr (b1, o1) \<Rightarrow>
         (case bind_loop bind ''tcp'' (sc_TCPAddresses (sv_config s)) b1 o1 of
            Inl (e, opened) \<Rightarrow> (Some e, s\<lparr>sv_open := opened\<rparr>)
          | Inr (bound, opened) \<Rightarrow>
             (if bound = [] then (Some NothingBound, s\<lparr>sv_open := close_sockets bound opened\<rparr>)
              else (None, s\<lparr>sv_servers := bound, sv_started := True, sv_closed := False, sv_open := opened\<rparr>))))"

definition Start :: "bind_rule \<Rightarrow> dns_server \<Rightarrow> listen_error option \<times> dns_server" where
  "Start bind s =
     (case Start_locked bind s of
        (Some e, s1) \<Rightarrow> (Some e, s1)
      | (None, s1) \<Rightarrow> (None, case sv_encrypted s1 of None \<Rightarrow> s1 | Some cfg \<Rightarrow> startEncryptedListeners bind cfg s1))"

definition Shutdown :: "dns_server \<Rightarrow> dns_server" where
  "Shutdown s =
     (if \<not> sv_started s \<or> sv_closed s then s
      else close_all (sv_servers s @ encrypted_sockets s)
        (s\<lparr>sv_closed := True, sv_started := False, sv_servers := [], sv_dot := None, sv_doh := None, sv_doq := None\<rparr>))"

section \<open>Interleaved callers\<close>

text \<open>
  What a caller still has to do after a critical section: start the encrypted listeners, close what a
  reload took, start what it configures, or close what a shutdown took. \<open>reloadMu\<close> admits one reload at a time.
\<close>

datatype life_pc =
    Idle
  | Starting EncryptedServerConfig
  | Closing "socket list" "EncryptedServerConfig option"
  | Reloading EncryptedServerConfig
  | ClosingDown "socket list"

record life =
  lf_server :: dns_server
  lf_pc :: "nat \<Rightarrow> life_pc"
  lf_reload :: bool

definition at_pc :: "life \<Rightarrow> nat \<Rightarrow> life_pc \<Rightarrow> dns_server \<Rightarrow> life" where
  "at_pc l i pc s = l\<lparr>lf_server := s, lf_pc := (lf_pc l)(i := pc)\<rparr>"

definition shutdown_take :: "dns_server \<Rightarrow> socket list \<times> dns_server" where
  "shutdown_take s = (sv_servers s @ encrypted_sockets s,
     s\<lparr>sv_closed := True, sv_started := False, sv_servers := [], sv_dot := None, sv_doh := None, sv_doq := None\<rparr>)"

inductive life_step :: "bind_rule \<Rightarrow> life \<Rightarrow> life \<Rightarrow> bool" for bind where
  start_fails: "lf_pc l i = Idle \<Longrightarrow> Start_locked bind (lf_server l) = (Some e, s) \<Longrightarrow> life_step bind l (at_pc l i Idle s)"
| start_plain: "lf_pc l i = Idle \<Longrightarrow> Start_locked bind (lf_server l) = (None, s) \<Longrightarrow> sv_encrypted s = None \<Longrightarrow> life_step bind l (at_pc l i Idle s)"
| start_more: "lf_pc l i = Idle \<Longrightarrow> Start_locked bind (lf_server l) = (None, s) \<Longrightarrow> sv_encrypted s = Some cfg \<Longrightarrow>
    life_step bind l (at_pc l i (Starting cfg) s)"
| start_encrypted: "lf_pc l i = Starting cfg \<Longrightarrow> life_step bind l (at_pc l i Idle (startEncryptedListeners bind cfg (lf_server l)))"
| reload_takes: "lf_pc l i = Idle \<Longrightarrow> \<not> lf_reload l \<Longrightarrow> reload_take cfg (lf_server l) = (old, s) \<Longrightarrow>
    life_step bind l ((at_pc l i (Closing old cfg) s)\<lparr>lf_reload := True\<rparr>)"
| reload_ends: "lf_pc l i = Closing old cfg \<Longrightarrow> \<not> reload_goes_on cfg (lf_server l) \<Longrightarrow>
    life_step bind l ((at_pc l i Idle (close_all old (lf_server l)))\<lparr>lf_reload := False\<rparr>)"
| reload_closes: "lf_pc l i = Closing old (Some cfg) \<Longrightarrow> reload_goes_on (Some cfg) (lf_server l) \<Longrightarrow>
    life_step bind l (at_pc l i (Reloading cfg) (close_all old (lf_server l)))"
| reload_starts: "lf_pc l i = Reloading cfg \<Longrightarrow>
    life_step bind l ((at_pc l i Idle (startEncryptedListeners bind cfg (lf_server l)))\<lparr>lf_reload := False\<rparr>)"
| shutdown_takes: "lf_pc l i = Idle \<Longrightarrow> serving (lf_server l) \<Longrightarrow> shutdown_take (lf_server l) = (ks, s) \<Longrightarrow>
    life_step bind l (at_pc l i (ClosingDown ks) s)"
| shutdown_closes: "lf_pc l i = ClosingDown ks \<Longrightarrow> life_step bind l (at_pc l i Idle (close_all ks (lf_server l)))"

section \<open>Addresses: facts\<close>

lemma wildcard_ports_set: "p \<in> set (wildcard_ports h addrs) \<longleftrightarrow> (\<exists>w\<in>set addrs. SplitHostPort w = Some (h, p))"
  by (induction addrs) (auto simp: wildcard_ports_def List.map_filter_simps split: option.splits prod.splits if_splits)

lemma dedup_loop_spec:
  "distinct result \<Longrightarrow> distinct (dedup_loop v4 v6 addrs result) \<and>
     set (dedup_loop v4 v6 addrs result) = set result \<union> {a \<in> set addrs. \<not> shadowed v4 v6 a}"
  by (induction v4 v6 addrs result rule: dedup_loop.induct) auto

lemma isIPv6_wildcard:
  "SplitHostPort w = Some (''0.0.0.0'', p) \<Longrightarrow> \<not> isIPv6 w" "SplitHostPort w = Some (''::'', p) \<Longrightarrow> isIPv6 w"
proof -
  have "\<not> is_v6 (ParseIP ''0.0.0.0'')" "is_v6 (ParseIP ''::'')" by code_simp+
  then show "SplitHostPort w = Some (''0.0.0.0'', p) \<Longrightarrow> \<not> isIPv6 w" "SplitHostPort w = Some (''::'', p) \<Longrightarrow> isIPv6 w"
    by (simp_all add: isIPv6_def)
qed

lemma wildcards_kept:
  assumes "w \<in> set addrs" "SplitHostPort w = Some (h, p)" "h = ''0.0.0.0'' \<or> h = ''::''"
  shows "w \<in> set (DeduplicateAddresses addrs)"
proof -
  have "\<not> shadowed v4 v6 w" for v4 v6
    using assms(2,3) isIPv6_wildcard [of w p] by (auto simp: shadowed_def)
  then show ?thesis using assms(1) dedup_loop_spec [of "[]"] by (simp add: DeduplicateAddresses_def)
qed

text \<open>
  Removing duplicates keeps every address reachable: the result has no duplicates and only addresses
  of the input; an address that is left out has the port of a wildcard address of its own family
  that is kept, and beside such a wildcard no other address of that family and port is kept.
\<close>

theorem DeduplicateAddresses_covers:
  "distinct (DeduplicateAddresses addrs) \<and> set (DeduplicateAddresses addrs) \<subseteq> set addrs \<and>
   (\<forall>a host port. a \<in> set addrs \<and> SplitHostPort a = Some (host, port) \<longrightarrow>
      (let wild = (if isIPv6 a then ''::'' else ''0.0.0.0'');
           covered = (\<exists>w\<in>set (DeduplicateAddresses addrs). SplitHostPort w = Some (wild, port))
       in a \<in> set (DeduplicateAddresses addrs) \<longleftrightarrow> host = wild \<or> \<not> covered))"
proof -
  let ?v4 = "wildcard_ports ''0.0.0.0'' addrs" and ?v6 = "wildcard_ports ''::'' addrs"
  have d: "distinct (DeduplicateAddresses addrs)" "set (DeduplicateAddresses addrs) = {a \<in> set addrs. \<not> shadowed ?v4 ?v6 a}"
    using dedup_loop_spec [of "[]" ?v4 ?v6 addrs] by (simp_all add: DeduplicateAddresses_def)
  have k: "(\<exists>w\<in>set (DeduplicateAddresses addrs). SplitHostPort w = Some (h, p)) \<longleftrightarrow> p \<in> set (wildcard_ports h addrs)"
    if "h = ''0.0.0.0'' \<or> h = ''::''" for h p
    using that wildcards_kept [of _ addrs h p] d(2) by (auto simp: wildcard_ports_set)
  have "a \<in> set (DeduplicateAddresses addrs) \<longleftrightarrow>
      host = (if isIPv6 a then ''::'' else ''0.0.0.0'') \<or> port \<notin> set (if isIPv6 a then ?v6 else ?v4)"
    if "a \<in> set addrs" "SplitHostPort a = Some (host, port)" for a host port
    using that d(2) isIPv6_wildcard [of a port] by (auto simp: shadowed_def)
  then have "\<forall>a host port. a \<in> set addrs \<and> SplitHostPort a = Some (host, port) \<longrightarrow>
      (let wild = (if isIPv6 a then ''::'' else ''0.0.0.0'');
           covered = (\<exists>w\<in>set (DeduplicateAddresses addrs). SplitHostPort w = Some (wild, port))
       in a \<in> set (DeduplicateAddresses addrs) \<longleftrightarrow> host = wild \<or> \<not> covered)"
    unfolding Let_def by (simp add: k)
  with d show ?thesis by blast
qed

section \<open>Life cycle: facts\<close>

lemma mset_close_sockets: "mset (close_sockets ks os) = mset os - mset ks"
  by (induction ks arbitrary: os) (simp_all add: close_sockets_def)

definition owned :: "dns_server \<Rightarrow> socket list" where "owned s = sv_servers s @ encrypted_sockets s"

definition life_inv :: "dns_server \<Rightarrow> bool" where
  "life_inv s \<longleftrightarrow> mset (sv_open s) = mset (owned s) \<and> (sv_started s \<longrightarrow> sv_servers s \<noteq> [] \<and> \<not> sv_closed s) \<and>
     (\<not> sv_started s \<longrightarrow> owned s = [])"

lemma bind_loop_Inr: "bind_loop bind pr addrs bound opened = Inr (b, os) \<Longrightarrow> \<exists>new. b = bound @ new \<and> os = opened @ new"
  by (induction bind pr addrs bound opened rule: bind_loop.induct) (fastforce simp: Let_def split: if_splits)+

lemma bind_loop_Inl: "bind_loop bind pr addrs bound opened = Inl (e, os) \<Longrightarrow> mset os = mset opened - mset bound"
  by (induction bind pr addrs bound opened rule: bind_loop.induct) (fastforce simp: Let_def mset_close_sockets split: if_splits)+

lemma bind_loop_binds:
  "bind_loop bind pr addrs bound opened = Inr (b, os) \<Longrightarrow> a \<in> set addrs \<Longrightarrow> \<not> isIPv6 a \<Longrightarrow> (pr @ ''4'', a) \<in> set b"
proof (induction bind pr addrs bound opened rule: bind_loop.induct)
  case (2 bind proto addr rest bound opened)
  let ?k = "(proto @ (if isIPv6 addr then ''6'' else ''4''), addr)"
  show ?case
  proof (cases "bind opened ?k")
    case True
    then have r: "bind_loop bind proto rest (bound @ [?k]) (opened @ [?k]) = Inr (b, os)" using 2(3) by (simp add: Let_def)
    have "?k \<in> set b" using bind_loop_Inr [OF r] by auto
    with 2(1) [OF refl True r] 2(4,5) show ?thesis by auto
  next
    case False
    with 2(2) [OF refl False] 2(3-5) show ?thesis by (auto simp: Let_def split: if_splits)
  qed
qed simp

lemma Start_locked_cases:
  assumes "Start_locked bind s = (err, s')"
  shows "(\<exists>e os. err = Some e \<and> s' = s\<lparr>sv_open := os\<rparr> \<and> mset os = mset (sv_open s)) \<or>
    (\<exists>bound. err = None \<and> \<not> sv_started s \<and> bound \<noteq> [] \<and>
      s' = s\<lparr>sv_servers := bound, sv_started := True, sv_closed := False, sv_open := sv_open s @ bound\<rparr>)"
proof (cases "sv_started s")
  case False
  show ?thesis
  proof (cases "bind_loop bind ''udp'' (sc_UDPAddresses (sv_config s)) [] (sv_open s)")
    case (Inl r)
    with False assms show ?thesis by (cases r) (auto simp: Start_locked_def bind_loop_Inl)
  next
    case (Inr r)
    then obtain n1 where r: "r = (n1, sv_open s @ n1)" using bind_loop_Inr [of bind "''udp''" _ "[]" "sv_open s"] by (cases r) auto
    show ?thesis
    proof (cases "bind_loop bind ''tcp'' (sc_TCPAddresses (sv_config s)) n1 (sv_open s @ n1)")
      case t: (Inl q)
      then show ?thesis using False assms Inr r by (cases q) (auto simp: Start_locked_def bind_loop_Inl)
    next
      case t: (Inr q)
      then obtain n2 where "q = (n1 @ n2, sv_open s @ n1 @ n2)"
        using bind_loop_Inr [of bind "''tcp''" "sc_TCPAddresses (sv_config s)" n1 "sv_open s @ n1"] by (cases q) fastforce
      with t show ?thesis using False assms Inr r by (auto simp: Start_locked_def mset_close_sockets split: if_splits)
    qed
  qed
qed (use assms in \<open>auto simp: Start_locked_def intro: exI [of _ "sv_open s"]\<close>)

lemma owned_simps [simp]:
  "owned (s\<lparr>sv_open := os\<rparr>) = owned s" "owned (s\<lparr>sv_encrypted := e\<rparr>) = owned s"
  "encrypted_sockets (s\<lparr>sv_open := os\<rparr>) = encrypted_sockets s"
  "encrypted_sockets (s\<lparr>sv_dot := None, sv_doh := None, sv_doq := None\<rparr>) = []"
  by (simp_all add: owned_def encrypted_sockets_def)

lemma startDoT_ok:
  assumes "mset (sv_open s) = mset (owned s)" "sv_dot s = None" "s' = snd (startDoTLocked bind s)"
  shows "mset (sv_open s') = mset (owned s') \<and> sv_doh s' = sv_doh s \<and> sv_doq s' = sv_doq s \<and>
    sv_servers s' = sv_servers s \<and> sv_started s' = sv_started s \<and> sv_closed s' = sv_closed s"
  using assms by (auto simp: startDoTLocked_def startListener_def Let_def owned_def encrypted_sockets_def split: option.splits)

lemma startDoH_ok:
  assumes "mset (sv_open s) = mset (owned s)" "sv_doh s = None" "s' = snd (startDoHLocked bind s)"
  shows "mset (sv_open s') = mset (owned s') \<and> sv_doq s' = sv_doq s \<and>
    sv_servers s' = sv_servers s \<and> sv_started s' = sv_started s \<and> sv_closed s' = sv_closed s"
  using assms by (auto simp: startDoHLocked_def startListener_def Let_def owned_def encrypted_sockets_def split: option.splits)

lemma startDoQ_ok:
  assumes "mset (sv_open s) = mset (owned s)" "sv_doq s = None" "s' = snd (startDoQLocked bind s)"
  shows "mset (sv_open s') = mset (owned s') \<and>
    sv_servers s' = sv_servers s \<and> sv_started s' = sv_started s \<and> sv_closed s' = sv_closed s"
  using assms by (auto simp: startDoQLocked_def startListener_def Let_def owned_def encrypted_sockets_def split: option.splits)

lemma startEncryptedListeners_ok:
  assumes "mset (sv_open s) = mset (owned s)" "sv_dot s = None" "sv_doh s = None" "sv_doq s = None" "s' = startEncryptedListeners bind cfg s"
  shows "mset (sv_open s') = mset (owned s') \<and> sv_servers s' = sv_servers s \<and> sv_started s' = sv_started s \<and> sv_closed s' = sv_closed s"
proof -
  define s0 where "s0 = s\<lparr>sv_encrypted := Some cfg\<rparr>"
  define s1 where "s1 = (if ec_DoTEnabled cfg then snd (startDoTLocked bind s0) else s0)"
  define s2 where "s2 = (if ec_DoHEnabled cfg then snd (startDoHLocked bind s1) else s1)"
  have a0: "mset (sv_open s0) = mset (owned s0)" "sv_dot s0 = None" "sv_doh s0 = None" "sv_doq s0 = None"
    "sv_servers s0 = sv_servers s" "sv_started s0 = sv_started s" "sv_closed s0 = sv_closed s"
    using assms by (simp_all add: s0_def)
  have a1: "mset (sv_open s1) = mset (owned s1) \<and> sv_doh s1 = None \<and> sv_doq s1 = None \<and>
      sv_servers s1 = sv_servers s \<and> sv_started s1 = sv_started s \<and> sv_closed s1 = sv_closed s"
    using a0 startDoT_ok [OF a0(1,2) refl, of bind] by (simp add: s1_def)
  have a2: "mset (sv_open s2) = mset (owned s2) \<and> sv_doq s2 = None \<and>
      sv_servers s2 = sv_servers s \<and> sv_started s2 = sv_started s \<and> sv_closed s2 = sv_closed s"
    using a1 startDoH_ok [of s1 _ bind] by (simp add: s2_def)
  have "s' = (if ec_DoQEnabled cfg then snd (startDoQLocked bind s2) else s2)"
    using assms(5) by (simp add: startEncryptedListeners_def Let_def s0_def s1_def s2_def)
  with a2 startDoQ_ok [of s2 _ bind] show ?thesis by simp
qed

datatype server_op = OpStart | OpShutdown | OpReload "EncryptedServerConfig option" | OpConfigure "EncryptedServerConfig option"

fun run_op :: "bind_rule \<Rightarrow> server_op \<Rightarrow> dns_server \<Rightarrow> dns_server" where
  "run_op bind OpStart s = snd (Start bind s)"
| "run_op bind OpShutdown s = Shutdown s"
| "run_op bind (OpReload cfg) s = ReloadEncrypted bind cfg s"
| "run_op bind (OpConfigure cfg) s = SetEncryptedConfig cfg s"

lemma Start_inv:
  assumes "life_inv s" shows "life_inv (snd (Start bind s))"
proof -
  obtain err s1 where b: "Start_locked bind s = (err, s1)" by fastforce
  from Start_locked_cases [OF b] show ?thesis
  proof (elim disjE exE conjE)
    fix e os assume "err = Some e" "s1 = s\<lparr>sv_open := os\<rparr>" "mset os = mset (sv_open s)"
    with b assms show ?thesis by (simp add: Start_def life_inv_def)
  next
    fix bound assume a: "err = None" "\<not> sv_started s" "bound \<noteq> []"
      "s1 = s\<lparr>sv_servers := bound, sv_started := True, sv_closed := False, sv_open := sv_open s @ bound\<rparr>"
    have e: "sv_open s = []" "sv_dot s = None" "sv_doh s = None" "sv_doq s = None"
      using assms a(2) by (auto simp: life_inv_def owned_def encrypted_sockets_def split: option.splits prod.splits)
    have i: "mset (sv_open s1) = mset (owned s1)" "sv_dot s1 = None" "sv_doh s1 = None" "sv_doq s1 = None"
      using a e by (simp_all add: owned_def encrypted_sockets_def)
    show ?thesis
      using b a i startEncryptedListeners_ok [OF i refl, of bind] by (auto simp: Start_def life_inv_def split: option.split)
  qed
qed

lemma Reload_inv:
  assumes "life_inv s" shows "life_inv (ReloadEncrypted bind cfg s)"
proof -
  define s2 where "s2 = close_all (encrypted_sockets s) (s\<lparr>sv_dot := None, sv_doh := None, sv_doq := None, sv_encrypted := cfg\<rparr>)"
  have r: "ReloadEncrypted bind cfg s = (if reload_goes_on cfg s2 then startEncryptedListeners bind (the cfg) s2 else s2)"
    by (simp add: ReloadEncrypted_def reload_take_def s2_def)
  have i: "mset (sv_open s2) = mset (owned s2)" "sv_dot s2 = None" "sv_doh s2 = None" "sv_doq s2 = None"
    "sv_servers s2 = sv_servers s" "sv_started s2 = sv_started s" "sv_closed s2 = sv_closed s" "encrypted_sockets s2 = []"
    using assms by (simp_all add: s2_def close_all_def life_inv_def owned_def mset_close_sockets encrypted_sockets_def)
  have l: "life_inv s2" using assms i by (auto simp: life_inv_def owned_def)
  show ?thesis
    using r l i startEncryptedListeners_ok [OF i(1-4) refl, of bind "the cfg"] by (auto simp: life_inv_def reload_goes_on_def)
qed

lemma Shutdown_inv:
  assumes "life_inv s" shows "life_inv (Shutdown s)"
  using assms by (auto simp: life_inv_def Shutdown_def close_all_def mset_close_sockets owned_def encrypted_sockets_def)

lemma run_op_inv: "life_inv s \<Longrightarrow> life_inv (run_op bind op s)"
  by (cases op) (auto simp: Start_inv Reload_inv Shutdown_inv, simp add: SetEncryptedConfig_def life_inv_def owned_def encrypted_sockets_def)

text \<open>
  C21. However starts, shutdowns, reloads and configurations follow one another, and whatever the
  operating system lets be bound, no socket is lost: the open sockets are those of the
  listeners the server knows, and a server that is not started has none open.
\<close>

theorem server_leaks_no_socket:
  assumes "s = fold (run_op bind) ops (NewServer cfg)"
  shows "mset (sv_open s) = mset (sv_servers s @ encrypted_sockets s) \<and> (sv_started s \<or> sv_open s = [])"
proof -
  have "life_inv (NewServer cfg)" by (simp add: NewServer_def life_inv_def owned_def encrypted_sockets_def Let_def)
  then have "life_inv (fold (run_op bind) ops (NewServer cfg))" by (induction ops rule: rev_induct) (simp_all add: run_op_inv)
  with assms show ?thesis by (auto simp: life_inv_def owned_def)
qed

theorem server_leaks_no_socket_witness:
  "\<exists>s. s = fold (run_op (\<lambda>os k. k \<notin> set os)) [OpStart, OpShutdown] (NewServer DefaultServerConfig) \<and>
     (sv_started s \<or> sv_open s = [])"
  using server_leaks_no_socket [OF refl, of "\<lambda>os k. k \<notin> set os" "[OpStart, OpShutdown]" DefaultServerConfig] by blast

text \<open>
  A start either fails and leaves the server and its sockets as they were, or at least one
  listener is bound and, of the configured addresses, every one that is not IPv6.
\<close>

theorem start_all_or_nothing:
  assumes "Start_locked bind s = (err, s')"
  shows "if err = None
    then sv_servers s' \<noteq> [] \<and> serving s' \<and> (\<forall>a\<in>set (sc_UDPAddresses (sv_config s)). isIPv6 a \<or> (''udp4'', a) \<in> set (sv_servers s')) \<and>
      (\<forall>a\<in>set (sc_TCPAddresses (sv_config s)). isIPv6 a \<or> (''tcp4'', a) \<in> set (sv_servers s'))
    else mset (sv_open s') = mset (sv_open s) \<and> s' = s\<lparr>sv_open := sv_open s'\<rparr>"
proof (cases err)
  case None
  obtain bound where b: "bound \<noteq> []" "s' = s\<lparr>sv_servers := bound, sv_started := True, sv_closed := False, sv_open := sv_open s @ bound\<rparr>" "\<not> sv_started s"
    using Start_locked_cases [OF assms] None by auto
  obtain b1 o1 where u: "bind_loop bind ''udp'' (sc_UDPAddresses (sv_config s)) [] (sv_open s) = Inr (b1, o1)"
    using assms None b(3) by (auto simp: Start_locked_def split: sum.splits)
  obtain b2 o2 where t0: "bind_loop bind ''tcp'' (sc_TCPAddresses (sv_config s)) b1 o1 = Inr (b2, o2)"
    using assms None b(3) u by (auto simp: Start_locked_def split: sum.splits)
  then have "sv_servers s' = b2" using assms None b(3) u by (auto simp: Start_locked_def split: if_splits)
  with b(2) t0 have t: "bind_loop bind ''tcp'' (sc_TCPAddresses (sv_config s)) b1 o1 = Inr (bound, o2)" by simp
  have "set b1 \<subseteq> set bound" using bind_loop_Inr [OF t] by auto
  then have "\<forall>a\<in>set (sc_UDPAddresses (sv_config s)). isIPv6 a \<or> (''udp4'', a) \<in> set bound"
    using bind_loop_binds [OF u] by auto
  moreover have "\<forall>a\<in>set (sc_TCPAddresses (sv_config s)). isIPv6 a \<or> (''tcp4'', a) \<in> set bound"
    using bind_loop_binds [OF t] by auto
  ultimately show ?thesis using None b by (simp add: serving_def)
next
  case (Some e)
  with Start_locked_cases [OF assms] show ?thesis by auto
qed

section \<open>A race of shutdown\<close>

definition dot_config :: EncryptedServerConfig where
  "dot_config = \<lparr>ec_DoTEnabled = True, ec_DoHEnabled = False, ec_DoQEnabled = False, ec_ListenAddress = [], ec_DoTPort = 853, ec_DoHPort = 443,
     ec_DoQPort = 853, ec_DoHPath = [], ec_ServerName = ''dns.home'', ec_TLSConfig = True, ec_TrustedProxy = None, ec_ReadTimeout = 0, ec_IdleTimeout = 0\<rparr>"

definition life_start :: life where
  "life_start = \<lparr>lf_server = SetEncryptedConfig (Some dot_config) (NewServer DefaultServerConfig), lf_pc = (\<lambda>_. Idle), lf_reload = False\<rparr>"

lemma free_bind_runs:
  "Start_locked (\<lambda>os k. k \<notin> set os) (lf_server life_start) = (None, snd (Start_locked (\<lambda>os k. k \<notin> set os) (lf_server life_start)))"
  "sv_encrypted (snd (Start_locked (\<lambda>os k. k \<notin> set os) (lf_server life_start))) = Some dot_config"
  "serving (snd (Start_locked (\<lambda>os k. k \<notin> set os) (lf_server life_start)))"
  by code_simp+


end
