(* ===== verification/Base64_Url.thy ===== *)
theory Base64_Url
  imports Go_Base
begin

text \<open>
  \<open>base64.RawURLEncoding\<close> of the Go standard library, as the DoH entry uses it: the URL alphabet,
  without padding.
\<close>

section \<open>Encoding and decoding\<close>

definition b64_alphabet :: string where
  "b64_alphabet = ''ABCDEFGHIJKLMNOPQRSTUVWXYZabcdefghijklmnopqrstuvwxyz0123456789-_''"

definition b64_char :: "nat \<Rightarrow> char" where "b64_char n = b64_alphabet ! n"

definition b64_value :: "char \<Rightarrow> nat option" where
  "b64_value c = map_of (zip b64_alphabet [0..<64]) c"

definition EncodedLen :: "nat \<Rightarrow> nat" where
  "EncodedLen n = n div 3 * 4 + (n mod 3 * 8 + 5) div 6"

fun b64_encode :: "u8 list \<Rightarrow> string" where
  "b64_encode [] = []"
| "b64_encode [a] = [b64_char (unat a div 4), b64_char (unat a mod 4 * 16)]"
| "b64_encode [a, b] = [b64_char (unat a div 4), b64_char (unat a mod 4 * 16 + unat b div 16), b64_char (unat b mod 16 * 4)]"
| "b64_encode (a # b # c # rest) =
     b64_char (unat a div 4) # b64_char (unat a mod 4 * 16 + unat b div 16) #
     b64_char (unat b mod 16 * 4 + unat c div 64) # b64_char (unat c mod 64) # b64_encode rest"

text \<open>The bytes of a run of digits; the bits left over at the end are not looked at.\<close>

fun b64_bytes :: "nat list \<Rightarrow> u8 list option" where
  "b64_bytes [] = Some []"
| "b64_bytes [_] = None"
| "b64_bytes [x, y] = Some [of_nat (x * 4 + y div 16)]"
| "b64_bytes [x, y, z] = Some [of_nat (x * 4 + y div 16), of_nat (y mod 16 * 16 + z div 4)]"
| "b64_bytes (x # y # z # v # rest) =
     (case b64_bytes rest of None \<Rightarrow> None
      | Some bs \<Rightarrow> Some (of_nat (x * 4 + y div 16) # of_nat (y mod 16 * 16 + z div 4) # of_nat (z mod 4 * 64 + v) # bs))"

text \<open>\<open>DecodeString\<close> skips line ends and refuses any other character outside the alphabet.\<close>

definition b64_decode :: "string \<Rightarrow> u8 list option" where
  "b64_decode s =
     (case those (map b64_value (filter (\<lambda>c. c \<noteq> CHR 0x0A \<and> c \<noteq> CHR 0x0D) s)) of None \<Rightarrow> None | Some ds \<Rightarrow> b64_bytes ds)"

section \<open>Facts\<close>

lemma b64_value_char: "n < 64 \<Longrightarrow> b64_value (b64_char n) = Some n"
proof -
  have "list_all (\<lambda>n. b64_value (b64_char n) = Some n) [0..<64]" by code_simp
  then show "n < 64 \<Longrightarrow> b64_value (b64_char n) = Some n" by (simp add: list_all_iff)
qed

lemma b64_char_plain: "n < 64 \<Longrightarrow> b64_char n \<noteq> CHR 0x0A \<and> b64_char n \<noteq> CHR 0x0D"
proof -
  have "list_all (\<lambda>n. b64_char n \<noteq> CHR 0x0A \<and> b64_char n \<noteq> CHR 0x0D) [0..<64]" by code_simp
  then show "n < 64 \<Longrightarrow> b64_char n \<noteq> CHR 0x0A \<and> b64_char n \<noteq> CHR 0x0D" by (simp add: list_all_iff)
qed

text \<open>The digits of a run of bytes.\<close>

fun b64_digits :: "u8 list \<Rightarrow> nat list" where
  "b64_digits [] = []"
| "b64_digits [a] = [unat a div 4, unat a mod 4 * 16]"
| "b64_digits [a, b] = [unat a div 4, unat a mod 4 * 16 + unat b div 16, unat b mod 16 * 4]"
| "b64_digits (a # b # c # rest) =
     unat a div 4 # (unat a mod 4 * 16 + unat b div 16) # (unat b mod 16 * 4 + unat c div 64) # unat c mod 64 # b64_digits rest"

lemma byte_bound: "unat (a :: u8) < 256" using unsigned_less [of a] by simp

lemma digits_small: "list_all (\<lambda>n. n < 64) (b64_digits bs)"
proof (induction bs rule: b64_digits.induct)
  case (2 a)
  show ?case using byte_bound [of a] by (auto simp: less_mult_imp_div_less)
next
  case (3 a b)
  have "unat a mod 4 * 16 + unat b div 16 < 64" using byte_bound [of b] by linarith
  then show ?case using byte_bound [of a] by (auto simp: less_mult_imp_div_less)
next
  case (4 a b c rest)
  have "unat a mod 4 * 16 + unat b div 16 < 64" "unat b mod 16 * 4 + unat c div 64 < 64"
    using byte_bound [of b] byte_bound [of c] by linarith+
  then show ?case using 4 byte_bound [of a] by (auto simp: less_mult_imp_div_less)
qed simp

lemma encode_digits: "b64_encode bs = map b64_char (b64_digits bs)"
  by (induction bs rule: b64_digits.induct) simp_all

lemma byte_back:
  fixes a b c :: u8
  shows "of_nat (unat a div 4 * 4 + (unat a mod 4 * 16) div 16) = a"
    "of_nat (unat a div 4 * 4 + (unat a mod 4 * 16 + unat b div 16) div 16) = a"
    "of_nat ((unat a mod 4 * 16 + unat b div 16) mod 16 * 16 + (unat b mod 16 * 4) div 4) = b"
    "of_nat ((unat a mod 4 * 16 + unat b div 16) mod 16 * 16 + (unat b mod 16 * 4 + unat c div 64) div 4) = b"
    "of_nat ((unat b mod 16 * 4 + unat c div 64) mod 4 * 64 + unat c mod 64) = c"
proof -
  have r: "of_nat n = x" if "n = unat x" for n and x :: u8 using that by simp
  have b: "unat b div 16 < 16" and c: "unat c div 64 < 4" using byte_bound [of b] byte_bound [of c] by linarith+
  have m: "(unat a mod 4 * 16 + unat b div 16) div 16 = unat a mod 4" "(unat a mod 4 * 16 + unat b div 16) mod 16 = unat b div 16"
    "(unat b mod 16 * 4 + unat c div 64) div 4 = unat b mod 16" "(unat b mod 16 * 4 + unat c div 64) mod 4 = unat c div 64"
    using b c by (simp_all add: div_add1_eq)
  show "of_nat (unat a div 4 * 4 + (unat a mod 4 * 16) div 16) = a" by (rule r) simp
  show "of_nat (unat a div 4 * 4 + (unat a mod 4 * 16 + unat b div 16) div 16) = a" by (rule r) (simp add: m(1))
  show "of_nat ((unat a mod 4 * 16 + unat b div 16) mod 16 * 16 + (unat b mod 16 * 4) div 4) = b" by (rule r) (use b in simp)
  show "of_nat ((unat a mod 4 * 16 + unat b div 16) mod 16 * 16 + (unat b mod 16 * 4 + unat c div 64) div 4) = b"
    unfolding m(2,3) by (rule r) simp
  show "of_nat ((unat b mod 16 * 4 + unat c div 64) mod 4 * 64 + unat c mod 64) = c" unfolding m(4) by (rule r) simp
qed

lemma bytes_digits: "b64_bytes (b64_digits bs) = Some bs"
  by (induction bs rule: b64_digits.induct) (simp_all only: b64_digits.simps b64_bytes.simps byte_back option.case)

lemma those_Some_map: "list_all (\<lambda>x. f (g x) = Some x) xs \<Longrightarrow> those (map f (map g xs)) = Some xs"
  by (induction xs) simp_all

lemma b64_roundtrip: "b64_decode (b64_encode bs) = Some bs"
proof -
  let ?ds = "b64_digits bs"
  have k: "n < 64" if "n \<in> set ?ds" for n using digits_small [of bs] that by (simp add: list_all_iff)
  have "filter (\<lambda>c. c \<noteq> CHR 0x0A \<and> c \<noteq> CHR 0x0D) (map b64_char ?ds) = map b64_char ?ds"
    by (rule filter_True) (use k b64_char_plain in auto)
  moreover have "those (map b64_value (map b64_char ?ds)) = Some ?ds"
    by (rule those_Some_map) (use k b64_value_char in \<open>auto simp: list_all_iff\<close>)
  ultimately show ?thesis by (simp add: b64_decode_def encode_digits bytes_digits)
qed

lemma encode_length: "length (b64_encode bs) = EncodedLen (length bs)"
proof (induction bs rule: b64_digits.induct)
  case (4 a b c rest)
  have "(3 + n) div 3 = Suc (n div 3)" "(3 + n) mod 3 = n mod 3" for n :: nat by simp_all
  with 4 show ?case by (simp add: EncodedLen_def)
qed (simp_all add: EncodedLen_def)

lemma EncodedLen_mono: "m \<le> n \<Longrightarrow> EncodedLen m \<le> EncodedLen n"
proof -
  have "EncodedLen k \<le> EncodedLen (Suc k)" for k
  proof -
    have "k mod 3 = 0 \<or> k mod 3 = 1 \<or> k mod 3 = 2" by arith
    then show ?thesis unfolding EncodedLen_def by (elim disjE) (simp_all add: mod_Suc div_Suc)
  qed
  then show "m \<le> n \<Longrightarrow> EncodedLen m \<le> EncodedLen n" by (rule lift_Suc_mono_le)
qed

end
