(* ===== verification/Dns_Server.thy ===== *)
theory Dns_Server
  imports Listen Pipeline Base64_Url
begin

text \<open>
  The entry points of a query (\<open>ServeDNS\<close>, \<open>handleEncryptedQuery\<close> and \<open>handleQuery\<close> of
  \<open>dns/server.go\<close>) and the three encrypted transports around them: DoT (\<open>dns/dot_conn.go\<close>),
  DoH (\<open>dns/server_doh.go\<close>, \<open>dns/server_doh_writer.go\<close>) and DoQ (\<open>dns/server_doq.go\<close>,
  \<open>dns/doq_conn.go\<close>).

  A response writer is where the one message of a query goes: an entry returns the message it writes. The
  request is reached by pointer from the context, so what a handler did to it is seen afterwards. \<open>Msg.Truncate\<close>
  is a parameter. An HTTP request is taken as \<open>net/http\<close> hands it over, with
  its query parameters parsed; a body that cannot be read is \<open>None\<close>.
\<close>

section \<open>Queries\<close>

definition MinMsgSize :: nat where "MinMsgSize = 512"
definition MaxMsgSize :: nat where "MaxMsgSize = 65535"
definition OpcodeQuery :: nat where "OpcodeQuery = 0"

definition HandleFailed :: "dns_lib \<Rightarrow> msg \<Rightarrow> msg" where
  "HandleFailed L r = SetRcode L r RcodeServerFailure"

definition isStandardQuery :: "msg \<Rightarrow> bool" where
  "isStandardQuery r = (if m_Response r \<or> m_Opcode r \<noteq> OpcodeQuery then False else length (m_Question r) = 1)"

definition UDPSize :: "rr \<Rightarrow> nat" where "UDPSize opt = unat (h_Class (rr_Hdr opt))"

definition reply_limit :: "msg \<Rightarrow> nat" where
  "reply_limit r =
     (let m = (case IsEdns0 r of None \<Rightarrow> MinMsgSize | Some opt \<Rightarrow> UDPSize opt) in if m < MinMsgSize then MinMsgSize else m)"

text \<open>What an entry needs: the library, truncation, the pipeline, the server and its base context.\<close>

record query_env =
  qe_lib :: dns_lib
  qe_Truncate :: "nat \<Rightarrow> msg \<Rightarrow> msg"
  qe_pipeline :: "middleware list option"
  qe_server :: dns_server
  qe_ctx :: "ctx option"

definition background_ctx :: ctx where "background_ctx = \<lparr>cx_deadline = None, cx_cancelAt = None\<rparr>"

text \<open>The state a query starts in: a new context over the world as it is.\<close>

definition query_state :: "query_env \<Rightarrow> net_addr option \<Rightarrow> queryOrigin \<Rightarrow> msg \<Rightarrow> qstate \<Rightarrow> qstate" where
  "query_state E remote origin r w =
     (let base = (case qe_ctx E of None \<Rightarrow> background_ctx | Some c \<Rightarrow> c);
          c = WithTimeout base (queryTimeout (qe_server E)) (w_now w)
      in applyEncryptedClientID origin (sv_ServerName (qe_server E))
           (dns_context.extend (NewDNSContext c r remote (qo_Protocol origin) (w_now w)) (dns_context.more w)))"

definition handleQuery :: "query_env \<Rightarrow> net_addr option \<Rightarrow> msg \<Rightarrow> queryOrigin \<Rightarrow> qstate \<Rightarrow> msg \<times> qstate" where
  "handleQuery E remote r origin w =
     (let s0 = query_state E remote origin r w;
          s = (case qe_pipeline E of None \<Rightarrow> s0 | Some p \<Rightarrow> snd (Execute p s0));
          r' = (case dx_Req s of None \<Rightarrow> r | Some m \<Rightarrow> m)
      in case dx_Resp s of
           Some resp \<Rightarrow>
             (let resp1 = resp\<lparr>m_Id := m_Id r'\<rparr>
              in (if qo_Protocol origin = ''udp'' then qe_Truncate E (reply_limit r') resp1 else resp1, s))
         | None \<Rightarrow> (HandleFailed (qe_lib E) r', s))"

definition plain_origin :: "string \<Rightarrow> queryOrigin" where
  "plain_origin p = \<lparr>qo_Protocol = p, qo_ServerName = [], qo_PathClientID = []\<rparr>"

definition ServeDNS :: "query_env \<Rightarrow> net_addr option \<Rightarrow> msg option \<Rightarrow> qstate \<Rightarrow> msg option \<times> qstate" where
  "ServeDNS E remote req w =
     (case req of None \<Rightarrow> (None, w)
      | Some r \<Rightarrow>
         (if sv_closed (qe_server E) then (Some (HandleFailed (qe_lib E) r), w)
          else if \<not> isStandardQuery r then (Some (HandleFailed (qe_lib E) r), w)
          else (let protocol = (case remote of Some (TCPAddr _ _) \<Rightarrow> ''tcp'' | _ \<Rightarrow> ''udp'');
                    (resp, s) = handleQuery E remote r (plain_origin protocol) w in (Some resp, s))))"

definition handleEncryptedQuery :: "query_env \<Rightarrow> net_addr option \<Rightarrow> msg \<Rightarrow> queryOrigin \<Rightarrow> qstate \<Rightarrow> msg \<times> qstate" where
  "handleEncryptedQuery E remote r origin w =
     (if sv_closed (qe_server E) then (HandleFailed (qe_lib E) r, w) else handleQuery E remote r origin w)"

section \<open>Framing\<close>

text \<open>A message with its length in two bytes; \<open>None\<close> is \<open>dns.ErrBuf\<close>.\<close>

definition frame :: "u8 list \<Rightarrow> u8 list option" where
  "frame b = (if length b > MaxMsgSize then None else Some (of_nat (length b div 256) # of_nat (length b) # b))"

definition dot_WriteMsg :: "dns_lib \<Rightarrow> msg \<Rightarrow> u8 list option" where
  "dot_WriteMsg L m = (case Pack L m of None \<Rightarrow> None | Some d \<Rightarrow> frame d)"

text \<open>
  The queries of one connection, in order: of each, the server as the loop finds it and the message
  read. What is written, if anything, goes out before the next is read.
\<close>

fun dot_serve :: "query_env \<Rightarrow> net_addr option \<Rightarrow> string \<Rightarrow> (dns_server \<times> msg) list \<Rightarrow> qstate \<Rightarrow> u8 list option list \<times> qstate" where
  "dot_serve E remote sni [] w = ([], w)"
| "dot_serve E remote sni ((sv, req) # rest) w =
     (if \<not> serving sv then ([], w)
      else (let (resp, w1) = handleEncryptedQuery (E\<lparr>qe_server := sv\<rparr>) remote req
                  \<lparr>qo_Protocol = ''tcp-tls'', qo_ServerName = sni, qo_PathClientID = []\<rparr> w;
                (outs, w2) = dot_serve E remote sni rest w1
            in (dot_WriteMsg (qe_lib E) resp # outs, w2)))"

datatype doq_error = DoqShort | DoqBadLength nat | DoqUnparsable | DoqBadId u16

definition is_protocol_error :: "doq_error \<Rightarrow> bool" where
  "is_protocol_error e = (e \<noteq> DoqShort)"

definition readDoQQuery :: "dns_lib \<Rightarrow> u8 list \<Rightarrow> doq_error + msg" where
  "readDoQQuery L input =
     (case input of
        b1 # b2 # rest \<Rightarrow>
          (let size = unat b1 * 256 + unat b2 in
           if size < 12 then Inl (DoqBadLength size)
           else if length rest < size then Inl DoqShort
           else case Unpack L (take size rest) of None \<Rightarrow> Inl DoqUnparsable
             | Some req \<Rightarrow> if m_Id req \<noteq> 0 then Inl (DoqBadId (m_Id req)) else Inr req)
      | _ \<Rightarrow> Inl DoqShort)"

definition doq_WriteMsg :: "dns_lib \<Rightarrow> msg \<Rightarrow> u8 list option" where
  "doq_WriteMsg L m =
     (let m1 = (if m_Id m \<noteq> 0 then m\<lparr>m_Id := 0\<rparr> else m)
      in case Pack L m1 of None \<Rightarrow> None | Some d \<Rightarrow> frame d)"

datatype doq_outcome = DoqDropped | DoqConnectionClosed doq_error | DoqWritten "u8 list option"

definition handleStream :: "query_env \<Rightarrow> net_addr option \<Rightarrow> string \<Rightarrow> u8 list \<Rightarrow> qstate \<Rightarrow> doq_outcome \<times> qstate" where
  "handleStream E remote sni input w =
     (if sv_closed (qe_server E) then (DoqDropped, w)
      else case readDoQQuery (qe_lib E) input of
        Inl e \<Rightarrow> (if is_protocol_error e then DoqConnectionClosed e else DoqDropped, w)
      | Inr req \<Rightarrow>
         (let (resp, w1) = handleEncryptedQuery E remote req
                \<lparr>qo_Protocol = ''doq'', qo_ServerName = trim_space sni, qo_PathClientID = []\<rparr> w
          in (DoqWritten (doq_WriteMsg (qe_lib E) resp), w1)))"

section \<open>DoH\<close>

definition dohContentType :: string where "dohContentType = ''application/dns-message''"
definition dohGetParam :: string where "dohGetParam = ''dns''"
definition dohMaxBody :: nat where "dohMaxBody = 65536 + 512"

record http_request =
  hr_Method :: string
  hr_Query :: "(string \<times> string list) list"
  hr_Header :: http_header
  hr_Body :: "u8 list option"
  hr_Host :: string
  hr_RemoteAddr :: string

datatype doh_error =
    MissingParam
  | ParamTooLong
  | BadBase64
  | BadContentType
  | BodyUnreadable
  | BodyTooLong
  | BodyEmpty
  | BadMethod string

definition values_Get :: "(string \<times> string list) list \<Rightarrow> string \<Rightarrow> string" where
  "values_Get vs k = (case map_of vs k of Some (v # _) \<Rightarrow> v | _ \<Rightarrow> [])"

definition isDoHContentType :: "string \<Rightarrow> bool" where
  "isDoHContentType ct =
     (if ct = [] then False else equal_fold (trim_space (takeWhile (\<lambda>c. c \<noteq> CHR '';'') ct)) dohContentType)"

definition readDoHQuery :: "http_request \<Rightarrow> doh_error + u8 list" where
  "readDoHQuery r =
     (if hr_Method r = ''GET''
      then (let raw = values_Get (hr_Query r) dohGetParam in
        if raw = [] then Inl MissingParam
        else if length raw > EncodedLen dohMaxBody then Inl ParamTooLong
        else case b64_decode raw of None \<Rightarrow> Inl BadBase64
          | Some d \<Rightarrow> if length d > dohMaxBody then Inl ParamTooLong else Inr d)
      else if hr_Method r = ''POST''
      then (if \<not> isDoHContentType (header_Get (hr_Header r) ''Content-Type'') then Inl BadContentType
            else case hr_Body r of None \<Rightarrow> Inl BodyUnreadable
              | Some b \<Rightarrow> (let body = take (dohMaxBody + 1) b in
                  if length body > dohMaxBody then Inl BodyTooLong
                  else if body = [] then Inl BodyEmpty else Inr body))
      else Inl (BadMethod (hr_Method r)))"

definition clientServerName :: "http_request \<Rightarrow> string" where
  "clientServerName r =
     (let host = trim_space (hr_Host r) in
      if host = [] then []
      else trim_suffix (case SplitHostPort host of Some (h, _) \<Rightarrow> h | None \<Rightarrow> host) ''.'')"

datatype http_reply = HttpError nat | HttpOK "(string \<times> string) list" "u8 list"

definition serveDoH :: "query_env \<Rightarrow> string \<Rightarrow> http_request \<Rightarrow> qstate \<Rightarrow> http_reply \<times> qstate" where
  "serveDoH E pathID r w =
     (if sv_closed (qe_server E) then (HttpError 503, w)
      else case readDoHQuery r of Inl e \<Rightarrow> (HttpError 400, w)
       | Inr query \<Rightarrow>
         (case Unpack (qe_lib E) query of None \<Rightarrow> (HttpError 400, w)
          | Some req \<Rightarrow>
             (if \<not> isStandardQuery req then (HttpError 400, w)
              else (let cid = trim_space pathID in
                if cid \<noteq> [] \<and> ValidateClientID cid \<noteq> None then (HttpError 400, w)
                else (let proxy = (case sv_encrypted (qe_server E) of None \<Rightarrow> None | Some c \<Rightarrow> ec_TrustedProxy c);
                          (resp, w1) = handleEncryptedQuery E (doHClientAddr proxy (hr_RemoteAddr r) (hr_Header r)) req
                             \<lparr>qo_Protocol = ''doh'', qo_ServerName = clientServerName r, qo_PathClientID = to_lower cid\<rparr> w
                      in case Pack (qe_lib E) resp of None \<Rightarrow> (HttpError 500, w1)
                         | Some packed \<Rightarrow> (HttpOK [(''Content-Type'', dohContentType), (''Cache-Control'', ''no-store'')] packed, w1))))))"

end
