(* ===== verification/Admin_Auth.thy ===== *)
theory Admin_Auth
  imports Go_Addr "HOL-Library.AList"
begin

text \<open>
  Administrator accounts (\<open>internal/auth/auth.go\<close>) and who may call the management interface
  (\<open>internal/ipc/cors.go\<close>, and \<open>verifyToken\<close>, \<open>extractToken\<close> and
  \<open>verifyBackgroundPermission\<close> of \<open>internal/ipc\<close>).

  The digest of a salted password is a parameter, a function of the bytes hashed; random salts and tokens are arguments of
  the operation that draws them, and the current time one of every operation that reads it. A map is an association
  list; the order in which a map is walked is a parameter where it matters. The host of an origin as
  \<open>url.Parse\<close> finds it is a parameter. The controller behind the interface is always there; its account
  manager may be missing.
\<close>

section \<open>State\<close>

definition MaxFailedAttempts :: nat where "MaxFailedAttempts = 5"
definition LockoutDuration :: duration where "LockoutDuration = 300 * second"
definition DefaultSessionTTL :: duration where "DefaultSessionTTL = 7 * 24 * 3600 * second"
definition maxTrackedClients :: nat where "maxTrackedClients = 4096"
definition attemptEntryTTL :: duration where "attemptEntryTTL = LockoutDuration"

datatype auth_error =
    NotInitialized
  | AlreadyInitialized
  | LockedOut int
  | JustLocked
  | InvalidCredentials nat
  | PasswordTooShort
  | WrongOldPassword

record Session =
  sn_Token :: string
  sn_Username :: string
  sn_ClientIP :: string
  sn_CreatedAt :: time
  sn_ExpiresAt :: time

record auth_manager =
  am_username :: string
  am_passwordHash :: string
  am_salt :: string
  am_sessionTimeout :: duration
  am_ipAttempts :: "(string \<times> nat) list"
  am_ipAttemptAt :: "(string \<times> time) list"
  am_ipLockedUntil :: "(string \<times> time) list"
  am_sessions :: "(string \<times> Session) list"

definition NewManager :: "string \<Rightarrow> string \<Rightarrow> string \<Rightarrow> duration \<Rightarrow> auth_manager" where
  "NewManager user hash salt timeout =
     \<lparr>am_username = (if user = [] then ''admin'' else user), am_passwordHash = hash, am_salt = salt,
      am_sessionTimeout = (if timeout \<le> 0 then DefaultSessionTTL else timeout),
      am_ipAttempts = [], am_ipAttemptAt = [], am_ipLockedUntil = [], am_sessions = []\<rparr>"

section \<open>Credentials\<close>

type_synonym digest = "string \<Rightarrow> string"

definition HashPassword :: "digest \<Rightarrow> string \<Rightarrow> string \<Rightarrow> string \<Rightarrow> string \<times> string" where
  "HashPassword H rnd plain salt = (let s = (if salt = [] then rnd else salt) in (H (s @ plain), s))"

definition IsInitialized :: "auth_manager \<Rightarrow> bool" where "IsInitialized m = (am_passwordHash m \<noteq> [])"

definition GetCredentials :: "auth_manager \<Rightarrow> string \<times> string \<times> string" where
  "GetCredentials m = (am_username m, am_passwordHash m, am_salt m)"

text \<open>Random bytes are drawn only when the stored salt is empty.\<close>

definition password_ok :: "digest \<Rightarrow> string \<Rightarrow> string \<Rightarrow> auth_manager \<Rightarrow> bool" where
  "password_ok H rnd plain m = (fst (HashPassword H rnd plain (am_salt m)) = am_passwordHash m)"

definition SetupInitialCredentials :: "digest \<Rightarrow> string \<Rightarrow> string \<Rightarrow> string \<Rightarrow> auth_manager \<Rightarrow> auth_error option \<times> auth_manager" where
  "SetupInitialCredentials H rnd user plain m =
     (if am_passwordHash m \<noteq> [] then (Some AlreadyInitialized, m)
      else if length plain < 4 then (Some PasswordTooShort, m)
      else (let (h, s) = HashPassword H rnd plain []
            in (None, m\<lparr>am_username := (if user = [] then ''admin'' else user), am_passwordHash := h, am_salt := s\<rparr>)))"

definition UpdateCredentials :: "digest \<Rightarrow> string \<Rightarrow> string \<Rightarrow> string \<Rightarrow> string \<Rightarrow> string \<Rightarrow> bool \<Rightarrow> auth_manager \<Rightarrow> auth_error option \<times> auth_manager" where
  "UpdateCredentials H rnd0 rnd user old new bypass m =
     (if length new < 4 then (Some PasswordTooShort, m)
      else if \<not> bypass \<and> am_passwordHash m \<noteq> [] \<and> \<not> password_ok H rnd0 old m then (Some WrongOldPassword, m)
      else (let u = (if user = [] then (if am_username m = [] then ''admin'' else am_username m) else user);
                (h, s) = HashPassword H rnd new []
            in (None, m\<lparr>am_username := u, am_passwordHash := h, am_salt := s, am_sessions := []\<rparr>)))"

definition VerifyPassword :: "digest \<Rightarrow> string \<Rightarrow> string \<Rightarrow> auth_manager \<Rightarrow> bool" where
  "VerifyPassword H rnd plain m = (if am_passwordHash m = [] then False else password_ok H rnd plain m)"

section \<open>Failed attempts\<close>

definition forget_client :: "string \<Rightarrow> auth_manager \<Rightarrow> auth_manager" where
  "forget_client a m = m\<lparr>am_ipAttempts := AList.delete a (am_ipAttempts m), am_ipAttemptAt := AList.delete a (am_ipAttemptAt m)\<rparr>"

definition drop_expired_lock :: "time \<Rightarrow> string \<times> time \<Rightarrow> auth_manager \<Rightarrow> auth_manager" where
  "drop_expired_lock now e m =
     (if now < snd e then m else forget_client (fst e) (m\<lparr>am_ipLockedUntil := AList.delete (fst e) (am_ipLockedUntil m)\<rparr>))"

definition drop_old_attempt :: "time \<Rightarrow> string \<times> time \<Rightarrow> auth_manager \<Rightarrow> auth_manager" where
  "drop_old_attempt now e m = (if now - snd e > attemptEntryTTL then forget_client (fst e) m else m)"

fun evict_excess :: "string list \<Rightarrow> nat \<Rightarrow> auth_manager \<Rightarrow> auth_manager" where
  "evict_excess [] excess m = m"
| "evict_excess (a # rest) excess m =
     (if excess = 0 then m
      else if map_of (am_ipLockedUntil m) a \<noteq> None then evict_excess rest excess m
      else evict_excess rest (excess - 1) (forget_client a m))"

definition pruneLocked :: "(string list \<Rightarrow> string list) \<Rightarrow> time \<Rightarrow> auth_manager \<Rightarrow> auth_manager" where
  "pruneLocked visit now m =
     (let m1 = fold (drop_expired_lock now) (am_ipLockedUntil m) m;
          m2 = fold (drop_old_attempt now) (am_ipAttemptAt m1) m1
      in if length (am_ipAttempts m2) \<le> maxTrackedClients then m2
         else evict_excess (visit (map fst (am_ipAttempts m2))) (length (am_ipAttempts m2) - maxTrackedClients) m2)"

definition attempts_of :: "auth_manager \<Rightarrow> string \<Rightarrow> nat" where
  "attempts_of m a = (case map_of (am_ipAttempts m) a of None \<Rightarrow> 0 | Some n \<Rightarrow> n)"

definition recordFailureLocked :: "string \<Rightarrow> time \<Rightarrow> auth_manager \<Rightarrow> auth_error \<times> auth_manager" where
  "recordFailureLocked a now m =
     (let n = attempts_of m a + 1;
          m1 = m\<lparr>am_ipAttempts := AList.update a n (am_ipAttempts m), am_ipAttemptAt := AList.update a now (am_ipAttemptAt m)\<rparr>
      in if n \<ge> MaxFailedAttempts
         then (JustLocked, m1\<lparr>am_ipLockedUntil := AList.update a (now + LockoutDuration) (am_ipLockedUntil m1),
                 am_ipAttempts := AList.update a 0 (am_ipAttempts m1)\<rparr>)
         else (InvalidCredentials (MaxFailedAttempts - n), m1))"

definition locked_for :: "auth_manager \<Rightarrow> string \<Rightarrow> time \<Rightarrow> int option" where
  "locked_for m a now =
     (case map_of (am_ipLockedUntil m) a of None \<Rightarrow> None
      | Some u \<Rightarrow> if now < u then Some (go_div (u - now) second) else None)"

definition clear_client :: "string \<Rightarrow> auth_manager \<Rightarrow> auth_manager" where
  "clear_client a m = (forget_client a m)\<lparr>am_ipLockedUntil := AList.delete a (am_ipLockedUntil m)\<rparr>"

section \<open>Sessions\<close>

definition Login :: "digest \<Rightarrow> (string list \<Rightarrow> string list) \<Rightarrow> string \<Rightarrow> string \<Rightarrow> time \<Rightarrow> string \<Rightarrow> string \<Rightarrow> string \<Rightarrow> auth_manager \<Rightarrow>
    (auth_error + Session) \<times> auth_manager" where
  "Login H visit rnd token now user plain client m0 =
     (let m = pruneLocked visit now m0 in
      case locked_for m client now of Some r \<Rightarrow> (Inl (LockedOut r), m)
      | None \<Rightarrow>
         (if am_passwordHash m = [] then (Inl NotInitialized, m)
          else if user \<noteq> am_username m \<or> \<not> password_ok H rnd plain m
          then (let (e, m1) = recordFailureLocked client now m in (Inl e, m1))
          else (let sess = \<lparr>sn_Token = token, sn_Username = am_username m, sn_ClientIP = client, sn_CreatedAt = now,
                            sn_ExpiresAt = now + am_sessionTimeout m\<rparr>;
                    m1 = clear_client client m
                in (Inr sess, m1\<lparr>am_sessions := AList.update token sess (am_sessions m1)\<rparr>))))"

definition ValidateSession :: "string \<Rightarrow> time \<Rightarrow> auth_manager \<Rightarrow> Session option \<times> auth_manager" where
  "ValidateSession token now m =
     (if token = [] then (None, m)
      else case map_of (am_sessions m) token of None \<Rightarrow> (None, m)
        | Some sess \<Rightarrow>
           if now > sn_ExpiresAt sess then (None, m\<lparr>am_sessions := AList.delete token (am_sessions m)\<rparr>) else (Some sess, m))"

definition RevokeSession :: "string \<Rightarrow> auth_manager \<Rightarrow> auth_manager" where
  "RevokeSession token m = (if token = [] then m else m\<lparr>am_sessions := AList.delete token (am_sessions m)\<rparr>)"

definition CheckIPLockout :: "string \<Rightarrow> time \<Rightarrow> auth_manager \<Rightarrow> bool \<times> int" where
  "CheckIPLockout client now m = (case locked_for m client now of Some r \<Rightarrow> (True, r) | None \<Rightarrow> (False, 0))"

definition VerifyPasswordWithIP :: "digest \<Rightarrow> (string list \<Rightarrow> string list) \<Rightarrow> string \<Rightarrow> time \<Rightarrow> string \<Rightarrow> string \<Rightarrow> auth_manager \<Rightarrow>
    (auth_error + unit) \<times> auth_manager" where
  "VerifyPasswordWithIP H visit rnd now client plain m0 =
     (let m = pruneLocked visit now m0 in
      case locked_for m client now of Some r \<Rightarrow> (Inl (LockedOut r), m)
      | None \<Rightarrow>
         (if am_passwordHash m = [] then (Inl NotInitialized, m)
          else if \<not> password_ok H rnd plain m then (let (e, m1) = recordFailureLocked client now m in (Inl e, m1))
          else (Inr (), clear_client client m)))"

section \<open>Who may call the management interface\<close>

record api_request =
  ar_RemoteAddr :: string
  ar_Host :: string
  ar_Header :: http_header
  ar_Query :: "(string \<times> string list) list"

text \<open>The host of an URL without its port, as \<open>URL.Hostname\<close> gives it.\<close>

definition valid_port_suffix :: "string \<Rightarrow> bool" where
  "valid_port_suffix p = (p = [] \<or> hd p = CHR '':'' \<and> list_all (\<lambda>c. digit_of c \<noteq> None) (tl p))"

definition url_Hostname :: "string \<Rightarrow> string" where
  "url_Hostname h =
     (let h1 = (case last_index_byte (CHR '':'') h of None \<Rightarrow> h | Some i \<Rightarrow> if valid_port_suffix (drop i h) then take i h else h)
      in if has_prefix h1 ''['' \<and> has_suffix h1 '']'' then butlast (tl h1) else h1)"

definition isTrustedOrigin :: "(string \<Rightarrow> string option) \<Rightarrow> api_request \<Rightarrow> bool" where
  "isTrustedOrigin urlHost r =
     (let origin = trim_space (header_Get (ar_Header r) ''Origin'') in
      if origin = [] then True
      else case urlHost origin of None \<Rightarrow> False
        | Some uh \<Rightarrow>
           (let host = to_lower (url_Hostname uh) in
            if host = ''localhost'' then True
            else if ParseIP host \<noteq> [] \<and> IsLoopback (ParseIP host) then True
            else equal_fold uh (ar_Host r)))"

definition isLoopbackRequest :: "api_request \<Rightarrow> bool" where
  "isLoopbackRequest r =
     (let host = (case SplitHostPort (ar_RemoteAddr r) of Some (h, _) \<Rightarrow> h | None \<Rightarrow> ar_RemoteAddr r)
      in ParseIP host \<noteq> [] \<and> IsLoopback (ParseIP host))"

definition extractToken :: "api_request \<Rightarrow> string" where
  "extractToken r =
     (let h = header_Get (ar_Header r) ''Authorization'' in
      if has_prefix h ''Bearer '' then trim_prefix h ''Bearer ''
      else (let t = header_Get (ar_Header r) ''X-API-Token'' in
        if t \<noteq> [] then t else (case map_of (ar_Query r) ''token'' of Some (v # _) \<Rightarrow> v | _ \<Rightarrow> [])))"

definition getClientIP :: "api_request \<Rightarrow> string" where
  "getClientIP r = (case SplitHostPort (ar_RemoteAddr r) of Some (h, _) \<Rightarrow> h | None \<Rightarrow> ar_RemoteAddr r)"

definition verifyToken :: "(string \<Rightarrow> string option) \<Rightarrow> string \<Rightarrow> time \<Rightarrow> api_request \<Rightarrow> auth_manager option \<Rightarrow> bool \<times> auth_manager option" where
  "verifyToken urlHost secret now r ctl =
     (let token = extractToken r in
      if secret \<noteq> [] \<and> token = secret then (True, ctl)
      else (let (ok, ctl1) = (if token \<noteq> [] \<and> ctl \<noteq> None
                  then (let (s, m) = ValidateSession token now (the ctl) in (s \<noteq> None, Some m)) else (False, ctl))
            in if ok then (True, ctl1)
               else (secret = [] \<and> isLoopbackRequest r \<and> isTrustedOrigin urlHost r, ctl1)))"

text \<open>What the preflight check of a browser is told: the reflected origin, and whether it may go on.\<close>

definition cors_allow :: "(string \<Rightarrow> string option) \<Rightarrow> api_request \<Rightarrow> string option" where
  "cors_allow urlHost r =
     (let origin = header_Get (ar_Header r) ''Origin'' in
      if origin = [] then Some ''*'' else if isTrustedOrigin urlHost r then Some origin else None)"

definition verifyBackgroundPermission :: "digest \<Rightarrow> (string list \<Rightarrow> string list) \<Rightarrow> string \<Rightarrow> (string \<Rightarrow> string option) \<Rightarrow> string \<Rightarrow> time \<Rightarrow> api_request \<Rightarrow> string \<Rightarrow>
    auth_manager option \<Rightarrow> bool \<times> auth_manager option" where
  "verifyBackgroundPermission H visit rnd urlHost secret now r bodyPassword ctl =
     (if isLoopbackRequest r then (True, ctl)
      else (let (ok, ctl1) = verifyToken urlHost secret now r ctl in
        if ok then (True, ctl1)
        else case ctl1 of None \<Rightarrow> (True, None)
          | Some m \<Rightarrow>
             (if \<not> IsInitialized m then (True, ctl1)
              else (let pw0 = header_Get (ar_Header r) ''X-Admin-Password''; pw = (if pw0 = [] then bodyPassword else pw0) in
                if pw = [] then (False, ctl1)
                else (let (res, m1) = VerifyPasswordWithIP H visit rnd now (getClientIP r) pw m
                      in (case res of Inr _ \<Rightarrow> True | Inl _ \<Rightarrow> False, Some m1))))))"

end
