(* ===== verification/Admin_Facts.thy ===== *)
theory Admin_Facts
  imports Admin_Auth
begin

text \<open>
  What the account manager guarantees: guesses of one client are limited whatever other clients do, a
  session is valid only after a login with the right password and until it ends, and where the check of a
  local caller can be got around.
\<close>

section \<open>Calls\<close>

datatype auth_op =
    OpLogin string string time string string string     \<comment> \<open>random salt and token, time, user, password, client\<close>
  | OpVerify string time string string                  \<comment> \<open>random salt, time, client, password\<close>
  | OpSetup string string string
  | OpUpdate string string string string string bool
  | OpValidate string time
  | OpRevoke string

fun run_auth :: "digest \<Rightarrow> (string list \<Rightarrow> string list) \<Rightarrow> auth_op \<Rightarrow> auth_manager \<Rightarrow> auth_manager" where
  "run_auth H visit (OpLogin rnd tk now user pw a) m = snd (Login H visit rnd tk now user pw a m)"
| "run_auth H visit (OpVerify rnd now a pw) m = snd (VerifyPasswordWithIP H visit rnd now a pw m)"
| "run_auth H visit (OpSetup rnd user pw) m = snd (SetupInitialCredentials H rnd user pw m)"
| "run_auth H visit (OpUpdate rnd0 rnd user old new b) m = snd (UpdateCredentials H rnd0 rnd user old new b m)"
| "run_auth H visit (OpValidate tk now) m = snd (ValidateSession tk now m)"
| "run_auth H visit (OpRevoke tk) m = RevokeSession tk m"

text \<open>Whether a call of client \<open>a\<close> compared a password and found it wrong.\<close>

definition compared :: "(auth_error + 'b) \<Rightarrow> bool" where
  "compared r = (case r of Inl JustLocked \<Rightarrow> True | Inl (InvalidCredentials _) \<Rightarrow> True | _ \<Rightarrow> False)"

fun failed_guess :: "digest \<Rightarrow> (string list \<Rightarrow> string list) \<Rightarrow> string \<Rightarrow> auth_op \<Rightarrow> auth_manager \<Rightarrow> bool" where
  "failed_guess H visit a (OpLogin rnd tk now user pw b) m = (a = b \<and> compared (fst (Login H visit rnd tk now user pw b m)))"
| "failed_guess H visit a (OpVerify rnd now b pw) m = (a = b \<and> compared (fst (VerifyPasswordWithIP H visit rnd now b pw m)))"
| "failed_guess H visit a _ m = False"

fun failed_guesses :: "digest \<Rightarrow> (string list \<Rightarrow> string list) \<Rightarrow> string \<Rightarrow> auth_op list \<Rightarrow> auth_manager \<Rightarrow> nat" where
  "failed_guesses H visit a [] m = 0"
| "failed_guesses H visit a (op # ops) m =
     (if failed_guess H visit a op m then 1 else 0) + failed_guesses H visit a ops (run_auth H visit op m)"

section \<open>Pruning\<close>

definition auth_wf :: "auth_manager \<Rightarrow> bool" where
  "auth_wf m \<longleftrightarrow> distinct (map fst (am_ipAttempts m)) \<and> distinct (map fst (am_ipAttemptAt m)) \<and> distinct (map fst (am_ipLockedUntil m))"

lemma length_delete: "length (AList.delete k xs) \<le> length xs"
  by (simp add: AList.delete_eq)

lemma length_update: "length (AList.update k v xs) \<le> Suc (length xs)"
  by (induction xs) auto

text \<open>
  Walking a table and forgetting the clients whose entry meets a condition: what every table that is
  forgotten by the same step holds afterwards.
\<close>

locale forgets =
  fixes step :: "string \<Rightarrow> auth_manager \<Rightarrow> auth_manager" and table :: "auth_manager \<Rightarrow> (string \<times> 'v) list"
  assumes forgets_entry: "table (step k m) = AList.delete k (table m)"
begin

abbreviation walk :: "(string \<times> 'e \<Rightarrow> bool) \<Rightarrow> (string \<times> 'e) list \<Rightarrow> auth_manager \<Rightarrow> auth_manager" where
  "walk P \<equiv> fold (\<lambda>e m. if P e then step (fst e) m else m)"

lemma walk_lookup: "map_of (table (walk P es m)) a = (if \<exists>u. (a, u) \<in> set es \<and> P (a, u) then None else map_of (table m) a)"
proof (induction es arbitrary: m)
  case (Cons e es)
  show ?case by (cases e) (auto simp: Cons forgets_entry map_of_delete)
qed simp

lemma walk_length: "length (table (walk P es m)) \<le> length (table m)"
proof (induction es arbitrary: m)
  case (Cons e es)
  have "length (table (step (fst e) m)) \<le> length (table m)" by (simp add: forgets_entry length_delete)
  then show ?case using Cons [of m] Cons [of "step (fst e) m"] by simp
qed simp

lemma walk_distinct: "distinct (map fst (table m)) \<Longrightarrow> distinct (map fst (table (walk P es m)))"
  by (induction es arbitrary: m) (simp_all add: forgets_entry distinct_delete)

end

lemma walk_frame: "(\<And>k m. g (f k m) = g m) \<Longrightarrow> g (fold (\<lambda>e m. if P e then f (fst e) m else m) es m) = g m"
  by (induction es arbitrary: m) simp_all

definition unlock_step :: "string \<Rightarrow> auth_manager \<Rightarrow> auth_manager" where
  "unlock_step k m = forget_client k (m\<lparr>am_ipLockedUntil := AList.delete k (am_ipLockedUntil m)\<rparr>)"

interpretation ul: forgets unlock_step am_ipLockedUntil by unfold_locales (simp add: unlock_step_def forget_client_def)
interpretation ua: forgets unlock_step am_ipAttempts by unfold_locales (simp add: unlock_step_def forget_client_def)
interpretation ut: forgets unlock_step am_ipAttemptAt by unfold_locales (simp add: unlock_step_def forget_client_def)
interpretation fa: forgets forget_client am_ipAttempts by unfold_locales (simp add: forget_client_def)
interpretation ft: forgets forget_client am_ipAttemptAt by unfold_locales (simp add: forget_client_def)

lemma drops_eq:
  "drop_expired_lock now = (\<lambda>e m. if snd e \<le> now then unlock_step (fst e) m else m)"
  "drop_old_attempt now = (\<lambda>e m. if now - snd e > attemptEntryTTL then forget_client (fst e) m else m)"
  by (auto simp: drop_expired_lock_def drop_old_attempt_def unlock_step_def fun_eq_iff)

text \<open>The part of the state that pruning keeps.\<close>

definition account :: "auth_manager \<Rightarrow> string \<times> string \<times> string \<times> duration \<times> (string \<times> Session) list" where
  "account m = (am_username m, am_passwordHash m, am_salt m, am_sessionTimeout m, am_sessions m)"

lemma account_eq: "account m' = account m \<Longrightarrow> am_username m' = am_username m \<and> am_passwordHash m' = am_passwordHash m \<and> am_salt m' = am_salt m \<and>
    am_sessionTimeout m' = am_sessionTimeout m \<and> am_sessions m' = am_sessions m"
  by (simp add: account_def)

lemma forget_account [simp]: "account (forget_client k m) = account m" "account (unlock_step k m) = account m"
  "am_ipLockedUntil (forget_client k m) = am_ipLockedUntil m"
  by (simp_all add: account_def forget_client_def unlock_step_def)

lemma evict_account: "account (evict_excess as n m) = account m"
  by (induction as n m rule: evict_excess.induct) simp_all

lemma prune_account: "account (pruneLocked visit now m) = account m"
proof -
  have "account (fold (drop_expired_lock now) es m) = account m" "account (fold (drop_old_attempt now) es' m) = account m" for es es' m
    unfolding drops_eq by (rule walk_frame, simp)+
  then show ?thesis by (simp add: pruneLocked_def Let_def evict_account)
qed

text \<open>One client after pruning, as long as nothing has to be evicted.\<close>

lemma prune_client:
  assumes "auth_wf m" "length (am_ipAttempts m) \<le> maxTrackedClients" "m' = pruneLocked visit now m"
  shows "auth_wf m'" "length (am_ipAttempts m') \<le> length (am_ipAttempts m)"
    "map_of (am_ipLockedUntil m') a = (case map_of (am_ipLockedUntil m) a of None \<Rightarrow> None | Some u \<Rightarrow> if u \<le> now then None else Some u)"
    "\<not> (\<exists>u. map_of (am_ipLockedUntil m) a = Some u \<and> u \<le> now) \<Longrightarrow> map_of (am_ipAttemptAt m) a = Some t \<Longrightarrow> now - t \<le> attemptEntryTTL \<Longrightarrow>
      map_of (am_ipAttempts m') a = map_of (am_ipAttempts m) a \<and> map_of (am_ipAttemptAt m') a = Some t"
proof -
  define m1 where "m1 = fold (drop_expired_lock now) (am_ipLockedUntil m) m"
  define m2 where "m2 = fold (drop_old_attempt now) (am_ipAttemptAt m1) m1"
  have l: "length (am_ipAttempts m2) \<le> length (am_ipAttempts m)"
    unfolding m2_def m1_def drops_eq by (rule order_trans [OF fa.walk_length ua.walk_length])
  then have m': "m' = m2" using assms(2,3) by (simp add: pruneLocked_def Let_def m1_def m2_def)
  show "length (am_ipAttempts m') \<le> length (am_ipAttempts m)" using l m' by simp
  have lk: "am_ipLockedUntil m2 = am_ipLockedUntil m1" unfolding m2_def drops_eq by (rule walk_frame) simp
  have w1: "auth_wf m1" using assms(1) unfolding auth_wf_def m1_def drops_eq
    by (simp add: ua.walk_distinct ut.walk_distinct ul.walk_distinct)
  then show w: "auth_wf m'" unfolding m' auth_wf_def lk unfolding m2_def drops_eq
    by (simp add: fa.walk_distinct ft.walk_distinct auth_wf_def)
  have d: "(a, u) \<in> set (am_ipLockedUntil m) \<longleftrightarrow> map_of (am_ipLockedUntil m) a = Some u" for u
    using assms(1) by (simp add: auth_wf_def)
  have d1: "(a, u) \<in> set (am_ipAttemptAt m1) \<longleftrightarrow> map_of (am_ipAttemptAt m1) a = Some u" for u
    using w1 by (simp add: auth_wf_def)
  show "map_of (am_ipLockedUntil m') a = (case map_of (am_ipLockedUntil m) a of None \<Rightarrow> None | Some u \<Rightarrow> if u \<le> now then None else Some u)"
    unfolding m' lk unfolding m1_def drops_eq ul.walk_lookup d by (auto split: option.split)
  assume k: "\<not> (\<exists>u. map_of (am_ipLockedUntil m) a = Some u \<and> u \<le> now)" "map_of (am_ipAttemptAt m) a = Some t" "now - t \<le> attemptEntryTTL"
  have a1: "map_of (am_ipAttempts m1) a = map_of (am_ipAttempts m) a" "map_of (am_ipAttemptAt m1) a = Some t"
    using k(1,2) unfolding m1_def drops_eq ua.walk_lookup ut.walk_lookup d snd_conv by auto
  show "map_of (am_ipAttempts m') a = map_of (am_ipAttempts m) a \<and> map_of (am_ipAttemptAt m') a = Some t"
    using k(3) a1 unfolding m' m2_def drops_eq fa.walk_lookup ft.walk_lookup d1 snd_conv by auto
qed

section \<open>Guessing\<close>

definition op_time :: "auth_op \<Rightarrow> time option" where
  "op_time op = (case op of OpLogin _ _ now _ _ _ \<Rightarrow> Some now | OpVerify _ now _ _ \<Rightarrow> Some now | _ \<Rightarrow> None)"

text \<open>A guess of client \<open>a\<close> with the wrong user or password, or any call that leaves the account alone.\<close>

definition harmless :: "digest \<Rightarrow> string \<Rightarrow> auth_manager \<Rightarrow> auth_op \<Rightarrow> bool" where
  "harmless H a m op = (case op of
       OpLogin rnd _ _ user pw b \<Rightarrow> a = b \<longrightarrow> user \<noteq> am_username m \<or> \<not> password_ok H rnd pw m
     | OpVerify rnd _ b pw \<Rightarrow> a = b \<longrightarrow> \<not> password_ok H rnd pw m
     | OpSetup _ _ _ \<Rightarrow> False
     | OpUpdate _ _ _ _ _ _ \<Rightarrow> False
     | _ \<Rightarrow> True)"

text \<open>
  What holds of the client in a window of the length of a lockout that starts at \<open>t0\<close> after \<open>c\<close>
  failed guesses: it is locked until the window is over, or it has failed no more often than is counted.
\<close>

definition guess_inv :: "string \<Rightarrow> time \<Rightarrow> nat \<Rightarrow> auth_manager \<Rightarrow> bool" where
  "guess_inv a t0 c m \<longleftrightarrow>
     (\<exists>u. map_of (am_ipLockedUntil m) a = Some u \<and> t0 + LockoutDuration \<le> u \<and> c \<le> 5) \<or> c = 0 \<or>
     (\<exists>n t. map_of (am_ipLockedUntil m) a = None \<and> map_of (am_ipAttempts m) a = Some n \<and> c \<le> n \<and> n \<le> 4 \<and>
        map_of (am_ipAttemptAt m) a = Some t \<and> t0 \<le> t)"

lemma prune_guess:
  assumes "auth_wf m" "length (am_ipAttempts m) \<le> maxTrackedClients" "t0 \<le> now" "now < t0 + LockoutDuration" "guess_inv a t0 c m"
  shows "guess_inv a t0 c (pruneLocked visit now m)"
proof -
  note P = prune_client(3,4) [OF assms(1,2) refl, where a = a and visit = visit and now = now]
  from assms(5) consider (locked) u where "map_of (am_ipLockedUntil m) a = Some u" "t0 + LockoutDuration \<le> u" "c \<le> 5" | "c = 0"
    | (counted) n t where "map_of (am_ipLockedUntil m) a = None" "map_of (am_ipAttempts m) a = Some n" "c \<le> n" "n \<le> 4"
        "map_of (am_ipAttemptAt m) a = Some t" "t0 \<le> t" by (auto simp: guess_inv_def)
  then show ?thesis
  proof cases
    case locked
    then show ?thesis using P(1) assms(4) by (simp add: guess_inv_def)
  next
    case counted
    have "now - t \<le> attemptEntryTTL" using counted(6) assms(4) by (simp add: attemptEntryTTL_def)
    then show ?thesis using P counted by (simp add: guess_inv_def)
  qed (simp add: guess_inv_def)
qed

lemma record_other:
  "a \<noteq> b \<Longrightarrow> guess_inv a t0 c (snd (recordFailureLocked b now m)) = guess_inv a t0 c m"
  "a \<noteq> b \<Longrightarrow> guess_inv a t0 c (clear_client b m) = guess_inv a t0 c m"
  by (simp_all add: recordFailureLocked_def Let_def guess_inv_def update_conv' clear_client_def forget_client_def map_of_delete)

lemma record_own:
  assumes "guess_inv a t0 c m" "locked_for m a now = None" "t0 \<le> now" "now < t0 + LockoutDuration"
    and "map_of (am_ipLockedUntil m) a = None"
  shows "guess_inv a t0 (Suc c) (snd (recordFailureLocked a now m))"
proof -
  have "c = 0 \<or> (\<exists>n. map_of (am_ipAttempts m) a = Some n \<and> c \<le> n \<and> n \<le> 4)" using assms(1,5) by (auto simp: guess_inv_def)
  then have n: "c \<le> attempts_of m a" "c \<le> 4" by (auto simp: attempts_of_def)
  show ?thesis
    using n assms(3,5) by (auto simp: recordFailureLocked_def Let_def guess_inv_def update_conv' MaxFailedAttempts_def)
qed

lemma record_frame:
  "auth_wf m \<Longrightarrow> auth_wf (snd (recordFailureLocked b now m))" "account (snd (recordFailureLocked b now m)) = account m"
  "length (am_ipAttempts (snd (recordFailureLocked b now m))) \<le> Suc (length (am_ipAttempts m))"
  "auth_wf m \<Longrightarrow> auth_wf (clear_client b m)" "account (clear_client b m) = account m"
  "length (am_ipAttempts (clear_client b m)) \<le> length (am_ipAttempts m)"
proof -
  have "length (AList.update b v (AList.update b w xs)) \<le> Suc (length xs)" for v w :: nat and xs
    by (simp add: length_update)
  then show "length (am_ipAttempts (snd (recordFailureLocked b now m))) \<le> Suc (length (am_ipAttempts m))"
    by (simp add: recordFailureLocked_def Let_def length_update)
qed (simp_all add: recordFailureLocked_def Let_def auth_wf_def distinct_update account_def clear_client_def forget_client_def distinct_delete length_delete)

text \<open>An attempt after pruning: it is refused, or compared and recorded, or it succeeds.\<close>

lemma attempt_inv:
  assumes "auth_wf m" "length (am_ipAttempts m) < maxTrackedClients" "t0 \<le> now" "now < t0 + LockoutDuration" "guess_inv a t0 c m"
    and "m1 = pruneLocked visit now m"
    and "(locked_for m1 b now \<noteq> None \<or> am_passwordHash m1 = []) \<and> m' = m1 \<and> \<not> hit \<or>
       locked_for m1 b now = None \<and> m' = snd (recordFailureLocked b now m1) \<and> hit = (a = b) \<or>
       locked_for m1 b now = None \<and> a \<noteq> b \<and> (\<exists>ss. m' = (clear_client b m1)\<lparr>am_sessions := ss\<rparr>) \<and> \<not> hit"
  shows "auth_wf m' \<and> guess_inv a t0 (c + (if hit then 1 else 0)) m' \<and> length (am_ipAttempts m') \<le> Suc (length (am_ipAttempts m)) \<and>
    am_username m' = am_username m \<and> am_passwordHash m' = am_passwordHash m \<and> am_salt m' = am_salt m"
proof -
  have l: "length (am_ipAttempts m) \<le> maxTrackedClients" using assms(2) by simp
  have w: "auth_wf m1" "length (am_ipAttempts m1) \<le> length (am_ipAttempts m)" using prune_client(1,2) [OF assms(1) l assms(6)] by simp_all
  have g: "guess_inv a t0 c m1" using prune_guess [OF assms(1) l assms(3-5)] assms(6) by simp
  have c: "account m1 = account m" using prune_account assms(6) by simp
  have u: "map_of (am_ipLockedUntil m1) a = None" if "locked_for m1 a now = None"
    using that prune_client(3) [OF assms(1) l assms(6), of a]
    by (auto simp: locked_for_def split: option.splits if_splits)
  from assms(7) consider "m' = m1" "\<not> hit" | (fail) "locked_for m1 b now = None" "m' = snd (recordFailureLocked b now m1)" "hit = (a = b)"
    | (ok) ss where "a \<noteq> b" "m' = (clear_client b m1)\<lparr>am_sessions := ss\<rparr>" "\<not> hit" by metis
  then show ?thesis
  proof cases
    case fail
    have "guess_inv a t0 (c + (if hit then 1 else 0)) m'"
      using fail g u record_own [OF g _ assms(3,4)] record_other(1) by (cases "a = b") auto
    then show ?thesis using fail(2) record_frame(1-3) [where m = m1 and b = b and now = now] w c account_eq [of m1 m] account_eq [of m' m1] by auto
  next
    case ok
    have "auth_wf m' = auth_wf (clear_client b m1)" "guess_inv a t0 c m' = guess_inv a t0 c (clear_client b m1)"
      using ok(2) by (simp_all add: auth_wf_def guess_inv_def)
    then show ?thesis
      using ok record_frame(4,6) [where m = m1 and b = b] record_other(2) [OF ok(1)] w g c account_eq [of m1 m] by (auto simp: clear_client_def forget_client_def)
  qed (use w g c account_eq [of m1 m] in auto)
qed

lemma step_inv:
  assumes "auth_wf m" "length (am_ipAttempts m) < maxTrackedClients" "guess_inv a t0 c m" "harmless H a m op"
    and "\<And>now. op_time op = Some now \<Longrightarrow> t0 \<le> now \<and> now < t0 + LockoutDuration"
  shows "auth_wf (run_auth H visit op m) \<and> guess_inv a t0 (c + (if failed_guess H visit a op m then 1 else 0)) (run_auth H visit op m) \<and>
    length (am_ipAttempts (run_auth H visit op m)) \<le> Suc (length (am_ipAttempts m)) \<and> am_username (run_auth H visit op m) = am_username m \<and>
    am_passwordHash (run_auth H visit op m) = am_passwordHash m \<and> am_salt (run_auth H visit op m) = am_salt m"
proof (cases op)
  case (OpLogin rnd tk now user pw b)
  define m1 where "m1 = pruneLocked visit now m"
  have t: "t0 \<le> now" "now < t0 + LockoutDuration" using assms(5) OpLogin by (simp_all add: op_time_def)
  have e: "am_username m1 = am_username m" "password_ok H rnd pw m1 = password_ok H rnd pw m"
    using account_eq [OF prune_account [of visit now m]] by (simp_all add: m1_def password_ok_def)
  show ?thesis
    by (rule attempt_inv [OF assms(1,2) t assms(3) m1_def, of b])
      (use OpLogin assms(4) e in \<open>auto simp: Login_def Let_def m1_def [symmetric] harmless_def compared_def recordFailureLocked_def split: option.splits\<close>)
next
  case (OpVerify rnd now b pw)
  define m1 where "m1 = pruneLocked visit now m"
  have t: "t0 \<le> now" "now < t0 + LockoutDuration" using assms(5) OpVerify by (simp_all add: op_time_def)
  have e: "password_ok H rnd pw m1 = password_ok H rnd pw m"
    using account_eq [OF prune_account [of visit now m]] by (simp add: m1_def password_ok_def)
  have s: "\<exists>ss. m = m\<lparr>am_sessions := ss\<rparr>" for m :: auth_manager by (rule exI [of _ "am_sessions m"]) simp
  show ?thesis
    by (rule attempt_inv [OF assms(1,2) t assms(3) m1_def, of b])
      (use OpVerify assms(4) e s in \<open>auto simp: VerifyPasswordWithIP_def Let_def m1_def [symmetric] harmless_def compared_def recordFailureLocked_def split: option.splits\<close>)
qed (use assms in \<open>auto simp: harmless_def ValidateSession_def RevokeSession_def auth_wf_def guess_inv_def split: option.splits\<close>)


definition sample_digest :: digest where "sample_digest t = CHR ''#'' # t"
definition sample_manager :: auth_manager where "sample_manager = NewManager [] (sample_digest ''s1secret'') ''s1'' 0"
definition wrong_login :: "time \<Rightarrow> auth_op" where "wrong_login t = OpLogin [] ''tok'' t ''admin'' ''guess'' ''10.0.0.9''"


section \<open>Sessions\<close>

fun ends_session :: "digest \<Rightarrow> string \<Rightarrow> auth_op \<Rightarrow> auth_manager \<Rightarrow> bool" where
  "ends_session H tk (OpRevoke t) m = (t = tk \<and> t \<noteq> [])"
| "ends_session H tk (OpUpdate rnd0 rnd user old new b) m = (fst (UpdateCredentials H rnd0 rnd user old new b m) = None)"
| "ends_session H tk _ m = False"

lemma Login_Inr:
  assumes "fst (Login H visit rnd tk now user pw a m) = Inr sess"
  shows "user = am_username m \<and> password_ok H rnd pw m \<and> IsInitialized m \<and>
    sess = \<lparr>sn_Token = tk, sn_Username = user, sn_ClientIP = a, sn_CreatedAt = now, sn_ExpiresAt = now + am_sessionTimeout m\<rparr>"
  using assms account_eq [OF prune_account [of visit now m]]
  by (auto simp: Login_def Let_def password_ok_def IsInitialized_def split: option.splits if_splits prod.splits)

lemma session_step:
  assumes "map_of (am_sessions (run_auth H visit op m)) tk = Some sess"
  shows "(\<exists>rnd t user pw a. op = OpLogin rnd tk t user pw a \<and> fst (Login H visit rnd tk t user pw a m) = Inr sess) \<or>
    map_of (am_sessions m) tk = Some sess \<and> \<not> ends_session H tk op m"
proof (cases op)
  case (OpLogin rnd t now user pw a)
  have r: "am_sessions (snd (recordFailureLocked a now m1)) = am_sessions m1" for m1
    using account_eq [OF record_frame(2) [of a now m1]] by simp
  show ?thesis
    using assms OpLogin r account_eq [OF prune_account [of visit now m]]
    by (auto simp: Login_def Let_def update_conv' clear_client_def forget_client_def split: option.splits if_splits prod.splits) (metis snd_conv)+
next
  case (OpVerify rnd now a pw)
  have r: "am_sessions (snd (recordFailureLocked a now m1)) = am_sessions m1" for m1
    using account_eq [OF record_frame(2) [of a now m1]] by simp
  show ?thesis
    using assms OpVerify r account_eq [OF prune_account [of visit now m]]
    by (auto simp: VerifyPasswordWithIP_def Let_def clear_client_def forget_client_def split: option.splits if_splits prod.splits) (metis snd_conv)+
next
  case (OpUpdate rnd0 rnd user old new b)
  then show ?thesis using assms by (auto simp: UpdateCredentials_def Let_def split: if_splits prod.splits)
qed (use assms in \<open>auto simp: SetupInitialCredentials_def Let_def ValidateSession_def RevokeSession_def map_of_delete split: if_splits prod.splits option.splits\<close>)

abbreviation after_calls :: "digest \<Rightarrow> (string list \<Rightarrow> string list) \<Rightarrow> auth_op list \<Rightarrow> auth_manager \<Rightarrow> auth_manager" where
  "after_calls H visit ops m \<equiv> fold (run_auth H visit) ops m"

lemma session_origin:
  assumes "map_of (am_sessions (after_calls H visit ops m)) tk = Some sess" "am_sessions m = []"
  shows "\<exists>pre rnd t user pw a post. ops = pre @ OpLogin rnd tk t user pw a # post \<and>
    fst (Login H visit rnd tk t user pw a (after_calls H visit pre m)) = Inr sess \<and>
    (\<forall>p op q. post = p @ op # q \<longrightarrow> \<not> ends_session H tk op (after_calls H visit (pre @ OpLogin rnd tk t user pw a # p) m))"
  using assms(1)
proof (induction ops rule: rev_induct)
  case (snoc op ops)
  from session_step [of H visit op "after_calls H visit ops m" tk sess] snoc.prems consider
    (new) rnd t user pw a where "op = OpLogin rnd tk t user pw a" "fst (Login H visit rnd tk t user pw a (after_calls H visit ops m)) = Inr sess"
    | (old) "map_of (am_sessions (after_calls H visit ops m)) tk = Some sess" "\<not> ends_session H tk op (after_calls H visit ops m)" by auto
  then show ?case
  proof cases
    case new
    then show ?thesis by (intro exI [of _ ops] exI [of _ rnd] exI [of _ t] exI [of _ user] exI [of _ pw] exI [of _ a] exI [of _ "[]"]) simp
  next
    case old
    from snoc.IH [OF old(1)] obtain pre rnd t user pw a post where P: "ops = pre @ OpLogin rnd tk t user pw a # post"
      "fst (Login H visit rnd tk t user pw a (after_calls H visit pre m)) = Inr sess"
      "\<And>p op q. post = p @ op # q \<Longrightarrow> \<not> ends_session H tk op (after_calls H visit (pre @ OpLogin rnd tk t user pw a # p) m)" by blast
    have "\<not> ends_session H tk x (after_calls H visit (pre @ OpLogin rnd tk t user pw a # p) m)" if "post @ [op] = p @ x # q" for p x q
    proof (cases q rule: rev_cases)
      case Nil
      then show ?thesis using that old(2) P(1) by simp
    next
      case (snoc q' y)
      then show ?thesis using that P(3) [of p x q'] by simp
    qed
    then show ?thesis using P(1,2)
      by (intro exI [of _ pre] exI [of _ rnd] exI [of _ t] exI [of _ user] exI [of _ pw] exI [of _ a] exI [of _ "post @ [op]"]) auto
  qed
qed (use assms(2) in simp)

text \<open>
  C20. A session is worth something only after a login: whatever calls came before, a token that is
  accepted was handed out by a login with the user name and password that were valid at that moment, has not expired, and
  since then it has neither been revoked nor have the credentials been changed.
\<close>

theorem session_authentic:
  assumes "fst (ValidateSession tk now (after_calls H visit ops (NewManager u h s d))) = Some sess"
  shows "\<exists>pre rnd t user pw a post. ops = pre @ OpLogin rnd tk t user pw a # post \<and>
    (let m = after_calls H visit pre (NewManager u h s d)
     in user = am_username m \<and> password_ok H rnd pw m \<and> IsInitialized m \<and> sn_CreatedAt sess = t \<and> sn_ClientIP sess = a) \<and> now \<le> sn_ExpiresAt sess \<and>
    (\<forall>p op q. post = p @ op # q \<longrightarrow>
       \<not> ends_session H tk op (after_calls H visit (pre @ OpLogin rnd tk t user pw a # p) (NewManager u h s d)))"
proof -
  let ?m0 = "NewManager u h s d"
  have v: "map_of (am_sessions (after_calls H visit ops ?m0)) tk = Some sess" "now \<le> sn_ExpiresAt sess"
    using assms by (auto simp: ValidateSession_def split: if_splits option.splits)
  from session_origin [OF v(1)] obtain pre rnd t user pw a post where P: "ops = pre @ OpLogin rnd tk t user pw a # post"
    "fst (Login H visit rnd tk t user pw a (after_calls H visit pre ?m0)) = Inr sess"
    "\<forall>p op q. post = p @ op # q \<longrightarrow> \<not> ends_session H tk op (after_calls H visit (pre @ OpLogin rnd tk t user pw a # p) ?m0)"
    by (auto simp: NewManager_def)
  show ?thesis using P(1,3) Login_Inr [OF P(2)] v(2)
    by (intro exI [of _ pre] exI [of _ rnd] exI [of _ t] exI [of _ user] exI [of _ pw] exI [of _ a] exI [of _ post]) (simp add: Let_def)
qed

definition right_login :: auth_op where "right_login = OpLogin [] ''tok'' 5 ''admin'' ''secret'' ''10.0.0.9''"

theorem session_authentic_witness:
  "\<exists>sess. fst (ValidateSession ''tok'' 100 (after_calls sample_digest (\<lambda>ks. ks) [right_login] (NewManager [] (sample_digest ''s1secret'') ''s1'' 0))) = Some sess \<and>
     100 \<le> sn_ExpiresAt sess"
proof -
  have "map_option sn_CreatedAt (fst (ValidateSession ''tok'' 100 (after_calls sample_digest (\<lambda>ks. ks) [right_login] (NewManager [] (sample_digest ''s1secret'') ''s1'' 0)))) = Some 5"
    by code_simp
  then obtain sess where s: "fst (ValidateSession ''tok'' 100 (after_calls sample_digest (\<lambda>ks. ks) [right_login] (NewManager [] (sample_digest ''s1secret'') ''s1'' 0))) = Some sess"
    by auto
  with session_authentic [OF s] show ?thesis by blast
qed

section \<open>Local callers\<close>

lemma equal_fold_refl: "equal_fold x x" by (simp add: equal_fold_def)

text \<open>
  C39. Without a configured secret the interface trusts a request from the loopback address whose origin is
  its own host. The host is what the browser was told: a page of any name that resolves to the
  loopback address is served under its own name, so it is trusted without a token or a session.
\<close>

theorem rebound_page_trusted:
  assumes "isLoopbackRequest r" "extractToken r = []" "urlHost (trim_space (header_Get (ar_Header r) ''Origin'')) = Some (ar_Host r)"
  shows "fst (verifyToken urlHost [] now r ctl)"
  using assms by (simp add: verifyToken_def isTrustedOrigin_def Let_def equal_fold_refl)

definition rebound_request :: api_request where
  "rebound_request = \<lparr>ar_RemoteAddr = ''127.0.0.1:50000'', ar_Host = ''evil.example:15353'',
     ar_Header = [(''Origin'', [''http://evil.example:15353''])], ar_Query = []\<rparr>"

definition http_host :: "string \<Rightarrow> string option" where
  "http_host o1 = (if has_prefix o1 ''http://'' then Some (trim_prefix o1 ''http://'') else None)"

theorem rebound_page_trusted_witness: "fst (verifyToken http_host [] 0 rebound_request (Some sample_manager))"
  by (rule rebound_page_trusted) code_simp+

text \<open>
  The login background can be changed from any page in a browser on the same machine: a loopback request is
  let through whatever its origin and whatever secret is configured, where \<open>verifyToken\<close> refuses it.
\<close>

theorem background_ignores_origin:
  assumes "isLoopbackRequest r"
  shows "fst (verifyBackgroundPermission H visit rnd urlHost secret now r pw ctl)"
  using assms by (simp add: verifyBackgroundPermission_def)

end
