(* ===== verification/Bootstrap.thy ===== *)
theory Bootstrap
  imports Complex_Main Edns Scheduler Go_Addr
begin

text \<open>
  The bootstrap resolver (\<open>core/bootstrap.go\<close>, \<open>core/bootstrap_health.go\<close>,
  \<open>core/bootstrap_query.go\<close>): it finds the addresses of encrypted upstreams by asking plain
  servers, which it prefers by their health, and keeps what it found for a minute.

  A query to a server is a parameter, a function of network, context, message, address and time giving a
  reply or an error and the time it took. Weights are rationals: rounding of \<open>float64\<close> is not modelled,
  and the decay factor \<open>math.Pow(0.5, x)\<close> is a parameter. The random draws of a plan are its
  arguments. The locks protect one map each; a resolution here runs alone.
\<close>

section \<open>Configuration\<close>

record BootstrapServer =
  bo_ID :: string
  bo_Name :: string
  bo_Address :: string
  bo_Weight :: rat

record BootstrapConfig =
  bc_Enabled :: bool
  bc_Servers :: "BootstrapServer list"

definition bootstrap_server_ok :: "BootstrapServer \<Rightarrow> bool" where
  "bootstrap_server_ok s =
     (let addr = trim_space (bo_Address s) in
      addr \<noteq> [] \<and>
      (case SplitHostPort addr of
         Some (h, portStr) \<Rightarrow>
           (case Atoi portStr of None \<Rightarrow> False | Some p \<Rightarrow> 0 < p \<and> p \<le> 65535 \<and> ParseIP (trim_with (\<lambda>c. c = CHR ''['' \<or> c = CHR '']'') h) \<noteq> [])
       | None \<Rightarrow> ParseIP (trim_with (\<lambda>c. c = CHR ''['' \<or> c = CHR '']'') addr) \<noteq> []))"

text \<open>True when there is no error.\<close>

definition ValidateBootstrapConfig :: "BootstrapConfig \<Rightarrow> bool" where
  "ValidateBootstrapConfig cfg = list_all bootstrap_server_ok (bc_Servers cfg)"

section \<open>Health\<close>

definition bsDefaultLatencyMs :: rat where "bsDefaultLatencyMs = 250"
definition bsMinLatencyMs :: rat where "bsMinLatencyMs = 20"
definition bsMaxLatencyMs :: rat where "bsMaxLatencyMs = 5000"
definition bsMinWeight :: rat where "bsMinWeight = 5 / 100"
definition bsMaxWeight :: rat where "bsMaxWeight = 3"
definition bsJitterWeight :: rat where "bsJitterWeight = 1 / 2"
definition bsCooldownPenalty :: rat where "bsCooldownPenalty = 1 / 10"
definition bsConsecutiveFailPenalty :: rat where "bsConsecutiveFailPenalty = 2 / 10"
definition bsEwmaAlpha :: rat where "bsEwmaAlpha = 25 / 100"
definition bsJitterAlpha :: rat where "bsJitterAlpha = 20 / 100"
definition bsBaseExplorationRate :: rat where "bsBaseExplorationRate = 2 / 100"
definition bsLowSampleExplorationRate :: rat where "bsLowSampleExplorationRate = 8 / 100"
definition bsRecoveryExplorationRate :: rat where "bsRecoveryExplorationRate = 10 / 100"
definition bsLowSampleThreshold :: rat where "bsLowSampleThreshold = 10"
definition bsCooldownFailureThreshold :: nat where "bsCooldownFailureThreshold = 3"
definition bsCooldownDuration :: duration where "bsCooldownDuration = 30 * second"
definition bsHealthHalfLifeDuration :: duration where "bsHealthHalfLifeDuration = 1800 * second"
definition bsDefaultCacheTTL :: duration where "bsDefaultCacheTTL = 60 * second"

lemmas bs_constants = bsDefaultLatencyMs_def bsMinLatencyMs_def bsMaxLatencyMs_def bsMinWeight_def bsMaxWeight_def
  bsJitterWeight_def bsCooldownPenalty_def bsConsecutiveFailPenalty_def bsEwmaAlpha_def bsJitterAlpha_def

record bootstrapHealth =
  bh_successes :: nat
  bh_failures :: nat
  bh_ewmaMs :: rat
  bh_jitterMs :: rat
  bh_consecutiveFailures :: nat
  bh_cooldownUntil :: "time option"  \<comment> \<open>nothing for the zero time\<close>
  bh_decayedSuccesses :: rat
  bh_decayedFailures :: rat
  bh_lastUpdatedAt :: time

definition newBootstrapHealth :: "time \<Rightarrow> bootstrapHealth" where
  "newBootstrapHealth now = \<lparr>bh_successes = 0, bh_failures = 0, bh_ewmaMs = bsDefaultLatencyMs, bh_jitterMs = 0,
     bh_consecutiveFailures = 0, bh_cooldownUntil = None, bh_decayedSuccesses = 0, bh_decayedFailures = 0, bh_lastUpdatedAt = now\<rparr>"

type_synonym decay = "duration \<Rightarrow> rat"

definition applyDecayLocked :: "decay \<Rightarrow> time \<Rightarrow> bootstrapHealth \<Rightarrow> bootstrapHealth" where
  "applyDecayLocked D now h =
     (let elapsed = now - bh_lastUpdatedAt h in
      if elapsed \<le> 0 then h
      else h\<lparr>bh_decayedSuccesses := bh_decayedSuccesses h * D elapsed, bh_decayedFailures := bh_decayedFailures h * D elapsed,
             bh_lastUpdatedAt := now\<rparr>)"

definition RecordResult :: "decay \<Rightarrow> bool \<Rightarrow> int \<Rightarrow> time \<Rightarrow> bootstrapHealth \<Rightarrow> bootstrapHealth" where
  "RecordResult D success elapsedMs now h0 =
     (let h = applyDecayLocked D now h0;
          safeElapsed = (if of_int elapsedMs < (1 :: rat) then 1 else of_int elapsedMs);
          h1 = (if success
                then (let ewma = bh_ewmaMs h * (1 - bsEwmaAlpha) + safeElapsed * bsEwmaAlpha in
                      h\<lparr>bh_successes := bh_successes h + 1, bh_decayedSuccesses := bh_decayedSuccesses h + 1,
                        bh_consecutiveFailures := 0, bh_cooldownUntil := None, bh_ewmaMs := ewma,
                        bh_jitterMs := bh_jitterMs h * (1 - bsJitterAlpha) + \<bar>safeElapsed - ewma\<bar> * bsJitterAlpha\<rparr>)
                else (let n = bh_consecutiveFailures h + 1 in
                      h\<lparr>bh_failures := bh_failures h + 1, bh_decayedFailures := bh_decayedFailures h + 1, bh_consecutiveFailures := n,
                        bh_cooldownUntil := (if n \<ge> bsCooldownFailureThreshold then Some (now + bsCooldownDuration) else bh_cooldownUntil h)\<rparr>))
      in h1\<lparr>bh_lastUpdatedAt := now\<rparr>)"

record bootstrapScore =
  sc_index :: nat
  sc_entry :: BootstrapServer
  sc_weight :: rat
  sc_coolingDown :: bool
  sc_sampleCount :: rat

definition serverKey :: "BootstrapServer \<Rightarrow> nat \<Rightarrow> string" where
  "serverKey s i = (if bo_ID s \<noteq> [] then bo_ID s else if bo_Address s \<noteq> [] then bo_Address s else ''server-'' @ itoa i)"

definition cooling :: "bootstrapHealth \<Rightarrow> time \<Rightarrow> bool" where
  "cooling h now = (case bh_cooldownUntil h of None \<Rightarrow> False | Some t \<Rightarrow> now < t)"

definition health_speed :: "bootstrapHealth \<Rightarrow> rat" where
  "health_speed h =
     (if bh_successes h > 0
      then (let l = bh_ewmaMs h + bh_jitterMs h * bsJitterWeight
            in bsDefaultLatencyMs / (if l < bsMinLatencyMs then bsMinLatencyMs else if l > bsMaxLatencyMs then bsMaxLatencyMs else l))
      else 1)"

definition GetScore :: "decay \<Rightarrow> nat \<Rightarrow> BootstrapServer \<Rightarrow> time \<Rightarrow> bootstrapHealth \<Rightarrow> bootstrapScore \<times> bootstrapHealth" where
  "GetScore D i entry now h0 =
     (let h = applyDecayLocked D now h0;
          attempts = bh_decayedSuccesses h + bh_decayedFailures h;
          cd = cooling h now
      in if attempts \<le> 0
         then (\<lparr>sc_index = i, sc_entry = entry, sc_weight = (if bo_Weight entry \<le> 0 then 1 else bo_Weight entry), sc_coolingDown = cd, sc_sampleCount = 0\<rparr>, h)
         else (let correctness = (bh_decayedSuccesses h + 2) / (attempts + 3);
                   cPenalty = (if cd then bsCooldownPenalty else 1);
                   fPenalty = 1 / (1 + of_nat (bh_consecutiveFailures h) * bsConsecutiveFailPenalty);
                   w = correctness * health_speed h * cPenalty * fPenalty
               in (\<lparr>sc_index = i, sc_entry = entry,
                    sc_weight = (if w < bsMinWeight then bsMinWeight else if w > bsMaxWeight then bsMaxWeight else w),
                    sc_coolingDown = cd, sc_sampleCount = attempts\<rparr>, h)))"

section \<open>The resolver\<close>

record cachedBootstrapHost =
  ch_ip :: string
  ch_expiresAt :: time

record BootstrapResolver =
  br_enabled :: bool
  br_servers :: "BootstrapServer list"
  br_cache :: "(string \<times> cachedBootstrapHost) list"
  br_healthMap :: "(string \<times> bootstrapHealth) list"

definition NewBootstrapResolver :: "BootstrapConfig \<Rightarrow> BootstrapResolver" where
  "NewBootstrapResolver cfg = \<lparr>br_enabled = bc_Enabled cfg, br_servers = bc_Servers cfg, br_cache = [], br_healthMap = []\<rparr>"

definition bootstrap_UpdateConfig :: "BootstrapConfig \<Rightarrow> BootstrapResolver \<Rightarrow> BootstrapResolver" where
  "bootstrap_UpdateConfig cfg b = b\<lparr>br_enabled := bc_Enabled cfg, br_servers := bc_Servers cfg, br_cache := []\<rparr>"

definition ResetStats :: "BootstrapResolver \<Rightarrow> BootstrapResolver" where
  "ResetStats b = b\<lparr>br_healthMap := [], br_cache := []\<rparr>"

definition bootstrap_IsEnabled :: "BootstrapResolver \<Rightarrow> bool" where
  "bootstrap_IsEnabled b = (br_enabled b \<and> br_servers b \<noteq> [])"

definition getOrCreateHealth :: "string \<Rightarrow> time \<Rightarrow> BootstrapResolver \<Rightarrow> bootstrapHealth" where
  "getOrCreateHealth k now b = (case map_of (br_healthMap b) k of Some h \<Rightarrow> h | None \<Rightarrow> newBootstrapHealth now)"

definition put_health :: "string \<Rightarrow> bootstrapHealth \<Rightarrow> BootstrapResolver \<Rightarrow> BootstrapResolver" where
  "put_health k h b = b\<lparr>br_healthMap := AList.update k h (br_healthMap b)\<rparr>"

definition getCached :: "string \<Rightarrow> time \<Rightarrow> BootstrapResolver \<Rightarrow> string option" where
  "getCached host now b =
     (case map_of (br_cache b) host of None \<Rightarrow> None
      | Some e \<Rightarrow> if now > ch_expiresAt e then None else Some (ch_ip e))"

definition putCached :: "string \<Rightarrow> string \<Rightarrow> time \<Rightarrow> BootstrapResolver \<Rightarrow> BootstrapResolver" where
  "putCached host ip now b = b\<lparr>br_cache := AList.update host \<lparr>ch_ip = ip, ch_expiresAt = now + bsDefaultCacheTTL\<rparr> (br_cache b)\<rparr>"

section \<open>Plans\<close>

record bootstrapPlan =
  bp_primary :: BootstrapServer
  bp_fallbacks :: "BootstrapServer list"
  bp_exploration :: bool

text \<open>The draws of \<open>rand\<close>: two numbers between 0 and 1 and an index below a bound.\<close>

record draws =
  rnd_explore :: rat
  rnd_weighted :: rat
  rnd_Intn :: "nat \<Rightarrow> nat"

fun score_servers :: "decay \<Rightarrow> nat \<Rightarrow> BootstrapServer list \<Rightarrow> time \<Rightarrow> BootstrapResolver \<Rightarrow> bootstrapScore list \<times> BootstrapResolver" where
  "score_servers D i [] now b = ([], b)"
| "score_servers D i (s # ss) now b =
     (let k = serverKey s i;
          (score, h) = GetScore D i s now (getOrCreateHealth k now b);
          (rest, b') = score_servers D (i + 1) ss now (put_health k h b)
      in (score # rest, b'))"

fun weighted_loop :: "rat \<Rightarrow> bootstrapScore list \<Rightarrow> bootstrapScore option" where
  "weighted_loop r [] = None"
| "weighted_loop r (c # cs) =
     (if sc_weight c > 0 then (if r - sc_weight c \<le> 0 then Some c else weighted_loop (r - sc_weight c) cs) else weighted_loop r cs)"

definition chooseWeighted :: "rat \<Rightarrow> bootstrapScore list \<Rightarrow> bootstrapScore" where
  "chooseWeighted x candidates =
     (let total = sum_list (map sc_weight (filter (\<lambda>c. sc_weight c > 0) candidates)) in
      if total \<le> 0 then hd candidates
      else case weighted_loop (x * total) candidates of Some c \<Rightarrow> c | None \<Rightarrow> last candidates)"

definition candidates_of :: "bootstrapScore list \<Rightarrow> bootstrapScore list" where
  "candidates_of scores = (let cs = filter (\<lambda>s. \<not> sc_coolingDown s) scores in if cs = [] then scores else cs)"

definition explorationRate :: "bootstrapScore list \<Rightarrow> rat" where
  "explorationRate scores =
     (if list_ex sc_coolingDown scores then bsRecoveryExplorationRate
      else if list_ex (\<lambda>s. sc_sampleCount s < bsLowSampleThreshold) scores then bsLowSampleExplorationRate
      else bsBaseExplorationRate)"

definition plan_of_scores :: "draws \<Rightarrow> bootstrapScore list \<Rightarrow> bootstrapPlan" where
  "plan_of_scores R scores =
     (let cands = candidates_of scores;
          exploration = (rnd_explore R < explorationRate scores);
          primary = (if exploration then cands ! (rnd_Intn R (length cands)) else chooseWeighted (rnd_weighted R) cands);
          remaining = filter (\<lambda>s. sc_index s \<noteq> sc_index primary) scores
      in \<lparr>bp_primary = sc_entry primary, bp_fallbacks = map sc_entry (sort_key (\<lambda>s. - sc_weight s) remaining), bp_exploration = exploration\<rparr>)"

definition choosePlan :: "decay \<Rightarrow> draws \<Rightarrow> BootstrapServer list \<Rightarrow> time \<Rightarrow> BootstrapResolver \<Rightarrow> bootstrapPlan option \<times> BootstrapResolver" where
  "choosePlan D R servers now b =
     (case servers of [] \<Rightarrow> (None, b)
      | [s] \<Rightarrow> (Some \<lparr>bp_primary = s, bp_fallbacks = [], bp_exploration = False\<rparr>, b)
      | _ \<Rightarrow> (let (scores, b') = score_servers D 0 servers now b in (Some (plan_of_scores R scores), b')))"

section \<open>One server\<close>

type_synonym dns_client = "string \<Rightarrow> ctx \<Rightarrow> msg \<Rightarrow> string \<Rightarrow> time \<Rightarrow> (msg option \<times> bool) \<times> duration"
  \<comment> \<open>network, context, message, address, time; the reply, whether there was an error, and how long it took\<close>

datatype bootstrap_error =
    EmptyHost
  | NoServer
  | CtxDone ctx_error
  | LoopLimit string
  | QueryFailed string string
  | NoAddress string string
  | ResolutionFailed string bootstrap_error

definition client_ask :: "dns_client \<Rightarrow> ctx \<Rightarrow> msg \<Rightarrow> string \<Rightarrow> time \<Rightarrow> (msg option \<times> bool) \<times> time" where
  "client_ask X c m addr t =
     (case X ''udp'' c m addr t of
        ((Some r, False), d) \<Rightarrow>
          if m_Truncated r then (let (res, d2) = X ''tcp'' c m addr (t + d) in (res, t + d + d2)) else ((Some r, False), t + d)
      | (res, d) \<Rightarrow> (res, t + d))"

definition bootstrap_msg :: "dns_lib \<Rightarrow> u16 \<Rightarrow> string \<Rightarrow> u16 \<Rightarrow> msg" where
  "bootstrap_msg L id0 host qtype = empty_msg\<lparr>m_Id := id0, m_RecursionDesired := True,
     m_Question := [\<lparr>q_Name = Fqdn L host, q_Qtype = qtype, q_Qclass = ClassINET\<rparr>]\<rparr>"

text \<open>The walk over an answer section: the first address of the wanted kind, and the first alias before it.\<close>

fun scan_answer :: "bool \<Rightarrow> rr list \<Rightarrow> string \<Rightarrow> string option \<times> string" where
  "scan_answer v6 [] cname = (None, cname)"
| "scan_answer v6 (r # rs) cname =
     (case rr_Data r of
        RD_A a \<Rightarrow> if \<not> v6 \<and> a \<noteq> [] then (Some (ip_String a), cname) else scan_answer v6 rs cname
      | RD_AAAA a \<Rightarrow> if v6 \<and> a \<noteq> [] then (Some (ip_String a), cname) else scan_answer v6 rs cname
      | RD_CNAME t \<Rightarrow> if t \<noteq> [] \<and> cname = [] then scan_answer v6 rs (trim_suffix t ''.'') else scan_answer v6 rs cname
      | _ \<Rightarrow> scan_answer v6 rs cname)"

definition scan_reply :: "bool \<Rightarrow> msg option \<times> bool \<Rightarrow> string \<Rightarrow> string option \<times> string" where
  "scan_reply v6 res cname = (case res of (Some r, False) \<Rightarrow> scan_answer v6 (m_Answer r) cname | _ \<Rightarrow> (None, cname))"

definition bootstrap_addr :: "string \<Rightarrow> string" where
  "bootstrap_addr serverAddr =
     (case SplitHostPort serverAddr of Some _ \<Rightarrow> serverAddr
      | None \<Rightarrow> JoinHostPort (trim_with (\<lambda>c. c = CHR ''['' \<or> c = CHR '']'') serverAddr) ''53'')"

record bs_env =
  be_lib :: dns_lib
  be_client :: dns_client
  be_Id :: "time \<Rightarrow> u16"
  be_decay :: decay

text \<open>The recursion over aliases; the first argument is how many more aliases may be followed.\<close>

fun queryBootstrapDNSRecursive :: "bs_env \<Rightarrow> ctx \<Rightarrow> string \<Rightarrow> nat \<Rightarrow> string \<Rightarrow> time \<Rightarrow> (bootstrap_error + string) \<times> time" where
  "queryBootstrapDNSRecursive B c serverAddr n host t =
     (let addr = bootstrap_addr serverAddr;
          (resA, t1) = client_ask (be_client B) c (bootstrap_msg (be_lib B) (be_Id B t) host TypeA) addr t;
          (a, cname1) = scan_reply False resA []
      in case a of Some ip \<Rightarrow> (Inr ip, t1)
         | None \<Rightarrow>
            (let (resAAAA, t2) = client_ask (be_client B) c (bootstrap_msg (be_lib B) (be_Id B t1) host TypeAAAA) addr t1;
                 (aaaa, cname2) = scan_reply True resAAAA cname1
             in case aaaa of Some ip \<Rightarrow> (Inr ip, t2)
                | None \<Rightarrow>
                   (if cname2 \<noteq> [] \<and> \<not> equal_fold cname2 host
                    then (case n of 0 \<Rightarrow> (Inl (LoopLimit cname2), t2)
                          | Suc n' \<Rightarrow> queryBootstrapDNSRecursive B c serverAddr n' cname2 t2)
                    else if snd resA then (Inl (QueryFailed addr host), t2)
                    else (Inl (NoAddress host addr), t2))))"

declare queryBootstrapDNSRecursive.simps [simp del]

definition queryBootstrapDNS :: "bs_env \<Rightarrow> ctx \<Rightarrow> string \<Rightarrow> string \<Rightarrow> time \<Rightarrow> (bootstrap_error + string) \<times> time" where
  "queryBootstrapDNS B c serverAddr host t = queryBootstrapDNSRecursive B c serverAddr 3 host t"

section \<open>Resolving a host\<close>

definition bootstrap_wait :: duration where "bootstrap_wait = 1500 * millisecond"

fun server_loop ::
  "bs_env \<Rightarrow> ctx \<Rightarrow> string \<Rightarrow> string \<Rightarrow> nat \<Rightarrow> BootstrapServer list \<Rightarrow> bootstrap_error option \<Rightarrow> time \<Rightarrow> BootstrapResolver \<Rightarrow>
    (bootstrap_error + string) \<times> time \<times> BootstrapResolver" where
  "server_loop B c host nhost i [] lastErr t b =
     (Inl (case lastErr of Some e \<Rightarrow> ResolutionFailed host e | None \<Rightarrow> NoServer), t, b)"
| "server_loop B c host nhost i (s # ss) lastErr t b =
     (case ctx_Err c t of Some e \<Rightarrow> (Inl (CtxDone e), t, b)
      | None \<Rightarrow>
         (let (res, t1) = queryBootstrapDNS B (WithTimeout c bootstrap_wait t) (bo_Address s) nhost t;
              elapsed = go_div (t1 - t) millisecond;
              k = serverKey s i;
              ok = (case res of Inr ip \<Rightarrow> ip \<noteq> [] | Inl _ \<Rightarrow> False);
              b1 = put_health k (RecordResult (be_decay B) ok (if elapsed < 1 then 1 else elapsed) t1 (getOrCreateHealth k t1 b)) b
          in case res of
               Inr ip \<Rightarrow> if ip \<noteq> [] then (Inr ip, t1, putCached nhost ip t1 b1)
                         else server_loop B c host nhost (i + 1) ss None t1 b1
             | Inl e \<Rightarrow> server_loop B c host nhost (i + 1) ss (Some e) t1 b1))"

definition normalized_host :: "string \<Rightarrow> string" where
  "normalized_host cleanHost = trim_suffix (to_lower (trim_space cleanHost)) ''.''"

definition ResolveHost ::
  "bs_env \<Rightarrow> draws \<Rightarrow> ctx \<Rightarrow> string \<Rightarrow> time \<Rightarrow> BootstrapResolver \<Rightarrow> (bootstrap_error + string) \<times> time \<times> BootstrapResolver" where
  "ResolveHost B R c host t b =
     (if host = [] then (Inl EmptyHost, t, b)
      else (let cleanHost = trim_with (\<lambda>x. x = CHR ''['' \<or> x = CHR '']'') host in
        if ParseIP cleanHost \<noteq> [] then (Inr cleanHost, t, b)
        else if \<not> br_enabled b \<or> br_servers b = [] then (Inr host, t, b)
        else (let nhost = normalized_host cleanHost in
          case getCached nhost t b of Some ip \<Rightarrow> (Inr ip, t, b)
          | None \<Rightarrow>
             (case choosePlan (be_decay B) R (br_servers b) t b of
                (None, b1) \<Rightarrow> (Inl NoServer, t, b1)
              | (Some plan, b1) \<Rightarrow>
                  if bo_Address (bp_primary plan) = [] then (Inl NoServer, t, b1)
                  else server_loop B c host nhost 0 (bp_primary plan # bp_fallbacks plan) None t b1))))"

end
