(* ===== verification/Bootstrap_Facts.thy ===== *)
theory Bootstrap_Facts
  imports Bootstrap "HOL-Library.Multiset"
begin

text \<open>
  Properties of the bootstrap resolver: a plan tries every server once and avoids the ones that keep
  failing, weights stay in range, a name that was found is not asked for again within its lifetime.
\<close>

section \<open>Plans\<close>

lemma GetScore_fields:
  "sc_index (fst (GetScore D i s now h)) = i" "sc_entry (fst (GetScore D i s now h)) = s"
  by (simp_all add: GetScore_def Let_def)

lemma score_servers_fields:
  assumes "score_servers D i ss now b = (scores, b')"
  shows "map sc_entry scores = ss" "map sc_index scores = [i..<i + length ss]"
proof -
  have "map sc_entry scores = ss \<and> map sc_index scores = [i..<i + length ss]"
    using assms
  proof (induction D i ss now b arbitrary: scores b' rule: score_servers.induct)
    case (2 D i s ss now b)
    obtain score h where g: "GetScore D i s now (getOrCreateHealth (serverKey s i) now b) = (score, h)" by fastforce
    obtain rest b1 where r: "score_servers D (i + 1) ss now (put_health (serverKey s i) h b) = (rest, b1)" by fastforce
    have "scores = score # rest" using "2.prems" g r by (simp add: Let_def)
    moreover have "sc_index score = i" "sc_entry score = s"
      using GetScore_fields [of D i s now "getOrCreateHealth (serverKey s i) now b"] g by simp_all
    moreover have "[i..<i + length (s # ss)] = i # [i + 1..<(i + 1) + length ss]" by (subst upt_conv_Cons) simp_all
    ultimately show ?case using "2.IH" [OF refl refl g [symmetric] r] by simp
  qed simp
  then show "map sc_entry scores = ss" "map sc_index scores = [i..<i + length ss]" by simp_all
qed

lemma weighted_loop_mem: "weighted_loop r cs = Some c \<Longrightarrow> c \<in> set cs"
  by (induction cs arbitrary: r) (auto split: if_splits)

lemma chooseWeighted_mem: "cs \<noteq> [] \<Longrightarrow> chooseWeighted x cs \<in> set cs"
  by (auto simp: chooseWeighted_def Let_def dest: weighted_loop_mem split: option.splits)

lemma candidates_ok: "scores \<noteq> [] \<Longrightarrow> candidates_of scores \<noteq> [] \<and> set (candidates_of scores) \<subseteq> set scores"
  by (auto simp: candidates_of_def Let_def)

definition draws_ok :: "draws \<Rightarrow> bool" where
  "draws_ok R \<longleftrightarrow> (\<forall>n. 0 < n \<longrightarrow> rnd_Intn R n < n)"

lemma plan_primary:
  assumes "draws_ok R" "scores \<noteq> []"
  obtains p where "p \<in> set (candidates_of scores)" "bp_primary (plan_of_scores R scores) = sc_entry p"
    "bp_fallbacks (plan_of_scores R scores) = map sc_entry (sort_key (\<lambda>s. - sc_weight s) (filter (\<lambda>s. sc_index s \<noteq> sc_index p) scores))"
proof
  let ?p = "if rnd_explore R < explorationRate scores then candidates_of scores ! rnd_Intn R (length (candidates_of scores))
    else chooseWeighted (rnd_weighted R) (candidates_of scores)"
  show "?p \<in> set (candidates_of scores)"
    using candidates_ok [OF assms(2)] assms(1) chooseWeighted_mem by (auto simp: draws_ok_def)
  show "bp_primary (plan_of_scores R scores) = sc_entry ?p"
    "bp_fallbacks (plan_of_scores R scores) = map sc_entry (sort_key (\<lambda>s. - sc_weight s) (filter (\<lambda>s. sc_index s \<noteq> sc_index ?p) scores))"
    by (simp_all add: plan_of_scores_def Let_def)
qed

lemma filter_one_out:
  assumes "distinct (map f xs)" "p \<in> set xs"
  shows "mset xs = add_mset p (mset (filter (\<lambda>x. f x \<noteq> f p) xs))"
  using assms
proof (induction xs)
  case (Cons x xs)
  show ?case
  proof (cases "p = x")
    case True
    have "\<forall>y \<in> set xs. f y \<noteq> f p" using True Cons.prems(1) image_iff by fastforce
    then have "filter (\<lambda>y. f y \<noteq> f p) xs = xs" by (simp add: filter_id_conv)
    then show ?thesis using True by simp
  next
    case False
    then have "p \<in> set xs" "f x \<noteq> f p" using Cons.prems by auto
    then show ?thesis using Cons by simp
  qed
qed simp

text \<open>
  A plan tries every configured server exactly once, whatever was drawn and whatever the health of the servers.
\<close>

theorem plan_covers_servers:
  assumes "draws_ok R" "choosePlan D R servers now b = (Some plan, b')"
  shows "mset (bp_primary plan # bp_fallbacks plan) = mset servers"
proof (cases servers rule: remdups_adj.cases)
  case (3 s1 s2 ss)
  obtain scores b1 where s: "score_servers D 0 servers now b = (scores, b1)" by fastforce
  note f = score_servers_fields [OF s]
  have plan: "plan = plan_of_scores R scores" using assms(2) s 3 by (simp add: choosePlan_def)
  have ne: "scores \<noteq> []" using f(1) 3 by auto
  obtain p where p: "p \<in> set (candidates_of scores)" "bp_primary plan = sc_entry p"
    "bp_fallbacks plan = map sc_entry (sort_key (\<lambda>s. - sc_weight s) (filter (\<lambda>s. sc_index s \<noteq> sc_index p) scores))"
    unfolding plan by (rule plan_primary [OF assms(1) ne])
  have "mset scores = add_mset p (mset (filter (\<lambda>s. sc_index s \<noteq> sc_index p) scores))"
    by (rule filter_one_out) (use p(1) candidates_ok [OF ne] f(2) in auto)
  from arg_cong [OF this, of "image_mset sc_entry"]
  have "image_mset sc_entry (mset scores) = mset (bp_primary plan # bp_fallbacks plan)" by (simp add: p(2,3))
  then show ?thesis using f(1) by (metis mset_map)
qed (use assms(2) in \<open>auto simp: choosePlan_def\<close>)

text \<open>A server in its cooling period is asked first only when all of them are.\<close>

theorem cooling_server_not_first:
  assumes "draws_ok R" "scores \<noteq> []" "\<exists>s \<in> set scores. \<not> sc_coolingDown s"
  shows "\<exists>s \<in> set scores. sc_entry s = bp_primary (plan_of_scores R scores) \<and> \<not> sc_coolingDown s"
proof -
  have "candidates_of scores = filter (\<lambda>s. \<not> sc_coolingDown s) scores"
    using assms(3) by (auto simp: candidates_of_def Let_def filter_empty_conv)
  moreover obtain p where "p \<in> set (candidates_of scores)" "bp_primary (plan_of_scores R scores) = sc_entry p"
    by (rule plan_primary [OF assms(1,2)])
  ultimately show ?thesis by auto
qed

section \<open>Weights\<close>

text \<open>
  The weight of a server stays between the bounds once it has been asked, and is the configured one, or one, before.
\<close>

theorem weight_bounds:
  "let (score, h) = GetScore D i s now h0 in
   if sc_sampleCount score = 0 then sc_weight score = (if bo_Weight s \<le> 0 then 1 else bo_Weight s)
   else bsMinWeight \<le> sc_weight score \<and> sc_weight score \<le> bsMaxWeight"
  by (auto simp: GetScore_def Let_def bsMinWeight_def bsMaxWeight_def)

section \<open>Resolution\<close>

text \<open>A server gave no address.\<close>

definition server_failed :: "bs_env \<Rightarrow> string \<Rightarrow> BootstrapServer \<Rightarrow> bool" where
  "server_failed B nhost s \<longleftrightarrow> (\<exists>c t. case fst (queryBootstrapDNS B c (bo_Address s) nhost t) of Inl _ \<Rightarrow> True | Inr ip \<Rightarrow> ip = [])"

lemma server_loop_failure:
  assumes "server_loop B c host nhost i ss le t b = (Inl e, t', b')" "\<And>x. e \<noteq> CtxDone x"
  shows "\<forall>s \<in> set ss. server_failed B nhost s"
  using assms(1)
proof (induction ss arbitrary: i le t b)
  case (Cons s ss)
  have c: "ctx_Err c t = None" using Cons.prems assms(2) by (cases "ctx_Err c t") auto
  obtain res t1 where q: "queryBootstrapDNS B (WithTimeout c bootstrap_wait t) (bo_Address s) nhost t = (res, t1)" by fastforce
  show ?case
  proof (cases res)
    case (Inl x)
    have "server_failed B nhost s" unfolding server_failed_def
      by (intro exI [of _ "WithTimeout c bootstrap_wait t"] exI [of _ t]) (simp add: q Inl)
    then show ?thesis using Cons c q Inl by (auto simp: Let_def)
  next
    case (Inr ip)
    then have "ip = []" using Cons.prems c q by (auto simp: Let_def split: if_splits)
    moreover from this have "server_failed B nhost s" unfolding server_failed_def
      by (intro exI [of _ "WithTimeout c bootstrap_wait t"] exI [of _ t]) (simp add: q Inr)
    ultimately show ?thesis using Cons c q Inr by (auto simp: Let_def)
  qed
qed simp

lemma server_loop_success:
  assumes "server_loop B c host nhost i ss le t b = (Inr ip, t', b')"
  shows "ip \<noteq> [] \<and> getCached nhost t' b' = Some ip \<and> map_of (br_cache b') nhost = Some \<lparr>ch_ip = ip, ch_expiresAt = t' + bsDefaultCacheTTL\<rparr> \<and>
    br_enabled b' = br_enabled b \<and> br_servers b' = br_servers b"
  using assms
proof (induction ss arbitrary: i le t b)
  case (Cons s ss)
  have c: "ctx_Err c t = None" using Cons.prems by (cases "ctx_Err c t") auto
  obtain res t1 where q: "queryBootstrapDNS B (WithTimeout c bootstrap_wait t) (bo_Address s) nhost t = (res, t1)" by fastforce
  show ?case using Cons c q
    by (cases res) (auto simp: Let_def put_health_def putCached_def getCached_def bsDefaultCacheTTL_def second_def update_conv' split: if_splits)
qed simp

lemma score_servers_frame:
  assumes "score_servers D i ss now b = (scores, b')"
  shows "br_enabled b' = br_enabled b" "br_servers b' = br_servers b" "br_cache b' = br_cache b"
proof -
  have "br_enabled b' = br_enabled b \<and> br_servers b' = br_servers b \<and> br_cache b' = br_cache b"
    using assms by (induction D i ss now b arbitrary: scores b' rule: score_servers.induct) (auto simp: Let_def put_health_def split: prod.splits)
  then show "br_enabled b' = br_enabled b" "br_servers b' = br_servers b" "br_cache b' = br_cache b" by simp_all
qed

lemma choosePlan_frame:
  assumes "choosePlan D R servers now b = (plan, b')"
  shows "br_enabled b' = br_enabled b" "br_servers b' = br_servers b" "br_cache b' = br_cache b"
proof -
  obtain scores b1 where s: "score_servers D 0 servers now b = (scores, b1)" by fastforce
  have "b' = b \<or> b' = b1" using assms s by (auto simp del: score_servers.simps simp: choosePlan_def split: list.splits)
  then show "br_enabled b' = br_enabled b" "br_servers b' = br_servers b" "br_cache b' = br_cache b"
    using score_servers_frame [OF s] by auto
qed

text \<open>
  Resolving a name fails only after every configured server was asked and gave no address, unless the caller's
  context ended or a server without an address is configured.
\<close>

theorem bootstrap_tries_all:
  assumes "draws_ok R" "ResolveHost B R c host t b = (Inl e, t', b')" "host \<noteq> []"
    and "\<And>x. e \<noteq> CtxDone x" "\<forall>s \<in> set (br_servers b). bo_Address s \<noteq> []"
  shows "\<forall>s \<in> set (br_servers b). server_failed B (normalized_host (trim_with (\<lambda>x. x = CHR ''['' \<or> x = CHR '']'') host)) s"
proof -
  let ?clean = "trim_with (\<lambda>x. x = CHR ''['' \<or> x = CHR '']'') host"
  have g: "ParseIP ?clean = []" "br_enabled b" "br_servers b \<noteq> []" "getCached (normalized_host ?clean) t b = None"
    using assms(2,3) by (auto simp: ResolveHost_def Let_def split: if_splits option.splits)
  obtain op b1 where pl: "choosePlan (be_decay B) R (br_servers b) t b = (op, b1)" by fastforce
  obtain plan where p: "op = Some plan" using pl g(3) by (auto simp: choosePlan_def Let_def split: list.splits prod.splits)
  have m: "mset (bp_primary plan # bp_fallbacks plan) = mset (br_servers b)" using plan_covers_servers [OF assms(1)] pl p by blast
  then have s: "set (bp_primary plan # bp_fallbacks plan) = set (br_servers b)" by (metis set_mset_mset)
  then have "bo_Address (bp_primary plan) \<noteq> []" using assms(5) by auto
  then have "server_loop B c host (normalized_host ?clean) 0 (bp_primary plan # bp_fallbacks plan) None t b1 = (Inl e, t', b')"
    using assms(2,3) g pl p by (simp add: ResolveHost_def Let_def)
  from server_loop_failure [OF this assms(4)] show ?thesis unfolding s .
qed

text \<open>
  A name that was found is answered from memory for a minute, without a query and without a change.
\<close>

theorem bootstrap_remembers:
  assumes "ResolveHost B R c host t b = (Inr ip, t', b')" "ParseIP (trim_with (\<lambda>x. x = CHR ''['' \<or> x = CHR '']'') host) = []"
    and "bootstrap_IsEnabled b" "getCached (normalized_host (trim_with (\<lambda>x. x = CHR ''['' \<or> x = CHR '']'') host)) t b = None" "t2 \<le> t' + bsDefaultCacheTTL"
  shows "ResolveHost B' R' c' host t2 b' = (Inr ip, t2, b')"
proof -
  let ?clean = "trim_with (\<lambda>x. x = CHR ''['' \<or> x = CHR '']'') host"
  have g: "host \<noteq> []" "br_enabled b" "br_servers b \<noteq> []" using assms(1,3) by (auto simp: ResolveHost_def bootstrap_IsEnabled_def)
  obtain op b1 where pl: "choosePlan (be_decay B) R (br_servers b) t b = (op, b1)" by fastforce
  obtain plan where p: "op = Some plan" using pl g(3) by (auto simp: choosePlan_def Let_def split: list.splits prod.splits)
  have "server_loop B c host (normalized_host ?clean) 0 (bp_primary plan # bp_fallbacks plan) None t b1 = (Inr ip, t', b')"
    using assms(1,2,4) g pl p by (auto simp: ResolveHost_def Let_def split: if_splits)
  note l = server_loop_success [OF this]
  have "getCached (normalized_host ?clean) t2 b' = Some ip" using l assms(5) by (simp add: getCached_def)
  then show ?thesis using l g assms(2) choosePlan_frame [OF pl] by (simp add: ResolveHost_def Let_def)
qed

section \<open>Witnesses\<close>

definition quad9 :: BootstrapServer where
  "quad9 = \<lparr>bo_ID = ''q9'', bo_Name = [], bo_Address = ''9.9.9.9'', bo_Weight = 1\<rparr>"

definition sample_bootstrap :: BootstrapResolver where
  "sample_bootstrap = NewBootstrapResolver \<lparr>bc_Enabled = True, bc_Servers = [quad9]\<rparr>"

definition sample_draws :: draws where
  "sample_draws = \<lparr>rnd_explore = 1 / 2, rnd_weighted = 1 / 2, rnd_Intn = (\<lambda>n. 0)\<rparr>"

definition bs_sample_env :: "(msg option \<times> bool) \<Rightarrow> bs_env" where
  "bs_sample_env reply = \<lparr>be_lib = sample_lib, be_client = (\<lambda>net c m addr t. (reply, 10)), be_Id = (\<lambda>t. 0), be_decay = (\<lambda>d. 1)\<rparr>"

definition no_deadline :: ctx where "no_deadline = \<lparr>cx_deadline = None, cx_cancelAt = None\<rparr>"

lemma sample_draws_ok: "draws_ok sample_draws"
  by (simp add: draws_ok_def sample_draws_def)

theorem bootstrap_tries_all_witness:
  "server_failed (bs_sample_env (None, True)) ''dns.example'' quad9"
proof -
  let ?B = "bs_sample_env (None, True)"
  obtain res t' b' where r: "ResolveHost ?B sample_draws no_deadline ''dns.example'' 0 sample_bootstrap = (res, t', b')" by (metis prod_cases3)
  have e: "fst (ResolveHost ?B sample_draws no_deadline ''dns.example'' 0 sample_bootstrap) =
      Inl (ResolutionFailed ''dns.example'' (QueryFailed ''9.9.9.9:53'' ''dns.example''))"
    and n: "normalized_host (trim_with (\<lambda>x. x = CHR ''['' \<or> x = CHR '']'') ''dns.example'') = ''dns.example''" by code_simp+
  have s: "br_servers sample_bootstrap = [quad9]" "bo_Address quad9 \<noteq> []"
    by (simp_all add: sample_bootstrap_def NewBootstrapResolver_def quad9_def)
  show ?thesis
    using bootstrap_tries_all [OF sample_draws_ok, of ?B no_deadline "''dns.example''" 0 sample_bootstrap
        "ResolutionFailed ''dns.example'' (QueryFailed ''9.9.9.9:53'' ''dns.example'')" t' b'] e r n s by simp
qed

definition a_reply :: msg where
  "a_reply = empty_msg\<lparr>m_Answer := [mk_rr ''dns.example.'' TypeA 60 (RD_A [1, 1, 1, 1])]\<rparr>"

theorem bootstrap_remembers_witness:
  "\<exists>b'. ResolveHost (bs_sample_env (None, True)) sample_draws no_deadline ''dns.example'' (50 * second) b' = (Inr ''1.1.1.1'', 50 * second, b')"
proof -
  let ?B = "bs_sample_env (Some a_reply, False)"
  obtain res t' b' where r: "ResolveHost ?B sample_draws no_deadline ''dns.example'' 0 sample_bootstrap = (res, t', b')" by (metis prod_cases3)
  have "(\<lambda>(res, t', b'). res = Inr ''1.1.1.1'' \<and> t' = 10) (ResolveHost ?B sample_draws no_deadline ''dns.example'' 0 sample_bootstrap)" by code_simp
  then have e: "res = Inr ''1.1.1.1''" "t' = 10" using r by simp_all
  have s: "ParseIP (trim_with (\<lambda>x. x = CHR ''['' \<or> x = CHR '']'') ''dns.example'') = []" "bootstrap_IsEnabled sample_bootstrap"
    "getCached (normalized_host (trim_with (\<lambda>x. x = CHR ''['' \<or> x = CHR '']'') ''dns.example'')) 0 sample_bootstrap = None" by code_simp+
  from bootstrap_remembers [OF r [unfolded e] s, of "50 * second"] show ?thesis
    by (auto simp: bsDefaultCacheTTL_def second_def)
qed

end
