(* ===== verification/Upstream_Config.thy ===== *)
theory Upstream_Config
  imports Scheduler Go_Addr "HOL-Library.Monad_Syntax"
begin

text \<open>
  From the configuration of the upstreams to the providers the scheduler runs
  (\<open>core/resolver_providers.go\<close>, \<open>core/resolver_stamp.go\<close>, \<open>core/stamp_native.go\<close>,
  \<open>core/native_lib.go\<close>, \<open>core/tls_pin.go\<close> and the protocols of \<open>core/resolver.go\<close>): protocol
  names, certificate pins, DNS stamps, normalized providers and the verification of a TLS handshake.

  The stamp kernel behind the C interface is a parameter: for a text it gives a status and a payload, whose
  decoding is modelled. \<open>url.ParseRequestURI\<close>, SHA-256 and the verification of a certificate chain
  are parameters too. Statistics objects live in a store, where a new provider gets a fresh one.
\<close>

section \<open>Protocols\<close>

type_synonym DNSProtocol = string

definition ProtocolPlain :: DNSProtocol where "ProtocolPlain = ''PLAIN''"
definition ProtocolDoH :: DNSProtocol where "ProtocolDoH = ''DOH''"
definition ProtocolDoT :: DNSProtocol where "ProtocolDoT = ''DOT''"
definition ProtocolDoQ :: DNSProtocol where "ProtocolDoQ = ''DOQ''"
definition ProtocolDoH3 :: DNSProtocol where "ProtocolDoH3 = ''DOH3''"

lemmas protocol_defs = ProtocolPlain_def ProtocolDoH_def ProtocolDoT_def ProtocolDoQ_def ProtocolDoH3_def

definition IsEncrypted :: "DNSProtocol \<Rightarrow> bool" where
  "IsEncrypted p = (p \<in> set [ProtocolDoH, ProtocolDoT, ProtocolDoQ, ProtocolDoH3])"

definition IsValidProtocol :: "string \<Rightarrow> bool" where
  "IsValidProtocol s = (to_upper (trim_space s) \<in> set [''PLAIN'', ''UDP'', ''TCP'', ''DOH'', ''HTTPS'', ''DOT'', ''TLS'',
     ''DOQ'', ''QUIC'', ''DOH3'', ''H3'', []])"

definition ParseProtocol :: "string \<Rightarrow> DNSProtocol" where
  "ParseProtocol s =
     (let u = to_upper (trim_space s) in
      if u \<in> set [''DOH'', ''HTTPS''] then ProtocolDoH
      else if u \<in> set [''DOH3'', ''H3''] then ProtocolDoH3
      else if u \<in> set [''DOT'', ''TLS''] then ProtocolDoT
      else if u \<in> set [''DOQ'', ''QUIC''] then ProtocolDoQ
      else ProtocolPlain)"

definition IsHTTPStyleProtocol :: "DNSProtocol \<Rightarrow> bool" where
  "IsHTTPStyleProtocol p = (p = ProtocolDoH \<or> p = ProtocolDoH3)"

section \<open>Errors\<close>

datatype stamp_error =
    KernelMissing
  | StampRejected "u8 list"
  | KernelStatus nat
  | PayloadTruncated
  | PayloadLayout u8
  | PayloadTrailing nat

datatype upstream_error =
    NoProvider
  | BadBootstrap
  | BadStamp stamp_error
  | StampUnsupported u8
  | PinEmpty
  | PinHex
  | PinLength nat
  | UnsupportedProtocol string string
  | BadURL string string
  | EmptyServer string
  | InProvider string upstream_error
  | InFallback upstream_error

section \<open>Certificate pins\<close>

type_synonym CertPin = "u8 list"

text \<open>\<open>hex.DecodeString\<close>.\<close>

fun hex_decode :: "string \<Rightarrow> u8 list option" where
  "hex_decode [] = Some []"
| "hex_decode [c] = None"
| "hex_decode (a # b # s) =
     (case (hex_value a, hex_value b, hex_decode s) of
        (Some x, Some y, Some r) \<Rightarrow> Some (of_nat (16 * x + y) # r) | _ \<Rightarrow> None)"

definition pin_byte :: "u8 \<Rightarrow> string" where
  "pin_byte b = to_upper [hex_char (unat b div 16), hex_char (unat b)]"

definition pin_Hex :: "CertPin option \<Rightarrow> string" where
  "pin_Hex p = (case p of None \<Rightarrow> [] | Some bs \<Rightarrow> join_colon (map pin_byte bs))"

definition CertPinFromRaw :: "u8 list \<Rightarrow> upstream_error + CertPin" where
  "CertPinFromRaw raw = (if length raw \<noteq> 32 then Inl (PinLength (length raw)) else Inr raw)"

definition ParseCertPin :: "string \<Rightarrow> upstream_error + CertPin" where
  "ParseCertPin s =
     (let cleaned = filter (\<lambda>c. c \<notin> set [CHR '':'', CHR '' '', CHR ''-'', CHR 0x09]) (trim_space s) in
      if cleaned = [] then Inl PinEmpty
      else case hex_decode cleaned of None \<Rightarrow> Inl PinHex | Some raw \<Rightarrow> CertPinFromRaw raw)"

section \<open>Payloads of the native kernels\<close>

text \<open>The reader keeps the bytes that are left.\<close>

type_synonym 'a reader = "u8 list \<Rightarrow> ('a \<times> u8 list) option"

definition rd_u8 :: "u8 reader" where
  "rd_u8 d = (case d of [] \<Rightarrow> None | b # r \<Rightarrow> Some (b, r))"

definition rd_u16 :: "nat reader" where
  "rd_u16 d = (case d of b1 # b2 # r \<Rightarrow> Some (unat b1 + 256 * unat b2, r) | _ \<Rightarrow> None)"

fun little_endian :: "u8 list \<Rightarrow> nat" where
  "little_endian [] = 0"
| "little_endian (b # bs) = unat b + 256 * little_endian bs"

definition rd_u32 :: "nat reader" where
  "rd_u32 d = (if length d < 4 then None else Some (little_endian (take 4 d), drop 4 d))"

definition rd_u64 :: "nat reader" where
  "rd_u64 d = (if length d < 8 then None else Some (little_endian (take 8 d), drop 8 d))"

definition rd_bytes :: "nat \<Rightarrow> u8 list reader" where
  "rd_bytes n d = (if length d < n then None else Some (take n d, drop n d))"

definition go_string :: "u8 list \<Rightarrow> string" where
  "go_string bs = map (\<lambda>b. char_of (unat b)) bs"

definition rd_text :: "string reader" where
  "rd_text d =
     (case rd_u16 d of None \<Rightarrow> None
      | Some (n, r) \<Rightarrow> if length r < n then None else Some (go_string (take n r), drop n r))"

definition rd_text32 :: "string reader" where
  "rd_text32 d =
     (case rd_u32 d of None \<Rightarrow> None
      | Some (n, r) \<Rightarrow> if length r < n then None else Some (go_string (take n r), drop n r))"

fun rd_many :: "nat \<Rightarrow> 'a reader \<Rightarrow> 'a list reader" where
  "rd_many 0 f d = Some ([], d)"
| "rd_many (Suc n) f d =
     (case f d of None \<Rightarrow> None
      | Some (x, r) \<Rightarrow> (case rd_many n f r of None \<Rightarrow> None | Some (xs, r') \<Rightarrow> Some (x # xs, r')))"

definition rd_counted :: "'a reader \<Rightarrow> 'a list reader" where
  "rd_counted f d = (case rd_u16 d of None \<Rightarrow> None | Some (n, r) \<Rightarrow> rd_many n f r)"

definition rd_texts32 :: "string list reader" where
  "rd_texts32 d = rd_counted rd_text32 d"

section \<open>DNS stamps\<close>

record ServerStamp =
  sp_Proto :: u8
  sp_Props :: nat
  sp_ServerAddrStr :: string
  sp_Hashes :: "u8 list list"
  sp_ProviderName :: string
  sp_Path :: string
  sp_BootstrapIPs :: "string list"
  sp_derivedURL :: string
  sp_derivedServer :: string
  sp_protocol :: DNSProtocol

definition stampPayloadLayoutVersion :: u8 where "stampPayloadLayoutVersion = 1"
definition stampPayloadHashLen :: nat where "stampPayloadHashLen = 32"

definition stamp_fields :: "ServerStamp reader" where
  "stamp_fields d0 = do {
     (proto, d1) \<leftarrow> rd_u8 d0;
     (props, d2) \<leftarrow> rd_u64 d1;
     (fields, d3) \<leftarrow> rd_many 6 rd_text d2;
     (hashes, d4) \<leftarrow> rd_counted (rd_bytes stampPayloadHashLen) d3;
     (ips, d5) \<leftarrow> rd_counted rd_text d4;
     Some (\<lparr>sp_Proto = proto, sp_Props = props, sp_ServerAddrStr = fields ! 1, sp_Hashes = hashes, sp_ProviderName = fields ! 2,
        sp_Path = fields ! 3, sp_BootstrapIPs = ips, sp_derivedURL = fields ! 4, sp_derivedServer = fields ! 5, sp_protocol = fields ! 0\<rparr>, d5)
   }"

definition decodeStampPayload :: "u8 list \<Rightarrow> stamp_error + ServerStamp" where
  "decodeStampPayload payload =
     (case rd_u8 payload of None \<Rightarrow> Inl PayloadTruncated
      | Some (layout, r) \<Rightarrow>
         (if layout \<noteq> stampPayloadLayoutVersion then Inl (PayloadLayout layout)
          else case stamp_fields r of None \<Rightarrow> Inl PayloadTruncated
            | Some (stamp, rest) \<Rightarrow> if rest \<noteq> [] then Inl (PayloadTrailing (length rest)) else Inr stamp))"

text \<open>The kernel: absent when it could not be loaded; else status and payload for a text.\<close>

type_synonym stamp_kernel = "(string \<Rightarrow> nat \<times> u8 list) option"

definition parseStampNative :: "stamp_kernel \<Rightarrow> string \<Rightarrow> stamp_error + u8 list" where
  "parseStampNative K s =
     (case K of None \<Rightarrow> Inl KernelMissing
      | Some parse \<Rightarrow>
         (let (status, payload) = parse s in
          if status = 0 then Inr payload else if status = 1 then Inl (StampRejected payload) else Inl (KernelStatus status)))"

definition ParseServerStamp :: "stamp_kernel \<Rightarrow> string \<Rightarrow> stamp_error + ServerStamp" where
  "ParseServerStamp K s = (case parseStampNative K s of Inl e \<Rightarrow> Inl e | Inr payload \<Rightarrow> decodeStampPayload payload)"

definition IsSupported :: "ServerStamp \<Rightarrow> bool" where
  "IsSupported s = (sp_protocol s \<noteq> [])"

fun stamp_Pins :: "u8 list list \<Rightarrow> upstream_error + CertPin list" where
  "stamp_Pins [] = Inr []"
| "stamp_Pins (h # hs) =
     (case CertPinFromRaw h of Inl e \<Rightarrow> Inl e
      | Inr p \<Rightarrow> (case stamp_Pins hs of Inl e \<Rightarrow> Inl e | Inr ps \<Rightarrow> Inr (p # ps)))"

section \<open>Provider configuration\<close>

record ProviderConfig =
  pv_ID :: string
  pv_Protocol :: DNSProtocol
  pv_Server :: string
  pv_URL :: string
  pv_Weight :: int
  pv_Pin :: string

definition ExpandStamp :: "stamp_kernel \<Rightarrow> string \<Rightarrow> upstream_error + (ProviderConfig \<times> CertPin option \<times> string list)" where
  "ExpandStamp K s =
     (case ParseServerStamp K s of Inl e \<Rightarrow> Inl (BadStamp e)
      | Inr stamp \<Rightarrow>
         (if \<not> IsSupported stamp then Inl (StampUnsupported (sp_Proto stamp))
          else (let proto = sp_protocol stamp;
                    prov = \<lparr>pv_ID = [], pv_Protocol = proto, pv_Server = sp_derivedServer stamp,
                      pv_URL = (if IsHTTPStyleProtocol proto then sp_derivedURL stamp else []), pv_Weight = 0, pv_Pin = []\<rparr>
                in case stamp_Pins (sp_Hashes stamp) of Inl e \<Rightarrow> Inl e
                   | Inr pins \<Rightarrow> Inr (prov, (case pins of [] \<Rightarrow> None | p # _ \<Rightarrow> Some p), sp_BootstrapIPs stamp))))"

definition isStampString :: "string \<Rightarrow> bool" where
  "isStampString s = (has_prefix s ''sdns://'' \<or> has_prefix s ''sdns:'')"

datatype stamp_field = StampFieldServer | StampFieldURL

definition stampFromProvider :: "ProviderConfig \<Rightarrow> (string \<times> stamp_field) option" where
  "stampFromProvider p =
     (if isStampString (trim_space (pv_Server p)) then Some (trim_space (pv_Server p), StampFieldServer)
      else if isStampString (trim_space (pv_URL p)) then Some (trim_space (pv_URL p), StampFieldURL)
      else None)"

definition parseExplicitPin :: "ProviderConfig \<Rightarrow> upstream_error + CertPin option" where
  "parseExplicitPin p =
     (let raw = trim_space (pv_Pin p) in
      if raw = [] then Inr None
      else case ParseCertPin raw of Inl e \<Rightarrow> Inl (InProvider (pv_ID p) e) | Inr pin \<Rightarrow> Inr (Some pin))"

text \<open>One provider of the list, with the identifier it already has or gets from its position.\<close>

definition build_input :: "stamp_kernel \<Rightarrow> ProviderConfig \<Rightarrow> upstream_error + (ProviderConfig \<times> CertPin option)" where
  "build_input K p =
     (case stampFromProvider p of
        Some (stampStr, field) \<Rightarrow>
          (case ExpandStamp K stampStr of Inl e \<Rightarrow> Inl (InProvider (pv_ID p) e)
           | Inr (ex, pin, ips) \<Rightarrow>
              (let ex1 = (if trim_space (pv_Server p) \<noteq> [] \<and> field \<noteq> StampFieldServer then ex\<lparr>pv_Server := trim_space (pv_Server p)\<rparr> else ex);
                   ex2 = (if trim_space (pv_URL p) \<noteq> [] \<and> field \<noteq> StampFieldURL then ex1\<lparr>pv_URL := trim_space (pv_URL p)\<rparr> else ex1);
                   ex3 = (if pv_Protocol p \<noteq> [] then ex2\<lparr>pv_Protocol := pv_Protocol p\<rparr> else ex2);
                   ex4 = (if pv_Weight p > 0 then ex3\<lparr>pv_Weight := pv_Weight p\<rparr> else ex3)
               in case parseExplicitPin p of Inl e \<Rightarrow> Inl e
                  | Inr explicitPin \<Rightarrow> Inr (ex4, (case explicitPin of None \<Rightarrow> pin | Some x \<Rightarrow> Some x))))
      | None \<Rightarrow> (case parseExplicitPin p of Inl e \<Rightarrow> Inl e | Inr pin \<Rightarrow> Inr (p, pin)))"

definition with_id :: "nat \<Rightarrow> ProviderConfig \<Rightarrow> ProviderConfig" where
  "with_id i p = (if pv_ID p = [] then p\<lparr>pv_ID := ''provider-'' @ itoa (i + 1)\<rparr> else p)"

fun buildProviderInputs :: "stamp_kernel \<Rightarrow> nat \<Rightarrow> ProviderConfig list \<Rightarrow> upstream_error + (ProviderConfig \<times> CertPin option) list" where
  "buildProviderInputs K i [] = Inr []"
| "buildProviderInputs K i (p # ps) =
     (case build_input K (with_id i p) of Inl e \<Rightarrow> Inl e
      | Inr x \<Rightarrow> (case buildProviderInputs K (i + 1) ps of Inl e \<Rightarrow> Inl e | Inr xs \<Rightarrow> Inr (x # xs)))"

text \<open>\<open>url.ParseRequestURI\<close>: scheme and host.\<close>

type_synonym uri_parser = "string \<Rightarrow> (string \<times> string) option"

definition normalizeProvider :: "uri_parser \<Rightarrow> ProviderConfig \<Rightarrow> CertPin option \<Rightarrow> upstream_error + ConfiguredProvider" where
  "normalizeProvider U p pin =
     (if \<not> IsValidProtocol (pv_Protocol p) then Inl (UnsupportedProtocol (pv_ID p) (pv_Protocol p))
      else
       (let proto = ParseProtocol (pv_Protocol p);
            server = trim_space (pv_Server p); urlStr = trim_space (pv_URL p);
            weight = (if pv_Weight p \<le> 0 then 1 else pv_Weight p);
            mk = (\<lambda>srv. \<lparr>cp_ID = pv_ID p, cp_Protocol = proto, cp_Server = srv, cp_URL = urlStr, cp_Weight = weight, cp_Pin = pin, cp_Stats = None\<rparr>)
        in if IsHTTPStyleProtocol proto
           then (case U urlStr of
                   Some (scheme, host) \<Rightarrow>
                     if scheme \<noteq> ''https'' \<or> host = [] then Inl (BadURL (pv_ID p) urlStr)
                     else Inr (mk (if server = [] then host else server))
                 | None \<Rightarrow> Inl (BadURL (pv_ID p) urlStr))
           else if server = [] then Inl (EmptyServer (pv_ID p))
           else Inr (mk server)))"

type_synonym stats_store = "(nat \<times> ProviderStats) list"

definition fresh_stats :: "stats_store \<Rightarrow> nat" where
  "fresh_stats st = Suc (fold max (map fst st) 0)"

text \<open>The statistics of the provider that had this identifier before, or new ones.\<close>

definition attach_stats :: "(string \<times> nat) list \<Rightarrow> ConfiguredProvider \<Rightarrow> stats_store \<Rightarrow> ConfiguredProvider \<times> stats_store" where
  "attach_stats old p st =
     (case map_of old (cp_ID p) of
        Some a \<Rightarrow> (p\<lparr>cp_Stats := Some a\<rparr>, st)
      | None \<Rightarrow> (let a = fresh_stats st in (p\<lparr>cp_Stats := Some a\<rparr>, (a, NewProviderStats) # st)))"

fun build_providers ::
  "uri_parser \<Rightarrow> (string \<times> nat) list \<Rightarrow> (ProviderConfig \<times> CertPin option) list \<Rightarrow> stats_store \<Rightarrow>
    upstream_error + (ConfiguredProvider list \<times> stats_store)" where
  "build_providers U old [] st = Inr ([], st)"
| "build_providers U old ((cfg, pin) # ins) st =
     (case normalizeProvider U cfg pin of Inl e \<Rightarrow> Inl e
      | Inr p \<Rightarrow>
         (let (p1, st1) = attach_stats old p st in
          case build_providers U old ins st1 of Inl e \<Rightarrow> Inl e | Inr (ps, st2) \<Rightarrow> Inr (p1 # ps, st2)))"

definition buildProviderSet ::
  "stamp_kernel \<Rightarrow> uri_parser \<Rightarrow> ProviderConfig list \<Rightarrow> (string \<times> nat) list \<Rightarrow> stats_store \<Rightarrow>
    upstream_error + (ConfiguredProvider list \<times> stats_store)" where
  "buildProviderSet K U cfgs old st =
     (if cfgs = [] then Inr ([], st)
      else case buildProviderInputs K 0 cfgs of Inl e \<Rightarrow> Inl e | Inr ins \<Rightarrow> build_providers U old ins st)"

section \<open>Pinned hosts\<close>

definition splitStampPort :: "string \<Rightarrow> string \<times> string" where
  "splitStampPort s =
     (case last_index_byte (CHR '':'') s of None \<Rightarrow> (s, [])
      | Some i \<Rightarrow>
         (case last_index_byte (CHR '']'') s of
            Some j \<Rightarrow> if i < j then (s, []) else (take i s, drop (i + 1) s)
          | None \<Rightarrow> (take i s, drop (i + 1) s)))"

definition splitHostPortLoose :: "string \<Rightarrow> string \<times> string" where
  "splitHostPortLoose s = (let (h, p) = splitStampPort s in if p = [] then (s, []) else (h, p))"

definition trim_brackets :: "string \<Rightarrow> string" where
  "trim_brackets s = trim_with (\<lambda>c. c = CHR ''['' \<or> c = CHR '']'') s"

definition pinHost :: "string \<Rightarrow> string" where
  "pinHost host0 =
     (let host = trim_space host0 in
      if host = [] then [] else to_lower (trim_brackets (fst (splitHostPortLoose host))))"

text \<open>The table of pins, or nothing when no provider has one; the first provider of a host decides.\<close>

definition add_pin :: "ConfiguredProvider \<Rightarrow> (string \<times> CertPin) list \<Rightarrow> (string \<times> CertPin) list" where
  "add_pin p table =
     (case cp_Pin p of None \<Rightarrow> table
      | Some pin \<Rightarrow>
         (let host = pinHost (cp_Server p) in
          if pin = [] \<or> host = [] \<or> map_of table host \<noteq> None then table else AList.update host pin table))"

type_synonym PinLookup = "(string \<times> CertPin) list option"

definition buildPinLookup :: "ConfiguredProvider list \<Rightarrow> PinLookup" where
  "buildPinLookup ps = (let table = fold add_pin ps [] in if table = [] then None else Some table)"

definition pin_for :: "(string \<times> CertPin) list \<Rightarrow> string \<Rightarrow> CertPin option" where
  "pin_for table host = map_of table (pinHost host)"

section \<open>Verification of a handshake\<close>

record certificate =
  ct_RawTBSCertificate :: "u8 list"
  ct_Raw :: "u8 list"

record ConnectionState =
  cs_ServerName :: string
  cs_PeerCertificates :: "certificate list"

text \<open>
  Parameters: SHA-256, and whether a certificate with its intermediates verifies for a name, or for no
  name in particular when the name is empty.
\<close>

record crypto =
  Sum256 :: "u8 list \<Rightarrow> u8 list"
  cert_Verify :: "certificate \<Rightarrow> certificate list \<Rightarrow> string \<Rightarrow> bool"

record tls_config =
  tc_InsecureSkipVerify :: bool
  tc_VerifyConnection :: "(ConnectionState \<Rightarrow> bool) option"

definition verifyCertPin :: "crypto \<Rightarrow> certificate list \<Rightarrow> CertPin \<Rightarrow> bool" where
  "verifyCertPin C certs pin = (certs \<noteq> [] \<and> list_ex (\<lambda>c. Sum256 C (ct_RawTBSCertificate c) = pin) certs)"

definition verifyStandardChain :: "crypto \<Rightarrow> certificate list \<Rightarrow> string \<Rightarrow> bool" where
  "verifyStandardChain C certs serverName = (certs \<noteq> [] \<and> cert_Verify C (hd certs) (tl certs) serverName)"

definition PinAwareTLSConfig :: "crypto \<Rightarrow> tls_config option \<Rightarrow> PinLookup \<Rightarrow> tls_config" where
  "PinAwareTLSConfig C base lookup =
     (let cfg = (case base of Some b \<Rightarrow> b | None \<Rightarrow> \<lparr>tc_InsecureSkipVerify = False, tc_VerifyConnection = None\<rparr>) in
      case lookup of None \<Rightarrow> cfg
      | Some table \<Rightarrow>
         (if tc_InsecureSkipVerify cfg \<or> tc_VerifyConnection cfg \<noteq> None then cfg
          else \<lparr>tc_InsecureSkipVerify = True,
                tc_VerifyConnection = Some (\<lambda>cs.
                  case pin_for table (cs_ServerName cs) of
                    Some pin \<Rightarrow> if pin \<noteq> [] then verifyCertPin C (cs_PeerCertificates cs) pin
                                else verifyStandardChain C (cs_PeerCertificates cs) (cs_ServerName cs)
                  | None \<Rightarrow> verifyStandardChain C (cs_PeerCertificates cs) (cs_ServerName cs))\<rparr>))"

text \<open>
  What \<open>crypto/tls\<close> does with it. The name it reports in the connection state is the one it sends in
  the handshake, and a literal address is not sent (\<open>hostnameInSNI\<close>); its own verification uses the
  configured name.
\<close>

definition hostnameInSNI :: "string \<Rightarrow> string" where
  "hostnameInSNI name =
     (let h0 = (if name \<noteq> [] \<and> hd name = CHR ''['' \<and> last name = CHR '']'' then butlast (drop 1 name) else name);
          h1 = (case last_index_byte (CHR ''%'') h0 of Some i \<Rightarrow> if i > 0 then take i h0 else h0 | None \<Rightarrow> h0)
      in if ParseIP h1 \<noteq> [] then [] else rev (dropWhile (\<lambda>c. c = CHR ''.'') (rev name)))"

definition handshake_accepts :: "crypto \<Rightarrow> tls_config \<Rightarrow> string \<Rightarrow> certificate list \<Rightarrow> bool" where
  "handshake_accepts C cfg serverName certs \<longleftrightarrow>
     (tc_InsecureSkipVerify cfg \<or> verifyStandardChain C certs serverName) \<and>
     (case tc_VerifyConnection cfg of None \<Rightarrow> True
      | Some f \<Rightarrow> f \<lparr>cs_ServerName = hostnameInSNI serverName, cs_PeerCertificates = certs\<rparr>)"

end
