(* ===== verification/Core_Resolver.thy ===== *)
theory Core_Resolver
  imports Upstream_Config Bootstrap Router
begin

text \<open>
  The upstream resolver (\<open>core/resolver.go\<close>, \<open>core/resolver_groups.go\<close>): configuration of
  the provider chains, conditional routes, group upstreams, dispatch to the transports, and statistics.

  What a transport does with bytes for a server is a parameter. A map of the configuration is a list in the order in
  which the runtime walks it. The lock of the resolver covers one definition each; a resolution reads its
  plan once and then runs without it.
\<close>

section \<open>Configuration\<close>

record ResolverConfig =
  rv_Mode :: string
  rv_Providers :: "ProviderConfig list"
  rv_Bootstrap :: BootstrapConfig
  rv_ConditionalRoutes :: "(string \<times> string) list"
  rv_EDNSPadding :: int
  rv_FallbackProviders :: "ProviderConfig list"
  rv_FallbackTimeoutMs :: int
  rv_FallbackOnRcode :: "nat list option"
  rv_FallbackOnError :: "bool option"

record CoreResolver =
  kr_mode :: string
  kr_providers :: "ConfiguredProvider list"
  kr_bootstrap :: BootstrapResolver
  kr_router :: "ConfiguredProvider ConditionalRouter"
  kr_ednsPadding :: int
  kr_pinLookup :: PinLookup
  kr_fallbackProviders :: "ConfiguredProvider list"
  kr_fallbackTimeout :: duration
  kr_fallbackOnRcode :: "nat list"
  kr_fallbackOnError :: bool
  kr_groupUpstreams :: "(string \<times> ConfiguredProvider list) list"
  kr_groupUpstreamIDs :: "(string \<times> string list) list"

fun mode_name :: "sched_mode \<Rightarrow> string" where
  "mode_name ModeSingle = ''single''"
| "mode_name ModePrimaryBackup = ''primary_backup''"
| "mode_name ModeParallelRace = ''parallel_race''"
| "mode_name ModeSmartPrediction = ''smart_prediction''"

definition DefaultFallbackTimeout :: duration where "DefaultFallbackTimeout = 2000 * millisecond"

definition fallbackTimeoutOf :: "int \<Rightarrow> duration" where
  "fallbackTimeoutOf ms = (if ms > 0 then wrap64 (ms * millisecond) else DefaultFallbackTimeout)"

section \<open>Group upstreams\<close>

datatype group_problem = ReservedGroup string | UnknownUpstream string string

definition providers_by_id :: "ConfiguredProvider list \<Rightarrow> (string \<times> ConfiguredProvider) list" where
  "providers_by_id ps = fold (\<lambda>p m. if cp_ID p \<noteq> [] then AList.update (cp_ID p) p m else m) ps []"

fun pick_providers ::
  "(string \<times> ConfiguredProvider) list \<Rightarrow> string \<Rightarrow> string list \<Rightarrow> string list \<Rightarrow>
    ConfiguredProvider list \<times> string list \<times> group_problem list" where
  "pick_providers byID g seen [] = ([], [], [])"
| "pick_providers byID g seen (raw # rest) =
     (let i = trim_space raw in
      if i = [] \<or> i \<in> set seen then pick_providers byID g seen rest
      else (let (ps, ids, probs) = pick_providers byID g (i # seen) rest in
        case map_of byID i of
          None \<Rightarrow> (ps, ids, UnknownUpstream g i # probs)
        | Some p \<Rightarrow> (p # ps, i # ids, probs)))"

fun group_loop ::
  "(string \<times> ConfiguredProvider) list \<Rightarrow> (string \<times> string list) list \<Rightarrow>
    (string \<times> ConfiguredProvider list) list \<Rightarrow> (string \<times> string list) list \<Rightarrow> group_problem list \<Rightarrow>
    (string \<times> ConfiguredProvider list) list \<times> (string \<times> string list) list \<times> group_problem list" where
  "group_loop byID [] resolved stored probs = (resolved, stored, probs)"
| "group_loop byID ((g0, ids) # rest) resolved stored probs =
     (let g = trim_space g0 in
      if g = [] \<or> g = DefaultClientGroupID
      then group_loop byID rest resolved stored (if ids \<noteq> [] then probs @ [ReservedGroup g] else probs)
      else (let (ps, clean, pr) = pick_providers byID g [] ids in
        if ps = [] then group_loop byID rest resolved stored (probs @ pr)
        else group_loop byID rest (AList.update g ps resolved) (AList.update g clean stored) (probs @ pr)))"

definition applyGroupUpstreamsLocked :: "(string \<times> string list) list \<Rightarrow> CoreResolver \<Rightarrow> group_problem list \<times> CoreResolver" where
  "applyGroupUpstreamsLocked ids r =
     (if ids = [] then ([], r\<lparr>kr_groupUpstreamIDs := [], kr_groupUpstreams := []\<rparr>)
      else (let (resolved, stored, probs) = group_loop (providers_by_id (kr_providers r)) ids [] [] []
            in (probs, r\<lparr>kr_groupUpstreamIDs := stored, kr_groupUpstreams := resolved\<rparr>)))"

definition SetGroupUpstreams :: "(string \<times> string list) list \<Rightarrow> CoreResolver \<Rightarrow> group_problem list \<times> CoreResolver" where
  "SetGroupUpstreams ids r = applyGroupUpstreamsLocked ids r"

definition group_chain :: "CoreResolver \<Rightarrow> string \<Rightarrow> ConfiguredProvider list" where
  "group_chain r g = (case map_of (kr_groupUpstreams r) (trim_space g) of None \<Rightarrow> [] | Some ps \<Rightarrow> ps)"

definition HasGroupUpstreams :: "CoreResolver \<Rightarrow> string \<Rightarrow> bool" where
  "HasGroupUpstreams r g = (kr_groupUpstreams r \<noteq> [] \<and> group_chain r g \<noteq> [])"

section \<open>Configure\<close>

definition old_stats :: "CoreResolver \<Rightarrow> (string \<times> nat) list" where
  "old_stats r =
     fold (\<lambda>p m. case cp_Stats p of Some a \<Rightarrow> if cp_ID p \<noteq> [] \<and> map_of m (cp_ID p) = None then AList.update (cp_ID p) a m else m | None \<Rightarrow> m)
       (kr_fallbackProviders r)
       (fold (\<lambda>p m. case cp_Stats p of Some a \<Rightarrow> if cp_ID p \<noteq> [] then AList.update (cp_ID p) a m else m | None \<Rightarrow> m) (kr_providers r) [])"

text \<open>The provider of a conditional route, from the text of its upstream.\<close>

definition route_provider :: "string \<Rightarrow> string \<Rightarrow> nat \<Rightarrow> ConfiguredProvider" where
  "route_provider pattern upstream a =
     (let mk = (\<lambda>proto server u. \<lparr>cp_ID = ''conditional-'' @ pattern, cp_Protocol = proto, cp_Server = server, cp_URL = u, cp_Weight = 0,
                  cp_Pin = None, cp_Stats = Some a\<rparr>)
      in if has_prefix upstream ''h3://'' then mk ProtocolDoH3 upstream (''https://'' @ trim_prefix upstream ''h3://'')
         else if has_prefix upstream ''https://'' \<or> has_prefix upstream ''http://'' then mk ProtocolDoH upstream upstream
         else if has_prefix upstream ''tls://'' \<or> has_prefix upstream ''dot://''
              then mk ProtocolDoT (trim_prefix (trim_prefix upstream ''tls://'') ''dot://'') []
         else if has_prefix upstream ''quic://'' \<or> has_prefix upstream ''doq://''
              then mk ProtocolDoQ (trim_prefix (trim_prefix upstream ''quic://'') ''doq://'') []
         else mk ProtocolPlain upstream [])"

fun route_loop ::
  "(string \<times> string) list \<Rightarrow> ConfiguredProvider ConditionalRouter \<Rightarrow> stats_store \<Rightarrow> ConfiguredProvider ConditionalRouter \<times> stats_store" where
  "route_loop [] cr st = (cr, st)"
| "route_loop ((pattern, upstream0) # rest) cr st =
     (let upstream = trim_space upstream0 in
      if upstream = [] then route_loop rest cr st
      else (let a = fresh_stats st
            in route_loop rest (SetRoute pattern (Some (route_provider pattern upstream a)) cr) ((a, NewProviderStats) # st)))"

record upstream_lib =
  ul_stamp :: stamp_kernel
  ul_uri :: uri_parser

definition Configure :: "upstream_lib \<Rightarrow> ResolverConfig \<Rightarrow> CoreResolver \<Rightarrow> stats_store \<Rightarrow> upstream_error option \<times> CoreResolver \<times> stats_store" where
  "Configure U cfg r st =
     (if rv_Providers cfg = [] then (Some NoProvider, r, st)
      else if \<not> ValidateBootstrapConfig (rv_Bootstrap cfg) then (Some BadBootstrap, r, st)
      else
       (let old = old_stats r in
        case buildProviderSet (ul_stamp U) (ul_uri U) (rv_Providers cfg) old st of
          Inl e \<Rightarrow> (Some e, r, st)
        | Inr (providers, st1) \<Rightarrow>
           (case buildProviderSet (ul_stamp U) (ul_uri U) (rv_FallbackProviders cfg) old st1 of
              Inl e \<Rightarrow> (Some (InFallback e), r, st)
            | Inr (fallbacks, st2) \<Rightarrow>
               (let r1 = r\<lparr>kr_mode := mode_name (CanonicalMode (rv_Mode cfg)), kr_providers := providers\<rparr>;
                    r2 = snd (applyGroupUpstreamsLocked (kr_groupUpstreamIDs r) r1);
                    (router, st3) = route_loop (rv_ConditionalRoutes cfg) (ClearRoutes (kr_router r)) st2
                in (None,
                    r2\<lparr>kr_fallbackProviders := fallbacks,
                       kr_fallbackTimeout := fallbackTimeoutOf (rv_FallbackTimeoutMs cfg),
                       kr_fallbackOnRcode := fallbackRcodes (rv_FallbackOnRcode cfg),
                       kr_fallbackOnError := (case rv_FallbackOnError cfg of None \<Rightarrow> True | Some b \<Rightarrow> b),
                       kr_ednsPadding := (if rv_EDNSPadding cfg < 0 then 0 else rv_EDNSPadding cfg),
                       kr_bootstrap := bootstrap_UpdateConfig (rv_Bootstrap cfg) (kr_bootstrap r),
                       kr_pinLookup := buildPinLookup (providers @ fallbacks),
                       kr_router := router\<rparr>,
                    st3)))))"

definition empty_resolver :: "BootstrapConfig \<Rightarrow> CoreResolver" where
  "empty_resolver bc = \<lparr>kr_mode = [], kr_providers = [], kr_bootstrap = NewBootstrapResolver bc, kr_router = NewConditionalRouter None,
     kr_ednsPadding = 0, kr_pinLookup = None, kr_fallbackProviders = [], kr_fallbackTimeout = 0, kr_fallbackOnRcode = [],
     kr_fallbackOnError = False, kr_groupUpstreams = [], kr_groupUpstreamIDs = []\<rparr>"

definition NewResolver :: "upstream_lib \<Rightarrow> ResolverConfig \<Rightarrow> stats_store \<Rightarrow> upstream_error + CoreResolver \<times> stats_store" where
  "NewResolver U cfg st =
     (case Configure U cfg (empty_resolver (rv_Bootstrap cfg)) st of
        (Some e, _) \<Rightarrow> Inl e | (None, r, st') \<Rightarrow> Inr (r, st'))"

section \<open>Queries\<close>

text \<open>
  The world around the resolver: the DNS package, wire lengths, the transports by protocol, and the
  average of two round-trip times.
\<close>

record upstream_world =
  uw_lib :: dns_lib
  uw_Len :: "msg \<Rightarrow> nat"
  uw_send :: "DNSProtocol \<Rightarrow> ctx \<Rightarrow> u8 list \<Rightarrow> string \<Rightarrow> time \<Rightarrow> (sched_error + u8 list) \<times> duration"
  uw_ewma :: "duration \<Rightarrow> duration \<Rightarrow> duration"

definition padded_query :: "upstream_world \<Rightarrow> int \<Rightarrow> DNSProtocol \<Rightarrow> u8 list \<Rightarrow> u8 list" where
  "padded_query W block proto raw =
     (if block > 0 \<and> IsEncrypted proto
      then (case Unpack (uw_lib W) raw of None \<Rightarrow> raw
            | Some m \<Rightarrow>
               (let (ok, m') = PadMessage (uw_Len W) block m in
                if ok then (case Pack (uw_lib W) m' of None \<Rightarrow> raw | Some packed \<Rightarrow> packed) else raw))
      else raw)"

definition executeProvider :: "upstream_world \<Rightarrow> CoreResolver \<Rightarrow> executor" where
  "executeProvider W r c p raw t =
     (let q = padded_query W (kr_ednsPadding r) (cp_Protocol p) raw in
      if IsHTTPStyleProtocol (cp_Protocol p) then uw_send W (cp_Protocol p) c q (cp_URL p) t
      else if cp_Protocol p = ProtocolDoT \<or> cp_Protocol p = ProtocolDoQ then uw_send W (cp_Protocol p) c q (cp_Server p) t
      else uw_send W ProtocolPlain c q (cp_Server p) t)"

definition resolver_sched :: "upstream_world \<Rightarrow> CoreResolver \<Rightarrow> sched_env" where
  "resolver_sched W r = \<lparr>env_execute = executeProvider W r, env_lib = uw_lib W, env_ewma = uw_ewma W\<rparr>"

definition fallbackPlan :: "CoreResolver \<Rightarrow> FallbackPlan" where
  "fallbackPlan r = \<lparr>fp_Mode = kr_mode r, fp_Providers = kr_providers r, fp_FallbackProviders = kr_fallbackProviders r,
     fp_Timeout = kr_fallbackTimeout r, fp_OnRcode = Some (kr_fallbackOnRcode r), fp_OnError = Some (kr_fallbackOnError r)\<rparr>"

definition route_of :: "CoreResolver \<Rightarrow> msg \<Rightarrow> ConfiguredProvider option" where
  "route_of r m = (case m_Question m of [] \<Rightarrow> None | q # _ \<Rightarrow> MatchRoute (kr_router r) (q_Name q))"

definition resolver_Resolve :: "upstream_world \<Rightarrow> CoreResolver \<Rightarrow> ctx \<Rightarrow> u8 list \<Rightarrow> sched_state \<Rightarrow> (sched_error + u8 list) \<times> sched_state" where
  "resolver_Resolve W r c raw s =
     (case (case Unpack (uw_lib W) raw of None \<Rightarrow> None | Some m \<Rightarrow> route_of r m) of
        Some p \<Rightarrow> queryWithValidation (resolver_sched W r) c p raw s
      | None \<Rightarrow> resolveWithFallback (resolver_sched W r) c (fallbackPlan r) raw s)"

datatype exchange_error = NilDNSRequest | NoGroupUpstream string | PackError | SchedError sched_error | UnpackError

text \<open>Pack, resolve, unpack, and the identifier of the request.\<close>

definition exchange_with ::
  "upstream_world \<Rightarrow> (u8 list \<Rightarrow> sched_state \<Rightarrow> (sched_error + u8 list) \<times> sched_state) \<Rightarrow> msg \<Rightarrow> sched_state \<Rightarrow> (exchange_error + msg) \<times> sched_state" where
  "exchange_with W resolve req s =
     (case Pack (uw_lib W) req of None \<Rightarrow> (Inl PackError, s)
      | Some raw \<Rightarrow>
         (case resolve raw s of
            (Inl e, s') \<Rightarrow> (Inl (SchedError e), s')
          | (Inr rawResp, s') \<Rightarrow>
              (case Unpack (uw_lib W) rawResp of None \<Rightarrow> (Inl UnpackError, s')
               | Some resp \<Rightarrow> (Inr (resp\<lparr>m_Id := m_Id req\<rparr>), s'))))"

definition resolver_Exchange :: "upstream_world \<Rightarrow> CoreResolver \<Rightarrow> ctx \<Rightarrow> msg option \<Rightarrow> sched_state \<Rightarrow> (exchange_error + msg) \<times> sched_state" where
  "resolver_Exchange W r c oreq s =
     (case oreq of None \<Rightarrow> (Inl NilDNSRequest, s)
      | Some req \<Rightarrow>
         (case route_of r req of
            Some p \<Rightarrow> exchange_with W (queryWithValidation (resolver_sched W r) c p) req s
          | None \<Rightarrow> exchange_with W (resolveWithFallback (resolver_sched W r) c (fallbackPlan r)) req s))"

definition ExchangeForGroup :: "upstream_world \<Rightarrow> CoreResolver \<Rightarrow> ctx \<Rightarrow> string \<Rightarrow> msg option \<Rightarrow> sched_state \<Rightarrow> (exchange_error + msg) \<times> sched_state" where
  "ExchangeForGroup W r c g oreq s =
     (case oreq of None \<Rightarrow> (Inl NilDNSRequest, s)
      | Some req \<Rightarrow>
         (let ps = group_chain r g in
          if ps = [] then (Inl (NoGroupUpstream g), s)
          else exchange_with W (sched_Resolve (resolver_sched W r) c (kr_mode r) ps) req s))"

section \<open>Statistics\<close>

record UpstreamStatSnapshot =
  us_ID :: string
  us_Protocol :: DNSProtocol
  us_Server :: string
  us_URL :: string
  us_Weight :: int
  us_SuccessCount :: nat
  us_FailureCount :: nat
  us_AvgLatencyMs :: rat
  us_ScoreMs :: rat
  us_IsHealthy :: bool
  us_PinSet :: bool

definition provider_snapshot :: "time \<Rightarrow> sched_state \<Rightarrow> ConfiguredProvider \<Rightarrow> UpstreamStatSnapshot" where
  "provider_snapshot now s p =
     (let (samples, failures, rtt, score) = Snapshot now (stats_of s p)
      in \<lparr>us_ID = cp_ID p, us_Protocol = cp_Protocol p, us_Server = cp_Server p, us_URL = cp_URL p, us_Weight = cp_Weight p,
          us_SuccessCount = (if samples > 0 then nat samples else 0), us_FailureCount = nat (failures mod 2 ^ 64),
          us_AvgLatencyMs = of_int rtt / 1000000, us_ScoreMs = of_int score / 1000000, us_IsHealthy = (failures < 3),
          us_PinSet = (case cp_Pin p of None \<Rightarrow> False | Some pin \<Rightarrow> pin \<noteq> [])\<rparr>)"

definition GetProviderStats :: "time \<Rightarrow> sched_state \<Rightarrow> CoreResolver \<Rightarrow> UpstreamStatSnapshot list" where
  "GetProviderStats now s r = map (provider_snapshot now s) (kr_providers r)"

end
