(* ===== verification/Core_Facts.thy ===== *)
theory Core_Facts
  imports Core_Resolver Scheduler_Facts
begin

text \<open>
  Properties of the upstream resolver: what its configuration guarantees, who is asked, which statistics
  survive a reload, and what pinning a certificate does and does not protect.
\<close>

section \<open>Who is asked\<close>

text \<open>A run of the scheduler asks some of the given providers and keeps the set of statistics objects.\<close>

definition sched_frame :: "ConfiguredProvider set \<Rightarrow> sched_state \<Rightarrow> sched_state \<Rightarrow> bool" where
  "sched_frame P s s' \<longleftrightarrow> fst ` set (ss_stats s') = fst ` set (ss_stats s) \<and> (\<exists>xs. ss_sent s' = ss_sent s @ xs \<and> set xs \<subseteq> P)"

lemma frame_refl [simp]: "sched_frame P s s"
  by (simp add: sched_frame_def)

lemma frame_trans: "sched_frame P s s1 \<Longrightarrow> sched_frame P s1 s2 \<Longrightarrow> sched_frame P s s2"
  unfolding sched_frame_def
proof (elim conjE exE)
  fix xs ys assume "ss_sent s1 = ss_sent s @ xs" "ss_sent s2 = ss_sent s1 @ ys" "set xs \<subseteq> P" "set ys \<subseteq> P"
    and "fst ` set (ss_stats s1) = fst ` set (ss_stats s)" "fst ` set (ss_stats s2) = fst ` set (ss_stats s1)"
  then show "fst ` set (ss_stats s2) = fst ` set (ss_stats s) \<and> (\<exists>xs. ss_sent s2 = ss_sent s @ xs \<and> set xs \<subseteq> P)"
    by (intro conjI exI [of _ "xs @ ys"]) auto
qed

lemma frame_mono: "sched_frame P s s' \<Longrightarrow> P \<subseteq> Q \<Longrightarrow> sched_frame Q s s'"
  unfolding sched_frame_def by (meson order_trans)

lemma update_key_set: "map_of m k \<noteq> None \<Longrightarrow> fst ` set (AList.update k v m) = fst ` set m"
  by (induction m) (auto split: if_splits)

lemma update_stats_keys: "fst ` set (ss_stats (update_stats p f s)) = fst ` set (ss_stats s)"
  by (auto simp: update_stats_def update_key_set split: option.splits)

lemma query_frame: "sched_frame {p} s (snd (queryWithValidation E c p raw s))"
proof -
  have "fst ` set (ss_stats (snd (queryWithValidation E c p raw s))) = fst ` set (ss_stats s)"
    by (simp add: queryWithValidation_def Let_def update_stats_keys split: prod.splits sum.splits option.splits)
  then show ?thesis by (simp add: sched_frame_def query_sent)
qed

lemma query_frame_in: "queryWithValidation E c p raw s = (out, s') \<Longrightarrow> p \<in> P \<Longrightarrow> sched_frame P s s'"
  using frame_mono [OF query_frame, of p P s E c raw] by simp

lemma backup_loop_frame: "backup_loop E c raw n ps le s = (out, s') \<Longrightarrow> set ps \<subseteq> P \<Longrightarrow> sched_frame P s s'"
proof (induction ps arbitrary: le s)
  case (Cons p ps)
  obtain o1 s1 where q: "queryWithValidation E c p raw s = (o1, s1)" by fastforce
  have f: "sched_frame P s s1" using query_frame_in [OF q] Cons.prems(2) by simp
  show ?case using Cons q f by (auto split: option.splits sum.splits intro: frame_trans)
qed simp

lemma race_loop_frame:
  "race_loop E c raw n t0 ps le s = (out, s') \<Longrightarrow> fst ` set (ss_stats s') = fst ` set (ss_stats s)"
proof (induction ps arbitrary: le s)
  case (Cons p ps)
  obtain o1 s1 where q: "queryWithValidation E c p raw (s\<lparr>ss_now := t0\<rparr>) = (o1, s1)" by fastforce
  have "fst ` set (ss_stats s1) = fst ` set (ss_stats s)" using query_frame [of p "s\<lparr>ss_now := t0\<rparr>" E c raw] q by (simp add: sched_frame_def)
  then show ?case using Cons q by (auto split: option.splits sum.splits)
qed simp

lemma single_frame: "resolveSingle E c ps raw s = (out, s') \<Longrightarrow> ps \<noteq> [] \<Longrightarrow> sched_frame (set ps) s s'"
  by (auto simp: resolveSingle_def Let_def dest!: query_frame_in [where P = "set ps"] split: prod.splits sum.splits)

lemma sched_Resolve_frame:
  assumes "sched_Resolve E c mode ps raw s = (out, s')"
  shows "sched_frame (set ps) s s'"
proof (cases "ps = []")
  case False
  have race: "sched_frame (set ps) s s'" if r: "resolveParallelRace E c ps raw s = (out, s')"
  proof (cases "length ps = 1")
    case len: True
    then show ?thesis using that False by (auto simp: resolveParallelRace_def intro: single_frame)
  next
    case len: False
    then obtain s1 where "race_loop E c raw (length ps) (ss_now s)
        (sort_key (\<lambda>p. snd (env_execute E c p raw (ss_now s))) ps) None s = (out, s1)" "s' = s1\<lparr>ss_sent := ss_sent s @ ps\<rparr>"
      using r by (auto simp: resolveParallelRace_def Let_def split: prod.splits)
    then show ?thesis by (simp add: sched_frame_def race_loop_frame)
  qed
  have smart: "sched_frame (set ps) s s'" if r: "resolveSmartPrediction E c ps raw s = (out, s')"
    using r False by (auto simp: resolveSmartPrediction_def resolvePrimaryBackup_def split: if_splits intro: single_frame backup_loop_frame)
  show ?thesis using assms False race smart
    by (cases "CanonicalMode mode") (auto simp: sched_Resolve_def resolvePrimaryBackup_def intro: single_frame backup_loop_frame)
qed (use assms in \<open>simp add: sched_Resolve_def\<close>)

lemma fallback_frame:
  assumes "resolveWithFallback E c plan raw s = (out, s')"
  shows "sched_frame (set (fp_Providers plan @ fp_FallbackProviders plan)) s s'"
proof (cases "fp_FallbackProviders plan = []")
  case True
  then show ?thesis using assms sched_Resolve_frame by (simp add: resolveWithFallback_def)
next
  case False
  define c' where "c' = (if fp_Timeout plan > 0 then WithTimeout c (fp_Timeout plan) (ss_now s) else c)"
  obtain res s1 where m: "sched_Resolve E c' (fp_Mode plan) (fp_Providers plan) raw s = (res, s1)" by fastforce
  obtain fb s2 where f: "sched_Resolve E c (fp_Mode plan) (fp_FallbackProviders plan) raw s1 = (fb, s2)" by fastforce
  let ?P = "set (fp_Providers plan @ fp_FallbackProviders plan)"
  have "sched_frame ?P s s1" "sched_frame ?P s1 s2"
    using frame_mono [OF sched_Resolve_frame [OF m], of ?P] frame_mono [OF sched_Resolve_frame [OF f], of ?P] by simp_all
  moreover have "s' = s1 \<or> s' = s2"
    using assms False m f by (auto simp: resolveWithFallback_def Let_def c'_def split: if_splits sum.splits prod.splits)
  ultimately show ?thesis using frame_trans by blast
qed

text \<open>An exchange hands on what its resolve step gives, under the identifier of the request.\<close>

lemma exchange_with_run:
  assumes "exchange_with W resolve req s = (out, s')"
  shows "s' = s \<or> (\<exists>raw res. resolve raw s = (res, s'))"
    and "out = Inr m \<Longrightarrow> m_Id m = m_Id req \<and>
      (\<exists>raw rawResp resp. Pack (uw_lib W) req = Some raw \<and> resolve raw s = (Inr rawResp, s') \<and> Unpack (uw_lib W) rawResp = Some resp \<and>
        m = resp\<lparr>m_Id := m_Id req\<rparr>)"
  using assms by (auto simp: exchange_with_def split: option.splits prod.splits sum.splits)

lemma exchange_with_frame:
  assumes "exchange_with W resolve req s = (out, s')" "\<And>raw res t. resolve raw s = (res, t) \<Longrightarrow> sched_frame P s t"
  shows "sched_frame P s s'"
  using exchange_with_run(1) [OF assms(1)] assms(2) by auto

text \<open>
  A provider that a message may be sent to: the one of its route, or else a configured one.
\<close>

definition upstreams_for :: "CoreResolver \<Rightarrow> msg \<Rightarrow> ConfiguredProvider set" where
  "upstreams_for r req = (case route_of r req of Some p \<Rightarrow> {p} | None \<Rightarrow> set (kr_providers r @ kr_fallbackProviders r))"

text \<open>
  C10. An answer of the resolver carries the identifier of the request and is what one of the providers meant
  for this name gave, checked against the query; nobody else is asked.
\<close>

theorem exchange_asks_configured:
  assumes "resolver_Exchange W r c (Some req) s = (out, s')"
  shows "(\<exists>xs. ss_sent s' = ss_sent s @ xs \<and> set xs \<subseteq> upstreams_for r req) \<and>
    (case out of Inl e \<Rightarrow> True
     | Inr m \<Rightarrow> m_Id m = m_Id req \<and> (\<exists>raw p rawResp resp. Pack (uw_lib W) req = Some raw \<and> p \<in> upstreams_for r req \<and>
         answered_by (resolver_sched W r) raw p rawResp \<and> Unpack (uw_lib W) rawResp = Some resp \<and> m = resp\<lparr>m_Id := m_Id req\<rparr>))"
proof -
  define resolve where "resolve = (case route_of r req of
      Some p \<Rightarrow> queryWithValidation (resolver_sched W r) c p
    | None \<Rightarrow> resolveWithFallback (resolver_sched W r) c (fallbackPlan r))"
  have x: "exchange_with W resolve req s = (out, s')"
    using assms by (auto simp: resolver_Exchange_def resolve_def split: option.splits)
  have fr: "sched_frame (upstreams_for r req) s t" if "resolve raw s = (res, t)" for raw res t
    using that fallback_frame [of "resolver_sched W r" c "fallbackPlan r" raw s res t]
    by (auto simp: resolve_def upstreams_for_def fallbackPlan_def dest!: query_frame_in split: option.splits)
  have an: "\<exists>p \<in> upstreams_for r req. answered_by (resolver_sched W r) raw p resp" if "resolve raw s = (Inr resp, t)" for raw resp t
    using that resolveWithFallback_Inr [of "resolver_sched W r" c "fallbackPlan r" raw s resp t]
    by (auto simp: resolve_def upstreams_for_def fallbackPlan_def dest: query_Inr split: option.splits)
  have "sched_frame (upstreams_for r req) s s'" by (rule exchange_with_frame [OF x fr])
  moreover have "case out of Inl e \<Rightarrow> True | Inr m \<Rightarrow> m_Id m = m_Id req \<and> (\<exists>raw p rawResp resp. Pack (uw_lib W) req = Some raw \<and> p \<in> upstreams_for r req \<and>
         answered_by (resolver_sched W r) raw p rawResp \<and> Unpack (uw_lib W) rawResp = Some resp \<and> m = resp\<lparr>m_Id := m_Id req\<rparr>)"
    using exchange_with_run(2) [OF x] an by (cases out) (simp, fastforce)
  ultimately show ?thesis by (simp add: sched_frame_def)
qed


section \<open>Providers\<close>

definition pin_ok :: "CertPin option \<Rightarrow> bool" where
  "pin_ok pin \<longleftrightarrow> (\<forall>x. pin = Some x \<longrightarrow> length x = 32)"

definition provider_ok :: "uri_parser \<Rightarrow> ConfiguredProvider \<Rightarrow> bool" where
  "provider_ok U p \<longleftrightarrow>
     cp_Protocol p \<in> {ProtocolPlain, ProtocolDoH, ProtocolDoT, ProtocolDoQ, ProtocolDoH3} \<and> cp_Server p \<noteq> [] \<and> 1 \<le> cp_Weight p \<and>
     (IsHTTPStyleProtocol (cp_Protocol p) \<longrightarrow> (\<exists>h. U (cp_URL p) = Some (''https'', h) \<and> h \<noteq> [])) \<and> pin_ok (cp_Pin p)"

lemma normalizeProvider_ok:
  assumes "normalizeProvider U p pin = Inr q" "pin_ok pin"
  shows "provider_ok U q" "cp_ID q = pv_ID p"
  using assms by (auto simp: normalizeProvider_def Let_def provider_ok_def ParseProtocol_def split: if_splits option.splits)

lemma CertPinFromRaw_ok: "CertPinFromRaw raw = Inr p \<Longrightarrow> length p = 32"
  by (simp add: CertPinFromRaw_def split: if_splits)

lemma ParseCertPin_ok: "ParseCertPin s = Inr p \<Longrightarrow> length p = 32"
  by (auto simp: ParseCertPin_def Let_def dest: CertPinFromRaw_ok split: if_splits option.splits)

lemma stamp_Pins_ok: "stamp_Pins hs = Inr ps \<Longrightarrow> \<forall>p \<in> set ps. length p = 32"
  by (induction hs arbitrary: ps) (auto dest: CertPinFromRaw_ok split: sum.splits)

lemma explicit_pin_ok: "parseExplicitPin p = Inr pin \<Longrightarrow> pin_ok pin"
  by (auto simp: parseExplicitPin_def Let_def pin_ok_def dest: ParseCertPin_ok split: if_splits sum.splits)

lemma ExpandStamp_ok: "ExpandStamp K s = Inr (prov, pin, ips) \<Longrightarrow> pin_ok pin \<and> pv_ID prov = []"
  by (auto simp: ExpandStamp_def Let_def pin_ok_def dest: stamp_Pins_ok split: if_splits sum.splits list.splits)

lemma build_input_pin: "build_input K p = Inr (cfg, pin) \<Longrightarrow> pin_ok pin"
  by (auto simp: build_input_def Let_def dest!: explicit_pin_ok ExpandStamp_ok split: option.splits prod.splits sum.splits)

lemma build_inputs_pin: "buildProviderInputs K i ps = Inr ins \<Longrightarrow> \<forall>(cfg, pin) \<in> set ins. pin_ok pin"
proof (induction ps arbitrary: i ins)
  case (Cons p ps)
  then obtain x xs where x: "build_input K (with_id i p) = Inr x" "buildProviderInputs K (i + 1) ps = Inr xs" "ins = x # xs"
    by (auto split: sum.splits)
  then show ?case using Cons.IH [OF x(2)] build_input_pin [of K "with_id i p" "fst x" "snd x"] by (simp add: case_prod_beta)
qed simp

section \<open>Statistics\<close>

definition store_ext :: "stats_store \<Rightarrow> stats_store \<Rightarrow> bool" where
  "store_ext st st' \<longleftrightarrow> (\<exists>new. st' = new @ st \<and> fst ` set new \<inter> fst ` set st = {})"

lemma store_ext_refl [simp]: "store_ext st st"
  by (simp add: store_ext_def)

lemma store_ext_trans: "store_ext a b \<Longrightarrow> store_ext b c \<Longrightarrow> store_ext a c"
  unfolding store_ext_def by (elim exE, rule_tac x = "newa @ new" in exI) auto

lemma store_ext_keys: "store_ext st st' \<Longrightarrow> fst ` set st \<subseteq> fst ` set st'"
  by (auto simp: store_ext_def)

lemma store_ext_lookup:
  assumes "store_ext st st'" "a \<in> fst ` set st"
  shows "map_of st' a = map_of st a"
proof -
  obtain new where n: "st' = new @ st" "a \<notin> fst ` set new" using assms by (auto simp: store_ext_def)
  then have "map_of new a = None" by (simp add: map_of_eq_None_iff)
  then show ?thesis using n by (simp add: map_add_def)
qed

lemma fold_max_ge: "(x :: nat) \<in> set xs \<or> x \<le> m \<Longrightarrow> x \<le> fold max xs m"
  by (induction xs arbitrary: m) (auto simp: le_max_iff_disj)

lemma fresh_stats_new: "fresh_stats st \<notin> fst ` set st"
proof
  assume "fresh_stats st \<in> fst ` set st"
  then have "fresh_stats st \<le> fold max (map fst st) 0" using fold_max_ge [of "fresh_stats st" "map fst st" 0] by simp
  then show False by (simp add: fresh_stats_def)
qed

lemma alloc_ext: "store_ext st ((fresh_stats st, x) # st)"
  using fresh_stats_new by (auto simp: store_ext_def intro!: exI [of _ "[(fresh_stats st, x)]"])

definition has_stats :: "stats_store \<Rightarrow> ConfiguredProvider \<Rightarrow> bool" where
  "has_stats st p \<longleftrightarrow> (\<exists>a. cp_Stats p = Some a \<and> a \<in> fst ` set st)"

lemma has_stats_ext: "has_stats st p \<Longrightarrow> store_ext st st' \<Longrightarrow> has_stats st' p"
  unfolding has_stats_def using store_ext_keys [of st st'] by blast

text \<open>A provider keeps the statistics of its identifier, or has its own.\<close>

definition stats_from :: "(string \<times> nat) list \<Rightarrow> ConfiguredProvider \<Rightarrow> bool" where
  "stats_from old p \<longleftrightarrow> (\<forall>a. map_of old (cp_ID p) = Some a \<longrightarrow> cp_Stats p = Some a)"

lemma attach_stats_ok:
  assumes "attach_stats old p st = (q, st')" "snd ` set old \<subseteq> fst ` set st"
  shows "store_ext st st' \<and> has_stats st' q \<and> stats_from old q \<and> (provider_ok U q \<longleftrightarrow> provider_ok U p) \<and> cp_ID q = cp_ID p"
proof (cases "map_of old (cp_ID p)")
  case None
  then show ?thesis using assms alloc_ext by (auto simp: attach_stats_def Let_def has_stats_def stats_from_def provider_ok_def)
next
  case (Some a)
  then have "a \<in> fst ` set st" using map_of_SomeD assms(2) by force
  moreover have "q = p\<lparr>cp_Stats := Some a\<rparr>" "st' = st" using Some assms(1) by (simp_all add: attach_stats_def)
  ultimately show ?thesis using Some by (simp add: has_stats_def stats_from_def provider_ok_def)
qed

lemma build_providers_ok:
  assumes "build_providers U old ins st = Inr (ps, st')" "\<forall>(cfg, pin) \<in> set ins. pin_ok pin" "snd ` set old \<subseteq> fst ` set st"
  shows "store_ext st st' \<and> (\<forall>p \<in> set ps. provider_ok U p \<and> has_stats st' p \<and> stats_from old p) \<and> map cp_ID ps = map (pv_ID \<circ> fst) ins"
  using assms
proof (induction U old ins st arbitrary: ps st' rule: build_providers.induct)
  case (2 U old cfg pin ins st)
  from "2.prems"(1) obtain p where p: "normalizeProvider U cfg pin = Inr p" by (auto split: sum.splits)
  obtain q st1 where q: "attach_stats old p st = (q, st1)" by fastforce
  from "2.prems"(1) p q obtain qs where qs: "build_providers U old ins st1 = Inr (qs, st')" "ps = q # qs" by (auto split: sum.splits)
  have a: "store_ext st st1" "has_stats st1 q" "stats_from old q" "provider_ok U q" "cp_ID q = pv_ID cfg"
    using attach_stats_ok [OF q "2.prems"(3), of U] normalizeProvider_ok [OF p] "2.prems"(2) by auto
  have "snd ` set old \<subseteq> fst ` set st1" using "2.prems"(3) store_ext_keys [OF a(1)] by blast
  then have r: "store_ext st1 st'" "\<forall>p \<in> set qs. provider_ok U p \<and> has_stats st' p \<and> stats_from old p" "map cp_ID qs = map (pv_ID \<circ> fst) ins"
    using "2.IH" [OF p q [symmetric] refl qs(1)] "2.prems"(2) by auto
  show ?case using store_ext_trans [OF a(1) r(1)] has_stats_ext [OF a(2) r(1)] a(3-5) r(2,3) qs(2) by simp
qed simp

lemma buildProviderSet_ok:
  assumes "buildProviderSet K U cfgs old st = Inr (ps, st')" "snd ` set old \<subseteq> fst ` set st"
  shows "store_ext st st' \<and> (\<forall>p \<in> set ps. provider_ok U p \<and> has_stats st' p \<and> stats_from old p) \<and> length ps = length cfgs"
proof (cases "cfgs = []")
  case False
  then obtain ins where i: "buildProviderInputs K 0 cfgs = Inr ins" "build_providers U old ins st = Inr (ps, st')"
    using assms(1) by (auto simp: buildProviderSet_def split: sum.splits)
  have len: "buildProviderInputs K k xs = Inr ys \<Longrightarrow> length ys = length xs" for k xs ys
    by (induction xs arbitrary: k ys) (auto split: sum.splits)
  have "length ps = length ins" using build_providers_ok [OF i(2) build_inputs_pin [OF i(1)] assms(2)] by (metis length_map)
  then show ?thesis using build_providers_ok [OF i(2) build_inputs_pin [OF i(1)] assms(2)] len [OF i(1)] by simp
qed (use assms in \<open>simp add: buildProviderSet_def\<close>)

section \<open>The resolver invariant\<close>

lemma by_id_fold:
  assumes "map_of (fold (\<lambda>p m. if cp_ID p \<noteq> [] then AList.update (cp_ID p) p m else m) ps m) i = Some p"
    and "\<And>j q. map_of m j = Some q \<Longrightarrow> q \<in> P \<and> cp_ID q = j" "set ps \<subseteq> P"
  shows "p \<in> P \<and> cp_ID p = i"
  using assms
proof (induction ps arbitrary: m)
  case (Cons a ps)
  show ?case
    by (rule Cons.IH [of "if cp_ID a \<noteq> [] then AList.update (cp_ID a) a m else m"])
      (use Cons.prems in \<open>auto simp: update_conv' split: if_splits\<close>)
qed auto

lemma providers_by_id_ok: "map_of (providers_by_id ps) i = Some p \<Longrightarrow> p \<in> set ps \<and> cp_ID p = i"
  using by_id_fold [of ps "[]" i p "set ps"] by (simp add: providers_by_id_def)

lemma pick_providers_ok:
  assumes "pick_providers byID g seen ids = (ps, clean, pr)" "\<And>i p. map_of byID i = Some p \<Longrightarrow> p \<in> P \<and> cp_ID p = i"
  shows "set ps \<subseteq> P \<and> map cp_ID ps = clean \<and> distinct clean \<and> set clean \<inter> set seen = {} \<and> [] \<notin> set clean"
  using assms(1)
proof (induction ids arbitrary: seen ps clean pr)
  case (Cons raw ids)
  show ?case
  proof (cases "trim_space raw = [] \<or> trim_space raw \<in> set seen")
    case False
    obtain ps' clean' pr' where r: "pick_providers byID g (trim_space raw # seen) ids = (ps', clean', pr')" by (metis prod_cases3)
    show ?thesis using Cons.prems False r Cons.IH [OF r] assms(2)
      by (auto simp: Let_def disjoint_iff split: option.splits)
  qed (use Cons in simp)
qed simp

definition group_ok :: "ConfiguredProvider list \<Rightarrow> string \<times> ConfiguredProvider list \<Rightarrow> bool" where
  "group_ok ps e \<longleftrightarrow> fst e \<noteq> [] \<and> fst e \<noteq> DefaultClientGroupID \<and> snd e \<noteq> [] \<and> set (snd e) \<subseteq> set ps \<and> distinct (map cp_ID (snd e)) \<and>
     (\<forall>p \<in> set (snd e). cp_ID p \<noteq> [])"

lemma group_loop_ok:
  assumes "group_loop byID ids resolved stored probs = (res, st, pr)" "list_all (group_ok ps) resolved"
    and "\<And>i p. map_of byID i = Some p \<Longrightarrow> p \<in> set ps \<and> cp_ID p = i"
  shows "list_all (group_ok ps) res"
  using assms
proof (induction byID ids resolved stored probs rule: group_loop.induct)
  case (2 byID g0 ids rest resolved stored probs)
  let ?g = "trim_space g0"
  obtain qs clean pr' where p: "pick_providers byID ?g [] ids = (qs, clean, pr')" by (metis prod_cases3)
  have q: "set qs \<subseteq> set ps \<and> distinct (map cp_ID qs) \<and> (\<forall>p \<in> set qs. cp_ID p \<noteq> [])"
    using pick_providers_ok [OF p "2.prems"(3)] by force
  consider "?g = [] \<or> ?g = DefaultClientGroupID" | "\<not> (?g = [] \<or> ?g = DefaultClientGroupID)" "qs = []"
    | "\<not> (?g = [] \<or> ?g = DefaultClientGroupID)" "qs \<noteq> []" by blast
  then show ?case
  proof cases
    case 1
    then show ?thesis using "2.IH"(1) [OF refl _ _ "2.prems"(2,3)] "2.prems"(1) by simp
  next
    case 2
    then show ?thesis using "2.IH"(2) [OF refl _ refl p [symmetric] refl _ _ "2.prems"(2,3)] "2.prems"(1) p by simp
  next
    case 3
    then have "group_ok ps (?g, qs)" using q by (simp add: group_ok_def)
    then have "list_all (group_ok ps) (AList.update ?g qs resolved)"
      unfolding list_all_iff using set_update_subset [of ?g qs resolved] "2.prems"(2) [unfolded list_all_iff] by blast
    then show ?thesis using 3 "2.IH"(3) [OF refl _ refl p [symmetric] refl _ _ _ "2.prems"(3)] "2.prems"(1) p by (simp add: Let_def)
  qed
qed auto

definition resolver_inv :: "uri_parser \<Rightarrow> CoreResolver \<Rightarrow> stats_store \<Rightarrow> bool" where
  "resolver_inv U r st \<longleftrightarrow>
     (\<forall>p \<in> set (kr_providers r @ kr_fallbackProviders r). provider_ok U p \<and> has_stats st p) \<and>
     list_all (group_ok (kr_providers r)) (kr_groupUpstreams r) \<and> 0 \<le> kr_ednsPadding r"

lemma apply_groups_ok:
  "list_all (group_ok (kr_providers r)) (kr_groupUpstreams (snd (applyGroupUpstreamsLocked ids r)))"
proof (cases "ids = []")
  case False
  obtain res st pr where g: "group_loop (providers_by_id (kr_providers r)) ids [] [] [] = (res, st, pr)" by (metis prod_cases3)
  have "list_all (group_ok (kr_providers r)) res" by (rule group_loop_ok [OF g]) (simp_all add: providers_by_id_ok)
  then show ?thesis using False g by (simp add: applyGroupUpstreamsLocked_def)
qed (simp add: applyGroupUpstreamsLocked_def)

lemma apply_groups_frame:
  "kr_providers (snd (applyGroupUpstreamsLocked ids r)) = kr_providers r"
  "kr_fallbackProviders (snd (applyGroupUpstreamsLocked ids r)) = kr_fallbackProviders r"
  "kr_ednsPadding (snd (applyGroupUpstreamsLocked ids r)) = kr_ednsPadding r"
  by (simp_all add: applyGroupUpstreamsLocked_def split: prod.splits)

lemma old_stats_fold:
  assumes "\<forall>p \<in> set ps. has_stats st p" "snd ` set m \<subseteq> fst ` set st"
  shows "snd ` set (fold (\<lambda>p m. case cp_Stats p of Some a \<Rightarrow> if Q p m then AList.update (cp_ID p) a m else m | None \<Rightarrow> m) ps m) \<subseteq> fst ` set st"
  using assms
proof (induction ps arbitrary: m)
  case (Cons p ps)
  obtain a where a: "cp_Stats p = Some a" "a \<in> fst ` set st" using Cons.prems(1) by (auto simp: has_stats_def)
  have "snd ` set (AList.update (cp_ID p) a m) \<subseteq> insert a (snd ` set m)" using set_update_subset [of "cp_ID p" a m] by force
  then have "snd ` set (AList.update (cp_ID p) a m) \<subseteq> fst ` set st" using Cons.prems(2) a(2) by blast
  then show ?case using Cons a(1) by simp
qed simp

lemma old_stats_ok: "resolver_inv U r st \<Longrightarrow> snd ` set (old_stats r) \<subseteq> fst ` set st"
  unfolding old_stats_def resolver_inv_def by (intro old_stats_fold) auto

lemma route_loop_ext: "store_ext st (snd (route_loop routes cr st))"
proof (induction routes cr st rule: route_loop.induct)
  case (2 pattern upstream0 rest cr st)
  show ?case
  proof (cases "trim_space upstream0 = []")
    case False
    then show ?thesis using "2.IH"(2) [OF refl _ refl] alloc_ext store_ext_trans by (simp add: Let_def) blast
  qed (use 2 in simp)
qed simp

lemma Configure_cases:
  assumes "Configure U cfg r st = (err, r', st')"
  obtains (failed) e where "err = Some e" "r' = r" "st' = st"
  | (applied) providers st1 fallbacks st2 where "err = None" "rv_Providers cfg \<noteq> []"
      "buildProviderSet (ul_stamp U) (ul_uri U) (rv_Providers cfg) (old_stats r) st = Inr (providers, st1)"
      "buildProviderSet (ul_stamp U) (ul_uri U) (rv_FallbackProviders cfg) (old_stats r) st1 = Inr (fallbacks, st2)"
      "kr_providers r' = providers" "kr_fallbackProviders r' = fallbacks" "0 \<le> kr_ednsPadding r'" "store_ext st2 st'"
      "list_all (group_ok providers) (kr_groupUpstreams r')"
proof (cases err)
  case (Some e)
  then have "r' = r" "st' = st" using assms by (auto simp: Configure_def Let_def split: if_splits sum.splits prod.splits)
  then show ?thesis using Some failed by blast
next
  case None
  from assms None obtain providers st1 fallbacks st2 where b: "rv_Providers cfg \<noteq> []"
    "buildProviderSet (ul_stamp U) (ul_uri U) (rv_Providers cfg) (old_stats r) st = Inr (providers, st1)"
    "buildProviderSet (ul_stamp U) (ul_uri U) (rv_FallbackProviders cfg) (old_stats r) st1 = Inr (fallbacks, st2)"
    by (auto simp: Configure_def Let_def split: if_splits sum.splits prod.splits)
  define r1 where "r1 = r\<lparr>kr_mode := mode_name (CanonicalMode (rv_Mode cfg)), kr_providers := providers\<rparr>"
  obtain router st3 where rt: "route_loop (rv_ConditionalRoutes cfg) (ClearRoutes (kr_router r)) st2 = (router, st3)" by fastforce
  have "store_ext st2 st'" "kr_providers r' = kr_providers (snd (applyGroupUpstreamsLocked (kr_groupUpstreamIDs r) r1))"
    "kr_fallbackProviders r' = fallbacks" "0 \<le> kr_ednsPadding r'"
    "kr_groupUpstreams r' = kr_groupUpstreams (snd (applyGroupUpstreamsLocked (kr_groupUpstreamIDs r) r1))"
    using assms None b rt route_loop_ext [of st2 "rv_ConditionalRoutes cfg" "ClearRoutes (kr_router r)"]
    by (auto simp: Configure_def Let_def r1_def split: if_splits)
  moreover have "kr_providers r1 = providers" by (simp add: r1_def)
  ultimately show ?thesis using applied b None apply_groups_ok [of r1] apply_groups_frame(1) by simp
qed

lemma Configure_inv:
  assumes "Configure U cfg r st = (err, r', st')" "resolver_inv (ul_uri U) r st"
  shows "resolver_inv (ul_uri U) r' st' \<and> store_ext st st' \<and> (err = None \<longrightarrow> kr_providers r' \<noteq> [])"
  using assms(1)
proof (cases rule: Configure_cases)
  case failed
  then show ?thesis using assms(2) by simp
next
  case (applied providers st1 fallbacks st2)
  have o1: "snd ` set (old_stats r) \<subseteq> fst ` set st" by (rule old_stats_ok [OF assms(2)])
  note p = buildProviderSet_ok [OF applied(3) o1]
  have "snd ` set (old_stats r) \<subseteq> fst ` set st1" using o1 p store_ext_keys by blast
  note f = buildProviderSet_ok [OF applied(4) this]
  have e: "store_ext st1 st'" using f applied(8) store_ext_trans by blast
  have "has_stats st' q" if "q \<in> set providers \<union> set fallbacks" for q
    using that p f has_stats_ext [OF _ e] has_stats_ext [OF _ applied(8)] by blast
  then show ?thesis using p f e applied store_ext_trans [of st st1 st'] by (auto simp: resolver_inv_def)
qed

section \<open>Life of a resolver\<close>

text \<open>What the service does with its resolver, in any order: new configurations, group upstreams, queries.\<close>

datatype resolver_op =
    OpConfigure ResolverConfig
  | OpGroups "(string \<times> string list) list"
  | OpExchange ctx msg time
  | OpGroupExchange ctx string msg time

definition query_stats :: "stats_store \<Rightarrow> time \<Rightarrow> sched_state" where
  "query_stats st t = \<lparr>ss_now = t, ss_stats = st, ss_sent = []\<rparr>"

fun resolver_step :: "upstream_lib \<Rightarrow> upstream_world \<Rightarrow> resolver_op \<Rightarrow> CoreResolver \<times> stats_store \<Rightarrow> CoreResolver \<times> stats_store" where
  "resolver_step U W (OpConfigure cfg) (r, st) = snd (Configure U cfg r st)"
| "resolver_step U W (OpGroups ids) (r, st) = (snd (SetGroupUpstreams ids r), st)"
| "resolver_step U W (OpExchange c m t) (r, st) = (r, ss_stats (snd (resolver_Exchange W r c (Some m) (query_stats st t))))"
| "resolver_step U W (OpGroupExchange c g m t) (r, st) = (r, ss_stats (snd (ExchangeForGroup W r c g (Some m) (query_stats st t))))"

definition usable :: "upstream_lib \<Rightarrow> CoreResolver \<times> stats_store \<Rightarrow> bool" where
  "usable U x \<longleftrightarrow> kr_providers (fst x) \<noteq> [] \<and> resolver_inv (ul_uri U) (fst x) (snd x)"

lemma usable_keys: "usable U (r, st) \<Longrightarrow> fst ` set st' = fst ` set st \<Longrightarrow> usable U (r, st')"
  by (simp add: usable_def resolver_inv_def has_stats_def)

lemma exchange_keys:
  "fst ` set (ss_stats (snd (resolver_Exchange W r c (Some m) s))) = fst ` set (ss_stats s)"
  "fst ` set (ss_stats (snd (ExchangeForGroup W r c g (Some m) s))) = fst ` set (ss_stats s)"
proof -
  have f: "fst ` set (ss_stats (snd (exchange_with W resolve m s))) = fst ` set (ss_stats s)"
    if "\<And>raw res t. resolve raw s = (res, t) \<Longrightarrow> sched_frame P s t" for resolve P
  proof -
    have "exchange_with W resolve m s = (fst (exchange_with W resolve m s), snd (exchange_with W resolve m s))" by simp
    from exchange_with_frame [OF this that] show ?thesis by (simp add: sched_frame_def)
  qed
  show "fst ` set (ss_stats (snd (resolver_Exchange W r c (Some m) s))) = fst ` set (ss_stats s)"
    using f [OF query_frame_in [OF _ UNIV_I]] f [OF fallback_frame] by (simp add: resolver_Exchange_def split: option.splits)
  show "fst ` set (ss_stats (snd (ExchangeForGroup W r c g (Some m) s))) = fst ` set (ss_stats s)"
    using f [OF sched_Resolve_frame] by (simp add: ExchangeForGroup_def Let_def)
qed

lemma resolver_step_usable:
  assumes "usable U x"
  shows "usable U (resolver_step U W op x)"
proof -
  obtain r st where x: "x = (r, st)" by fastforce
  show ?thesis
  proof (cases op)
    case (OpConfigure cfg)
    obtain err r' st' where c: "Configure U cfg r st = (err, r', st')" by (metis prod_cases3)
    have "resolver_inv (ul_uri U) r' st'" using Configure_inv [OF c] assms x by (simp add: usable_def)
    moreover have "kr_providers r' \<noteq> []"
      using Configure_inv [OF c] assms x by (cases err) (use c in \<open>auto simp: usable_def elim: Configure_cases\<close>)
    ultimately show ?thesis using OpConfigure x c by (simp add: usable_def)
  next
    case (OpGroups ids)
    then show ?thesis using assms x apply_groups_ok [of r ids]
      by (simp add: usable_def resolver_inv_def SetGroupUpstreams_def apply_groups_frame)
  next
    case (OpExchange c m t)
    have "usable U (r, ss_stats (snd (resolver_Exchange W r c (Some m) (query_stats st t))))"
      by (rule usable_keys [of U r st]) (use assms x exchange_keys in \<open>simp_all add: query_stats_def\<close>)
    then show ?thesis using OpExchange x by simp
  next
    case (OpGroupExchange c g m t)
    have "usable U (r, ss_stats (snd (ExchangeForGroup W r c g (Some m) (query_stats st t))))"
      by (rule usable_keys [of U r st]) (use assms x exchange_keys in \<open>simp_all add: query_stats_def\<close>)
    then show ?thesis using OpGroupExchange x by simp
  qed
qed

lemma new_resolver_usable:
  assumes "NewResolver U cfg st0 = Inr x"
  shows "usable U x"
proof -
  obtain r st where c: "Configure U cfg (empty_resolver (rv_Bootstrap cfg)) st0 = (None, r, st)" "x = (r, st)"
    using assms by (auto simp: NewResolver_def split: prod.splits option.splits)
  have "resolver_inv (ul_uri U) (empty_resolver (rv_Bootstrap cfg)) st0" by (simp add: resolver_inv_def empty_resolver_def)
  then show ?thesis using Configure_inv [OF c(1)] c(2) by (simp add: usable_def)
qed

text \<open>
  C9. A resolver that was created stays usable: through new configurations, also ones that are refused, changes of the
  group upstreams and queries, in any order, it has at least one provider; every provider has a known protocol, a server, a positive
  weight, a DoH address that is a proper https address, a pin of the right length, and statistics; and
  every group with upstreams of its own has at least one, all of them current providers, none twice.
\<close>

theorem resolver_stays_usable:
  assumes "NewResolver U cfg st0 = Inr x"
  shows "usable U (fold (resolver_step U W) ops x)"
  using new_resolver_usable [OF assms] by (induction ops rule: rev_induct) (simp_all add: resolver_step_usable)

section \<open>Statistics survive\<close>

lemma old_stats_keeps:
  assumes "map_of m i = Some a" "\<forall>p \<in> set ps. cp_ID p \<noteq> i \<or> cp_Stats p = Some a"
  shows "map_of (fold (\<lambda>p m. case cp_Stats p of Some a \<Rightarrow> if Q p m then AList.update (cp_ID p) a m else m | None \<Rightarrow> m) ps m) i = Some a"
  using assms
proof (induction ps arbitrary: m)
  case (Cons p ps)
  show ?case
  proof (cases "cp_Stats p")
    case None
    then show ?thesis using Cons by simp
  next
    case (Some b)
    have "map_of (if Q p m then AList.update (cp_ID p) b m else m) i = Some a"
      using Cons.prems Some by (auto simp: update_conv')
    then show ?thesis using Cons.IH Cons.prems(2) Some by simp
  qed
qed simp

lemma old_stats_first:
  assumes "map_of m i = Some a"
  shows "map_of (fold (\<lambda>p m. case cp_Stats p of Some a \<Rightarrow> if cp_ID p \<noteq> [] \<and> map_of m (cp_ID p) = None then AList.update (cp_ID p) a m else m | None \<Rightarrow> m) ps m) i = Some a"
  using assms
proof (induction ps arbitrary: m)
  case (Cons p ps)
  have "map_of (AList.update (cp_ID p) b m) i = Some a" if "map_of m (cp_ID p) = None" for b
    using that Cons.prems by (auto simp: update_conv')
  then show ?case using Cons by (auto split: option.split)
qed simp

lemma old_stats_provider:
  assumes "p \<in> set (kr_providers r)" "distinct (map cp_ID (kr_providers r))" "cp_ID p \<noteq> []" "cp_Stats p = Some a"
  shows "map_of (old_stats r) (cp_ID p) = Some a"
proof -
  obtain xs ys where s: "kr_providers r = xs @ p # ys" using assms(1) split_list by fastforce
  have y: "\<forall>q \<in> set ys. cp_ID q \<noteq> cp_ID p" 
    using assms(2) unfolding s by (simp, metis image_eqI)
  define f where "f = (\<lambda>(p :: ConfiguredProvider) m. case cp_Stats p of Some a \<Rightarrow> if cp_ID p \<noteq> [] then AList.update (cp_ID p) a m else m | None \<Rightarrow> m)"
  have "map_of (fold f ys (f p (fold f xs []))) (cp_ID p) = Some a"
    unfolding f_def by (rule old_stats_keeps [where Q = "\<lambda>p m. cp_ID p \<noteq> []"]) (use assms(3,4) y in \<open>simp_all add: update_conv'\<close>)
  then have "map_of (fold f (kr_providers r) []) (cp_ID p) = Some a" by (simp add: s)
  from old_stats_first [OF this] show ?thesis by (simp add: old_stats_def f_def)
qed

text \<open>
  A reload keeps what was learnt: a provider of the new configuration with the identifier of an old one has its
  statistics object, and the object is unchanged.
\<close>

theorem reload_keeps_statistics:
  assumes "Configure U cfg r st = (None, r', st')" "resolver_inv (ul_uri U) r st" "distinct (map cp_ID (kr_providers r))"
    and "p \<in> set (kr_providers r)" "cp_ID p \<noteq> []" "q \<in> set (kr_providers r' @ kr_fallbackProviders r')" "cp_ID q = cp_ID p"
  shows "cp_Stats q = cp_Stats p \<and> (\<forall>a. cp_Stats p = Some a \<longrightarrow> map_of st' a = map_of st a)"
proof -
  have "has_stats st p" using assms(2,4) by (simp add: resolver_inv_def)
  then obtain a where a: "cp_Stats p = Some a" "a \<in> fst ` set st" unfolding has_stats_def by blast
  have old: "map_of (old_stats r) (cp_ID q) = Some a" using old_stats_provider [OF assms(4,3,5) a(1)] assms(7) by simp
  have o1: "snd ` set (old_stats r) \<subseteq> fst ` set st" by (rule old_stats_ok [OF assms(2)])
  from assms(1) show ?thesis
  proof (cases rule: Configure_cases)
    case (applied providers st1 fallbacks st2)
    note p = buildProviderSet_ok [OF applied(3) o1]
    have "snd ` set (old_stats r) \<subseteq> fst ` set st1" using o1 p store_ext_keys by blast
    note f = buildProviderSet_ok [OF applied(4) this]
    have "stats_from (old_stats r) q" using p f applied assms(6) by auto
    moreover have "store_ext st st'" using Configure_inv [OF assms(1,2)] by simp
    ultimately show ?thesis using old a store_ext_lookup [of st st' a] by (simp add: stats_from_def)
  qed simp
qed

text \<open>
  A provider given as a stamp loses its identifier, whatever the configuration gave it: its statistics start anew with every
  reload, and it cannot be an upstream of a client group.
\<close>

theorem stamp_provider_anonymous:
  assumes "stampFromProvider p = Some (s, fld)" "build_input K (with_id i p) = Inr (cfg, pin)" "normalizeProvider U cfg pin = Inr q"
  shows "cp_ID q = [] \<and> (\<forall>e \<in> set (kr_groupUpstreams (snd (SetGroupUpstreams ids r))). q \<notin> set (snd e))"
proof -
  have "stampFromProvider (with_id i p) = Some (s, fld)" using assms(1) by (auto simp: stampFromProvider_def with_id_def split: if_splits)
  then have "pv_ID cfg = []" using assms(2) by (auto simp: build_input_def Let_def dest!: ExpandStamp_ok split: sum.splits if_splits)
  then have "cp_ID q = []" using normalizeProvider_ok(2) [OF assms(3) build_input_pin [OF assms(2)]] by simp
  moreover have "\<forall>e \<in> set (kr_groupUpstreams (snd (SetGroupUpstreams ids r))). \<forall>p \<in> set (snd e). cp_ID p \<noteq> []"
    using apply_groups_ok [of r ids] by (auto simp: list_all_iff group_ok_def SetGroupUpstreams_def)
  ultimately show ?thesis by blast
qed

section \<open>Pinned certificates\<close>

lemma pin_table_handshake:
  assumes "buildPinLookup ps = Some table" "hostnameInSNI host = host"
  shows "handshake_accepts C (PinAwareTLSConfig C None (Some table)) host certs \<longleftrightarrow> certs \<noteq> [] \<and>
    (case pin_for table host of
       Some pin \<Rightarrow> (\<exists>c \<in> set certs. Sum256 C (ct_RawTBSCertificate c) = pin)
     | None \<Rightarrow> cert_Verify C (hd certs) (tl certs) host)"
proof -
  have "pin \<noteq> []" if "(h, pin) \<in> set (fold add_pin ps m)" "\<And>h q. (h, q) \<in> set m \<Longrightarrow> q \<noteq> []" for h pin m
    using that
  proof (induction ps arbitrary: m)
    case (Cons p ps)
    have "q \<noteq> []" if "(h', q) \<in> set (add_pin p m)" for h' q
      using that Cons.prems(2) set_update_subset [of "pinHost (cp_Server p)" _ m]
      by (fastforce simp: add_pin_def Let_def split: option.splits if_splits)
    then show ?case using Cons by simp
  qed auto
  from this [of _ _ "[]"] have "pin \<noteq> []" if "map_of table h = Some pin" for h pin
    using assms(1) map_of_SomeD [OF that] by (auto simp: buildPinLookup_def Let_def split: if_splits)
  then show ?thesis using assms(2)
    by (auto simp: handshake_accepts_def PinAwareTLSConfig_def verifyCertPin_def verifyStandardChain_def pin_for_def list_ex_iff split: option.splits)
qed

text \<open>
  With pins configured, a handshake with a named host is accepted exactly as the pins say: a pinned host needs
  a presented certificate with the pinned digest, any other host a chain that verifies for its name.
\<close>

theorem pinned_handshake:
  assumes "buildPinLookup ps = Some table" "hostnameInSNI host = host"
  shows "handshake_accepts C (PinAwareTLSConfig C None (Some table)) host certs \<longleftrightarrow> certs \<noteq> [] \<and>
    (case pin_for table host of
       Some pin \<Rightarrow> (\<exists>c \<in> set certs. Sum256 C (ct_RawTBSCertificate c) = pin)
     | None \<Rightarrow> cert_Verify C (hd certs) (tl certs) host)"
  by (rule pin_table_handshake [OF assms])

text \<open>
  Pinning does not bind the server. The pinned certificate is public and only has to be among those presented, not the
  one whose key the server proves to have: whoever appends it to his own certificate is accepted.
\<close>

theorem pin_bypassed:
  assumes "buildPinLookup ps = Some table" "hostnameInSNI host = host" "pin_for table host = Some pin"
    and "Sum256 C (ct_RawTBSCertificate pinned) = pin"
  shows "handshake_accepts C (PinAwareTLSConfig C None (Some table)) host [attacker, pinned]"
  using pin_table_handshake [OF assms(1,2)] assms(3,4) by simp

text \<open>
  One pin loosens the verification of other upstreams. A host given as an address is not named in the handshake: without
  pins its certificate has to verify for the address, but with a pin anywhere in the configuration it is
  accepted with a chain for any name, and a pin of its own is not looked at.
\<close>

theorem pins_loosen_address_hosts:
  assumes "buildPinLookup ps = Some table" "hostnameInSNI host = []"
  shows "(handshake_accepts C (PinAwareTLSConfig C None None) host certs \<longleftrightarrow> certs \<noteq> [] \<and> cert_Verify C (hd certs) (tl certs) host) \<and>
    (handshake_accepts C (PinAwareTLSConfig C None (Some table)) host certs \<longleftrightarrow> certs \<noteq> [] \<and> cert_Verify C (hd certs) (tl certs) [])"
proof -
  have "fst e \<noteq> []" if "e \<in> set (fold add_pin ps m)" "\<And>e. e \<in> set m \<Longrightarrow> fst e \<noteq> []" for e m
    using that
  proof (induction ps arbitrary: m)
    case (Cons p ps)
    have "fst x \<noteq> []" if "x \<in> set (add_pin p m)" for x
      using that Cons.prems(2) set_update_subset [of "pinHost (cp_Server p)" _ m]
      by (fastforce simp: add_pin_def Let_def split: option.splits if_splits)
    then show ?case using Cons by simp
  qed auto
  from this [of _ "[]"] have "\<forall>e \<in> set table. fst e \<noteq> []" using assms(1) by (simp add: buildPinLookup_def Let_def split: if_splits)
  then have "map_of table [] = None" by (auto simp: map_of_eq_None_iff)
  then have "pin_for table [] = None" by (simp add: pin_for_def pinHost_def Let_def trim_space_def trim_with_def)
  then show ?thesis using assms(2) by (simp add: handshake_accepts_def PinAwareTLSConfig_def verifyStandardChain_def)
qed

section \<open>Witnesses\<close>

definition sample_pin :: string where
  "sample_pin = concat (replicate 32 ''0a'')"

definition dot_provider :: "string \<Rightarrow> string \<Rightarrow> ProviderConfig" where
  "dot_provider i server = \<lparr>pv_ID = i, pv_Protocol = ''tls'', pv_Server = server, pv_URL = [], pv_Weight = 0, pv_Pin = sample_pin\<rparr>"

definition sample_resolver_config :: ResolverConfig where
  "sample_resolver_config = \<lparr>rv_Mode = ''single'', rv_Providers = [dot_provider ''a'' ''dns.example:853'', dot_provider ''b'' ''9.9.9.9''],
     rv_Bootstrap = \<lparr>bc_Enabled = False, bc_Servers = []\<rparr>, rv_ConditionalRoutes = [(''*.lan'', ''192.168.0.1'')], rv_EDNSPadding = 0,
     rv_FallbackProviders = [], rv_FallbackTimeoutMs = 0, rv_FallbackOnRcode = None, rv_FallbackOnError = None\<rparr>"

definition sample_upstream_lib :: upstream_lib where
  "sample_upstream_lib = \<lparr>ul_stamp = Some (\<lambda>s. (0, [1, 0] @ replicate 8 0 @ [5, 0] @ map (of_nat \<circ> of_char) ''PLAIN'' @
      [0, 0, 0, 0, 0, 0, 0, 0] @ [7, 0] @ map (of_nat \<circ> of_char) ''1.1.1.1'' @ [0, 0, 0, 0])), ul_uri = (\<lambda>u. None)\<rparr>"

definition sample_world_out :: upstream_world where
  "sample_world_out = \<lparr>uw_lib = (env_lib sample_env)\<lparr>Pack := \<lambda>m. Some [1]\<rparr>, uw_Len = (\<lambda>m. 12), uw_send = (\<lambda>proto c q server t. (Inr [2], 5)),
     uw_ewma = (\<lambda>a b. b)\<rparr>"

definition sample_configured :: "CoreResolver \<times> stats_store" where
  "sample_configured = (case NewResolver sample_upstream_lib sample_resolver_config [] of Inr x \<Rightarrow> x | Inl _ \<Rightarrow> (empty_resolver (rv_Bootstrap sample_resolver_config), []))"

lemma sample_configured_ok: "NewResolver sample_upstream_lib sample_resolver_config [] = Inr sample_configured"
proof -
  have "isl (NewResolver sample_upstream_lib sample_resolver_config []) = False" by code_simp
  then show ?thesis by (cases "NewResolver sample_upstream_lib sample_resolver_config []") (simp_all add: sample_configured_def)
qed

theorem resolver_stays_usable_witness:
  "usable sample_upstream_lib (fold (resolver_step sample_upstream_lib sample_world_out)
     [OpGroups [(''kids'', [''b''])], OpGroupExchange idle_ctx ''kids'' sample_query 0, OpConfigure sample_resolver_config] sample_configured)"
  by (rule resolver_stays_usable [OF sample_configured_ok])

theorem exchange_asks_configured_witness:
  "\<exists>m s'. resolver_Exchange sample_world_out (fst sample_configured) idle_ctx (Some sample_query) sample_sched_state = (Inr m, s') \<and> m_Id m = 7"
proof -
  obtain out s' where r: "resolver_Exchange sample_world_out (fst sample_configured) idle_ctx (Some sample_query) sample_sched_state = (out, s')" by fastforce
  have "\<not> isl (fst (resolver_Exchange sample_world_out (fst sample_configured) idle_ctx (Some sample_query) sample_sched_state))" by code_simp
  then obtain m where "out = Inr m" using r by (cases out) auto
  with exchange_asks_configured [OF r] r show ?thesis by (auto simp: sample_query_def)
qed


theorem reload_keeps_statistics_witness:
  "\<exists>r' st' p q. Configure sample_upstream_lib sample_resolver_config (fst sample_configured) (snd sample_configured) = (None, r', st') \<and>
     p \<in> set (kr_providers (fst sample_configured)) \<and> q \<in> set (kr_providers r') \<and> cp_Stats q = cp_Stats p"
proof -
  let ?x = sample_configured
  obtain err r' st' where c: "Configure sample_upstream_lib sample_resolver_config (fst ?x) (snd ?x) = (err, r', st')" by (metis prod_cases3)
  have e: "fst (Configure sample_upstream_lib sample_resolver_config (fst ?x) (snd ?x)) = None"
    "map cp_ID (kr_providers (fst ?x)) = [''a'', ''b'']"
    "map cp_ID (kr_providers (fst (snd (Configure sample_upstream_lib sample_resolver_config (fst ?x) (snd ?x))))) = [''a'', ''b'']"
    by code_simp+
  have "''a'' \<in> set (map cp_ID (kr_providers (fst ?x)))" "''a'' \<in> set (map cp_ID (kr_providers r'))"
    unfolding e(2) using e(3) c by simp_all
  then obtain p q where pq: "p \<in> set (kr_providers (fst ?x))" "cp_ID p = ''a''" "q \<in> set (kr_providers r')" "cp_ID q = ''a''"
    unfolding set_map image_iff by metis
  have inv: "resolver_inv (ul_uri sample_upstream_lib) (fst ?x) (snd ?x)"
    using new_resolver_usable [OF sample_configured_ok] by (simp add: usable_def)
  have c': "Configure sample_upstream_lib sample_resolver_config (fst ?x) (snd ?x) = (None, r', st')" using c e(1) by simp
  from reload_keeps_statistics [OF c' inv _ pq(1), of q] pq e(2) c' show ?thesis by auto
qed

theorem stamp_provider_anonymous_witness:
  "\<exists>q. normalizeProvider (\<lambda>u. None) \<lparr>pv_ID = [], pv_Protocol = ''PLAIN'', pv_Server = ''1.1.1.1'', pv_URL = [], pv_Weight = 0, pv_Pin = []\<rparr> None = Inr q \<and>
     cp_ID q = []"
proof -
  let ?p = "\<lparr>pv_ID = ''home'', pv_Protocol = [], pv_Server = ''sdns://AA'', pv_URL = [], pv_Weight = 0, pv_Pin = []\<rparr> :: ProviderConfig"
  let ?cfg = "\<lparr>pv_ID = [], pv_Protocol = ''PLAIN'', pv_Server = ''1.1.1.1'', pv_URL = [], pv_Weight = 0, pv_Pin = []\<rparr> :: ProviderConfig"
  have s: "stampFromProvider ?p = Some (''sdns://AA'', StampFieldServer)" "build_input (ul_stamp sample_upstream_lib) (with_id 0 ?p) = Inr (?cfg, None)"
    "\<not> isl (normalizeProvider (\<lambda>u. None) ?cfg None)" by code_simp+
  then obtain q where q: "normalizeProvider (\<lambda>u. None) ?cfg None = Inr q" by (cases "normalizeProvider (\<lambda>u. None) ?cfg None") auto
  from stamp_provider_anonymous [OF s(1,2) q] q show ?thesis by blast
qed

definition sample_crypto :: crypto where
  "sample_crypto = \<lparr>Sum256 = (\<lambda>b. b), cert_Verify = (\<lambda>c ints name. name = [] \<or> ct_Raw c = map (of_nat \<circ> of_char) name)\<rparr>"

definition sample_pins :: "(string \<times> CertPin) list" where
  "sample_pins = [(''dns.example'', replicate 32 10), (''9.9.9.9'', replicate 32 10)]"

definition foreign_cert :: certificate where "foreign_cert = \<lparr>ct_RawTBSCertificate = [], ct_Raw = [7]\<rparr>"
definition pinned_cert :: certificate where "pinned_cert = \<lparr>ct_RawTBSCertificate = replicate 32 10, ct_Raw = [1]\<rparr>"

lemma sample_pins_ok:
  "buildPinLookup (kr_providers (fst sample_configured)) = Some sample_pins" "hostnameInSNI ''dns.example'' = ''dns.example''"
  "hostnameInSNI ''9.9.9.9'' = []" "pin_for sample_pins ''dns.example'' = Some (replicate 32 10)"
  by code_simp+

theorem pinned_handshake_witness:
  "handshake_accepts sample_crypto (PinAwareTLSConfig sample_crypto None (Some sample_pins)) ''dns.example'' [pinned_cert] \<and>
   \<not> handshake_accepts sample_crypto (PinAwareTLSConfig sample_crypto None (Some sample_pins)) ''dns.example'' [foreign_cert]"
  using pinned_handshake [OF sample_pins_ok(1,2), of sample_crypto] sample_pins_ok(4)
  by (simp add: sample_crypto_def pinned_cert_def foreign_cert_def)

theorem pin_bypassed_witness:
  "handshake_accepts sample_crypto (PinAwareTLSConfig sample_crypto None (Some sample_pins)) ''dns.example'' [foreign_cert, pinned_cert]"
  by (rule pin_bypassed [OF sample_pins_ok(1,2,4)]) (simp add: sample_crypto_def pinned_cert_def)

theorem pins_loosen_address_hosts_witness:
  "\<not> handshake_accepts sample_crypto (PinAwareTLSConfig sample_crypto None None) ''9.9.9.9'' [foreign_cert] \<and>
   handshake_accepts sample_crypto (PinAwareTLSConfig sample_crypto None (Some sample_pins)) ''9.9.9.9'' [foreign_cert]"
  using pins_loosen_address_hosts [OF sample_pins_ok(1,3), of sample_crypto "[foreign_cert]"]
  by (simp add: sample_crypto_def foreign_cert_def)

end
