(* ===== verification/Service_Facts.thy ===== *)
theory Service_Facts
  imports Core_Facts Pipeline_Facts
begin

text \<open>
  The upstream resolver behind the query pipeline: the pipeline reaches it through the interface
  \<open>core.Resolver\<close> and \<open>GroupUpstreamResolver\<close>, and what the pipeline assumes of that interface
  holds of the configured resolver.
\<close>

definition outcome :: "(exchange_error + msg) \<times> sched_state \<Rightarrow> time \<Rightarrow> (msg option \<times> string option) \<times> duration" where
  "outcome x t = ((case fst x of Inl e \<Rightarrow> (None, Some ''upstream error'') | Inr m \<Rightarrow> (Some m, None)), ss_now (snd x) - t)"

definition service_exchange :: "upstream_world \<Rightarrow> CoreResolver \<Rightarrow> stats_store \<Rightarrow> exchange" where
  "service_exchange W r st c m t = outcome (resolver_Exchange W r c (Some m) (query_stats st t)) t"

definition service_groups :: "upstream_world \<Rightarrow> CoreResolver \<Rightarrow> stats_store \<Rightarrow> group_resolvers" where
  "service_groups W r st = \<lparr>gu_has = HasGroupUpstreams r,
     gu_exchange = (\<lambda>c g m t. outcome (ExchangeForGroup W r c g (Some m) (query_stats st t)) t)\<rparr>"

lemma outcome_id:
  assumes "outcome (exchange_with W resolve m s) t = ((Some resp, e), d)"
  shows "m_Id resp = m_Id m"
proof -
  obtain out s' where x: "exchange_with W resolve m s = (out, s')" by fastforce
  then have "out = Inr resp" using assms by (auto simp: outcome_def split: sum.splits)
  with exchange_with_run(2) [OF x] show ?thesis by blast
qed


text \<open>
  The upstreams of a group are not the only ones its queries can reach. When they fail, the handler of the
  pipeline passes the query on, and the default upstreams get it.
\<close>

theorem group_policy_bypassed:
  assumes "has_question s" "cachedGroup s \<noteq> DefaultClientGroupID" "HasGroupUpstreams r (cachedGroup s)"
    and "fst (ExchangeForGroup W r (dx_Context s) (cachedGroup s) (Some (the_req s)) (query_stats st (w_now s))) = Inl e"
    and "\<And>t. w_sent (snd (nx t)) = w_sent t"
  shows "w_sent (snd (NewUpstreamRouteMiddleware (Some (service_groups W r st)) (Some gs) (NewForwardMiddleware L (service_exchange W r st) nx) s)) =
    w_sent s @ [GroupForwarded (cachedGroup s) (the_req s), Forwarded (the_req s)]"
proof -
  obtain req where q: "dx_Req s = Some req" "the_req s = req" using assms(1) by (auto simp: has_question_def the_req_def split: option.splits)
  show ?thesis using assms q
    by (auto simp: NewUpstreamRouteMiddleware_def NewForwardMiddleware_def service_groups_def outcome_def Let_def split: prod.splits option.splits sum.splits)
qed

definition down_world :: upstream_world where
  "down_world = sample_world_out\<lparr>uw_send := \<lambda>proto c q server t. (Inl (TransportError ''down''), 5)\<rparr>"

definition kids_state :: qstate where
  "kids_state = ctx_Set attrClientGroup (AStr ''kids'') (start_state sample_query)"

theorem group_policy_bypassed_witness:
  "w_sent (snd (NewUpstreamRouteMiddleware (Some (service_groups down_world (snd (SetGroupUpstreams [(''kids'', [''b''])] (fst sample_configured))) []))
      (Some []) (NewForwardMiddleware sample_lib (service_exchange down_world (snd (SetGroupUpstreams [(''kids'', [''b''])] (fst sample_configured))) []) (\<lambda>s. (None, s))) kids_state)) =
    [GroupForwarded ''kids'' sample_query, Forwarded sample_query]"
proof -
  let ?r = "snd (SetGroupUpstreams [(''kids'', [''b''])] (fst sample_configured))"
  have k: "has_question kids_state" "cachedGroup kids_state = ''kids''" "HasGroupUpstreams ?r ''kids''" "the_req kids_state = sample_query"
    "w_sent kids_state = []" "w_now kids_state = 0" "''kids'' \<noteq> DefaultClientGroupID"
    "isl (fst (ExchangeForGroup down_world ?r (dx_Context kids_state) ''kids'' (Some sample_query) (query_stats [] 0)))"
    by code_simp+
  then obtain e where "fst (ExchangeForGroup down_world ?r (dx_Context kids_state) ''kids'' (Some sample_query) (query_stats [] 0)) = Inl e"
    by (auto simp: isl_def)
  from group_policy_bypassed [of kids_state ?r down_world "[]" e "\<lambda>s. (None, s)" "[]" sample_lib] this k show ?thesis by simp
qed

end
