(* ===== verification/Encrypted_Config.thy ===== *)
theory Encrypted_Config
  imports Listen "HOL-Library.Char_ord" "HOL-Library.List_Lexorder"
begin

text \<open>
  The configuration of the encrypted listeners and of their certificate
  (\<open>core/encrypted_types.go\<close>), the names a certificate is made for
  (\<open>DeriveCertNames\<close> of \<open>core/cert_generate.go\<close>), and the profile that phones install
  (\<open>core/mobileconfig.go\<close>, \<open>core/plist.go\<close>). The random bytes of an identifier
  are an argument, \<open>None\<close> when the source of randomness fails.
\<close>

section \<open>Configurations\<close>

definition DefaultDoHPath :: string where "DefaultDoHPath = ''/dns-query''"
definition DefaultServerName :: string where "DefaultServerName = ''dns.lan''"
definition CertSourceSelfSigned :: string where "CertSourceSelfSigned = ''self_signed''"
definition CertSourceFile :: string where "CertSourceFile = ''file''"
definition CertSourcePKCS12 :: string where "CertSourcePKCS12 = ''pkcs12''"

record CertConfig =
  cr_Source :: string
  cr_CertFile :: string
  cr_KeyFile :: string
  cr_PKCS12Password :: string
  cr_KeyType :: string
  cr_CommonName :: string
  cr_DNSNames :: "string list"
  cr_IPAddresses :: "string list"
  cr_ValidDays :: int

record ReverseProxyConfig =
  rp_Enabled :: bool
  rp_TrustedSources :: "string list"
  rp_ClientIPHeader :: string

record EncryptedDNSConfig =
  en_Enabled :: bool
  en_Cert :: CertConfig
  en_DoTEnabled :: bool
  en_DoHEnabled :: bool
  en_DoQEnabled :: bool
  en_ListenAddress :: string
  en_DoTPort :: int
  en_DoHPort :: int
  en_DoQPort :: int
  en_DoHPath :: string
  en_ServerName :: string
  en_DDREnabled :: bool
  en_UUID :: string
  en_ReverseProxy :: ReverseProxyConfig

definition DefaultCertConfig :: CertConfig where
  "DefaultCertConfig = \<lparr>cr_Source = CertSourceSelfSigned, cr_CertFile = [], cr_KeyFile = [], cr_PKCS12Password = [],
     cr_KeyType = ''ecdsa'', cr_CommonName = DefaultServerName, cr_DNSNames = [DefaultServerName], cr_IPAddresses = [],
     cr_ValidDays = 825\<rparr>"

definition DefaultEncryptedDNSConfig :: EncryptedDNSConfig where
  "DefaultEncryptedDNSConfig = \<lparr>en_Enabled = False, en_Cert = DefaultCertConfig, en_DoTEnabled = False, en_DoHEnabled = False,
     en_DoQEnabled = False, en_ListenAddress = [], en_DoTPort = DefaultDoTPort, en_DoHPort = DefaultDoHPort,
     en_DoQPort = DefaultDoQPort, en_DoHPath = DefaultDoHPath, en_ServerName = DefaultServerName, en_DDREnabled = False,
     en_UUID = [], en_ReverseProxy = \<lparr>rp_Enabled = False, rp_TrustedSources = [], rp_ClientIPHeader = []\<rparr>\<rparr>"

definition isValidPort :: "int \<Rightarrow> bool" where
  "isValidPort port = (port > 0 \<and> port \<le> 65535)"

definition trimNonEmpty :: "string list \<Rightarrow> string list" where
  "trimNonEmpty xs = filter (\<lambda>s. s \<noteq> []) (map trim_space xs)"

definition IsValidCertSource :: "string \<Rightarrow> bool" where
  "IsValidCertSource src = (src = CertSourceSelfSigned \<or> src = CertSourceFile \<or> src = CertSourcePKCS12)"

text \<open>The part of \<open>NormalizeEncryptedDNSConfig\<close> that concerns the certificate.\<close>

definition normalize_cert :: "CertConfig \<Rightarrow> CertConfig" where
  "normalize_cert c = c\<lparr>
     cr_Source := (if IsValidCertSource (cr_Source c) then cr_Source c else CertSourceSelfSigned),
     cr_KeyType := (if cr_KeyType c \<noteq> ''rsa'' \<and> cr_KeyType c \<noteq> ''ecdsa'' then ''ecdsa'' else cr_KeyType c),
     cr_ValidDays := (if cr_ValidDays c < 1 \<or> cr_ValidDays c > 3650 then 825 else cr_ValidDays c),
     cr_CertFile := trim_space (cr_CertFile c), cr_KeyFile := trim_space (cr_KeyFile c),
     cr_CommonName := trim_space (cr_CommonName c),
     cr_DNSNames := trimNonEmpty (cr_DNSNames c), cr_IPAddresses := trimNonEmpty (cr_IPAddresses c)\<rparr>"

definition slash_path :: "string \<Rightarrow> string" where
  "slash_path s =
     (let p = trim_space s in
      if p = [] then DefaultDoHPath else if has_prefix p ''/'' then p else CHR ''/'' # p)"

definition NormalizeEncryptedDNSConfig :: "EncryptedDNSConfig \<Rightarrow> EncryptedDNSConfig" where
  "NormalizeEncryptedDNSConfig c = c\<lparr>
     en_Cert := normalize_cert (en_Cert c),
     en_ListenAddress := trim_space (en_ListenAddress c),
     en_ServerName := (let s = trim_space (en_ServerName c) in if s = [] then DefaultServerName else s),
     en_UUID := trim_space (en_UUID c),
     en_ReverseProxy := (en_ReverseProxy c)\<lparr>rp_TrustedSources := trimNonEmpty (rp_TrustedSources (en_ReverseProxy c)),
       rp_ClientIPHeader := trim_space (rp_ClientIPHeader (en_ReverseProxy c))\<rparr>,
     en_DoTPort := (if isValidPort (en_DoTPort c) then en_DoTPort c else DefaultDoTPort),
     en_DoHPort := (if isValidPort (en_DoHPort c) then en_DoHPort c else DefaultDoHPort),
     en_DoQPort := (if isValidPort (en_DoQPort c) then en_DoQPort c else DefaultDoQPort),
     en_DoHPath := slash_path (en_DoHPath c)\<rparr>"

text \<open>The certificate part alone, wrapped in an otherwise empty configuration as the code does.\<close>

definition empty_encrypted :: "CertConfig \<Rightarrow> EncryptedDNSConfig" where
  "empty_encrypted c = \<lparr>en_Enabled = False, en_Cert = c, en_DoTEnabled = False, en_DoHEnabled = False, en_DoQEnabled = False,
     en_ListenAddress = [], en_DoTPort = 0, en_DoHPort = 0, en_DoQPort = 0, en_DoHPath = [], en_ServerName = [],
     en_DDREnabled = False, en_UUID = [],
     en_ReverseProxy = \<lparr>rp_Enabled = False, rp_TrustedSources = [], rp_ClientIPHeader = []\<rparr>\<rparr>"

definition NormalizeCertConfig :: "CertConfig \<Rightarrow> CertConfig" where
  "NormalizeCertConfig c = en_Cert (NormalizeEncryptedDNSConfig (empty_encrypted c))"

section \<open>Addresses for clients\<close>

definition doh_url :: "int \<Rightarrow> string \<Rightarrow> string \<Rightarrow> string" where
  "doh_url port path h =
     (let authority = (if ParseIP h \<noteq> [] \<and> str_contains h '':'' then ''['' @ h @ '']'' else h);
          authority = (if port \<noteq> DefaultDoHPort then authority @ '':'' @ itoa (nat port) else authority)
      in ''https://'' @ authority @ path)"

fun doh_loop :: "int \<Rightarrow> string \<Rightarrow> string list \<Rightarrow> string list \<Rightarrow> string list \<Rightarrow> string list" where
  "doh_loop port path [] seen out = out"
| "doh_loop port path (raw # rest) seen out =
     (let h = trim_space raw in
      if h = [] \<or> h \<in> set seen then doh_loop port path rest seen out
      else doh_loop port path rest (h # seen) (out @ [doh_url port path h]))"

definition DoHURLs :: "string list \<Rightarrow> int \<Rightarrow> string \<Rightarrow> string list" where
  "DoHURLs hosts port path =
     (let port = (if isValidPort port then port else DefaultDoHPort);
          p = trim_space path;
          p = (if p = [] then DefaultDoHPath else p);
          p = (if has_prefix p ''/'' then p else CHR ''/'' # p)
      in doh_loop port p hosts [] [])"

section \<open>Trusted sources\<close>

fun trusted_loop :: "string list \<Rightarrow> string list \<Rightarrow> proxy_error + string list" where
  "trusted_loop [] out = Inr out"
| "trusted_loop (raw # rest) out =
     (let entry = trim_space raw in
      if entry = [] then trusted_loop rest out
      else if str_contains entry ''/'' \<and> ParseCIDR entry = None then Inl (BadProxyNet entry)
      else if \<not> str_contains entry ''/'' \<and> ParseIP entry = [] then Inl (BadProxyAddr entry)
      else if entry \<in> set out then trusted_loop rest out
      else trusted_loop rest (out @ [entry]))"

definition NormalizeTrustedSources :: "string list \<Rightarrow> proxy_error + string list" where
  "NormalizeTrustedSources entries = trusted_loop entries []"

text \<open>\<open>IPMask.Size\<close> of a mask that \<open>ParseCIDR\<close> made: ones before zeros.\<close>

definition mask_ones :: "u8 list \<Rightarrow> nat" where
  "mask_ones m = length (takeWhile (\<lambda>b. b) (concat (map (\<lambda>b. map (bit b) [7, 6, 5, 4, 3, 2, 1, 0]) m)))"

definition IsUnrestrictedTrust :: "string \<Rightarrow> bool" where
  "IsUnrestrictedTrust raw =
     (let entry = trim_space raw in
      str_contains entry ''/'' \<and>
      (case ParseCIDR entry of None \<Rightarrow> False | Some n \<Rightarrow> mask_ones (net_Mask n) = 0))"

definition HasUnrestrictedTrust :: "string list \<Rightarrow> bool" where
  "HasUnrestrictedTrust entries = list_ex IsUnrestrictedTrust entries"

section \<open>Names of a certificate\<close>

definition normalizeCertName :: "string \<Rightarrow> string" where
  "normalizeCertName s = trim_space s"

definition addDNS :: "string \<Rightarrow> string list \<times> string list \<Rightarrow> string list \<times> string list" where
  "addDNS raw st = (case st of (ds, is) \<Rightarrow>
     (let n = normalizeCertName raw in if n = [] \<or> n \<in> set ds then (ds, is) else (ds @ [n], is)))"

definition addIP :: "string \<Rightarrow> string list \<times> string list \<Rightarrow> string list \<times> string list" where
  "addIP raw st = (case st of (ds, is) \<Rightarrow>
     (let a = ParseIP raw in if a = [] \<or> ip_String a \<in> set is then (ds, is) else (ds, is @ [ip_String a])))"

definition addHost :: "string \<Rightarrow> string list \<times> string list \<Rightarrow> string list \<times> string list" where
  "addHost raw st =
     (let host = normalizeCertName raw; a = ParseIP host in
      if host = [] then st else if a = [] then addDNS host st else if IsUnspecified a then st else addIP host st)"

definition DeriveCertNames :: "string \<Rightarrow> string \<Rightarrow> string list \<Rightarrow> string list \<times> string list" where
  "DeriveCertNames serverName listenAddress extra =
     (let st = addDNS serverName ([], []);
          st = (case SplitHostPort listenAddress of Some (host, _) \<Rightarrow> addHost host st
                | None \<Rightarrow> if listenAddress \<noteq> [] then addHost listenAddress st else st);
          (ds, is) = fold addHost extra st
      in (sort ds, is))"

section \<open>Property lists\<close>

definition escape_char :: "char \<Rightarrow> string" where
  "escape_char r =
     (if r = CHR ''&'' then ''&amp;''
      else if r = CHR ''<'' then ''&lt;''
      else if r = CHR ''>'' then ''&gt;''
      else if r = CHR 0x22 then ''&quot;''
      else if r = CHR 0x27 then ''&apos;''
      else if (of_char r :: nat) < 0x20 \<and> r \<noteq> CHR 0x09 \<and> r \<noteq> CHR 0x0A \<and> r \<noteq> CHR 0x0D then []
      else [r])"

definition escapeXMLText :: "string \<Rightarrow> string" where
  "escapeXMLText s = concat (map escape_char s)"

definition nl :: string where "nl = [CHR 0x0A]"

definition close_line :: "string \<Rightarrow> string" where
  "close_line v = (if has_suffix v nl then v else v @ nl)"

definition plistDict :: "(string \<times> string) list \<Rightarrow> string" where
  "plistDict es = ''<dict>'' @ nl @
     concat (map (\<lambda>(k, v). ''<key>'' @ escapeXMLText k @ ''</key>'' @ nl @ close_line v) es) @ ''</dict>''"

definition plistArray :: "string list \<Rightarrow> string" where
  "plistArray vs = ''<array>'' @ nl @ concat (map close_line vs) @ ''</array>''"

definition plistString :: "string \<Rightarrow> string" where
  "plistString s = ''<string>'' @ escapeXMLText s @ ''</string>''"

definition plistInteger :: "nat \<Rightarrow> string" where
  "plistInteger n = ''<integer>'' @ itoa n @ ''</integer>''"

definition sortedEntries :: "(string \<times> string) list \<Rightarrow> (string \<times> string) list" where
  "sortedEntries m = map (\<lambda>k. (k, plistString (case map_of m k of None \<Rightarrow> [] | Some v \<Rightarrow> v))) (sort (map fst m))"

section \<open>Profiles\<close>

text \<open>\<open>hex.EncodeToString\<close>\<close>

definition hex_bytes :: "u8 list \<Rightarrow> string" where
  "hex_bytes bs = concat (map (\<lambda>b. [hex_char (unat b div 16), hex_char (unat b)]) bs)"

datatype profile_error = UUIDFailed | NoServerName | BadProtocol string | NoServerURL | BadServerURL string | NilConfig

definition sub_range :: "nat \<Rightarrow> nat \<Rightarrow> 'a list \<Rightarrow> 'a list" where
  "sub_range i j xs = drop i (take j xs)"

unbundle bit_operations_syntax

definition set_version :: "u8 list \<Rightarrow> u8 list" where
  "set_version b = (let b1 = b[6 := (b ! 6 AND 0x0f) OR 0x40] in b1[8 := (b1 ! 8 AND 0x3f) OR 0x80])"

definition uuid_format :: "string \<Rightarrow> string" where
  "uuid_format raw = sub_range 0 8 raw @ ''-'' @ sub_range 8 12 raw @ ''-'' @ sub_range 12 16 raw @ ''-'' @
     sub_range 16 20 raw @ ''-'' @ sub_range 20 32 raw"

definition NewUUID :: "u8 list option \<Rightarrow> profile_error + string" where
  "NewUUID rnd = (case rnd of None \<Rightarrow> Inl UUIDFailed | Some b \<Rightarrow> Inr (uuid_format (hex_bytes (set_version b))))"

definition EnsureEncryptedUUID ::
  "u8 list option \<Rightarrow> EncryptedDNSConfig option \<Rightarrow> (profile_error + string) \<times> EncryptedDNSConfig option" where
  "EnsureEncryptedUUID rnd cfg = (case cfg of None \<Rightarrow> (Inl NilConfig, None)
     | Some c \<Rightarrow>
         (let u = trim_space (en_UUID c) in
          if u \<noteq> [] then (Inr u, Some c)
          else case NewUUID rnd of Inl e \<Rightarrow> (Inl e, Some c)
             | Inr u' \<Rightarrow> (Inr u', Some (c\<lparr>en_UUID := u'\<rparr>))))"

record MobileConfigOptions =
  mo_ServerName :: string
  mo_ServerURL :: string
  mo_Protocol :: string
  mo_DisplayName :: string
  mo_Description :: string
  mo_UUID :: string

definition default_display_name :: string where
  "default_display_name = ''DITING '' @ [CHR 0xE5, CHR 0x8A, CHR 0xA0, CHR 0xE5, CHR 0xAF, CHR 0x86] @ '' DNS''"

definition default_description :: string where
  "default_description = [CHR 0xE7, CHR 0x94, CHR 0xB1] @ '' DITING '' @
     [CHR 0xE6, CHR 0x8F, CHR 0x90, CHR 0xE4, CHR 0xBE, CHR 0x9B, CHR 0xE7, CHR 0x9A, CHR 0x84, CHR 0xE5, CHR 0x8A, CHR 0xA0, CHR 0xE5, CHR 0xAF, CHR 0x86] @
     '' DNS '' @ [CHR 0xE8, CHR 0xA7, CHR 0xA3, CHR 0xE6, CHR 0x9E, CHR 0x90, CHR 0xE9, CHR 0x85, CHR 0x8D, CHR 0xE7, CHR 0xBD, CHR 0xAE]"

definition dns_settings :: "string \<Rightarrow> string \<Rightarrow> string \<Rightarrow> profile_error + (string \<times> string) list" where
  "dns_settings protocol url serverName =
     (if protocol = ''HTTPS''
      then (if url = [] then Inl NoServerURL
            else if \<not> has_prefix url ''https://'' then Inl (BadServerURL url)
            else Inr [(''DNSProtocol'', plistString protocol), (''ServerURL'', plistString url), (''ServerName'', plistString serverName)])
      else Inr [(''DNSProtocol'', plistString protocol), (''ServerName'', plistString serverName)])"

definition profile_root :: "string \<Rightarrow> string \<Rightarrow> string \<Rightarrow> (string \<times> string) list \<Rightarrow> string" where
  "profile_root uuid displayName description settings =
     (let payloadID = ''com.diting.encrypted-dns.'' @ uuid;
          payload = plistDict [(''PayloadType'', plistString ''com.apple.dnsSettings.managed''),
            (''PayloadIdentifier'', plistString (payloadID @ ''.dns'')), (''PayloadUUID'', plistString uuid),
            (''PayloadDisplayName'', plistString displayName), (''PayloadVersion'', plistInteger 1),
            (''DNSSettings'', plistDict settings)]
      in plistDict [(''PayloadContent'', plistArray [payload]), (''PayloadType'', plistString ''Configuration''),
           (''PayloadIdentifier'', plistString payloadID), (''PayloadUUID'', plistString uuid),
           (''PayloadDisplayName'', plistString displayName), (''PayloadDescription'', plistString description),
           (''PayloadVersion'', plistInteger 1)])"

definition profile_head :: string where
  "profile_head = ''<?xml version=\"1.0\" encoding=\"UTF-8\"?>'' @ nl @
     ''<!DOCTYPE plist PUBLIC \"-//Apple//DTD PLIST 1.0//EN\" '' @ ''\"http://www.apple.com/DTDs/PropertyList-1.0.dtd\">'' @ nl @
     ''<plist version=\"1.0\">'' @ nl"

definition profile_text :: "string \<Rightarrow> string \<Rightarrow> string \<Rightarrow> (string \<times> string) list \<Rightarrow> string" where
  "profile_text uuid displayName description settings =
     profile_head @ profile_root uuid displayName description settings @ (nl @ ''</plist>'' @ nl)"

definition BuildMobileConfig :: "u8 list option \<Rightarrow> MobileConfigOptions \<Rightarrow> profile_error + string" where
  "BuildMobileConfig rnd opts =
     (let serverName = trim_space (mo_ServerName opts) in
      if serverName = [] then Inl NoServerName
      else
       (let p = to_upper (trim_space (mo_Protocol opts)); protocol = (if p = [] then ''HTTPS'' else p) in
        if protocol \<noteq> ''HTTPS'' \<and> protocol \<noteq> ''TLS'' then Inl (BadProtocol (mo_Protocol opts))
        else case dns_settings protocol (trim_space (mo_ServerURL opts)) serverName of
          Inl e \<Rightarrow> Inl e
        | Inr settings \<Rightarrow>
            (case (if trim_space (mo_UUID opts) \<noteq> [] then Inr (trim_space (mo_UUID opts)) else NewUUID rnd) of
               Inl e \<Rightarrow> Inl e
             | Inr uuid \<Rightarrow>
                 (let d = trim_space (mo_DisplayName opts); ds = trim_space (mo_Description opts) in
                  Inr (profile_text uuid (if d = [] then default_display_name else d)
                         (if ds = [] then default_description else ds) settings)))))"

end
