(* ===== verification/Encrypted_Facts.thy ===== *)
theory Encrypted_Facts
  imports Encrypted_Config Ip_Text
begin

text \<open>
  What holds of the encrypted configuration: normalisation settles, the addresses shown to clients, who is a trusted
  proxy, the names of a certificate, and that texts of a profile survive their escaping.
\<close>

section \<open>Normalisation\<close>

lemma trimNonEmpty_idem [simp]: "trimNonEmpty (trimNonEmpty xs) = trimNonEmpty xs"
proof -
  have "map trim_space (filter (\<lambda>s. s \<noteq> []) (map trim_space xs)) = filter (\<lambda>s. s \<noteq> []) (map trim_space xs)"
    by (induction xs) auto
  then show ?thesis by (simp add: trimNonEmpty_def)
qed

lemma normalize_cert_idem [simp]: "normalize_cert (normalize_cert c) = normalize_cert c"
  by (auto simp: normalize_cert_def IsValidCertSource_def)

lemma NormalizeCertConfig_eq: "NormalizeCertConfig c = normalize_cert c"
  by (simp add: NormalizeCertConfig_def NormalizeEncryptedDNSConfig_def empty_encrypted_def)

lemma NormalizeCertConfig_idem [simp]: "NormalizeCertConfig (NormalizeCertConfig c) = NormalizeCertConfig c"
  by (simp add: NormalizeCertConfig_eq)

lemma default_path_ok: "trim_space DefaultDoHPath = DefaultDoHPath" "DefaultDoHPath \<noteq> []" "has_prefix DefaultDoHPath ''/''"
  by code_simp+

lemma default_name_ok: "trim_space DefaultServerName = DefaultServerName" "DefaultServerName \<noteq> []"
  by code_simp+

lemma default_ports_ok [simp]: "isValidPort DefaultDoTPort" "isValidPort DefaultDoHPort" "isValidPort DefaultDoQPort"
  by code_simp+

lemma slash_path_prefix [simp]: "has_prefix (slash_path s) ''/''"
  using default_path_ok by (auto simp: slash_path_def Let_def has_prefix_def)

lemma slash_path_trim [simp]: "trim_space (slash_path s) = slash_path s"
proof -
  have "trim_space (CHR ''/'' # trim_space s) = CHR ''/'' # trim_space s" if "trim_space s \<noteq> []"
    using that trim_with_ends [of is_space s]
    unfolding trim_space_def by (intro trim_with_id) (auto simp: is_space_def)
  then show ?thesis using default_path_ok by (auto simp: slash_path_def Let_def)
qed

lemma slash_path_idem [simp]: "slash_path (slash_path s) = slash_path s"
proof -
  have "slash_path s \<noteq> []" using slash_path_prefix [of s] by (auto simp: has_prefix_def simp del: slash_path_prefix)
  then show ?thesis by (subst (1) slash_path_def) (simp add: Let_def)
qed

lemma NormalizeEncrypted_idem [simp]:
  "NormalizeEncryptedDNSConfig (NormalizeEncryptedDNSConfig c) = NormalizeEncryptedDNSConfig c"
  using default_name_ok by (auto simp: NormalizeEncryptedDNSConfig_def Let_def)

theorem NormalizeEncryptedDNSConfig_settles:
  "NormalizeEncryptedDNSConfig (NormalizeEncryptedDNSConfig c) = NormalizeEncryptedDNSConfig c \<and>
   isValidPort (en_DoTPort (NormalizeEncryptedDNSConfig c)) \<and> isValidPort (en_DoHPort (NormalizeEncryptedDNSConfig c)) \<and>
   isValidPort (en_DoQPort (NormalizeEncryptedDNSConfig c)) \<and> has_prefix (en_DoHPath (NormalizeEncryptedDNSConfig c)) ''/'' \<and>
   en_ServerName (NormalizeEncryptedDNSConfig c) \<noteq> [] \<and> IsValidCertSource (cr_Source (en_Cert (NormalizeEncryptedDNSConfig c))) \<and>
   1 \<le> cr_ValidDays (en_Cert (NormalizeEncryptedDNSConfig c)) \<and> cr_ValidDays (en_Cert (NormalizeEncryptedDNSConfig c)) \<le> 3650"
proof (intro conjI)
  show "NormalizeEncryptedDNSConfig (NormalizeEncryptedDNSConfig c) = NormalizeEncryptedDNSConfig c" by simp
qed (use default_name_ok in \<open>auto simp: NormalizeEncryptedDNSConfig_def normalize_cert_def IsValidCertSource_def Let_def\<close>)

section \<open>Addresses for clients\<close>

lemma remdups_snoc: "remdups (ys @ [x]) = filter (\<lambda>y. y \<noteq> x) (remdups ys) @ [x]"
  by (induction ys) auto

definition first_occurrences :: "'a list \<Rightarrow> 'a list" where
  "first_occurrences xs = rev (remdups (rev xs))"

lemma first_occurrences_Cons: "first_occurrences (x # xs) = x # filter (\<lambda>y. y \<noteq> x) (first_occurrences xs)"
  by (simp add: first_occurrences_def remdups_snoc rev_filter)

lemma first_occurrences_Nil [simp]: "first_occurrences [] = []"
  by (simp add: first_occurrences_def)

lemma first_occurrences_filter: "first_occurrences (filter P xs) = filter P (first_occurrences xs)"
  by (simp add: first_occurrences_def rev_filter remdups_filter)

lemma set_first_occurrences [simp]: "set (first_occurrences xs) = set xs" "distinct (first_occurrences xs)"
  by (simp_all add: first_occurrences_def)

lemma filter_seen:
  fixes h :: 'a
  shows "h \<in> set seen \<Longrightarrow> filter (\<lambda>x. x \<notin> set seen) (filter (\<lambda>y. y \<noteq> h) ys) = filter (\<lambda>x. x \<notin> set seen) ys"
    "filter (\<lambda>x. x \<notin> set seen) (filter (\<lambda>y. y \<noteq> h) ys) = filter (\<lambda>x. x \<notin> set (h # seen)) ys"
  by (induction ys) auto

lemma doh_loop_eq:
  "doh_loop port path hosts seen out =
     out @ map (doh_url port path) (filter (\<lambda>h. h \<notin> set seen) (first_occurrences (trimNonEmpty hosts)))"
proof (induction hosts arbitrary: seen out)
  case (Cons h hosts)
  show ?case
    using Cons.IH filter_seen(1) [of "trim_space h" seen] filter_seen(2) [of seen "trim_space h"]
    by (auto simp: trimNonEmpty_def first_occurrences_Cons Let_def simp del: filter_filter)
qed (simp add: trimNonEmpty_def)

theorem DoHURLs_eq:
  "DoHURLs hosts port path =
     map (doh_url (if isValidPort port then port else DefaultDoHPort) (slash_path path))
         (first_occurrences (trimNonEmpty hosts))"
  using default_path_ok by (auto simp: DoHURLs_def slash_path_def Let_def doh_loop_eq)

section \<open>Trusted proxies\<close>

text \<open>What an accepted list stands for: its single addresses, printed, and its prefixes.\<close>

definition entry_ip :: "string \<Rightarrow> string option" where
  "entry_ip e = (if str_contains e ''/'' then None else Some (ip_String (norm_ip (ParseIP e))))"

definition entry_net :: "string \<Rightarrow> ip_net option" where
  "entry_net e = (if str_contains e ''/'' then ParseCIDR e else None)"

definition entry_bad :: "string \<Rightarrow> proxy_error option" where
  "entry_bad e =
     (if str_contains e ''/'' then (if ParseCIDR e = None then Some (BadProxyNet e) else None)
      else if ParseIP e = [] then Some (BadProxyAddr e) else None)"

definition first_bad :: "string list \<Rightarrow> proxy_error option" where
  "first_bad entries = (case List.map_filter entry_bad (trimNonEmpty entries) of [] \<Rightarrow> None | e # _ \<Rightarrow> Some e)"

lemma trimNonEmpty_Cons:
  "trimNonEmpty (raw # rest) = (if trim_space raw = [] then trimNonEmpty rest else trim_space raw # trimNonEmpty rest)"
  by (simp add: trimNonEmpty_def)

lemma map_filter_snoc: "List.map_filter f (xs @ ys) = List.map_filter f xs @ List.map_filter f ys"
  by (simp add: map_filter_def)

lemma map_filter_step [simp]:
  "List.map_filter f (x # xs) = (case f x of None \<Rightarrow> List.map_filter f xs | Some y \<Rightarrow> y # List.map_filter f xs)"
  "List.map_filter f [] = []"
  by (simp_all add: map_filter_def split: option.split)

lemma proxy_loop_eq:
  "proxy_loop entries tp =
     (case first_bad entries of Some e \<Rightarrow> Inl e
      | None \<Rightarrow> Inr (tp\<lparr>tp_ips := tp_ips tp @ List.map_filter entry_ip (trimNonEmpty entries),
                       tp_nets := tp_nets tp @ List.map_filter entry_net (trimNonEmpty entries)\<rparr>))"
  by (induction entries tp rule: proxy_loop.induct)
    (auto simp: first_bad_def trimNonEmpty_Cons entry_bad_def entry_ip_def entry_net_def Let_def trimNonEmpty_def [of "[]"]
       split: option.splits list.splits)

lemma trusted_loop_eq:
  "trusted_loop entries out =
     (case first_bad entries of Some e \<Rightarrow> Inl e
      | None \<Rightarrow> Inr (out @ filter (\<lambda>e. e \<notin> set out) (first_occurrences (trimNonEmpty entries))))"
proof (induction entries arbitrary: out)
  case (Cons raw rest)
  let ?h = "trim_space raw"
  have f: "filter (\<lambda>x. x \<notin> set out) (filter (\<lambda>y. y \<noteq> ?h) ys) = filter (\<lambda>x. x \<notin> set (out @ [?h])) ys" for ys
    using filter_seen(2) [of out ?h ys] by simp
  show ?case
    using Cons.IH filter_seen(1) [of ?h out] f
    by (auto simp: first_bad_def trimNonEmpty_Cons entry_bad_def Let_def first_occurrences_Cons
        simp del: filter_filter split: option.splits list.splits)
qed (simp add: first_bad_def trimNonEmpty_def)

lemma map_filter_first: "set (List.map_filter f (first_occurrences xs)) = set (List.map_filter f xs)"
  by (auto simp: map_filter_def)

lemma first_bad_clean:
  assumes "first_bad entries = None"
  shows "first_bad (first_occurrences (trimNonEmpty entries)) = None"
    "trimNonEmpty (first_occurrences (trimNonEmpty entries)) = first_occurrences (trimNonEmpty entries)"
proof -
  have all: "\<forall>s\<in>set (first_occurrences (trimNonEmpty entries)). s \<noteq> [] \<and> trim_space s = s"
    by (auto simp: trimNonEmpty_def)
  have "trimNonEmpty xs = xs" if "\<forall>s\<in>set xs. s \<noteq> [] \<and> trim_space s = s" for xs
    using that by (induction xs) (auto simp: trimNonEmpty_def)
  with all show t: "trimNonEmpty (first_occurrences (trimNonEmpty entries)) = first_occurrences (trimNonEmpty entries)"
    by blast
  have none: "first_bad xs = None \<longleftrightarrow> (\<forall>e\<in>set (trimNonEmpty xs). entry_bad e = None)" for xs
  proof -
    have "List.map_filter f ys = [] \<longleftrightarrow> (\<forall>e\<in>set ys. f e = None)" for f :: "string \<Rightarrow> proxy_error option" and ys
      by (induction ys) (auto split: option.split)
    then show ?thesis by (simp add: first_bad_def list.case_eq_if)
  qed
  show "first_bad (first_occurrences (trimNonEmpty entries)) = None"
    using assms by (simp add: none t)
qed

text \<open>
  The list of trusted sources that is saved and the list the listener is built from are checked alike: both refuse
  the same entry, and the shortened list trusts exactly the addresses that the list as written trusts.
\<close>

theorem trusted_sources_agree:
  "(case NormalizeTrustedSources entries of
      Inl e \<Rightarrow> NewTrustedProxy True entries header = Inl e
    | Inr out \<Rightarrow> distinct out \<and>
        (\<exists>tp tp'. NewTrustedProxy True entries header = Inr tp \<and> NewTrustedProxy True out header = Inr tp' \<and>
           (\<forall>a. Trusts tp a = Trusts tp' a)))"
proof (cases "first_bad entries")
  case None
  note clean = first_bad_clean [OF None]
  show ?thesis
    using None clean by (simp add: map_filter_first NormalizeTrustedSources_def trusted_loop_eq NewTrustedProxy_def proxy_loop_eq Trusts_def list_ex_iff)
qed (simp add: NormalizeTrustedSources_def trusted_loop_eq NewTrustedProxy_def proxy_loop_eq)

text \<open>
  An entry that counts as unrestricted lets every address of its family through.
\<close>

lemma mask_byte_top: "0 < n \<Longrightarrow> bit (mask_byte n) 7"
proof -
  assume n: "0 < n"
  have "list_all (\<lambda>n. bit (mask_byte n) 7) [1..<8]" by code_simp
  then have "n < 8 \<Longrightarrow> bit (mask_byte n) 7" using n by (simp add: list_all_iff)
  moreover have "bit (255 :: u8) 7" by code_simp
  ultimately show ?thesis by (cases "8 \<le> n") (simp_all add: mask_byte_def)
qed

lemma mask_ones_zero:
  assumes "mask_ones (CIDRMask n (8 * l)) = 0" "0 < l"
  shows "n = 0"
proof (rule ccontr)
  assume "n \<noteq> 0"
  then have "bit (mask_byte n) 7" by (simp add: mask_byte_top)
  moreover obtain k where "l = Suc k" using assms(2) gr0_implies_Suc by blast
  ultimately show False
    using assms(1) by (simp add: mask_ones_def CIDRMask_def upt_conv_Cons del: upt_Suc)
qed

lemma CIDRMask_zero: "CIDRMask 0 (8 * l) = replicate l 0"
  by (simp add: CIDRMask_def mask_byte_def map_replicate_const)

lemma and_bytes_zero: "length xs = l \<Longrightarrow> and_bytes xs (replicate l 0) = replicate l 0"
  unfolding and_bytes_def by (induction xs arbitrary: l) auto

lemma To4_zeros: "To4 (replicate 4 0) = replicate 4 0" "To4 (replicate 16 0) = []"
  by code_simp+

lemma unrestricted_net:
  assumes "ParseCIDR e = Some n" "mask_ones (net_Mask n) = 0"
  shows "\<exists>l \<in> {4, 16}. \<forall>a. length (norm_ip a) = l \<longrightarrow> net_Contains n a"
proof -
  obtain b k where b: "parse_addr (takeWhile (\<lambda>c. c \<noteq> CHR ''/'') e) = Some b"
      and n: "n = \<lparr>net_IP = mask_ip b (CIDRMask k (8 * length b)), net_Mask = CIDRMask k (8 * length b)\<rparr>"
    using assms(1) by (auto simp: ParseCIDR_def Let_def split: option.splits if_splits)
  have l: "length b = 4 \<or> length b = 16" by (rule parse_addr_length [OF b])
  then have "0 < length b" by auto
  then have "k = 0" using mask_ones_zero [of k "length b"] assms(2) n by simp
  then have m: "net_Mask n = replicate (length b) 0" using n CIDRMask_zero [of "length b"] by simp
  have b4: "To4 b = b" if "length b = 4" using that by (simp add: To4_def)
  have i: "net_IP n = replicate (length b) 0"
    using l n m b4 by (auto simp: mask_ip_def and_bytes_zero Let_def)
  have "net_Contains n a" if "length (norm_ip a) = length b" for a
    using that l m i To4_zeros
    by (auto simp: net_Contains_def network_number_and_mask_def Let_def and_bytes_zero)
  then show ?thesis using l by auto
qed

theorem unrestricted_trusts_all:
  assumes "IsUnrestrictedTrust e" "e \<in> set entries" "NewTrustedProxy True entries header = Inr tp"
  shows "\<exists>l \<in> {4, 16}. \<forall>a. length (norm_ip a) = l \<longrightarrow> Trusts tp a"
proof -
  obtain n where c: "str_contains (trim_space e) ''/''" "ParseCIDR (trim_space e) = Some n" "mask_ones (net_Mask n) = 0"
    using assms(1) by (auto simp: IsUnrestrictedTrust_def Let_def split: option.splits)
  have "trim_space e \<noteq> []" using c(1) by (auto simp: has_prefix_def)
  then have "trim_space e \<in> set (trimNonEmpty entries)" using assms(2) by (auto simp: trimNonEmpty_def)
  then have "n \<in> set (List.map_filter entry_net (trimNonEmpty entries))"
    using c by (force simp: map_filter_def entry_net_def)
  then have "net_Contains n a \<Longrightarrow> a \<noteq> [] \<Longrightarrow> Trusts tp a" for a
    using assms(3)
    by (auto simp: NewTrustedProxy_def proxy_loop_eq Trusts_def list_ex_iff split: option.splits)
  moreover have "length (norm_ip a) = l \<Longrightarrow> l \<in> {4, 16} \<Longrightarrow> a \<noteq> []" for a l
    by (auto simp: norm_ip_def)
  moreover obtain l where "l \<in> {4, 16}" "\<forall>a. length (norm_ip a) = l \<longrightarrow> net_Contains n a"
    using unrestricted_net [OF c(2,3)] by (rule bexE)
  ultimately have "\<forall>a. length (norm_ip a) = l \<longrightarrow> Trusts tp a" by blast
  then show ?thesis using \<open>l \<in> {4, 16}\<close> by (rule bexI)
qed

theorem unrestricted_trusts_all_witness:
  "\<exists>l \<in> {4, 16}. \<forall>a. length (norm_ip a) = l \<longrightarrow>
     Trusts (Some \<lparr>tp_ips = [''10.0.0.1''], tp_nets = [\<lparr>net_IP = [0, 0, 0, 0], net_Mask = [0, 0, 0, 0]\<rparr>], tp_header = []\<rparr>) a"
  by (rule unrestricted_trusts_all [where e = "''0.0.0.0/0''" and entries = "[''10.0.0.1'', ''0.0.0.0/0'']" and header = "[]"]) code_simp+

lemma mapped_zero: "parse_addr ''::ffff:0:0'' = Some (v4_in_v6_prefix @ [0, 0, 0, 0])"
proof -
  have hex: "hex_value CHR ''f'' = Some 15" by code_simp
  have ff: "parse_group ''ffff'' = Some [255, 255]" by (simp add: parse_group_def hex)
  have z: "parse_group ''0'' = Some [0, 0]" by code_simp
  have c: "cut_ellipsis ''::ffff:0:0'' = Some ([], ''ffff:0:0'')" "colon_parts ''ffff:0:0'' = [''ffff'', ''0'', ''0'']"
    "colon_parts [] = []" "first_sep ''::ffff:0:0'' = Some CHR '':''" by code_simp+
  show ?thesis by (simp add: parse_addr_def parse_ipv6_def c ff z v4_in_v6_prefix_def numeral_eq_Suc)
qed

definition mapped_net :: ip_net where
  "mapped_net = \<lparr>net_IP = v4_in_v6_prefix @ [0, 0, 0, 0], net_Mask = replicate 12 255 @ replicate 4 0\<rparr>"

lemma mapped_prefix: "ParseCIDR ''::ffff:0:0/96'' = Some mapped_net"
proof -
  have a: "takeWhile (\<lambda>c. c \<noteq> CHR ''/'') ''::ffff:0:0/96'' = ''::ffff:0:0''" "dropWhile (\<lambda>c. c \<noteq> CHR ''/'') ''::ffff:0:0/96'' = ''/96''"
    by simp_all
  have d: "digit_value CHR ''9'' = Some 9" "digit_value CHR ''6'' = Some 6" by code_simp+
  have m: "\<lparr>net_IP = mask_ip (v4_in_v6_prefix @ [0, 0, 0, 0]) (CIDRMask 96 128), net_Mask = CIDRMask 96 128\<rparr> = mapped_net" by code_simp
  have l: "length (v4_in_v6_prefix @ [0, 0, 0, 0 :: u8]) = 16" by code_simp
  show ?thesis unfolding ParseCIDR_def Let_def a using m by (simp add: mapped_zero d l del: length_append append_assoc)
qed

lemma mapped_text: "trim_space ''::ffff:0:0/96'' = ''::ffff:0:0/96''" "str_contains ''::ffff:0:0/96'' ''/''"
  by code_simp+

text \<open>
  The converse fails: a prefix of the IPv4-mapped range stands for IPv4 addresses, and the one of length 96
  for all of them, but it does not count as unrestricted, so the warning and the confirmation are skipped.
\<close>

theorem mapped_prefix_unflagged:
  "\<not> HasUnrestrictedTrust [''::ffff:0:0/96''] \<and>
   (\<exists>tp. NewTrustedProxy True [''::ffff:0:0/96''] header = Inr tp \<and> (\<forall>a b c d. Trusts tp [a, b, c, d]))"
proof -
  have "mask_ones (net_Mask mapped_net) \<noteq> 0" by code_simp
  then have "\<not> HasUnrestrictedTrust [''::ffff:0:0/96'']"
    by (simp add: HasUnrestrictedTrust_def IsUnrestrictedTrust_def Let_def mapped_text mapped_prefix)
  moreover have "network_number_and_mask mapped_net = Some ([0, 0, 0, 0], [0, 0, 0, 0])" by code_simp
  then have "net_Contains mapped_net [a, b, c, d]" for a b c d
    by (simp add: net_Contains_def norm_ip_def To4_def and_bytes_def)
  ultimately show ?thesis
    by (simp add: NewTrustedProxy_def Let_def mapped_text mapped_prefix Trusts_def del: str_contains.simps)
qed

section \<open>Names of a certificate\<close>

definition names_ok :: "string list \<times> string list \<Rightarrow> bool" where
  "names_ok st = (case st of (ds, is) \<Rightarrow> distinct ds \<and> distinct is \<and> [] \<notin> set ds \<and>
     (\<forall>i\<in>set is. \<exists>raw. i = ip_String (ParseIP raw) \<and> ParseIP raw \<noteq> [] \<and> \<not> IsUnspecified (ParseIP raw)))"

lemma names_ok_addDNS: "names_ok st \<Longrightarrow> names_ok (addDNS n st)"
  by (auto simp: names_ok_def addDNS_def Let_def split: prod.splits)

lemma names_ok_addHost: "names_ok st \<Longrightarrow> names_ok (addHost h st)"
  using names_ok_addDNS [of st "normalizeCertName h"]
  by (auto simp: addHost_def addIP_def Let_def) (auto simp: names_ok_def split: prod.splits)

lemma names_ok_fold: "names_ok st \<Longrightarrow> names_ok (fold addHost hs st)"
  by (induction hs arbitrary: st) (simp_all add: names_ok_addHost)

lemma names_grow: "set (fst st) \<subseteq> set (fst (addHost h st))" "set (fst st) \<subseteq> set (fst (addDNS h st))"
  by (auto simp: addHost_def addDNS_def addIP_def Let_def split: prod.splits)

lemma names_grow_fold: "set (fst st) \<subseteq> set (fst (fold addHost hs st))"
proof (induction hs arbitrary: st)
  case (Cons h hs)
  then show ?case using names_grow(1) [of st h] by (metis fold_simps(2) order_trans)
qed simp

lemma addDNS_adds: "trim_space n \<noteq> [] \<Longrightarrow> trim_space n \<in> set (fst (addDNS n st))"
  by (auto simp: addDNS_def normalizeCertName_def Let_def split: prod.splits)

text \<open>The names before sorting, with the listen address folded in.\<close>

lemma DeriveCertNames_fold:
  obtains hs where "DeriveCertNames n l x = (let st = fold addHost hs (addDNS n ([], [])) in (sort (fst st), snd st))"
proof (cases "SplitHostPort l")
  case None
  show ?thesis
    by (rule that [of "(if l \<noteq> [] then [l] else []) @ x"]) (simp add: DeriveCertNames_def None Let_def case_prod_beta)
next
  case (Some hp)
  show ?thesis
    by (rule that [of "fst hp # x"]) (simp add: DeriveCertNames_def Some Let_def case_prod_beta)
qed

theorem cert_names_covered:
  "case DeriveCertNames serverName listenAddress extra of (ds, is) \<Rightarrow>
     sorted ds \<and> distinct ds \<and> distinct is \<and> [] \<notin> set ds \<and>
     (trim_space serverName = [] \<or> trim_space serverName \<in> set ds) \<and>
     (\<forall>i. i \<in> set is \<longrightarrow> (\<exists>raw. i = ip_String (ParseIP raw) \<and> ParseIP raw \<noteq> [] \<and> \<not> IsUnspecified (ParseIP raw)))"
proof -
  obtain hs where d: "DeriveCertNames serverName listenAddress extra =
      (let st = fold addHost hs (addDNS serverName ([], [])) in (sort (fst st), snd st))"
    using DeriveCertNames_fold [of serverName listenAddress extra] by blast
  let ?st = "fold addHost hs (addDNS serverName ([], []))"
  have "names_ok ?st"
    by (intro names_ok_fold names_ok_addDNS) (simp add: names_ok_def)
  moreover have "trim_space serverName \<noteq> [] \<Longrightarrow> trim_space serverName \<in> set (fst ?st)"
    using names_grow_fold addDNS_adds by blast
  ultimately show ?thesis
    by (auto simp: d names_ok_def Let_def split: prod.splits)
qed

text \<open>
  A server name that is an address becomes a name of the certificate and not an address of it, whatever
  else it is made for: a client that connects to this address looks for it among the addresses.
\<close>

theorem address_server_name_is_dns_name:
  "DeriveCertNames ''192.168.1.2'' ''0.0.0.0'' [] = ([''192.168.1.2''], [])"
  by code_simp

section \<open>Escaping\<close>

text \<open>How a reader of XML takes the entities back.\<close>

definition entities :: "(string \<times> char) list" where
  "entities = [(''&amp;'', CHR ''&''), (''&lt;'', CHR ''<''), (''&gt;'', CHR ''>''), (''&quot;'', CHR 0x22), (''&apos;'', CHR 0x27)]"

fun unescape :: "string \<Rightarrow> string" where
  "unescape [] = []"
| "unescape (c # s) =
     (case find (\<lambda>(e, _). has_prefix (c # s) e) entities of
        None \<Rightarrow> c # unescape s
      | Some (e, d) \<Rightarrow> d # unescape (drop (length e - 1) s))"

definition xml_char :: "char \<Rightarrow> bool" where
  "xml_char r = (\<not> ((of_char r :: nat) < 0x20 \<and> r \<noteq> CHR 0x09 \<and> r \<noteq> CHR 0x0A \<and> r \<noteq> CHR 0x0D))"

lemma unescape_plain: "c \<noteq> CHR ''&'' \<Longrightarrow> unescape (c # s) = c # unescape s"
  by (simp add: entities_def has_prefix_def)

lemma unescape_entity: "(e, d) \<in> set entities \<Longrightarrow> unescape (e @ s) = d # unescape s"
  by (auto simp: entities_def has_prefix_def)

lemma unescape_char: "unescape (escape_char c @ s) = (if xml_char c then c # unescape s else unescape s)"
proof (cases "\<exists>e. (e, c) \<in> set entities")
  case True
  then have "(escape_char c, c) \<in> set entities" "xml_char c"
    by (auto simp: entities_def escape_char_def xml_char_def)
  then show ?thesis using unescape_entity by simp
next
  case False
  then have "c \<noteq> CHR ''&''" "escape_char c = (if xml_char c then [c] else [])"
    by (auto simp: entities_def escape_char_def xml_char_def)
  then show ?thesis using unescape_plain [of c s] by (simp del: unescape.simps)
qed

theorem escape_roundtrip:
  "unescape (escapeXMLText s) = filter xml_char s \<and> CHR ''<'' \<notin> set (escapeXMLText s) \<and> CHR ''>'' \<notin> set (escapeXMLText s)"
proof -
  have "unescape (escapeXMLText s) = filter xml_char s"
    unfolding escapeXMLText_def by (induction s) (simp_all add: unescape_char del: unescape.simps(2))
  moreover have "CHR ''<'' \<notin> set (escape_char c)" "CHR ''>'' \<notin> set (escape_char c)" for c
    by (auto simp: escape_char_def)
  ultimately show ?thesis by (simp add: escapeXMLText_def)
qed

section \<open>Identifiers and profiles\<close>

lemma hex_bytes_Cons: "hex_bytes (b # bs) = hex_char (unat b div 16) # hex_char (unat b) # hex_bytes bs"
  by (simp add: hex_bytes_def)

lemma hex_bytes_chars: "set (hex_bytes bs) \<subseteq> set ''0123456789abcdef''"
  using hex_char_hex unfolding hex_bytes_def by auto

lemma length_hex_bytes: "length (hex_bytes bs) = 2 * length bs"
  by (induction bs) (simp_all add: hex_bytes_def)

lemma hex_bytes_nth:
  assumes "i < length bs"
  shows "hex_bytes bs ! (2 * i) = hex_char (unat (bs ! i) div 16)" "hex_bytes bs ! (2 * i + 1) = hex_char (unat (bs ! i))"
  using assms by (induction bs arbitrary: i) (auto simp: hex_bytes_Cons nth_Cons split: nat.splits)

lemma set_sub_range: "set (sub_range i j xs) \<subseteq> set xs"
  unfolding sub_range_def by (meson set_drop_subset set_take_subset subset_trans)

lemma length_set_version [simp]: "length (set_version b) = length b"
  by (simp add: set_version_def Let_def)

lemma uuid_chars: "set (uuid_format (hex_bytes r)) \<subseteq> insert CHR ''-'' (set ''0123456789abcdef'')"
proof -
  have "set (sub_range i j (hex_bytes r)) \<subseteq> set ''0123456789abcdef''" for i j
    using set_sub_range hex_bytes_chars by (rule order_trans)
  then show ?thesis
    unfolding uuid_format_def set_append by (intro Un_least) (simp_all add: subset_insertI2)
qed

lemma uuid_not_Nil: "uuid_format raw \<noteq> []"
  by (simp add: uuid_format_def)

lemma uuid_trim: "trim_space (uuid_format (hex_bytes r)) = uuid_format (hex_bytes r)"
proof -
  have "list_all (\<lambda>c. \<not> is_space c) (CHR ''-'' # ''0123456789abcdef'')" by code_simp
  then have "\<not> is_space c" if "c \<in> set (uuid_format (hex_bytes r))" for c
    using that uuid_chars [of r] by (auto simp only: list_all_iff list.set(2) [of "CHR ''-''"])
  then show ?thesis
    unfolding trim_space_def by (intro trim_with_id disjI2 conjI) (simp_all add: uuid_not_Nil)
qed

lemma high_nibble: "unat (x :: u8) div 16 = unat (drop_bit 4 x)"
  by (simp add: drop_bit_eq_div unat_div)

lemma version_bits:
  assumes "length b = 16"
  shows "unat (set_version b ! 6) div 16 = 4" "unat (set_version b ! 8) div 16 \<in> {8, 9, 10, 11}"
proof -
  have "drop_bit 4 ((b ! 6 AND 0x0f) OR 0x40) = (4 :: u8)" by (simp add: drop_bit_or drop_bit_and)
  then show "unat (set_version b ! 6) div 16 = 4"
    using assms unfolding high_nibble by (simp add: set_version_def Let_def)
  define z where "z = drop_bit 4 (b ! 8) AND (3 :: u8)"
  have "drop_bit 4 ((b ! 8 AND 0x3f) OR 0x80) = z OR 8" by (simp add: z_def drop_bit_or drop_bit_and)
  then have e: "unat (set_version b ! 8) div 16 = unat (z OR 8)"
    using assms unfolding high_nibble by (simp add: set_version_def Let_def)
  have "z = take_bit 2 (drop_bit 4 (b ! 8))" by (simp add: z_def take_bit_eq_mask mask_eq_exp_minus_1)
  then have "unat z < 4" by (simp add: take_bit_eq_mod unat_mod)
  then obtain n where "n < 4" "z = word_of_nat n" by (rule that [of "unat z"]) simp_all
  moreover from this(1) have "n \<in> {0, 1, 2, 3}" by auto
  ultimately have "z \<in> {0, 1, 2, 3}" by auto
  then show "unat (set_version b ! 8) div 16 \<in> {8, 9, 10, 11}" unfolding e by auto
qed

text \<open>
  The identifier of a profile has the shape of a version 4 UUID, and once it has been made every later
  request gets the same one, whatever the source of randomness does then.
\<close>

theorem uuid_stable:
  assumes "length b = 16"
  shows "\<exists>u c'. EnsureEncryptedUUID (Some b) (Some c) = (Inr u, Some c') \<and> u \<noteq> [] \<and>
    (trim_space (en_UUID c) = [] \<longrightarrow> length u = 36 \<and> u ! 14 = CHR ''4'' \<and> u ! 19 \<in> set ''89ab'') \<and>
    (\<forall>rnd. EnsureEncryptedUUID rnd (Some c') = (Inr u, Some c'))"
proof (cases "trim_space (en_UUID c) = []")
  case True
  let ?raw = "hex_bytes (set_version b)" let ?u = "uuid_format ?raw"
  have l: "length ?raw = 32" using assms by (simp add: length_hex_bytes)
  have n: "?u ! 14 = ?raw ! (2 * 6)" "?u ! 19 = ?raw ! (2 * 8)"
    using l by (simp_all add: uuid_format_def sub_range_def nth_append)
  have "?u ! 14 = CHR ''4''" "?u ! 19 \<in> set ''89ab''"
    using hex_bytes_nth(1) [of 6 "set_version b"] hex_bytes_nth(1) [of 8 "set_version b"] version_bits [OF assms] assms
    unfolding n by (auto simp: hex_char_def)
  moreover have "length ?u = 36" using l by (simp add: uuid_format_def sub_range_def)
  ultimately show ?thesis
    using True by (auto simp: EnsureEncryptedUUID_def NewUUID_def uuid_trim uuid_not_Nil Let_def)
qed (auto simp: EnsureEncryptedUUID_def Let_def)

definition sample_bytes :: "u8 list" where "sample_bytes = map of_nat [0..<16]"

theorem uuid_stable_witness:
  "\<exists>u c'. EnsureEncryptedUUID (Some sample_bytes) (Some DefaultEncryptedDNSConfig) = (Inr u, Some c') \<and> u \<noteq> [] \<and>
    (trim_space (en_UUID DefaultEncryptedDNSConfig) = [] \<longrightarrow> length u = 36 \<and> u ! 14 = CHR ''4'' \<and> u ! 19 \<in> set ''89ab'') \<and>
    (\<forall>rnd. EnsureEncryptedUUID rnd (Some c') = (Inr u, Some c'))"
  by (rule uuid_stable) (simp add: sample_bytes_def)

text \<open>
  A profile is made exactly when there is a server name, the protocol is one of the two encrypted ones, the address is
  an \<open>https\<close> one where it is needed, and an identifier is at hand; it then names the trimmed server, escaped, as the
  name that certificates are checked against.
\<close>

lemma sublist_dict: "(k, v) \<in> set es \<Longrightarrow> sublist (''<key>'' @ escapeXMLText k @ ''</key>'' @ nl @ v) (plistDict es)"
proof -
  assume "(k, v) \<in> set es"
  then obtain xs ys where es: "es = xs @ (k, v) # ys" by (auto dest: split_list)
  obtain w where w: "close_line v = v @ w" by (cases "has_suffix v nl") (auto simp: close_line_def)
  let ?f = "\<lambda>(k, v). ''<key>'' @ escapeXMLText k @ ''</key>'' @ nl @ close_line v"
  have "plistDict es = (''<dict>'' @ nl @ concat (map ?f xs)) @ (''<key>'' @ escapeXMLText k @ ''</key>'' @ nl @ v) @
      (w @ concat (map ?f ys) @ ''</dict>'')"
    by (simp add: plistDict_def es w)
  then show ?thesis by (metis sublist_appendI)
qed

lemma sublist_value: "(k, v) \<in> set es \<Longrightarrow> sublist v (plistDict es)"
proof -
  assume "(k, v) \<in> set es"
  then have "sublist ((''<key>'' @ escapeXMLText k @ ''</key>'' @ nl) @ v) (plistDict es)"
    using sublist_dict [of k v es] by simp
  then show ?thesis by (rule sublist_order.order.trans [OF sublist_append_leftI])
qed

lemma sublist_array: "sublist v (plistArray [v])"
proof -
  obtain w where w: "close_line v = v @ w" by (cases "has_suffix v nl") (auto simp: close_line_def)
  have "plistArray [v] = (''<array>'' @ nl) @ v @ (w @ ''</array>'')" by (simp add: plistArray_def w)
  then show ?thesis by (metis sublist_appendI)
qed

lemma profile_has_settings: "sublist (plistDict settings) (profile_text u d t settings)"
proof -
  obtain p es where root: "profile_root u d t settings = plistDict ((''PayloadContent'', plistArray [p]) # es)"
      and p: "sublist (plistDict settings) p"
    by (rule that, unfold profile_root_def Let_def, rule refl) (rule sublist_value [of "''DNSSettings''"], simp)
  have "sublist (plistArray [p]) (profile_root u d t settings)"
    unfolding root by (rule sublist_value [of "''PayloadContent''"]) simp
  then have "sublist (plistDict settings) (profile_root u d t settings)"
    using p sublist_array [of p] by (meson sublist_order.order.trans)
  then show ?thesis
    unfolding profile_text_def by (rule sublist_order.order.trans) (rule sublist_appendI)
qed

theorem profile_built:
  "(case BuildMobileConfig rnd o1 of
      Inl e \<Rightarrow> trim_space (mo_ServerName o1) = [] \<or> to_upper (trim_space (mo_Protocol o1)) \<notin> {[], ''HTTPS'', ''TLS''} \<or>
        to_upper (trim_space (mo_Protocol o1)) \<noteq> ''TLS'' \<and> \<not> has_prefix (trim_space (mo_ServerURL o1)) ''https://'' \<or>
        trim_space (mo_UUID o1) = [] \<and> rnd = None
    | Inr t \<Rightarrow> trim_space (mo_ServerName o1) \<noteq> [] \<and> to_upper (trim_space (mo_Protocol o1)) \<in> {[], ''HTTPS'', ''TLS''} \<and>
        (to_upper (trim_space (mo_Protocol o1)) = ''TLS'' \<or> has_prefix (trim_space (mo_ServerURL o1)) ''https://'') \<and>
        sublist (''<key>ServerName</key>'' @ nl @ plistString (trim_space (mo_ServerName o1))) t)"
proof (cases "BuildMobileConfig rnd o1")
  case (Inl e)
  then show ?thesis
    by (auto simp: BuildMobileConfig_def dns_settings_def NewUUID_def Let_def has_prefix_def split: if_splits sum.splits option.splits)
next
  case (Inr t)
  let ?n = "trim_space (mo_ServerName o1)"
  obtain settings u d ds where t: "t = profile_text u d ds settings" and s: "(''ServerName'', plistString ?n) \<in> set settings"
    using Inr by (auto simp: BuildMobileConfig_def dns_settings_def Let_def split: if_splits sum.splits)
  have k: "escapeXMLText ''ServerName'' = ''ServerName''" by code_simp
  have "sublist (''<key>ServerName</key>'' @ nl @ plistString ?n) (plistDict settings)"
    using sublist_dict [OF s] unfolding k by simp
  then have "sublist (''<key>ServerName</key>'' @ nl @ plistString ?n) t"
    unfolding t using profile_has_settings by (rule sublist_order.order.trans)
  then show ?thesis
    using Inr by (auto simp: BuildMobileConfig_def dns_settings_def Let_def split: if_splits sum.splits)
qed

end
