(* ===== verification/Conn_Pool.thy ===== *)
theory Conn_Pool
  imports Upstream_Config
begin

text \<open>
  The encrypted transports to the upstreams (\<open>core/resolver_dot.go\<close>, \<open>core/resolver_doq.go\<close>) with their pools of idle
  connections, the plain transport (\<open>core/resolver_plain.go\<close>), and the exchange over HTTP that DoH and DoH3 share
  (\<open>dohExchangeWithClient\<close> of \<open>core/resolver_doh.go\<close>).

  A connection is an entry of a heap: the name its handshake was made for, the address it leads to, the table of pins it was checked
  against, when it was last put away, and whether it is closed. What the network does is a parameter: whether a connection is
  alive, what a query on it yields, whether a dial succeeds, and whether the context is over at each place where the code looks.
  Each operation of a pool holds its lock; \<open>pool_step\<close> lets the operations of concurrent exchanges interleave.
\<close>

section \<open>The pool\<close>

record conn =
  cn_host :: string
  cn_target :: string
  cn_pins :: PinLookup
  cn_lastUsed :: time
  cn_closed :: bool

record conn_pool =
  po_conns :: "(string \<times> nat list) list"
  po_heap :: "conn list"
  po_pins :: PinLookup
  po_closed :: bool

text \<open>The two pools differ in the number of idle connections for an address, in their age, and in whether a connection is probed
  before it is put away.\<close>

record pool_kind =
  pk_maxIdle :: nat
  pk_idleTimeout :: duration
  pk_probeOnPut :: bool

definition dot_kind :: pool_kind where
  "dot_kind = \<lparr>pk_maxIdle = 4, pk_idleTimeout = 15 * second, pk_probeOnPut = False\<rparr>"

definition doq_kind :: pool_kind where
  "doq_kind = \<lparr>pk_maxIdle = 2, pk_idleTimeout = 30 * second, pk_probeOnPut = True\<rparr>"

definition new_pool :: conn_pool where
  "new_pool = \<lparr>po_conns = [], po_heap = [], po_pins = None, po_closed = False\<rparr>"

definition idle :: "conn_pool \<Rightarrow> string \<Rightarrow> nat list" where
  "idle p t = (case map_of (po_conns p) t of None \<Rightarrow> [] | Some cs \<Rightarrow> cs)"

definition close_conn :: "nat \<Rightarrow> conn list \<Rightarrow> conn list" where
  "close_conn c h = h[c := (h ! c)\<lparr>cn_closed := True\<rparr>]"

definition close_entry :: "nat \<Rightarrow> conn_pool \<Rightarrow> conn_pool" where
  "close_entry c p = p\<lparr>po_heap := close_conn c (po_heap p)\<rparr>"

text \<open>From the last entry on; what cannot be used is closed.\<close>

fun pop_loop :: "(nat \<Rightarrow> bool) \<Rightarrow> duration \<Rightarrow> time \<Rightarrow> nat list \<Rightarrow> conn list \<Rightarrow> nat option \<times> nat list \<times> conn list" where
  "pop_loop alive limit now [] h = (None, [], h)"
| "pop_loop alive limit now (c # rest) h =
     (if \<not> cn_closed (h ! c) \<and> now - cn_lastUsed (h ! c) \<le> limit \<and> alive c then (Some c, rest, h)
      else pop_loop alive limit now rest (close_conn c h))"

definition popIdleConn :: "pool_kind \<Rightarrow> (nat \<Rightarrow> bool) \<Rightarrow> time \<Rightarrow> string \<Rightarrow> conn_pool \<Rightarrow> nat option \<times> conn_pool" where
  "popIdleConn K alive now target p =
     (if po_closed p \<or> idle p target = [] then (None, p)
      else case pop_loop alive (pk_idleTimeout K) now (rev (idle p target)) (po_heap p) of
        (r, entries, h) \<Rightarrow> (r, p\<lparr>po_conns := AList.update target (rev entries) (po_conns p), po_heap := h\<rparr>))"

definition putIdleConn :: "pool_kind \<Rightarrow> (nat \<Rightarrow> bool) \<Rightarrow> time \<Rightarrow> string \<Rightarrow> nat \<Rightarrow> conn_pool \<Rightarrow> conn_pool" where
  "putIdleConn K alive now target c p =
     (if po_closed p \<or> cn_closed (po_heap p ! c) \<or> (pk_probeOnPut K \<and> \<not> alive c) then close_entry c p
      else if length (idle p target) < pk_maxIdle K
      then p\<lparr>po_heap := (po_heap p)[c := (po_heap p ! c)\<lparr>cn_lastUsed := now\<rparr>],
             po_conns := AList.update target (idle p target @ [c]) (po_conns p)\<rparr>
      else close_entry c p)"

definition drain :: "conn_pool \<Rightarrow> conn_pool" where
  "drain p = p\<lparr>po_heap := fold close_conn (concat (map snd (po_conns p))) (po_heap p), po_conns := []\<rparr>"

definition SetPinLookup :: "PinLookup \<Rightarrow> conn_pool \<Rightarrow> conn_pool" where
  "SetPinLookup l p = drain (p\<lparr>po_pins := l\<rparr>)"

text \<open>The bootstrap resolver itself is an argument of the exchange.\<close>

definition SetBootstrap :: "conn_pool \<Rightarrow> conn_pool" where
  "SetBootstrap p = drain p"

text \<open>A second call does nothing.\<close>

definition pool_Close :: "conn_pool \<Rightarrow> conn_pool" where
  "pool_Close p = (if po_closed p then p else drain (p\<lparr>po_closed := True\<rparr>))"

text \<open>A handshake is checked against the pins of the moment the connection is made.\<close>

definition add_conn :: "string \<Rightarrow> string \<Rightarrow> time \<Rightarrow> conn_pool \<Rightarrow> nat \<times> conn_pool" where
  "add_conn host target now p =
     (length (po_heap p),
      p\<lparr>po_heap := po_heap p @ [\<lparr>cn_host = host, cn_target = target, cn_pins = po_pins p, cn_lastUsed = now, cn_closed = False\<rparr>]\<rparr>)"

section \<open>Messages on a stream\<close>

datatype transport_error =
    TransportClosed | ContextOver | DialFailed | ConnClosed | WriteFailed | EmptyURL | RequestFailed | BadStatus nat | ReadBodyFailed
  | BodyTooShort nat | QueryTooShort nat | ReadLengthFailed | BadResponseLength nat | ReadResponseFailed | NonZeroID u16

definition be16 :: "u16 \<Rightarrow> u8 list" where
  "be16 n = [ucast (drop_bit 8 n), ucast n]"

definition doqFrame :: "u8 list \<Rightarrow> u8 list" where
  "doqFrame payload = be16 (of_nat (length payload)) @ payload"

definition read_be16 :: "u8 \<Rightarrow> u8 \<Rightarrow> nat" where
  "read_be16 a b = 256 * unat a + unat b"

text \<open>Two bytes of length, at least \<open>least\<close>, and a message of that length; \<open>stream\<close> is what arrives before the end or the deadline.\<close>

definition read_framed :: "nat \<Rightarrow> u8 list \<Rightarrow> transport_error + u8 list" where
  "read_framed least stream =
     (case stream of
        a # b # rest \<Rightarrow>
          (let n = read_be16 a b in
           if n < least then Inl (BadResponseLength n)
           else if length rest < n then Inl ReadResponseFailed
           else Inr (take n rest))
      | _ \<Rightarrow> Inl ReadLengthFailed)"

definition doqReadFramedResponse :: "dns_lib \<Rightarrow> u8 list \<Rightarrow> transport_error + u8 list" where
  "doqReadFramedResponse L stream =
     (case read_framed 12 stream of
        Inl e \<Rightarrow> Inl e
      | Inr body \<Rightarrow>
          (case Unpack L body of
             Some m \<Rightarrow> if m_Id m \<noteq> 0 then Inl (NonZeroID (m_Id m)) else Inr body
           | None \<Rightarrow> Inr body))"

definition doqNormalizeQuery :: "dns_lib \<Rightarrow> u8 list \<Rightarrow> transport_error + u8 list" where
  "doqNormalizeQuery L raw =
     (if length raw < 12 then Inl (QueryTooShort (length raw))
      else case Unpack L raw of None \<Rightarrow> Inr raw
        | Some m \<Rightarrow> if m_Id m = 0 then Inr raw
            else (case Pack L (m\<lparr>m_Id := 0\<rparr>) of None \<Rightarrow> Inr raw | Some packed \<Rightarrow> Inr packed))"

text \<open>What the network does with bytes that are written: no connection or stream, nothing written, or the bytes that come back.\<close>

datatype net_io = NoConnection | NotWritten | Arrived "u8 list"

text \<open>A failure while the context is over is reported as that, except for a length that is refused.\<close>

definition framed_answer :: "nat \<Rightarrow> bool \<Rightarrow> net_io \<Rightarrow> transport_error + u8 list" where
  "framed_answer least over io =
     (case io of
        NoConnection \<Rightarrow> Inl DialFailed
      | NotWritten \<Rightarrow> Inl (if over then ContextOver else WriteFailed)
      | Arrived stream \<Rightarrow>
          (case read_framed least stream of
             Inr resp \<Rightarrow> Inr resp
           | Inl (BadResponseLength n) \<Rightarrow> Inl (BadResponseLength n)
           | Inl e \<Rightarrow> Inl (if over then ContextOver else e)))"

section \<open>Exchanges\<close>

record conn_env =
  ve_lib :: dns_lib
  ve_alive :: "nat \<Rightarrow> bool"
  ve_io :: "bool \<Rightarrow> nat \<Rightarrow> u8 list \<Rightarrow> net_io"                        \<comment> \<open>under the short deadline of a reused connection or not\<close>
  ve_cut :: "bool \<Rightarrow> nat \<Rightarrow> bool"                                    \<comment> \<open>the context of the query is over when it fails\<close>
  ve_dial :: "string \<Rightarrow> string \<Rightarrow> transport_error option"              \<comment> \<open>connecting and the handshake; \<open>None\<close> when they succeed\<close>
  ve_done :: "nat \<Rightarrow> bool"                                          \<comment> \<open>the context is over, at the given look\<close>
  ve_now :: time

definition executeDoTQuery :: "conn_env \<Rightarrow> bool \<Rightarrow> nat \<Rightarrow> u8 list \<Rightarrow> conn_pool \<Rightarrow> transport_error + u8 list" where
  "executeDoTQuery V probe c raw p =
     (if cn_closed (po_heap p ! c) then Inl ConnClosed
      else framed_answer 12 (ve_cut V probe c) (ve_io V probe c (be16 (of_nat (length raw)) @ raw)))"

definition executeDoQQuery :: "conn_env \<Rightarrow> bool \<Rightarrow> nat \<Rightarrow> u8 list \<Rightarrow> conn_pool \<Rightarrow> transport_error + u8 list" where
  "executeDoQQuery V probe c raw p =
     (if cn_closed (po_heap p ! c) then Inl ConnClosed
      else case doqNormalizeQuery (ve_lib V) raw of Inl e \<Rightarrow> Inl e
      | Inr payload \<Rightarrow>
         (let failed = (\<lambda>e. Inl (if ve_cut V probe c then ContextOver else e)) in
          case ve_io V probe c (doqFrame payload) of
            NoConnection \<Rightarrow> failed DialFailed
          | NotWritten \<Rightarrow> failed WriteFailed
          | Arrived stream \<Rightarrow>
             (case doqReadFramedResponse (ve_lib V) stream of Inl e \<Rightarrow> failed e | Inr resp \<Rightarrow> Inr resp)))"

text \<open>Host, port and the address to connect to; \<open>resolve\<close> is the bootstrap resolver, \<open>None\<close> when it is off or fails.\<close>

definition split_server :: "string \<Rightarrow> string \<Rightarrow> string \<times> string" where
  "split_server server dflt = (case SplitHostPort server of Some (h, p) \<Rightarrow> (h, p) | None \<Rightarrow> (server, dflt))"

definition target_server :: "(string \<Rightarrow> string option) \<Rightarrow> string \<Rightarrow> string \<Rightarrow> string" where
  "target_server resolve host port =
     (let t = (case resolve host of Some a \<Rightarrow> if a \<noteq> [] then a else host | None \<Rightarrow> host)
      in JoinHostPort (trim_brackets t) port)"

definition dialFreshConn :: "conn_env \<Rightarrow> string \<Rightarrow> string \<Rightarrow> conn_pool \<Rightarrow> (transport_error + nat) \<times> conn_pool" where
  "dialFreshConn V host target p =
     (case ve_dial V host target of Some e \<Rightarrow> (Inl e, p)
      | None \<Rightarrow> (let (c, p') = add_conn host target (ve_now V) p in (Inr c, p')))"

text \<open>The end of an exchange: what became of the last query, and where its connection goes.\<close>

definition finish_exchange ::
  "pool_kind \<Rightarrow> conn_env \<Rightarrow> string \<Rightarrow> nat option \<Rightarrow> transport_error + u8 list \<Rightarrow> conn_pool \<Rightarrow> (transport_error + u8 list) \<times> conn_pool" where
  "finish_exchange K V target entry r p =
     (let close = (case entry of None \<Rightarrow> p | Some c \<Rightarrow> close_entry c p) in
      if ve_done V 3 then (Inl ContextOver, close)
      else case r of Inl e \<Rightarrow> (Inl e, close)
        | Inr resp \<Rightarrow> (Inr resp, case entry of None \<Rightarrow> p | Some c \<Rightarrow> putIdleConn K (ve_alive V) (ve_now V) target c p))"

definition dial_and_query ::
  "pool_kind \<Rightarrow> (bool \<Rightarrow> nat \<Rightarrow> u8 list \<Rightarrow> conn_pool \<Rightarrow> transport_error + u8 list) \<Rightarrow> conn_env \<Rightarrow> string \<Rightarrow> string \<Rightarrow> u8 list \<Rightarrow> conn_pool \<Rightarrow> (transport_error + u8 list) \<times> conn_pool" where
  "dial_and_query K run V host target raw p =
     (case dialFreshConn V host target p of
        (Inl e, p') \<Rightarrow> (Inl e, p')
      | (Inr c, p') \<Rightarrow> finish_exchange K V target (Some c) (run False c raw p') p')"

text \<open>\<open>r\<close> is what the attempt on an idle connection left in the variables; without one they are nil.\<close>

definition dot_fresh ::
  "conn_env \<Rightarrow> string \<Rightarrow> string \<Rightarrow> u8 list \<Rightarrow> transport_error + u8 list \<Rightarrow> conn_pool \<Rightarrow> (transport_error + u8 list) \<times> conn_pool" where
  "dot_fresh V host target raw r p =
     (if ve_done V 2 then finish_exchange dot_kind V target None r p else dial_and_query dot_kind (executeDoTQuery V) V host target raw p)"

definition dot_pooled :: "conn_env \<Rightarrow> string \<Rightarrow> string \<Rightarrow> u8 list \<Rightarrow> conn_pool \<Rightarrow> (transport_error + u8 list) \<times> conn_pool" where
  "dot_pooled V host target raw p =
     (case popIdleConn dot_kind (ve_alive V) (ve_now V) target p of
        (None, p1) \<Rightarrow> dot_fresh V host target raw (Inr []) p1
      | (Some c, p1) \<Rightarrow>
          (let r = executeDoTQuery V True c raw p1 in
           if (case r of Inl _ \<Rightarrow> True | Inr _ \<Rightarrow> ve_done V 0)
           then (if ve_done V 1 then (Inl ContextOver, close_entry c p1) else dot_fresh V host target raw r (close_entry c p1))
           else finish_exchange dot_kind V target (Some c) r p1))"

definition doq_fresh :: "conn_env \<Rightarrow> string \<Rightarrow> string \<Rightarrow> u8 list \<Rightarrow> conn_pool \<Rightarrow> (transport_error + u8 list) \<times> conn_pool" where
  "doq_fresh V host target raw p =
     (if ve_done V 2 then (Inl ContextOver, p) else dial_and_query doq_kind (executeDoQQuery V) V host target raw p)"

definition doq_pooled :: "conn_env \<Rightarrow> string \<Rightarrow> string \<Rightarrow> u8 list \<Rightarrow> conn_pool \<Rightarrow> (transport_error + u8 list) \<times> conn_pool" where
  "doq_pooled V host target raw p =
     (case popIdleConn doq_kind (ve_alive V) (ve_now V) target p of
        (None, p1) \<Rightarrow> doq_fresh V host target raw p1
      | (Some c, p1) \<Rightarrow>
          (let r = executeDoQQuery V True c raw p1 in
           if (case r of Inl _ \<Rightarrow> True | Inr _ \<Rightarrow> ve_done V 0)
           then (if ve_done V 1 then (Inl ContextOver, close_entry c p1) else doq_fresh V host target raw (close_entry c p1))
           else (r, putIdleConn doq_kind (ve_alive V) (ve_now V) target c p1)))"

definition dot_Exchange ::
  "conn_env \<Rightarrow> (string \<Rightarrow> string option) \<Rightarrow> u8 list \<Rightarrow> string \<Rightarrow> conn_pool \<Rightarrow> (transport_error + u8 list) \<times> conn_pool" where
  "dot_Exchange V resolve raw server p =
     (if po_closed p then (Inl TransportClosed, p)
      else (let (h, port) = split_server server ''853''; host = trim_brackets h
            in dot_pooled V host (target_server resolve host port) raw p))"

definition doq_Exchange ::
  "conn_env \<Rightarrow> (string \<Rightarrow> string option) \<Rightarrow> u8 list \<Rightarrow> string \<Rightarrow> conn_pool \<Rightarrow> (transport_error + u8 list) \<times> conn_pool" where
  "doq_Exchange V resolve raw server p =
     (if po_closed p then (Inl TransportClosed, p)
      else (let (h, port) = split_server server ''853''; host = trim_brackets h
            in doq_pooled V host (target_server resolve host port) raw p))"

section \<open>Plain and HTTP\<close>

text \<open>The events of one UDP query: each write and each read, whether time is left for a second one, and the looks at the context.\<close>

record udp_io =
  ud_dial :: bool
  ud_write :: "nat \<Rightarrow> bool"
  ud_read :: "nat \<Rightarrow> u8 list option"
  ud_time_left :: bool
  ud_over :: "nat \<Rightarrow> bool"

definition queryUDP :: "udp_io \<Rightarrow> transport_error + u8 list" where
  "queryUDP U =
     (let buf = map_option (take 65535) in
      if \<not> ud_dial U then Inl DialFailed
      else if \<not> ud_write U 1 then Inl (if ud_over U 0 then ContextOver else WriteFailed)
      else case buf (ud_read U 1) of Some d \<Rightarrow> Inr d
      | None \<Rightarrow>
         if ud_over U 1 then Inl ContextOver
         else case (if ud_time_left U \<and> ud_write U 2 then buf (ud_read U 2) else None) of Some d \<Rightarrow> Inr d
         | None \<Rightarrow> Inl (if ud_over U 2 then ContextOver else ReadResponseFailed))"

definition queryTCP :: "(string \<Rightarrow> u8 list \<Rightarrow> net_io) \<Rightarrow> bool \<Rightarrow> u8 list \<Rightarrow> string \<Rightarrow> transport_error + u8 list" where
  "queryTCP tcp over raw target = framed_answer 1 over (tcp target (be16 (of_nat (length raw)) @ raw))"

text \<open>\<open>over 0\<close>: the context is over after the UDP query failed; \<open>over 1\<close>: when the TCP query fails.\<close>

definition plain_Exchange ::
  "dns_lib \<Rightarrow> (string \<Rightarrow> u8 list \<Rightarrow> udp_io) \<Rightarrow> (string \<Rightarrow> u8 list \<Rightarrow> net_io) \<Rightarrow> (nat \<Rightarrow> bool) \<Rightarrow>
   (string \<Rightarrow> string option) \<Rightarrow> u8 list \<Rightarrow> string \<Rightarrow> transport_error + u8 list" where
  "plain_Exchange L udp tcp over resolve raw server =
     (let (host, port) = split_server server ''53''; target = target_server resolve host port in
      case queryUDP (udp target raw) of
        Inr resp \<Rightarrow>
          (case Unpack L resp of
             Some m \<Rightarrow> if m_Truncated m then queryTCP tcp (over 1) raw target else Inr resp
           | None \<Rightarrow> Inr resp)
      | Inl _ \<Rightarrow> if over 0 then Inl ContextOver else queryTCP tcp (over 1) raw target)"

datatype http_outcome = HttpError bool | HttpResponse nat "u8 list option"   \<comment> \<open>an error that mentions \<open>EOF\<close> or not; status and body\<close>

definition doh_response :: "nat \<Rightarrow> u8 list option \<Rightarrow> bool \<Rightarrow> transport_error + u8 list" where
  "doh_response status body over =
     (if status \<noteq> 200 then Inl (BadStatus status)
      else case body of None \<Rightarrow> Inl (if over then ContextOver else ReadBodyFailed)
        | Some b \<Rightarrow> (let b' = take 65535 b in if length b' < 12 then Inl (BodyTooShort (length b')) else Inr b'))"

text \<open>\<open>reply n\<close> is what the client answers at attempt \<open>n\<close>; \<open>over\<close> numbers the looks at the context.\<close>

definition dohExchangeWithClient :: "(nat \<Rightarrow> http_outcome) \<Rightarrow> (nat \<Rightarrow> bool) \<Rightarrow> transport_error + u8 list" where
  "dohExchangeWithClient reply over =
     (if over 0 then Inl ContextOver
      else case reply 1 of
        HttpResponse s b \<Rightarrow> doh_response s b (over 5)
      | HttpError eof \<Rightarrow>
          if over 1 then Inl ContextOver
          else if \<not> eof then Inl RequestFailed
          else if over 2 \<or> over 3 then Inl ContextOver
          else case reply 2 of
            HttpResponse s b \<Rightarrow> doh_response s b (over 5)
          | HttpError _ \<Rightarrow> if over 4 then Inl ContextOver else Inl RequestFailed)"

definition doh_Exchange :: "(string \<Rightarrow> nat \<Rightarrow> http_outcome) \<Rightarrow> (nat \<Rightarrow> bool) \<Rightarrow> string \<Rightarrow> transport_error + u8 list" where
  "doh_Exchange client over dohURL =
     (if trim_space dohURL = [] then Inl EmptyURL else dohExchangeWithClient (client dohURL) over)"

end
