(* ===== verification/Pool_Facts.thy ===== *)
theory Pool_Facts
  imports Conn_Pool
begin

text \<open>
  What the pools of connections guarantee while exchanges overlap: a connection has one user, leads where it is asked to, and
  is not lost; and when a change of pins reaches the connections.
\<close>

section \<open>Steps of concurrent exchanges\<close>

text \<open>The pool, and the connections that some exchange holds.\<close>

type_synonym pool_state = "conn_pool \<times> nat set"

inductive pool_step :: "pool_kind \<Rightarrow> pool_state \<Rightarrow> pool_state \<Rightarrow> bool" for K where
  take_idle: "popIdleConn K alive now t p = (Some c, p') \<Longrightarrow> pool_step K (p, U) (p', insert c U)"
| find_none: "popIdleConn K alive now t p = (None, p') \<Longrightarrow> pool_step K (p, U) (p', U)"
| connect: "add_conn host t now p = (c, p') \<Longrightarrow> pool_step K (p, U) (p', insert c U)"
| put_back: "c \<in> U \<Longrightarrow> t = cn_target (po_heap p ! c) \<Longrightarrow> pool_step K (p, U) (putIdleConn K alive now t c p, U - {c})"
| give_up: "c \<in> U \<Longrightarrow> pool_step K (p, U) (close_entry c p, U - {c})"
| set_pins: "pool_step K (p, U) (SetPinLookup l p, U)"
| set_bootstrap: "pool_step K (p, U) (SetBootstrap p, U)"
| close_flag: "pool_step K (p, U) (p\<lparr>po_closed := True\<rparr>, U)"
| close_drain: "pool_step K (p, U) (drain p, U)"

definition pool_reach :: "pool_kind \<Rightarrow> pool_state \<Rightarrow> bool" where
  "pool_reach K s = (pool_step K)\<^sup>*\<^sup>* (new_pool, {}) s"

text \<open>
  Idle connections are open, lead to the address they are kept for, are kept once, not more than the limit for an address, and nobody
  holds them; an open connection is idle or somebody holds it.
\<close>

definition pool_ok :: "pool_kind \<Rightarrow> pool_state \<Rightarrow> bool" where
  "pool_ok K s = (case s of (p, U) \<Rightarrow>
     (\<forall>t. distinct (idle p t) \<and> length (idle p t) \<le> pk_maxIdle K) \<and>
     (\<forall>t c. c \<in> set (idle p t) \<longrightarrow>
        c < length (po_heap p) \<and> \<not> cn_closed (po_heap p ! c) \<and> cn_target (po_heap p ! c) = t \<and> c \<notin> U) \<and>
     (\<forall>c\<in>U. c < length (po_heap p)) \<and>
     (\<forall>c < length (po_heap p). cn_closed (po_heap p ! c) \<or> c \<in> U \<or> c \<in> set (idle p (cn_target (po_heap p ! c)))))"

lemma pool_okI:
  assumes "\<And>t. distinct (idle p t) \<and> length (idle p t) \<le> pk_maxIdle K"
    and "\<And>t c. c \<in> set (idle p t) \<Longrightarrow>
        c < length (po_heap p) \<and> \<not> cn_closed (po_heap p ! c) \<and> cn_target (po_heap p ! c) = t \<and> c \<notin> U"
    and "\<And>c. c \<in> U \<Longrightarrow> c < length (po_heap p)"
    and "\<And>c. c < length (po_heap p) \<Longrightarrow> cn_closed (po_heap p ! c) \<or> c \<in> U \<or> c \<in> set (idle p (cn_target (po_heap p ! c)))"
  shows "pool_ok K (p, U)"
  using assms by (simp add: pool_ok_def)

lemma pool_okD:
  assumes "pool_ok K (p, U)"
  shows "distinct (idle p t)" "length (idle p t) \<le> pk_maxIdle K"
    "c \<in> set (idle p t) \<Longrightarrow> c < length (po_heap p) \<and> \<not> cn_closed (po_heap p ! c) \<and> cn_target (po_heap p ! c) = t \<and> c \<notin> U"
    "c \<in> U \<Longrightarrow> c < length (po_heap p)"
    "c < length (po_heap p) \<Longrightarrow> cn_closed (po_heap p ! c) \<or> c \<in> U \<or> c \<in> set (idle p (cn_target (po_heap p ! c)))"
  using assms by (simp_all add: pool_ok_def)

section \<open>Closing\<close>

lemma length_close [simp]: "length (close_conn c h) = length h" "length (fold close_conn cs h) = length h"
proof -
  show len: "length (close_conn c h) = length h" for c h by (simp add: close_conn_def)
  show "length (fold close_conn cs h) = length h" by (induction cs arbitrary: h) (simp_all add: len)
qed

lemma close_conn_nth: "i < length h \<Longrightarrow> close_conn c h ! i = (if i = c then (h ! i)\<lparr>cn_closed := True\<rparr> else h ! i)"
  by (auto simp: close_conn_def nth_list_update)

lemma fold_close_nth:
  "i < length h \<Longrightarrow> fold close_conn cs h ! i = (if i \<in> set cs then (h ! i)\<lparr>cn_closed := True\<rparr> else h ! i)"
  by (induction cs arbitrary: h) (auto simp: close_conn_nth)

lemma fold_close_sel [simp]:
  "i < length h \<Longrightarrow> cn_target (fold close_conn cs h ! i) = cn_target (h ! i)"
  "i < length h \<Longrightarrow> cn_pins (fold close_conn cs h ! i) = cn_pins (h ! i)"
  "i < length h \<Longrightarrow> cn_closed (fold close_conn cs h ! i) \<longleftrightarrow> i \<in> set cs \<or> cn_closed (h ! i)"
  by (simp_all add: fold_close_nth)

lemma idle_sel [simp]:
  "idle (p\<lparr>po_heap := h\<rparr>) t = idle p t" "idle (p\<lparr>po_closed := b\<rparr>) t = idle p t" "idle (p\<lparr>po_pins := l\<rparr>) t = idle p t"
  "idle (p\<lparr>po_conns := AList.update u cs (po_conns p)\<rparr>) t = (if t = u then cs else idle p t)"
  "idle (p\<lparr>po_conns := []\<rparr>) t = []"
  by (simp_all add: idle_def update_conv')

lemma pop_loop_spec:
  "pop_loop alive l now es h = (r, es', h') \<Longrightarrow>
   \<exists>ds. h' = fold close_conn ds h \<and> es = ds @ (case r of None \<Rightarrow> [] | Some c \<Rightarrow> c # es') \<and> (r = None \<longrightarrow> es' = []) \<and>
     (\<forall>c. r = Some c \<longrightarrow> \<not> cn_closed (h' ! c) \<and> now - cn_lastUsed (h' ! c) \<le> l \<and> alive c)"
proof (induction es arbitrary: h)
  case (Cons c es)
  show ?case
  proof (cases "\<not> cn_closed (h ! c) \<and> now - cn_lastUsed (h ! c) \<le> l \<and> alive c")
    case True
    then show ?thesis using Cons.prems by (auto intro: exI [of _ "[]"])
  next
    case False
    then have "pop_loop alive l now es (close_conn c h) = (r, es', h')" using Cons.prems by (auto split: if_splits)
    then obtain ds where "h' = fold close_conn ds (close_conn c h) \<and> es = ds @ (case r of None \<Rightarrow> [] | Some c \<Rightarrow> c # es') \<and>
        (r = None \<longrightarrow> es' = []) \<and> (\<forall>c. r = Some c \<longrightarrow> \<not> cn_closed (h' ! c) \<and> now - cn_lastUsed (h' ! c) \<le> l \<and> alive c)"
      using Cons.IH by blast
    then show ?thesis by (intro exI [of _ "c # ds"]) auto
  qed
qed simp

text \<open>What taking a connection does: the dropped ones are closed, the kept ones stay, the taken one is usable.\<close>

lemma pop_spec:
  assumes "popIdleConn K alive now t p = (r, p')"
  shows "\<exists>ds kept. po_heap p' = fold close_conn ds (po_heap p) \<and> idle p t = kept @ (case r of None \<Rightarrow> [] | Some c \<Rightarrow> [c]) @ ds \<and>
    (\<forall>u. idle p' u = (if u = t then kept else idle p u)) \<and> po_pins p' = po_pins p \<and> po_closed p' = po_closed p \<and>
    (\<forall>c. r = Some c \<longrightarrow> \<not> po_closed p \<and> \<not> cn_closed (po_heap p' ! c) \<and> now - cn_lastUsed (po_heap p' ! c) \<le> pk_idleTimeout K \<and> alive c)"
proof (cases "po_closed p \<or> idle p t = []")
  case True
  then show ?thesis using assms by (intro exI [of _ "[]"] exI [of _ "idle p t"]) (auto simp: popIdleConn_def)
next
  case False
  obtain es' h' where l: "pop_loop alive (pk_idleTimeout K) now (rev (idle p t)) (po_heap p) = (r, es', h')"
      and p': "p' = p\<lparr>po_conns := AList.update t (rev es') (po_conns p), po_heap := h'\<rparr>"
    using assms False by (auto simp: popIdleConn_def split: prod.splits)
  from pop_loop_spec [OF l] obtain ds where d: "h' = fold close_conn ds (po_heap p)"
      "rev (idle p t) = ds @ (case r of None \<Rightarrow> [] | Some c \<Rightarrow> c # es')" "r = None \<longrightarrow> es' = []"
      "\<forall>c. r = Some c \<longrightarrow> \<not> cn_closed (h' ! c) \<and> now - cn_lastUsed (h' ! c) \<le> pk_idleTimeout K \<and> alive c"
    by blast
  have "idle p t = rev es' @ (case r of None \<Rightarrow> [] | Some c \<Rightarrow> [c]) @ rev ds"
    using arg_cong [OF d(2), of rev] d(3) by (cases r) simp_all
  moreover have "fold close_conn (rev ds) (po_heap p) = h'"
    unfolding d(1) by (rule nth_equalityI) (simp_all add: fold_close_nth)
  ultimately show ?thesis
    using p' d False by (intro exI [of _ "rev ds"] exI [of _ "rev es'"]) auto
qed

section \<open>Steps keep the invariant\<close>

lemma pool_ok_pop:
  assumes "pool_ok K (p, U)" "popIdleConn K alive now t p = (r, p')"
  shows "pool_ok K (p', case r of None \<Rightarrow> U | Some c \<Rightarrow> insert c U)"
proof -
  obtain ds kept where h: "po_heap p' = fold close_conn ds (po_heap p)" and e: "idle p t = kept @ (case r of None \<Rightarrow> [] | Some c \<Rightarrow> [c]) @ ds"
      and i: "\<And>u. idle p' u = (if u = t then kept else idle p u)"
    using pop_spec [OF assms(2)] by blast
  note ok = pool_okD [OF assms(1)]
  let ?U = "case r of None \<Rightarrow> U | Some c \<Rightarrow> insert c U"
  have d: "distinct (kept @ (case r of None \<Rightarrow> [] | Some c \<Rightarrow> [c]) @ ds)" using ok(1) [of t] e by simp
  have other: "c \<notin> set (idle p t)" if "c \<in> set (idle p u)" "u \<noteq> t" for c u
    using ok(3) [of c u] ok(3) [of c t] that by blast
  show ?thesis
  proof (rule pool_okI)
    fix u show "distinct (idle p' u) \<and> length (idle p' u) \<le> pk_maxIdle K"
      using ok(1,2) [of u] ok(2) [of t] d e by (auto simp: i)
  next
    fix u c assume c: "c \<in> set (idle p' u)"
    then have u: "c \<in> set (idle p u)" using e by (auto simp: i split: if_splits)
    have "c \<notin> set ds" using c u d e other [of c u] by (auto simp: i split: if_splits)
    moreover have "c \<notin> ?U" using c u d e ok(3) [OF u] other [of c u] by (auto simp: i split: if_splits option.splits)
    ultimately show "c < length (po_heap p') \<and> \<not> cn_closed (po_heap p' ! c) \<and> cn_target (po_heap p' ! c) = u \<and> c \<notin> ?U"
      using ok(3) [OF u] by (simp add: h)
  next
    fix c assume "c \<in> ?U"
    then show "c < length (po_heap p')" using ok(4) [of c] ok(3) [of c t] e by (auto simp: h split: option.splits)
  next
    fix c assume c: "c < length (po_heap p')"
    have "c \<in> set ds \<or> c \<in> ?U \<or> c \<in> set kept" if "c \<in> set (idle p t)"
      using that e by (auto split: option.splits)
    then show "cn_closed (po_heap p' ! c) \<or> c \<in> ?U \<or> c \<in> set (idle p' (cn_target (po_heap p' ! c)))"
      using ok(5) [of c] c by (auto simp: h i split: option.splits)
  qed
qed

lemma pool_ok_connect:
  assumes "pool_ok K (p, U)" "add_conn host t now p = (c, p')"
  shows "pool_ok K (p', insert c U)"
proof -
  note ok = pool_okD [OF assms(1)]
  have p': "c = length (po_heap p)"
      "p' = p\<lparr>po_heap := po_heap p @ [\<lparr>cn_host = host, cn_target = t, cn_pins = po_pins p, cn_lastUsed = now, cn_closed = False\<rparr>]\<rparr>"
    using assms(2) by (simp_all add: add_conn_def)
  show ?thesis
    by (rule pool_okI) (use ok(1,2) ok(3) ok(4) ok(5) in \<open>force simp: p' nth_append less_Suc_eq\<close>)+
qed

lemma pool_ok_give_up:
  assumes "pool_ok K (p, U)" "c \<in> U"
  shows "pool_ok K (close_entry c p, U - {c})"
proof -
  note ok = pool_okD [OF assms(1)]
  show ?thesis
  proof (rule pool_okI)
    fix t d assume "d \<in> set (idle (close_entry c p) t)"
    then show "d < length (po_heap (close_entry c p)) \<and> \<not> cn_closed (po_heap (close_entry c p) ! d) \<and>
        cn_target (po_heap (close_entry c p) ! d) = t \<and> d \<notin> U - {c}"
      using ok(3) [of d t] assms(2) by (auto simp: close_entry_def close_conn_nth)
  next
    fix d assume "d < length (po_heap (close_entry c p))"
    then show "cn_closed (po_heap (close_entry c p) ! d) \<or> d \<in> U - {c} \<or> d \<in> set (idle (close_entry c p) (cn_target (po_heap (close_entry c p) ! d)))"
      using ok(5) [of d] by (auto simp: close_entry_def close_conn_nth)
  qed (use ok(1,2,4) in \<open>auto simp: close_entry_def\<close>)
qed

lemma pool_ok_put:
  assumes "pool_ok K (p, U)" "c \<in> U" "t = cn_target (po_heap p ! c)"
  shows "pool_ok K (putIdleConn K alive now t c p, U - {c})"
proof (cases "po_closed p \<or> cn_closed (po_heap p ! c) \<or> (pk_probeOnPut K \<and> \<not> alive c) \<or> \<not> length (idle p t) < pk_maxIdle K")
  case True
  then have "putIdleConn K alive now t c p = close_entry c p" by (auto simp: putIdleConn_def)
  then show ?thesis using pool_ok_give_up [OF assms(1,2)] by simp
next
  case False
  note ok = pool_okD [OF assms(1)]
  let ?h = "(po_heap p)[c := (po_heap p ! c)\<lparr>cn_lastUsed := now\<rparr>]"
  let ?p = "p\<lparr>po_heap := ?h, po_conns := AList.update t (idle p t @ [c]) (po_conns p)\<rparr>"
  have p': "putIdleConn K alive now t c p = ?p" using False by (auto simp: putIdleConn_def)
  have i: "idle ?p u = (if u = t then idle p t @ [c] else idle p u)" for u by (simp add: idle_def update_conv')
  have h: "d < length (po_heap p) \<Longrightarrow> cn_closed (?h ! d) = cn_closed (po_heap p ! d) \<and> cn_target (?h ! d) = cn_target (po_heap p ! d)" for d
    by (cases "d = c") simp_all
  have c: "c < length (po_heap p)" "\<not> cn_closed (po_heap p ! c)" "c \<notin> set (idle p u)" for u
    using ok(4) [OF assms(2)] False ok(3) [of c u] assms(2) by auto
  show ?thesis
    unfolding p'
  proof (rule pool_okI)
    fix u show "distinct (idle ?p u) \<and> length (idle ?p u) \<le> pk_maxIdle K"
      unfolding i using ok(1,2) [of u] ok(1) [of t] c(3) [of t] False by auto
  next
    fix u d assume "d \<in> set (idle ?p u)"
    then have "d \<in> set (idle p u) \<or> d = c \<and> u = t" unfolding i by (auto split: if_splits)
    then show "d < length (po_heap ?p) \<and> \<not> cn_closed (po_heap ?p ! d) \<and> cn_target (po_heap ?p ! d) = u \<and> d \<notin> U - {c}"
      using ok(3) [of d u] c h [of d] assms(3) by auto
  next
    fix d assume "d < length (po_heap ?p)"
    then have l: "d < length (po_heap p)" by simp
    show "cn_closed (po_heap ?p ! d) \<or> d \<in> U - {c} \<or> d \<in> set (idle ?p (cn_target (po_heap ?p ! d)))"
      unfolding i using ok(5) [OF l] h [OF l] assms(3) by auto
  qed (use ok(4) in auto)
qed

lemma pool_ok_drain:
  assumes "pool_ok K (p, U)"
  shows "pool_ok K (drain p, U)"
proof -
  note ok = pool_okD [OF assms]
  have i: "idle (drain p) t = []" for t by (simp add: drain_def idle_def)
  have "idle p t = [] \<or> (t, idle p t) \<in> set (po_conns p)" for t
    by (auto simp: idle_def dest: map_of_SomeD split: option.splits)
  then have "c \<in> set (idle p t) \<Longrightarrow> c \<in> set (concat (map snd (po_conns p)))" for c t by force
  then show ?thesis
    by (intro pool_okI) (use ok(4,5) in \<open>auto simp: i drain_def simp del: set_concat\<close>)
qed

lemma pool_ok_flags: "pool_ok K (p\<lparr>po_pins := l\<rparr>, U) = pool_ok K (p, U)" "pool_ok K (p\<lparr>po_closed := b\<rparr>, U) = pool_ok K (p, U)"
  by (simp_all add: pool_ok_def)

lemma pool_ok_step: "pool_step K s s' \<Longrightarrow> pool_ok K s \<Longrightarrow> pool_ok K s'"
proof (induction rule: pool_step.induct)
  case (take_idle alive now t p c p' U)
  then show ?case using pool_ok_pop [of K p U alive now t "Some c" p'] by simp
next
  case (find_none alive now t p p' U)
  then show ?case using pool_ok_pop [of K p U alive now t None p'] by simp
qed (simp_all add: pool_ok_connect pool_ok_put pool_ok_give_up pool_ok_drain SetPinLookup_def SetBootstrap_def pool_ok_flags)

lemma pool_ok_reach: "pool_reach K s \<Longrightarrow> pool_ok K s"
  unfolding pool_reach_def
proof (induction rule: rtranclp_induct)
  case base
  show ?case by (simp add: pool_ok_def new_pool_def idle_def)
next
  case (step s s')
  then show ?case using pool_ok_step by blast
qed

text \<open>
  C27. While exchanges overlap in any order, a connection that is taken from a pool leads to the address asked for, is open, has not been
  idle for too long, and nobody else holds it; at most four connections (DoT) or two (DoQ) are idle for an address; and every connection that is still
  open is idle or held, so none is lost.
\<close>

theorem pooled_connection_exclusive:
  assumes "pool_reach K (p, U)" "popIdleConn K alive now t p = (Some c, p')"
  shows "c \<notin> U \<and> cn_target (po_heap p' ! c) = t \<and> \<not> cn_closed (po_heap p' ! c) \<and> alive c \<and>
    now - cn_lastUsed (po_heap p' ! c) \<le> pk_idleTimeout K \<and> c \<notin> set (idle p' t) \<and> length (idle p' t) \<le> pk_maxIdle K \<and>
    (\<forall>d. d < length (po_heap p') \<longrightarrow> cn_closed (po_heap p' ! d) \<or> d \<in> insert c U \<or> d \<in> set (idle p' (cn_target (po_heap p' ! d))))"
proof -
  have ok: "pool_ok K (p, U)" using assms(1) by (rule pool_ok_reach)
  have ok': "pool_ok K (p', insert c U)" using pool_ok_pop [OF ok assms(2)] by simp
  obtain ds kept where s: "po_heap p' = fold close_conn ds (po_heap p)" "idle p t = kept @ [c] @ ds"
      "\<not> cn_closed (po_heap p' ! c)" "now - cn_lastUsed (po_heap p' ! c) \<le> pk_idleTimeout K" "alive c"
    using pop_spec [OF assms(2)] by auto
  have "c \<in> set (idle p t)" using s(2) by simp
  then have "c \<notin> U" "cn_target (po_heap p' ! c) = t" using pool_okD(3) [OF ok, of c t] s(1) by auto
  then show ?thesis
    using s(3-5) pool_okD(2,3,5) [OF ok'] by blast
qed

section \<open>Pins\<close>

text \<open>
  Pins reach the connections when nobody holds one at the moment they change: from then on, until they change again, every connection
  that is taken from the pool was checked against them.
\<close>

definition pins_current :: "pool_state \<Rightarrow> bool" where
  "pins_current s = (case s of (p, U) \<Rightarrow> \<forall>c < length (po_heap p). cn_closed (po_heap p ! c) \<or> cn_pins (po_heap p ! c) = po_pins p)"

inductive pool_quiet :: "pool_kind \<Rightarrow> pool_state \<Rightarrow> pool_state \<Rightarrow> bool" for K where
  here: "pool_quiet K s s"
| next_step: "pool_quiet K s s' \<Longrightarrow> pool_step K s' s'' \<Longrightarrow> po_pins (fst s'') = po_pins (fst s') \<Longrightarrow> pool_quiet K s s''"

lemma drain_sel [simp]: "po_pins (drain p) = po_pins p" "length (po_heap (drain p)) = length (po_heap p)"
  by (simp_all add: drain_def)

lemma drain_nth: "c < length (po_heap p) \<Longrightarrow> cn_pins (po_heap (drain p) ! c) = cn_pins (po_heap p ! c)"
  "c < length (po_heap p) \<Longrightarrow> cn_closed (po_heap p ! c) \<Longrightarrow> cn_closed (po_heap (drain p) ! c)"
  by (simp_all add: drain_def)

lemma pins_current_mono:
  assumes "pins_current (p, U)" "po_pins p' = po_pins p" "length (po_heap p') = length (po_heap p)"
    and "\<And>c. c < length (po_heap p) \<Longrightarrow> cn_pins (po_heap p' ! c) = cn_pins (po_heap p ! c) \<and>
      (cn_closed (po_heap p ! c) \<longrightarrow> cn_closed (po_heap p' ! c))"
  shows "pins_current (p', U')"
  using assms unfolding pins_current_def by fastforce

lemma put_size [simp]:
  "po_pins (putIdleConn K alive now t c p) = po_pins p" "length (po_heap (putIdleConn K alive now t c p)) = length (po_heap p)"
  by (simp_all add: putIdleConn_def close_entry_def)

lemma put_sel:
  assumes "d < length (po_heap p)"
  shows "cn_pins (po_heap (putIdleConn K alive now t c p) ! d) = cn_pins (po_heap p ! d)"
    "cn_closed (po_heap p ! d) \<Longrightarrow> cn_closed (po_heap (putIdleConn K alive now t c p) ! d)"
  using assms by (cases "d = c"; simp add: putIdleConn_def close_entry_def close_conn_nth)+

lemma pins_current_step:
  assumes "pool_step K s s'" "pins_current s" "po_pins (fst s') = po_pins (fst s)"
  shows "pins_current s'"
  using assms
proof (induction rule: pool_step.induct)
  case (take_idle alive now t p c p' U)
  show ?case by (rule pins_current_mono [OF take_idle(2)]) (use pop_spec [OF take_idle(1)] in auto)
next
  case (find_none alive now t p p' U)
  show ?case by (rule pins_current_mono [OF find_none(2)]) (use pop_spec [OF find_none(1)] in auto)
next
  case (connect host t now p c p' U)
  have "cn_closed (po_heap p' ! d) \<or> cn_pins (po_heap p' ! d) = po_pins p'" if "d < length (po_heap p')" for d
    using that connect(1,2) unfolding pins_current_def add_conn_def by (cases "d < length (po_heap p)") (auto simp: nth_append)
  then show ?case by (simp add: pins_current_def)
next
  case (put_back c U t p alive now)
  show ?case
    by (rule pins_current_mono [OF put_back(3)]) (simp_all add: put_sel)
next
  case (give_up c U p)
  show ?case by (rule pins_current_mono [OF give_up(2)]) (simp_all add: close_entry_def close_conn_nth)
next
  case (set_pins p U l)
  then show ?case
    by (intro pins_current_mono [OF set_pins(1)]) (auto simp: SetPinLookup_def drain_def)
next
  case (set_bootstrap p U)
  show ?case by (rule pins_current_mono [OF set_bootstrap(1)]) (simp_all add: SetBootstrap_def drain_nth)
next
  case (close_drain p U)
  show ?case by (rule pins_current_mono [OF close_drain(1)]) (simp_all add: drain_nth)
next
  case (close_flag p U)
  show ?case by (rule pins_current_mono [OF close_flag(1)]) simp_all
qed

lemma set_pins_current:
  assumes "pool_ok K (p, {})"
  shows "pins_current (SetPinLookup l p, U)"
proof -
  have "cn_closed (po_heap (SetPinLookup l p) ! c)" if "c < length (po_heap p)" for c
  proof -
    have "pool_ok K (drain (p\<lparr>po_pins := l\<rparr>), {})" using assms by (simp add: pool_ok_drain pool_ok_flags)
    from pool_okD(5) [OF this, of c] that show ?thesis by (simp add: SetPinLookup_def drain_def idle_def)
  qed
  then show ?thesis by (simp add: pins_current_def SetPinLookup_def)
qed

theorem pins_reach_connections:
  assumes "pool_reach K (p, {})" "pool_quiet K (SetPinLookup l p, {}) (q, U)" "popIdleConn K alive now t q = (Some c, q')"
  shows "cn_pins (po_heap q' ! c) = po_pins q'"
proof -
  have "pins_current (q, U) \<and> pool_reach K (q, U)"
    using assms(2)
  proof (induction "(SetPinLookup l p, {} :: nat set)" "(q, U)" arbitrary: q U rule: pool_quiet.induct)
    case here
    show ?case
      using assms(1) pool_step.set_pins [of K p "{}" l] set_pins_current [OF pool_ok_reach [OF assms(1)]]
      unfolding pool_reach_def by (simp add: rtranclp.rtrancl_into_rtrancl)
  next
    case (next_step s')
    then show ?case
      using pins_current_step [OF next_step(3)] unfolding pool_reach_def
      by (cases s') (auto intro: rtranclp.rtrancl_into_rtrancl)
  qed
  moreover have "\<not> cn_closed (po_heap q' ! c)" using pop_spec [OF assms(3)] by auto
  moreover have "pins_current (q', insert c U)"
    using pins_current_step [OF pool_step.take_idle [OF assms(3)]] calculation(1) pop_spec [OF assms(3)] by auto
  moreover have "c < length (po_heap q')"
    using pool_okD(4) [OF pool_ok_pop [OF pool_ok_reach assms(3)], of U c] calculation(1) by simp
  ultimately show ?thesis by (auto simp: pins_current_def)
qed

lemma pins_reach_connections_run:
  "pool_reach dot_kind (new_pool, {})"
  "pool_quiet dot_kind (SetPinLookup (Some [(''h'', [1])]) new_pool, {}) (putIdleConn dot_kind (\<lambda>_. True) 0 ''t'' 0 (snd (add_conn ''h'' ''t'' 0 (SetPinLookup (Some [(''h'', [1])]) new_pool))), {})"
proof -
  show "pool_reach dot_kind (new_pool, {})" by (simp add: pool_reach_def)
  let ?p = "SetPinLookup (Some [(''h'', [1])]) new_pool" let ?q = "snd (add_conn ''h'' ''t'' 0 ?p)"
  have "pool_step dot_kind (?p, {}) (?q, insert 0 {})"
    by (rule pool_step.connect [of "''h''" "''t''" 0]) (simp add: add_conn_def SetPinLookup_def drain_def new_pool_def)
  then have "pool_quiet dot_kind (?p, {}) (?q, {0})"
    by (rule pool_quiet.next_step [OF pool_quiet.here]) (simp add: add_conn_def)
  moreover have "pool_step dot_kind (?q, {0}) (putIdleConn dot_kind (\<lambda>_. True) 0 ''t'' 0 ?q, {0} - {0})"
    by (rule pool_step.put_back) (simp_all add: add_conn_def SetPinLookup_def drain_def new_pool_def)
  ultimately show "pool_quiet dot_kind (?p, {}) (putIdleConn dot_kind (\<lambda>_. True) 0 ''t'' 0 ?q, {})"
    using pool_quiet.next_step [of dot_kind "(?p, {})" "(?q, {0})"] by simp
qed

definition pinned_pool :: conn_pool where
  "pinned_pool = putIdleConn dot_kind (\<lambda>_. True) 0 ''t'' 0 (snd (add_conn ''h'' ''t'' 0 (SetPinLookup (Some [(''h'', [1])]) new_pool)))"

lemma pinned_pool_pop: "popIdleConn dot_kind (\<lambda>_. True) 1 ''t'' pinned_pool = (Some 0, snd (popIdleConn dot_kind (\<lambda>_. True) 1 ''t'' pinned_pool))"
  by code_simp

theorem pins_reach_connections_witness:
  "cn_pins (po_heap (snd (popIdleConn dot_kind (\<lambda>_. True) 1 ''t'' pinned_pool)) ! 0) = po_pins (snd (popIdleConn dot_kind (\<lambda>_. True) 1 ''t'' pinned_pool))"
  by (rule pins_reach_connections [OF pins_reach_connections_run]) (fold pinned_pool_def, rule pinned_pool_pop)

lemma pinned_pool_reach: "pool_reach dot_kind (pinned_pool, {})"
proof -
  have "pool_reach dot_kind s" if "pool_quiet dot_kind s0 s" "pool_reach dot_kind s0" for s0 s
    using that by induction (auto simp: pool_reach_def intro: rtranclp.rtrancl_into_rtrancl)
  moreover have "pool_reach dot_kind (SetPinLookup (Some [(''h'', [1])]) new_pool, {})"
    unfolding pool_reach_def by (rule r_into_rtranclp, rule pool_step.set_pins)
  ultimately show ?thesis unfolding pinned_pool_def using pins_reach_connections_run(2) by blast
qed

theorem pooled_connection_exclusive_witness:
  "(0::nat) \<notin> {} \<and> cn_target (po_heap (snd (popIdleConn dot_kind (\<lambda>_. True) 1 ''t'' pinned_pool)) ! 0) = ''t'' \<and>
    \<not> cn_closed (po_heap (snd (popIdleConn dot_kind (\<lambda>_. True) 1 ''t'' pinned_pool)) ! 0) \<and> (\<lambda>_ :: nat. True) 0 \<and>
    1 - cn_lastUsed (po_heap (snd (popIdleConn dot_kind (\<lambda>_. True) 1 ''t'' pinned_pool)) ! 0) \<le> pk_idleTimeout dot_kind \<and>
    0 \<notin> set (idle (snd (popIdleConn dot_kind (\<lambda>_. True) 1 ''t'' pinned_pool)) ''t'') \<and>
    length (idle (snd (popIdleConn dot_kind (\<lambda>_. True) 1 ''t'' pinned_pool)) ''t'') \<le> pk_maxIdle dot_kind"
  using pooled_connection_exclusive [OF pinned_pool_reach pinned_pool_pop] by blast

text \<open>
  A connection that is in use while the pins change escapes: it is put away afterwards and taken again, and was never checked
  against the new pins.
\<close>

theorem stale_pins_reused:
  "\<exists>p U c p'. pool_reach dot_kind (p, U) \<and> popIdleConn dot_kind (\<lambda>_. True) 1 ''t'' p = (Some c, p') \<and>
     po_pins p' = Some [(''h'', [1])] \<and> cn_pins (po_heap p' ! c) = None"
proof -
  let ?q = "snd (add_conn ''h'' ''t'' 0 new_pool)" let ?r = "SetPinLookup (Some [(''h'', [1])]) ?q"
  let ?s = "putIdleConn dot_kind (\<lambda>_. True) 0 ''t'' 0 ?r"
  have "pool_step dot_kind (new_pool, {}) (?q, {0})"
    using pool_step.connect [of "''h''" "''t''" 0 new_pool 0 ?q] by (simp add: add_conn_def new_pool_def)
  moreover have "pool_step dot_kind (?q, {0}) (?r, {0})" by (rule pool_step.set_pins)
  moreover have "pool_step dot_kind (?r, {0}) (?s, {0} - {0})"
    by (rule pool_step.put_back) (simp_all add: add_conn_def SetPinLookup_def drain_def new_pool_def)
  ultimately have "pool_reach dot_kind (?s, {})"
    unfolding pool_reach_def by (simp add: rtranclp.rtrancl_into_rtrancl)
  moreover have "fst (popIdleConn dot_kind (\<lambda>_. True) 1 ''t'' ?s) = Some 0"
    "po_pins (snd (popIdleConn dot_kind (\<lambda>_. True) 1 ''t'' ?s)) = Some [(''h'', [1])]"
    "cn_pins (po_heap (snd (popIdleConn dot_kind (\<lambda>_. True) 1 ''t'' ?s)) ! 0) = None"
    by code_simp+
  ultimately show ?thesis by (metis prod.collapse)
qed

section \<open>Exchanges\<close>

lemma finish_ok:
  assumes "pool_ok K (p, insert c U)" "c \<notin> U" "cn_target (po_heap p ! c) = t"
  shows "pool_ok K (snd (finish_exchange K V t (Some c) r p), U)"
proof -
  have "insert c U - {c} = U" using assms(2) by simp
  then show ?thesis
    using pool_ok_give_up [OF assms(1), of c] pool_ok_put [OF assms(1), of c t] assms(3)
    by (auto simp: finish_exchange_def Let_def split: sum.splits)
qed

lemma dial_ok:
  assumes "pool_ok K (p, U)"
  shows "pool_ok K (snd (dial_and_query K run V h t raw p), U)"
proof (cases "ve_dial V h t")
  case None
  obtain c p' where a: "add_conn h t (ve_now V) p = (c, p')" by fastforce
  have "c \<notin> U" "cn_target (po_heap p' ! c) = t" using a pool_okD(4) [OF assms, of c] by (auto simp: add_conn_def)
  from finish_ok [OF pool_ok_connect [OF assms a] this] show ?thesis
    by (simp add: dial_and_query_def dialFreshConn_def None a)
qed (use assms in \<open>simp add: dial_and_query_def dialFreshConn_def\<close>)

lemma pop_held:
  assumes "pool_ok K (p, U)" "popIdleConn K alive now t p = (Some c, p')"
  shows "pool_ok K (p', insert c U)" "c \<notin> U" "cn_target (po_heap p' ! c) = t" "pool_ok K (close_entry c p', U)"
proof -
  show ok: "pool_ok K (p', insert c U)" using pool_ok_pop [OF assms] by simp
  obtain ds kept where s: "po_heap p' = fold close_conn ds (po_heap p)" "idle p t = kept @ [c] @ ds"
    using pop_spec [OF assms(2)] by auto
  then show "c \<notin> U" "cn_target (po_heap p' ! c) = t" using pool_okD(3) [OF assms(1), of c t] by auto
  then show "pool_ok K (close_entry c p', U)" using pool_ok_give_up [OF ok, of c] by simp
qed

text \<open>
  An exchange over an encrypted transport ends without holding a connection, whatever happens on the way: the pool satisfies its
  invariant for the connections that others hold.
\<close>

theorem exchange_returns_connections:
  assumes "pool_ok dot_kind (p, U)" "pool_ok doq_kind (p', U')"
  shows "pool_ok dot_kind (snd (dot_Exchange V resolve raw server p), U) \<and> pool_ok doq_kind (snd (doq_Exchange V resolve raw server p'), U')"
proof -
  have "pool_ok dot_kind (snd (dot_pooled V h t raw p), U)" for h t
  proof (cases "popIdleConn dot_kind (ve_alive V) (ve_now V) t p")
    case (Pair r p1)
    have fresh: "pool_ok dot_kind (snd (dot_fresh V h t raw x q), U)" if "pool_ok dot_kind (q, U)" for x q
      using that dial_ok [OF that] by (auto simp: dot_fresh_def finish_exchange_def Let_def split: sum.splits)
    show ?thesis
    proof (cases r)
      case None
      then show ?thesis using pool_ok_pop [OF assms(1) Pair] fresh by (simp add: dot_pooled_def Pair)
    next
      case (Some c)
      note held = pop_held [OF assms(1) Pair [unfolded Some]]
      show ?thesis
        using fresh [OF held(4)] finish_ok [OF held(1-3)] held(4) by (simp add: dot_pooled_def Pair Some Let_def)
    qed
  qed
  moreover have "pool_ok doq_kind (snd (doq_pooled V h t raw p'), U')" for h t
  proof (cases "popIdleConn doq_kind (ve_alive V) (ve_now V) t p'")
    case (Pair r p1)
    have fresh: "pool_ok doq_kind (snd (doq_fresh V h t raw q), U')" if "pool_ok doq_kind (q, U')" for q
      using that dial_ok [OF that] by (simp add: doq_fresh_def)
    show ?thesis
    proof (cases r)
      case None
      then show ?thesis using pool_ok_pop [OF assms(2) Pair] fresh by (simp add: doq_pooled_def Pair)
    next
      case (Some c)
      note held = pop_held [OF assms(2) Pair [unfolded Some]]
      show ?thesis
        using fresh [OF held(4)] pool_ok_put [OF held(1), of c t] held(2-4)
        by (simp add: doq_pooled_def Pair Some Let_def)
    qed
  qed
  ultimately show ?thesis using assms by (simp add: dot_Exchange_def doq_Exchange_def Let_def case_prod_beta)
qed

definition quiet_env :: conn_env where
  "quiet_env = \<lparr>ve_lib = sample_lib, ve_alive = (\<lambda>_. True), ve_io = (\<lambda>_ c q. if c = 0 then Arrived (q @ [0]) else NotWritten), ve_cut = (\<lambda>_ _. False),
     ve_dial = (\<lambda>h _. if h = ''h'' then None else Some DialFailed), ve_done = (\<lambda>_. False), ve_now = 1\<rparr>"

theorem exchange_returns_connections_witness:
  "pool_ok dot_kind (snd (dot_Exchange quiet_env (\<lambda>_. None) [7] ''h:853'' pinned_pool), {}) \<and>
   pool_ok doq_kind (snd (doq_Exchange quiet_env (\<lambda>_. None) [7] ''h:853'' new_pool), {})"
proof (rule exchange_returns_connections)
  show "pool_ok dot_kind (pinned_pool, {})" by (rule pool_ok_reach [OF pinned_pool_reach])
  show "pool_ok doq_kind (new_pool, {})" by (rule pool_ok_reach) (simp add: pool_reach_def)
qed

text \<open>
  Connections are kept by the address they lead to and not by the name they were made for. A query for one name goes over a connection
  whose handshake was made for another name at the same address, even where a handshake for its own name would be refused.
\<close>

theorem handshake_of_other_host:
  assumes "popIdleConn dot_kind (ve_alive V) (ve_now V) t p = (Some c, p1)" "executeDoTQuery V True c raw p1 = Inr resp" "\<not> ve_done V 0" "\<not> ve_done V 3"
  shows "fst (dot_pooled V host t raw p) = Inr resp"
  using assms by (simp add: dot_pooled_def finish_exchange_def Let_def)

theorem handshake_of_other_host_witness:
  "fst (dot_pooled quiet_env ''other'' ''t'' (replicate 12 7) pinned_pool) = Inr (replicate 12 7)"
proof (rule handshake_of_other_host [of _ _ _ 0 "snd (popIdleConn dot_kind (\<lambda>_. True) 1 ''t'' pinned_pool)"])
  show "executeDoTQuery quiet_env True 0 (replicate 12 7) (snd (popIdleConn dot_kind (\<lambda>_. True) 1 ''t'' pinned_pool)) = Inr (replicate 12 7)"
    by code_simp
qed (use pinned_pool_pop in \<open>simp_all add: quiet_env_def\<close>)

lemma other_host_refused: "ve_dial quiet_env ''other'' ''t'' = Some DialFailed" "cn_host (po_heap pinned_pool ! 0) = ''h''"
  by code_simp+

section \<open>Messages\<close>

lemma be16_read:
  assumes "n < 65536"
  shows "\<exists>a b. be16 (of_nat n) = [a, b] \<and> read_be16 a b = n"
proof -
  have "n div 256 < 256" using assms by (simp add: less_mult_imp_div_less)
  then have "unat (ucast (drop_bit 8 (of_nat n :: u16)) :: u8) = n div 256"
    using assms by (simp add: unsigned_ucast_eq unat_div unsigned_of_nat take_bit_eq_mod drop_bit_eq_div)
  moreover have "unat (ucast (of_nat n :: u16) :: u8) = n mod 256"
    using assms by (simp add: unsigned_ucast_eq unsigned_of_nat take_bit_eq_mod)
  ultimately show ?thesis by (simp add: be16_def read_be16_def)
qed

lemma read_be16_inj: "read_be16 a b = read_be16 c d \<Longrightarrow> a = c \<and> b = d"
proof -
  assume eq: "read_be16 a b = read_be16 c d"
  have "unat b < 256" "unat d < 256" using unsigned_less [of b] unsigned_less [of d] by simp_all
  moreover have "(256 * unat a + unat b) div 256 = (256 * unat c + unat d) div 256" "(256 * unat a + unat b) mod 256 = (256 * unat c + unat d) mod 256"
    using eq by (simp_all add: read_be16_def)
  ultimately have "unat a = unat c \<and> unat b = unat d" by simp
  then show "a = c \<and> b = d" by (simp add: word_unat_eq_iff)
qed

lemma read_framed_whole:
  assumes "read_framed least s = Inr resp"
  shows "least \<le> length resp \<and> take (2 + length resp) s = doqFrame resp"
proof -
  obtain a b rest where s: "s = a # b # rest" "least \<le> read_be16 a b" "read_be16 a b \<le> length rest" "resp = take (read_be16 a b) rest"
    using assms by (auto simp: read_framed_def Let_def not_less split: list.splits if_splits)
  have "unat a < 256" "unat b < 256" using unsigned_less [of a] unsigned_less [of b] by simp_all
  then have "read_be16 a b < 65536" unfolding read_be16_def by linarith
  from be16_read [OF this] obtain c d where cd: "be16 (of_nat (read_be16 a b)) = [c, d]" "read_be16 c d = read_be16 a b" by blast
  with read_be16_inj [OF cd(2)] show ?thesis using s by (simp add: doqFrame_def)
qed

lemma framed_answer_Inr: "framed_answer least over io = Inr resp \<Longrightarrow> \<exists>s. io = Arrived s \<and> read_framed least s = Inr resp"
  by (cases io) (auto simp: framed_answer_def split: sum.splits transport_error.splits)

lemma dot_query_whole:
  assumes "executeDoTQuery V probe c raw p = Inr resp"
  shows "\<exists>s. ve_io V probe c (doqFrame raw) = Arrived s \<and> 12 \<le> length resp \<and> take (2 + length resp) s = doqFrame resp"
  using assms read_framed_whole [of 12 _ resp]
  by (auto simp: executeDoTQuery_def doqFrame_def dest!: framed_answer_Inr split: if_splits)

lemma doq_query_whole:
  assumes "executeDoQQuery V probe c raw p = Inr resp"
  shows "\<exists>s payload. doqNormalizeQuery (ve_lib V) raw = Inr payload \<and> ve_io V probe c (doqFrame payload) = Arrived s \<and> 12 \<le> length resp \<and>
    take (2 + length resp) s = doqFrame resp \<and> (\<forall>m. Unpack (ve_lib V) resp = Some m \<longrightarrow> m_Id m = 0)"
proof -
  obtain payload s where q: "doqNormalizeQuery (ve_lib V) raw = Inr payload" "ve_io V probe c (doqFrame payload) = Arrived s"
      "doqReadFramedResponse (ve_lib V) s = Inr resp"
    using assms by (auto simp: executeDoQQuery_def Let_def split: if_splits net_io.splits sum.splits)
  from q(3) have "read_framed 12 s = Inr resp" "\<forall>m. Unpack (ve_lib V) resp = Some m \<longrightarrow> m_Id m = 0"
    by (auto simp: doqReadFramedResponse_def split: sum.splits option.splits if_splits)
  with q(1,2) read_framed_whole show ?thesis by blast
qed

lemma finish_answer: "fst (finish_exchange K V t (Some c) r p) = Inr resp \<Longrightarrow> r = Inr resp"
  by (auto simp: finish_exchange_def Let_def split: if_splits sum.splits)

lemma dial_answer: "fst (dial_and_query K run V h t raw p) = Inr resp \<Longrightarrow> \<exists>c q. run False c raw q = Inr resp"
  by (auto simp: dial_and_query_def dest!: finish_answer split: prod.splits sum.splits)

lemma doq_answer: "fst (doq_Exchange V resolve raw server p) = Inr resp \<Longrightarrow> \<exists>probe c q. executeDoQQuery V probe c raw q = Inr resp"
  by (auto simp: doq_Exchange_def doq_pooled_def doq_fresh_def Let_def dest!: dial_answer split: if_splits prod.splits option.splits sum.splits)

lemma dot_answer:
  assumes "fst (dot_Exchange V resolve raw server p) = Inr resp" "\<forall>i j. i \<le> j \<longrightarrow> ve_done V i \<longrightarrow> ve_done V j"
  shows "\<exists>probe c q. executeDoTQuery V probe c raw q = Inr resp"
proof -
  have fresh: "\<exists>c q. executeDoTQuery V False c raw q = Inr resp" if "fst (dot_fresh V h t raw r q) = Inr resp" for h t r q
    using that assms(2) [rule_format, of 2 3] by (auto simp: dot_fresh_def finish_exchange_def Let_def dest!: dial_answer split: if_splits)
  show ?thesis
    using assms(1) by (auto simp: dot_Exchange_def dot_pooled_def Let_def dest!: fresh finish_answer split: if_splits prod.splits option.splits)
qed


lemma quiet_answer: "fst (dot_Exchange quiet_env (\<lambda>_. None) (replicate 12 7) ''h:853'' new_pool) = Inr (replicate 12 7)"
  by code_simp


text \<open>
  A message that was framed is read back whole, whatever follows it on the stream, when it has the size of a header at least, fits the
  length field, and does not carry an identifier.
\<close>

theorem frame_roundtrip:
  assumes "12 \<le> length payload" "length payload < 65536" "\<forall>m. Unpack L payload = Some m \<longrightarrow> m_Id m = 0"
  shows "doqReadFramedResponse L (doqFrame payload @ rest) = Inr payload"
proof -
  obtain a b where "be16 (of_nat (length payload)) = [a, b]" "read_be16 a b = length payload"
    using be16_read [OF assms(2)] by blast
  then show ?thesis
    using assms(1,3) by (auto simp: doqFrame_def doqReadFramedResponse_def read_framed_def Let_def split: option.split)
qed

theorem frame_roundtrip_witness:
  "doqReadFramedResponse (sample_lib\<lparr>Unpack := (\<lambda>_. None)\<rparr>) (doqFrame (replicate 12 0) @ [1, 2]) = Inr (replicate 12 0)"
  by (rule frame_roundtrip) simp_all

text \<open>
  The plain transport returns a UDP answer only if it is complete: a truncated one is asked for again over TCP, and so is one that
  does not come, unless the context is over. An answer over TCP is the first framed message that came back.
\<close>

theorem plain_answer_complete:
  assumes "plain_Exchange L udp tcp over resolve raw server = Inr resp"
  shows "\<exists>target. (\<exists>s. tcp target (doqFrame raw) = Arrived s \<and> resp \<noteq> [] \<and> take (2 + length resp) s = doqFrame resp) \<or>
    queryUDP (udp target raw) = Inr resp \<and> (\<forall>m. Unpack L resp = Some m \<longrightarrow> \<not> m_Truncated m)"
proof -
  have "\<exists>s. tcp t (doqFrame raw) = Arrived s \<and> resp \<noteq> [] \<and> take (2 + length resp) s = doqFrame resp"
    if q: "queryTCP tcp o1 raw t = Inr resp" for o1 t
  proof -
    obtain s where "tcp t (doqFrame raw) = Arrived s" "read_framed 1 s = Inr resp"
      using q by (auto simp: queryTCP_def doqFrame_def dest!: framed_answer_Inr)
    with read_framed_whole show ?thesis by fastforce
  qed
  then show ?thesis
    using assms unfolding plain_Exchange_def Let_def by (fastforce split: prod.splits sum.splits option.splits if_splits)
qed

definition cut_lib :: dns_lib where
  "cut_lib = sample_lib\<lparr>Unpack := (\<lambda>b. Some (empty_msg\<lparr>m_Truncated := (b = [1])\<rparr>))\<rparr>"

definition cut_udp :: "string \<Rightarrow> u8 list \<Rightarrow> udp_io" where
  "cut_udp t q = \<lparr>ud_dial = True, ud_write = (\<lambda>_. True), ud_read = (\<lambda>_. Some [1]), ud_time_left = True, ud_over = (\<lambda>_. False)\<rparr>"

definition whole_tcp :: "string \<Rightarrow> u8 list \<Rightarrow> net_io" where "whole_tcp t q = Arrived [0, 1, 2]"

theorem plain_answer_complete_witness:
  "\<exists>target. (\<exists>s. whole_tcp target (doqFrame [7]) = Arrived s \<and> [2] \<noteq> ([] :: u8 list) \<and> take (2 + length [2 :: u8]) s = doqFrame [2]) \<or>
    queryUDP (cut_udp target [7]) = Inr [2] \<and> (\<forall>m. Unpack cut_lib [2] = Some m \<longrightarrow> \<not> m_Truncated m)"
proof (rule plain_answer_complete)
  show "plain_Exchange cut_lib cut_udp whole_tcp (\<lambda>_. False) (\<lambda>_. None) [7] ''9.9.9.9'' = Inr [2]"
    by (simp add: plain_Exchange_def Let_def case_prod_beta cut_lib_def cut_udp_def whole_tcp_def queryUDP_def queryTCP_def framed_answer_def
        read_framed_def read_be16_def)
qed

text \<open>
  An answer over HTTP has status 200 and between 12 and 65535 bytes, and came at the first attempt or, after a connection that was closed
  under it, at the second; there is no third.
\<close>

theorem doh_answer_checked:
  assumes "doh_Exchange client over url = Inr b"
  shows "12 \<le> length b \<and> length b \<le> 65535 \<and>
    (\<exists>body. b = take 65535 body \<and>
       (client url 1 = HttpResponse 200 (Some body) \<or> client url 1 = HttpError True \<and> client url 2 = HttpResponse 200 (Some body)))"
proof -
  have one: "s = 200 \<and> (\<exists>body. x = Some body \<and> b = take 65535 body \<and> 12 \<le> length b)" if "doh_response s x o1 = Inr b" for s x o1
    using that unfolding doh_response_def Let_def by (auto split: if_splits option.splits)
  have "dohExchangeWithClient (client url) over = Inr b" using assms by (simp add: doh_Exchange_def split: if_splits)
  then have "(\<exists>s x. client url 1 = HttpResponse s x \<and> doh_response s x (over 5) = Inr b) \<or>
      (\<exists>s x. client url 1 = HttpError True \<and> client url 2 = HttpResponse s x \<and> doh_response s x (over 5) = Inr b)"
    unfolding dohExchangeWithClient_def by (auto split: if_splits http_outcome.splits)
  then show ?thesis using one by fastforce
qed

definition flaky_client :: "string \<Rightarrow> nat \<Rightarrow> http_outcome" where
  "flaky_client url n = (if n = 1 then HttpError True else HttpResponse 200 (Some (replicate 12 0)))"

theorem doh_answer_checked_witness:
  "12 \<le> length (replicate 12 (0 :: u8)) \<and> length (replicate 12 (0 :: u8)) \<le> 65535 \<and>
    (\<exists>body. replicate 12 0 = take 65535 body \<and>
       (flaky_client ''u'' 1 = HttpResponse 200 (Some body) \<or>
        flaky_client ''u'' 1 = HttpError True \<and> flaky_client ''u'' 2 = HttpResponse 200 (Some body)))"
proof (rule doh_answer_checked)
  have "trim_space ''u'' \<noteq> []" by code_simp
  then show "doh_Exchange flaky_client (\<lambda>_. False) ''u'' = Inr (replicate 12 0)"
    by (simp add: doh_Exchange_def dohExchangeWithClient_def doh_response_def flaky_client_def)
qed

end
