(* ===== verification/Host_Files.thy ===== *)
theory Host_Files
  imports Ddr
begin

text \<open>
  The files of the machine and the functions of \<open>path/filepath\<close> and \<open>os\<close> that the configuration store and the
  certificate manager call, on systems whose paths are written with slashes. A file system is the content
  of its files and an account of which calls the operating system lets succeed. Permissions are left out: the code ignores
  whether tightening them works.
\<close>

section \<open>Paths\<close>

fun relative_segments :: "string list \<Rightarrow> string list \<Rightarrow> string list" where
  "relative_segments [] out = rev out"
| "relative_segments (seg # rest) out =
     (if seg = [] \<or> seg = ''.'' then relative_segments rest out
      else if seg = ''..'' \<and> out \<noteq> [] \<and> hd out \<noteq> ''..'' then relative_segments rest (tl out)
      else relative_segments rest (seg # out))"

definition filepath_Clean :: "string \<Rightarrow> string" where
  "filepath_Clean p =
     (if has_prefix p ''/'' then path_Clean p
      else (let r = relative_segments (split_on (CHR ''/'') p) [] in if r = [] then ''.'' else tl (join_segments r)))"

definition filepath_Join :: "string \<Rightarrow> string \<Rightarrow> string" where
  "filepath_Join a b =
     (if a = [] \<and> b = [] then []
      else filepath_Clean (if a = [] then b else if b = [] then a else a @ ''/'' @ b))"

definition filepath_Dir :: "string \<Rightarrow> string" where
  "filepath_Dir p = filepath_Clean (case last_index_byte (CHR ''/'') p of None \<Rightarrow> [] | Some i \<Rightarrow> take (Suc i) p)"

text \<open>The working directory is an argument, \<open>None\<close> when it cannot be found out.\<close>

definition filepath_Abs :: "string option \<Rightarrow> string \<Rightarrow> string option" where
  "filepath_Abs cwd p =
     (if has_prefix p ''/'' then Some (filepath_Clean p)
      else case cwd of None \<Rightarrow> None | Some d \<Rightarrow> Some (filepath_Join d p))"

section \<open>Files\<close>

datatype write_outcome = WriteDone | OpenFails | WriteStops string

record host_fs =
  hf_files :: "(string \<times> string) list"
  hf_mkdir :: "string \<Rightarrow> bool"
  hf_write :: "string \<Rightarrow> string \<Rightarrow> write_outcome"
  hf_remove :: "string \<Rightarrow> bool"
  hf_rename :: "string \<Rightarrow> string \<Rightarrow> bool"
  hf_read :: "string \<Rightarrow> bool"

definition fileExists :: "host_fs \<Rightarrow> string \<Rightarrow> bool" where
  "fileExists f p = (map_of (hf_files f) p \<noteq> None)"

definition hf_put :: "host_fs \<Rightarrow> string \<Rightarrow> string \<Rightarrow> host_fs" where
  "hf_put f p d = f\<lparr>hf_files := AList.update p d (hf_files f)\<rparr>"

text \<open>\<open>os.WriteFile\<close>: whether it succeeds, and what is there afterwards.\<close>

definition os_WriteFile :: "host_fs \<Rightarrow> string \<Rightarrow> string \<Rightarrow> bool \<times> host_fs" where
  "os_WriteFile f p d =
     (case hf_write f p d of
        WriteDone \<Rightarrow> (True, hf_put f p d)
      | OpenFails \<Rightarrow> (False, f)
      | WriteStops part \<Rightarrow> (False, hf_put f p part))"

datatype read_outcome = NotExist | ReadFails | ReadData string

definition os_ReadFile :: "host_fs \<Rightarrow> string \<Rightarrow> read_outcome" where
  "os_ReadFile f p =
     (case map_of (hf_files f) p of None \<Rightarrow> NotExist
      | Some d \<Rightarrow> if hf_read f p then ReadData d else ReadFails)"

definition os_Remove :: "host_fs \<Rightarrow> string \<Rightarrow> host_fs" where
  "os_Remove f p = (if hf_remove f p then f\<lparr>hf_files := AList.delete p (hf_files f)\<rparr> else f)"

definition os_Rename :: "host_fs \<Rightarrow> string \<Rightarrow> string \<Rightarrow> bool \<times> host_fs" where
  "os_Rename f src dst =
     (case map_of (hf_files f) src of None \<Rightarrow> (False, f)
      | Some d \<Rightarrow> if hf_rename f src dst
                 then (True, f\<lparr>hf_files := AList.update dst d (AList.delete src (hf_files f))\<rparr>)
                 else (False, f))"

text \<open>The calls that always work.\<close>

definition plain_fs :: "(string \<times> string) list \<Rightarrow> host_fs" where
  "plain_fs files = \<lparr>hf_files = files, hf_mkdir = (\<lambda>_. True), hf_write = (\<lambda>_ _. WriteDone), hf_remove = (\<lambda>_. True),
     hf_rename = (\<lambda>_ _. True), hf_read = (\<lambda>_. True)\<rparr>"

section \<open>Facts\<close>

lemma clean_segments_snoc:
  "n \<noteq> [] \<Longrightarrow> n \<noteq> ''.'' \<Longrightarrow> n \<noteq> ''..'' \<Longrightarrow> clean_segments (xs @ [n]) out = clean_segments xs out @ [n]"
  by (induction xs out rule: clean_segments.induct) auto

lemma relative_segments_snoc:
  "n \<noteq> [] \<Longrightarrow> n \<noteq> ''.'' \<Longrightarrow> n \<noteq> ''..'' \<Longrightarrow> relative_segments (xs @ [n]) out = relative_segments xs out @ [n]"
  by (induction xs out rule: relative_segments.induct) auto

lemma join_segments_append: "join_segments (xs @ ys) = join_segments xs @ join_segments ys"
  by (simp add: join_segments_def)

text \<open>A joined path ends in the name that was joined, whatever the directory.\<close>

lemma filepath_Join_ends:
  assumes "segment_ok n"
  shows "\<exists>pre. \<forall>m. segment_ok m \<longrightarrow> filepath_Join dir m = pre @ m"
proof (cases "dir = []")
  case True
  have "filepath_Join dir m = m" if "segment_ok m" for m
  proof -
    have "\<not> has_prefix m ''/''" using that by (cases m) (auto simp: has_prefix_def segment_ok_def)
    then show ?thesis
      using that True by (simp add: filepath_Join_def filepath_Clean_def segment_ok_def split_on_no_sep join_segments_def)
  qed
  then show ?thesis by (auto intro: exI [of _ "[]"])
next
  case False
  note f = False
  let ?segs = "split_on (CHR ''/'') dir"
  have j: "filepath_Join dir m = filepath_Clean (dir @ CHR ''/'' # m)" "split_on (CHR ''/'') (dir @ CHR ''/'' # m) = ?segs @ [m]"
    if "segment_ok m" for m
    using that f by (auto simp: filepath_Join_def segment_ok_def split_on_parts split_on_no_sep)
  have p: "has_prefix (dir @ x) ''/'' = has_prefix dir ''/''" for x
    using f by (cases dir) (simp_all add: has_prefix_def)
  show ?thesis
  proof (cases "has_prefix dir ''/''")
    case True
    then have "filepath_Join dir m = (join_segments (clean_segments ?segs []) @ ''/'') @ m" if "segment_ok m" for m
      using j [OF that] that p
      by (simp add: filepath_Clean_def path_Clean_def segment_ok_def clean_segments_snoc join_segments_append join_segments_def Let_def)
    then show ?thesis by blast
  next
    case False
    then have "filepath_Join dir m = tl (join_segments (relative_segments ?segs []) @ ''/'') @ m" if "segment_ok m" for m
      using j [OF that] that p
      by (cases "relative_segments ?segs []")
        (auto simp: filepath_Clean_def segment_ok_def relative_segments_snoc join_segments_append join_segments_def Let_def)
    then show ?thesis by blast
  qed
qed

lemma filepath_Join_inj: "segment_ok m \<Longrightarrow> segment_ok n \<Longrightarrow> filepath_Join dir m = filepath_Join dir n \<longleftrightarrow> m = n"
  using filepath_Join_ends [of m dir] by auto

lemma filepath_Join_rooted:
  assumes "has_prefix dir ''/''" "segment_ok n"
  shows "\<exists>pre. filepath_Join dir n = CHR ''/'' # pre @ n"
proof -
  have ne: "dir \<noteq> []" using assms(1) by (auto simp: has_prefix_def)
  have "has_prefix (dir @ CHR ''/'' # n) ''/''" using assms(1) ne by (cases dir) (simp_all add: has_prefix_def)
  then have "filepath_Join dir n = join_segments (clean_segments (split_on (CHR ''/'') dir) []) @ CHR ''/'' # n"
    using assms(2) ne
    by (simp add: filepath_Join_def filepath_Clean_def path_Clean_def segment_ok_def split_on_parts split_on_no_sep
        clean_segments_snoc join_segments_append join_segments_def Let_def)
  then show ?thesis
    by (cases "clean_segments (split_on (CHR ''/'') dir) []") (auto simp: join_segments_def)
qed

lemma filepath_Join_trim:
  assumes "has_prefix dir ''/''" "segment_ok n" "\<not> is_space (last n)"
  shows "trim_space (filepath_Join dir n) = filepath_Join dir n"
proof -
  obtain pre where "filepath_Join dir n = CHR ''/'' # pre @ n" using filepath_Join_rooted [OF assms(1,2)] by blast
  then show ?thesis
    unfolding trim_space_def using assms(2,3) by (intro trim_with_id) (auto simp: is_space_def segment_ok_def)
qed

text \<open>Cleaning a rooted path once is enough.\<close>

lemma split_on_join:
  "\<forall>s\<in>set segs. CHR ''/'' \<notin> set s \<Longrightarrow> segs \<noteq> [] \<Longrightarrow> split_on (CHR ''/'') (join_segments segs) = [] # segs"
proof (induction segs)
  case (Cons s ss)
  show ?case
  proof (cases ss)
    case (Cons t ts)
    with Cons.IH Cons.prems have "split_on (CHR ''/'') (CHR ''/'' # t @ join_segments ts) = [] # ss"
      by (simp add: join_segments_def)
    with Cons Cons.prems show ?thesis by (simp add: join_segments_def split_on_append)
  qed (use Cons.prems in \<open>simp add: join_segments_def split_on_no_sep\<close>)
qed simp

lemma clean_segments_id: "\<forall>s\<in>set xs. segment_ok s \<Longrightarrow> clean_segments xs out = rev out @ xs"
  by (induction xs arbitrary: out) (auto simp: segment_ok_def)

lemma path_Clean_idem: "path_Clean (path_Clean p) = path_Clean p"
proof -
  let ?segs = "clean_segments (split_on (CHR ''/'') p) []"
  have ok: "\<forall>s\<in>set ?segs. segment_ok s" 
    using clean_segments_ok [of "[]" "split_on (CHR ''/'') p"] by (auto simp: list_all_iff dest: split_on_no)
  show ?thesis
  proof (cases "?segs = []")
    case False
    then have "join_segments ?segs \<noteq> []" by (cases ?segs) (simp_all add: join_segments_def)
    moreover have "split_on (CHR ''/'') (join_segments ?segs) = [] # ?segs"
      using ok False by (intro split_on_join) (auto simp: segment_ok_def)
    ultimately show ?thesis using clean_segments_id [OF ok, of "[]"] by (simp add: path_Clean_def Let_def)
  qed (simp add: path_Clean_def join_segments_def)
qed

lemma filepath_Join_clean:
  assumes "has_prefix dir ''/''" "segment_ok n"
  shows "filepath_Clean (filepath_Join dir n) = filepath_Join dir n"
proof -
  have "has_prefix (filepath_Join dir n) ''/''"
    using filepath_Join_rooted [OF assms] by (auto simp: has_prefix_def)
  moreover have "dir \<noteq> []" "has_prefix (dir @ CHR ''/'' # n) ''/''"
    using assms(1) by (cases dir; simp add: has_prefix_def)+
  then have "filepath_Join dir n = path_Clean (dir @ CHR ''/'' # n)"
    using assms(2) by (simp add: filepath_Join_def filepath_Clean_def segment_ok_def)
  ultimately show ?thesis unfolding filepath_Clean_def by (simp add: path_Clean_idem)
qed

lemma os_ReadFile_put: "os_ReadFile (hf_put f p d) q = (if p = q then (if hf_read f q then ReadData d else ReadFails) else os_ReadFile f q)"
  by (auto simp: os_ReadFile_def hf_put_def update_conv' split: option.split)

lemma hf_put_sel [simp]: "hf_read (hf_put f p d) = hf_read f" "hf_write (hf_put f p d) = hf_write f"
  "hf_mkdir (hf_put f p d) = hf_mkdir f" "hf_files (hf_put f p d) = AList.update p d (hf_files f)"
  by (simp_all add: hf_put_def)

end
