(* ===== verification/Cert_Manager.thy ===== *)
theory Cert_Manager
  imports Encrypted_Facts Host_Files
begin

text \<open>
  The certificate of the encrypted listeners (\<open>core/cert_manager.go\<close>, \<open>core/cert_health.go\<close>,
  \<open>GenerateSelfSignedCert\<close> of \<open>core/cert_generate.go\<close>): where it comes from, how it is generated, imported,
  loaded, renewed and shown.

  Cryptography is a parameter: reading a pair of PEM texts, the blocks of such a text, parsing and signing certificates, encoding
  keys, PKCS#12 containers, digests. A generation draws a key and a serial number, which are arguments. Contents of files and DER
  encodings are strings of bytes. The lock of the manager covers single field accesses; callers here run one after
  another.
\<close>

section \<open>Certificates and the libraries\<close>

record Certificate =
  cx_Raw :: string
  cx_RawIssuer :: string
  cx_RawSubject :: string
  cx_Subject :: string
  cx_Issuer :: string
  cx_Serial :: nat
  cx_NotBefore :: time
  cx_NotAfter :: time
  cx_DNSNames :: "string list"
  cx_IPAddresses :: "ip list"

record template =
  tm_Serial :: nat
  tm_CommonName :: string
  tm_Organization :: "string list"
  tm_NotBefore :: time
  tm_NotAfter :: time
  tm_DNSNames :: "string list"
  tm_IPAddresses :: "ip list"

text \<open>A loaded pair: the DER certificates and the private key (\<open>tls.Certificate\<close>).\<close>

type_synonym 'k pair = "string list \<times> 'k"

record 'k cert_lib =
  X509KeyPair :: "string \<Rightarrow> string \<Rightarrow> 'k pair option"
  pem_blocks :: "string \<Rightarrow> (string \<times> string) list"      \<comment> \<open>what \<open>pem.Decode\<close> yields until it finds no block\<close>
  EncodeToMemory :: "string \<Rightarrow> string \<Rightarrow> string"          \<comment> \<open>type and bytes of one block\<close>
  ParseCertificate :: "string \<Rightarrow> Certificate option"
  MarshalPKCS8PrivateKey :: "'k \<Rightarrow> string option"
  CreateCertificate :: "template \<Rightarrow> 'k \<Rightarrow> string option"
  pkcs12_Decode :: "string \<Rightarrow> string \<Rightarrow> ('k option \<times> Certificate option) option"
  cert_digest :: "string \<Rightarrow> u8 list"
  show_time :: "time \<Rightarrow> string"

text \<open>What one generation draws: a key of the wanted type and a serial number.\<close>

record 'k draw =
  dw_key :: "string \<Rightarrow> 'k option"
  dw_serial :: "nat option"

datatype cert_error =
    NoCertDir | NoCertPath | NoKeyPath | ReadCertFailed | ReadKeyFailed | PKCS12Failed | MissingKeyOrCert
  | EncodeKeyFailed | KeyMismatch | BadChain | NoCertBlock | EmptyChain | CertDirFailed | CertWriteFailed string
  | KeyGenFailed | SerialFailed | BadSanIP string | CreateFailed | NilCertificate | RenewFailed cert_error

definition SelfSignedCertFileName :: string where "SelfSignedCertFileName = ''server.crt''"
definition SelfSignedKeyFileName :: string where "SelfSignedKeyFileName = ''server.key''"
definition ImportedCertFileName :: string where "ImportedCertFileName = ''imported.crt''"
definition ImportedKeyFileName :: string where "ImportedKeyFileName = ''imported.key''"

definition day :: duration where "day = 24 * 3600 * second"

section \<open>Generation\<close>

definition isSelfSigned :: "Certificate option \<Rightarrow> bool" where
  "isSelfSigned c = (case c of None \<Rightarrow> False | Some x \<Rightarrow> cx_RawIssuer x = cx_RawSubject x)"

definition certCommonName :: "CertConfig \<Rightarrow> string" where
  "certCommonName c =
     (if cr_CommonName c \<noteq> [] then cr_CommonName c
      else if cr_DNSNames c \<noteq> [] then hd (cr_DNSNames c)
      else if cr_IPAddresses c \<noteq> [] then hd (cr_IPAddresses c)
      else DefaultServerName)"

fun san_ips :: "string list \<Rightarrow> cert_error + ip list" where
  "san_ips [] = Inr []"
| "san_ips (raw # rest) =
     (if ParseIP raw = [] then Inl (BadSanIP raw)
      else case san_ips rest of Inl e \<Rightarrow> Inl e | Inr as \<Rightarrow> Inr (ParseIP raw # as))"

definition encodePrivateKey :: "'k cert_lib \<Rightarrow> 'k option \<Rightarrow> cert_error + string" where
  "encodePrivateKey L k =
     (case Option.bind k (MarshalPKCS8PrivateKey L) of None \<Rightarrow> Inl EncodeKeyFailed
      | Some der \<Rightarrow> Inr (EncodeToMemory L ''PRIVATE KEY'' der))"

definition loopback_sans :: "ip list" where
  "loopback_sans = [ParseIP ''127.0.0.1'', ParseIP ''::1'']"

definition cert_template :: "CertConfig \<Rightarrow> nat \<Rightarrow> time \<Rightarrow> ip list \<Rightarrow> template" where
  "cert_template cfg serial now ips =
     (let days = (if cr_ValidDays cfg \<le> 0 then 825 else cr_ValidDays cfg) in
      \<lparr>tm_Serial = serial, tm_CommonName = certCommonName cfg, tm_Organization = [''DITING''], tm_NotBefore = now - day,
       tm_NotAfter = now + wrap64 (days * day), tm_DNSNames = cr_DNSNames cfg,
       tm_IPAddresses = (if cr_DNSNames cfg = [] \<and> ips = [] then loopback_sans else ips)\<rparr>)"

definition GenerateSelfSignedCert :: "'k cert_lib \<Rightarrow> 'k draw \<Rightarrow> time \<Rightarrow> CertConfig \<Rightarrow> cert_error + string \<times> string" where
  "GenerateSelfSignedCert L d now cfg0 =
     (let cfg = NormalizeCertConfig cfg0 in
      case dw_key d (cr_KeyType cfg) of None \<Rightarrow> Inl KeyGenFailed
      | Some key \<Rightarrow>
         (case dw_serial d of None \<Rightarrow> Inl SerialFailed
          | Some serial \<Rightarrow>
             (case san_ips (cr_IPAddresses cfg) of Inl e \<Rightarrow> Inl e
              | Inr ips \<Rightarrow>
                 (case CreateCertificate L (cert_template cfg serial now ips) key of None \<Rightarrow> Inl CreateFailed
                  | Some der \<Rightarrow>
                     (case encodePrivateKey L (Some key) of Inl e \<Rightarrow> Inl e
                      | Inr keyPEM \<Rightarrow> Inr (EncodeToMemory L ''CERTIFICATE'' der, keyPEM))))))"

section \<open>Loading\<close>

record 'k CertManager =
  cm_dir :: string
  cm_cfg :: CertConfig
  cm_cert :: "'k pair option"
  cm_leaf :: "Certificate option"
  cm_chain :: "Certificate list"
  cm_loadErr :: "cert_error option"
  cm_loaded :: bool

definition self_signed_source :: "CertConfig \<Rightarrow> bool" where
  "self_signed_source cfg = (cr_Source cfg = CertSourceSelfSigned \<or> cr_Source cfg = [])"

definition resolveCertPaths :: "string \<Rightarrow> CertConfig \<Rightarrow> cert_error + string \<times> string \<times> string" where
  "resolveCertPaths dir cfg =
     (if self_signed_source cfg
      then (if dir = [] then Inl NoCertDir
            else Inr (filepath_Join dir SelfSignedCertFileName, filepath_Join dir SelfSignedKeyFileName, []))
      else if cr_CertFile cfg = [] then Inl NoCertPath
      else if cr_Source cfg = CertSourcePKCS12 then Inr (cr_CertFile cfg, cr_CertFile cfg, cr_PKCS12Password cfg)
      else if cr_KeyFile cfg = [] then Inl NoKeyPath
      else Inr (cr_CertFile cfg, cr_KeyFile cfg, []))"

fun chain_of :: "'k cert_lib \<Rightarrow> (string \<times> string) list \<Rightarrow> cert_error + Certificate list" where
  "chain_of L [] = Inr []"
| "chain_of L ((typ, bytes) # rest) =
     (if typ \<noteq> ''CERTIFICATE'' then chain_of L rest
      else case ParseCertificate L bytes of None \<Rightarrow> Inl BadChain
         | Some c \<Rightarrow> (case chain_of L rest of Inl e \<Rightarrow> Inl e | Inr cs \<Rightarrow> Inr (c # cs)))"

definition parseChain :: "'k cert_lib \<Rightarrow> string \<Rightarrow> cert_error + Certificate list" where
  "parseChain L certPEM =
     (case chain_of L (pem_blocks L certPEM) of Inl e \<Rightarrow> Inl e
      | Inr chain \<Rightarrow> if chain = [] then Inl NoCertBlock else Inr chain)"

text \<open>The texts of certificate and key, taken out of a container when there is a password.\<close>

definition unpack_container :: "'k cert_lib \<Rightarrow> string \<Rightarrow> string \<Rightarrow> string \<Rightarrow> cert_error + string \<times> string" where
  "unpack_container L password certData keyData =
     (if password = [] then Inr (certData, keyData)
      else case pkcs12_Decode L certData password of None \<Rightarrow> Inl PKCS12Failed
        | Some (priv, cert) \<Rightarrow>
            (case encodePrivateKey L priv of Inl e \<Rightarrow> Inl e
             | Inr keyPEM \<Rightarrow>
                (case cert of None \<Rightarrow> Inl NilCertificate
                 | Some c \<Rightarrow> Inr (EncodeToMemory L ''CERTIFICATE'' (cx_Raw c), keyPEM))))"

definition loadCertMaterial ::
  "'k cert_lib \<Rightarrow> host_fs \<Rightarrow> string \<Rightarrow> CertConfig \<Rightarrow> cert_error + 'k pair \<times> Certificate list" where
  "loadCertMaterial L f dir cfg =
     (case resolveCertPaths dir cfg of Inl e \<Rightarrow> Inl e
      | Inr (certPath, keyPath, password) \<Rightarrow>
         (case os_ReadFile f certPath of
            ReadData certData \<Rightarrow>
              (case os_ReadFile f keyPath of
                 ReadData keyData \<Rightarrow>
                   (case unpack_container L password certData keyData of Inl e \<Rightarrow> Inl e
                    | Inr (certPEM, keyPEM) \<Rightarrow>
                       (case X509KeyPair L certPEM keyPEM of None \<Rightarrow> Inl KeyMismatch
                        | Some pr \<Rightarrow> (case parseChain L certPEM of Inl e \<Rightarrow> Inl e | Inr chain \<Rightarrow> Inr (pr, chain))))
               | _ \<Rightarrow> Inl ReadKeyFailed)
          | _ \<Rightarrow> Inl ReadCertFailed))"

definition Reload :: "'k cert_lib \<Rightarrow> host_fs \<Rightarrow> 'k CertManager \<Rightarrow> 'k CertManager" where
  "Reload L f m =
     (case loadCertMaterial L f (cm_dir m) (cm_cfg m) of
        Inl e \<Rightarrow> m\<lparr>cm_cert := None, cm_leaf := None, cm_chain := [], cm_loadErr := Some e, cm_loaded := False\<rparr>
      | Inr (pr, chain) \<Rightarrow> m\<lparr>cm_cert := Some pr, cm_chain := chain,
          cm_leaf := (case chain of [] \<Rightarrow> None | c # _ \<Rightarrow> Some c), cm_loadErr := None, cm_loaded := True\<rparr>)"

definition NewCertManager :: "'k cert_lib \<Rightarrow> host_fs \<Rightarrow> string \<Rightarrow> CertConfig \<Rightarrow> 'k CertManager" where
  "NewCertManager L f dir cfg =
     Reload L f \<lparr>cm_dir = dir, cm_cfg = NormalizeCertConfig cfg, cm_cert = None, cm_leaf = None, cm_chain = [],
       cm_loadErr = None, cm_loaded = False\<rparr>"

definition cert_Configure :: "'k cert_lib \<Rightarrow> host_fs \<Rightarrow> CertConfig \<Rightarrow> 'k CertManager \<Rightarrow> 'k CertManager" where
  "cert_Configure L f cfg m = Reload L f (m\<lparr>cm_cfg := NormalizeCertConfig cfg\<rparr>)"

definition SetDir :: "string \<Rightarrow> 'k CertManager \<Rightarrow> 'k CertManager" where
  "SetDir dir m = m\<lparr>cm_dir := dir\<rparr>"

definition CurrentPaths :: "'k CertManager \<Rightarrow> string \<times> string" where
  "CurrentPaths m = (case resolveCertPaths (cm_dir m) (cm_cfg m) of Inl _ \<Rightarrow> ([], []) | Inr (c, k, _) \<Rightarrow> (c, k))"

section \<open>Writing\<close>

definition writeFilePrivate :: "host_fs \<Rightarrow> string \<Rightarrow> string \<Rightarrow> cert_error option \<times> host_fs" where
  "writeFilePrivate f path data =
     (if \<not> hf_mkdir f (filepath_Dir path) then (Some CertDirFailed, f)
      else case os_WriteFile f path data of
        (True, f') \<Rightarrow> (None, f')
      | (False, f') \<Rightarrow> (Some (CertWriteFailed path), f'))"

text \<open>Certificate first, then key, as all three callers do.\<close>

definition write_pair :: "host_fs \<Rightarrow> string \<Rightarrow> string \<Rightarrow> string \<Rightarrow> string \<Rightarrow> cert_error option \<times> host_fs" where
  "write_pair f certPath certData keyPath keyData =
     (case writeFilePrivate f certPath certData of
        (Some e, f1) \<Rightarrow> (Some e, f1)
      | (None, f1) \<Rightarrow> writeFilePrivate f1 keyPath keyData)"

definition cfgSource :: "CertConfig \<Rightarrow> string \<Rightarrow> CertConfig" where
  "cfgSource cfg src = cfg\<lparr>cr_Source := src\<rparr>"

definition sameFilePath :: "string option \<Rightarrow> string \<Rightarrow> string \<Rightarrow> bool" where
  "sameFilePath cwd a b =
     (a \<noteq> [] \<and> b \<noteq> [] \<and>
      (let a = (case filepath_Abs cwd a of Some p \<Rightarrow> p | None \<Rightarrow> a); b = (case filepath_Abs cwd b of Some p \<Rightarrow> p | None \<Rightarrow> b)
       in equal_fold (filepath_Clean a) (filepath_Clean b)))"

definition ownedBySelfSigned :: "string option \<Rightarrow> 'k CertManager \<Rightarrow> bool" where
  "ownedBySelfSigned cwd m =
     (if self_signed_source (cm_cfg m) then True
      else if cr_Source (cm_cfg m) \<noteq> CertSourceFile then False
      else if \<not> sameFilePath cwd (cr_CertFile (cm_cfg m)) (filepath_Join (cm_dir m) SelfSignedCertFileName) then False
      else isSelfSigned (cm_leaf m))"

text \<open>Generate, write both files, load them: what \<open>EnsureSelfSigned\<close> and \<open>RegenerateSelfSigned\<close> share.\<close>

definition issue_self_signed ::
  "'k cert_lib \<Rightarrow> 'k draw \<Rightarrow> time \<Rightarrow> CertConfig \<Rightarrow> host_fs \<Rightarrow> 'k CertManager \<Rightarrow> cert_error option \<times> host_fs \<times> 'k CertManager" where
  "issue_self_signed L d now cfg f m =
     (case GenerateSelfSignedCert L d now cfg of Inl e \<Rightarrow> (Some e, f, m)
      | Inr (certPEM, keyPEM) \<Rightarrow>
         (case write_pair f (filepath_Join (cm_dir m) SelfSignedCertFileName) certPEM
                 (filepath_Join (cm_dir m) SelfSignedKeyFileName) keyPEM of
            (Some e, f') \<Rightarrow> (Some e, f', m)
          | (None, f') \<Rightarrow> (None, f', cert_Configure L f' (cfgSource cfg CertSourceSelfSigned) m)))"

definition RegenerateSelfSigned ::
  "'k cert_lib \<Rightarrow> 'k draw \<Rightarrow> time \<Rightarrow> CertConfig \<Rightarrow> host_fs \<Rightarrow> 'k CertManager \<Rightarrow> cert_error option \<times> host_fs \<times> 'k CertManager" where
  "RegenerateSelfSigned L d now cfg f m =
     (if cm_dir m = [] then (Some NoCertDir, f, m) else issue_self_signed L d now (NormalizeCertConfig cfg) f m)"

text \<open>The flag tells whether a certificate was made.\<close>

definition EnsureSelfSigned ::
  "'k cert_lib \<Rightarrow> string option \<Rightarrow> 'k draw \<Rightarrow> time \<Rightarrow> CertConfig \<Rightarrow> host_fs \<Rightarrow> 'k CertManager \<Rightarrow>
   (cert_error + bool) \<times> host_fs \<times> 'k CertManager" where
  "EnsureSelfSigned L cwd d now cfg0 f m =
     (let cfg = NormalizeCertConfig cfg0; dir = cm_dir m in
      if dir = [] then (Inl NoCertDir, f, m)
      else if fileExists f (filepath_Join dir SelfSignedCertFileName) \<and> fileExists f (filepath_Join dir SelfSignedKeyFileName) \<and>
              ownedBySelfSigned cwd m
      then (Inr False, f, cert_Configure L f (cfgSource cfg CertSourceSelfSigned) m)
      else case issue_self_signed L d now cfg f m of
        (Some e, f', m') \<Rightarrow> (Inl e, f', m')
      | (None, f', m') \<Rightarrow> (Inr True, f', m'))"

definition ImportPEM ::
  "'k cert_lib \<Rightarrow> string \<Rightarrow> string \<Rightarrow> host_fs \<Rightarrow> 'k CertManager \<Rightarrow> cert_error option \<times> host_fs \<times> 'k CertManager" where
  "ImportPEM L certPEM keyPEM f m =
     (case X509KeyPair L certPEM keyPEM of None \<Rightarrow> (Some KeyMismatch, f, m)
      | Some (ders, key) \<Rightarrow>
         if ders = [] then (Some EmptyChain, f, m)
         else if cm_dir m = [] then (Some NoCertDir, f, m)
         else case MarshalPKCS8PrivateKey L key of None \<Rightarrow> (Some EncodeKeyFailed, f, m)
         | Some k \<Rightarrow>
             (let certPath = filepath_Join (cm_dir m) ImportedCertFileName; keyPath = filepath_Join (cm_dir m) ImportedKeyFileName in
              case write_pair f certPath certPEM keyPath (EncodeToMemory L ''PRIVATE KEY'' k) of
                (Some e, f') \<Rightarrow> (Some e, f', m)
              | (None, f') \<Rightarrow>
                  (None, f', cert_Configure L f'
                     ((cm_cfg m)\<lparr>cr_Source := CertSourceFile, cr_CertFile := certPath, cr_KeyFile := keyPath\<rparr>) m)))"

definition ImportPKCS12 ::
  "'k cert_lib \<Rightarrow> string \<Rightarrow> string \<Rightarrow> host_fs \<Rightarrow> 'k CertManager \<Rightarrow> cert_error option \<times> host_fs \<times> 'k CertManager" where
  "ImportPKCS12 L pfx password f m =
     (case pkcs12_Decode L pfx password of
        Some (Some priv, Some cert) \<Rightarrow>
          (case encodePrivateKey L (Some priv) of Inl e \<Rightarrow> (Some e, f, m)
           | Inr keyPEM \<Rightarrow> ImportPEM L (EncodeToMemory L ''CERTIFICATE'' (cx_Raw cert)) keyPEM f m)
      | Some _ \<Rightarrow> (Some MissingKeyOrCert, f, m)
      | None \<Rightarrow> (Some PKCS12Failed, f, m))"

section \<open>Health and renewal\<close>

definition CertRenewBefore :: duration where "CertRenewBefore = 30 * day"

text \<open>\<open>time.Until\<close> answers the nearest representable duration.\<close>

definition time_Until :: "time \<Rightarrow> time \<Rightarrow> duration" where
  "time_Until now t = max (- (2 ^ 63)) (min (2 ^ 63 - 1) (t - now))"

record CertHealth =
  ch_Loaded :: bool
  ch_SelfSigned :: bool
  ch_Expired :: bool
  ch_NotYetValid :: bool
  ch_ExpiresSoon :: bool
  ch_DaysRemaining :: int
  ch_NotAfter :: time

definition NeedsRenewal :: "CertHealth \<Rightarrow> bool" where
  "NeedsRenewal h = (ch_SelfSigned h \<and> (\<not> ch_Loaded h \<or> ch_Expired h \<or> ch_NotYetValid h \<or> ch_ExpiresSoon h))"

definition Health :: "time \<Rightarrow> 'k CertManager \<Rightarrow> CertHealth" where
  "Health now m =
     (let h = \<lparr>ch_Loaded = False, ch_SelfSigned = self_signed_source (cm_cfg m), ch_Expired = False, ch_NotYetValid = False,
                ch_ExpiresSoon = False, ch_DaysRemaining = 0, ch_NotAfter = 0\<rparr> in
      case cm_leaf m of None \<Rightarrow> h
      | Some leaf \<Rightarrow>
          if \<not> cm_loaded m then h
          else (let remaining = time_Until now (cx_NotAfter leaf); expired = remaining \<le> 0 in
            h\<lparr>ch_Loaded := True, ch_NotAfter := cx_NotAfter leaf, ch_DaysRemaining := go_div remaining day,
              ch_Expired := expired, ch_NotYetValid := now < cx_NotBefore leaf,
              ch_ExpiresSoon := \<not> expired \<and> remaining \<le> CertRenewBefore\<rparr>))"

definition RenewSelfSignedIfNeeded ::
  "'k cert_lib \<Rightarrow> string option \<Rightarrow> 'k draw \<Rightarrow> time \<Rightarrow> CertConfig \<Rightarrow> host_fs \<Rightarrow> 'k CertManager \<Rightarrow>
   (cert_error + bool) \<times> host_fs \<times> 'k CertManager" where
  "RenewSelfSignedIfNeeded L cwd d now cfg0 f m =
     (let cfg = NormalizeCertConfig cfg0 in
      if \<not> self_signed_source cfg then (Inr False, f, m)
      else if ch_Loaded (Health now m) \<and> \<not> NeedsRenewal (Health now m) then (Inr False, f, m)
      else if \<not> fileExists f (filepath_Join (cm_dir m) SelfSignedCertFileName) then EnsureSelfSigned L cwd d now cfg f m
      else case RegenerateSelfSigned L d now cfg f m of
        (Some e, f', m') \<Rightarrow> (Inl (RenewFailed e), f', m')
      | (None, f', m') \<Rightarrow> (Inr True, f', m'))"

section \<open>What is shown and served\<close>

record tls_server_config =
  ts_Certificates :: "string list"       \<comment> \<open>the DER chain presented\<close>
  ts_NextProtos :: "string list"
  ts_ServerName :: string

definition TLSConfig :: "'k CertManager \<Rightarrow> string list \<Rightarrow> cert_error option + tls_server_config" where
  "TLSConfig m nextProtos =
     (case cm_cert m of None \<Rightarrow> Inl (cm_loadErr m)
      | Some (ders, key) \<Rightarrow>
          if \<not> cm_loaded m then Inl (cm_loadErr m)
          else Inr \<lparr>ts_Certificates = ders, ts_NextProtos = nextProtos,
            ts_ServerName = (case cm_leaf m of None \<Rightarrow> []
              | Some leaf \<Rightarrow>
                  (case cx_DNSNames leaf of [n] \<Rightarrow> if CHR ''*'' \<in> set n then [] else n | _ \<Rightarrow> []))\<rparr>)"

definition formatFingerprint :: "u8 list \<Rightarrow> string" where
  "formatFingerprint digest = concat (map2 (\<lambda>i b. (if i = 0 then [] else '':'') @ to_upper (hex_bytes [b])) [0..<length digest] digest)"

record CertInfo =
  ci_Source :: string
  ci_Subject :: string
  ci_Issuer :: string
  ci_SerialNumber :: string
  ci_NotBefore :: string
  ci_NotAfter :: string
  ci_DNSNames :: "string list"
  ci_IPAddresses :: "string list"
  ci_DaysRemaining :: int
  ci_Fingerprint :: string
  ci_ChainLength :: nat
  ci_Loaded :: bool
  ci_Error :: "cert_error option option"  \<comment> \<open>\<open>Some None\<close>: not loaded yet\<close>
  ci_SelfSigned :: bool

definition Info :: "'k cert_lib \<Rightarrow> time \<Rightarrow> 'k CertManager \<Rightarrow> CertInfo" where
  "Info L now m =
     (let none = \<lparr>ci_Source = cr_Source (cm_cfg m), ci_Subject = [], ci_Issuer = [], ci_SerialNumber = [], ci_NotBefore = [],
                   ci_NotAfter = [], ci_DNSNames = [], ci_IPAddresses = [], ci_DaysRemaining = 0, ci_Fingerprint = [],
                   ci_ChainLength = 0, ci_Loaded = False, ci_Error = Some (cm_loadErr m), ci_SelfSigned = False\<rparr> in
      case cm_leaf m of None \<Rightarrow> none
      | Some leaf \<Rightarrow>
          if \<not> cm_loaded m then none
          else \<lparr>ci_Source = cr_Source (cm_cfg m), ci_Subject = cx_Subject leaf, ci_Issuer = cx_Issuer leaf,
            ci_SerialNumber = to_upper (hex_of (cx_Serial leaf)), ci_NotBefore = show_time L (cx_NotBefore leaf),
            ci_NotAfter = show_time L (cx_NotAfter leaf), ci_DNSNames = cx_DNSNames leaf,
            ci_IPAddresses = map ip_String (cx_IPAddresses leaf),
            ci_DaysRemaining = go_div (time_Until now (cx_NotAfter leaf)) day,
            ci_Fingerprint = formatFingerprint (cert_digest L (cx_Raw leaf)), ci_ChainLength = length (cm_chain m),
            ci_Loaded = True, ci_Error = None, ci_SelfSigned = isSelfSigned (Some leaf)\<rparr>)"

end
