(* ===== verification/Cert_Facts.thy ===== *)
theory Cert_Facts
  imports Cert_Manager
begin

text \<open>
  What the certificate manager guarantees, in every state its operations can lead to and whatever else
  happens to the files; what an import and a renewal achieve, and where they fall short.
\<close>

section \<open>States of the manager\<close>

definition cm_ok :: "'k CertManager \<Rightarrow> bool" where
  "cm_ok m =
     (NormalizeCertConfig (cm_cfg m) = cm_cfg m \<and>
      (if cm_loaded m
       then cm_cert m \<noteq> None \<and> cm_chain m \<noteq> [] \<and> cm_leaf m = Some (hd (cm_chain m)) \<and> cm_loadErr m = None
       else cm_cert m = None \<and> cm_leaf m = None \<and> cm_chain m = [] \<and> cm_loadErr m \<noteq> None))"

text \<open>The pair and the chain that are held come from one pair of texts.\<close>

definition cm_from_texts :: "'k cert_lib \<Rightarrow> 'k CertManager \<Rightarrow> bool" where
  "cm_from_texts L m =
     (cm_loaded m \<longrightarrow> (\<exists>c k. X509KeyPair L c k = cm_cert m \<and> parseChain L c = Inr (cm_chain m)))"

inductive cert_reach :: "'k cert_lib \<Rightarrow> 'k CertManager \<Rightarrow> bool" for L where
  start: "cert_reach L (NewCertManager L f dir cfg)"
| set_dir: "cert_reach L m \<Longrightarrow> cert_reach L (SetDir dir m)"
| reload: "cert_reach L m \<Longrightarrow> cert_reach L (Reload L f m)"
| configure: "cert_reach L m \<Longrightarrow> cert_reach L (cert_Configure L f cfg m)"
| ensure: "cert_reach L m \<Longrightarrow> EnsureSelfSigned L cwd d now cfg f m = (r, f', m') \<Longrightarrow> cert_reach L m'"
| regenerate: "cert_reach L m \<Longrightarrow> RegenerateSelfSigned L d now cfg f m = (e, f', m') \<Longrightarrow> cert_reach L m'"
| import_pem: "cert_reach L m \<Longrightarrow> ImportPEM L c k f m = (e, f', m') \<Longrightarrow> cert_reach L m'"
| import_pkcs12: "cert_reach L m \<Longrightarrow> ImportPKCS12 L pfx pw f m = (e, f', m') \<Longrightarrow> cert_reach L m'"
| renew: "cert_reach L m \<Longrightarrow> RenewSelfSignedIfNeeded L cwd d now cfg f m = (r, f', m') \<Longrightarrow> cert_reach L m'"

lemma parseChain_not_Nil: "parseChain L c = Inr chain \<Longrightarrow> chain \<noteq> []"
  by (auto simp: parseChain_def split: sum.splits if_splits)

lemma load_texts:
  assumes "loadCertMaterial L f dir cfg = Inr (pr, chain)"
  shows "\<exists>c k. X509KeyPair L c k = Some pr \<and> parseChain L c = Inr chain"
  using assms
  by (auto simp: loadCertMaterial_def split: sum.splits prod.splits read_outcome.splits option.splits)

text \<open>Reloading makes the state right whatever it was before, as long as the configuration is normal.\<close>

lemma Reload_ok:
  "NormalizeCertConfig (cm_cfg m) = cm_cfg m \<Longrightarrow> cm_ok (Reload L f m)"
  "cm_from_texts L (Reload L f m)"
  by (auto simp: Reload_def cm_ok_def cm_from_texts_def dest!: load_texts dest: parseChain_not_Nil split: sum.splits prod.splits list.splits)

lemma Configure_ok: "cm_ok (cert_Configure L f cfg m)" "cm_from_texts L (cert_Configure L f cfg m)"
  by (simp_all add: cert_Configure_def Reload_ok)

text \<open>Every operation either leaves the manager alone or ends in \<open>Configure\<close>.\<close>

lemma issue_state: "issue_self_signed L d now cfg f m = (e, f', m') \<Longrightarrow> m' = m \<or> (\<exists>c g. m' = cert_Configure L g c m)"
  by (auto simp: issue_self_signed_def split: sum.splits prod.splits option.splits)

lemma import_state: "ImportPEM L c k f m = (e, f', m') \<Longrightarrow> m' = m \<or> (\<exists>c g. m' = cert_Configure L g c m)"
  by (auto simp: ImportPEM_def Let_def split: prod.splits option.splits if_splits)

lemma ensure_state:
  "EnsureSelfSigned L cwd d now cfg f m = (r, f', m') \<Longrightarrow> m' = m \<or> (\<exists>c g. m' = cert_Configure L g c m)"
  using issue_state [of L d now "NormalizeCertConfig cfg" f m]
  by (auto simp: EnsureSelfSigned_def Let_def split: prod.splits option.splits if_splits)

lemma regenerate_state:
  "RegenerateSelfSigned L d now cfg f m = (e, f', m') \<Longrightarrow> m' = m \<or> (\<exists>c g. m' = cert_Configure L g c m)"
  using issue_state [of L d now "NormalizeCertConfig cfg" f m e f' m'] by (auto simp: RegenerateSelfSigned_def split: if_splits)

lemma renew_state:
  "RenewSelfSignedIfNeeded L cwd d now cfg f m = (r, f', m') \<Longrightarrow> m' = m \<or> (\<exists>c g. m' = cert_Configure L g c m)"
  using ensure_state [of L cwd d now "NormalizeCertConfig cfg" f m r f' m'] regenerate_state [of L d now "NormalizeCertConfig cfg" f m]
  by (auto simp: RenewSelfSignedIfNeeded_def Let_def split: prod.splits option.splits if_splits)

lemma pkcs12_state: "ImportPKCS12 L pfx pw f m = (e, f', m') \<Longrightarrow> m' = m \<or> (\<exists>c g. m' = cert_Configure L g c m)"
  by (auto simp: ImportPKCS12_def dest: import_state split: prod.splits option.splits sum.splits)

lemma reach_ok: "cert_reach L m \<Longrightarrow> cm_ok m \<and> cm_from_texts L m"
proof (induction rule: cert_reach.induct)
  case (start f dir cfg)
  show ?case unfolding NewCertManager_def by (simp add: Reload_ok)
next
  case (set_dir m dir)
  then show ?case by (simp add: SetDir_def cm_ok_def cm_from_texts_def)
next
  case (reload m f)
  then have "NormalizeCertConfig (cm_cfg m) = cm_cfg m" by (simp add: cm_ok_def)
  then show ?case by (simp add: Reload_ok)
next
  case (configure m f cfg)
  show ?case by (simp add: Configure_ok)
next
  case (ensure m cwd d now cfg f r f' m')
  then show ?case using ensure_state Configure_ok by metis
next
  case (regenerate m d now cfg f e f' m')
  then show ?case using regenerate_state Configure_ok by metis
next
  case (import_pem m c k f e f' m')
  then show ?case using import_state Configure_ok by metis
next
  case (import_pkcs12 m pfx pw f e f' m')
  then show ?case using pkcs12_state Configure_ok by metis
next
  case (renew m cwd d now cfg f r f' m')
  then show ?case using renew_state Configure_ok by metis
qed

section \<open>The libraries\<close>

text \<open>
  What the code relies on: a text made of one block yields this block; a pair carries the certificates of its text, in order,
  and stays one when its key is written anew; a parsed certificate keeps its encoding; a
  self-signed certificate pairs with its key, and its times are those asked for, in whole seconds.
\<close>

definition cert_lib_ok :: "'k cert_lib \<Rightarrow> bool" where
  "cert_lib_ok L =
     ((\<forall>t b. t \<in> {''CERTIFICATE'', ''PRIVATE KEY''} \<longrightarrow> pem_blocks L (EncodeToMemory L t b) = [(t, b)]) \<and>
      (\<forall>c k ders key. X509KeyPair L c k = Some (ders, key) \<longrightarrow>
         ders = map snd (filter (\<lambda>b. fst b = ''CERTIFICATE'') (pem_blocks L c)) \<and> ders \<noteq> []) \<and>
      (\<forall>d x. ParseCertificate L d = Some x \<longrightarrow> cx_Raw x = d) \<and>
      (\<forall>c k ders key der. X509KeyPair L c k = Some (ders, key) \<and> MarshalPKCS8PrivateKey L key = Some der \<longrightarrow>
         X509KeyPair L c (EncodeToMemory L ''PRIVATE KEY'' der) = Some (ders, key)) \<and>
      (\<forall>t key der kd. CreateCertificate L t key = Some der \<and> MarshalPKCS8PrivateKey L key = Some kd \<longrightarrow>
         X509KeyPair L (EncodeToMemory L ''CERTIFICATE'' der) (EncodeToMemory L ''PRIVATE KEY'' kd) = Some ([der], key) \<and>
         (\<exists>x. ParseCertificate L der = Some x \<and> cx_NotBefore x \<le> tm_NotBefore t \<and>
            tm_NotAfter t - second < cx_NotAfter x \<and> cx_NotAfter x \<le> tm_NotAfter t)))"

lemma chain_of_raw:
  assumes "cert_lib_ok L" "chain_of L bs = Inr chain"
  shows "map cx_Raw chain = map snd (filter (\<lambda>b. fst b = ''CERTIFICATE'') bs)"
  using assms(2)
proof (induction bs arbitrary: chain)
  case (Cons b bs)
  have raw: "ParseCertificate L d = Some x \<Longrightarrow> cx_Raw x = d" for d x
    using assms(1) by (simp add: cert_lib_ok_def)
  show ?case
    using Cons by (cases b) (auto simp: raw split: if_splits option.splits sum.splits)
qed simp

text \<open>
  The certificate that is served is the one that is shown: the listener gets a configuration exactly when the summary
  says that a certificate is loaded, it presents as many certificates as the summary counts, and the first of them is the one
  whose names, dates and fingerprint the summary lists.
\<close>

theorem served_is_shown:
  assumes "cert_lib_ok L" "cert_reach L m"
  shows "(case TLSConfig m protos of
      Inl e \<Rightarrow> \<not> ci_Loaded (Info L now m) \<and> ci_Error (Info L now m) = Some e \<and> e \<noteq> None
    | Inr t \<Rightarrow> ci_Loaded (Info L now m) \<and> length (ts_Certificates t) = ci_ChainLength (Info L now m) \<and> ts_Certificates t \<noteq> [] \<and>
        ci_Fingerprint (Info L now m) = formatFingerprint (cert_digest L (hd (ts_Certificates t))) \<and>
        (ts_ServerName t = [] \<or> ci_DNSNames (Info L now m) = [ts_ServerName t]))"
proof (cases "cm_loaded m")
  case True
  note ok = reach_ok [OF assms(2)]
  from ok True obtain c k ders key where p: "cm_cert m = Some (ders, key)" "X509KeyPair L c k = Some (ders, key)"
      "parseChain L c = Inr (cm_chain m)"
    by (auto simp: cm_ok_def cm_from_texts_def)
  have "ders = map snd (filter (\<lambda>b. fst b = ''CERTIFICATE'') (pem_blocks L c))"
    using assms(1) p(2) unfolding cert_lib_ok_def by blast
  moreover have "chain_of L (pem_blocks L c) = Inr (cm_chain m)"
    using p(3) by (auto simp: parseChain_def split: sum.splits if_splits)
  ultimately have "map cx_Raw (cm_chain m) = ders" using chain_of_raw [OF assms(1)] by simp
  moreover have "cm_leaf m = Some (hd (cm_chain m))" "cm_chain m \<noteq> []" using ok True by (auto simp: cm_ok_def)
  ultimately show ?thesis
    using True p(1)
    by (auto simp: TLSConfig_def Info_def Let_def hd_map split: list.splits)
next
  case False
  then show ?thesis using reach_ok [OF assms(2)] by (auto simp: TLSConfig_def Info_def Let_def cm_ok_def)
qed

section \<open>Writing and loading a pair\<close>

definition fs_open :: "host_fs \<Rightarrow> string \<Rightarrow> bool" where
  "fs_open f p = (hf_mkdir f (filepath_Dir p) \<and> (\<forall>d. hf_write f p d = WriteDone) \<and> hf_read f p)"

lemma write_open: "fs_open f p \<Longrightarrow> writeFilePrivate f p d = (None, hf_put f p d)"
  by (simp add: fs_open_def writeFilePrivate_def os_WriteFile_def)

lemma write_pair_open: "fs_open f p \<Longrightarrow> fs_open f q \<Longrightarrow> write_pair f p c q k = (None, hf_put (hf_put f p c) q k)"
  by (simp add: write_pair_def write_open fs_open_def writeFilePrivate_def os_WriteFile_def)

lemma load_written:
  assumes "resolveCertPaths dir cfg = Inr (p, q, [])" "p \<noteq> q" "fs_open f p" "fs_open f q" "X509KeyPair L c k = Some pr"
  shows "loadCertMaterial L (hf_put (hf_put f p c) q k) dir cfg =
    (case parseChain L c of Inl e \<Rightarrow> Inl e | Inr chain \<Rightarrow> Inr (pr, chain))"
  using assms by (simp add: loadCertMaterial_def os_ReadFile_put fs_open_def unpack_container_def)

lemma cert_names_plain:
  "segment_ok SelfSignedCertFileName" "segment_ok SelfSignedKeyFileName" "segment_ok ImportedCertFileName" "segment_ok ImportedKeyFileName"
  by code_simp+

lemma cert_names_differ: "SelfSignedCertFileName \<noteq> SelfSignedKeyFileName" "ImportedCertFileName \<noteq> ImportedKeyFileName"
  "SelfSignedCertFileName \<noteq> ImportedCertFileName" "SelfSignedCertFileName \<noteq> ImportedKeyFileName"
  "SelfSignedKeyFileName \<noteq> ImportedCertFileName" "SelfSignedKeyFileName \<noteq> ImportedKeyFileName"
  by code_simp+

lemma source_texts [simp]: "IsValidCertSource CertSourceFile" "IsValidCertSource CertSourceSelfSigned"
  "CertSourceFile \<noteq> CertSourceSelfSigned" "CertSourceFile \<noteq> []" "CertSourceFile \<noteq> CertSourcePKCS12"
  "CertSourceSelfSigned \<noteq> CertSourceFile" "CertSourcePKCS12 \<noteq> CertSourceFile"
  by code_simp+

section \<open>Imports\<close>

text \<open>
  An import of a matching pair into a writable directory reports success, stores the pair under the names for imports and
  leaves the files of the self-signed certificate alone. Whether the manager then has a certificate is another matter: it does exactly
  when every certificate of the text parses, and the pairing check looks at the first one only.
\<close>

theorem import_stores_pair:
  assumes "cert_lib_ok L" "X509KeyPair L c k = Some (ders, key)" "MarshalPKCS8PrivateKey L key = Some kd"
    and "has_prefix (cm_dir m) ''/''"
    and "fs_open f (filepath_Join (cm_dir m) ImportedCertFileName)" "fs_open f (filepath_Join (cm_dir m) ImportedKeyFileName)"
  shows "\<exists>f' m'. ImportPEM L c k f m = (None, f', m') \<and> cr_Source (cm_cfg m') = CertSourceFile \<and>
    CurrentPaths m' = (filepath_Join (cm_dir m) ImportedCertFileName, filepath_Join (cm_dir m) ImportedKeyFileName) \<and>
    (\<forall>n \<in> {SelfSignedCertFileName, SelfSignedKeyFileName}.
       map_of (hf_files f') (filepath_Join (cm_dir m) n) = map_of (hf_files f) (filepath_Join (cm_dir m) n)) \<and>
    (case parseChain L c of
       Inr chain \<Rightarrow> cm_loaded m' \<and> cm_cert m' = Some (ders, key) \<and> cm_chain m' = chain
     | Inl e \<Rightarrow> \<not> cm_loaded m' \<and> cm_loadErr m' = Some e)"
proof -
  let ?p = "filepath_Join (cm_dir m) ImportedCertFileName" and ?q = "filepath_Join (cm_dir m) ImportedKeyFileName"
  let ?k = "EncodeToMemory L ''PRIVATE KEY'' kd" and ?cfg = "(cm_cfg m)\<lparr>cr_Source := CertSourceFile\<rparr>"
  let ?f = "hf_put (hf_put f ?p c) ?q ?k"
  let ?cfg' = "NormalizeCertConfig ((cm_cfg m)\<lparr>cr_Source := CertSourceFile, cr_CertFile := ?p, cr_KeyFile := ?q\<rparr>)"
  have ders: "ders \<noteq> []" and pr: "X509KeyPair L c ?k = Some (ders, key)"
    using assms(1-3) unfolding cert_lib_ok_def by blast+
  have dir: "cm_dir m \<noteq> []" using assms(4) by (auto simp: has_prefix_def)
  have sp: "\<not> is_space (last ImportedCertFileName)" "\<not> is_space (last ImportedKeyFileName)" by code_simp+
  have t: "trim_space ?p = ?p" "trim_space ?q = ?q" "?p \<noteq> []" "?q \<noteq> []" "?p \<noteq> ?q"
    using filepath_Join_trim [OF assms(4)] filepath_Join_rooted [OF assms(4)] sp cert_names_plain cert_names_differ
      filepath_Join_inj [of ImportedCertFileName ImportedKeyFileName "cm_dir m"] by force+
  have res: "resolveCertPaths (cm_dir m) ?cfg' = Inr (?p, ?q, [])" "cr_Source ?cfg' = CertSourceFile"
    using t by (simp_all add: NormalizeCertConfig_eq normalize_cert_def resolveCertPaths_def self_signed_source_def)
  have imp: "ImportPEM L c k f m = (None, ?f, Reload L ?f (m\<lparr>cm_cfg := ?cfg'\<rparr>))"
    using assms(2,3) ders dir by (simp add: ImportPEM_def Let_def write_pair_open [OF assms(5,6)] cert_Configure_def)
  have "map_of (hf_files ?f) (filepath_Join (cm_dir m) n) = map_of (hf_files f) (filepath_Join (cm_dir m) n)"
    if "n \<in> {SelfSignedCertFileName, SelfSignedKeyFileName}" for n
    using that cert_names_plain cert_names_differ by (auto simp: update_conv' filepath_Join_inj)
  then show ?thesis
    unfolding imp using res load_written [OF res(1) t(5) assms(5,6) pr]
    by (auto simp: Reload_def CurrentPaths_def dest: parseChain_not_Nil split: sum.splits list.splits)
qed

text \<open>
  An import that fails while it writes the key has already replaced the certificate. The manager goes on with the pair it holds
  in memory, but what is on disk no longer loads: the next reload finds no certificate.
\<close>

theorem import_torn:
  assumes "X509KeyPair L c k = Some (ders, key)" "ders \<noteq> []" "MarshalPKCS8PrivateKey L key = Some kd"
    and "has_prefix (cm_dir m) ''/''" "cr_Source (cm_cfg m) = CertSourceFile"
    and "cr_CertFile (cm_cfg m) = filepath_Join (cm_dir m) ImportedCertFileName"
    and "cr_KeyFile (cm_cfg m) = filepath_Join (cm_dir m) ImportedKeyFileName"
    and "fs_open f (filepath_Join (cm_dir m) ImportedCertFileName)"
    and "hf_mkdir f (filepath_Dir (filepath_Join (cm_dir m) ImportedKeyFileName))"
      "\<forall>d. hf_write f (filepath_Join (cm_dir m) ImportedKeyFileName) d = OpenFails"
    and "os_ReadFile f (filepath_Join (cm_dir m) ImportedKeyFileName) = ReadData k0" "X509KeyPair L c k0 = None"
  shows "\<exists>e f'. ImportPEM L c k f m = (Some e, f', m) \<and> cm_loadErr (Reload L f' m) = Some KeyMismatch \<and> \<not> cm_loaded (Reload L f' m)"
proof -
  let ?p = "filepath_Join (cm_dir m) ImportedCertFileName" and ?q = "filepath_Join (cm_dir m) ImportedKeyFileName"
  have ne: "?p \<noteq> ?q" "?p \<noteq> []" "?q \<noteq> []" "cm_dir m \<noteq> []"
    using filepath_Join_rooted [OF assms(4)] cert_names_plain cert_names_differ assms(4)
      filepath_Join_inj [of ImportedCertFileName ImportedKeyFileName "cm_dir m"] by (auto simp: has_prefix_def) force+
  have w: "write_pair f ?p c ?q x = (Some (CertWriteFailed ?q), hf_put f ?p c)" for x
    using assms(9,10) by (simp add: write_pair_def write_open [OF assms(8)]) (simp add: writeFilePrivate_def os_WriteFile_def)
  have "resolveCertPaths (cm_dir m) (cm_cfg m) = Inr (?p, ?q, [])"
    using assms(5-7) ne by (simp add: resolveCertPaths_def self_signed_source_def)
  then have "loadCertMaterial L (hf_put f ?p c) (cm_dir m) (cm_cfg m) = Inl KeyMismatch"
    using assms(8,11,12) ne by (simp add: loadCertMaterial_def os_ReadFile_put fs_open_def unpack_container_def)
  then show ?thesis
    using assms(1-3) ne w by (simp add: ImportPEM_def Let_def Reload_def)
qed

text \<open>
  A container without a password is never opened as one: with an empty password its bytes are taken for PEM texts, and
  the certificate stays unavailable although the container decodes.
\<close>

theorem empty_password_container:
  assumes "cr_Source (cm_cfg m) = CertSourcePKCS12" "cr_PKCS12Password (cm_cfg m) = []" "cr_CertFile (cm_cfg m) \<noteq> []"
    and "os_ReadFile f (cr_CertFile (cm_cfg m)) = ReadData pfx" "pkcs12_Decode L pfx [] = Some (Some key, Some cert)"
    and "X509KeyPair L pfx pfx = None"
  shows "cm_loadErr (Reload L f m) = Some KeyMismatch \<and> \<not> cm_loaded (Reload L f m)"
proof -
  have "CertSourcePKCS12 \<noteq> CertSourceSelfSigned" "CertSourcePKCS12 \<noteq> []" by code_simp+
  then show ?thesis
    using assms
    by (simp add: Reload_def loadCertMaterial_def resolveCertPaths_def self_signed_source_def unpack_container_def)
qed

section \<open>Self-signed certificates\<close>

lemma Generate_normal: "GenerateSelfSignedCert L d now (NormalizeCertConfig cfg) = GenerateSelfSignedCert L d now cfg"
  by (simp add: GenerateSelfSignedCert_def)

lemma valid_days: "1 \<le> cr_ValidDays (NormalizeCertConfig cfg)" "cr_ValidDays (NormalizeCertConfig cfg) \<le> 3650"
  by (auto simp: NormalizeCertConfig_eq normalize_cert_def)

text \<open>What a generation that succeeds gives: a pair, and a certificate valid from a day ago for the days asked for.\<close>

lemma generated:
  assumes "cert_lib_ok L" "GenerateSelfSignedCert L d now cfg = Inr (c, k)"
  obtains pr x where "X509KeyPair L c k = Some pr" "parseChain L c = Inr [x]" "cx_NotBefore x \<le> now - day"
    "now + cr_ValidDays (NormalizeCertConfig cfg) * day - second < cx_NotAfter x"
    "cx_NotAfter x \<le> now + cr_ValidDays (NormalizeCertConfig cfg) * day"
proof -
  obtain key serial ips der kd where g: "CreateCertificate L (cert_template (NormalizeCertConfig cfg) serial now ips) key = Some der"
      "MarshalPKCS8PrivateKey L key = Some kd" "c = EncodeToMemory L ''CERTIFICATE'' der" "k = EncodeToMemory L ''PRIVATE KEY'' kd"
    using assms(2)
    by (auto simp: GenerateSelfSignedCert_def encodePrivateKey_def Let_def split: option.splits sum.splits)
  let ?t = "cert_template (NormalizeCertConfig cfg) serial now ips"
  have L: "X509KeyPair L c k = Some ([der], key)"
    "\<exists>x. ParseCertificate L der = Some x \<and> cx_NotBefore x \<le> tm_NotBefore ?t \<and>
       tm_NotAfter ?t - second < cx_NotAfter x \<and> cx_NotAfter x \<le> tm_NotAfter ?t"
    using assms(1) g unfolding cert_lib_ok_def by blast+
  have "pem_blocks L c = [(''CERTIFICATE'', der)]" using assms(1) g(3) unfolding cert_lib_ok_def by blast
  moreover have "wrap64 (cr_ValidDays (NormalizeCertConfig cfg) * day) = cr_ValidDays (NormalizeCertConfig cfg) * day"
    using valid_days [of cfg] by (intro wrap64_id) (simp add: day_def second_def)
  then have "tm_NotBefore ?t = now - day" "tm_NotAfter ?t = now + cr_ValidDays (NormalizeCertConfig cfg) * day"
    using valid_days [of cfg] by (simp_all add: cert_template_def Let_def)
  ultimately show ?thesis using that L by (auto simp: parseChain_def)
qed

lemma issue_open:
  assumes "GenerateSelfSignedCert L d now cfg = Inr (c, k)" "X509KeyPair L c k = Some pr" "parseChain L c = Inr chain" "cm_dir m \<noteq> []"
    and "fs_open f (filepath_Join (cm_dir m) SelfSignedCertFileName)" "fs_open f (filepath_Join (cm_dir m) SelfSignedKeyFileName)"
  shows "issue_self_signed L d now (NormalizeCertConfig cfg) f m =
    (None, hf_put (hf_put f (filepath_Join (cm_dir m) SelfSignedCertFileName) c) (filepath_Join (cm_dir m) SelfSignedKeyFileName) k,
     m\<lparr>cm_cfg := cfgSource (NormalizeCertConfig cfg) CertSourceSelfSigned, cm_cert := Some pr, cm_chain := chain,
       cm_leaf := Some (hd chain), cm_loadErr := None, cm_loaded := True\<rparr>)"
proof -
  let ?p = "filepath_Join (cm_dir m) SelfSignedCertFileName" and ?q = "filepath_Join (cm_dir m) SelfSignedKeyFileName"
  let ?cfg = "cfgSource (NormalizeCertConfig cfg) CertSourceSelfSigned"
  have ne: "?p \<noteq> ?q" using cert_names_plain cert_names_differ filepath_Join_inj by blast
  have n: "NormalizeCertConfig ?cfg = ?cfg"
    by (auto simp: NormalizeCertConfig_eq normalize_cert_def cfgSource_def)
  have "resolveCertPaths (cm_dir m) ?cfg = Inr (?p, ?q, [])"
    using assms(4) by (simp add: resolveCertPaths_def self_signed_source_def cfgSource_def)
  from load_written [OF this ne assms(5,6,2)] assms(3) show ?thesis
    using parseChain_not_Nil [OF assms(3)] assms(1)
    by (cases chain) (simp_all add: issue_self_signed_def Generate_normal write_pair_open [OF assms(5,6)] cert_Configure_def n Reload_def)
qed

lemma fresh_health:
  assumes "cm_loaded m" "cm_leaf m = Some x" "self_signed_source (cm_cfg m)" "cx_NotBefore x \<le> now - day" "1 \<le> n" "n \<le> 3650"
    and "now + n * day - second < cx_NotAfter x" "cx_NotAfter x \<le> now + n * day"
  shows "ch_Loaded (Health now m)" "NeedsRenewal (Health now m) \<longleftrightarrow> n \<le> 30"
proof -
  have d: "0 < day" "second < day" by code_simp+
  have le: "n * day \<le> 3650 * day" "1 * day \<le> n * day" using assms(5,6) d by (simp_all add: mult_right_mono)
  have "3650 * day \<le> 2 ^ 63 - 1" by (simp add: day_def second_def)
  then have "cx_NotAfter x - now \<le> 2 ^ 63 - 1" using le assms(8) by linarith
  moreover have "0 < cx_NotAfter x - now" using le d assms(7) by linarith
  ultimately have u: "time_Until now (cx_NotAfter x) = cx_NotAfter x - now"
    by (simp add: time_Until_def)
  have soon: "cx_NotAfter x - now \<le> CertRenewBefore \<longleftrightarrow> n \<le> 30"
  proof (cases "n \<le> 30")
    case True
    then have "n * day \<le> 30 * day" using d by simp
    with True assms(8) show ?thesis unfolding CertRenewBefore_def by linarith
  next
    case False
    then have "31 * day \<le> n * day" using d by simp
    with False assms(7) d show ?thesis unfolding CertRenewBefore_def by linarith
  qed
  have "\<not> cx_NotAfter x - now \<le> 0" "\<not> now < cx_NotBefore x" using assms(4,7) le d by linarith+
  then show "ch_Loaded (Health now m)" "NeedsRenewal (Health now m) \<longleftrightarrow> n \<le> 30"
    using assms(1-3) u soon by (simp_all add: Health_def NeedsRenewal_def Let_def)
qed

text \<open>
  C36. A check for renewal ends with a loaded certificate, when generating and writing work. The certificate needs no further
  renewal unless it was just made for thirty days or less: then it falls within the renewal window from its first
  moment, and every check makes a new one that no client trusts yet.
\<close>

theorem renewal_settles:
  assumes "cert_lib_ok L" "self_signed_source (NormalizeCertConfig cfg)" "GenerateSelfSignedCert L d now cfg = Inr (c, k)" "cm_dir m \<noteq> []"
    and "fs_open f (filepath_Join (cm_dir m) SelfSignedCertFileName)" "fs_open f (filepath_Join (cm_dir m) SelfSignedKeyFileName)"
  shows "\<exists>made f' m'. RenewSelfSignedIfNeeded L cwd d now cfg f m = (Inr made, f', m') \<and> ch_Loaded (Health now m') \<and>
    (NeedsRenewal (Health now m') \<longleftrightarrow> made \<and> cr_ValidDays (NormalizeCertConfig cfg) \<le> 30)"
proof (cases "ch_Loaded (Health now m) \<and> \<not> NeedsRenewal (Health now m)")
  case True
  then show ?thesis using assms(2) by (simp add: RenewSelfSignedIfNeeded_def Let_def) blast
next
  case False
  obtain pr x where g: "X509KeyPair L c k = Some pr" "parseChain L c = Inr [x]" "cx_NotBefore x \<le> now - day"
    "now + cr_ValidDays (NormalizeCertConfig cfg) * day - second < cx_NotAfter x"
    "cx_NotAfter x \<le> now + cr_ValidDays (NormalizeCertConfig cfg) * day"
    using generated [OF assms(1,3)] by blast
  note issue = issue_open [OF assms(3) g(1,2) assms(4-6)]
  let ?m = "m\<lparr>cm_cfg := cfgSource (NormalizeCertConfig cfg) CertSourceSelfSigned, cm_cert := Some pr, cm_chain := [x],
     cm_leaf := Some x, cm_loadErr := None, cm_loaded := True\<rparr>"
  have "\<exists>f'. RenewSelfSignedIfNeeded L cwd d now cfg f m = (Inr True, f', ?m)"
    using False assms(2,4) issue
    by (auto simp: RenewSelfSignedIfNeeded_def EnsureSelfSigned_def RegenerateSelfSigned_def Let_def)
  moreover have "ch_Loaded (Health now ?m)" "NeedsRenewal (Health now ?m) \<longleftrightarrow> cr_ValidDays (NormalizeCertConfig cfg) \<le> 30"
    using fresh_health [of ?m x now "cr_ValidDays (NormalizeCertConfig cfg)"] g(3-5) valid_days [of cfg]
    by (simp_all add: self_signed_source_def cfgSource_def)
  ultimately show ?thesis by auto
qed

text \<open>
  Ensuring a certificate when there already is one of the manager's own changes no file: clients keep the certificate they
  trust. The configuration is replaced all the same, so the names and the validity it lists from then on are those that were asked
  for and not those of the certificate.
\<close>

theorem ensure_keeps_files:
  assumes "fileExists f (filepath_Join (cm_dir m) SelfSignedCertFileName)" "fileExists f (filepath_Join (cm_dir m) SelfSignedKeyFileName)"
    and "self_signed_source (cm_cfg m)" "cm_dir m \<noteq> []"
  shows "\<exists>m'. EnsureSelfSigned L cwd d now cfg f m = (Inr False, f, m') \<and>
    cr_DNSNames (cm_cfg m') = trimNonEmpty (cr_DNSNames cfg) \<and>
    (\<forall>pr chain. loadCertMaterial L f (cm_dir m) (cm_cfg m) = Inr (pr, chain) \<longrightarrow> cm_cert m' = Some pr \<and> cm_chain m' = chain)"
proof -
  let ?c = "NormalizeCertConfig (cfgSource (NormalizeCertConfig cfg) CertSourceSelfSigned)"
  have c: "self_signed_source ?c" "cr_DNSNames ?c = trimNonEmpty (cr_DNSNames cfg)"
    by (simp_all add: NormalizeCertConfig_eq normalize_cert_def cfgSource_def self_signed_source_def)
  have e: "EnsureSelfSigned L cwd d now cfg f m = (Inr False, f, Reload L f (m\<lparr>cm_cfg := ?c\<rparr>))"
    using assms by (simp add: EnsureSelfSigned_def ownedBySelfSigned_def cert_Configure_def Let_def)
  have "loadCertMaterial L f (cm_dir m) ?c = loadCertMaterial L f (cm_dir m) (cm_cfg m)"
    using c(1) assms(3) by (simp add: loadCertMaterial_def resolveCertPaths_def)
  then show ?thesis
    unfolding e using c(2) by (simp add: Reload_def split: sum.split)
qed

text \<open>
  While an imported certificate is in use, the self-signed pair that is still there is not taken up again but overwritten by
  a new one, and the clients that trust it lose it.
\<close>

theorem ensure_overwrites_after_import:
  assumes "cert_lib_ok L" "GenerateSelfSignedCert L d now cfg = Inr (c, k)" "has_prefix (cm_dir m) ''/''"
    and "fs_open f (filepath_Join (cm_dir m) SelfSignedCertFileName)" "fs_open f (filepath_Join (cm_dir m) SelfSignedKeyFileName)"
    and "cr_Source (cm_cfg m) = CertSourceFile" "cr_CertFile (cm_cfg m) = filepath_Join (cm_dir m) ImportedCertFileName"
  shows "\<exists>f' m'. EnsureSelfSigned L cwd d now cfg f m = (Inr True, f', m') \<and>
    map_of (hf_files f') (filepath_Join (cm_dir m) SelfSignedCertFileName) = Some c \<and>
    map_of (hf_files f') (filepath_Join (cm_dir m) SelfSignedKeyFileName) = Some k"
proof -
  let ?p = "filepath_Join (cm_dir m) SelfSignedCertFileName" and ?i = "filepath_Join (cm_dir m) ImportedCertFileName"
  obtain pr x where g: "X509KeyPair L c k = Some pr" "parseChain L c = Inr [x]" using generated [OF assms(1,2)] by blast
  have dir: "cm_dir m \<noteq> []" using assms(3) by (auto simp: has_prefix_def)
  have "length ?i \<noteq> length ?p"
    using filepath_Join_ends [OF cert_names_plain(1), of "cm_dir m"] cert_names_plain
    by (auto simp: ImportedCertFileName_def SelfSignedCertFileName_def)
  moreover have "has_prefix ?i ''/''" "has_prefix ?p ''/''"
    using filepath_Join_rooted [OF assms(3)] cert_names_plain by (force simp: has_prefix_def)+
  ultimately have "\<not> sameFilePath cwd ?i ?p"
    using filepath_Join_clean [OF assms(3)] cert_names_plain length_to_lower
    by (auto simp: sameFilePath_def filepath_Abs_def equal_fold_def) (metis length_to_lower)
  then have "\<not> ownedBySelfSigned cwd m"
    using assms(6,7) by (simp add: ownedBySelfSigned_def self_signed_source_def)
  then show ?thesis
    using dir issue_open [OF assms(2) g dir assms(4,5)] cert_names_plain cert_names_differ
    by (simp add: EnsureSelfSigned_def Let_def update_conv' filepath_Join_inj)
qed

section \<open>An instance\<close>

text \<open>
  Libraries that keep the laws: a text is a tag and its bytes, with a tag for two certificates in one text;
  a certificate is a tag for its dates and its key; keys are their own encodings.
\<close>

definition sample_cert :: "string \<Rightarrow> duration \<Rightarrow> Certificate" where
  "sample_cert d valid = \<lparr>cx_Raw = d, cx_RawIssuer = d, cx_RawSubject = d, cx_Subject = [], cx_Issuer = [], cx_Serial = 7,
     cx_NotBefore = - day, cx_NotAfter = valid, cx_DNSNames = [''dns.lan''], cx_IPAddresses = []\<rparr>"

definition sample_parse :: "string \<Rightarrow> Certificate option" where
  "sample_parse d =
     (if d = [] then None
      else if hd d = CHR ''S'' then Some (sample_cert d (825 * day))
      else if hd d = CHR ''T'' then Some (sample_cert d (10 * day)) else None)"

definition sample_blocks :: "string \<Rightarrow> (string \<times> string) list" where
  "sample_blocks s =
     (if s = [] then []
      else if hd s = CHR ''C'' then [(''CERTIFICATE'', tl s)]
      else if hd s = CHR ''K'' then [(''PRIVATE KEY'', tl s)]
      else if hd s = CHR ''D'' then [(''CERTIFICATE'', take 2 (tl s)), (''CERTIFICATE'', drop 2 (tl s))] else [])"

definition sample_pair :: "string \<Rightarrow> string \<Rightarrow> string pair option" where
  "sample_pair c k =
     (let ders = map snd (filter (\<lambda>b. fst b = ''CERTIFICATE'') (sample_blocks c)) in
      if ders \<noteq> [] \<and> sample_parse (hd ders) \<noteq> None \<and> k = CHR ''K'' # tl (hd ders) then Some (ders, tl (hd ders)) else None)"

definition sample_create :: "template \<Rightarrow> string \<Rightarrow> string option" where
  "sample_create t key =
     (if tm_NotBefore t \<noteq> - day then None
      else if tm_NotAfter t = 825 * day then Some (CHR ''S'' # key)
      else if tm_NotAfter t = 10 * day then Some (CHR ''T'' # key) else None)"

definition cert_sample :: "string cert_lib" where
  "cert_sample = \<lparr>X509KeyPair = sample_pair, pem_blocks = sample_blocks,
     EncodeToMemory = (\<lambda>t b. (if t = ''CERTIFICATE'' then CHR ''C'' else CHR ''K'') # b), ParseCertificate = sample_parse,
     MarshalPKCS8PrivateKey = Some, CreateCertificate = sample_create,
     pkcs12_Decode = (\<lambda>s pw. if s = ''X'' \<and> pw = [] then Some (Some ''k'', Some (sample_cert ''Sk'' (825 * day))) else None),
     cert_digest = (\<lambda>b. map (of_nat \<circ> of_char) b), show_time = (\<lambda>_. [])\<rparr>"

lemma cert_sample_sel [simp]:
  "X509KeyPair cert_sample = sample_pair" "pem_blocks cert_sample = sample_blocks" "ParseCertificate cert_sample = sample_parse"
  "MarshalPKCS8PrivateKey cert_sample = Some" "CreateCertificate cert_sample = sample_create"
  "EncodeToMemory cert_sample t b = (if t = ''CERTIFICATE'' then CHR ''C'' else CHR ''K'') # b"
  by (simp_all add: cert_sample_def)

lemma sample_pair_key:
  "sample_pair c k = Some (ders, key) \<longleftrightarrow>
     ders = map snd (filter (\<lambda>b. fst b = ''CERTIFICATE'') (sample_blocks c)) \<and> ders \<noteq> [] \<and> sample_parse (hd ders) \<noteq> None \<and>
     k = CHR ''K'' # key \<and> key = tl (hd ders)"
  unfolding sample_pair_def Let_def by auto

lemma sample_created:
  assumes "sample_create t key = Some der"
  shows "sample_pair (CHR ''C'' # der) (CHR ''K'' # key) = Some ([der], key)"
    "\<exists>x. sample_parse der = Some x \<and> cx_NotBefore x \<le> tm_NotBefore t \<and> tm_NotAfter t - second < cx_NotAfter x \<and> cx_NotAfter x \<le> tm_NotAfter t"
proof -
  obtain x where "tl der = key" "sample_parse der = Some x" "cx_NotBefore x = tm_NotBefore t" "cx_NotAfter x = tm_NotAfter t"
    using assms by (auto simp: sample_create_def sample_parse_def sample_cert_def split: if_splits)
  moreover have "0 < second" by (simp add: second_def)
  ultimately show "sample_pair (CHR ''C'' # der) (CHR ''K'' # key) = Some ([der], key)"
    "\<exists>x. sample_parse der = Some x \<and> cx_NotBefore x \<le> tm_NotBefore t \<and> tm_NotAfter t - second < cx_NotAfter x \<and> cx_NotAfter x \<le> tm_NotAfter t"
    by (simp_all add: sample_pair_key sample_blocks_def)
qed

lemma sample_parse_raw: "sample_parse d = Some x \<Longrightarrow> cx_Raw x = d"
  by (auto simp: sample_parse_def sample_cert_def split: if_splits)

lemma cert_sample_ok: "cert_lib_ok cert_sample"
proof -
  have "pem_blocks cert_sample (EncodeToMemory cert_sample t b) = [(t, b)]" if "t \<in> {''CERTIFICATE'', ''PRIVATE KEY''}" for t b
    using that by (auto simp: sample_blocks_def)
  moreover have "sample_pair c (CHR ''K'' # key) = Some (ders, key)" if "sample_pair c k = Some (ders, key)" for c k ders key
    using that unfolding sample_pair_key by blast
  moreover have "ders = map snd (filter (\<lambda>b. fst b = ''CERTIFICATE'') (sample_blocks c)) \<and> ders \<noteq> []"
    if "sample_pair c k = Some (ders, key)" for c k ders key
    using that unfolding sample_pair_key by blast
  ultimately show ?thesis
    unfolding cert_lib_ok_def using sample_parse_raw sample_created by simp
qed

definition sample_files :: host_fs where
  "sample_files = plain_fs [(''/c/server.crt'', ''CSk''), (''/c/server.key'', ''Kk'')]"

definition sample_certs :: "string CertManager" where
  "sample_certs = NewCertManager cert_sample sample_files ''/c'' DefaultCertConfig"

definition sample_draw :: "string draw" where
  "sample_draw = \<lparr>dw_key = (\<lambda>_. Some ''n''), dw_serial = Some 1\<rparr>"

definition ten_days :: CertConfig where "ten_days = DefaultCertConfig\<lparr>cr_ValidDays := 10\<rparr>"

lemma sample_open: "fs_open sample_files p"
  by (simp add: fs_open_def sample_files_def plain_fs_def)

theorem served_is_shown_witness:
  "case TLSConfig sample_certs [''dot''] of
      Inl e \<Rightarrow> \<not> ci_Loaded (Info cert_sample 0 sample_certs) \<and> ci_Error (Info cert_sample 0 sample_certs) = Some e \<and> e \<noteq> None
    | Inr t \<Rightarrow> ci_Loaded (Info cert_sample 0 sample_certs) \<and>
        length (ts_Certificates t) = ci_ChainLength (Info cert_sample 0 sample_certs) \<and> ts_Certificates t \<noteq> [] \<and>
        ci_Fingerprint (Info cert_sample 0 sample_certs) = formatFingerprint (cert_digest cert_sample (hd (ts_Certificates t))) \<and>
        (ts_ServerName t = [] \<or> ci_DNSNames (Info cert_sample 0 sample_certs) = [ts_ServerName t])"
  by (rule served_is_shown [OF cert_sample_ok]) (unfold sample_certs_def, rule cert_reach.start)

text \<open>The instance is not empty: the sample manager serves a certificate.\<close>

lemma sample_served: "\<exists>t. TLSConfig sample_certs [''dot''] = Inr t \<and> ts_ServerName t = ''dns.lan''"
proof -
  have "(case TLSConfig sample_certs [''dot''] of Inl _ \<Rightarrow> False | Inr t \<Rightarrow> ts_ServerName t = ''dns.lan'')" by code_simp
  then show ?thesis by (simp split: sum.splits)
qed

lemma sample_paths:
  "filepath_Join ''/c'' ImportedCertFileName = ''/c/imported.crt''" "filepath_Join ''/c'' ImportedKeyFileName = ''/c/imported.key''"
  "filepath_Join ''/c'' SelfSignedCertFileName = ''/c/server.crt''" "filepath_Join ''/c'' SelfSignedKeyFileName = ''/c/server.key''"
  by code_simp+

lemma sample_dir: "cm_dir sample_certs = ''/c''" "has_prefix ''/c'' ''/''"
  by code_simp+

theorem import_stores_pair_witness:
  "\<exists>f' m'. ImportPEM cert_sample ''DSkUx'' ''Kk'' sample_files sample_certs = (None, f', m') \<and> cr_Source (cm_cfg m') = CertSourceFile \<and>
    CurrentPaths m' = (filepath_Join (cm_dir sample_certs) ImportedCertFileName, filepath_Join (cm_dir sample_certs) ImportedKeyFileName) \<and>
    (\<forall>n \<in> {SelfSignedCertFileName, SelfSignedKeyFileName}.
       map_of (hf_files f') (filepath_Join (cm_dir sample_certs) n) = map_of (hf_files sample_files) (filepath_Join (cm_dir sample_certs) n)) \<and>
    (case parseChain cert_sample ''DSkUx'' of
       Inr chain \<Rightarrow> cm_loaded m' \<and> cm_cert m' = Some ([''Sk'', ''Ux''], ''k'') \<and> cm_chain m' = chain
     | Inl e \<Rightarrow> \<not> cm_loaded m' \<and> cm_loadErr m' = Some e)"
proof (rule import_stores_pair [OF cert_sample_ok])
  show "X509KeyPair cert_sample ''DSkUx'' ''Kk'' = Some ([''Sk'', ''Ux''], ''k'')" by code_simp
qed (simp_all add: sample_dir sample_open)

text \<open>In this instance the import reports success and no certificate is loaded: the second certificate is not one.\<close>

lemma import_reports_unusable:
  "\<exists>f' m'. ImportPEM cert_sample ''DSkUx'' ''Kk'' sample_files sample_certs = (None, f', m') \<and> \<not> cm_loaded m' \<and> cm_loaded sample_certs"
proof -
  have "(case ImportPEM cert_sample ''DSkUx'' ''Kk'' sample_files sample_certs of (e, f', m') \<Rightarrow> e = None \<and> \<not> cm_loaded m')"
    "cm_loaded sample_certs" by code_simp+
  then show ?thesis by (simp split: prod.splits)
qed

definition torn_files :: host_fs where
  "torn_files = (plain_fs [(''/c/imported.crt'', ''CSk''), (''/c/imported.key'', ''Kk'')])
     \<lparr>hf_write := (\<lambda>p d. if p = ''/c/imported.key'' then OpenFails else WriteDone)\<rparr>"

definition imported_config :: CertConfig where
  "imported_config = DefaultCertConfig\<lparr>cr_Source := CertSourceFile, cr_CertFile := ''/c/imported.crt'', cr_KeyFile := ''/c/imported.key''\<rparr>"

definition imported_certs :: "string CertManager" where
  "imported_certs = NewCertManager cert_sample torn_files ''/c'' imported_config"

lemma imported_sel: "cm_dir imported_certs = ''/c''" "cr_Source (cm_cfg imported_certs) = CertSourceFile"
  "cr_CertFile (cm_cfg imported_certs) = ''/c/imported.crt''" "cr_KeyFile (cm_cfg imported_certs) = ''/c/imported.key''"
  by code_simp+

theorem import_torn_witness:
  "\<exists>e f'. ImportPEM cert_sample ''CSn'' ''Kn'' torn_files imported_certs = (Some e, f', imported_certs) \<and>
     cm_loadErr (Reload cert_sample f' imported_certs) = Some KeyMismatch \<and> \<not> cm_loaded (Reload cert_sample f' imported_certs)"
proof (rule import_torn)
  show "X509KeyPair cert_sample ''CSn'' ''Kn'' = Some ([''Sn''], ''n'')" by code_simp
  show "os_ReadFile torn_files (filepath_Join (cm_dir imported_certs) ImportedKeyFileName) = ReadData ''Kk''"
    unfolding imported_sel sample_paths by code_simp
  show "X509KeyPair cert_sample ''CSn'' ''Kk'' = None" by code_simp
qed (simp_all add: imported_sel sample_paths sample_dir fs_open_def torn_files_def plain_fs_def)

definition container_files :: host_fs where "container_files = plain_fs [(''/c/x.p12'', ''X'')]"

definition container_certs :: "string CertManager" where
  "container_certs = NewCertManager cert_sample container_files ''/c'' (DefaultCertConfig\<lparr>cr_Source := CertSourcePKCS12, cr_CertFile := ''/c/x.p12''\<rparr>)"

theorem empty_password_container_witness:
  "cm_loadErr (Reload cert_sample container_files container_certs) = Some KeyMismatch \<and> \<not> cm_loaded (Reload cert_sample container_files container_certs)"
proof (rule empty_password_container)
  show "os_ReadFile container_files (cr_CertFile (cm_cfg container_certs)) = ReadData ''X''" by code_simp
  show "pkcs12_Decode cert_sample ''X'' [] = Some (Some ''k'', Some (sample_cert ''Sk'' (825 * day)))" by (simp add: cert_sample_def)
qed code_simp+

lemma sample_generated:
  "GenerateSelfSignedCert cert_sample sample_draw 0 ten_days = Inr (''CTn'', ''Kn'')"
  "GenerateSelfSignedCert cert_sample sample_draw 0 DefaultCertConfig = Inr (''CSn'', ''Kn'')"
  by code_simp+

theorem renewal_settles_witness:
  "\<exists>made f' m'. RenewSelfSignedIfNeeded cert_sample None sample_draw 0 ten_days (plain_fs []) sample_certs = (Inr made, f', m') \<and>
    ch_Loaded (Health 0 m') \<and> (NeedsRenewal (Health 0 m') \<longleftrightarrow> made \<and> cr_ValidDays (NormalizeCertConfig ten_days) \<le> 30)"
proof (rule renewal_settles [OF cert_sample_ok _ sample_generated(1)])
  show "self_signed_source (NormalizeCertConfig ten_days)" by code_simp
qed (simp_all add: sample_dir fs_open_def plain_fs_def)

text \<open>A certificate for ten days is replaced at every check.\<close>

lemma short_certificate_replaced:
  "case RenewSelfSignedIfNeeded cert_sample None sample_draw 0 ten_days sample_files
       (NewCertManager cert_sample (plain_fs [(''/c/server.crt'', ''CTk''), (''/c/server.key'', ''Kk'')]) ''/c'' ten_days) of
     (r, f', m') \<Rightarrow> r = Inr True \<and> cm_cert m' = Some ([''Tn''], ''n'')"
  by code_simp

theorem ensure_keeps_files_witness:
  "\<exists>m'. EnsureSelfSigned cert_sample None sample_draw 0 (DefaultCertConfig\<lparr>cr_DNSNames := [''new.lan'']\<rparr>) sample_files sample_certs = (Inr False, sample_files, m') \<and>
    cr_DNSNames (cm_cfg m') = trimNonEmpty (cr_DNSNames (DefaultCertConfig\<lparr>cr_DNSNames := [''new.lan'']\<rparr>)) \<and>
    (\<forall>pr chain. loadCertMaterial cert_sample sample_files (cm_dir sample_certs) (cm_cfg sample_certs) = Inr (pr, chain) \<longrightarrow>
       cm_cert m' = Some pr \<and> cm_chain m' = chain)"
  by (rule ensure_keeps_files) code_simp+

theorem ensure_overwrites_after_import_witness:
  "\<exists>f' m'. EnsureSelfSigned cert_sample None sample_draw 0 DefaultCertConfig sample_files imported_certs = (Inr True, f', m') \<and>
    map_of (hf_files f') (filepath_Join (cm_dir imported_certs) SelfSignedCertFileName) = Some ''CSn'' \<and>
    map_of (hf_files f') (filepath_Join (cm_dir imported_certs) SelfSignedKeyFileName) = Some ''Kn''"
  by (rule ensure_overwrites_after_import [OF cert_sample_ok sample_generated(2)])
    (simp_all add: imported_sel sample_dir sample_open sample_paths)

end
