(* ===== verification/Config_Store.thy ===== *)
theory Config_Store
  imports Cache_Policy Encrypted_Config Host_Files Core_Resolver Rule_Engine Local_Sources Zone Safe_Browsing Client_Resolver Query_Log
begin

text \<open>
  The configuration of the service and its file (\<open>config/config.go\<close>, \<open>config/store.go\<close>): defaults, addresses to listen on,
  normalisation, loading and saving.

  JSON is a parameter. The sections that normalisation does not touch (hosts files, rebinding, access, rate limits, DNS64, client
  subnets) are the type parameter of the record. The operations of the store exclude each other by a lock; another process
  or a crash sees the files between two system calls, which \<open>save_states\<close> lists.
\<close>

section \<open>Configuration\<close>

record DNSConfig =
  dn_UDPAddresses :: "string list"
  dn_TCPAddresses :: "string list"
  dn_ReadTimeout :: duration
  dn_WriteTimeout :: duration
  dn_AllowLAN :: bool
  dn_EnableEDE :: bool
  dn_BlockUnqualified :: bool
  dn_BlockPrivatePTR :: bool
  dn_BlockIPv6 :: bool
  dn_BlockECH :: bool
  dn_EDNSPadding :: int
  dn_BlockANY :: bool
  dn_BlockANYMode :: string

record IPCConfig =
  ip_ListenAddress :: string
  ip_AuthToken :: string

record TakeoverConfig =
  tk_AutoTakeoverOnStart :: bool
  tk_StateFilePath :: string

record LoginBgConfig =
  lb_Type :: string
  lb_URL :: string
  lb_Opacity :: int
  lb_Blur :: int
  lb_UpdatedAt :: int

record WebConfig =
  wb_Enabled :: bool
  wb_ListenPort :: int
  wb_Username :: string
  wb_PasswordHash :: string
  wb_Salt :: string
  wb_SessionTimeout :: duration
  wb_Background :: LoginBgConfig

record 'x Config =
  co_DNS :: DNSConfig
  co_Upstream :: ResolverConfig
  co_IPC :: IPCConfig
  co_Takeover :: TakeoverConfig
  co_Cache :: cache_config
  co_Filter :: FilterConfig
  co_Rewrite :: RewriteConfig
  co_Zone :: ZoneConfig
  co_SafeSearch :: SafeSearchConfig
  co_SafeBrowsing :: SafeBrowsingConfig
  co_Encrypted :: EncryptedDNSConfig
  co_Client :: ClientConfig
  co_Groups :: ClientGroupConfig          \<comment> \<open>the group fields of \<open>ClientConfig\<close>\<close>
  co_QueryLog :: query_log_config
  co_Web :: WebConfig
  co_rest :: 'x

definition ANYModeNotImp :: string where "ANYModeNotImp = ''notimp''"
definition ANYModeRFC8482 :: string where "ANYModeRFC8482 = ''rfc8482''"

definition default_addresses :: "string list" where
  "default_addresses = [''127.0.0.1:53'', ''[::1]:53'']"

definition default_bootstrap :: "BootstrapServer list" where
  "default_bootstrap =
     [\<lparr>bo_ID = ''bs-ali'', bo_Name = ''AliDNS'', bo_Address = ''223.5.5.5:53'', bo_Weight = 1\<rparr>,
      \<lparr>bo_ID = ''bs-dnspod'', bo_Name = ''DNSPod'', bo_Address = ''119.29.29.29:53'', bo_Weight = 1\<rparr>]"

definition default_dns :: DNSConfig where
  "default_dns = \<lparr>dn_UDPAddresses = default_addresses, dn_TCPAddresses = default_addresses, dn_ReadTimeout = 5 * second,
     dn_WriteTimeout = 5 * second, dn_AllowLAN = False, dn_EnableEDE = True, dn_BlockUnqualified = False, dn_BlockPrivatePTR = True,
     dn_BlockIPv6 = False, dn_BlockECH = False, dn_EDNSPadding = 128, dn_BlockANY = False, dn_BlockANYMode = ANYModeNotImp\<rparr>"

definition default_upstream :: ResolverConfig where
  "default_upstream =
     (let p = \<lparr>pv_ID = [], pv_Protocol = ProtocolDoT, pv_Server = [], pv_URL = [], pv_Weight = 0, pv_Pin = []\<rparr> in
      \<lparr>rv_Mode = mode_name ModePrimaryBackup,
       rv_Providers =
         [p\<lparr>pv_ID := [CHR 0xE9, CHR 0x98, CHR 0xBF, CHR 0xE9, CHR 0x87, CHR 0x8C, CHR 0xE4, CHR 0xBA, CHR 0x91] @ '' (DoT)'',
            pv_Server := ''dns.alidns.com:853''\<rparr>,
          p\<lparr>pv_ID := [CHR 0xE8, CHR 0x85, CHR 0xBE, CHR 0xE8, CHR 0xAE, CHR 0xAF, CHR 0xE4, CHR 0xBA, CHR 0x91] @ '' (DoT)'',
            pv_Server := ''dot.pub:853''\<rparr>],
       rv_Bootstrap = \<lparr>bc_Enabled = True, bc_Servers = default_bootstrap\<rparr>, rv_ConditionalRoutes = [], rv_EDNSPadding = 128,
       rv_FallbackProviders = [], rv_FallbackTimeoutMs = 0, rv_FallbackOnRcode = None, rv_FallbackOnError = None\<rparr>)"

definition default_web :: WebConfig where
  "default_web = \<lparr>wb_Enabled = True, wb_ListenPort = 15353, wb_Username = ''admin'', wb_PasswordHash = [], wb_Salt = [],
     wb_SessionTimeout = 7 * 24 * 3600 * second,
     wb_Background = \<lparr>lb_Type = ''none'', lb_URL = [], lb_Opacity = 40, lb_Blur = 0, lb_UpdatedAt = 0\<rparr>\<rparr>"

text \<open>The directories of the platform, the identifiers made from the clock, and the sections left out.\<close>

record 'x config_env =
  ce_rules :: rule_env
  ce_freshId :: string
  ce_zoneId :: "nat \<Rightarrow> string"
  ce_queryLogDir :: string
  ce_rest :: 'x

definition DefaultFilterConfig :: "rule_env \<Rightarrow> FilterConfig" where
  "DefaultFilterConfig V = \<lparr>fc_Enabled = True, fc_BlockMode = BlockModeNullIP, fc_BlockingIPv4 = DefaultBlockingIPv4,
     fc_BlockingIPv6 = DefaultBlockingIPv6, fc_CustomRules = Some [], fc_Lists = Some defaultSubscriptionLists,
     fc_UpdateIntervalHours = 24, fc_DataDir = rv_dataDir V, fc_ScheduleEnabled = False, fc_Schedules = Some [],
     fc_FilterResponse = False, fc_AllowlistOnly = False, fc_BogusNXDomain = False,
     fc_BogusNXDomainNetworks = DefaultBogusNXDomainNetworks, fc_BlockedServices = [], fc_BlockedServiceGroups = [],
     fc_ServiceSchedules = []\<rparr>"

definition DefaultConfig :: "'x config_env \<Rightarrow> 'x Config" where
  "DefaultConfig E = \<lparr>co_DNS = default_dns, co_Upstream = default_upstream,
     co_IPC = \<lparr>ip_ListenAddress = ''127.0.0.1:15353'', ip_AuthToken = []\<rparr>,
     co_Takeover = \<lparr>tk_AutoTakeoverOnStart = False, tk_StateFilePath = []\<rparr>,
     co_Cache = DefaultCacheConfig, co_Filter = DefaultFilterConfig (ce_rules E),
     co_Rewrite = \<lparr>rwc_Enabled = True, rwc_TTL = DefaultRewriteTTL, rwc_Rules = []\<rparr>,
     co_Zone = \<lparr>zc_Enabled = False, zc_TTL = DefaultZoneTTL, zc_Zones = []\<rparr>,
     co_SafeSearch = \<lparr>ssc_Enabled = False, ssc_Disabled = [], ssc_TTL = DefaultSafeSearchTTL\<rparr>,
     co_SafeBrowsing = \<lparr>sbc_Enabled = False, sbc_ParentalEnabled = False, sbc_TimeoutMs = DefaultSafeBrowsingTimeoutMs,
       sbc_CacheSize = 10000, sbc_CacheTTLSeconds = DefaultSafeBrowsingCacheTTL\<rparr>,
     co_Encrypted = DefaultEncryptedDNSConfig,
     co_Client = \<lparr>clc_Enabled = True, clc_EnableRDNS = True, clc_CacheTTL = 3600 * second, clc_Aliases = []\<rparr>,
     co_Groups = \<lparr>cgc_Enabled = False, cgc_Groups = []\<rparr>,
     co_QueryLog = \<lparr>qc_Enabled = True, qc_MaxEntries = DefaultMaxEntries, qc_FileEnabled = True, qc_RetentionDays = DefaultRetentionDays,
       qc_LogClients = True, qc_DataDir = ce_queryLogDir E\<rparr>,
     co_Web = default_web, co_rest = ce_rest E\<rparr>"

section \<open>Addresses to listen on\<close>

fun extractPort :: "string list \<Rightarrow> int" where
  "extractPort [] = 53"
| "extractPort (addr # rest) =
     (case SplitHostPort addr of
        Some (_, pStr) \<Rightarrow> (case Atoi pStr of Some p \<Rightarrow> if p > 0 then p else extractPort rest | None \<Rightarrow> extractPort rest)
      | None \<Rightarrow> extractPort rest)"

definition local_address :: "string \<Rightarrow> string option" where
  "local_address addr =
     (case SplitHostPort addr of None \<Rightarrow> None
      | Some (host, pStr) \<Rightarrow>
          if host = ''0.0.0.0'' \<or> host = [] then Some (''127.0.0.1:'' @ pStr)
          else if host = ''::'' \<or> host = ''[::]'' then Some (''[::1]:'' @ pStr)
          else Some addr)"

definition toLocal :: "int \<Rightarrow> string list \<Rightarrow> string list" where
  "toLocal port addrs =
     (let res = List.map_filter local_address addrs in
      if res = [] then [''127.0.0.1:'' @ itoa (nat port), ''[::1]:'' @ itoa (nat port)] else res)"

definition EffectiveListenAddresses :: "DNSConfig \<Rightarrow> string list \<times> string list" where
  "EffectiveListenAddresses c =
     (let port = (if extractPort (dn_UDPAddresses c) > 0 then extractPort (dn_UDPAddresses c)
                  else if extractPort (dn_TCPAddresses c) > 0 then extractPort (dn_TCPAddresses c) else 53)
      in if dn_AllowLAN c
         then (let lan = [''0.0.0.0:'' @ itoa (nat port), ''[::]:'' @ itoa (nat port)] in (lan, lan))
         else (toLocal port (dn_UDPAddresses c), toLocal port (dn_TCPAddresses c)))"

section \<open>Normalisation\<close>

definition normalize_dns :: "DNSConfig \<Rightarrow> DNSConfig" where
  "normalize_dns c =
     (let c1 = (if dn_UDPAddresses c = [] \<and> dn_TCPAddresses c = []
                then c\<lparr>dn_UDPAddresses := default_addresses, dn_TCPAddresses := default_addresses\<rparr> else c)
      in c1\<lparr>dn_ReadTimeout := (if dn_ReadTimeout c \<le> 0 then 5 * second else dn_ReadTimeout c),
            dn_WriteTimeout := (if dn_WriteTimeout c \<le> 0 then 5 * second else dn_WriteTimeout c),
            dn_EDNSPadding := max 0 (dn_EDNSPadding c),
            dn_BlockANYMode := (if dn_BlockANYMode c = ANYModeNotImp \<or> dn_BlockANYMode c = ANYModeRFC8482 then dn_BlockANYMode c
                                else ANYModeNotImp)\<rparr>)"

definition normalize_upstream :: "ResolverConfig \<Rightarrow> ResolverConfig" where
  "normalize_upstream c = c\<lparr>
     rv_Mode := (if rv_Mode c = [] then mode_name ModePrimaryBackup else rv_Mode c),
     rv_EDNSPadding := max 0 (rv_EDNSPadding c),
     rv_Bootstrap := (if bc_Servers (rv_Bootstrap c) = [] \<and> bc_Enabled (rv_Bootstrap c)
                      then (rv_Bootstrap c)\<lparr>bc_Servers := default_bootstrap\<rparr> else rv_Bootstrap c)\<rparr>"

definition clamp :: "int \<Rightarrow> int \<Rightarrow> int" where
  "clamp hi x = (if x < 0 then 0 else if x > hi then hi else x)"

definition normalize_background :: "LoginBgConfig \<Rightarrow> LoginBgConfig" where
  "normalize_background b =
     (let o1 = (if lb_Opacity b \<le> 0 \<and> lb_Type b = [] then 40 else lb_Opacity b) in
      b\<lparr>lb_Opacity := clamp 100 o1, lb_Blur := clamp 20 (lb_Blur b)\<rparr>)"

definition normalize_web :: "WebConfig \<Rightarrow> WebConfig" where
  "normalize_web w = w\<lparr>wb_ListenPort := (if wb_ListenPort w \<le> 0 then 15353 else wb_ListenPort w),
     wb_Background := normalize_background (wb_Background w)\<rparr>"

definition normalizeConfig :: "'x config_env \<Rightarrow> 'x Config \<Rightarrow> 'x Config" where
  "normalizeConfig E c = c\<lparr>
     co_DNS := normalize_dns (co_DNS c),
     co_IPC := (co_IPC c)\<lparr>ip_ListenAddress := (if ip_ListenAddress (co_IPC c) = [] then ''127.0.0.1:15353'' else ip_ListenAddress (co_IPC c))\<rparr>,
     co_Upstream := normalize_upstream (co_Upstream c),
     co_Web := normalize_web (co_Web c),
     co_Cache := NormalizeCacheConfig (co_Cache c),
     co_Filter := NormalizeFilterConfig (ce_rules E) (ce_freshId E) (co_Filter c),
     co_Rewrite := NormalizeRewriteConfig (co_Rewrite c),
     co_Zone := NormalizeZoneConfig (ce_zoneId E) (co_Zone c),
     co_SafeSearch := NormalizeSafeSearchConfig (co_SafeSearch c),
     co_SafeBrowsing := NormalizeSafeBrowsingConfig (co_SafeBrowsing c),
     co_Encrypted := NormalizeEncryptedDNSConfig (co_Encrypted c),
     co_Groups := fst (NormalizeClientGroupConfig (ce_freshId E) (co_Groups c)),
     co_QueryLog := NormalizeQueryLogConfig (ce_queryLogDir E) (co_QueryLog c)\<rparr>"

section \<open>The file\<close>

record 'x config_json =
  MarshalIndent :: "'x Config \<Rightarrow> string option"
  UnmarshalInto :: "'x Config \<Rightarrow> string \<Rightarrow> 'x Config option"   \<comment> \<open>fields the text lacks keep their value\<close>

datatype store_error =
    ReadConfigFailed | UnmarshalConfigFailed | ConfigDirFailed | MarshalConfigFailed | WriteTempFailed | ReplaceFailed

definition LoadConfig :: "'x config_env \<Rightarrow> 'x config_json \<Rightarrow> host_fs \<Rightarrow> string \<Rightarrow> store_error + 'x Config" where
  "LoadConfig E J f path =
     (case os_ReadFile f path of
        NotExist \<Rightarrow> Inr (DefaultConfig E)
      | ReadFails \<Rightarrow> Inl ReadConfigFailed
      | ReadData data \<Rightarrow>
          (case UnmarshalInto J (DefaultConfig E) data of None \<Rightarrow> Inl UnmarshalConfigFailed
           | Some cfg \<Rightarrow> Inr (normalizeConfig E cfg)))"

text \<open>\<open>path\<close> is the default path when none was given; \<open>cfg\<close> the default configuration for a nil one.\<close>

definition SaveConfig :: "'x config_json \<Rightarrow> string \<Rightarrow> 'x Config \<Rightarrow> host_fs \<Rightarrow> store_error option \<times> host_fs" where
  "SaveConfig J path cfg f =
     (if \<not> hf_mkdir f (filepath_Dir path) then (Some ConfigDirFailed, f)
      else case MarshalIndent J cfg of None \<Rightarrow> (Some MarshalConfigFailed, f)
      | Some data \<Rightarrow>
         (let tmpFile = path @ ''.tmp'' in
          case os_WriteFile f tmpFile data of
            (False, f1) \<Rightarrow> (Some WriteTempFailed, f1)
          | (True, f1) \<Rightarrow>
             (let f2 = os_Remove f1 path in
              case os_Rename f2 tmpFile path of
                (True, f3) \<Rightarrow> (None, f3)
              | (False, f3) \<Rightarrow> (Some ReplaceFailed, os_Remove f3 tmpFile))))"

text \<open>What the disk holds before and after each system call of a save.\<close>

definition save_states :: "'x config_json \<Rightarrow> string \<Rightarrow> 'x Config \<Rightarrow> host_fs \<Rightarrow> host_fs list" where
  "save_states J path cfg f =
     (if \<not> hf_mkdir f (filepath_Dir path) then [f]
      else case MarshalIndent J cfg of None \<Rightarrow> [f]
      | Some data \<Rightarrow>
         (let tmpFile = path @ ''.tmp'' in
          case os_WriteFile f tmpFile data of
            (False, f1) \<Rightarrow> [f, f1]
          | (True, f1) \<Rightarrow>
             (let f2 = os_Remove f1 path in
              case os_Rename f2 tmpFile path of
                (True, f3) \<Rightarrow> [f, f1, f2, f3]
              | (False, f3) \<Rightarrow> [f, f1, f2, f3, os_Remove f3 tmpFile])))"

end
