(* ===== verification/Config_Facts.thy ===== *)
theory Config_Facts
  imports Config_Store Encrypted_Facts
begin

text \<open>
  What holds of the configuration file: a saved configuration is read back, how a save that fails or is interrupted leaves
  the file, what normalisation guarantees, and which addresses the service listens on.
\<close>

section \<open>Saving and loading\<close>

lemma tmp_differs [simp]: "path @ ''.tmp'' \<noteq> path" "path \<noteq> path @ ''.tmp''"
  by simp_all

lemma os_WriteFile_other: "os_WriteFile f q d = (b, f') \<Longrightarrow> p \<noteq> q \<Longrightarrow> os_ReadFile f' p = os_ReadFile f p"
  by (auto simp: os_WriteFile_def os_ReadFile_put split: write_outcome.splits)

lemma os_WriteFile_sel: "os_WriteFile f q d = (b, f') \<Longrightarrow> hf_remove f' = hf_remove f"
  by (auto simp: os_WriteFile_def hf_put_def split: write_outcome.splits)

lemma os_Remove_read:
  "os_ReadFile (os_Remove f q) p = (if p = q \<and> hf_remove f q then NotExist else os_ReadFile f p)"
  by (auto simp: os_Remove_def os_ReadFile_def split: option.split)

lemma os_Remove_sel [simp]: "hf_remove (os_Remove f q) = hf_remove f" "hf_rename (os_Remove f q) = hf_rename f" "hf_read (os_Remove f q) = hf_read f"
  by (simp_all add: os_Remove_def)

lemma os_Rename_fail: "os_Rename f src dst = (False, f') \<Longrightarrow> f' = f"
  by (auto simp: os_Rename_def split: option.splits if_splits)

lemma saved_is_loaded:
  assumes "SaveConfig J path cfg f = (None, f')" "\<forall>d. MarshalIndent J cfg = Some d \<longrightarrow> UnmarshalInto J (DefaultConfig E) d = Some cfg"
    and "hf_read f path"
  shows "LoadConfig E J f' path = Inr (normalizeConfig E cfg)" "\<not> fileExists f' (path @ ''.tmp'')"
proof -
  let ?t = "path @ ''.tmp''"
  obtain d f1 where d: "MarshalIndent J cfg = Some d" and w: "os_WriteFile f ?t d = (True, f1)"
      and r: "os_Rename (os_Remove f1 path) ?t path = (True, f')"
    using assms(1) by (auto simp: SaveConfig_def Let_def split: if_splits option.splits prod.splits bool.splits)
  have f1: "f1 = hf_put f ?t d" using w by (auto simp: os_WriteFile_def split: write_outcome.splits)
  have "map_of (hf_files (os_Remove f1 path)) ?t = Some d" by (simp add: f1 os_Remove_def update_conv')
  then have "f' = (os_Remove f1 path)\<lparr>hf_files := AList.update path d (AList.delete ?t (hf_files (os_Remove f1 path)))\<rparr>"
    using r by (auto simp: os_Rename_def split: if_splits)
  then have "os_ReadFile f' path = ReadData d" "\<not> fileExists f' ?t"
    using assms(3) by (simp_all add: os_ReadFile_def fileExists_def update_conv' f1 os_Remove_def)
  then show "LoadConfig E J f' path = Inr (normalizeConfig E cfg)" "\<not> fileExists f' ?t"
    using assms(2) d by (simp_all add: LoadConfig_def)
qed

text \<open>
  A configuration that was saved without error is the one that is loaded next, normalised, and no temporary file stays behind.
\<close>

theorem save_then_load:
  assumes "SaveConfig J path cfg f = (None, f')" "\<forall>d. MarshalIndent J cfg = Some d \<longrightarrow> UnmarshalInto J (DefaultConfig E) d = Some cfg"
    and "hf_read f path"
  shows "LoadConfig E J f' path = Inr (normalizeConfig E cfg) \<and> \<not> fileExists f' (path @ ''.tmp'')"
  using saved_is_loaded [OF assms] by blast

text \<open>
  C37. A save that fails before the replacement leaves the stored configuration as it was. A save whose replacement fails has
  removed it already, and removes the new one too: what is loaded next are the defaults, without the administrator's
  password.
\<close>

theorem failed_save_outcome:
  assumes "SaveConfig J path cfg f = (Some e, f')"
  shows "LoadConfig E J f' path = (if e = ReplaceFailed \<and> hf_remove f path then Inr (DefaultConfig E) else LoadConfig E J f path)"
proof -
  let ?t = "path @ ''.tmp''"
  consider "f' = f" "e \<noteq> ReplaceFailed"
    | d where "os_WriteFile f ?t d = (False, f')" "e \<noteq> ReplaceFailed"
    | d f1 f3 where "os_WriteFile f ?t d = (True, f1)" "os_Rename (os_Remove f1 path) ?t path = (False, f3)"
        "f' = os_Remove f3 ?t" "e = ReplaceFailed"
    using assms by (auto simp: SaveConfig_def Let_def split: if_splits option.splits prod.splits bool.splits)
  then show ?thesis
  proof cases
    case 1
    then show ?thesis by simp
  next
    case (2 d)
    then show ?thesis using os_WriteFile_other [of f ?t d False f' path] by (simp add: LoadConfig_def)
  next
    case (3 d f1 f3)
    have "os_ReadFile f' path = (if hf_remove f path then NotExist else os_ReadFile f path)"
      using 3(3) os_Rename_fail [OF 3(2)] os_WriteFile_other [OF 3(1), of path] os_WriteFile_sel [OF 3(1)] by (simp add: os_Remove_read)
    then show ?thesis using 3(4) by (simp add: LoadConfig_def)
  qed
qed

text \<open>
  A save that is interrupted leaves the old configuration, the new one, or, between the removal of the old file and the
  renaming of the new one, none: what is then loaded are the defaults. The last case is met in every save over a
  file that can be removed.
\<close>

theorem interrupted_save:
  assumes "MarshalIndent J cfg = Some d" "UnmarshalInto J (DefaultConfig E) d = Some cfg" "hf_read f path" "hf_remove f path"
    and "hf_mkdir f (filepath_Dir path)" "\<forall>p x. hf_write f p x = WriteDone" "\<forall>p q. hf_rename f p q"
  shows "map (\<lambda>s. LoadConfig E J s path) (save_states J path cfg f) =
    [LoadConfig E J f path, LoadConfig E J f path, Inr (DefaultConfig E), Inr (normalizeConfig E cfg)]"
proof -
  let ?t = "path @ ''.tmp''" and ?f1 = "hf_put f (path @ ''.tmp'') d"
  let ?f3 = "(os_Remove ?f1 path)\<lparr>hf_files := AList.update path d (AList.delete ?t (hf_files (os_Remove ?f1 path)))\<rparr>"
  have w: "os_WriteFile f ?t d = (True, ?f1)" using assms(6) by (simp add: os_WriteFile_def)
  have "hf_remove ?f1 = hf_remove f" "hf_rename ?f1 = hf_rename f" by (simp_all add: hf_put_def)
  note s = this
  have t: "map_of (hf_files (os_Remove ?f1 path)) ?t = Some d" by (simp add: os_Remove_def update_conv')
  have r: "os_Rename (os_Remove ?f1 path) ?t path = (True, ?f3)"
    unfolding os_Rename_def t using assms(7) s by simp
  have "os_ReadFile ?f1 path = os_ReadFile f path" "os_ReadFile (os_Remove ?f1 path) path = NotExist"
    using assms(4) s by (simp_all add: os_ReadFile_put os_Remove_read)
  moreover have "os_ReadFile ?f3 path = ReadData d"
    using assms(3) by (simp add: os_ReadFile_def update_conv')
  ultimately show ?thesis
    using assms(1,2,5) by (simp add: save_states_def w r Let_def) (simp add: LoadConfig_def)
qed

text \<open>An instance: one configuration with a password, its text, and a disk on which the last renaming may fail.\<close>

definition plain_rules :: rule_env where
  "plain_rules = \<lparr>rv_parseLine = (\<lambda>_ _. None), rv_parseText = (\<lambda>_ _. None), rv_build = (\<lambda>_. Inl []), rv_buildRR = (\<lambda>_ _ _ _. None),
     rv_typeName = (\<lambda>_. []), rv_rrText = (\<lambda>_. []), rv_catalog = None, rv_dataDir = ''/var/diting'', rv_checksum = (\<lambda>_. []),
     rv_local = (\<lambda>_. \<lparr>ck_Weekday = 0, ck_Hour = 0, ck_Minute = 0\<rparr>)\<rparr>"

definition plain_env :: "unit config_env" where
  "plain_env = \<lparr>ce_rules = plain_rules, ce_freshId = ''s'', ce_zoneId = (\<lambda>_. ''z''), ce_queryLogDir = ''/var/log'', ce_rest = ()\<rparr>"

definition owned_config :: "unit Config" where
  "owned_config = (DefaultConfig plain_env)\<lparr>co_Web := default_web\<lparr>wb_PasswordHash := ''h''\<rparr>\<rparr>"

definition plain_json :: "unit config_json" where
  "plain_json = \<lparr>MarshalIndent = (\<lambda>_. Some ''J''), UnmarshalInto = (\<lambda>_ d. if d = ''J'' then Some owned_config else None)\<rparr>"

definition stored :: host_fs where "stored = plain_fs [(''/etc/d.json'', ''J'')]"

lemma stored_sel: "hf_read stored p" "hf_remove stored p" "hf_mkdir stored p" "hf_write stored p d = WriteDone" "hf_rename stored p q"
  by (simp_all add: stored_def plain_fs_def)

theorem save_then_load_witness:
  "LoadConfig plain_env plain_json (snd (SaveConfig plain_json ''/etc/d.json'' owned_config stored)) ''/etc/d.json'' = Inr (normalizeConfig plain_env owned_config) \<and>
   \<not> fileExists (snd (SaveConfig plain_json ''/etc/d.json'' owned_config stored)) (''/etc/d.json'' @ ''.tmp'')"
proof (rule save_then_load)
  show "SaveConfig plain_json ''/etc/d.json'' owned_config stored = (None, snd (SaveConfig plain_json ''/etc/d.json'' owned_config stored))"
    by (simp add: SaveConfig_def stored_sel plain_json_def os_WriteFile_def os_Rename_def os_Remove_def hf_put_def Let_def)
      (simp add: stored_def plain_fs_def)
qed (simp_all add: plain_json_def stored_sel)

theorem failed_save_outcome_witness:
  "LoadConfig plain_env plain_json
     (snd (SaveConfig plain_json ''/etc/d.json'' owned_config (stored\<lparr>hf_rename := (\<lambda>_ _. False)\<rparr>))) ''/etc/d.json'' =
   (if ReplaceFailed = ReplaceFailed \<and> hf_remove (stored\<lparr>hf_rename := (\<lambda>_ _. False)\<rparr>) ''/etc/d.json'' then Inr (DefaultConfig plain_env)
    else LoadConfig plain_env plain_json (stored\<lparr>hf_rename := (\<lambda>_ _. False)\<rparr>) ''/etc/d.json'')"
proof (rule failed_save_outcome)
  let ?f = "stored\<lparr>hf_rename := (\<lambda>_ _. False)\<rparr>"
  show "SaveConfig plain_json ''/etc/d.json'' owned_config ?f = (Some ReplaceFailed, snd (SaveConfig plain_json ''/etc/d.json'' owned_config ?f))"
    by (simp add: SaveConfig_def plain_json_def os_WriteFile_def os_Rename_def os_Remove_def hf_put_def stored_def plain_fs_def Let_def)
qed

theorem interrupted_save_witness:
  "map (\<lambda>s. LoadConfig plain_env plain_json s ''/etc/d.json'') (save_states plain_json ''/etc/d.json'' owned_config stored) =
    [LoadConfig plain_env plain_json stored ''/etc/d.json'', LoadConfig plain_env plain_json stored ''/etc/d.json'',
     Inr (DefaultConfig plain_env), Inr (normalizeConfig plain_env owned_config)]"
  by (rule interrupted_save [where d = "''J''"]) (simp_all add: plain_json_def stored_sel)

section \<open>Normalisation\<close>

lemma keep_valid_valid:
  "set (keep_valid xs seen) \<subseteq> set SafeSearchServices - set seen" "distinct (keep_valid xs seen)"
  by (induction xs seen rule: keep_valid.induct) auto

lemma keep_valid_id: "distinct xs \<Longrightarrow> set xs \<subseteq> set SafeSearchServices - set seen \<Longrightarrow> keep_valid xs seen = xs"
  by (induction xs seen rule: keep_valid.induct) auto

lemma section_idem:
  "normalize_dns (normalize_dns d) = normalize_dns d"
  "normalize_upstream (normalize_upstream u) = normalize_upstream u"
  "normalize_web (normalize_web w) = normalize_web w"
  "NormalizeCacheConfig (NormalizeCacheConfig c) = NormalizeCacheConfig c"
  "NormalizeRewriteConfig (NormalizeRewriteConfig r) = NormalizeRewriteConfig r"
  "NormalizeSafeSearchConfig (NormalizeSafeSearchConfig s) = NormalizeSafeSearchConfig s"
  "NormalizeSafeBrowsingConfig (NormalizeSafeBrowsingConfig b) = NormalizeSafeBrowsingConfig b"
  "NormalizeQueryLogConfig dir (NormalizeQueryLogConfig dir q) = NormalizeQueryLogConfig dir q"
proof -
  show "normalize_dns (normalize_dns d) = normalize_dns d"
    by (auto simp: normalize_dns_def default_addresses_def second_def ANYModeNotImp_def ANYModeRFC8482_def Let_def)
  show "normalize_upstream (normalize_upstream u) = normalize_upstream u"
    by (auto simp: normalize_upstream_def default_bootstrap_def)
  show "normalize_web (normalize_web w) = normalize_web w"
    by (auto simp: normalize_web_def normalize_background_def clamp_def Let_def)
  show "NormalizeCacheConfig (NormalizeCacheConfig c) = NormalizeCacheConfig c"
    by (auto simp: NormalizeCacheConfig_def normalize_defs cache_const_defs Let_def)
  show "NormalizeRewriteConfig (NormalizeRewriteConfig r) = NormalizeRewriteConfig r"
    by (auto simp: NormalizeRewriteConfig_def DefaultRewriteTTL_def)
  show "NormalizeSafeSearchConfig (NormalizeSafeSearchConfig s) = NormalizeSafeSearchConfig s"
  proof -
    have "keep_valid (keep_valid (ssc_Disabled s) []) [] = keep_valid (ssc_Disabled s) []"
      by (rule keep_valid_id) (rule keep_valid_valid)+
    then show ?thesis by (auto simp: NormalizeSafeSearchConfig_def DefaultSafeSearchTTL_def)
  qed
  show "NormalizeSafeBrowsingConfig (NormalizeSafeBrowsingConfig b) = NormalizeSafeBrowsingConfig b"
    by (auto simp: NormalizeSafeBrowsingConfig_def DefaultSafeBrowsingTimeoutMs_def DefaultSafeBrowsingCacheTTL_def)
  show "NormalizeQueryLogConfig dir (NormalizeQueryLogConfig dir q) = NormalizeQueryLogConfig dir q"
    by (auto simp: NormalizeQueryLogConfig_def DefaultMaxEntries_def DefaultRetentionDays_def Let_def)
qed

text \<open>
  A loaded configuration can be used as it is: there is an address to listen on, timeouts and ports are positive, the numbers of
  the login page are in range; and normalising it again, as a save and a load do, changes none of these sections.
\<close>

theorem normalized_config_usable:
  "let c' = normalizeConfig E c; c'' = normalizeConfig E c' in
     (dn_UDPAddresses (co_DNS c') \<noteq> [] \<or> dn_TCPAddresses (co_DNS c') \<noteq> []) \<and>
     0 < dn_ReadTimeout (co_DNS c') \<and> 0 < dn_WriteTimeout (co_DNS c') \<and> 0 \<le> dn_EDNSPadding (co_DNS c') \<and>
     dn_BlockANYMode (co_DNS c') \<in> {ANYModeNotImp, ANYModeRFC8482} \<and> ip_ListenAddress (co_IPC c') \<noteq> [] \<and>
     rv_Mode (co_Upstream c') \<noteq> [] \<and> 0 < wb_ListenPort (co_Web c') \<and>
     lb_Opacity (wb_Background (co_Web c')) \<in> {0..100} \<and> lb_Blur (wb_Background (co_Web c')) \<in> {0..20} \<and>
     (bc_Enabled (rv_Bootstrap (co_Upstream c')) \<longrightarrow> bc_Servers (rv_Bootstrap (co_Upstream c')) \<noteq> []) \<and>
     co_DNS c'' = co_DNS c' \<and> co_IPC c'' = co_IPC c' \<and> co_Upstream c'' = co_Upstream c' \<and> co_Web c'' = co_Web c' \<and>
     co_Cache c'' = co_Cache c' \<and> co_Rewrite c'' = co_Rewrite c' \<and> co_SafeSearch c'' = co_SafeSearch c' \<and>
     co_SafeBrowsing c'' = co_SafeBrowsing c' \<and> co_Encrypted c'' = co_Encrypted c' \<and> co_QueryLog c'' = co_QueryLog c'"
proof -
  have "NormalizeEncryptedDNSConfig (NormalizeEncryptedDNSConfig e) = NormalizeEncryptedDNSConfig e" for e
    using NormalizeEncrypted_idem by blast
  then have "let c' = normalizeConfig E c; c'' = normalizeConfig E c' in
     co_DNS c'' = co_DNS c' \<and> co_IPC c'' = co_IPC c' \<and> co_Upstream c'' = co_Upstream c' \<and> co_Web c'' = co_Web c' \<and>
     co_Cache c'' = co_Cache c' \<and> co_Rewrite c'' = co_Rewrite c' \<and> co_SafeSearch c'' = co_SafeSearch c' \<and>
     co_SafeBrowsing c'' = co_SafeBrowsing c' \<and> co_Encrypted c'' = co_Encrypted c' \<and> co_QueryLog c'' = co_QueryLog c'"
    by (simp add: normalizeConfig_def section_idem Let_def)
  moreover have "let d = normalize_dns x in (dn_UDPAddresses d \<noteq> [] \<or> dn_TCPAddresses d \<noteq> []) \<and> 0 < dn_ReadTimeout d \<and>
      0 < dn_WriteTimeout d \<and> 0 \<le> dn_EDNSPadding d \<and> dn_BlockANYMode d \<in> {ANYModeNotImp, ANYModeRFC8482}" for x
    by (auto simp: normalize_dns_def default_addresses_def second_def Let_def)
  moreover have "let u = normalize_upstream x in rv_Mode u \<noteq> [] \<and> (bc_Enabled (rv_Bootstrap u) \<longrightarrow> bc_Servers (rv_Bootstrap u) \<noteq> [])" for x
    by (auto simp: normalize_upstream_def default_bootstrap_def Let_def)
  moreover have "let w = normalize_web x in 0 < wb_ListenPort w \<and> lb_Opacity (wb_Background w) \<in> {0..100} \<and> lb_Blur (wb_Background w) \<in> {0..20}" for x
    by (auto simp: normalize_web_def normalize_background_def clamp_def Let_def)
  ultimately show ?thesis
    unfolding Let_def by (simp add: normalizeConfig_def)
qed

section \<open>Addresses\<close>

lemma toLocal_origin:
  assumes "a \<in> set (toLocal port addrs)"
  shows "(\<exists>p. a = ''127.0.0.1:'' @ p \<or> a = ''[::1]:'' @ p) \<or>
    a \<in> set addrs \<and> (\<exists>h p. SplitHostPort a = Some (h, p) \<and> h \<notin> {''0.0.0.0'', [], ''::'', ''[::]''})"
proof -
  have one: "(\<exists>p. y = ''127.0.0.1:'' @ p \<or> y = ''[::1]:'' @ p) \<or>
      y = x \<and> (\<exists>h p. SplitHostPort x = Some (h, p) \<and> h \<notin> {''0.0.0.0'', [], ''::'', ''[::]''})" if "local_address x = Some y" for x y
    using that unfolding local_address_def by (auto split: option.splits if_splits)
  have "y \<in> set (List.map_filter local_address addrs) \<Longrightarrow> \<exists>x\<in>set addrs. local_address x = Some y" for y
    by (induction addrs) (auto split: option.splits)
  then show ?thesis using assms one unfolding toLocal_def Let_def by (auto split: if_splits) blast+
qed

text \<open>
  Unless the service is opened to the local network, every address it listens on is a loopback address or one that was
  configured with a host of its own, other than the usual ways to write all interfaces.
\<close>

theorem listens_locally:
  assumes "\<not> dn_AllowLAN c" "a \<in> set (fst (EffectiveListenAddresses c)) \<union> set (snd (EffectiveListenAddresses c))"
  shows "(\<exists>p. a = ''127.0.0.1:'' @ p \<or> a = ''[::1]:'' @ p) \<or>
    a \<in> set (dn_UDPAddresses c) \<union> set (dn_TCPAddresses c) \<and>
    (\<exists>h p. SplitHostPort a = Some (h, p) \<and> h \<notin> {''0.0.0.0'', [], ''::'', ''[::]''})"
proof -
  obtain port where "a \<in> set (toLocal port (dn_UDPAddresses c)) \<or> a \<in> set (toLocal port (dn_TCPAddresses c))"
    using assms unfolding EffectiveListenAddresses_def Let_def by auto
  then show ?thesis using toLocal_origin [of a port] by blast
qed

theorem listens_locally_witness:
  "(\<exists>p. ''[::1]:53'' = ''127.0.0.1:'' @ p \<or> ''[::1]:53'' = ''[::1]:'' @ p) \<or>
    ''[::1]:53'' \<in> set (dn_UDPAddresses default_dns) \<union> set (dn_TCPAddresses default_dns) \<and>
    (\<exists>h p. SplitHostPort ''[::1]:53'' = Some (h, p) \<and> h \<notin> {''0.0.0.0'', [], ''::'', ''[::]''})"
  by (rule listens_locally) code_simp+

text \<open>
  There are other ways to write all interfaces: an address with the host \<open>::0\<close> stays as it is, and the service is open to the network
  although it was told not to be.
\<close>

theorem wildcard_spelling_kept:
  "EffectiveListenAddresses (default_dns\<lparr>dn_UDPAddresses := [''[::0]:53''], dn_TCPAddresses := []\<rparr>) =
     ([''[::0]:53''], [''127.0.0.1:53'', ''[::1]:53'']) \<and> IsUnspecified (ParseIP ''::0'')"
  by code_simp

text \<open>
  On the local network the port is that of the UDP addresses: the port of the TCP addresses is never looked at, because a list without
  a port stands for port 53.
\<close>

lemma extractPort_pos: "extractPort addrs > 0"
  by (induction addrs) (auto split: option.splits)

theorem lan_port_is_udp_port:
  assumes "dn_AllowLAN c"
  shows "EffectiveListenAddresses c =
    (let p = itoa (nat (extractPort (dn_UDPAddresses c))) in ([''0.0.0.0:'' @ p, ''[::]:'' @ p], [''0.0.0.0:'' @ p, ''[::]:'' @ p]))"
  using assms extractPort_pos [of "dn_UDPAddresses c"] by (simp add: EffectiveListenAddresses_def Let_def)

theorem lan_port_is_udp_port_witness:
  "EffectiveListenAddresses (default_dns\<lparr>dn_AllowLAN := True, dn_UDPAddresses := [], dn_TCPAddresses := [''127.0.0.1:5353'']\<rparr>) =
    (let p = itoa (nat (extractPort [])) in ([''0.0.0.0:'' @ p, ''[::]:'' @ p], [''0.0.0.0:'' @ p, ''[::]:'' @ p]))"
  using lan_port_is_udp_port [of "default_dns\<lparr>dn_AllowLAN := True, dn_UDPAddresses := [], dn_TCPAddresses := [''127.0.0.1:5353'']\<rparr>"]
  by simp

end
