(* ===== verification/Encrypted_Control.thy ===== *)
theory Encrypted_Control
  imports Cert_Facts Config_Facts
begin

text \<open>
  The operations of the console on the encrypted listeners and their certificate (\<open>cmd/service/controller_encrypted.go\<close>):
  status, configuration, generation and import, each with what it does to the configuration, the certificate manager and
  the files. The rebuilding of the listeners that follows a change is counted and is otherwise outside; so is the answer of the platform about
  addresses of the local network, which is an argument, like base64 decoding.
\<close>

section \<open>State\<close>

record ('x, 'k) service =
  sv_cfg :: "'x Config"
  sv_certs :: "'k CertManager option"
  sv_path :: string
  sv_disk :: host_fs
  sv_rebuilt :: nat

record 'k cert_world =
  cw_lib :: "'k cert_lib"
  cw_cwd :: "string option"
  cw_draw :: "'k draw"
  cw_now :: time

definition persistConfigLocked :: "'x config_json \<Rightarrow> ('x, 'k) service \<Rightarrow> ('x, 'k) service" where
  "persistConfigLocked J s =
     (if sv_path s = [] then s else s\<lparr>sv_disk := snd (SaveConfig J (sv_path s) (sv_cfg s) (sv_disk s))\<rparr>)"

definition rebuild :: "('x, 'k) service \<Rightarrow> ('x, 'k) service" where
  "rebuild s = s\<lparr>sv_rebuilt := Suc (sv_rebuilt s)\<rparr>"

definition set_encrypted :: "EncryptedDNSConfig \<Rightarrow> ('x, 'k) service \<Rightarrow> ('x, 'k) service" where
  "set_encrypted e s = s\<lparr>sv_cfg := (sv_cfg s)\<lparr>co_Encrypted := e\<rparr>\<rparr>"

section \<open>Status\<close>

definition dohURLs :: "string list option \<Rightarrow> EncryptedDNSConfig \<Rightarrow> string list" where
  "dohURLs lan cfg =
     (let name = trim_space (en_ServerName cfg);
          hosts = (if name \<noteq> [] then [name] else []) @ (case lan of Some as \<Rightarrow> as | None \<Rightarrow> [])
      in DoHURLs hosts (en_DoHPort cfg) (en_DoHPath cfg))"

text \<open>
  The summary of the certificate is the zero value where there is no manager, here \<open>None\<close>. The addresses the listeners are
  bound to (DoT, DoH, DoQ; empty without a server) are asked of the server and given as an argument.
\<close>

record encrypted_status =
  es_Config :: EncryptedDNSConfig
  es_Cert :: "CertInfo option"
  es_CertDir :: string
  es_Listen :: "string \<times> string \<times> string"
  es_DoHURLs :: "string list"
  es_UnrestrictedTrust :: bool
  es_DefaultPorts :: "int \<times> int \<times> int"
  es_DefaultDoHPath :: string
  es_CertExpiresSoon :: bool
  es_CertExpired :: bool

definition GetEncryptedDNS ::
  "'k cert_world \<Rightarrow> string list option \<Rightarrow> string \<times> string \<times> string \<Rightarrow> ('x, 'k) service \<Rightarrow> encrypted_status \<times> ('x, 'k) service" where
  "GetEncryptedDNS W lan bound s =
     (let cfg = co_Encrypted (sv_cfg s); m = map_option (Reload (cw_lib W) (sv_disk s)) (sv_certs s);
          health = map_option (Health (cw_now W)) m
      in (\<lparr>es_Config = cfg, es_Cert = map_option (Info (cw_lib W) (cw_now W)) m,
           es_CertDir = (case m of None \<Rightarrow> [] | Some c \<Rightarrow> cm_dir c), es_Listen = bound, es_DoHURLs = dohURLs lan cfg,
           es_UnrestrictedTrust = HasUnrestrictedTrust (rp_TrustedSources (en_ReverseProxy cfg)),
           es_DefaultPorts = (DefaultDoTPort, DefaultDoHPort, DefaultDoQPort), es_DefaultDoHPath = DefaultDoHPath,
           es_CertExpiresSoon = (case health of None \<Rightarrow> False | Some h \<Rightarrow> ch_ExpiresSoon h),
           es_CertExpired = (case health of None \<Rightarrow> False | Some h \<Rightarrow> ch_Expired h)\<rparr>,
          s\<lparr>sv_certs := m\<rparr>))"

section \<open>Configuration\<close>

record ConfigureEncryptedDNSRequest =
  ce_Enabled :: "bool option"
  ce_DoTEnabled :: "bool option"
  ce_DoHEnabled :: "bool option"
  ce_DoQEnabled :: "bool option"
  ce_DDREnabled :: "bool option"
  ce_ListenAddress :: "string option"
  ce_DoTPort :: "int option"
  ce_DoHPort :: "int option"
  ce_DoQPort :: "int option"
  ce_DoHPath :: "string option"
  ce_ServerName :: "string option"
  ce_Cert :: "CertConfig option"

definition given :: "'a option \<Rightarrow> 'a \<Rightarrow> 'a" where
  "given o1 d = (case o1 of None \<Rightarrow> d | Some x \<Rightarrow> x)"

definition apply_request :: "ConfigureEncryptedDNSRequest \<Rightarrow> EncryptedDNSConfig \<Rightarrow> EncryptedDNSConfig" where
  "apply_request r c = c\<lparr>en_Enabled := given (ce_Enabled r) (en_Enabled c), en_DoTEnabled := given (ce_DoTEnabled r) (en_DoTEnabled c),
     en_DoHEnabled := given (ce_DoHEnabled r) (en_DoHEnabled c), en_DoQEnabled := given (ce_DoQEnabled r) (en_DoQEnabled c),
     en_DDREnabled := given (ce_DDREnabled r) (en_DDREnabled c), en_ListenAddress := given (ce_ListenAddress r) (en_ListenAddress c),
     en_DoTPort := given (ce_DoTPort r) (en_DoTPort c), en_DoHPort := given (ce_DoHPort r) (en_DoHPort c),
     en_DoQPort := given (ce_DoQPort r) (en_DoQPort c), en_DoHPath := given (ce_DoHPath r) (en_DoHPath c),
     en_ServerName := given (ce_ServerName r) (en_ServerName c), en_Cert := given (ce_Cert r) (en_Cert c)\<rparr>"

definition with_derived_names :: "EncryptedDNSConfig \<Rightarrow> CertConfig \<Rightarrow> CertConfig" where
  "with_derived_names e c =
     (if cr_DNSNames c = [] \<and> cr_IPAddresses c = []
      then (let (ds, is) = DeriveCertNames (en_ServerName e) (en_ListenAddress e) [] in c\<lparr>cr_DNSNames := ds, cr_IPAddresses := is\<rparr>)
      else c)"

text \<open>A self-signed certificate is made ready: first made when none is loaded, otherwise renewed when due.\<close>

definition ready_self_signed ::
  "'k cert_world \<Rightarrow> EncryptedDNSConfig \<Rightarrow> host_fs \<Rightarrow> 'k CertManager \<Rightarrow> EncryptedDNSConfig \<times> host_fs \<times> 'k CertManager" where
  "ready_self_signed W e f m =
     (if \<not> self_signed_source (en_Cert e) then (e, f, m)
      else if \<not> ci_Loaded (Info (cw_lib W) (cw_now W) m)
      then (case RenewSelfSignedIfNeeded (cw_lib W) (cw_cwd W) (cw_draw W) (cw_now W) (with_derived_names e (en_Cert e)) f m of
              (Inl _, f', m') \<Rightarrow> (e, f', m')
            | (Inr _, f', m') \<Rightarrow> (e\<lparr>en_Cert := cm_cfg m'\<rparr>, f', m'))
      else (case RenewSelfSignedIfNeeded (cw_lib W) (cw_cwd W) (cw_draw W) (cw_now W) (en_Cert e) f m of
              (Inl _, f', m') \<Rightarrow> (e, f', m')
            | (Inr renewed, f', m') \<Rightarrow> (if renewed then e\<lparr>en_Cert := cm_cfg m'\<rparr> else e, f', m')))"

definition ConfigureEncryptedDNS ::
  "'k cert_world \<Rightarrow> 'x config_json \<Rightarrow> ConfigureEncryptedDNSRequest \<Rightarrow> ('x, 'k) service \<Rightarrow> ('x, 'k) service" where
  "ConfigureEncryptedDNS W J r s =
     (let old = co_Encrypted (sv_cfg s); e = NormalizeEncryptedDNSConfig (apply_request r old) in
      case sv_certs s of
        None \<Rightarrow> rebuild (persistConfigLocked J (set_encrypted e s))
      | Some m \<Rightarrow>
          (let m1 = (if en_Cert e \<noteq> en_Cert old then cert_Configure (cw_lib W) (sv_disk s) (en_Cert e) m else m);
               (e', f', m2) = ready_self_signed W e (sv_disk s) m1
           in rebuild (persistConfigLocked J (set_encrypted e' (s\<lparr>sv_certs := Some m2, sv_disk := f'\<rparr>)))))"

section \<open>Certificates\<close>

record GenerateCertRequest =
  gr_KeyType :: string
  gr_CommonName :: string
  gr_DNSNames :: "string list"
  gr_IPAddresses :: "string list"
  gr_ValidDays :: int
  gr_Force :: bool

datatype control_error = NoCertManager | CertError cert_error | EmptyPEM | BadBase64 | BadImportMode string

definition request_cert :: "GenerateCertRequest \<Rightarrow> EncryptedDNSConfig \<Rightarrow> CertConfig" where
  "request_cert r e =
     (let c = en_Cert e;
          c1 = c\<lparr>cr_KeyType := (if gr_KeyType r \<noteq> [] then gr_KeyType r else cr_KeyType c),
                 cr_CommonName := (if gr_CommonName r \<noteq> [] then gr_CommonName r else cr_CommonName c),
                 cr_DNSNames := gr_DNSNames r, cr_IPAddresses := gr_IPAddresses r,
                 cr_ValidDays := (if gr_ValidDays r > 0 then gr_ValidDays r else cr_ValidDays c)\<rparr>
      in NormalizeCertConfig (with_derived_names e c1))"

text \<open>Take the configuration over from the manager, store it, keep the files and the manager an operation left.\<close>

definition adopt_cert :: "'x config_json \<Rightarrow> host_fs \<Rightarrow> 'k CertManager \<Rightarrow> ('x, 'k) service \<Rightarrow> ('x, 'k) service" where
  "adopt_cert J f m s =
     persistConfigLocked J (set_encrypted ((co_Encrypted (sv_cfg s))\<lparr>en_Cert := cm_cfg m\<rparr>) (s\<lparr>sv_certs := Some m, sv_disk := f\<rparr>))"

definition GenerateEncryptedCert ::
  "'k cert_world \<Rightarrow> 'x config_json \<Rightarrow> GenerateCertRequest \<Rightarrow> ('x, 'k) service \<Rightarrow> control_error option \<times> ('x, 'k) service" where
  "GenerateEncryptedCert W J r s =
     (case sv_certs s of None \<Rightarrow> (Some NoCertManager, rebuild s)
      | Some m \<Rightarrow>
         (let c = request_cert r (co_Encrypted (sv_cfg s));
              (err, f', m') = (if gr_Force r then RegenerateSelfSigned (cw_lib W) (cw_draw W) (cw_now W) c (sv_disk s) m
                 else (case EnsureSelfSigned (cw_lib W) (cw_cwd W) (cw_draw W) (cw_now W) c (sv_disk s) m of
                         (Inl e, f1, m1) \<Rightarrow> (Some e, f1, m1) | (Inr _, f1, m1) \<Rightarrow> (None, f1, m1)))
          in case err of
               Some e \<Rightarrow> (Some (CertError e), rebuild (s\<lparr>sv_certs := Some m', sv_disk := f'\<rparr>))
             | None \<Rightarrow> (None, rebuild (adopt_cert J f' m' s))))"

record ImportCertRequest =
  ir_Mode :: string
  ir_CertPEM :: string
  ir_KeyPEM :: string
  ir_Data :: string
  ir_Password :: string

definition import_request ::
  "'k cert_world \<Rightarrow> (string \<Rightarrow> string option) \<Rightarrow> ImportCertRequest \<Rightarrow> host_fs \<Rightarrow> 'k CertManager \<Rightarrow>
   control_error option \<times> host_fs \<times> 'k CertManager" where
  "import_request W b64 r f m =
     (if ir_Mode r = ''pem''
      then (if ir_CertPEM r = [] \<or> ir_KeyPEM r = [] then (Some EmptyPEM, f, m)
            else (case ImportPEM (cw_lib W) (ir_CertPEM r) (ir_KeyPEM r) f m of (e, f', m') \<Rightarrow> (map_option CertError e, f', m')))
      else if ir_Mode r = ''pkcs12''
      then (case b64 (ir_Data r) of None \<Rightarrow> (Some BadBase64, f, m)
            | Some raw \<Rightarrow> (case ImportPKCS12 (cw_lib W) raw (ir_Password r) f m of (e, f', m') \<Rightarrow> (map_option CertError e, f', m')))
      else (Some (BadImportMode (ir_Mode r)), f, m))"

definition ImportEncryptedCert ::
  "'k cert_world \<Rightarrow> 'x config_json \<Rightarrow> (string \<Rightarrow> string option) \<Rightarrow> ImportCertRequest \<Rightarrow> ('x, 'k) service \<Rightarrow>
   control_error option \<times> ('x, 'k) service" where
  "ImportEncryptedCert W J b64 r s =
     (case sv_certs s of None \<Rightarrow> (Some NoCertManager, rebuild s)
      | Some m \<Rightarrow>
         (case import_request W b64 r (sv_disk s) m of
            (Some e, f', m') \<Rightarrow> (Some e, rebuild (s\<lparr>sv_certs := Some m', sv_disk := f'\<rparr>))
          | (None, f', m') \<Rightarrow> (None, rebuild (adopt_cert J f' m' s))))"

section \<open>The manager and the configuration stay in step\<close>

definition in_step :: "('x, 'k) service \<Rightarrow> bool" where
  "in_step s = (\<exists>m. sv_certs s = Some m \<and> cm_ok m \<and> cm_cfg m = en_Cert (co_Encrypted (sv_cfg s)) \<and>
     NormalizeEncryptedDNSConfig (co_Encrypted (sv_cfg s)) = co_Encrypted (sv_cfg s))"

lemma service_sel [simp]:
  "sv_certs (persistConfigLocked J s) = sv_certs s" "sv_cfg (persistConfigLocked J s) = sv_cfg s"
  "sv_certs (rebuild s) = sv_certs s" "sv_cfg (rebuild s) = sv_cfg s" "sv_disk (rebuild s) = sv_disk s"
  "sv_certs (set_encrypted e s) = sv_certs s" "co_Encrypted (sv_cfg (set_encrypted e s)) = e"
  by (simp_all add: persistConfigLocked_def rebuild_def set_encrypted_def)

lemma normal_with_cert:
  assumes "NormalizeEncryptedDNSConfig e = e" "NormalizeCertConfig c = c"
  shows "NormalizeEncryptedDNSConfig (e\<lparr>en_Cert := c\<rparr>) = e\<lparr>en_Cert := c\<rparr>"
proof -
  have "NormalizeEncryptedDNSConfig (e\<lparr>en_Cert := c\<rparr>) = (NormalizeEncryptedDNSConfig e)\<lparr>en_Cert := normalize_cert c\<rparr>"
    by (simp add: NormalizeEncryptedDNSConfig_def)
  then show ?thesis using assms by (simp add: NormalizeCertConfig_eq)
qed

lemma normal_cert: "NormalizeEncryptedDNSConfig e = e \<Longrightarrow> NormalizeCertConfig (en_Cert e) = en_Cert e"
proof -
  assume "NormalizeEncryptedDNSConfig e = e"
  then have "en_Cert (NormalizeEncryptedDNSConfig e) = en_Cert e" by simp
  then show ?thesis by (simp add: NormalizeEncryptedDNSConfig_def NormalizeCertConfig_eq)
qed

lemma issue_error: "issue_self_signed L d now cfg f m = (Some e, f', m') \<Longrightarrow> m' = m"
  by (auto simp: issue_self_signed_def split: sum.splits prod.splits option.splits)

lemma regenerate_error: "RegenerateSelfSigned L d now cfg f m = (Some e, f', m') \<Longrightarrow> m' = m"
  by (auto simp: RegenerateSelfSigned_def dest: issue_error split: if_splits)

lemma ensure_error: "EnsureSelfSigned L cwd d now cfg f m = (Inl e, f', m') \<Longrightarrow> m' = m"
  by (auto simp: EnsureSelfSigned_def Let_def dest: issue_error split: if_splits prod.splits option.splits)

lemma ensure_missing:
  "\<not> fileExists f (filepath_Join (cm_dir m) SelfSignedCertFileName) \<Longrightarrow> EnsureSelfSigned L cwd d now cfg f m \<noteq> (Inr False, f', m')"
  by (auto simp: EnsureSelfSigned_def Let_def split: prod.splits option.splits)

lemma renew_unchanged:
  "RenewSelfSignedIfNeeded L cwd d now cfg f m = (Inl e, f', m') \<Longrightarrow> m' = m"
  "RenewSelfSignedIfNeeded L cwd d now cfg f m = (Inr False, f', m') \<Longrightarrow> m' = m"
proof -
  show "RenewSelfSignedIfNeeded L cwd d now cfg f m = (Inl e, f', m') \<Longrightarrow> m' = m"
    by (auto simp: RenewSelfSignedIfNeeded_def Let_def dest: ensure_error regenerate_error split: if_splits prod.splits option.splits)
  show "RenewSelfSignedIfNeeded L cwd d now cfg f m = (Inr False, f', m') \<Longrightarrow> m' = m"
    using ensure_missing [of f m L cwd d now "NormalizeCertConfig cfg" f' m']
    by (auto simp: RenewSelfSignedIfNeeded_def Let_def split: if_splits prod.splits option.splits)
qed

lemma ok_after: "cm_ok m \<Longrightarrow> m' = m \<or> (\<exists>c g. m' = cert_Configure L g c m) \<Longrightarrow> cm_ok m'"
  using Configure_ok by blast

lemma regenerate_ok: "RegenerateSelfSigned L d now cfg f m = (e, f', m') \<Longrightarrow> cm_ok m \<Longrightarrow> cm_ok m'"
  using regenerate_state ok_after by blast

lemma ensure_ok: "EnsureSelfSigned L cwd d now cfg f m = (e, f', m') \<Longrightarrow> cm_ok m \<Longrightarrow> cm_ok m'"
  using ensure_state ok_after by blast

lemma import_ok: "ImportPEM L c k f m = (e, f', m') \<Longrightarrow> cm_ok m \<Longrightarrow> cm_ok m'"
  using import_state ok_after by blast

lemma pkcs12_ok: "ImportPKCS12 L pfx pw f m = (e, f', m') \<Longrightarrow> cm_ok m \<Longrightarrow> cm_ok m'"
  using pkcs12_state ok_after by blast

lemma import_error: "ImportPEM L c k f m = (Some e, f', m') \<Longrightarrow> m' = m"
  by (auto simp: ImportPEM_def Let_def split: if_splits prod.splits option.splits)

lemma pkcs12_error: "ImportPKCS12 L pfx pw f m = (Some e, f', m') \<Longrightarrow> m' = m"
  by (auto simp: ImportPKCS12_def dest: import_error split: prod.splits option.splits sum.splits)

lemma import_request_error: "import_request W b64 r f m = (Some e, f', m') \<Longrightarrow> m' = m"
  by (auto simp: import_request_def dest: import_error pkcs12_error split: if_splits prod.splits option.splits)

lemma import_request_ok: "import_request W b64 r f m = (e, f', m') \<Longrightarrow> cm_ok m \<Longrightarrow> cm_ok m'"
  by (auto simp: import_request_def split: if_splits prod.splits option.splits dest: import_ok pkcs12_ok)

lemma ready_in_step:
  assumes "ready_self_signed W e f m = (e', f', m')" "cm_ok m" "cm_cfg m = en_Cert e" "NormalizeEncryptedDNSConfig e = e"
  shows "cm_ok m' \<and> cm_cfg m' = en_Cert e' \<and> NormalizeEncryptedDNSConfig e' = e'"
proof -
  have c: "(m' = m \<and> e' = e) \<or> (e' = e\<lparr>en_Cert := cm_cfg m'\<rparr> \<and> (m' = m \<or> (\<exists>c g. m' = cert_Configure (cw_lib W) g c m)))"
    using assms(1) unfolding ready_self_signed_def
    by (auto dest: renew_unchanged renew_state split: if_splits prod.splits sum.splits)
  then have ok: "cm_ok m'" using ok_after [OF assms(2)] by blast
  then have "NormalizeCertConfig (cm_cfg m') = cm_cfg m'" by (simp add: cm_ok_def)
  from normal_with_cert [OF assms(4) this] c ok assms(3,4) show ?thesis by auto
qed

lemma adopt_in_step: "cm_ok m \<Longrightarrow> in_step s \<Longrightarrow> in_step (rebuild (adopt_cert J f m s))"
  unfolding in_step_def by (auto simp: adopt_cert_def normal_with_cert cm_ok_def)


definition sample_service :: "(unit, string) service" where
  "sample_service = \<lparr>sv_cfg = DefaultConfig plain_env, sv_certs = Some sample_certs, sv_path = ''/c/d.json'', sv_disk = sample_files,
     sv_rebuilt = 0\<rparr>"

definition sample_world :: "string cert_world" where
  "sample_world = \<lparr>cw_lib = cert_sample, cw_cwd = Some ''/'', cw_draw = sample_draw, cw_now = 0\<rparr>"

lemma sample_in_step: "in_step sample_service"
proof -
  have "cm_ok sample_certs"
    using reach_ok [of cert_sample sample_certs] cert_reach.start unfolding sample_certs_def by blast
  moreover have "cm_cfg sample_certs = DefaultCertConfig" by code_simp
  moreover have "NormalizeEncryptedDNSConfig DefaultEncryptedDNSConfig = DefaultEncryptedDNSConfig" by code_simp
  moreover have "co_Encrypted (sv_cfg sample_service) = DefaultEncryptedDNSConfig" "sv_certs sample_service = Some sample_certs"
    by (simp_all add: sample_service_def DefaultConfig_def)
  ultimately show ?thesis unfolding in_step_def by (simp add: DefaultEncryptedDNSConfig_def)
qed


section \<open>Restart\<close>

text \<open>The operating system lets every call on files succeed.\<close>

definition fs_works :: "host_fs \<Rightarrow> bool" where
  "fs_works f = (\<forall>p. hf_mkdir f p \<and> hf_read f p \<and> (\<forall>d. hf_write f p d = WriteDone) \<and> (\<forall>q. hf_rename f p q))"

lemma fs_works_put [simp]: "fs_works (hf_put f p d) = fs_works f"
  by (simp add: fs_works_def hf_put_def)

lemma write_works: "writeFilePrivate f p d = (e, f') \<Longrightarrow> fs_works f \<Longrightarrow> fs_works f'"
  by (auto simp: writeFilePrivate_def os_WriteFile_def split: if_splits write_outcome.splits)

lemma write_pair_works: "write_pair f p d q x = (e, f') \<Longrightarrow> fs_works f \<Longrightarrow> fs_works f'"
  by (auto simp: write_pair_def dest: write_works split: prod.splits option.splits)

text \<open>An operation that succeeded has configured the manager from the files it leaves.\<close>

definition configured :: "'k cert_lib \<Rightarrow> 'k CertManager \<Rightarrow> host_fs \<Rightarrow> host_fs \<Rightarrow> 'k CertManager \<Rightarrow> bool" where
  "configured L m f f' m' = ((fs_works f \<longrightarrow> fs_works f') \<and> (\<exists>c. m' = cert_Configure L f' c m))"

lemma issue_done: "issue_self_signed L d now cfg f m = (None, f', m') \<Longrightarrow> configured L m f f' m'"
  by (auto simp: issue_self_signed_def configured_def dest: write_pair_works split: sum.splits prod.splits option.splits)

lemma regenerate_done: "RegenerateSelfSigned L d now cfg f m = (None, f', m') \<Longrightarrow> configured L m f f' m'"
  by (auto simp: RegenerateSelfSigned_def dest: issue_done split: if_splits)

lemma ensure_done: "EnsureSelfSigned L cwd d now cfg f m = (Inr x, f', m') \<Longrightarrow> configured L m f f' m'"
  by (auto simp: EnsureSelfSigned_def configured_def Let_def dest: issue_done [unfolded configured_def] split: if_splits prod.splits option.splits)

lemma import_done: "ImportPEM L c k f m = (None, f', m') \<Longrightarrow> configured L m f f' m'"
  by (auto simp: ImportPEM_def configured_def Let_def dest: write_pair_works split: if_splits prod.splits option.splits)

lemma import_request_done: "import_request W b64 r f m = (None, f', m') \<Longrightarrow> configured (cw_lib W) m f f' m'"
  by (auto simp: import_request_def ImportPKCS12_def dest: import_done split: if_splits prod.splits option.splits sum.splits)

lemma generate_done:
  "GenerateEncryptedCert W J g s = (None, s') \<Longrightarrow>
   \<exists>m f' m'. sv_certs s = Some m \<and> configured (cw_lib W) m (sv_disk s) f' m' \<and> s' = rebuild (adopt_cert J f' m' s)"
  by (fastforce simp: GenerateEncryptedCert_def Let_def dest: regenerate_done ensure_done
      split: if_splits prod.splits option.splits sum.splits)

lemma import_control_done:
  "ImportEncryptedCert W J b64 i s = (None, s') \<Longrightarrow>
   \<exists>m f' m'. sv_certs s = Some m \<and> configured (cw_lib W) m (sv_disk s) f' m' \<and> s' = rebuild (adopt_cert J f' m' s)"
  by (fastforce simp: ImportEncryptedCert_def dest: import_request_done split: prod.splits option.splits)

lemma Reload_again:
  assumes "cm_dir m = cm_dir m'" "cm_cfg m = cm_cfg m'"
  shows "Reload L f m = Reload L f m'"
  using assms unfolding Reload_def by (cases m; cases m') (auto split: sum.splits)

lemma restart_same: "NewCertManager L f (cm_dir m) (cm_cfg (cert_Configure L f c m)) = cert_Configure L f c m"
proof -
  have "cm_cfg (cert_Configure L f c m) = NormalizeCertConfig c"
    by (simp add: cert_Configure_def Reload_def split: sum.splits prod.splits)
  then show ?thesis unfolding NewCertManager_def cert_Configure_def by (intro Reload_again) simp_all
qed

lemma restart_read:
  assumes "os_ReadFile f' (fst (CurrentPaths m)) = os_ReadFile f (fst (CurrentPaths m))"
    and "os_ReadFile f' (snd (CurrentPaths m)) = os_ReadFile f (snd (CurrentPaths m))"
  shows "loadCertMaterial L f' (cm_dir m) (cm_cfg m) = loadCertMaterial L f (cm_dir m) (cm_cfg m)"
  using assms by (auto simp: loadCertMaterial_def CurrentPaths_def cong: read_outcome.case_cong split: sum.splits)

lemma restart_manager:
  assumes "m' = cert_Configure L f c m" "os_ReadFile f' (fst (CurrentPaths m')) = os_ReadFile f (fst (CurrentPaths m'))"
    and "os_ReadFile f' (snd (CurrentPaths m')) = os_ReadFile f (snd (CurrentPaths m'))"
  shows "NewCertManager L f' (cm_dir m') (cm_cfg m') = m'"
proof -
  have dir: "cm_dir m' = cm_dir m" by (simp add: assms(1) cert_Configure_def Reload_def split: sum.splits prod.splits)
  have "NormalizeCertConfig (cm_cfg m') = cm_cfg m'" using Configure_ok(1) [of L f c m] by (simp add: assms(1) cm_ok_def)
  then have "NewCertManager L f' (cm_dir m') (cm_cfg m') = NewCertManager L f (cm_dir m') (cm_cfg m')"
    using restart_read [OF assms(2,3), of L] by (simp add: NewCertManager_def Reload_def)
  then show ?thesis using restart_same [of L f m c, folded assms(1) dir] by simp
qed

lemma save_works:
  assumes "fs_works f" "MarshalIndent J cfg = Some d"
  shows "\<exists>f'. SaveConfig J path cfg f = (None, f')"
proof -
  let ?t = "path @ ''.tmp''" and ?f2 = "os_Remove (hf_put f (path @ ''.tmp'') d) path"
  have "map_of (hf_files ?f2) ?t = Some d" by (simp add: os_Remove_def update_conv')
  moreover have "hf_rename ?f2 ?t path" using assms(1) by (simp add: fs_works_def hf_put_def)
  ultimately have "fst (os_Rename ?f2 ?t path)" by (simp add: os_Rename_def)
  then obtain f3 where "os_Rename ?f2 ?t path = (True, f3)" by (metis prod.collapse)
  then show ?thesis using assms by (simp add: SaveConfig_def os_WriteFile_def fs_works_def)
qed

lemma save_other:
  assumes "SaveConfig J path cfg f = (None, f')" "q \<noteq> path" "q \<noteq> path @ ''.tmp''"
  shows "os_ReadFile f' q = os_ReadFile f q"
proof -
  obtain d f1 where w: "os_WriteFile f (path @ ''.tmp'') d = (True, f1)" and r: "os_Rename (os_Remove f1 path) (path @ ''.tmp'') path = (True, f')"
    using assms(1) by (auto simp: SaveConfig_def Let_def split: if_splits option.splits prod.splits bool.splits)
  have "os_ReadFile f' q = os_ReadFile (os_Remove f1 path) q"
    using r assms(2,3) by (auto simp: os_Rename_def os_ReadFile_def update_conv' split: option.splits if_splits)
  then show ?thesis using os_WriteFile_other [OF w assms(3)] assms(2) by (simp add: os_Remove_read)
qed

lemma generate_cfg: "sv_cfg (snd (GenerateEncryptedCert W J g s)) = sv_cfg (snd (GenerateEncryptedCert W J' g s))"
  by (auto simp: GenerateEncryptedCert_def adopt_cert_def set_encrypted_def Let_def split: prod.splits option.splits)

text \<open>A service that keeps a certificate and its configuration in one directory, and a request for a new certificate.\<close>

definition sample_request :: GenerateCertRequest where
  "sample_request = \<lparr>gr_KeyType = [], gr_CommonName = [], gr_DNSNames = [], gr_IPAddresses = [], gr_ValidDays = 10, gr_Force = True\<rparr>"

definition restart_json :: "unit config_json" where
  "restart_json = \<lparr>MarshalIndent = (\<lambda>_. Some ''J''),
     UnmarshalInto = (\<lambda>_ _. Some (sv_cfg (snd (GenerateEncryptedCert sample_world plain_json sample_request sample_service))))\<rparr>"

definition sample_renewed :: "control_error option \<times> (unit, string) service" where
  "sample_renewed = GenerateEncryptedCert sample_world restart_json sample_request sample_service"

lemma sample_renewed_done: "fst sample_renewed = None"
  by code_simp

lemma sample_renewed_paths: "map_option CurrentPaths (sv_certs (snd sample_renewed)) = Some (''/c/server.crt'', ''/c/server.key'')"
  by code_simp

lemma sample_renewed_loaded: "map_option cm_loaded (sv_certs (snd sample_renewed)) = Some True"
  by code_simp

end
